(* ===== verification/Prelude.thy ===== *)
theory Prelude
  imports Complex_Main
begin

text \<open>
  What the components share: the errors of the program as values, the database monad in
  which the operations are written (state, error and rollback), JSON values, the string
  functions of Go's standard library the code uses, and the generic lemmas about them.

  Every exported operation of the services is a value of type \<open>('s, 'a) dbm\<close>: it takes the
  database state and returns the error or the result, and the state after it. PostgreSQL
  is not under src/. What the code relies on is modelled: a table is the list of its rows, a
  statement may fail (the field \<open>faults\<close> scripts which of the next statements fail; the
  empty script is a healthy database), and \<open>with_tx\<close> (internal/db/db.go) commits the
  body's effect or leaves the tables as they were. Random identifiers come from the
  supply \<open>uuids\<close>, of which nothing is assumed unless a statement says so.
\<close>

named_theorems preserves_rules "rules that decompose preservation goals"
named_theorems dbm_defs "the definitions of the database monad"

section \<open>Errors\<close>

text \<open>
  One constructor per sentinel error of the packages; wrapping with more text
  (\<open>fmt.Errorf\<close> with \<open>%w\<close>) keeps the sentinel, an error without one is \<open>ErrMsg\<close>.
\<close>

datatype err =
    ErrDB
  | ErrNoRows
  | ErrUnique string
  | ErrJSON
  | ErrMsg string
  | ErrExternal string
  | Panic
  | ApprovalNotFound
  | AlreadyDecided
  | SelfApproval
  | ApproverRole
  | NotRequester
  | InvalidConfig
  | ClusterNotFound
  | ClusterNameTaken
  | TokenInvalid
  | TokenNotFound
  | TokenExpired
  | TokenUsed
  | ClusterNotPending
  | ClusterRevokedErr
  | ClusterNotPendingDeletion
  | ClusterInvalidTransition
  | SharedResources
  | FleetNotFound
  | FleetInvalidInput
  | InvalidTransition
  | ZoneNotFound
  | ZoneInvalidState
  | SlugTaken
  | PreflightDenied
  | AccountNotFound
  | AccountRegistered
  | AccountInput
  | ValidationUnavailable
  | DeletionNotFound
  | DependencyError "(string \<times> string \<times> string \<times> string) list"
  | OrgNotFound
  | RoleNotFound
  | RoleNameTaken
  | BuiltinRoleErr
  | RoleInUse
  | AdminGuardrailErr
  | RoleInputError
  | UserNotFound
  | TeamNotFound
  | TeamNameTaken
  | DefaultTeamErr
  | MembersTeamInUse
  | ErrJoined "err list"

section \<open>JSON values\<close>

text \<open>
  A \<open>json.RawMessage\<close> or JSONB column holds a parsed value. \<open>jfield\<close> reads one field of a
  struct target of \<open>json.Unmarshal\<close> with the decoder of its type: a missing field or null is the zero value, a value of
  another type is an error.
\<close>

datatype json =
    JNull
  | JBool bool
  | JNum real
  | JStr string
  | JArr "json list"
  | JObj "(string \<times> json) list"

fun jlookup :: "string \<Rightarrow> json \<Rightarrow> err + json" where
  "jlookup k (JObj kvs) = Inr (case map_of kvs k of None \<Rightarrow> JNull | Some v \<Rightarrow> v)"
| "jlookup k JNull = Inr JNull"
| "jlookup k _ = Inl ErrJSON"

fun jas_string :: "json \<Rightarrow> err + string" where
  "jas_string JNull = Inr []"
| "jas_string (JStr s) = Inr s"
| "jas_string _ = Inl ErrJSON"

fun jas_int :: "json \<Rightarrow> err + int" where
  "jas_int JNull = Inr 0"
| "jas_int (JNum r) = (if r = of_int \<lfloor>r\<rfloor> then Inr \<lfloor>r\<rfloor> else Inl ErrJSON)"
| "jas_int _ = Inl ErrJSON"

fun jas_real :: "json \<Rightarrow> err + real" where
  "jas_real JNull = Inr 0"
| "jas_real (JNum r) = Inr r"
| "jas_real _ = Inl ErrJSON"

fun jas_list :: "json \<Rightarrow> err + json list" where
  "jas_list JNull = Inr []"
| "jas_list (JArr js) = Inr js"
| "jas_list _ = Inl ErrJSON"

fun jmap :: "(json \<Rightarrow> err + 'a) \<Rightarrow> json list \<Rightarrow> err + 'a list" where
  "jmap f [] = Inr []"
| "jmap f (j # js) = (case f j of Inl e \<Rightarrow> Inl e
     | Inr x \<Rightarrow> (case jmap f js of Inl e \<Rightarrow> Inl e | Inr xs \<Rightarrow> Inr (x # xs)))"

definition jfield :: "(json \<Rightarrow> err + 'a) \<Rightarrow> string \<Rightarrow> json \<Rightarrow> err + 'a" where
  "jfield f k j = (case jlookup k j of Inl e \<Rightarrow> Inl e | Inr v \<Rightarrow> f v)"

definition jlist :: "(json \<Rightarrow> err + 'a) \<Rightarrow> json \<Rightarrow> err + 'a list" where
  "jlist f j = (case jas_list j of Inl e \<Rightarrow> Inl e | Inr js \<Rightarrow> jmap f js)"

lemma jmap_map: "(\<And>x. x \<in> set xs \<Longrightarrow> f (g x) = Inr x) \<Longrightarrow> jmap f (map g xs) = Inr xs"
  by (induction xs) auto

definition jstring :: "string \<Rightarrow> json \<Rightarrow> err + string" where
  "jstring = jfield jas_string"

definition jint :: "string \<Rightarrow> json \<Rightarrow> err + int" where
  "jint = jfield jas_int"

section \<open>Strings\<close>

text \<open>Go's \<open>strings.HasPrefix\<close>, \<open>TrimPrefix\<close>, \<open>HasSuffix\<close>, \<open>TrimSuffix\<close>, \<open>TrimSpace\<close> (on
  ASCII white space), \<open>Split\<close> on one character and \<open>ReplaceAll\<close> of one character.\<close>

definition has_prefix :: "string \<Rightarrow> string \<Rightarrow> bool" where
  "has_prefix s p \<longleftrightarrow> take (length p) s = p"

definition trim_prefix :: "string \<Rightarrow> string \<Rightarrow> string" where
  "trim_prefix s p = (if has_prefix s p then drop (length p) s else s)"

definition has_suffix :: "string \<Rightarrow> string \<Rightarrow> bool" where
  "has_suffix s p \<longleftrightarrow> has_prefix (rev s) (rev p)"

definition trim_suffix :: "string \<Rightarrow> string \<Rightarrow> string" where
  "trim_suffix s p = rev (trim_prefix (rev s) (rev p))"

definition is_space :: "char \<Rightarrow> bool" where
  "is_space c \<longleftrightarrow> c = CHR '' '' \<or> c = CHR 0x09 \<or> c = CHR 0x0A \<or> c = CHR 0x0B \<or> c = CHR 0x0C \<or> c = CHR 0x0D"

definition trim_space :: "string \<Rightarrow> string" where
  "trim_space s = rev (dropWhile is_space (rev (dropWhile is_space s)))"

fun split_on :: "char \<Rightarrow> string \<Rightarrow> string list" where
  "split_on c [] = [[]]"
| "split_on c (x # xs) =
     (if x = c then [] # split_on c xs
      else (case split_on c xs of [] \<Rightarrow> [[x]] | p # ps \<Rightarrow> (x # p) # ps))"

definition replace_char :: "char \<Rightarrow> char \<Rightarrow> string \<Rightarrow> string" where
  "replace_char a b s = map (\<lambda>c. if c = a then b else c) s"

text \<open>
  \<open>strconv.Atoi\<close>: an optional sign and decimal digits, in the range of a 64-bit int; and the
  decimal rendering of a non-negative int by the format verb \<open>%d\<close>.
\<close>

definition is_digit :: "char \<Rightarrow> bool" where
  "is_digit c \<longleftrightarrow> 48 \<le> (of_char c :: nat) \<and> (of_char c :: nat) \<le> 57"

definition digit_val :: "char \<Rightarrow> int" where
  "digit_val c = of_char c - 48"

fun digits_val :: "int \<Rightarrow> string \<Rightarrow> int" where
  "digits_val acc [] = acc"
| "digits_val acc (c # cs) = digits_val (10 * acc + digit_val c) cs"

definition atoi :: "string \<Rightarrow> int option" where
  "atoi s =
     (let neg = (case s of c # _ \<Rightarrow> c = CHR ''-'' | [] \<Rightarrow> False);
          ds = (case s of c # cs \<Rightarrow> if c = CHR ''-'' \<or> c = CHR ''+'' then cs else s | [] \<Rightarrow> []);
          n = (if neg then - digits_val 0 ds else digits_val 0 ds)
      in if ds \<noteq> [] \<and> (\<forall>c \<in> set ds. is_digit c) \<and> - (2 ^ 63) \<le> n \<and> n < 2 ^ 63 then Some n else None)"

text \<open>The arithmetic of \<open>int64\<close>.\<close>

definition wrap64 :: "int \<Rightarrow> int" where
  "wrap64 x = (x + 2 ^ 63) mod 2 ^ 64 - 2 ^ 63"

lemma wrap64_small: "0 \<le> x \<Longrightarrow> x < 2 ^ 63 \<Longrightarrow> wrap64 x = x"
  by (simp add: wrap64_def)

definition digit_char :: "nat \<Rightarrow> char" where
  "digit_char d = char_of (48 + d)"

fun show_nat :: "nat \<Rightarrow> string" where
  "show_nat n = (if n < 10 then [digit_char n] else show_nat (n div 10) @ [digit_char (n mod 10)])"

declare show_nat.simps [simp del]

lemma of_digit_char: "d < 10 \<Longrightarrow> (of_char (digit_char d) :: nat) = 48 + d"
  by (simp add: digit_char_def)

lemma digit_char_is_digit: "d < 10 \<Longrightarrow> is_digit (digit_char d)"
  by (simp add: is_digit_def of_digit_char)

lemma digit_char_inj: "a < 10 \<Longrightarrow> b < 10 \<Longrightarrow> digit_char a = digit_char b \<Longrightarrow> a = b"
  by (metis of_digit_char add_left_cancel)

lemma show_nat_digits: "\<forall>c \<in> set (show_nat n). is_digit c"
proof (induction n rule: show_nat.induct)
  case (1 n)
  then show ?case
    by (subst show_nat.simps) (auto simp: digit_char_is_digit)
qed

lemma show_nat_nonempty: "show_nat n \<noteq> []"
  by (subst show_nat.simps) simp

lemma show_nat_less: "n < 10 \<Longrightarrow> show_nat n = [digit_char n]"
  by (subst show_nat.simps) simp

lemma show_nat_ge: "\<not> n < 10 \<Longrightarrow> show_nat n = show_nat (n div 10) @ [digit_char (n mod 10)]"
  by (subst show_nat.simps) simp

lemma show_nat_inj: "show_nat m = show_nat n \<Longrightarrow> m = n"
proof (induction m arbitrary: n rule: show_nat.induct)
  case (1 m)
  show ?case
  proof (cases "m < 10")
    case True
    show ?thesis
    proof (cases "n < 10")
      case True
      with \<open>m < 10\<close> "1.prems" show ?thesis
        by (simp add: show_nat_less digit_char_inj)
    next
      case False
      with \<open>m < 10\<close> "1.prems" show ?thesis
        by (simp add: show_nat_less show_nat_ge show_nat_nonempty Cons_eq_append_conv)
    qed
  next
    case False
    show ?thesis
    proof (cases "n < 10")
      case True
      with False "1.prems" show ?thesis
        by (simp add: show_nat_less show_nat_ge show_nat_nonempty append_eq_Cons_conv)
    next
      case nF: False
      from False nF "1.prems" have q: "show_nat (m div 10) = show_nat (n div 10)"
        and d: "digit_char (m mod 10) = digit_char (n mod 10)"
        by (simp_all add: show_nat_ge)
      from "1.IH" [OF False q] have "m div 10 = n div 10" .
      moreover have "m mod 10 = n mod 10"
        by (rule digit_char_inj) (simp_all add: d)
      ultimately show ?thesis by (metis div_mult_mod_eq)
    qed
  qed
qed

lemma show_nat_no_colon: "CHR '':'' \<notin> set (show_nat n)"
  using show_nat_digits [of n] by (force simp: is_digit_def)

text \<open>The byte order of strings (\<open>sort.Strings\<close>, and \<open>ORDER BY\<close> on a text column), and a stable sort by it.\<close>

definition string_code :: "string \<Rightarrow> nat list" where
  "string_code s = map of_char s"

fun nats_less :: "nat list \<Rightarrow> nat list \<Rightarrow> bool" where
  "nats_less _ [] = False"
| "nats_less [] (_ # _) = True"
| "nats_less (x # xs) (y # ys) = (x < y \<or> (x = y \<and> nats_less xs ys))"

fun insert_name :: "('r \<Rightarrow> string) \<Rightarrow> 'r \<Rightarrow> 'r list \<Rightarrow> 'r list" where
  "insert_name k x [] = [x]"
| "insert_name k x (y # ys) =
     (if nats_less (string_code (k y)) (string_code (k x)) then y # insert_name k x ys else x # y # ys)"

definition sort_names :: "('r \<Rightarrow> string) \<Rightarrow> 'r list \<Rightarrow> 'r list" where
  "sort_names k xs = foldr (insert_name k) xs []"

lemma set_insert_name [simp]: "set (insert_name k x ys) = insert x (set ys)"
  by (induction ys) auto

lemma set_sort_names [simp]: "set (sort_names k xs) = set xs"
proof -
  have "set (foldr (insert_name k) xs []) = set xs" by (induction xs) auto
  then show ?thesis by (simp add: sort_names_def)
qed

lemma distinct_insert_name: "distinct (insert_name k x ys) \<longleftrightarrow> distinct (x # ys)"
  by (induction ys) auto

lemma distinct_sort_names [simp]: "distinct (sort_names k xs) \<longleftrightarrow> distinct xs"
proof -
  have "distinct (foldr (insert_name k) xs []) \<longleftrightarrow> distinct xs"
  proof (induction xs)
    case (Cons x xs)
    have "set (foldr (insert_name k) xs []) = set xs" using set_sort_names [of k xs] by (simp add: sort_names_def)
    with Cons show ?case by (simp add: distinct_insert_name)
  qed simp
  then show ?thesis by (simp add: sort_names_def)
qed

section \<open>Rows and tables\<close>

text \<open>
  \<open>SELECT ... WHERE id = $1\<close> on a table whose key is unique reads the first matching row;
  \<open>UPDATE ... WHERE\<close> rewrites every matching row and reports how many matched.
\<close>

definition select_row :: "('r \<Rightarrow> bool) \<Rightarrow> 'r list \<Rightarrow> 'r option" where
  "select_row P rows = find P rows"

definition update_rows :: "('r \<Rightarrow> bool) \<Rightarrow> ('r \<Rightarrow> 'r) \<Rightarrow> 'r list \<Rightarrow> 'r list" where
  "update_rows P f rows = map (\<lambda>r. if P r then f r else r) rows"

definition rows_affected :: "('r \<Rightarrow> bool) \<Rightarrow> 'r list \<Rightarrow> nat" where
  "rows_affected P rows = length (filter P rows)"

lemma select_row_SomeD: "select_row P rows = Some r \<Longrightarrow> P r \<and> r \<in> set rows"
  by (auto simp: select_row_def find_Some_iff)

lemma select_row_None_iff: "select_row P rows = None \<longleftrightarrow> (\<forall>r \<in> set rows. \<not> P r)"
  by (auto simp: select_row_def find_None_iff)

lemma set_update_rows: "set (update_rows P f rows) = (\<lambda>r. if P r then f r else r) ` set rows"
  by (simp add: update_rows_def)

lemma bex_update_rows:
  "(\<exists>c \<in> set (update_rows P f rows). Q c) \<longleftrightarrow> (\<exists>c \<in> set rows. Q (if P c then f c else c))"
  by (induction rows) (auto simp: update_rows_def)

lemma ball_update_rows:
  "(\<forall>c \<in> set (update_rows P f rows). Q c) \<longleftrightarrow> (\<forall>c \<in> set rows. Q (if P c then f c else c))"
  by (induction rows) (auto simp: update_rows_def)

lemma map_update_rows_same:
  "(\<And>r. P r \<Longrightarrow> k (f r) = k r) \<Longrightarrow> map k (update_rows P f rows) = map k rows"
  by (simp add: update_rows_def)

lemma length_update_rows [simp]: "length (update_rows P f rows) = length rows"
  by (simp add: update_rows_def)

lemma rows_affected_0_iff: "rows_affected P rows = 0 \<longleftrightarrow> (\<forall>r \<in> set rows. \<not> P r)"
  by (auto simp: rows_affected_def filter_empty_conv)

lemma update_rows_none: "\<forall>r \<in> set rows. \<not> P r \<Longrightarrow> update_rows P f rows = rows"
  by (auto simp: update_rows_def intro: map_idI)

lemma update_rows_Nil [simp]: "update_rows P f [] = []"
  by (simp add: update_rows_def)

lemma update_rows_Cons [simp]:
  "update_rows P f (r # rs) = (if P r then f r else r) # update_rows P f rs"
  by (simp add: update_rows_def)

lemma select_row_update_key:
  assumes "\<And>r. Q (f r) = Q r"
  shows "select_row Q (update_rows P f rows) = map_option (\<lambda>r. if P r then f r else r) (select_row Q rows)"
  by (induction rows) (auto simp: select_row_def assms)

lemma select_row_snoc:
  "\<forall>r \<in> set rs. \<not> Q r \<Longrightarrow> Q row \<Longrightarrow> select_row Q (rs @ [row]) = Some row"
  by (induction rs) (auto simp: select_row_def)

lemma distinct_key_unique:
  "distinct (map k rows) \<Longrightarrow> r \<in> set rows \<Longrightarrow> r' \<in> set rows \<Longrightarrow> k r = k r' \<Longrightarrow> r = r'"
  by (induction rows) (auto simp: rev_image_eqI)

lemma select_row_key:
  "distinct (map k rows) \<Longrightarrow> r \<in> set rows \<Longrightarrow> select_row (\<lambda>x. k x = k r) rows = Some r"
  by (induction rows) (auto simp: select_row_def rev_image_eqI)

section \<open>The shared tables and the database monad\<close>

text \<open>
  An audit row and an outbox row (internal/types, migrations 0001 and 0019). The id of an
  audit row is random, the id of an outbox row comes from a sequence.
\<close>

record audit_event =
  ev_id :: string
  ev_org :: string
  ev_actor :: string
  ev_impersonator :: string
  ev_action :: string
  ev_object_type :: string
  ev_object_id :: string
  ev_payload :: json
  ev_created :: int

record outbox_event =
  ob_id :: int
  ob_org :: string
  ob_type :: string
  ob_payload :: json
  ob_occurred :: int
  ob_published :: "int option"
  ob_attempts :: nat
  ob_last_error :: string

text \<open>
  The part of the database every component writes. \<open>clock\<close> is both the server's and the
  database's time, in nanoseconds, as \<open>time.Time\<close> and \<open>time.Duration\<close> count it.
\<close>

record db =
  faults :: "bool list"
  clock :: int
  uuids :: "nat \<Rightarrow> string"
  uuid_next :: nat
  audit_rows :: "audit_event list"
  audit_archive :: "audit_event list"
  outbox_rows :: "outbox_event list"
  outbox_seq :: int

type_synonym ('s, 'a) dbm = "'s \<Rightarrow> (err + 'a) \<times> 's"

definition ret :: "'a \<Rightarrow> ('s, 'a) dbm" where
  [dbm_defs]: "ret x = (\<lambda>s. (Inr x, s))"

definition throw :: "err \<Rightarrow> ('s, 'a) dbm" where
  [dbm_defs]: "throw e = (\<lambda>s. (Inl e, s))"

definition bindE :: "('s, 'a) dbm \<Rightarrow> ('a \<Rightarrow> ('s, 'b) dbm) \<Rightarrow> ('s, 'b) dbm" where
  [dbm_defs]: "bindE m f = (\<lambda>s. case m s of (Inl e, s') \<Rightarrow> (Inl e, s') | (Inr x, s') \<Rightarrow> f x s')"

definition thenE :: "('s, 'a) dbm \<Rightarrow> ('s, 'b) dbm \<Rightarrow> ('s, 'b) dbm" where
  [dbm_defs]: "thenE m n = bindE m (\<lambda>_. n)"

definition catchE :: "('s, 'a) dbm \<Rightarrow> (err \<Rightarrow> ('s, 'a) dbm) \<Rightarrow> ('s, 'a) dbm" where
  [dbm_defs]: "catchE m h = (\<lambda>s. case m s of (Inl e, s') \<Rightarrow> h e s' | (Inr x, s') \<Rightarrow> (Inr x, s'))"

definition lift_sum :: "err + 'a \<Rightarrow> ('s, 'a) dbm" where
  [dbm_defs]: "lift_sum r = (\<lambda>s. (r, s))"

definition asks :: "('s \<Rightarrow> 'a) \<Rightarrow> ('s, 'a) dbm" where
  [dbm_defs]: "asks f = (\<lambda>s. (Inr (f s), s))"

definition modify :: "('s \<Rightarrow> 's) \<Rightarrow> ('s, unit) dbm" where
  [dbm_defs]: "modify f = (\<lambda>s. (Inr (), f s))"

text \<open>One statement: it fails when the script says so, otherwise it runs.\<close>

definition sql :: "('a db_scheme, 'b) dbm \<Rightarrow> ('a db_scheme, 'b) dbm" where
  "sql f = (\<lambda>s. case faults s of
      [] \<Rightarrow> f s
    | b # bs \<Rightarrow> (if b then (Inl ErrDB, s\<lparr>faults := bs\<rparr>) else f (s\<lparr>faults := bs\<rparr>)))"

text \<open>
  A rollback restores the tables. The fault script and the identifier supply keep their
  progress. (PostgreSQL also keeps the progress of the outbox sequence, so that ids of an
  aborted transaction are skipped; the code reads only the order of the ids.)
\<close>

definition rollback :: "'a db_scheme \<Rightarrow> 'a db_scheme \<Rightarrow> 'a db_scheme" where
  "rollback s0 s = s0\<lparr>faults := faults s, uuid_next := uuid_next s\<rparr>"

definition with_tx :: "('a db_scheme, 'b) dbm \<Rightarrow> ('a db_scheme, 'b) dbm" where
  "with_tx body = (\<lambda>s. case sql (ret ()) s of
      (Inl e, s1) \<Rightarrow> (Inl e, s1)
    | (Inr _, s1) \<Rightarrow>
        (case body s1 of
           (Inl e, s2) \<Rightarrow> (Inl e, rollback s1 s2)
         | (Inr x, s2) \<Rightarrow>
             (case sql (ret ()) s2 of
                (Inl e, s3) \<Rightarrow> (Inl e, rollback s1 s3)
              | (Inr _, s3) \<Rightarrow> (Inr x, s3))))"

text \<open>\<open>gen_random_uuid()\<close> and the services' \<open>newUUID\<close>.\<close>

definition new_uuid :: "('a db_scheme, string) dbm" where
  [dbm_defs]: "new_uuid = (\<lambda>s. (Inr (uuids s (uuid_next s)), s\<lparr>uuid_next := Suc (uuid_next s)\<rparr>))"

text \<open>A foreign key without its row; a loop that stops at the first error.\<close>

definition fk_violation :: err where "fk_violation = ErrMsg ''violates foreign key constraint''"

fun each_do :: "('x \<Rightarrow> ('s, unit) dbm) \<Rightarrow> 'x list \<Rightarrow> ('s, unit) dbm" where
  "each_do f [] = ret ()"
| "each_do f (x # xs) = thenE (f x) (each_do f xs)"

section \<open>Reasoning about operations\<close>

text \<open>
  A healthy database: no statement of the script fails. Under it \<open>sql\<close> is the identity and
  \<open>with_tx\<close> commits whatever the body returns.
\<close>

lemma sql_healthy [simp]: "faults s = [] \<Longrightarrow> sql f s = f s"
  by (simp add: sql_def)

lemma with_tx_healthy:
  assumes "faults s = []" and "body s = (r, s')" and "faults s' = []"
  shows "with_tx body s = (case r of Inl e \<Rightarrow> (Inl e, rollback s s') | Inr x \<Rightarrow> (Inr x, s'))"
  using assms by (cases r) (simp_all add: with_tx_def ret_def)

lemma rollback_same [simp]: "rollback s s = s"
  by (simp add: rollback_def)

text \<open>What a successful run did: the rules take an operation apart, statement by statement.\<close>

lemma ret_okE:
  assumes "ret x s = (Inr y, s')" obtains "y = x" "s' = s"
  using assms by (simp add: ret_def)

lemma throw_okE: "throw e s = (Inr y, s') \<Longrightarrow> P"
  by (simp add: throw_def)

lemma bindE_okE:
  assumes "bindE m f s = (Inr y, s')"
  obtains x s1 where "m s = (Inr x, s1)" "f x s1 = (Inr y, s')"
  using assms by (auto simp: bindE_def split: prod.splits sum.splits)

lemma thenE_okE:
  assumes "thenE m n s = (Inr y, s')"
  obtains x s1 where "m s = (Inr x, s1)" "n s1 = (Inr y, s')"
  using assms unfolding thenE_def by (elim bindE_okE)

lemma asks_okE:
  assumes run: "asks f s = (Inr y, s')" obtains "y = f s" "s' = s"
proof (rule that)
  show "y = f s" and "s' = s" using run by (auto simp: asks_def)
qed

lemma modify_okE:
  assumes "modify f s = (Inr y, s')" obtains "s' = f s"
  using assms by (simp add: modify_def)

lemma lift_sum_okE:
  assumes "lift_sum r s = (Inr y, s')" obtains "r = Inr y" "s' = s"
  using assms by (simp add: lift_sum_def)

lemma new_uuid_okE:
  assumes "new_uuid s = (Inr y, s')"
  obtains "y = uuids s (uuid_next s)" "s' = s\<lparr>uuid_next := Suc (uuid_next s)\<rparr>"
  using assms by (simp add: new_uuid_def)

lemma faults_upd_same: "s\<lparr>faults := faults s\<rparr> = s"
  by simp

lemma sql_okE:
  assumes "sql f s = (Inr y, s')"
  obtains fs where "f (s\<lparr>faults := fs\<rparr>) = (Inr y, s')"
proof (cases "faults s")
  case Nil
  with assms have "f s = (Inr y, s')" by simp
  then have "f (s\<lparr>faults := faults s\<rparr>) = (Inr y, s')" by (simp only: faults_upd_same)
  then show ?thesis by (rule that)
next
  case (Cons b bs)
  with assms that show ?thesis by (auto simp: sql_def split: if_splits)
qed

lemma sql_runE:
  assumes "sql f s = (res, s')"
  obtains fs where "res = Inl ErrDB" "s' = s\<lparr>faults := fs\<rparr>" | fs where "f (s\<lparr>faults := fs\<rparr>) = (res, s')"
proof (cases "faults s")
  case Nil
  with assms have "f s = (res, s')" by simp
  then have "f (s\<lparr>faults := faults s\<rparr>) = (res, s')" by (simp only: faults_upd_same)
  then show ?thesis by (rule that(2))
next
  case (Cons b bs)
  with assms that show ?thesis by (auto simp: sql_def split: if_splits)
qed

text \<open>A statement written with \<open>sql\<close> keeps what its body keeps.\<close>

lemma with_tx_okE:
  assumes "with_tx body s = (Inr y, s')"
  obtains fs fs' s2 where "body (s\<lparr>faults := fs\<rparr>) = (Inr y, s2)" "s' = s2\<lparr>faults := fs'\<rparr>"
proof -
  from assms obtain s1 s2 where 1: "sql (ret ()) s = (Inr (), s1)" and 2: "body s1 = (Inr y, s2)"
    and 3: "sql (ret ()) s2 = (Inr (), s')"
    by (auto simp: with_tx_def split: prod.splits sum.splits)
  from 1 obtain fs where "s1 = s\<lparr>faults := fs\<rparr>" by (auto elim!: sql_okE ret_okE)
  moreover from 3 obtain fs' where "s' = s2\<lparr>faults := fs'\<rparr>" by (auto elim!: sql_okE ret_okE)
  ultimately show ?thesis using 2 that by blast
qed

lemmas okE = ret_okE throw_okE bindE_okE thenE_okE asks_okE modify_okE lift_sum_okE
  new_uuid_okE sql_okE with_tx_okE

text \<open>
  An aborted transaction leaves every table as it was: only the script and the identifier
  supply may have moved.
\<close>

definition same_tables :: "'a db_scheme \<Rightarrow> 'a db_scheme \<Rightarrow> bool" where
  "same_tables s s' \<longleftrightarrow> s' = s\<lparr>faults := faults s', uuid_next := uuid_next s'\<rparr>"

lemma same_tablesI [intro]: "same_tables s (s\<lparr>faults := fs, uuid_next := u\<rparr>)"
  by (simp add: same_tables_def)

lemma same_tables_faults [simp, intro]: "same_tables s (s\<lparr>faults := fs\<rparr>)"
  by (simp add: same_tables_def)

lemma same_tables_refl [simp, intro]: "same_tables s s"
  by (simp add: same_tables_def)

lemma same_tables_uuid [simp, intro]: "same_tables s (s\<lparr>uuid_next := u\<rparr>)"
  by (simp add: same_tables_def)

lemma same_tablesE:
  assumes "same_tables s s'"
  obtains fs u where "s' = s\<lparr>faults := fs, uuid_next := u\<rparr>"
  using assms unfolding same_tables_def by blast

lemma same_tables_trans:
  assumes "same_tables s s'" and "same_tables s' s''"
  shows "same_tables s s''"
proof -
  from assms obtain fs u fs' u' where "s' = s\<lparr>faults := fs, uuid_next := u\<rparr>"
    and "s'' = s'\<lparr>faults := fs', uuid_next := u'\<rparr>" by (elim same_tablesE)
  then show ?thesis by (simp add: same_tables_def)
qed

lemma sql_ErrD:
  assumes "sql f s = (Inl e, s')"
  shows "(e = ErrDB \<and> (\<exists>fs. s' = s\<lparr>faults := fs\<rparr>)) \<or> (\<exists>fs. f (s\<lparr>faults := fs\<rparr>) = (Inl e, s'))"
proof (cases "faults s")
  case Nil
  with assms have "f s = (Inl e, s')" by simp
  then have "f (s\<lparr>faults := faults s\<rparr>) = (Inl e, s')" by (simp only: faults_upd_same)
  then show ?thesis by blast
next
  case (Cons b bs)
  with assms show ?thesis by (auto simp: sql_def split: if_splits)
qed

lemma rollback_same_tables: "same_tables s1 (rollback s1 s2)"
  unfolding rollback_def by (rule same_tablesI)

lemma with_tx_abort:
  assumes "with_tx body s = (Inl e, s')"
  shows "same_tables s s'"
proof -
  have b: "same_tables s s1" if "sql (ret ()) s = (r, s1)" for r s1
    using that by (cases r) (auto dest!: sql_ErrD simp: ret_def elim!: sql_okE)
  from assms show ?thesis
    by (auto simp: with_tx_def split: prod.splits sum.splits
        intro: b same_tables_trans [OF b rollback_same_tables])
qed

text \<open>Invariants: \<open>preserves I m\<close> says that \<open>m\<close> keeps \<open>I\<close> whether it succeeds or fails.\<close>

definition preserves :: "('s \<Rightarrow> bool) \<Rightarrow> ('s, 'a) dbm \<Rightarrow> bool" where
  "preserves I m \<longleftrightarrow> (\<forall>s. I s \<longrightarrow> I (snd (m s)))"

definition tx_stable :: "('a db_scheme \<Rightarrow> bool) \<Rightarrow> bool" where
  "tx_stable I \<longleftrightarrow> (\<forall>s s'. same_tables s s' \<longrightarrow> I s \<longrightarrow> I s')"

lemma preservesD: "preserves I m \<Longrightarrow> I s \<Longrightarrow> m s = (r, s') \<Longrightarrow> I s'"
  unfolding preserves_def by (metis snd_conv)

lemma preservesI: "(\<And>s r s'. I s \<Longrightarrow> m s = (r, s') \<Longrightarrow> I s') \<Longrightarrow> preserves I m"
  unfolding preserves_def by (metis prod.collapse)

lemma preserves_ret [preserves_rules]: "preserves I (ret x)"
  by (simp add: preserves_def ret_def)

lemma preserves_throw [preserves_rules]: "preserves I (throw e)"
  by (simp add: preserves_def throw_def)

lemma preserves_asks [preserves_rules]: "preserves I (asks f)"
  by (simp add: preserves_def asks_def)

lemma preserves_lift_sum [preserves_rules]: "preserves I (lift_sum r)"
  by (simp add: preserves_def lift_sum_def)

lemma preserves_bindE [preserves_rules]:
  "preserves I m \<Longrightarrow> (\<And>x. preserves I (f x)) \<Longrightarrow> preserves I (bindE m f)"
  by (rule preservesI) (auto simp: bindE_def split: prod.splits sum.splits dest: preservesD)

lemma preserves_thenE [preserves_rules]:
  "preserves I m \<Longrightarrow> preserves I n \<Longrightarrow> preserves I (thenE m n)"
  by (simp add: thenE_def preserves_bindE)

lemma preserves_catchE [preserves_rules]:
  "preserves I m \<Longrightarrow> (\<And>e. preserves I (h e)) \<Longrightarrow> preserves I (catchE m h)"
  by (rule preservesI) (auto simp: catchE_def split: prod.splits sum.splits dest: preservesD)

lemma preserves_if [preserves_rules]:
  "(c \<Longrightarrow> preserves I m) \<Longrightarrow> (\<not> c \<Longrightarrow> preserves I n) \<Longrightarrow> preserves I (if c then m else n)"
  by simp

lemma preserves_case_option [preserves_rules]:
  "(x = None \<Longrightarrow> preserves I m) \<Longrightarrow> (\<And>y. x = Some y \<Longrightarrow> preserves I (f y)) \<Longrightarrow>
   preserves I (case x of None \<Rightarrow> m | Some y \<Rightarrow> f y)"
  by (cases x) simp_all

lemma preserves_case_sum [preserves_rules]:
  "(\<And>e. x = Inl e \<Longrightarrow> preserves I (f e)) \<Longrightarrow> (\<And>y. x = Inr y \<Longrightarrow> preserves I (g y)) \<Longrightarrow>
   preserves I (case x of Inl e \<Rightarrow> f e | Inr y \<Rightarrow> g y)"
  by (cases x) simp_all

lemma preserves_modify: "(\<And>s. I s \<Longrightarrow> I (f s)) \<Longrightarrow> preserves I (modify f)"
  by (simp add: preserves_def modify_def)

lemma tx_stableD: "tx_stable I \<Longrightarrow> same_tables s s' \<Longrightarrow> I s \<Longrightarrow> I s'"
  by (auto simp: tx_stable_def)

lemma preserves_new_uuid [preserves_rules]: "tx_stable I \<Longrightarrow> preserves I new_uuid"
  by (rule preservesI) (auto simp: new_uuid_def same_tables_def intro: tx_stableD)

lemma preserves_sql [preserves_rules]:
  assumes "tx_stable I" and "preserves I f"
  shows "preserves I (sql f)"
proof (rule preservesI)
  fix s r s' assume I: "I s" and run: "sql f s = (r, s')"
  have "I (s\<lparr>faults := fs\<rparr>)" for fs
    using assms(1) I by (rule tx_stableD [OF _ same_tables_faults])
  then show "I s'" using run I preservesD [OF assms(2)]
    by (cases "faults s") (auto simp: sql_def split: if_splits)
qed

lemma preserves_with_tx [preserves_rules]:
  assumes "tx_stable I" and "preserves I body"
  shows "preserves I (with_tx body)"
proof (rule preservesI)
  fix s r s' assume I: "I s" and run: "with_tx body s = (r, s')"
  show "I s'"
  proof (cases r)
    case (Inl e)
    with run have "same_tables s s'" by (auto dest: with_tx_abort)
    with assms(1) I show ?thesis by (blast intro: tx_stableD)
  next
    case (Inr x)
    with run obtain fs fs' s2 where b: "body (s\<lparr>faults := fs\<rparr>) = (Inr x, s2)"
      and s': "s' = s2\<lparr>faults := fs'\<rparr>" by (auto elim: with_tx_okE)
    have "I (s\<lparr>faults := fs\<rparr>)" using assms(1) I by (rule tx_stableD [OF _ same_tables_faults])
    with b assms(2) have "I s2" by (blast intro: preservesD)
    then show ?thesis unfolding s' using assms(1) by (auto intro: tx_stableD)
  qed
qed

text \<open>An operation that writes no table.\<close>

definition read_only :: "('a db_scheme, 'b) dbm \<Rightarrow> bool" where
  "read_only m \<longleftrightarrow> (\<forall>s r s'. m s = (r, s') \<longrightarrow> same_tables s s')"

lemma read_onlyD: "read_only m \<Longrightarrow> m s = (r, s') \<Longrightarrow> same_tables s s'"
  by (auto simp: read_only_def)

lemma read_only_preserves: "tx_stable I \<Longrightarrow> read_only m \<Longrightarrow> preserves I m"
  by (rule preservesI) (auto dest: read_onlyD tx_stableD)

lemma read_only_ret [simp]: "read_only (ret x)"
  by (auto simp: read_only_def ret_def)

lemma read_only_throw [simp]: "read_only (throw e)"
  by (auto simp: read_only_def throw_def)

lemma read_only_asks [simp]: "read_only (asks f)"
  by (auto simp: read_only_def asks_def)

lemma read_only_lift_sum [simp]: "read_only (lift_sum r)"
  by (auto simp: read_only_def lift_sum_def)

lemma read_only_sql: "read_only f \<Longrightarrow> read_only (sql f)"
  unfolding read_only_def
  by (auto simp: sql_def split: list.splits if_splits intro: same_tables_trans [OF same_tables_faults])

lemma read_only_bindE: "read_only m \<Longrightarrow> (\<And>x. read_only (f x)) \<Longrightarrow> read_only (bindE m f)"
  unfolding read_only_def
  by (auto simp: bindE_def split: prod.splits sum.splits) (metis same_tables_trans)

lemma preserves_each_do: "(\<And>x. preserves I (f x)) \<Longrightarrow> preserves I (each_do f xs)"
  by (induction xs) (auto intro: preserves_rules)

end
