(* ===== verification/Outbox.thy ===== *)
theory Outbox
  imports Prelude
begin

text \<open>
  The audit store and the transactional outbox (internal/audit/audit.go), the relay that
  publishes outbox rows to JetStream and the delivery of one message to a handler
  (internal/audit/nats.go), and the subject names (internal/eventbus/eventbus.go).

  JetStream is not under src/. The relay takes \<open>pub\<close>, the outcome of publishing one event
  within the ack budget (\<open>None\<close> for a PubAck, \<open>Some\<close> of an error text otherwise), and the
  set of row ids other relays hold locked; \<open>deliver\<close> takes the delivery count of the
  message's metadata and returns what it tells JetStream; \<open>errtext\<close> is the text of an error.
\<close>

section \<open>Audit rows and outbox rows\<close>

definition audit_ev ::
  "string \<Rightarrow> string \<Rightarrow> string \<Rightarrow> string \<Rightarrow> string \<Rightarrow> json \<Rightarrow> audit_event" where
  "audit_ev org actor action otype oid payload =
     \<lparr>ev_id = [], ev_org = org, ev_actor = actor, ev_impersonator = [], ev_action = action,
      ev_object_type = otype, ev_object_id = oid, ev_payload = payload, ev_created = 0\<rparr>"

definition record_audit :: "audit_event \<Rightarrow> ('a db_scheme, unit) dbm" where
  "record_audit ev = sql (bindE new_uuid (\<lambda>i. modify (\<lambda>s.
     s\<lparr>audit_rows := audit_rows s @ [ev\<lparr>ev_id := i, ev_created := clock s\<rparr>]\<rparr>)))"

definition append_outbox :: "string \<Rightarrow> string \<Rightarrow> json \<Rightarrow> ('a db_scheme, unit) dbm" where
  "append_outbox org typ payload = sql (modify (\<lambda>s.
     s\<lparr>outbox_rows := outbox_rows s @
        [\<lparr>ob_id = outbox_seq s, ob_org = org, ob_type = typ, ob_payload = payload,
          ob_occurred = clock s, ob_published = None, ob_attempts = 0, ob_last_error = []\<rparr>],
       outbox_seq := outbox_seq s + 1\<rparr>))"

text \<open>The pair of writes that accompanies every change of state, in the transaction of the change.\<close>

definition emit :: "audit_event \<Rightarrow> string \<Rightarrow> string \<Rightarrow> json \<Rightarrow> ('a db_scheme, unit) dbm" where
  "emit ev org typ payload = thenE (record_audit ev) (append_outbox org typ payload)"

record event_filter =
  f_action :: string
  f_actor :: string
  f_object_type :: string
  f_from :: "int option"
  f_to :: "int option"
  f_limit :: int

definition filter_match :: "string \<Rightarrow> event_filter \<Rightarrow> audit_event \<Rightarrow> bool" where
  "filter_match org f e \<longleftrightarrow>
     ev_org e = org
     \<and> (f_action f = [] \<or> ev_action e = f_action f)
     \<and> (f_actor f = [] \<or> ev_actor e = f_actor f)
     \<and> (f_object_type f = [] \<or> ev_object_type e = f_object_type f)
     \<and> (case f_from f of None \<Rightarrow> True | Some t \<Rightarrow> t \<le> ev_created e)
     \<and> (case f_to f of None \<Rightarrow> True | Some t \<Rightarrow> ev_created e \<le> t)"

definition list_limit :: "int \<Rightarrow> nat" where
  "list_limit n = (if n \<le> 0 \<or> n > 500 then 100 else nat n)"

definition list_filtered :: "string \<Rightarrow> event_filter \<Rightarrow> ('a db_scheme, audit_event list) dbm" where
  "list_filtered org f = sql (asks (\<lambda>s.
     take (list_limit (f_limit f))
       (rev (sort_key ev_created (filter (filter_match org f) (audit_rows s))))))"

section \<open>The relay\<close>

definition DefaultMaxPublishAttempts :: nat where "DefaultMaxPublishAttempts = 50"
definition DefaultMaxDeliver :: nat where "DefaultMaxDeliver = 50"

definition second :: int where "second = 1000000000"

definition claim_batch :: "int list \<Rightarrow> nat \<Rightarrow> outbox_event list \<Rightarrow> outbox_event list" where
  "claim_batch locked batch rows =
     take batch (sort_key ob_id (filter (\<lambda>r. ob_published r = None \<and> ob_id r \<notin> set locked) rows))"

definition relay_mark :: "nat \<Rightarrow> int \<Rightarrow> string option \<Rightarrow> outbox_event \<Rightarrow> outbox_event" where
  "relay_mark maxatt now res r = (case res of
     None \<Rightarrow> r\<lparr>ob_published := Some now, ob_last_error := []\<rparr>
   | Some e \<Rightarrow> r\<lparr>ob_attempts := ob_attempts r + 1, ob_last_error := e,
        ob_published := (if maxatt \<le> ob_attempts r + 1 then Some now else ob_published r)\<rparr>)"

definition relay_row ::
  "nat \<Rightarrow> (outbox_event \<Rightarrow> string option) \<Rightarrow> outbox_event \<Rightarrow> ('a db_scheme, unit) dbm" where
  "relay_row maxatt pub ev = sql (modify (\<lambda>s.
     s\<lparr>outbox_rows := update_rows (\<lambda>r. ob_id r = ob_id ev) (relay_mark maxatt (clock s) (pub ev)) (outbox_rows s)\<rparr>))"

fun relay_rows ::
  "nat \<Rightarrow> (outbox_event \<Rightarrow> string option) \<Rightarrow> outbox_event list \<Rightarrow> ('a db_scheme, unit) dbm" where
  "relay_rows maxatt pub [] = ret ()"
| "relay_rows maxatt pub (ev # evs) = thenE (relay_row maxatt pub ev) (relay_rows maxatt pub evs)"

definition relay_once ::
  "nat \<Rightarrow> nat \<Rightarrow> int list \<Rightarrow> (outbox_event \<Rightarrow> string option) \<Rightarrow> ('a db_scheme, unit) dbm" where
  "relay_once batch maxatt locked pub =
     thenE
       (with_tx (bindE (sql (asks (\<lambda>s. claim_batch locked batch (outbox_rows s))))
                       (relay_rows maxatt pub)))
       (catchE (bindE (sql (asks (\<lambda>s. rows_affected (\<lambda>r. ob_published r = None) (outbox_rows s)))) (\<lambda>_. ret ()))
               (\<lambda>_. ret ()))"

section \<open>Delivery to a handler\<close>

text \<open>
  \<open>backoff_schedule\<close> and \<open>retry_delay\<close> are in nanoseconds; \<open>retry_delay\<close> is \<open>None\<close> where
  the code would index an empty schedule.
\<close>

definition backoff_schedule :: "nat \<Rightarrow> int list" where
  "backoff_schedule maxDeliver =
     (let base = [second, 2 * second, 5 * second, 10 * second]
      in map (\<lambda>i. if i < length base then base ! i else 30 * second) [0..<maxDeliver])"

definition retry_delay :: "nat \<Rightarrow> nat \<Rightarrow> int option" where
  "retry_delay maxDeliver delivered =
     (let schedule = backoff_schedule maxDeliver;
          idx = int delivered - 1;
          idx = (if idx < 0 then 0 else idx);
          idx = (if int (length schedule) \<le> idx then int (length schedule) - 1 else idx)
      in if idx < 0 then None else Some (schedule ! nat idx))"

definition handles :: "string list \<Rightarrow> string \<Rightarrow> bool" where
  "handles types t = List.member types t"

text \<open>What is told to JetStream, and whether the consumer goes on.\<close>

datatype delivery = DAck | DNak | DNakDelay "int option"

datatype delivery_result = RSkip | RAck | RDeadletter | RRetry | RShutdown

record 's named_handler =
  h_name :: string
  h_types :: "string list"
  h_handle :: "outbox_event \<Rightarrow> ('s, unit) dbm"

definition deliver ::
  "(err \<Rightarrow> string) \<Rightarrow> nat \<Rightarrow> 'a db_scheme named_handler \<Rightarrow> outbox_event option \<Rightarrow> bool \<Rightarrow>
   nat option \<Rightarrow> 'a db_scheme \<Rightarrow> (delivery \<times> delivery_result) \<times> 'a db_scheme" where
  "deliver errtext maxDeliver h msg cancelled md = (\<lambda>s.
     case msg of
       None \<Rightarrow> ((DAck, RDeadletter), s)
     | Some ev \<Rightarrow>
         if \<not> handles (h_types h) (ob_type ev) then ((DAck, RSkip), s)
         else (case h_handle h ev s of
             (Inr _, s') \<Rightarrow> ((DAck, RAck), s')
           | (Inl e, s') \<Rightarrow>
               if cancelled then ((DNak, RShutdown), s')
               else (let delivered = (case md of None \<Rightarrow> 0 | Some n \<Rightarrow> n)
                     in if maxDeliver \<le> delivered
                        then ((DAck, RDeadletter),
                              snd (sql (modify (\<lambda>s. s\<lparr>outbox_rows :=
                                 update_rows (\<lambda>r. ob_id r = ob_id ev) (\<lambda>r. r\<lparr>ob_last_error := errtext e\<rparr>)
                                   (outbox_rows s)\<rparr>)) s'))
                        else ((DNakDelay (retry_delay maxDeliver delivered), RRetry), s'))))"

text \<open>The names of the durable consumers.\<close>

definition lower_or_digit :: "char \<Rightarrow> bool" where
  "lower_or_digit c \<longleftrightarrow> is_digit c \<or> (97 \<le> (of_char c :: nat) \<and> (of_char c :: nat) \<le> 122)"

definition handler_name_ok :: "string \<Rightarrow> bool" where
  "handler_name_ok s = (case s of [] \<Rightarrow> False
     | c # cs \<Rightarrow> lower_or_digit c \<and> (\<forall>x \<in> set cs. lower_or_digit x \<or> x = CHR ''-''))"

text \<open>The loop of \<open>NewDispatcher\<close>; \<open>mk\<close> creates the durable consumer of one handler.\<close>

fun new_dispatcher :: "(string \<Rightarrow> err + 'c) \<Rightarrow> (string \<times> 'c) list \<Rightarrow> string list \<Rightarrow> err + (string \<times> 'c) list" where
  "new_dispatcher mk acc [] = Inr acc"
| "new_dispatcher mk acc (n # ns) =
     (if \<not> handler_name_ok n then Inl (ErrMsg ''invalid handler name'')
      else if n \<in> fst ` set acc then Inl (ErrMsg ''duplicate handler name'')
      else (case mk (''outbox-'' @ n) of Inl e \<Rightarrow> Inl e
            | Inr c \<Rightarrow> new_dispatcher mk (acc @ [(n, c)]) ns))"

section \<open>Subjects\<close>

definition SubjectOutbox :: string where "SubjectOutbox = ''inari.outbox''"
definition SubjectTunnel :: string where "SubjectTunnel = ''inari.tunnel''"
definition MaxTunnelFrame :: nat where "MaxTunnelFrame = 32768"

definition outbox_subject :: "string \<Rightarrow> string" where
  "outbox_subject t = SubjectOutbox @ ''.'' @ t"

definition validate_subject_token :: "string \<Rightarrow> err option" where
  "validate_subject_token s =
     (if s = [] then Some (ErrMsg ''subject token must not be empty'')
      else if \<exists>r \<in> set s. r = CHR ''.'' \<or> r = CHR ''*'' \<or> r = CHR ''>'' \<or> is_space r
      then Some (ErrMsg ''subject token must not contain separators'')
      else None)"

definition tunnel_subject :: "string \<Rightarrow> string \<Rightarrow> err + string" where
  "tunnel_subject cid conn =
     (case validate_subject_token cid of Some e \<Rightarrow> Inl e
      | None \<Rightarrow> (case validate_subject_token conn of Some e \<Rightarrow> Inl e
         | None \<Rightarrow> Inr (SubjectTunnel @ ''.'' @ cid @ ''.'' @ conn)))"

definition validate_tunnel_frame :: "'b list \<Rightarrow> err option" where
  "validate_tunnel_frame frame =
     (if length frame > MaxTunnelFrame then Some (ErrMsg ''tunnel frame too large'') else None)"

text \<open>\<open>strings.SplitN(subject, ".", 3)\<close> has three parts exactly when there are two dots.\<close>

definition domain_of :: "string \<Rightarrow> string" where
  "domain_of subject = (case split_on (CHR ''.'') subject of
      _ # p1 # _ # _ \<Rightarrow> p1 | _ \<Rightarrow> ''unknown'')"

section \<open>What a write to the audit table and the outbox does\<close>

definition stamp :: "'a db_scheme \<Rightarrow> audit_event \<Rightarrow> audit_event" where
  "stamp s ev = ev\<lparr>ev_id := uuids s (uuid_next s), ev_created := clock s\<rparr>"

definition outbox_row :: "'a db_scheme \<Rightarrow> string \<Rightarrow> string \<Rightarrow> json \<Rightarrow> outbox_event" where
  "outbox_row s org typ payload =
     \<lparr>ob_id = outbox_seq s, ob_org = org, ob_type = typ, ob_payload = payload,
      ob_occurred = clock s, ob_published = None, ob_attempts = 0, ob_last_error = []\<rparr>"

lemma record_audit_healthy [simp]:
  "faults s = [] \<Longrightarrow> record_audit ev s =
     (Inr (), s\<lparr>uuid_next := Suc (uuid_next s), audit_rows := audit_rows s @ [stamp s ev]\<rparr>)"
  by (simp add: record_audit_def dbm_defs stamp_def)

lemma append_outbox_healthy [simp]:
  "faults s = [] \<Longrightarrow> append_outbox org typ p s =
     (Inr (), s\<lparr>outbox_rows := outbox_rows s @ [outbox_row s org typ p], outbox_seq := outbox_seq s + 1\<rparr>)"
  by (simp add: append_outbox_def dbm_defs outbox_row_def)

lemma record_audit_okE:
  assumes "record_audit ev s = (Inr u, s')"
  obtains fs where "s' = s\<lparr>faults := fs, uuid_next := Suc (uuid_next s),
    audit_rows := audit_rows s @ [stamp s ev]\<rparr>"
  using assms unfolding record_audit_def by (auto simp: stamp_def elim!: okE)

lemma append_outbox_okE:
  assumes "append_outbox org typ p s = (Inr u, s')"
  obtains fs where "s' = s\<lparr>faults := fs,
    outbox_rows := outbox_rows s @ [outbox_row s org typ p], outbox_seq := outbox_seq s + 1\<rparr>"
  using assms unfolding append_outbox_def by (auto simp: outbox_row_def elim!: okE)

definition logged :: "audit_event \<Rightarrow> string \<Rightarrow> string \<Rightarrow> json \<Rightarrow> 'a db_scheme \<Rightarrow> 'a db_scheme" where
  "logged ev org typ payload s = s\<lparr>uuid_next := Suc (uuid_next s), audit_rows := audit_rows s @ [stamp s ev],
     outbox_rows := outbox_rows s @ [outbox_row s org typ payload], outbox_seq := outbox_seq s + 1\<rparr>"

lemma outbox_row_upd [simp]:
  "outbox_row (s\<lparr>uuid_next := u\<rparr>) org typ p = outbox_row s org typ p"
  "outbox_row (s\<lparr>audit_rows := a\<rparr>) org typ p = outbox_row s org typ p"
  "outbox_row (s\<lparr>faults := fs\<rparr>) org typ p = outbox_row s org typ p"
  by (simp_all add: outbox_row_def)

lemma stamp_faults [simp]: "stamp (s\<lparr>faults := fs\<rparr>) ev = stamp s ev"
  by (simp add: stamp_def)

lemma logged_fields [simp]:
  "faults (logged ev org typ p s) = faults s" "clock (logged ev org typ p s) = clock s"
  "uuids (logged ev org typ p s) = uuids s" "uuid_next (logged ev org typ p s) = Suc (uuid_next s)"
  "audit_rows (logged ev org typ p s) = audit_rows s @ [stamp s ev]"
  "audit_archive (logged ev org typ p s) = audit_archive s"
  "outbox_rows (logged ev org typ p s) = outbox_rows s @ [outbox_row s org typ p]"
  "db.more (logged ev org typ p s) = db.more s"
  by (simp_all add: logged_def)

lemma emit_healthy [simp]: "faults s = [] \<Longrightarrow> emit ev org typ p s = (Inr (), logged ev org typ p s)"
  by (simp add: emit_def thenE_def bindE_def logged_def)

lemma emit_okE:
  assumes "emit ev org typ p s = (Inr u, s')"
  obtains fs where "s' = (logged ev org typ p s)\<lparr>faults := fs\<rparr>"
proof -
  from assms obtain v s1 where 1: "record_audit ev s = (Inr v, s1)"
    and 2: "append_outbox org typ p s1 = (Inr u, s')" unfolding emit_def by (rule thenE_okE)
  from 1 obtain fs where "s1 = s\<lparr>faults := fs, uuid_next := Suc (uuid_next s),
    audit_rows := audit_rows s @ [stamp s ev]\<rparr>" by (rule record_audit_okE)
  moreover from 2 obtain fs' where "s' = s1\<lparr>faults := fs',
    outbox_rows := outbox_rows s1 @ [outbox_row s1 org typ p], outbox_seq := outbox_seq s1 + 1\<rparr>"
    by (rule append_outbox_okE)
  ultimately have "s' = (logged ev org typ p s)\<lparr>faults := fs'\<rparr>" by (simp add: logged_def)
  then show ?thesis by (rule that)
qed

text \<open>
  An invariant that reads neither the script, the supplies, the audit table nor the outbox:
  the two writes keep it, and so does a rollback.
\<close>

definition log_stable :: "('a db_scheme \<Rightarrow> bool) \<Rightarrow> bool" where
  "log_stable I \<longleftrightarrow> (\<forall>s fs u q a ob. I s \<longrightarrow>
     I (s\<lparr>faults := fs, uuid_next := u, outbox_seq := q, audit_rows := a, outbox_rows := ob\<rparr>))"

lemma log_stableD:
  assumes "log_stable I" and "I s"
  shows "I (s\<lparr>faults := fs, uuid_next := u, outbox_seq := q, audit_rows := a, outbox_rows := ob\<rparr>)"
  using assms by (auto simp: log_stable_def)

lemma log_stable_audit: "log_stable I \<Longrightarrow> I s \<Longrightarrow> I (s\<lparr>uuid_next := u, audit_rows := a\<rparr>)"
  using log_stableD [where I = I and s = s and fs = "faults s" and u = u and q = "outbox_seq s"
      and a = a and ob = "outbox_rows s"] by simp

lemma log_stable_outbox:
  assumes "log_stable I" and "I s"
  shows "I (s\<lparr>outbox_rows := ob, outbox_seq := q\<rparr>)"
proof -
  have eq: "s\<lparr>outbox_rows := ob, outbox_seq := q\<rparr> = s\<lparr>outbox_seq := q, outbox_rows := ob\<rparr>" by simp
  show ?thesis unfolding eq using assms log_stableD [where I = I and s = s and fs = "faults s" and u = "uuid_next s" and q = q
      and a = "audit_rows s" and ob = ob] by simp
qed

lemma log_stable_tx_stable: "log_stable I \<Longrightarrow> tx_stable I"
  unfolding tx_stable_def
proof (intro allI impI)
  fix s s' assume "log_stable I" and "same_tables s s'" and "I s"
  from \<open>same_tables s s'\<close> obtain fs u
    where "s' = s\<lparr>faults := fs, uuid_next := u\<rparr>" by (elim same_tablesE)
  with log_stableD [OF \<open>log_stable I\<close> \<open>I s\<close>, where fs = fs and u = u and q = "outbox_seq s"
      and a = "audit_rows s" and ob = "outbox_rows s"]
  show "I s'" by simp
qed

lemma preserves_record_audit [preserves_rules]:
  assumes "log_stable I"
  shows "preserves I (record_audit ev)"
  unfolding record_audit_def
proof (rule preserves_sql [OF log_stable_tx_stable [OF assms]], rule preservesI)
  fix s r s'
  assume "I s" and run: "bindE new_uuid (\<lambda>i. modify (\<lambda>s.
     s\<lparr>audit_rows := audit_rows s @ [ev\<lparr>ev_id := i, ev_created := clock s\<rparr>]\<rparr>)) s = (r, s')"
  from run have "s' = s\<lparr>uuid_next := Suc (uuid_next s), audit_rows := audit_rows s @ [stamp s ev]\<rparr>"
    by (simp add: dbm_defs stamp_def)
  then show "I s'" using log_stable_audit [OF assms \<open>I s\<close>] by simp
qed

lemma preserves_sql_body:
  assumes "log_stable I" and "\<And>s r s'. I s \<Longrightarrow> f s = (r, s') \<Longrightarrow> I s'"
  shows "preserves I (sql f)"
  by (rule preserves_sql [OF log_stable_tx_stable [OF assms(1)] preservesI]) (rule assms(2))

lemma preserves_append_outbox [preserves_rules]:
  assumes "log_stable I"
  shows "preserves I (append_outbox org typ p)"
  unfolding append_outbox_def
  by (rule preserves_sql [OF log_stable_tx_stable [OF assms]], rule preserves_modify,
      rule log_stable_outbox [OF assms])

lemma preserves_emit [preserves_rules]: "log_stable I \<Longrightarrow> preserves I (emit ev org typ p)"
  unfolding emit_def by (intro preserves_rules) assumption+

section \<open>The relay marks exactly the claimed rows\<close>

lemma relay_mark_id [simp]: "ob_id (relay_mark m now res r) = ob_id r"
  by (simp add: relay_mark_def split: option.splits)

definition mark_all ::
  "nat \<Rightarrow> int \<Rightarrow> (outbox_event \<Rightarrow> string option) \<Rightarrow> outbox_event list \<Rightarrow> outbox_event list \<Rightarrow> outbox_event list" where
  "mark_all m now pub evs rows =
     fold (\<lambda>ev. update_rows (\<lambda>r. ob_id r = ob_id ev) (relay_mark m now (pub ev))) evs rows"

lemma mark_all_Nil [simp]: "mark_all m now pub [] rows = rows"
  and mark_all_Cons [simp]: "mark_all m now pub (e # evs) rows =
    mark_all m now pub evs (update_rows (\<lambda>r. ob_id r = ob_id e) (relay_mark m now (pub e)) rows)"
  by (simp_all add: mark_all_def)

lemma relay_rows_healthy:
  "faults s = [] \<Longrightarrow> relay_rows m pub evs s =
     (Inr (), s\<lparr>outbox_rows := mark_all m (clock s) pub evs (outbox_rows s)\<rparr>)"
  by (induction evs arbitrary: s) (simp_all add: relay_row_def dbm_defs)

lemma relay_rows_ok:
  "relay_rows m pub evs s = (Inr u, s') \<Longrightarrow>
     \<exists>fs. s' = s\<lparr>faults := fs, outbox_rows := mark_all m (clock s) pub evs (outbox_rows s)\<rparr>"
proof (induction evs arbitrary: s)
  case Nil
  then have "s' = s" by (simp add: ret_def)
  then show ?case by (auto intro: exI [of _ "faults s"])
next
  case (Cons ev evs)
  from Cons.prems obtain u1 s1 where 1: "relay_row m pub ev s = (Inr u1, s1)"
    and 2: "relay_rows m pub evs s1 = (Inr u, s')" by (auto elim: thenE_okE)
  from 1 obtain fs where "s1 = s\<lparr>faults := fs, outbox_rows :=
      update_rows (\<lambda>r. ob_id r = ob_id ev) (relay_mark m (clock s) (pub ev)) (outbox_rows s)\<rparr>"
    unfolding relay_row_def by (auto elim!: okE)
  with Cons.IH [OF 2] show ?case by auto
qed

lemma mark_all_find:
  "distinct (map ob_id evs) \<Longrightarrow> mark_all m now pub evs rows =
     map (\<lambda>r. case find (\<lambda>e. ob_id e = ob_id r) evs of None \<Rightarrow> r | Some e \<Rightarrow> relay_mark m now (pub e) r) rows"
proof (induction evs arbitrary: rows)
  case Nil
  then show ?case by simp
next
  case (Cons ev evs)
  have "ob_id ev \<notin> ob_id ` set evs" using Cons.prems by simp
  then have "find (\<lambda>e. ob_id e = ob_id ev) evs = None"
    by (metis (mono_tags, lifting) find_None_iff imageI)
  with Cons show ?case by (auto simp: update_rows_def)
qed

lemma find_key_member:
  "distinct (map k evs) \<Longrightarrow> find (\<lambda>e. k e = k r) evs = Some e \<longleftrightarrow> e \<in> set evs \<and> k e = k r"
proof (induction evs)
  case Nil
  then show ?case by simp
next
  case (Cons a evs)
  then have "k a \<notin> k ` set evs" by simp
  then have "\<And>x. x \<in> set evs \<Longrightarrow> k x \<noteq> k a" by (metis imageI)
  with Cons show ?case by auto
qed

lemma claim_batch_subset: "set (claim_batch locked batch rows) \<subseteq> set rows"
  unfolding claim_batch_def by (rule subset_trans [OF set_take_subset]) auto

lemma claim_batch_distinct:
  assumes "distinct (map ob_id rows)"
  shows "distinct (map ob_id (claim_batch locked batch rows))"
proof -
  let ?f = "filter (\<lambda>r. ob_published r = None \<and> ob_id r \<notin> set locked) rows"
  have "distinct (map ob_id ?f)" using assms by (rule distinct_map_filter)
  then have "distinct (map ob_id (sort_key ob_id ?f))"
    by (simp add: distinct_map)
  then show ?thesis unfolding claim_batch_def take_map [symmetric] by (rule distinct_take)
qed

definition relayed ::
  "nat \<Rightarrow> nat \<Rightarrow> int list \<Rightarrow> int \<Rightarrow> (outbox_event \<Rightarrow> string option) \<Rightarrow> outbox_event list \<Rightarrow> outbox_event list" where
  "relayed batch m locked now pub rows =
     map (\<lambda>r. if r \<in> set (claim_batch locked batch rows) then relay_mark m now (pub r) r else r) rows"

lemma mark_claimed:
  assumes "distinct (map ob_id rows)"
  shows "mark_all m now pub (claim_batch locked batch rows) rows = relayed batch m locked now pub rows"
  unfolding relayed_def mark_all_find [OF claim_batch_distinct [OF assms]]
proof (rule map_cong [OF refl])
  fix r assume r: "r \<in> set rows"
  let ?c = "claim_batch locked batch rows"
  show "(case find (\<lambda>e. ob_id e = ob_id r) ?c of None \<Rightarrow> r | Some e \<Rightarrow> relay_mark m now (pub e) r) =
        (if r \<in> set ?c then relay_mark m now (pub r) r else r)"
  proof (cases "find (\<lambda>e. ob_id e = ob_id r) ?c")
    case None
    then have "r \<notin> set ?c" by (auto simp: find_None_iff)
    with None show ?thesis by simp
  next
    case (Some e)
    then have e: "e \<in> set ?c" "ob_id e = ob_id r"
      by (simp_all add: find_key_member [OF claim_batch_distinct [OF assms]])
    with r assms have "e = r"
      using claim_batch_subset by (metis distinct_key_unique subsetD)
    with Some e show ?thesis by simp
  qed
qed

lemma relayed_ids [simp]: "map ob_id (relayed batch m locked now pub rows) = map ob_id rows"
  by (simp add: relayed_def)

section \<open>What one relay pass does to the outbox\<close>

lemma relay_once_outbox:
  assumes dist: "distinct (map ob_id (outbox_rows s))"
    and run: "relay_once batch m locked pub s = (r, s')"
  shows "outbox_rows s' = outbox_rows s \<or> outbox_rows s' = relayed batch m locked (clock s) pub (outbox_rows s)"
proof -
  let ?body = "bindE (sql (asks (\<lambda>s. claim_batch locked batch (outbox_rows s)))) (relay_rows m pub)"
  let ?count = "catchE (bindE (sql (asks (\<lambda>s. rows_affected (\<lambda>r. ob_published r = None) (outbox_rows s)))) (\<lambda>_. ret ()))
               (\<lambda>_. ret ())"
  obtain r1 s1 where tx: "with_tx ?body s = (r1, s1)" by fastforce
  have tail: "outbox_rows t' = outbox_rows t" if "?count t = (x, t')" for x t t'
    using that by (auto simp: catchE_def bindE_def sql_def ret_def asks_def
        split: prod.splits sum.splits list.splits if_splits)
  have 1: "outbox_rows s1 = outbox_rows s \<or> outbox_rows s1 = relayed batch m locked (clock s) pub (outbox_rows s)"
  proof (cases r1)
    case (Inl e)
    with tx have "same_tables s s1" by (auto dest: with_tx_abort)
    then show ?thesis by (auto elim!: same_tablesE)
  next
    case (Inr u)
    with tx obtain fs fs' s2 where b: "?body (s\<lparr>faults := fs\<rparr>) = (Inr u, s2)"
      and s1: "s1 = s2\<lparr>faults := fs'\<rparr>" by (auto elim: with_tx_okE)
    from b obtain fs'' where "relay_rows m pub (claim_batch locked batch (outbox_rows s)) (s\<lparr>faults := fs''\<rparr>) = (Inr u, s2)"
      by (auto elim!: bindE_okE sql_okE asks_okE)
    from relay_rows_ok [OF this] s1 show ?thesis by (auto simp: mark_claimed [OF dist])
  qed
  show ?thesis
  proof (cases r1)
    case (Inl e)
    with run tx have "s' = s1" by (simp add: relay_once_def thenE_def bindE_def)
    with 1 show ?thesis by simp
  next
    case (Inr u)
    with run tx have "?count s1 = (r, s')" by (simp add: relay_once_def thenE_def bindE_def)
    with tail 1 show ?thesis by metis
  qed
qed

lemma relay_once_healthy:
  assumes ok: "faults s = []" and dist: "distinct (map ob_id (outbox_rows s))"
  shows "relay_once batch m locked pub s =
    (Inr (), s\<lparr>outbox_rows := relayed batch m locked (clock s) pub (outbox_rows s)\<rparr>)"
proof -
  let ?body = "bindE (sql (asks (\<lambda>s. claim_batch locked batch (outbox_rows s)))) (relay_rows m pub)"
  have "?body s = (Inr (), s\<lparr>outbox_rows := relayed batch m locked (clock s) pub (outbox_rows s)\<rparr>)"
    using ok by (simp add: bindE_def asks_def relay_rows_healthy mark_claimed [OF dist])
  from with_tx_healthy [where body = ?body, OF ok this] ok
  show ?thesis by (simp add: relay_once_def thenE_def bindE_def catchE_def asks_def ret_def)
qed

text \<open>The invariant of the outbox: ids are unique, and an unpublished row has budget left.\<close>

definition outbox_inv :: "nat \<Rightarrow> 'a db_scheme \<Rightarrow> bool" where
  "outbox_inv m s \<longleftrightarrow> distinct (map ob_id (outbox_rows s)) \<and> (\<forall>r \<in> set (outbox_rows s). ob_id r < outbox_seq s)
     \<and> (\<forall>r \<in> set (outbox_rows s). ob_published r = None \<longrightarrow> ob_attempts r < m)"

lemma relay_mark_budget:
  "ob_published r = None \<longrightarrow> ob_attempts r < m \<Longrightarrow>
   ob_published (relay_mark m now res r) = None \<Longrightarrow> ob_attempts (relay_mark m now res r) < m"
  by (auto simp: relay_mark_def split: option.splits if_splits)

lemma append_outbox_inv: "0 < m \<Longrightarrow> outbox_inv m s \<Longrightarrow> append_outbox org typ p s = (Inr u, s') \<Longrightarrow> outbox_inv m s'"
  by (erule append_outbox_okE) (fastforce simp: outbox_inv_def outbox_row_def)

definition unpublished :: "'a db_scheme \<Rightarrow> nat" where
  "unpublished s = rows_affected (\<lambda>r. ob_published r = None) (outbox_rows s)"

lemma claim_batch_length:
  "length (claim_batch [] batch rows) = min batch (rows_affected (\<lambda>r. ob_published r = None) rows)"
  by (simp add: claim_batch_def rows_affected_def)

lemma relayed_all_acked:
  assumes "distinct (map ob_id rows)"
  shows "rows_affected (\<lambda>r. ob_published r = None) (relayed batch m [] now (\<lambda>_. None) rows) =
         rows_affected (\<lambda>r. ob_published r = None) rows - batch"
proof -
  let ?P = "\<lambda>r. ob_published r = None" and ?c = "claim_batch [] batch rows"
  have rows: "distinct rows" using assms by (simp add: distinct_map)
  have "filter ?P (map (\<lambda>r. if r \<in> C then relay_mark m now None r else r) xs) =
      filter (\<lambda>r. ?P r \<and> r \<notin> C) xs" for C xs
    by (induction xs) (auto simp: relay_mark_def)
  then have eq: "filter ?P (relayed batch m [] now (\<lambda>_. None) rows) = filter (\<lambda>r. ?P r \<and> r \<notin> set ?c) rows"
    unfolding relayed_def by simp
  have sub: "set ?c \<subseteq> {r \<in> set rows. ?P r}"
    unfolding claim_batch_def by (rule subset_trans [OF set_take_subset]) auto
  have "card ({r \<in> set rows. ?P r} - set ?c) = card {r \<in> set rows. ?P r} - card (set ?c)"
    using sub by (intro card_Diff_subset) auto
  moreover have "card (set ?c) = length ?c"
    using claim_batch_distinct [OF assms, of "[]" batch] by (intro distinct_card) (simp add: distinct_map)
  moreover have "card {r \<in> set rows. ?P r} = rows_affected ?P rows"
    using rows by (simp add: rows_affected_def distinct_length_filter Int_def conj_commute)
  moreover have "length (filter (\<lambda>r. ?P r \<and> r \<notin> set ?c) rows) = card ({r \<in> set rows. ?P r} - set ?c)"
    using rows by (simp add: distinct_length_filter) (rule arg_cong [of _ _ card], auto)
  ultimately show ?thesis by (simp add: rows_affected_def eq claim_batch_length [unfolded rows_affected_def])
qed

text \<open>The relay loop of \<open>Dispatcher.Run\<close>: \<open>k\<close> ticks, each publishing what \<open>pub\<close> says.\<close>

fun relay_ticks ::
  "nat \<Rightarrow> nat \<Rightarrow> nat \<Rightarrow> (outbox_event \<Rightarrow> string option) \<Rightarrow> 'a db_scheme \<Rightarrow> 'a db_scheme" where
  "relay_ticks 0 batch m pub s = s"
| "relay_ticks (Suc k) batch m pub s = relay_ticks k batch m pub (snd (relay_once batch m [] pub s))"

lemma relay_ticks_drain:
  "faults s = [] \<Longrightarrow> distinct (map ob_id (outbox_rows s)) \<Longrightarrow> unpublished s \<le> k * batch \<Longrightarrow>
   unpublished (relay_ticks k batch m (\<lambda>_. None) s) = 0"
proof (induction k arbitrary: s)
  case 0
  then show ?case by simp
next
  case (Suc k)
  let ?s = "s\<lparr>outbox_rows := relayed batch m [] (clock s) (\<lambda>_. None) (outbox_rows s)\<rparr>"
  have "unpublished ?s = unpublished s - batch"
    using relayed_all_acked [OF Suc.prems(2)] by (simp add: unpublished_def)
  moreover have "distinct (map ob_id (outbox_rows ?s))" using Suc.prems(2) by simp
  ultimately have "unpublished (relay_ticks k batch m (\<lambda>_. None) ?s) = 0"
    using Suc.prems by (intro Suc.IH) simp_all
  then show ?case by (simp add: relay_once_healthy [OF Suc.prems(1,2)])
qed

lemma backoff_schedule_length [simp]: "length (backoff_schedule n) = n"
  by (simp add: backoff_schedule_def Let_def)

lemma backoff_schedule_range: "d \<in> set (backoff_schedule n) \<Longrightarrow> second \<le> d \<and> d \<le> 30 * second"
  by (auto simp: backoff_schedule_def Let_def second_def nth_Cons' split: if_splits)

lemma retry_delay_in: "0 < n \<Longrightarrow> \<exists>d \<in> set (backoff_schedule n). retry_delay n k = Some d"
  by (auto simp: retry_delay_def Let_def intro!: nth_mem)

lemma retry_delay_schedule:
  "0 < k \<Longrightarrow> k \<le> n \<Longrightarrow> retry_delay n k = Some (backoff_schedule n ! (k - 1))"
  by (auto simp: retry_delay_def Let_def nat_diff_distrib)

lemma split_on_no_sep: "c \<notin> set a \<Longrightarrow> split_on c (a @ c # b) = a # split_on c b"
  by (induction a) auto

lemma split_on_plain: "c \<notin> set a \<Longrightarrow> split_on c a = [a]"
  by (induction a) auto

lemma valid_token_no_dot: "validate_subject_token t = None \<Longrightarrow> CHR ''.'' \<notin> set t"
  by (auto simp: validate_subject_token_def split: if_splits)

section \<open>Properties\<close>

text \<open>
  (C33) At-least-once publishing. Whatever statements fail and whatever JetStream answers, a
  row that was unpublished before a relay pass and is marked published after it was acked
  by JetStream in that pass, or that pass used up its last publish attempt.
\<close>

theorem relay_at_least_once:
  assumes "distinct (map ob_id (outbox_rows s))"
    and "relay_once batch m locked pub s = (r, s')"
    and "e \<in> set (outbox_rows s)" and "ob_published e = None"
    and "e' \<in> set (outbox_rows s')" and "ob_id e' = ob_id e" and "ob_published e' \<noteq> None"
  shows "pub e = None \<or> m \<le> ob_attempts e + 1"
  using relay_once_outbox [OF assms(1,2)]
proof
  assume "outbox_rows s' = outbox_rows s"
  with assms have "e' = e" by (metis distinct_key_unique)
  with assms show ?thesis by simp
next
  assume eq: "outbox_rows s' = relayed batch m locked (clock s) pub (outbox_rows s)"
  with assms(5) obtain e0 where e0: "e0 \<in> set (outbox_rows s)"
    and e': "e' = (if e0 \<in> set (claim_batch locked batch (outbox_rows s))
                   then relay_mark m (clock s) (pub e0) e0 else e0)"
    by (auto simp: relayed_def)
  then have "ob_id e0 = ob_id e" using assms(6) by (auto split: if_splits)
  with e0 assms(1,3) have "e0 = e" by (metis distinct_key_unique)
  with e' assms(4,7) show ?thesis
    by (auto simp: relay_mark_def split: if_splits option.splits)
qed

text \<open>
  The outbox drains. On a healthy database with JetStream acking every publish, \<open>k\<close> ticks
  of the relay loop leave no unpublished row when \<open>k\<close> batches hold the backlog.
\<close>

theorem relay_drains_backlog:
  assumes "faults s = []" and "distinct (map ob_id (outbox_rows s))"
    and "unpublished s \<le> k * batch"
  shows "unpublished (relay_ticks k batch m (\<lambda>_. None) s) = 0"
  using assms by (rule relay_ticks_drain)

text \<open>
  Delivery budget. A handler that fails on a matching event, outside shutdown, is retried
  after the schedule's delay (one to thirty seconds) while the delivery count is below the
  budget; at the budget the message is acked for good and the error is written on the row.
\<close>

theorem deliver_budget:
  assumes "handles (h_types h) (ob_type ev)" and "h_handle h ev s = (Inl e, s1)"
    and "faults s1 = []" and "0 < n"
  shows "deliver txt maxd h (Some ev) False (Some n) s =
     (if n < maxd
      then ((DNakDelay (Some (backoff_schedule maxd ! (n - 1))), RRetry), s1)
      else ((DAck, RDeadletter), s1\<lparr>outbox_rows := update_rows (\<lambda>r. ob_id r = ob_id ev)
              (\<lambda>r. r\<lparr>ob_last_error := txt e\<rparr>) (outbox_rows s1)\<rparr>))
     \<and> (\<forall>d \<in> set (backoff_schedule maxd). second \<le> d \<and> d \<le> 30 * second)"
proof -
  have "n < maxd \<Longrightarrow> retry_delay maxd n = Some (backoff_schedule maxd ! (n - 1))"
    using assms(4) by (intro retry_delay_schedule) simp_all
  then show ?thesis using assms backoff_schedule_range
    by (auto simp: deliver_def modify_def)
qed

text \<open>
  Tunnel subjects separate connections: two valid pairs of tokens have the same subject
  only when they are equal, and the metrics domain of a tunnel subject is \<open>tunnel\<close>.
\<close>

theorem tunnel_subject_injective:
  assumes "tunnel_subject c1 k1 = Inr x" and "tunnel_subject c2 k2 = Inr x"
  shows "c1 = c2 \<and> k1 = k2 \<and> domain_of x = ''tunnel''"
proof -
  have parts: "split_on (CHR ''.'') x = [''inari'', ''tunnel'', c, k]" if "tunnel_subject c k = Inr x" for c k
  proof -
    from that have c: "CHR ''.'' \<notin> set c" and k: "CHR ''.'' \<notin> set k"
      and x: "x = SubjectTunnel @ ''.'' @ c @ ''.'' @ k"
      by (auto simp: tunnel_subject_def valid_token_no_dot split: option.splits)
    from x have "x = ''inari'' @ CHR ''.'' # (''tunnel'' @ CHR ''.'' # (c @ CHR ''.'' # k))"
      by (simp add: SubjectTunnel_def)
    then show ?thesis using c k by (simp add: split_on_no_sep split_on_plain del: append_Cons append_Nil)
  qed
  from parts [OF assms(1)] parts [OF assms(2)] show ?thesis by (simp add: domain_of_def)
qed

section \<open>Witnesses\<close>

definition demo_db :: db where
  "demo_db = \<lparr>faults = [], clock = 100, uuids = (\<lambda>n. replicate n (CHR ''u'')), uuid_next = 1,
     audit_rows = [], audit_archive = [],
     outbox_rows =
       [\<lparr>ob_id = 1, ob_org = ''o'', ob_type = ''t'', ob_payload = JNull, ob_occurred = 1,
         ob_published = None, ob_attempts = 0, ob_last_error = []\<rparr>,
        \<lparr>ob_id = 2, ob_org = ''o'', ob_type = ''t'', ob_payload = JNull, ob_occurred = 2,
         ob_published = None, ob_attempts = 3, ob_last_error = []\<rparr>],
     outbox_seq = 3\<rparr>"

definition demo_pub :: "outbox_event \<Rightarrow> string option" where
  "demo_pub r = (if ob_id r = 2 then Some ''no ack'' else None)"

definition demo_rows' :: "outbox_event list" where
  "demo_rows' = outbox_rows (snd (relay_once 100 4 [] demo_pub demo_db))"

lemma demo_rows'_eval:
  "demo_rows' =
     [(outbox_rows demo_db ! 0)\<lparr>ob_published := Some 100\<rparr>,
      (outbox_rows demo_db ! 1)\<lparr>ob_published := Some 100, ob_attempts := 4, ob_last_error := ''no ack''\<rparr>]"
  by code_simp

theorem relay_at_least_once_witness:
  "ob_published (outbox_rows demo_db ! 1) = None \<and> ob_published (demo_rows' ! 1) \<noteq> None
   \<and> (demo_pub (outbox_rows demo_db ! 1) = None \<or> 4 \<le> ob_attempts (outbox_rows demo_db ! 1) + 1)"
proof -
  have d: "distinct (map ob_id (outbox_rows demo_db))" by (simp add: demo_db_def)
  obtain r s' where run: "relay_once 100 4 [] demo_pub demo_db = (r, s')" by fastforce
  then have rows: "outbox_rows s' = demo_rows'" by (simp add: demo_rows'_def)
  have e: "outbox_rows demo_db ! 1 \<in> set (outbox_rows demo_db)"
    and n: "ob_published (outbox_rows demo_db ! 1) = None"
    by (simp_all add: demo_db_def)
  have e': "demo_rows' ! 1 \<in> set (outbox_rows s')"
    unfolding rows by (simp add: demo_rows'_eval)
  have i: "ob_id (demo_rows' ! 1) = ob_id (outbox_rows demo_db ! 1)"
    and p: "ob_published (demo_rows' ! 1) \<noteq> None" by (simp_all add: demo_rows'_eval)
  show ?thesis using relay_at_least_once [OF d run e n e' i p] n p by blast
qed

theorem relay_drains_backlog_witness:
  "unpublished demo_db = 2 \<and> unpublished (relay_ticks 2 1 50 (\<lambda>_. None) demo_db) = 0"
proof -
  have "unpublished demo_db = 2" by (simp add: demo_db_def unpublished_def rows_affected_def)
  moreover have "unpublished (relay_ticks 2 1 50 (\<lambda>_. None) demo_db) = 0"
    by (rule relay_drains_backlog) (simp_all add: demo_db_def unpublished_def rows_affected_def)
  ultimately show ?thesis by simp
qed

definition demo_handler :: "db named_handler" where
  "demo_handler = \<lparr>h_name = ''authz-tuple-writer'', h_types = [''t''], h_handle = (\<lambda>_. throw ErrJSON)\<rparr>"

theorem deliver_budget_witness:
  "fst (deliver (\<lambda>_. ''bad'') 50 demo_handler (Some (outbox_rows demo_db ! 0)) False (Some 3) demo_db)
     = (DNakDelay (Some (5 * second)), RRetry)"
proof -
  have h: "handles (h_types demo_handler) (ob_type (outbox_rows demo_db ! 0))"
    by (simp add: demo_handler_def demo_db_def handles_def)
  have run: "h_handle demo_handler (outbox_rows demo_db ! 0) demo_db = (Inl ErrJSON, demo_db)"
    by (simp add: demo_handler_def throw_def)
  have f: "faults demo_db = []" by (simp add: demo_db_def)
  have "(0::nat) < 3" by simp
  note deliver_budget [OF h run f this, of "\<lambda>_. ''bad''" 50]
  moreover have "backoff_schedule 50 ! 2 = 5 * second"
    by (simp add: backoff_schedule_def Let_def)
  ultimately show ?thesis by (simp add: numeral_eq_Suc)
qed

theorem tunnel_subject_injective_witness:
  "tunnel_subject ''c-1'' ''k'' = Inr ''inari.tunnel.c-1.k'' \<and> domain_of ''inari.tunnel.c-1.k'' = ''tunnel''"
proof -
  have t: "tunnel_subject ''c-1'' ''k'' = Inr ''inari.tunnel.c-1.k''" by code_simp
  with tunnel_subject_injective [OF t t] show ?thesis by simp
qed

end
