(* ===== verification/Approvals.thy ===== *)
theory Approvals
  imports Outbox
begin

text \<open>
  The approval workflow (internal/approvals): the request table and its queries, the gate a
  catalog action passes, the decision, cancellation and expiry of a request, the lifecycle
  requests of the control plane (lifecycle.go) and the per-organisation policy
  configuration (config.go).

  The permission resolver, the catalog and the platform authorizer are seams of the Go
  service (interfaces); they are fields of \<open>approvals_svc\<close> here.
\<close>

section \<open>Requests, items and configuration\<close>

datatype approval_state = Pending | Approved | Rejected | Cancelled | Expired

fun approval_state_str :: "approval_state \<Rightarrow> string" where
  "approval_state_str Pending = ''pending''"
| "approval_state_str Approved = ''approved''"
| "approval_state_str Rejected = ''rejected''"
| "approval_state_str Cancelled = ''cancelled''"
| "approval_state_str Expired = ''expired''"

record approval_request =
  ar_id :: string
  ar_org :: string
  ar_item :: string
  ar_version :: string
  ar_cluster :: string
  ar_spec :: json
  ar_requester :: string
  ar_approver :: string
  ar_state :: approval_state
  ar_reason :: string
  ar_name :: string
  ar_namespace :: string
  ar_team :: string
  ar_channel :: string
  ar_instance :: string
  ar_action :: string
  ar_repo :: string
  ar_created :: int
  ar_decided :: "int option"
  ar_expires :: "int option"
  ar_cancelled_by :: string

text \<open>The fields of a catalog item the workflow reads.\<close>

record catalog_item =
  ci_id :: string
  ci_policy :: string

definition ApprovalPolicyAuto :: string where "ApprovalPolicyAuto = ''auto''"
definition ApprovalPolicyPeer :: string where "ApprovalPolicyPeer = ''peer''"
definition ApprovalPolicyPlatformAdmin :: string where "ApprovalPolicyPlatformAdmin = ''platform-admin''"

definition policy_valid :: "string \<Rightarrow> bool" where
  "policy_valid p \<longleftrightarrow> p = ApprovalPolicyAuto \<or> p = ApprovalPolicyPeer \<or> p = ApprovalPolicyPlatformAdmin"

text \<open>A threshold's \<open>float64\<close> bound is a real number (the JSON numbers are finite).\<close>

record approval_threshold =
  th_kind :: string
  th_gt :: real
  th_policy :: string

record approver_group =
  ag_name :: string
  ag_subjects :: "string list"

record auto_approve_rule =
  aa_kind :: string
  aa_items :: "string list"

record approval_config =
  ac_default :: string
  ac_ttl :: string
  ac_thresholds :: "approval_threshold list"
  ac_groups :: "approver_group list"
  ac_auto :: "auto_approve_rule list"

record approval_config_row =
  cr_org :: string
  cr_config :: json
  cr_updated :: int

record approval_config_record =
  acr_org :: string
  acr_config :: approval_config
  acr_updated :: "int option"

record approvals_db = db +
  approvals :: "approval_request list"
  approval_configs :: "approval_config_row list"

section \<open>Policy\<close>

definition PermClustersRegister :: string where "PermClustersRegister = ''clusters.register''"
definition RelationOrgCreator :: string where "RelationOrgCreator = ''org_creator''"
definition ObjectPlatform :: string where "ObjectPlatform = ''platform:inari''"

definition user_object :: "string \<Rightarrow> string" where
  "user_object subject = ''user:'' @ subject"

definition policy_for :: "catalog_item \<Rightarrow> string" where
  "policy_for item = (if ci_policy item = [] then ApprovalPolicyAuto else ci_policy item)"

definition same_actor :: "string \<Rightarrow> string \<Rightarrow> bool" where
  "same_actor a b \<longleftrightarrow> trim_prefix a ''user:'' = trim_prefix b ''user:''"

definition check_approver :: "catalog_item \<Rightarrow> approval_request \<Rightarrow> string \<Rightarrow> bool \<Rightarrow> err option" where
  "check_approver item req approver platformOps =
     (if policy_for item = ApprovalPolicyPeer then
        (if same_actor (ar_requester req) approver then Some SelfApproval else None)
      else if policy_for item = ApprovalPolicyPlatformAdmin then
        (if \<not> platformOps then Some ApproverRole else None)
      else None)"

section \<open>The store\<close>

text \<open>
  An \<open>INSERT\<close> into the request table: the columns the statement names come from the
  argument, the others from their defaults (migrations 0003, 0004, 0006, 0036).
\<close>

definition insert_approval :: "approval_request \<Rightarrow> ('a approvals_db_scheme, approval_request) dbm" where
  "insert_approval r = sql (bindE new_uuid (\<lambda>i s.
     let row = r\<lparr>ar_id := i, ar_state := Pending, ar_created := clock s, ar_approver := [],
                 ar_reason := [], ar_decided := None, ar_cancelled_by := []\<rparr>
     in if i \<in> ar_id ` set (approvals s) then (Inl (ErrUnique ''approval_requests_pkey''), s)
        else (Inr row, s\<lparr>approvals := approvals s @ [row]\<rparr>)))"

definition create_approval :: "approval_request \<Rightarrow> ('a approvals_db_scheme, approval_request) dbm" where
  "create_approval req = insert_approval req"

definition create_lifecycle :: "approval_request \<Rightarrow> ('a approvals_db_scheme, approval_request) dbm" where
  "create_lifecycle req = insert_approval (req\<lparr>ar_item := [], ar_version := [], ar_cluster := [],
     ar_name := [], ar_namespace := [], ar_team := [], ar_channel := [], ar_instance := [], ar_repo := []\<rparr>)"

definition get_approval :: "string \<Rightarrow> ('a approvals_db_scheme, approval_request) dbm" where
  "get_approval i = sql (\<lambda>s. case select_row (\<lambda>r. ar_id r = i) (approvals s) of
      None \<Rightarrow> (Inl ApprovalNotFound, s) | Some r \<Rightarrow> (Inr r, s))"

definition list_approvals :: "string \<Rightarrow> string \<Rightarrow> string \<Rightarrow> ('a approvals_db_scheme, approval_request list) dbm" where
  "list_approvals org state requester = sql (asks (\<lambda>s. rev (sort_key ar_created
     (filter (\<lambda>r. ar_org r = org \<and> (state = [] \<or> approval_state_str (ar_state r) = state)
                \<and> (requester = [] \<or> ar_requester r = requester)) (approvals s)))))"

definition expired_at :: "int \<Rightarrow> approval_request \<Rightarrow> bool" where
  "expired_at now r \<longleftrightarrow> ar_state r = Pending \<and> (case ar_expires r of None \<Rightarrow> False | Some t \<Rightarrow> t \<le> now)"

definition list_expired :: "int \<Rightarrow> ('a approvals_db_scheme, approval_request list) dbm" where
  "list_expired now = sql (asks (\<lambda>s. filter (expired_at now) (approvals s)))"

text \<open>
  \<open>UPDATE approval_requests SET ... WHERE id = $1 AND state = 'pending'\<close>: the number of
  rows affected.
\<close>

definition settle_row ::
  "string \<Rightarrow> (approval_request \<Rightarrow> approval_request) \<Rightarrow> ('a approvals_db_scheme, nat) dbm" where
  "settle_row i f = sql (\<lambda>s.
     let P = (\<lambda>r. ar_id r = i \<and> ar_state r = Pending)
     in (Inr (rows_affected P (approvals s)), s\<lparr>approvals := update_rows P f (approvals s)\<rparr>))"

section \<open>The service\<close>

record 's approvals_svc =
  svc_roles :: "(string \<Rightarrow> string \<Rightarrow> string \<Rightarrow> ('s, bool) dbm) option"
  svc_items :: "string \<Rightarrow> ('s, catalog_item) dbm"
  svc_ttl :: int
  svc_platform :: "(string \<Rightarrow> string \<Rightarrow> string \<Rightarrow> err + bool) option"

definition DefaultTTL :: int where "DefaultTTL = 7 * 24 * 3600 * second"

definition approval_payload :: "string \<Rightarrow> string \<Rightarrow> string \<Rightarrow> approval_state \<Rightarrow> json" where
  "approval_payload org i item st = JObj [(''orgId'', JStr org), (''approvalId'', JStr i),
     (''itemId'', JStr item), (''state'', JStr (approval_state_str st))]"

text \<open>The audit row and the outbox row every transition of a request writes.\<close>

definition log_approval ::
  "string \<Rightarrow> string \<Rightarrow> string \<Rightarrow> string \<Rightarrow> json \<Rightarrow> string \<Rightarrow> json \<Rightarrow> ('a approvals_db_scheme, unit) dbm" where
  "log_approval org actor action i apl event payload =
     emit (audit_ev org actor action ''approval_request'' i apl) org event payload"

record gate_input =
  gi_org :: string
  gi_item :: catalog_item
  gi_version :: string
  gi_cluster :: string
  gi_spec :: json
  gi_requester :: string
  gi_name :: string
  gi_namespace :: string
  gi_team :: string
  gi_channel :: string
  gi_instance :: string
  gi_action :: string
  gi_repo :: string

record gate_result =
  gr_approved :: bool
  gr_approval :: string

definition gate_request :: "int \<Rightarrow> gate_input \<Rightarrow> approval_request" where
  "gate_request expires gin =
     \<lparr>ar_id = [], ar_org = gi_org gin, ar_item = ci_id (gi_item gin), ar_version = gi_version gin,
      ar_cluster = gi_cluster gin, ar_spec = gi_spec gin, ar_requester = gi_requester gin,
      ar_approver = [], ar_state = Pending, ar_reason = [], ar_name = gi_name gin,
      ar_namespace = gi_namespace gin, ar_team = gi_team gin, ar_channel = gi_channel gin,
      ar_instance = gi_instance gin, ar_action = gi_action gin, ar_repo = gi_repo gin,
      ar_created = 0, ar_decided = None, ar_expires = Some expires, ar_cancelled_by = []\<rparr>"

definition gate :: "'a approvals_db_scheme approvals_svc \<Rightarrow> gate_input \<Rightarrow> ('a approvals_db_scheme, gate_result) dbm" where
  "gate svc gin =
     (if policy_for (gi_item gin) = ApprovalPolicyAuto then ret \<lparr>gr_approved = True, gr_approval = []\<rparr>
      else bindE (asks clock) (\<lambda>now.
        bindE (with_tx (bindE (create_approval (gate_request (now + svc_ttl svc) gin)) (\<lambda>req.
                 thenE (log_approval (gi_org gin) (gi_requester gin) ''approval.requested'' (ar_id req) JNull
                          ''approval.requested''
                          (approval_payload (gi_org gin) (ar_id req) (ci_id (gi_item gin)) Pending))
                       (ret req))))
              (\<lambda>req. ret \<lparr>gr_approved = False, gr_approval = ar_id req\<rparr>)))"

definition get_request :: "string \<Rightarrow> string \<Rightarrow> ('a approvals_db_scheme, approval_request) dbm" where
  "get_request org i = bindE (get_approval i) (\<lambda>req.
     if ar_org req \<noteq> org then throw ApprovalNotFound else ret req)"

definition list_requests :: "string \<Rightarrow> string \<Rightarrow> string \<Rightarrow> ('a approvals_db_scheme, approval_request list) dbm" where
  "list_requests org state requester = list_approvals org state requester"

text \<open>
  \<open>Cancel\<close>, \<open>ExpireSweep\<close> and \<open>Decide\<close> read the request outside the transaction that changes
  it. The transaction is a definition of its own, so that it can be studied on a stale read.
\<close>

definition cancel_tx :: "approval_request \<Rightarrow> string \<Rightarrow> ('a approvals_db_scheme, unit) dbm" where
  "cancel_tx req actor = with_tx (bindE (asks clock) (\<lambda>now.
     bindE (settle_row (ar_id req) (\<lambda>r. r\<lparr>ar_state := Cancelled, ar_cancelled_by := actor, ar_decided := Some now\<rparr>))
       (\<lambda>n. if n = 0 then throw AlreadyDecided
            else log_approval (ar_org req) actor ''approval.cancelled'' (ar_id req) JNull ''approval.cancelled''
                   (approval_payload (ar_org req) (ar_id req) (ar_item req) Cancelled))))"

definition cancel :: "string \<Rightarrow> string \<Rightarrow> string \<Rightarrow> ('a approvals_db_scheme, approval_request) dbm" where
  "cancel org i actor = bindE (get_approval i) (\<lambda>req.
     if ar_org req \<noteq> org then throw ApprovalNotFound
     else if ar_state req \<noteq> Pending then throw AlreadyDecided
     else if \<not> same_actor (ar_requester req) actor then throw NotRequester
     else thenE (cancel_tx req actor) (ret (req\<lparr>ar_state := Cancelled\<rparr>)))"

definition expire_tx :: "approval_request \<Rightarrow> ('a approvals_db_scheme, unit) dbm" where
  "expire_tx req = with_tx (bindE (asks clock) (\<lambda>now.
     bindE (settle_row (ar_id req) (\<lambda>r. r\<lparr>ar_state := Expired, ar_decided := Some now\<rparr>))
       (\<lambda>n. if n = 0 then ret ()
            else log_approval (ar_org req) ''system:approvals'' ''approval.expired'' (ar_id req) JNull
                   ''approval.expired'' (approval_payload (ar_org req) (ar_id req) (ar_item req) Expired))))"

fun expire_all :: "approval_request list \<Rightarrow> ('a approvals_db_scheme, unit) dbm" where
  "expire_all [] = ret ()"
| "expire_all (req # reqs) = thenE (expire_tx req) (expire_all reqs)"

definition expire_sweep :: "('a approvals_db_scheme, nat) dbm" where
  "expire_sweep = bindE (asks clock) (\<lambda>now. bindE (list_expired now) (\<lambda>expired.
     thenE (expire_all expired) (ret (length expired))))"

text \<open>lifecycle.go\<close>

definition ApprovalActionTenantZoneVend :: string where "ApprovalActionTenantZoneVend = ''tenant_zone.vend''"
definition ApprovalActionTenantZoneDecommission :: string where
  "ApprovalActionTenantZoneDecommission = ''tenant_zone.decommission''"
definition ApprovalActionRolloutStageGate :: string where "ApprovalActionRolloutStageGate = ''rollout.stage_gate''"
definition ApprovalActionTenantDecommission :: string where "ApprovalActionTenantDecommission = ''tenant.decommission''"

definition valid_lifecycle_action :: "string \<Rightarrow> bool" where
  "valid_lifecycle_action a \<longleftrightarrow> a = ApprovalActionTenantZoneVend \<or> a = ApprovalActionTenantZoneDecommission
     \<or> a = ApprovalActionRolloutStageGate \<or> a = ApprovalActionTenantDecommission"

definition role_authorizes ::
  "'s approvals_svc \<Rightarrow> string \<Rightarrow> string \<Rightarrow> ('s, unit) dbm" where
  "role_authorizes svc org approver = (case svc_roles svc of
      None \<Rightarrow> throw ApproverRole
    | Some perm \<Rightarrow> bindE (perm org approver PermClustersRegister)
                      (\<lambda>ok. if \<not> ok then throw ApproverRole else ret ()))"

definition authorize_lifecycle ::
  "'s approvals_svc \<Rightarrow> approval_request \<Rightarrow> string \<Rightarrow> ('s, unit) dbm" where
  "authorize_lifecycle svc req approver =
     (if same_actor (ar_requester req) approver then throw SelfApproval
      else (case svc_platform svc of
          Some check \<Rightarrow> (case check (user_object approver) RelationOrgCreator ObjectPlatform of
              Inl e \<Rightarrow> throw e
            | Inr ok \<Rightarrow> (if ok then ret () else role_authorizes svc (ar_org req) approver))
        | None \<Rightarrow> role_authorizes svc (ar_org req) approver))"

record lifecycle_input =
  li_org :: string
  li_action :: string
  li_requester :: string
  li_context :: json

definition lifecycle_request :: "int \<Rightarrow> lifecycle_input \<Rightarrow> approval_request" where
  "lifecycle_request expires lin =
     \<lparr>ar_id = [], ar_org = li_org lin, ar_item = [], ar_version = [], ar_cluster = [],
      ar_spec = li_context lin, ar_requester = li_requester lin, ar_approver = [], ar_state = Pending,
      ar_reason = [], ar_name = [], ar_namespace = [], ar_team = [], ar_channel = [],
      ar_instance = [], ar_action = li_action lin, ar_repo = [], ar_created = 0,
      ar_decided = None, ar_expires = Some expires, ar_cancelled_by = []\<rparr>"

definition request_lifecycle_approval ::
  "'a approvals_db_scheme approvals_svc \<Rightarrow> lifecycle_input \<Rightarrow> ('a approvals_db_scheme, approval_request) dbm" where
  "request_lifecycle_approval svc lin =
     (if \<not> valid_lifecycle_action (li_action lin) then throw (ErrMsg ''unknown lifecycle action'')
      else bindE (asks clock) (\<lambda>now.
        with_tx (bindE (create_lifecycle (lifecycle_request (now + svc_ttl svc) lin)) (\<lambda>req.
          thenE (log_approval (li_org lin) (li_requester lin) ''approval.requested'' (ar_id req)
                   (JObj [(''action'', JStr (li_action lin))]) ''approval.requested''
                   (approval_payload (li_org lin) (ar_id req) [] Pending))
                (ret req)))))"

text \<open>The decision. A service without a permission resolver panics on a catalog request.\<close>

definition authorize_decision ::
  "'s approvals_svc \<Rightarrow> approval_request \<Rightarrow> string \<Rightarrow> ('s, unit) dbm" where
  "authorize_decision svc req approver =
     (if ar_action req \<noteq> [] then authorize_lifecycle svc req approver
      else (case svc_roles svc of
          None \<Rightarrow> throw Panic
        | Some perm \<Rightarrow> bindE (perm (ar_org req) approver PermClustersRegister) (\<lambda>platformOps.
            bindE (svc_items svc (ar_item req)) (\<lambda>item.
              case check_approver item req approver platformOps of
                None \<Rightarrow> ret () | Some e \<Rightarrow> throw e))))"

definition decision_state :: "bool \<Rightarrow> approval_state" where
  "decision_state approve = (if approve then Approved else Rejected)"

definition decide_tx ::
  "approval_request \<Rightarrow> string \<Rightarrow> bool \<Rightarrow> string \<Rightarrow> ('a approvals_db_scheme, unit) dbm" where
  "decide_tx req approver approve reason = with_tx (bindE (asks clock) (\<lambda>now.
     bindE (settle_row (ar_id req) (\<lambda>r. r\<lparr>ar_state := decision_state approve, ar_approver := approver,
              ar_reason := reason, ar_decided := Some now\<rparr>))
       (\<lambda>n. if n = 0 then throw AlreadyDecided
            else log_approval (ar_org req) approver
                   (''approval.'' @ approval_state_str (decision_state approve)) (ar_id req) JNull ''approval.decided''
                   (approval_payload (ar_org req) (ar_id req) (ar_item req) (decision_state approve)))))"

definition decide ::
  "'a approvals_db_scheme approvals_svc \<Rightarrow> string \<Rightarrow> string \<Rightarrow> string \<Rightarrow> bool \<Rightarrow> string \<Rightarrow>
   ('a approvals_db_scheme, approval_request) dbm" where
  "decide svc org i approver approve reason = bindE (get_approval i) (\<lambda>req.
     if ar_org req \<noteq> org then throw ApprovalNotFound
     else if ar_state req \<noteq> Pending then throw AlreadyDecided
     else thenE (authorize_decision svc req approver)
       (thenE (decide_tx req approver approve reason)
          (ret (req\<lparr>ar_state := decision_state approve, ar_approver := approver, ar_reason := reason\<rparr>))))"

section \<open>What a transaction does\<close>

definition open_row :: "string \<Rightarrow> approval_request \<Rightarrow> bool" where
  "open_row i r \<longleftrightarrow> ar_id r = i \<and> ar_state r = Pending"

lemma open_row_fold: "(\<lambda>r. ar_id r = i \<and> ar_state r = Pending) = open_row i"
  by (rule ext) (simp add: open_row_def)

lemma settle_row_healthy [simp]:
  "faults s = [] \<Longrightarrow> settle_row i f s =
     (Inr (rows_affected (open_row i) (approvals s)),
      s\<lparr>approvals := update_rows (open_row i) f (approvals s)\<rparr>)"
  by (simp add: settle_row_def Let_def open_row_fold)

lemma settle_row_okE:
  assumes "settle_row i f s = (Inr n, s')"
  obtains fs where "n = rows_affected (open_row i) (approvals s)"
    and "s' = s\<lparr>faults := fs, approvals := update_rows (open_row i) f (approvals s)\<rparr>"
  using assms unfolding settle_row_def by (auto elim!: sql_okE simp: Let_def open_row_fold)

lemma log_approval_healthy [simp]:
  "faults s = [] \<Longrightarrow> log_approval org actor act i apl ev p s =
     (Inr (), logged (audit_ev org actor act ''approval_request'' i apl) org ev p s)"
  by (simp add: log_approval_def)

lemma logged_approvals [simp]:
  "approvals (logged ev org typ p s) = approvals s"
  "approval_configs (logged ev org typ p s) = approval_configs s"
  by (simp_all add: logged_def)

text \<open>
  \<open>settled_by i f req ev typ p s s'\<close>: the transition of request \<open>i\<close> from \<open>s\<close> to \<open>s'\<close> rewrote
  the pending row with \<open>f\<close> and appended one audit row for \<open>act\<close> by \<open>actor\<close> and one outbox row.
\<close>

definition settled_by ::
  "(approval_request \<Rightarrow> approval_request) \<Rightarrow> approval_request \<Rightarrow> string \<Rightarrow> string \<Rightarrow> string \<Rightarrow> json \<Rightarrow>
   'a approvals_db_scheme \<Rightarrow> 'a approvals_db_scheme \<Rightarrow> bool" where
  "settled_by f req actor act typ p s s' \<longleftrightarrow>
     (\<exists>r \<in> set (approvals s). open_row (ar_id req) r)
     \<and> approvals s' = update_rows (open_row (ar_id req)) f (approvals s)
     \<and> outbox_rows s' = outbox_rows s @ [outbox_row s (ar_org req) typ p]
     \<and> (\<exists>a. audit_rows s' = audit_rows s @ [a] \<and> ev_org a = ar_org req \<and> ev_actor a = actor
           \<and> ev_action a = act \<and> ev_object_id a = ar_id req)"

lemma settle_tx_ok:
  assumes run: "with_tx (bindE (asks clock) (\<lambda>now. bindE (settle_row (ar_id req) (f now))
      (\<lambda>n. if n = 0 then m0 else log_approval (ar_org req) actor act (ar_id req) apl typ p))) s = (Inr u, s')"
  shows "settled_by (f (clock s)) req actor act typ p s s'
    \<or> ((\<forall>r \<in> set (approvals s). \<not> open_row (ar_id req) r) \<and> (\<exists>fs s1. m0 (s\<lparr>faults := fs\<rparr>) = (Inr u, s1) \<and> same_tables s1 s'))"
proof -
  from run obtain fs fs' s2 where
    b: "bindE (asks clock) (\<lambda>now. bindE (settle_row (ar_id req) (f now))
      (\<lambda>n. if n = 0 then m0 else log_approval (ar_org req) actor act (ar_id req) apl typ p)) (s\<lparr>faults := fs\<rparr>) = (Inr u, s2)"
    and s': "s' = s2\<lparr>faults := fs'\<rparr>" by (rule with_tx_okE)
  from b obtain n s1 where 1: "settle_row (ar_id req) (f (clock s)) (s\<lparr>faults := fs\<rparr>) = (Inr n, s1)"
    and 2: "(if n = 0 then m0 else log_approval (ar_org req) actor act (ar_id req) apl typ p) s1 = (Inr u, s2)"
    by (auto elim!: bindE_okE asks_okE)
  from 1 obtain fs1 where n: "n = rows_affected (open_row (ar_id req)) (approvals s)"
    and s1: "s1 = s\<lparr>faults := fs1, approvals := update_rows (open_row (ar_id req)) (f (clock s)) (approvals s)\<rparr>"
    by (elim settle_row_okE) simp
  show ?thesis
  proof (cases "n = 0")
    case True
    then have none: "\<forall>r \<in> set (approvals s). \<not> open_row (ar_id req) r" by (simp add: n rows_affected_0_iff)
    then have "s1 = s\<lparr>faults := fs1\<rparr>" by (simp add: s1 update_rows_none)
    with 2 True s' none show ?thesis by (auto simp: same_tables_faults)
  next
    case False
    with 2 have "log_approval (ar_org req) actor act (ar_id req) apl typ p s1 = (Inr u, s2)" by simp
    then obtain fs2 where "s2 = (logged (audit_ev (ar_org req) actor act ''approval_request'' (ar_id req) apl)
      (ar_org req) typ p s1)\<lparr>faults := fs2\<rparr>" unfolding log_approval_def by (rule emit_okE)
    moreover have "\<exists>r \<in> set (approvals s). open_row (ar_id req) r"
      using False by (simp add: n rows_affected_0_iff)
    ultimately have "settled_by (f (clock s)) req actor act typ p s s'"
      by (simp add: settled_by_def s' s1 stamp_def audit_ev_def outbox_row_def)
    then show ?thesis ..
  qed
qed

lemma cancel_tx_ok:
  "cancel_tx req actor s = (Inr u, s') \<Longrightarrow>
   settled_by (\<lambda>r. r\<lparr>ar_state := Cancelled, ar_cancelled_by := actor, ar_decided := Some (clock s)\<rparr>) req actor
     ''approval.cancelled'' ''approval.cancelled''
     (approval_payload (ar_org req) (ar_id req) (ar_item req) Cancelled) s s'"
  unfolding cancel_tx_def by (drule settle_tx_ok) (auto simp: throw_def)

definition decided_row :: "string \<Rightarrow> bool \<Rightarrow> string \<Rightarrow> int \<Rightarrow> approval_request \<Rightarrow> approval_request" where
  "decided_row approver approve reason now r = r\<lparr>ar_state := decision_state approve, ar_approver := approver,
     ar_reason := reason, ar_decided := Some now\<rparr>"

lemma decide_tx_ok:
  "decide_tx req approver approve reason s = (Inr u, s') \<Longrightarrow>
   settled_by (decided_row approver approve reason (clock s)) req approver
     (''approval.'' @ approval_state_str (decision_state approve)) ''approval.decided''
     (approval_payload (ar_org req) (ar_id req) (ar_item req) (decision_state approve)) s s'"
  unfolding decide_tx_def decided_row_def by (drule settle_tx_ok) (auto simp: throw_def)

section \<open>Request rows under every transition\<close>

definition unique_ids :: "'a approvals_db_scheme \<Rightarrow> bool" where
  "unique_ids s \<longleftrightarrow> distinct (map ar_id (approvals s))"

definition holds_row :: "approval_request \<Rightarrow> 'a approvals_db_scheme \<Rightarrow> bool" where
  "holds_row row s \<longleftrightarrow> unique_ids s \<and> row \<in> set (approvals s)"

lemma holds_row_stable: "log_stable (holds_row row)"
  by (simp add: log_stable_def holds_row_def unique_ids_def)

lemma holds_row_tx_stable: "tx_stable (holds_row row)"
  by (rule log_stable_tx_stable [OF holds_row_stable])

lemma holds_row_settle_row:
  assumes "ar_state row \<noteq> Pending" and "\<And>r. ar_id (f r) = ar_id r"
  shows "preserves (holds_row row) (settle_row i f)"
  unfolding settle_row_def
proof (rule preserves_sql [OF holds_row_tx_stable], rule preservesI)
  fix s r s'
  assume I: "holds_row row s" and run: "(let P = \<lambda>r. ar_id r = i \<and> ar_state r = Pending
    in (Inr (rows_affected P (approvals s)), s\<lparr>approvals := update_rows P f (approvals s)\<rparr>)) = (r, s')"
  from run have s': "approvals s' = update_rows (open_row i) f (approvals s)"
    by (auto simp: Let_def open_row_fold)
  have "map ar_id (approvals s') = map ar_id (approvals s)"
    unfolding s' by (rule map_update_rows_same) (simp add: assms(2))
  moreover have "\<not> open_row i row" using assms(1) by (simp add: open_row_def)
  ultimately show "holds_row row s'" using I
    by (simp add: holds_row_def unique_ids_def) (force simp: s' set_update_rows image_iff)
qed

lemma holds_row_insert: "preserves (holds_row row) (insert_approval r)"
  unfolding insert_approval_def
  by (rule preserves_sql [OF holds_row_tx_stable], rule preservesI)
     (auto simp: bindE_def new_uuid_def holds_row_def unique_ids_def Let_def split: if_splits)

lemmas holds_row_rules = preserves_rules holds_row_tx_stable holds_row_stable holds_row_settle_row holds_row_insert

lemma holds_row_log: "preserves (holds_row row) (log_approval org actor act i apl ev p)"
  unfolding log_approval_def by (rule preserves_emit [OF holds_row_stable])

text \<open>
  One step of the system on the request table: a request is created, one of the three
  settling transactions runs on any (stale) copy of a request, or the world moves (time,
  statement failures, the other tables).
\<close>

inductive approvals_step :: "'a approvals_db_scheme \<Rightarrow> 'a approvals_db_scheme \<Rightarrow> bool" where
  step_gate: "gate svc gin s = (r1, s') \<Longrightarrow> approvals_step s s'"
| step_lifecycle: "request_lifecycle_approval svc lin s = (r2, s') \<Longrightarrow> approvals_step s s'"
| step_cancel: "cancel_tx req actor s = (r3, s') \<Longrightarrow> approvals_step s s'"
| step_expire: "expire_tx req s = (r4, s') \<Longrightarrow> approvals_step s s'"
| step_decide: "decide_tx req approver approve reason s = (r5, s') \<Longrightarrow> approvals_step s s'"
| step_world: "approvals s' = approvals s \<Longrightarrow> approvals_step s s'"

lemma holds_row_gate: "preserves (holds_row row) (gate svc gin)"
  unfolding gate_def create_approval_def by (intro holds_row_rules holds_row_log)

lemma holds_row_lifecycle: "preserves (holds_row row) (request_lifecycle_approval svc lin)"
  unfolding request_lifecycle_approval_def create_lifecycle_def by (intro holds_row_rules holds_row_log)

lemma holds_row_cancel_tx: "ar_state row \<noteq> Pending \<Longrightarrow> preserves (holds_row row) (cancel_tx req actor)"
  unfolding cancel_tx_def by (intro holds_row_rules holds_row_log) simp_all

lemma holds_row_expire_tx: "ar_state row \<noteq> Pending \<Longrightarrow> preserves (holds_row row) (expire_tx req)"
  unfolding expire_tx_def by (intro holds_row_rules holds_row_log) simp_all

lemma holds_row_decide_tx: "ar_state row \<noteq> Pending \<Longrightarrow> preserves (holds_row row) (decide_tx req a b c)"
  unfolding decide_tx_def by (intro holds_row_rules holds_row_log) simp_all

lemma settled_step:
  assumes "approvals_step s s'" and "holds_row row s" and "ar_state row \<noteq> Pending"
  shows "holds_row row s'"
  using assms
proof (induction rule: approvals_step.induct)
  case (step_world s' s)
  then show ?case by (simp add: holds_row_def unique_ids_def)
qed (blast intro: preservesD holds_row_gate holds_row_lifecycle holds_row_cancel_tx
       holds_row_expire_tx holds_row_decide_tx)+

section \<open>The decision as a whole\<close>

definition svc_read_only :: "'a approvals_db_scheme approvals_svc \<Rightarrow> bool" where
  "svc_read_only svc \<longleftrightarrow> (\<forall>f. svc_roles svc = Some f \<longrightarrow> (\<forall>a b c. read_only (f a b c)))
     \<and> (\<forall>i. read_only (svc_items svc i))"

lemma get_approval_read_only: "read_only (get_approval i)"
  unfolding get_approval_def
  by (rule read_only_sql) (auto simp: read_only_def split: option.splits)

lemma get_approval_okE:
  assumes "get_approval i s = (Inr req, s')"
  obtains "select_row (\<lambda>r. ar_id r = i) (approvals s) = Some req" "same_tables s s'"
proof -
  have "same_tables s s'" using assms get_approval_read_only by (blast dest: read_onlyD)
  moreover have "select_row (\<lambda>r. ar_id r = i) (approvals s) = Some req"
    using assms unfolding get_approval_def by (auto elim!: sql_okE split: option.splits)
  ultimately show ?thesis using that by blast
qed

lemma role_authorizes_read_only: "svc_read_only svc \<Longrightarrow> read_only (role_authorizes svc org approver)"
  by (auto simp: role_authorizes_def svc_read_only_def split: option.splits intro!: read_only_bindE)

lemma authorize_read_only: "svc_read_only svc \<Longrightarrow> read_only (authorize_decision svc req approver)"
  by (auto simp: authorize_decision_def authorize_lifecycle_def svc_read_only_def role_authorizes_read_only
      split: option.splits sum.splits intro!: read_only_bindE)

text \<open>
  What authorises a decision: on a lifecycle request another subject than the requester whom
  the platform or the roles accept; on a catalog request the item's policy.
\<close>

definition authorized ::
  "'a approvals_db_scheme approvals_svc \<Rightarrow> 'a approvals_db_scheme \<Rightarrow> approval_request \<Rightarrow> string \<Rightarrow> bool" where
  "authorized svc s req approver \<longleftrightarrow>
     (let role_ok = (\<lambda>b. \<exists>perm s1 s2. svc_roles svc = Some perm \<and> same_tables s s1
            \<and> perm (ar_org req) approver PermClustersRegister s1 = (Inr b, s2))
      in if ar_action req \<noteq> [] then
           \<not> same_actor (ar_requester req) approver
           \<and> ((\<exists>check. svc_platform svc = Some check
                 \<and> check (user_object approver) RelationOrgCreator ObjectPlatform = Inr True) \<or> role_ok True)
         else (\<exists>b item s1 s2. role_ok b \<and> same_tables s s1 \<and> svc_items svc (ar_item req) s1 = (Inr item, s2)
                 \<and> (policy_for item = ApprovalPolicyPeer \<longrightarrow> \<not> same_actor (ar_requester req) approver)
                 \<and> (policy_for item = ApprovalPolicyPlatformAdmin \<longrightarrow> b)))"

lemma role_authorizes_ok:
  "role_authorizes svc org approver s = (Inr u, s') \<Longrightarrow>
   \<exists>perm s2. svc_roles svc = Some perm \<and> perm org approver PermClustersRegister s = (Inr True, s2)"
  unfolding role_authorizes_def
  by (auto split: option.splits if_splits elim!: bindE_okE throw_okE)

lemma authorize_lifecycle_ok:
  assumes "authorize_lifecycle svc req approver s = (Inr u, s')"
  shows "\<not> same_actor (ar_requester req) approver \<and>
    ((\<exists>check. svc_platform svc = Some check
        \<and> check (user_object approver) RelationOrgCreator ObjectPlatform = Inr True)
     \<or> (\<exists>perm s2. svc_roles svc = Some perm \<and> perm (ar_org req) approver PermClustersRegister s = (Inr True, s2)))"
  using assms unfolding authorize_lifecycle_def
  by (auto simp: throw_def split: if_splits option.splits sum.splits dest!: role_authorizes_ok)

lemma check_approver_ok:
  "check_approver item req approver b = None \<Longrightarrow>
   (policy_for item = ApprovalPolicyPeer \<longrightarrow> \<not> same_actor (ar_requester req) approver)
   \<and> (policy_for item = ApprovalPolicyPlatformAdmin \<longrightarrow> b)"
  by (auto simp: check_approver_def ApprovalPolicyPeer_def ApprovalPolicyPlatformAdmin_def split: if_splits)

lemma authorize_decision_ok:
  assumes ro: "svc_read_only svc" and st: "same_tables s0 s"
    and run: "authorize_decision svc req approver s = (Inr u, s')"
  shows "authorized svc s0 req approver"
proof (cases "ar_action req = []")
  case False
  with run have "authorize_lifecycle svc req approver s = (Inr u, s')" by (simp add: authorize_decision_def)
  from authorize_lifecycle_ok [OF this] False st show ?thesis unfolding authorized_def Let_def by auto
next
  case True
  with run obtain perm where perm: "svc_roles svc = Some perm"
    and m: "bindE (perm (ar_org req) approver PermClustersRegister) (\<lambda>platformOps.
            bindE (svc_items svc (ar_item req)) (\<lambda>item.
              case check_approver item req approver platformOps of
                None \<Rightarrow> ret () | Some e \<Rightarrow> throw e)) s = (Inr u, s')"
    by (auto simp: authorize_decision_def throw_def split: option.splits)
  from m obtain b s1 item s2 where 1: "perm (ar_org req) approver PermClustersRegister s = (Inr b, s1)"
    and 2: "svc_items svc (ar_item req) s1 = (Inr item, s2)"
    and 3: "(case check_approver item req approver b of None \<Rightarrow> ret () | Some e \<Rightarrow> throw e) s2 = (Inr u, s')"
    by (auto elim!: bindE_okE)
  from 3 have c: "check_approver item req approver b = None" by (auto simp: throw_def split: option.splits)
  have "same_tables s s1" using 1 ro perm by (auto simp: svc_read_only_def dest: read_onlyD)
  with st have st1: "same_tables s0 s1" by (rule same_tables_trans)
  show ?thesis using True perm 1 2 st st1 check_approver_ok [OF c]
    unfolding authorized_def Let_def by auto
qed

text \<open>A failed transaction, or one that never started, leaves the tables alone.\<close>

lemma decide_tx_Err: "decide_tx req a b c s = (Inl e, s') \<Longrightarrow> same_tables s s'"
  unfolding decide_tx_def by (rule with_tx_abort)

lemma settled_by_transfer:
  assumes "same_tables s s0" and "settled_by f req actor act typ p s0 s'"
  shows "settled_by f req actor act typ p s s'"
  using assms by (auto simp: settled_by_def outbox_row_def elim!: same_tablesE)

lemma same_tables_clock: "same_tables s s' \<Longrightarrow> clock s' = clock s"
  by (auto elim!: same_tablesE)

lemma decide_outcome:
  assumes ro: "svc_read_only svc"
    and run: "decide svc org i approver approve reason s = (res, s')"
  shows "case res of
     Inl e \<Rightarrow> same_tables s s'
   | Inr req' \<Rightarrow> (\<exists>req. select_row (\<lambda>r. ar_id r = i) (approvals s) = Some req \<and> ar_org req = org
        \<and> ar_state req = Pending \<and> authorized svc s req approver
        \<and> req' = req\<lparr>ar_state := decision_state approve, ar_approver := approver, ar_reason := reason\<rparr>
        \<and> settled_by (decided_row approver approve reason (clock s)) req approver
            (''approval.'' @ approval_state_str (decision_state approve)) ''approval.decided''
            (approval_payload org i (ar_item req) (decision_state approve)) s s')"
proof -
  obtain g s1 where g: "get_approval i s = (g, s1)" by fastforce
  have st1: "same_tables s s1" using g get_approval_read_only by (blast dest: read_onlyD)
  show ?thesis
  proof (cases g)
    case (Inl e)
    with run g have "res = Inl e" and "s' = s1" by (simp_all add: decide_def bindE_def)
    with st1 show ?thesis by simp
  next
    case (Inr req)
    with g have sel: "select_row (\<lambda>r. ar_id r = i) (approvals s) = Some req" by (blast elim: get_approval_okE)
    then have id: "ar_id req = i" by (blast dest: select_row_SomeD)
    let ?rest = "thenE (decide_tx req approver approve reason)
          (ret (req\<lparr>ar_state := decision_state approve, ar_approver := approver, ar_reason := reason\<rparr>))"
    show ?thesis
    proof (cases "ar_org req = org \<and> ar_state req = Pending")
      case False
      with run g Inr st1 show ?thesis by (auto simp: decide_def bindE_def throw_def split: if_splits)
    next
      case True
      with run g Inr have m: "thenE (authorize_decision svc req approver) ?rest s1 = (res, s')"
        by (simp add: decide_def bindE_def)
      obtain au s2 where au: "authorize_decision svc req approver s1 = (au, s2)" by fastforce
      have st2: "same_tables s s2"
        using same_tables_trans [OF st1] read_onlyD [OF authorize_read_only [OF ro] au] by blast
      show ?thesis
      proof (cases au)
        case (Inl e)
        with m au have "res = Inl e" and "s' = s2" by (simp_all add: thenE_def bindE_def)
        with st2 show ?thesis by simp
      next
        case (Inr u)
        with au have auth: "authorized svc s req approver"
          by (blast intro: authorize_decision_ok [OF ro st1])
        from Inr m au have m2: "?rest s2 = (res, s')" by (simp add: thenE_def bindE_def)
        obtain d s3 where d: "decide_tx req approver approve reason s2 = (d, s3)" by fastforce
        show ?thesis
        proof (cases d)
          case (Inl e)
          with m2 d have "res = Inl e" "s' = s3" by (simp_all add: thenE_def bindE_def)
          with same_tables_trans [OF st2 decide_tx_Err [OF d [unfolded Inl]]] show ?thesis by simp
        next
          case (Inr v)
          note settled = settled_by_transfer [OF st2 decide_tx_ok [OF d [unfolded Inr]]]
          from m2 d Inr have "res = Inr (req\<lparr>ar_state := decision_state approve, ar_approver := approver,
              ar_reason := reason\<rparr>)" and "s' = s3" by (auto simp: thenE_def bindE_def ret_def)
          with settled sel True auth id same_tables_clock [OF st2] show ?thesis by simp
        qed
      qed
    qed
  qed
qed

section \<open>The expiry sweep\<close>

definition expired_row :: "int \<Rightarrow> approval_request \<Rightarrow> approval_request" where
  "expired_row now r = r\<lparr>ar_state := Expired, ar_decided := Some now\<rparr>"

definition expired_event :: "approval_request \<Rightarrow> string \<times> string \<times> json" where
  "expired_event r = (ar_org r, ''approval.expired'', approval_payload (ar_org r) (ar_id r) (ar_item r) Expired)"

definition event_of :: "outbox_event \<Rightarrow> string \<times> string \<times> json" where
  "event_of e = (ob_org e, ob_type e, ob_payload e)"

lemma expire_tx_healthy:
  assumes ok: "faults s = []" and r: "req \<in> set (approvals s)" and "ar_state req = Pending" and u: "unique_ids s"
  shows "\<exists>s'. expire_tx req s = (Inr (), s') \<and> faults s' = [] \<and> clock s' = clock s
    \<and> approvals s' = map (\<lambda>r. if r = req then expired_row (clock s) r else r) (approvals s)
    \<and> map event_of (outbox_rows s') = map event_of (outbox_rows s) @ [expired_event req]"
proof -
  let ?f = "\<lambda>r. r\<lparr>ar_state := Expired, ar_decided := Some (clock s)\<rparr>"
  let ?s = "logged (audit_ev (ar_org req) ''system:approvals'' ''approval.expired'' ''approval_request'' (ar_id req) JNull)
      (ar_org req) ''approval.expired'' (approval_payload (ar_org req) (ar_id req) (ar_item req) Expired)
      (s\<lparr>approvals := update_rows (open_row (ar_id req)) ?f (approvals s)\<rparr>)"
  have n: "rows_affected (open_row (ar_id req)) (approvals s) \<noteq> 0"
    using assms(2,3) by (auto simp: rows_affected_0_iff open_row_def)
  have "expire_tx req s = (Inr (), ?s)"
    unfolding expire_tx_def
    by (subst with_tx_healthy [where r = "Inr ()" and s' = ?s]) (simp_all add: ok n bindE_def asks_def)
  moreover have "update_rows (open_row (ar_id req)) ?f (approvals s) =
      map (\<lambda>r. if r = req then expired_row (clock s) r else r) (approvals s)"
    unfolding update_rows_def
  proof (rule map_cong [OF refl])
    fix x assume "x \<in> set (approvals s)"
    then have "open_row (ar_id req) x = (x = req)"
      using assms(2,3) u by (auto simp: open_row_def unique_ids_def dest: distinct_key_unique)
    then show "(if open_row (ar_id req) x then ?f x else x) = (if x = req then expired_row (clock s) x else x)"
      by (simp add: expired_row_def)
  qed
  ultimately show ?thesis using ok by (simp add: event_of_def expired_event_def outbox_row_def)
qed

lemma expire_all_healthy:
  assumes "faults s = []" and "unique_ids s" and "distinct (map ar_id reqs)"
    and "\<forall>r \<in> set reqs. r \<in> set (approvals s) \<and> ar_state r = Pending"
  shows "\<exists>s'. expire_all reqs s = (Inr (), s') \<and> faults s' = [] \<and> clock s' = clock s
    \<and> approvals s' = map (\<lambda>r. if r \<in> set reqs then expired_row (clock s) r else r) (approvals s)
    \<and> map event_of (outbox_rows s') = map event_of (outbox_rows s) @ map expired_event reqs"
  using assms
proof (induction reqs arbitrary: s)
  case Nil
  then show ?case by (simp add: ret_def)
next
  case (Cons req reqs)
  then obtain s1 where 1: "expire_tx req s = (Inr (), s1)" "faults s1 = []" "clock s1 = clock s"
    and rows1: "approvals s1 = map (\<lambda>r. if r = req then expired_row (clock s) r else r) (approvals s)"
    and out1: "map event_of (outbox_rows s1) = map event_of (outbox_rows s) @ [expired_event req]"
    using expire_tx_healthy [of s req] by auto
  have ids: "map ar_id (approvals s1) = map ar_id (approvals s)"
    unfolding rows1 by (simp add: expired_row_def)
  have neq: "req \<notin> set reqs" using Cons.prems(3) by auto
  have "\<forall>r \<in> set reqs. r \<in> set (approvals s1) \<and> ar_state r = Pending"
    using Cons.prems(4) neq by (force simp: rows1)
  then obtain s2 where 2: "expire_all reqs s1 = (Inr (), s2)" "faults s2 = []" "clock s2 = clock s1"
    and rows2: "approvals s2 = map (\<lambda>r. if r \<in> set reqs then expired_row (clock s1) r else r) (approvals s1)"
    and out2: "map event_of (outbox_rows s2) = map event_of (outbox_rows s1) @ map expired_event reqs"
    using Cons.IH [of s1] Cons.prems 1(2) ids by (auto simp: unique_ids_def)
  have "expired_row (clock s) req \<notin> set reqs"
    using Cons.prems(4) by (auto simp: expired_row_def)
  then have "approvals s2 = map (\<lambda>r. if r \<in> set (req # reqs) then expired_row (clock s) r else r) (approvals s)"
    using neq unfolding rows2 rows1 1(3) by auto
  with 1 2 out1 out2 show ?case by (simp add: thenE_def bindE_def)
qed

section \<open>Properties\<close>

text \<open>
  (C1) A settled request is final. In every interleaving of gates, lifecycle requests, stale
  cancellations, expiries and decisions, with any statements failing, a request that is no
  longer pending keeps its row, field for field.
\<close>

theorem settled_request_final:
  assumes "approvals_step\<^sup>*\<^sup>* s s'" and "unique_ids s"
    and "row \<in> set (approvals s)" and "ar_state row \<noteq> Pending"
  shows "row \<in> set (approvals s')"
proof -
  have "holds_row row s'" using assms(1)
  proof (induction rule: rtranclp_induct)
    case base
    show ?case using assms(2,3) by (simp add: holds_row_def)
  next
    case (step y z)
    from settled_step [OF step(2) step(3) assms(4)] show ?case .
  qed
  then show ?thesis by (simp add: holds_row_def)
qed

text \<open>
  (C2) A decision is all or nothing. With collaborators that only read, \<open>Decide\<close> either fails and
  leaves every table as it was, or the request was pending in the caller's organisation, the
  approver was authorised, and exactly that row, one audit row and one
  \<open>approval.decided\<close> outbox row are written.
\<close>

theorem decide_all_or_nothing:
  assumes "svc_read_only svc" and "decide svc org i approver approve reason s = (res, s')"
  shows "case res of
     Inl e \<Rightarrow> same_tables s s'
   | Inr req' \<Rightarrow> (\<exists>req. select_row (\<lambda>r. ar_id r = i) (approvals s) = Some req \<and> ar_org req = org
        \<and> ar_state req = Pending \<and> authorized svc s req approver
        \<and> req' = req\<lparr>ar_state := decision_state approve, ar_approver := approver, ar_reason := reason\<rparr>
        \<and> settled_by (decided_row approver approve reason (clock s)) req approver
            (''approval.'' @ approval_state_str (decision_state approve)) ''approval.decided''
            (approval_payload org i (ar_item req) (decision_state approve)) s s')"
  by (rule decide_outcome [OF assms])

text \<open>
  (C3) Separation of duties. Whoever decides a lifecycle request is not its requester (with or
  without the \<open>user:\<close> prefix), and is a platform org creator or holds \<open>clusters.register\<close>.
\<close>

theorem lifecycle_separation_of_duties:
  assumes "svc_read_only svc"
    and "decide svc org i approver approve reason s = (Inr req', s')"
    and "valid_lifecycle_action (ar_action req')"
  shows "\<not> same_actor (ar_requester req') approver
    \<and> ((\<exists>check. svc_platform svc = Some check
          \<and> check (user_object approver) RelationOrgCreator ObjectPlatform = Inr True)
       \<or> (\<exists>perm s1 s2. svc_roles svc = Some perm \<and> same_tables s s1
            \<and> perm org approver PermClustersRegister s1 = (Inr True, s2)))"
proof -
  from decide_outcome [OF assms(1,2)] obtain req where org: "ar_org req = org"
    and auth: "authorized svc s req approver"
    and req': "req' = req\<lparr>ar_state := decision_state approve, ar_approver := approver, ar_reason := reason\<rparr>"
    by auto
  have "ar_action req \<noteq> []" using assms(3)
    by (auto simp: req' valid_lifecycle_action_def ApprovalActionTenantZoneVend_def
        ApprovalActionTenantZoneDecommission_def ApprovalActionRolloutStageGate_def
        ApprovalActionTenantDecommission_def)
  with auth org show ?thesis unfolding authorized_def Let_def req' by auto
qed

text \<open>
  (C23) The expiry sweep. On a healthy database it expires exactly the pending requests at or past
  their expiry, appends one \<open>approval.expired\<close> event for each, in order, and returns their number.
\<close>

theorem expire_sweep_correct:
  assumes "faults s = []" and "unique_ids s"
  shows "\<exists>s'. expire_sweep s = (Inr (length (filter (expired_at (clock s)) (approvals s))), s')
    \<and> approvals s' = map (\<lambda>r. if expired_at (clock s) r then expired_row (clock s) r else r) (approvals s)
    \<and> map event_of (outbox_rows s') =
        map event_of (outbox_rows s) @ map expired_event (filter (expired_at (clock s)) (approvals s))"
proof -
  let ?ex = "filter (expired_at (clock s)) (approvals s)"
  have d: "distinct (map ar_id ?ex)" using assms(2) by (simp add: unique_ids_def distinct_map_filter)
  have m: "\<forall>r \<in> set ?ex. r \<in> set (approvals s) \<and> ar_state r = Pending" by (simp add: expired_at_def)
  from expire_all_healthy [OF assms d m] obtain s' where "expire_all ?ex s = (Inr (), s')"
    and rows: "approvals s' = map (\<lambda>r. if r \<in> set ?ex then expired_row (clock s) r else r) (approvals s)"
    and out: "map event_of (outbox_rows s') = map event_of (outbox_rows s) @ map expired_event ?ex"
    by blast
  then have "expire_sweep s = (Inr (length ?ex), s')" using assms(1)
    by (simp add: expire_sweep_def list_expired_def bindE_def thenE_def asks_def ret_def)
  moreover have "approvals s' = map (\<lambda>r. if expired_at (clock s) r then expired_row (clock s) r else r) (approvals s)"
    unfolding rows by simp
  ultimately show ?thesis using out by blast
qed

text \<open>
  The gate. An item whose policy is not \<open>auto\<close> gets a fresh pending request that its
  organisation can read back, carrying the whole deploy context and expiring after the
  configured time; the deploy is not approved, and one \<open>approval.requested\<close> event is queued.
\<close>

theorem gate_opens_request:
  assumes "faults s = []" and "policy_for (gi_item gin) \<noteq> ApprovalPolicyAuto"
    and "uuids s (uuid_next s) \<notin> ar_id ` set (approvals s)"
  shows "\<exists>s' req. gate svc gin s = (Inr \<lparr>gr_approved = False, gr_approval = ar_id req\<rparr>, s')
    \<and> req = (gate_request (clock s + svc_ttl svc) gin)\<lparr>ar_id := uuids s (uuid_next s), ar_created := clock s\<rparr>
    \<and> approvals s' = approvals s @ [req]
    \<and> get_request (gi_org gin) (ar_id req) s' = (Inr req, s')
    \<and> map event_of (outbox_rows s') = map event_of (outbox_rows s)
        @ [(gi_org gin, ''approval.requested'',
            approval_payload (gi_org gin) (ar_id req) (ci_id (gi_item gin)) Pending)]"
proof -
  let ?i = "uuids s (uuid_next s)"
  let ?req = "(gate_request (clock s + svc_ttl svc) gin)\<lparr>ar_id := ?i, ar_created := clock s\<rparr>"
  let ?s = "logged (audit_ev (gi_org gin) (gi_requester gin) ''approval.requested'' ''approval_request'' ?i JNull)
      (gi_org gin) ''approval.requested'' (approval_payload (gi_org gin) ?i (ci_id (gi_item gin)) Pending)
      (s\<lparr>uuid_next := Suc (uuid_next s), approvals := approvals s @ [?req]\<rparr>)"
  have row: "(gate_request (clock s + svc_ttl svc) gin)\<lparr>ar_id := ?i, ar_state := Pending, ar_created := clock s,
      ar_approver := [], ar_reason := [], ar_decided := None, ar_cancelled_by := []\<rparr> = ?req"
    by (simp add: gate_request_def)
  let ?body = "bindE (create_approval (gate_request (clock s + svc_ttl svc) gin)) (\<lambda>req.
                 thenE (log_approval (gi_org gin) (gi_requester gin) ''approval.requested'' (ar_id req) JNull
                          ''approval.requested''
                          (approval_payload (gi_org gin) (ar_id req) (ci_id (gi_item gin)) Pending))
                       (ret req))"
  have "?body s = (Inr ?req, ?s)" using assms(1,3)
    by (simp add: create_approval_def insert_approval_def bindE_def thenE_def new_uuid_def row ret_def Let_def)
  from with_tx_healthy [where body = ?body, OF assms(1) this] assms(1,2)
  have "gate svc gin s = (Inr \<lparr>gr_approved = False, gr_approval = ar_id ?req\<rparr>, ?s)"
    by (simp add: gate_def bindE_def asks_def ret_def)
  moreover have "\<forall>r \<in> set (approvals s). ar_id r \<noteq> ?i" using assms(3) by (metis imageI)
  then have "select_row (\<lambda>r. ar_id r = ?i) (approvals s @ [?req]) = Some ?req"
    by (intro select_row_snoc) simp_all
  then have "get_request (gi_org gin) ?i ?s = (Inr ?req, ?s)" using assms(1)
    by (simp add: get_request_def get_approval_def bindE_def ret_def gate_request_def)
  then have "get_request (gi_org gin) (ar_id ?req) ?s = (Inr ?req, ?s)" by simp
  moreover have "approvals ?s = approvals s @ [?req]" by simp
  moreover have "map event_of (outbox_rows ?s) = map event_of (outbox_rows s) @
      [(gi_org gin, ''approval.requested'', approval_payload (gi_org gin) (ar_id ?req) (ci_id (gi_item gin)) Pending)]"
    by (simp add: event_of_def outbox_row_def)
  ultimately show ?thesis by blast
qed

section \<open>Witnesses\<close>

definition demo_request :: "string \<Rightarrow> string \<Rightarrow> string \<Rightarrow> approval_state \<Rightarrow> int \<Rightarrow> approval_request" where
  "demo_request i requester action st expires =
     \<lparr>ar_id = i, ar_org = ''acme'', ar_item = [], ar_version = [], ar_cluster = [], ar_spec = JNull,
      ar_requester = requester, ar_approver = [], ar_state = st, ar_reason = [], ar_name = [],
      ar_namespace = [], ar_team = [], ar_channel = [], ar_instance = [], ar_action = action,
      ar_repo = [], ar_created = 1, ar_decided = None, ar_expires = Some expires, ar_cancelled_by = []\<rparr>"

definition demo_adb :: approvals_db where
  "demo_adb = \<lparr>faults = [], clock = 100, uuids = (\<lambda>n. replicate n (CHR ''u'')), uuid_next = 1,
     audit_rows = [], audit_archive = [], outbox_rows = [], outbox_seq = 1,
     approvals = [demo_request ''a1'' ''user:alice'' ''tenant.decommission'' Pending 500,
                  demo_request ''a2'' ''alice'' ''instance.delete'' Rejected 10,
                  demo_request ''a3'' ''alice'' ''rollout.stage_gate'' Pending 100],
     approval_configs = []\<rparr>"

definition demo_svc :: "approvals_db approvals_svc" where
  "demo_svc = \<lparr>svc_roles = Some (\<lambda>org user perm. ret (user = ''bob'')),
     svc_items = (\<lambda>i. throw (ErrMsg ''no item'')), svc_ttl = DefaultTTL, svc_platform = Some (\<lambda>u r ob. Inr False)\<rparr>"

lemma demo_svc_read_only: "svc_read_only demo_svc"
  by (simp add: svc_read_only_def demo_svc_def)

lemma demo_unique: "unique_ids demo_adb"
  by (simp add: unique_ids_def demo_adb_def demo_request_def)

definition demo_decided :: "(err + approval_request) \<times> approvals_db" where
  "demo_decided = decide demo_svc ''acme'' ''a1'' ''bob'' True ''fine'' demo_adb"

lemma demo_decided_res:
  "fst demo_decided = Inr ((demo_request ''a1'' ''user:alice'' ''tenant.decommission'' Approved 500)
     \<lparr>ar_approver := ''bob'', ar_reason := ''fine''\<rparr>)"
  by code_simp

theorem settled_request_final_witness:
  "demo_request ''a2'' ''alice'' ''instance.delete'' Rejected 10
     \<in> set (approvals (snd (decide_tx (approvals demo_adb ! 1) ''eve'' True ''late'' demo_adb)))"
proof -
  obtain r s' where run: "decide_tx (approvals demo_adb ! 1) ''eve'' True ''late'' demo_adb = (r, s')" by fastforce
  then have "approvals_step demo_adb s'" by (rule step_decide)
  then have "approvals_step\<^sup>*\<^sup>* demo_adb s'" by blast
  from settled_request_final [OF this demo_unique, of "demo_request ''a2'' ''alice'' ''instance.delete'' Rejected 10"]
  show ?thesis using run by (simp add: demo_adb_def demo_request_def)
qed

theorem decide_all_or_nothing_witness:
  "ob_type (last (outbox_rows (snd demo_decided))) = ''approval.decided''"
proof -
  obtain res s' where run: "decide demo_svc ''acme'' ''a1'' ''bob'' True ''fine'' demo_adb = (res, s')" by fastforce
  then have "\<exists>q. res = Inr q" using demo_decided_res by (simp add: demo_decided_def)
  with decide_all_or_nothing [OF demo_svc_read_only run] run
  show ?thesis by (auto simp: demo_decided_def settled_by_def outbox_row_def)
qed

theorem lifecycle_separation_of_duties_witness:
  "\<not> same_actor ''user:alice'' ''bob''"
proof -
  obtain s' where run: "decide demo_svc ''acme'' ''a1'' ''bob'' True ''fine'' demo_adb =
      (Inr ((demo_request ''a1'' ''user:alice'' ''tenant.decommission'' Approved 500)
        \<lparr>ar_approver := ''bob'', ar_reason := ''fine''\<rparr>), s')"
    using demo_decided_res unfolding demo_decided_def by (metis prod.collapse)
  have v: "valid_lifecycle_action (ar_action ((demo_request ''a1'' ''user:alice'' ''tenant.decommission'' Approved 500)
        \<lparr>ar_approver := ''bob'', ar_reason := ''fine''\<rparr>))"
    by (simp add: demo_request_def valid_lifecycle_action_def ApprovalActionTenantDecommission_def)
  from lifecycle_separation_of_duties [OF demo_svc_read_only run v]
  show ?thesis by (simp add: demo_request_def)
qed

theorem expire_sweep_correct_witness:
  "map (\<lambda>r. (ar_id r, ar_state r)) (approvals (snd (expire_sweep demo_adb))) =
     [(''a1'', Pending), (''a2'', Rejected), (''a3'', Expired)]"
proof -
  have "faults demo_adb = []" by (simp add: demo_adb_def)
  from expire_sweep_correct [OF this demo_unique]
  show ?thesis by (auto simp: demo_adb_def demo_request_def expired_at_def expired_row_def)
qed

definition demo_gate :: gate_input where
  "demo_gate = \<lparr>gi_org = ''acme'', gi_item = \<lparr>ci_id = ''pg'', ci_policy = ''peer''\<rparr>, gi_version = ''1'', gi_cluster = ''c'',
     gi_spec = JNull, gi_requester = ''user:bob'', gi_name = ''db'', gi_namespace = ''ns'', gi_team = ''t'',
     gi_channel = [], gi_instance = [], gi_action = [], gi_repo = []\<rparr>"

theorem gate_opens_request_witness:
  "fst (gate demo_svc demo_gate demo_adb) = Inr \<lparr>gr_approved = False, gr_approval = ''u''\<rparr>"
proof -
  have "faults demo_adb = []" by (simp add: demo_adb_def)
  moreover have "policy_for (gi_item demo_gate) \<noteq> ApprovalPolicyAuto"
    by (simp add: demo_gate_def policy_for_def ApprovalPolicyAuto_def)
  moreover have "uuids demo_adb (uuid_next demo_adb) \<notin> ar_id ` set (approvals demo_adb)"
    by (simp add: demo_adb_def demo_request_def)
  ultimately have "\<exists>s' req. gate demo_svc demo_gate demo_adb =
      (Inr \<lparr>gr_approved = False, gr_approval = ar_id req\<rparr>, s')
    \<and> req = (gate_request (clock demo_adb + svc_ttl demo_svc) demo_gate)
        \<lparr>ar_id := uuids demo_adb (uuid_next demo_adb), ar_created := clock demo_adb\<rparr>"
    using gate_opens_request [of demo_adb demo_gate demo_svc] by blast
  then show ?thesis by (auto simp: demo_adb_def gate_request_def)
qed

end
