(* ===== verification/ApprovalConfig.thy ===== *)
theory ApprovalConfig
  imports Approvals
begin

text \<open>
  The per-organisation approval configuration (internal/approvals/config.go): its validation,
  the stored JSON document and its decoding, reading with the built-in defaults, and the
  audited update. \<open>parse_duration\<close> is \<open>time.ParseDuration\<close>; a fractional part is rounded down
  to nanoseconds (Go computes it in floating point).
\<close>

section \<open>Durations\<close>

definition duration_units :: "(string \<times> int) list" where
  "duration_units =
     [(''ns'', 1), (''us'', 1000), ([CHR 0xC2, CHR 0xB5, CHR ''s''], 1000),
      ([CHR 0xCE, CHR 0xBC, CHR ''s''], 1000), (''ms'', 1000000), (''s'', second),
      (''m'', 60 * second), (''h'', 3600 * second)]"

definition digit_or_dot :: "char \<Rightarrow> bool" where
  "digit_or_dot c \<longleftrightarrow> is_digit c \<or> c = CHR ''.''"

text \<open>One \<open>number unit\<close> group: its value and the rest of the text.\<close>

definition duration_group :: "string \<Rightarrow> (int \<times> string) option" where
  "duration_group s =
     (let whole = takeWhile is_digit s;
          s1 = dropWhile is_digit s;
          dot = (case s1 of c # _ \<Rightarrow> c = CHR ''.'' | [] \<Rightarrow> False);
          frac = (if dot then takeWhile is_digit (tl s1) else []);
          s2 = (if dot then dropWhile is_digit (tl s1) else s1);
          unit = takeWhile (\<lambda>c. \<not> digit_or_dot c) s2;
          s3 = dropWhile (\<lambda>c. \<not> digit_or_dot c) s2
      in if whole = [] \<and> frac = [] then None
         else if unit = [] then None
         else (case map_of duration_units unit of
             None \<Rightarrow> None
           | Some u \<Rightarrow>
               let v = digits_val 0 whole * u + digits_val 0 frac * u div 10 ^ length frac
               in if v > 2 ^ 63 then None else Some (v, s3)))"

lemma duration_group_shorter: "duration_group s = Some (v, s') \<Longrightarrow> length s' < length s"
proof -
  assume run: "duration_group s = Some (v, s')"
  define s1 where "s1 = dropWhile is_digit s"
  define s2 where "s2 = (if (case s1 of c # _ \<Rightarrow> c = CHR ''.'' | [] \<Rightarrow> False)
    then dropWhile is_digit (tl s1) else s1)"
  from run have u: "takeWhile (\<lambda>c. \<not> digit_or_dot c) s2 \<noteq> []"
    and s': "s' = dropWhile (\<lambda>c. \<not> digit_or_dot c) s2"
    unfolding duration_group_def Let_def s1_def s2_def by (auto split: if_splits option.splits)
  have "length s2 \<le> length s" unfolding s2_def s1_def
    by (auto intro!: le_trans [OF length_dropWhile_le] le_trans [OF diff_le_self])
  moreover have "length s' < length s2"
    using u unfolding s' by (cases s2) (auto simp: length_dropWhile_le less_Suc_eq_le split: if_splits)
  ultimately show ?thesis by simp
qed

function duration_groups :: "int \<Rightarrow> string \<Rightarrow> int option" where
  "duration_groups acc s =
     (if s = [] then Some acc
      else (case duration_group s of
          None \<Rightarrow> None
        | Some (v, s') \<Rightarrow> (if acc + v > 2 ^ 63 then None else duration_groups (acc + v) s')))"
  by pat_completeness auto
termination by (relation "measure (\<lambda>(acc, s). length s)") (auto dest: duration_group_shorter)

declare duration_groups.simps [simp del]

definition parse_duration :: "string \<Rightarrow> int option" where
  "parse_duration s =
     (let neg = (case s of c # _ \<Rightarrow> c = CHR ''-'' | [] \<Rightarrow> False);
          body = (case s of c # cs \<Rightarrow> if c = CHR ''-'' \<or> c = CHR ''+'' then cs else s | [] \<Rightarrow> [])
      in if body = ''0'' then Some 0
         else if body = [] then None
         else (case duration_groups 0 body of
             None \<Rightarrow> None
           | Some d \<Rightarrow> if neg then Some (- d) else if d > 2 ^ 63 - 1 then None else Some d))"

section \<open>Validation\<close>

definition default_config :: approval_config where
  "default_config = \<lparr>ac_default = ApprovalPolicyAuto, ac_ttl = ''168h0m0s'', ac_thresholds = [],
     ac_groups = [], ac_auto = []\<rparr>"

definition threshold_ok :: "approval_threshold \<Rightarrow> bool" where
  "threshold_ok th \<longleftrightarrow> th_kind th \<noteq> [] \<and> \<not> th_gt th < 0 \<and> policy_valid (th_policy th)"

definition group_ok :: "approver_group \<Rightarrow> bool" where
  "group_ok g \<longleftrightarrow> ag_name g \<noteq> [] \<and> ag_subjects g \<noteq> []"

definition auto_ok :: "auto_approve_rule \<Rightarrow> bool" where
  "auto_ok r \<longleftrightarrow> aa_kind r \<noteq> [] \<and> aa_items r \<noteq> []"

definition validate_config :: "approval_config \<Rightarrow> err option" where
  "validate_config c =
     (if \<not> policy_valid (ac_default c) then Some InvalidConfig
      else (case parse_duration (ac_ttl c) of
          None \<Rightarrow> Some InvalidConfig
        | Some ttl \<Rightarrow>
            if ttl \<le> 0 then Some InvalidConfig
            else if \<not> list_all threshold_ok (ac_thresholds c) then Some InvalidConfig
            else if \<not> list_all group_ok (ac_groups c) then Some InvalidConfig
            else if \<not> list_all auto_ok (ac_auto c) then Some InvalidConfig
            else None))"

section \<open>The JSON document\<close>

definition threshold_json :: "approval_threshold \<Rightarrow> json" where
  "threshold_json th = JObj [(''kind'', JStr (th_kind th)), (''gt'', JNum (th_gt th)), (''policy'', JStr (th_policy th))]"

definition group_json :: "approver_group \<Rightarrow> json" where
  "group_json g = JObj [(''name'', JStr (ag_name g)), (''subjects'', JArr (map JStr (ag_subjects g)))]"

definition auto_json :: "auto_approve_rule \<Rightarrow> json" where
  "auto_json r = JObj [(''kind'', JStr (aa_kind r)), (''itemIds'', JArr (map JStr (aa_items r)))]"

definition omitempty :: "string \<Rightarrow> json list \<Rightarrow> (string \<times> json) list" where
  "omitempty k js = (if js = [] then [] else [(k, JArr js)])"

definition config_json :: "approval_config \<Rightarrow> json" where
  "config_json c = JObj ([(''defaultPolicy'', JStr (ac_default c)), (''approvalTtl'', JStr (ac_ttl c))]
     @ omitempty ''thresholds'' (map threshold_json (ac_thresholds c))
     @ omitempty ''approverGroups'' (map group_json (ac_groups c))
     @ omitempty ''autoApprove'' (map auto_json (ac_auto c)))"

definition threshold_of :: "json \<Rightarrow> err + approval_threshold" where
  "threshold_of j = (case jstring ''kind'' j of Inl e \<Rightarrow> Inl e | Inr k \<Rightarrow>
     (case jfield jas_real ''gt'' j of Inl e \<Rightarrow> Inl e | Inr g \<Rightarrow>
     (case jstring ''policy'' j of Inl e \<Rightarrow> Inl e | Inr p \<Rightarrow>
        Inr \<lparr>th_kind = k, th_gt = g, th_policy = p\<rparr>)))"

definition group_of :: "json \<Rightarrow> err + approver_group" where
  "group_of j = (case jstring ''name'' j of Inl e \<Rightarrow> Inl e | Inr n \<Rightarrow>
     (case jfield (jlist jas_string) ''subjects'' j of Inl e \<Rightarrow> Inl e | Inr ss \<Rightarrow>
        Inr \<lparr>ag_name = n, ag_subjects = ss\<rparr>))"

definition auto_of :: "json \<Rightarrow> err + auto_approve_rule" where
  "auto_of j = (case jstring ''kind'' j of Inl e \<Rightarrow> Inl e | Inr k \<Rightarrow>
     (case jfield (jlist jas_string) ''itemIds'' j of Inl e \<Rightarrow> Inl e | Inr is \<Rightarrow>
        Inr \<lparr>aa_kind = k, aa_items = is\<rparr>))"

definition config_of :: "json \<Rightarrow> err + approval_config" where
  "config_of j = (case jstring ''defaultPolicy'' j of Inl e \<Rightarrow> Inl e | Inr d \<Rightarrow>
     (case jstring ''approvalTtl'' j of Inl e \<Rightarrow> Inl e | Inr t \<Rightarrow>
     (case jfield (jlist threshold_of) ''thresholds'' j of Inl e \<Rightarrow> Inl e | Inr ths \<Rightarrow>
     (case jfield (jlist group_of) ''approverGroups'' j of Inl e \<Rightarrow> Inl e | Inr gs \<Rightarrow>
     (case jfield (jlist auto_of) ''autoApprove'' j of Inl e \<Rightarrow> Inl e | Inr as \<Rightarrow>
        Inr \<lparr>ac_default = d, ac_ttl = t, ac_thresholds = ths, ac_groups = gs, ac_auto = as\<rparr>)))))"

lemma threshold_of_json [simp]: "threshold_of (threshold_json th) = Inr th"
  by (simp add: threshold_of_def threshold_json_def jstring_def jfield_def)

lemma jmap_strings [simp]: "jmap jas_string (map JStr xs) = Inr xs"
  by (induction xs) auto

lemma group_of_json [simp]: "group_of (group_json g) = Inr g"
  by (simp add: group_of_def group_json_def jstring_def jfield_def jlist_def)

lemma auto_of_json [simp]: "auto_of (auto_json r) = Inr r"
  by (simp add: auto_of_def auto_json_def jstring_def jfield_def jlist_def)

lemma config_of_json [simp]: "config_of (config_json c) = Inr c"
proof -
  have t: "jmap threshold_of (map threshold_json ths) = Inr ths" for ths by (rule jmap_map) simp
  have g: "jmap group_of (map group_json gs) = Inr gs" for gs by (rule jmap_map) simp
  have a: "jmap auto_of (map auto_json as) = Inr as" for as by (rule jmap_map) simp
  show ?thesis
    by (simp add: config_of_def config_json_def omitempty_def jstring_def jfield_def jlist_def t g a)
qed

section \<open>Reading and updating\<close>

definition get_config_row ::
  "string \<Rightarrow> ('a approvals_db_scheme, approval_config_record option) dbm" where
  "get_config_row org = sql (\<lambda>s. case select_row (\<lambda>r. cr_org r = org) (approval_configs s) of
      None \<Rightarrow> (Inr None, s)
    | Some r \<Rightarrow> (case config_of (cr_config r) of
         Inl e \<Rightarrow> (Inl e, s)
       | Inr c \<Rightarrow> (Inr (Some \<lparr>acr_org = org, acr_config = c, acr_updated = Some (cr_updated r)\<rparr>), s)))"

definition upsert_config :: "string \<Rightarrow> approval_config \<Rightarrow> ('a approvals_db_scheme, unit) dbm" where
  "upsert_config org c = sql (modify (\<lambda>s.
     if \<exists>r \<in> set (approval_configs s). cr_org r = org
     then s\<lparr>approval_configs := update_rows (\<lambda>r. cr_org r = org)
              (\<lambda>r. r\<lparr>cr_config := config_json c, cr_updated := clock s\<rparr>) (approval_configs s)\<rparr>
     else s\<lparr>approval_configs := approval_configs s @
              [\<lparr>cr_org = org, cr_config = config_json c, cr_updated = clock s\<rparr>]\<rparr>))"

definition get_config :: "string \<Rightarrow> ('a approvals_db_scheme, approval_config_record) dbm" where
  "get_config org = bindE (get_config_row org) (\<lambda>found. case found of
      None \<Rightarrow> ret \<lparr>acr_org = org, acr_config = default_config, acr_updated = None\<rparr>
    | Some rec \<Rightarrow> ret rec)"

definition config_payload :: "string \<Rightarrow> approval_config \<Rightarrow> approval_config \<Rightarrow> json" where
  "config_payload org before after =
     JObj [(''orgId'', JStr org), (''before'', config_json before), (''after'', config_json after)]"

definition update_config ::
  "string \<Rightarrow> string \<Rightarrow> approval_config \<Rightarrow> ('a approvals_db_scheme, approval_config_record option) dbm" where
  "update_config actor org c = (case validate_config c of
      Some e \<Rightarrow> throw e
    | None \<Rightarrow> with_tx (bindE (get_config_row org) (\<lambda>before.
        let old = (case before of None \<Rightarrow> default_config | Some rec \<Rightarrow> acr_config rec)
        in thenE (upsert_config org c)
             (thenE (emit (audit_ev org actor ''approvals.config.updated'' ''approval_config'' org
                             (config_payload org old c))
                      org ''approvals.config.updated'' (config_payload org old c))
               (get_config_row org)))))"

section \<open>Properties\<close>

lemma validate_config_None:
  "validate_config c = None \<longleftrightarrow> policy_valid (ac_default c)
     \<and> (\<exists>d > 0. parse_duration (ac_ttl c) = Some d)
     \<and> list_all threshold_ok (ac_thresholds c) \<and> list_all group_ok (ac_groups c) \<and> list_all auto_ok (ac_auto c)"
  by (auto simp: validate_config_def split: option.splits)

lemma get_config_row_healthy:
  "faults s = [] \<Longrightarrow> select_row (\<lambda>r. cr_org r = org) (approval_configs s) = Some r \<Longrightarrow> cr_config r = config_json c \<Longrightarrow>
   get_config_row org s = (Inr (Some \<lparr>acr_org = org, acr_config = c, acr_updated = Some (cr_updated r)\<rparr>), s)"
  by (simp add: get_config_row_def)

lemma upsert_config_selects:
  assumes "faults s = []"
  shows "\<exists>s' r. upsert_config org c s = (Inr (), s') \<and> faults s' = [] \<and> clock s' = clock s
    \<and> select_row (\<lambda>r. cr_org r = org) (approval_configs s') = Some r
    \<and> cr_config r = config_json c \<and> cr_updated r = clock s
    \<and> outbox_rows s' = outbox_rows s"
proof (cases "\<exists>r \<in> set (approval_configs s). cr_org r = org")
  case True
  then obtain r where "select_row (\<lambda>r. cr_org r = org) (approval_configs s) = Some r"
    by (cases "select_row (\<lambda>r. cr_org r = org) (approval_configs s)") (auto simp: select_row_None_iff)
  moreover from this have "cr_org r = org" by (blast dest: select_row_SomeD)
  ultimately show ?thesis using True assms
    by (simp add: upsert_config_def modify_def select_row_update_key)
next
  case False
  with assms show ?thesis by (simp add: upsert_config_def modify_def select_row_snoc)
qed

text \<open>
  Round trip of the configuration. A valid configuration stored by \<open>UpdateConfig\<close> on a healthy
  database is what \<open>GetConfig\<close> returns for the organisation afterwards, stamped with the time of
  the update, when the stored document could be read; one \<open>approvals.config.updated\<close> event is queued.
\<close>

theorem update_config_roundtrip:
  assumes "faults s = []" and "validate_config c = None"
    and "get_config_row org s = (Inr before, s)"
  shows "\<exists>s'. update_config actor org c s =
      (Inr (Some \<lparr>acr_org = org, acr_config = c, acr_updated = Some (clock s)\<rparr>), s')
    \<and> get_config org s' = (Inr \<lparr>acr_org = org, acr_config = c, acr_updated = Some (clock s)\<rparr>, s')
    \<and> map event_of (outbox_rows s') = map event_of (outbox_rows s) @
        [(org, ''approvals.config.updated'',
          config_payload org (case before of None \<Rightarrow> default_config | Some rec \<Rightarrow> acr_config rec) c)]"
proof -
  let ?old = "case before of None \<Rightarrow> default_config | Some rec \<Rightarrow> acr_config rec"
  let ?rec = "\<lparr>acr_org = org, acr_config = c, acr_updated = Some (clock s)\<rparr>"
  from upsert_config_selects [OF assms(1)] obtain s1 r where 1: "upsert_config org c s = (Inr (), s1)"
    and s1: "faults s1 = []" "select_row (\<lambda>r. cr_org r = org) (approval_configs s1) = Some r"
      "cr_config r = config_json c" "cr_updated r = clock s" "outbox_rows s1 = outbox_rows s"
    and clk: "clock s1 = clock s"
    by blast
  let ?s = "logged (audit_ev org actor ''approvals.config.updated'' ''approval_config'' org (config_payload org ?old c))
      org ''approvals.config.updated'' (config_payload org ?old c) s1"
  have g: "get_config_row org ?s = (Inr (Some ?rec), ?s)"
    using s1 by (subst get_config_row_healthy [where r = r and c = c]) simp_all
  let ?body = "bindE (get_config_row org) (\<lambda>before.
        let old = (case before of None \<Rightarrow> default_config | Some rec \<Rightarrow> acr_config rec)
        in thenE (upsert_config org c)
             (thenE (emit (audit_ev org actor ''approvals.config.updated'' ''approval_config'' org
                             (config_payload org old c))
                      org ''approvals.config.updated'' (config_payload org old c))
               (get_config_row org)))"
  have "?body s = (Inr (Some ?rec), ?s)"
    using 1 s1(1) g assms(3) by (simp add: bindE_def thenE_def Let_def)
  from with_tx_healthy [where body = ?body, OF assms(1) this] s1(1)
  have "update_config actor org c s = (Inr (Some ?rec), ?s)"
    by (simp add: update_config_def assms(2))
  moreover have "get_config org ?s = (Inr ?rec, ?s)"
    by (simp add: get_config_def bindE_def g ret_def)
  moreover have "map event_of (outbox_rows ?s) = map event_of (outbox_rows s) @
      [(org, ''approvals.config.updated'', config_payload org ?old c)]"
    by (simp add: s1(5) event_of_def outbox_row_def)
  ultimately show ?thesis by blast
qed

theorem update_config_roundtrip_witness:
  "fst (get_config ''acme'' (snd (update_config ''bob'' ''acme'' default_config demo_adb))) =
     Inr \<lparr>acr_org = ''acme'', acr_config = default_config, acr_updated = Some 100\<rparr>"
proof -
  have f: "faults demo_adb = []" by (simp add: demo_adb_def)
  have "parse_duration ''168h0m0s'' = Some 604800000000000" by code_simp
  then have v: "validate_config default_config = None"
    by (auto simp: validate_config_None default_config_def policy_valid_def)
  have g: "get_config_row ''acme'' demo_adb = (Inr None, demo_adb)"
    by (simp add: get_config_row_def sql_def demo_adb_def select_row_def)
  have "clock demo_adb = 100" by (simp add: demo_adb_def)
  with update_config_roundtrip [OF f v g, of "''bob''"] show ?thesis by auto
qed

end
