(* ===== verification/AgentQueue.thy ===== *)
theory AgentQueue
  imports Approvals
begin

text \<open>
  The tables of the cluster side (clusters, registration tokens, capabilities, agent
  commands) and the durable per-agent command queue (internal/agentgateway/queue.go): a
  command leaves the queue only by the agent's ack or nack. The locale \<open>command_queue\<close> is the
  \<open>Queue\<close> interface of the fleet manager, with what its callers rely on.
\<close>

section \<open>Rows\<close>

datatype cluster_state = PendingApproval | PendingRegistration | ClusterActive | ClusterDegraded
  | Cordoned | Decommissioned | ClusterRevoked

record cluster =
  cl_id :: string
  cl_org :: string
  cl_name :: string
  cl_k8s :: string
  cl_distribution :: string
  cl_issuer :: string
  cl_labels :: "(string \<times> string) list"
  cl_client :: string
  cl_state :: cluster_state
  cl_checksum :: string
  cl_connected :: "int option"
  cl_last_seen :: "int option"
  cl_created :: int
  cl_agent_version :: string

record registration_token =
  rt_id :: string
  rt_cluster :: string
  rt_hash :: string
  rt_expires :: int
  rt_used :: "int option"
  rt_created_by :: string
  rt_created :: int

text \<open>A live or soft-deleted capability row; the key is the unique constraint of the table.\<close>

record capability =
  cap_cluster :: string
  cap_kind :: string
  cap_group :: string
  cap_name :: string
  cap_version :: string
  cap_schema :: json
  cap_hints :: json
  cap_mode :: string
  cap_first_seen :: int
  cap_last_seen :: int
  cap_deleted :: "int option"

datatype command_status = CommandPending | CommandDelivered | CommandAcked | CommandNacked

record agent_command =
  cmd_id :: string
  cmd_cluster :: string
  cmd_type :: string
  cmd_payload :: json
  cmd_status :: command_status
  cmd_attempts :: nat
  cmd_result :: string
  cmd_created :: int
  cmd_updated :: int

record agents_db = approvals_db +
  clusters :: "cluster list"
  reg_tokens :: "registration_token list"
  capabilities :: "capability list"
  agent_commands :: "agent_command list"

section \<open>The queue\<close>

definition default_retry :: "int \<Rightarrow> int" where
  "default_retry d = (if d \<le> 0 then 30 * second else d)"

text \<open>
  \<open>ON CONFLICT (id) DO NOTHING\<close>: an id that is already queued changes nothing; the foreign key
  requires the cluster to exist.
\<close>

definition enqueue :: "agent_command \<Rightarrow> ('a agents_db_scheme, unit) dbm" where
  "enqueue c = sql (\<lambda>s.
     if cmd_id c \<in> cmd_id ` set (agent_commands s) then (Inr (), s)
     else if cmd_cluster c \<notin> cl_id ` set (clusters s) then (Inl (ErrMsg ''agent_commands_cluster_id_fkey''), s)
     else (Inr (), s\<lparr>agent_commands := agent_commands s @
            [c\<lparr>cmd_status := CommandPending, cmd_attempts := 0, cmd_result := [],
               cmd_created := clock s, cmd_updated := clock s\<rparr>]\<rparr>))"

definition is_due :: "int \<Rightarrow> string \<Rightarrow> agent_command \<Rightarrow> bool" where
  "is_due before cluster c \<longleftrightarrow> cmd_cluster c = cluster
     \<and> (cmd_status c = CommandPending \<or> (cmd_status c = CommandDelivered \<and> cmd_updated c < before))"

definition due :: "int \<Rightarrow> string \<Rightarrow> int \<Rightarrow> ('a agents_db_scheme, agent_command list) dbm" where
  "due retry_after cluster limit =
     (let n = (if limit \<le> 0 then 50 else nat limit)
      in sql (asks (\<lambda>s. take n (sort_key cmd_created
            (filter (is_due (clock s - retry_after) cluster) (agent_commands s))))))"

definition in_flight :: "agent_command \<Rightarrow> bool" where
  "in_flight c \<longleftrightarrow> cmd_status c = CommandPending \<or> cmd_status c = CommandDelivered"

definition mark_delivered :: "string \<Rightarrow> ('a agents_db_scheme, unit) dbm" where
  "mark_delivered i = sql (modify (\<lambda>s. s\<lparr>agent_commands :=
     update_rows (\<lambda>c. cmd_id c = i \<and> in_flight c)
       (\<lambda>c. c\<lparr>cmd_status := CommandDelivered, cmd_attempts := cmd_attempts c + 1, cmd_updated := clock s\<rparr>)
       (agent_commands s)\<rparr>))"

definition complete_pending_by_type :: "string \<Rightarrow> string \<Rightarrow> string \<Rightarrow> ('a agents_db_scheme, unit) dbm" where
  "complete_pending_by_type cluster ctype message = sql (modify (\<lambda>s. s\<lparr>agent_commands :=
     update_rows (\<lambda>c. cmd_cluster c = cluster \<and> cmd_type c = ctype \<and> in_flight c)
       (\<lambda>c. c\<lparr>cmd_status := CommandAcked, cmd_result := message, cmd_updated := clock s\<rparr>)
       (agent_commands s)\<rparr>))"

definition get_command :: "string \<Rightarrow> ('a agents_db_scheme, agent_command) dbm" where
  "get_command i = sql (\<lambda>s. case select_row (\<lambda>c. cmd_id c = i) (agent_commands s) of
      None \<Rightarrow> (Inl ErrNoRows, s) | Some c \<Rightarrow> (Inr c, s))"

definition complete :: "string \<Rightarrow> command_status \<Rightarrow> string \<Rightarrow> ('a agents_db_scheme, unit) dbm" where
  "complete i status message =
     (if status \<noteq> CommandAcked \<and> status \<noteq> CommandNacked then throw (ErrMsg ''invalid terminal status'')
      else sql (modify (\<lambda>s. s\<lparr>agent_commands :=
        update_rows (\<lambda>c. cmd_id c = i)
          (\<lambda>c. c\<lparr>cmd_status := status, cmd_result := message, cmd_updated := clock s\<rparr>) (agent_commands s)\<rparr>)))"

text \<open>
  \<open>session.dispatchDue\<close> (stream.go): \<open>decodes\<close> is \<open>protojson.Unmarshal\<close> of the stored payload,
  \<open>send\<close> the outcome of sending the event on the agent's stream.
\<close>

fun dispatch_all ::
  "(json \<Rightarrow> bool) \<Rightarrow> (agent_command \<Rightarrow> err option) \<Rightarrow> agent_command list \<Rightarrow> ('a agents_db_scheme, unit) dbm" where
  "dispatch_all decodes send [] = ret ()"
| "dispatch_all decodes send (c # cs) =
     (if \<not> decodes (cmd_payload c) then dispatch_all decodes send cs
      else (case send c of
          Some e \<Rightarrow> throw e
        | None \<Rightarrow> thenE (mark_delivered (cmd_id c)) (dispatch_all decodes send cs)))"

definition dispatch_due ::
  "int \<Rightarrow> (json \<Rightarrow> bool) \<Rightarrow> (agent_command \<Rightarrow> err option) \<Rightarrow> string \<Rightarrow> ('a agents_db_scheme, unit) dbm" where
  "dispatch_due retry_after decodes send cluster =
     bindE (due retry_after cluster 50) (dispatch_all decodes send)"

section \<open>The interface of the fleet manager\<close>

locale command_queue =
  fixes enq :: "agent_command \<Rightarrow> ('s, unit) dbm"
    and queued :: "'s \<Rightarrow> agent_command list"
  assumes keeps: "enq c s = (r, s') \<Longrightarrow> set (queued s) \<subseteq> set (queued s')"
    and present: "enq c s = (Inr u, s') \<Longrightarrow> cmd_id c \<in> cmd_id ` set (queued s')"
    and duplicate: "enq c s = (r, s') \<Longrightarrow> cmd_id c \<in> cmd_id ` set (queued s) \<Longrightarrow> queued s' = queued s"
begin

fun enq_all :: "agent_command list \<Rightarrow> ('s, unit) dbm" where
  "enq_all [] = ret ()"
| "enq_all (c # cs) = thenE (enq c) (enq_all cs)"

lemma enq_all_keeps: "enq_all cs s = (r, s') \<Longrightarrow> set (queued s) \<subseteq> set (queued s')"
proof (induction cs arbitrary: s)
  case Nil
  then show ?case by (simp add: ret_def)
next
  case (Cons c cs)
  obtain q s1 where q: "enq c s = (q, s1)" by fastforce
  from keeps [OF this] Cons show ?case
    by (cases q) (fastforce simp: thenE_def bindE_def q)+
qed

lemma enq_all_present:
  "enq_all cs s = (Inr u, s') \<Longrightarrow> cmd_id ` set cs \<subseteq> cmd_id ` set (queued s')"
proof (induction cs arbitrary: s)
  case Nil
  then show ?case by simp
next
  case (Cons c cs)
  then obtain v s1 where c: "enq c s = (Inr v, s1)" and cs: "enq_all cs s1 = (Inr u, s')"
    by (auto elim: thenE_okE)
  from present [OF c] enq_all_keeps [OF cs] Cons.IH [OF cs] show ?case by auto
qed

text \<open>Sending a batch again changes nothing in the queue.\<close>

lemma enq_all_again:
  "cmd_id ` set cs \<subseteq> cmd_id ` set (queued s) \<Longrightarrow> enq_all cs s = (r, s') \<Longrightarrow> queued s' = queued s"
proof (induction cs arbitrary: s)
  case Nil
  then show ?case by (simp add: ret_def)
next
  case (Cons c cs)
  obtain q s1 where q: "enq c s = (q, s1)" by fastforce
  from Cons.prems have same: "queued s1 = queued s" by (intro duplicate [OF q]) simp
  show ?case
  proof (cases q)
    case (Inl e)
    with Cons.prems(2) q same show ?thesis by (simp add: thenE_def bindE_def)
  next
    case (Inr u)
    with Cons.prems(2) q have "enq_all cs s1 = (r, s')" by (simp add: thenE_def bindE_def)
    moreover have "cmd_id ` set cs \<subseteq> cmd_id ` set (queued s1)" using Cons.prems(1) same by simp
    ultimately show ?thesis using Cons.IH same by metis
  qed
qed

end

lemma enqueue_cases:
  assumes "enqueue c s = (r, s')"
  shows "(cmd_id c \<in> cmd_id ` set (agent_commands s') \<or> (\<exists>e. r = Inl e))
    \<and> (\<exists>fs. s' = s\<lparr>faults := fs\<rparr> \<or> (cmd_id c \<notin> cmd_id ` set (agent_commands s)
        \<and> s' = s\<lparr>faults := fs, agent_commands := agent_commands s @
            [c\<lparr>cmd_status := CommandPending, cmd_attempts := 0, cmd_result := [],
               cmd_created := clock s, cmd_updated := clock s\<rparr>]\<rparr>))"
proof (cases r)
  case (Inl e)
  with assms show ?thesis unfolding enqueue_def
    by (auto dest!: sql_ErrD split: if_splits)
next
  case (Inr u)
  with assms show ?thesis unfolding enqueue_def
    by (auto elim!: sql_okE split: if_splits)
qed

interpretation agent_queue: command_queue "enqueue :: agent_command \<Rightarrow> ('a agents_db_scheme, unit) dbm" agent_commands
proof
  fix c and s s' :: "'a agents_db_scheme" and r
  assume "enqueue c s = (r, s')"
  then show "set (agent_commands s) \<subseteq> set (agent_commands s')" by (auto dest!: enqueue_cases)
next
  fix c u and s s' :: "'a agents_db_scheme"
  assume "enqueue c s = (Inr u, s')"
  then show "cmd_id c \<in> cmd_id ` set (agent_commands s')" by (auto dest!: enqueue_cases)
next
  fix c and s s' :: "'a agents_db_scheme" and r
  assume "enqueue c s = (r, s')" and "cmd_id c \<in> cmd_id ` set (agent_commands s)"
  then show "agent_commands s' = agent_commands s" by (auto dest!: enqueue_cases)
qed

section \<open>A command stays until it is acknowledged\<close>

definition unacked :: "agent_command \<Rightarrow> 'a agents_db_scheme \<Rightarrow> bool" where
  "unacked c s \<longleftrightarrow> (\<exists>c' \<in> set (agent_commands s). cmd_id c' = cmd_id c \<and> cmd_cluster c' = cmd_cluster c
     \<and> cmd_type c' = cmd_type c \<and> cmd_payload c' = cmd_payload c \<and> in_flight c')"

lemma unacked_log_stable: "log_stable (unacked c)"
  by (simp add: log_stable_def unacked_def)

lemma unacked_tx_stable: "tx_stable (unacked c)"
  by (rule log_stable_tx_stable [OF unacked_log_stable])

lemma unacked_update_rows:
  assumes "unacked c s"
    and "\<And>r. r \<in> set (agent_commands s) \<Longrightarrow> cmd_id r = cmd_id c \<Longrightarrow> cmd_cluster r = cmd_cluster c \<Longrightarrow>
      cmd_type r = cmd_type c \<Longrightarrow> in_flight r \<Longrightarrow> P r \<Longrightarrow>
      cmd_id (f r) = cmd_id r \<and> cmd_cluster (f r) = cmd_cluster r \<and> cmd_type (f r) = cmd_type r
      \<and> cmd_payload (f r) = cmd_payload r \<and> in_flight (f r)"
  shows "unacked c (s\<lparr>agent_commands := update_rows P f (agent_commands s)\<rparr>)"
proof -
  from assms(1) obtain c' where c': "c' \<in> set (agent_commands s)" "cmd_id c' = cmd_id c"
    "cmd_cluster c' = cmd_cluster c" "cmd_type c' = cmd_type c" "cmd_payload c' = cmd_payload c" "in_flight c'"
    unfolding unacked_def by blast
  let ?g = "if P c' then f c' else c'"
  have "?g \<in> set (update_rows P f (agent_commands s))" using c'(1) by (auto simp: set_update_rows)
  moreover have "cmd_id ?g = cmd_id c \<and> cmd_cluster ?g = cmd_cluster c \<and> cmd_type ?g = cmd_type c
      \<and> cmd_payload ?g = cmd_payload c \<and> in_flight ?g"
    using c' assms(2) [OF c'(1,2,3,4,6)] by (cases "P c'") auto
  ultimately show ?thesis unfolding unacked_def by auto
qed

lemma unacked_enqueue: "preserves (unacked c) (enqueue d)"
proof (rule preservesI)
  fix s r s' assume "unacked c s" and "enqueue d s = (r, s')"
  with agent_queue.keeps [of d s r s'] show "unacked c s'" unfolding unacked_def by blast
qed

lemma unacked_mark_delivered: "preserves (unacked c) (mark_delivered i)"
  unfolding mark_delivered_def
  by (rule preserves_sql [OF unacked_tx_stable], rule preserves_modify, rule unacked_update_rows)
     (auto simp: in_flight_def)

lemma unacked_dispatch_all: "preserves (unacked c) (dispatch_all decodes send cs)"
  by (induction cs) (auto intro!: preserves_rules unacked_mark_delivered split: option.splits)

lemma unacked_dispatch_due: "preserves (unacked c) (dispatch_due retry decodes send cluster)"
  unfolding dispatch_due_def due_def Let_def
  by (intro preserves_rules unacked_tx_stable unacked_dispatch_all)

text \<open>
  The operations on the queue that are not an acknowledgement of \<open>c\<close>, in any order, with any
  failures, while time passes and the other tables change.
\<close>

inductive queue_step :: "agent_command \<Rightarrow> 'a agents_db_scheme \<Rightarrow> 'a agents_db_scheme \<Rightarrow> bool" for c where
  q_enqueue: "enqueue d s = (r1, s') \<Longrightarrow> queue_step c s s'"
| q_deliver: "dispatch_due retry decodes send cluster s = (r2, s') \<Longrightarrow> queue_step c s s'"
| q_mark: "mark_delivered i s = (r3, s') \<Longrightarrow> queue_step c s s'"
| q_complete: "i \<noteq> cmd_id c \<Longrightarrow> complete i status message s = (r4, s') \<Longrightarrow> queue_step c s s'"
| q_retire: "cluster \<noteq> cmd_cluster c \<or> ctype \<noteq> cmd_type c \<Longrightarrow>
    complete_pending_by_type cluster ctype message s = (r5, s') \<Longrightarrow> queue_step c s s'"
| q_world: "agent_commands s' = agent_commands s \<Longrightarrow> queue_step c s s'"

lemma unacked_complete: "i \<noteq> cmd_id c \<Longrightarrow> preserves (unacked c) (complete i status message)"
  unfolding complete_def
  by (intro preserves_rules unacked_tx_stable preserves_modify unacked_update_rows) auto

lemma unacked_retire:
  "cluster \<noteq> cmd_cluster c \<or> ctype \<noteq> cmd_type c \<Longrightarrow> preserves (unacked c) (complete_pending_by_type cluster ctype message)"
  unfolding complete_pending_by_type_def
  by (rule preserves_sql [OF unacked_tx_stable], rule preserves_modify, rule unacked_update_rows) auto

lemma unacked_step: "queue_step c s s' \<Longrightarrow> unacked c s \<Longrightarrow> unacked c s'"
proof (induction rule: queue_step.induct)
  case (q_world s' s)
  then show ?case by (simp add: unacked_def)
next
  case (q_enqueue d s r1 s')
  then show ?case by (blast intro: preservesD [OF unacked_enqueue])
next
  case (q_deliver retry decodes send cluster s r2 s')
  then show ?case by (blast intro: preservesD [OF unacked_dispatch_due])
next
  case (q_mark i s r3 s')
  then show ?case by (blast intro: preservesD [OF unacked_mark_delivered])
next
  case (q_complete i status message s r4 s')
  show ?case by (rule preservesD [OF unacked_complete [OF q_complete(1)] q_complete(3,2)])
next
  case (q_retire cluster ctype message s r5 s')
  show ?case by (rule preservesD [OF unacked_retire [OF q_retire(1)] q_retire(3,2)])
qed

section \<open>One dispatch pass\<close>

definition delivered_row :: "int \<Rightarrow> agent_command \<Rightarrow> agent_command" where
  "delivered_row now c = c\<lparr>cmd_status := CommandDelivered, cmd_attempts := cmd_attempts c + 1, cmd_updated := now\<rparr>"

lemma mark_delivered_healthy:
  assumes "faults s = []" and "distinct (map cmd_id (agent_commands s))" and "c \<in> set (agent_commands s)" and "in_flight c"
  shows "mark_delivered (cmd_id c) s = (Inr (), s\<lparr>agent_commands :=
    map (\<lambda>r. if r = c then delivered_row (clock s) r else r) (agent_commands s)\<rparr>)"
proof -
  have "update_rows (\<lambda>r. cmd_id r = cmd_id c \<and> in_flight r) (delivered_row (clock s)) (agent_commands s) =
      map (\<lambda>r. if r = c then delivered_row (clock s) r else r) (agent_commands s)"
    unfolding update_rows_def
  proof (rule map_cong [OF refl])
    fix x assume "x \<in> set (agent_commands s)"
    then have "(cmd_id x = cmd_id c \<and> in_flight x) = (x = c)"
      using assms by (auto dest: distinct_key_unique)
    then show "(if cmd_id x = cmd_id c \<and> in_flight x then delivered_row (clock s) x else x) =
        (if x = c then delivered_row (clock s) x else x)" by simp
  qed
  moreover have "(\<lambda>c. c\<lparr>cmd_status := CommandDelivered, cmd_attempts := Suc (cmd_attempts c), cmd_updated := clock s\<rparr>)
      = delivered_row (clock s)" by (rule ext) (simp add: delivered_row_def)
  ultimately show ?thesis using assms(1) by (simp add: mark_delivered_def modify_def)
qed

lemma dispatch_all_healthy:
  assumes "faults s = []" and "distinct (map cmd_id (agent_commands s))" and "distinct cs"
    and "\<forall>c \<in> set cs. c \<in> set (agent_commands s) \<and> in_flight c"
    and "\<forall>c \<in> set cs. send c = None"
  shows "dispatch_all decodes send cs s = (Inr (), s\<lparr>agent_commands :=
    map (\<lambda>r. if r \<in> set cs \<and> decodes (cmd_payload r) then delivered_row (clock s) r else r) (agent_commands s)\<rparr>)"
  using assms
proof (induction cs arbitrary: s)
  case Nil
  then show ?case by (simp add: ret_def)
next
  case (Cons c cs)
  show ?case
  proof (cases "decodes (cmd_payload c)")
    case False
    have eq: "map (\<lambda>r. if r \<in> set cs \<and> decodes (cmd_payload r) then delivered_row (clock s) r else r) (agent_commands s)
      = map (\<lambda>r. if r \<in> set (c # cs) \<and> decodes (cmd_payload r) then delivered_row (clock s) r else r) (agent_commands s)"
      using False by (intro map_cong refl) auto
    have "dispatch_all decodes send cs s = (Inr (), s\<lparr>agent_commands :=
        map (\<lambda>r. if r \<in> set cs \<and> decodes (cmd_payload r) then delivered_row (clock s) r else r) (agent_commands s)\<rparr>)"
      using Cons.prems by (intro Cons.IH) auto
    with False show ?thesis by (simp only: eq dispatch_all.simps not_False_eq_True if_True)
  next
    case True
    let ?s = "s\<lparr>agent_commands := map (\<lambda>r. if r = c then delivered_row (clock s) r else r) (agent_commands s)\<rparr>"
    have ids: "map cmd_id (agent_commands ?s) = map cmd_id (agent_commands s)"
      by (simp add: delivered_row_def)
    have in_cs: "\<forall>d \<in> set cs. d \<in> set (agent_commands ?s) \<and> in_flight d"
      using Cons.prems(3,4) by (force simp: image_iff)
    have "c \<notin> set cs" using Cons.prems(3) by simp
    moreover have "delivered_row (clock s) c \<notin> set cs"
    proof
      assume d: "delivered_row (clock s) c \<in> set cs"
      with Cons.prems(4) have "delivered_row (clock s) c \<in> set (agent_commands s)" and "c \<in> set (agent_commands s)" by auto
      with Cons.prems(2) have "delivered_row (clock s) c = c" by (rule distinct_key_unique) (simp add: delivered_row_def)
      with d \<open>c \<notin> set cs\<close> show False by simp
    qed
    ultimately have rows: "map (\<lambda>r. if r \<in> set cs \<and> decodes (cmd_payload r) then delivered_row (clock s) r else r) (agent_commands ?s)
      = map (\<lambda>r. if r \<in> set (c # cs) \<and> decodes (cmd_payload r) then delivered_row (clock s) r else r) (agent_commands s)"
      using True by auto
    have "faults ?s = []" and "distinct cs" and "\<forall>c \<in> set cs. send c = None" and clk: "clock ?s = clock s"
      using Cons.prems by simp_all
    moreover have "distinct (map cmd_id (agent_commands ?s))" using Cons.prems(2) by (simp only: ids)
    ultimately have "dispatch_all decodes send cs ?s = (Inr (), ?s\<lparr>agent_commands :=
        map (\<lambda>r. if r \<in> set cs \<and> decodes (cmd_payload r) then delivered_row (clock ?s) r else r) (agent_commands ?s)\<rparr>)"
      using in_cs by (intro Cons.IH)
    then have "dispatch_all decodes send cs ?s = (Inr (), ?s\<lparr>agent_commands :=
        map (\<lambda>r. if r \<in> set (c # cs) \<and> decodes (cmd_payload r) then delivered_row (clock s) r else r) (agent_commands s)\<rparr>)"
      unfolding clk rows .
    moreover have "mark_delivered (cmd_id c) s = (Inr (), ?s)"
      using Cons.prems by (intro mark_delivered_healthy) simp_all
    ultimately show ?thesis using True Cons.prems(5) by (simp add: thenE_def bindE_def)
  qed
qed

section \<open>Properties\<close>

text \<open>
  (C4) At-least-once delivery. A command that the agent has not acknowledged survives every
  sequence of queue operations that does not acknowledge it, with any statements failing and
  any sends lost; it keeps its payload, and it is due again once the retry window has passed
  since its last delivery.
\<close>

theorem command_survives_until_acked:
  assumes "(queue_step c)\<^sup>*\<^sup>* s s'" and "c \<in> set (agent_commands s)" and "in_flight c"
  shows "\<exists>c' \<in> set (agent_commands s'). cmd_id c' = cmd_id c \<and> cmd_payload c' = cmd_payload c
    \<and> in_flight c' \<and> (\<forall>retry. cmd_updated c' + retry < clock s' \<longrightarrow> is_due (clock s' - retry) (cmd_cluster c) c')"
proof -
  from assms(1) have "unacked c s'"
  proof (induction rule: rtranclp_induct)
    case base
    show ?case using assms(2,3) unfolding unacked_def by blast
  next
    case (step y z)
    then show ?case by (blast intro: unacked_step)
  qed
  then obtain c' where "c' \<in> set (agent_commands s')" "cmd_id c' = cmd_id c" "cmd_cluster c' = cmd_cluster c"
    "cmd_payload c' = cmd_payload c" "in_flight c'" unfolding unacked_def by blast
  then show ?thesis by (intro bexI [of _ c']) (auto simp: is_due_def in_flight_def)
qed

text \<open>
  One dispatch pass. On a healthy database with at most fifty commands due and every send
  accepted, exactly the due commands whose payload decodes are marked delivered, each with one
  more attempt and the current time; every other row is unchanged.
\<close>

theorem dispatch_marks_sent:
  assumes "faults s = []" and "distinct (map cmd_id (agent_commands s))"
    and "length (filter (is_due (clock s - retry) cluster) (agent_commands s)) \<le> 50"
    and "\<forall>c \<in> set (agent_commands s). send c = None"
  shows "dispatch_due retry decodes send cluster s = (Inr (), s\<lparr>agent_commands :=
    map (\<lambda>c. if is_due (clock s - retry) cluster c \<and> decodes (cmd_payload c)
             then delivered_row (clock s) c else c) (agent_commands s)\<rparr>)"
proof -
  let ?due = "filter (is_due (clock s - retry) cluster) (agent_commands s)"
  let ?cs = "sort_key cmd_created ?due"
  have "distinct (agent_commands s)" using assms(2) by (simp add: distinct_map)
  then have d: "distinct ?cs" by simp
  have m: "\<forall>c \<in> set ?cs. c \<in> set (agent_commands s) \<and> in_flight c" by (auto simp: is_due_def in_flight_def)
  have sd: "\<forall>c \<in> set ?cs. send c = None" using assms(4) by simp
  have "take 50 ?cs = ?cs" using assms(3) by simp
  then have "dispatch_due retry decodes send cluster s = dispatch_all decodes send ?cs s"
    using assms(1) by (simp add: dispatch_due_def due_def bindE_def asks_def)
  also have "\<dots> = (Inr (), s\<lparr>agent_commands :=
    map (\<lambda>r. if r \<in> set ?cs \<and> decodes (cmd_payload r) then delivered_row (clock s) r else r) (agent_commands s)\<rparr>)"
    by (rule dispatch_all_healthy [OF assms(1,2) d m sd])
  also have "map (\<lambda>r. if r \<in> set ?cs \<and> decodes (cmd_payload r) then delivered_row (clock s) r else r) (agent_commands s)
    = map (\<lambda>c. if is_due (clock s - retry) cluster c \<and> decodes (cmd_payload c)
             then delivered_row (clock s) c else c) (agent_commands s)"
    by (rule map_cong [OF refl]) simp
  finally show ?thesis .
qed

section \<open>Witnesses\<close>

definition demo_cluster :: "string \<Rightarrow> cluster_state \<Rightarrow> cluster" where
  "demo_cluster i st = \<lparr>cl_id = i, cl_org = ''acme'', cl_name = i, cl_k8s = [], cl_distribution = [],
     cl_issuer = [], cl_labels = [(''env'', ''prod'')], cl_client = [], cl_state = st, cl_checksum = [],
     cl_connected = None, cl_last_seen = None, cl_created = 1, cl_agent_version = []\<rparr>"

definition demo_command :: "string \<Rightarrow> string \<Rightarrow> command_status \<Rightarrow> int \<Rightarrow> agent_command" where
  "demo_command i cluster st updated = \<lparr>cmd_id = i, cmd_cluster = cluster, cmd_type = ''t'', cmd_payload = JNull,
     cmd_status = st, cmd_attempts = 1, cmd_result = [], cmd_created = 1, cmd_updated = updated\<rparr>"

definition demo_gdb :: agents_db where
  "demo_gdb = \<lparr>faults = [], clock = 100, uuids = (\<lambda>n. replicate n (CHR ''u'')), uuid_next = 1,
     audit_rows = [], audit_archive = [], outbox_rows = [], outbox_seq = 1,
     approvals = [], approval_configs = [],
     clusters = [demo_cluster ''c1'' ClusterActive, demo_cluster ''c2'' Decommissioned],
     reg_tokens = [\<lparr>rt_id = ''t1'', rt_cluster = ''c2'', rt_hash = ''h1'', rt_expires = 500, rt_used = None,
                    rt_created_by = ''bob'', rt_created = 1\<rparr>],
     capabilities = [],
     agent_commands = [demo_command ''k1'' ''c1'' CommandDelivered 10, demo_command ''k2'' ''c1'' CommandAcked 10,
                       demo_command ''k3'' ''c1'' CommandPending 10]\<rparr>"

theorem command_survives_until_acked_witness:
  "\<exists>c' \<in> set (agent_commands (snd (complete ''k3'' CommandAcked ''ok'' demo_gdb))). cmd_id c' = ''k1'' \<and> in_flight c'"
proof -
  let ?c = "demo_command ''k1'' ''c1'' CommandDelivered 10"
  obtain r s' where run: "complete ''k3'' CommandAcked ''ok'' demo_gdb = (r, s')" by fastforce
  have "''k3'' \<noteq> cmd_id ?c" by (simp add: demo_command_def)
  from q_complete [OF this run] have steps: "(queue_step ?c)\<^sup>*\<^sup>* demo_gdb s'" by blast
  have "?c \<in> set (agent_commands demo_gdb)" and "in_flight ?c"
    by (simp_all add: demo_gdb_def demo_command_def in_flight_def)
  from command_survives_until_acked [OF steps this] run show ?thesis by (auto simp: demo_command_def)
qed

theorem dispatch_marks_sent_witness:
  "map cmd_attempts (agent_commands (snd (dispatch_due 30 (\<lambda>_. True) (\<lambda>_. None) ''c1'' demo_gdb))) = [2, 1, 2]"
proof -
  have "faults demo_gdb = []" and "distinct (map cmd_id (agent_commands demo_gdb))"
    and "length (filter (is_due (clock demo_gdb - 30) ''c1'') (agent_commands demo_gdb)) \<le> 50"
    and "\<forall>c \<in> set (agent_commands demo_gdb). None = (None :: err option)"
    by (simp_all add: demo_gdb_def demo_command_def)
  from dispatch_marks_sent [OF this, of "\<lambda>_. True"]
  show ?thesis by (simp add: demo_gdb_def demo_command_def is_due_def delivered_row_def)
qed

end
