(* ===== verification/ClusterRegistry.thy ===== *)
theory ClusterRegistry
  imports AgentQueue
begin

text \<open>
  The cluster registry (internal/clusterregistry): cluster records and their life cycle, the
  one-time registration tokens, and the checks of a decommission.

  Keycloak (\<open>ClientManager\<close>), the inventory and the baseline repositories are seams of the Go
  service and fields of \<open>clusters_svc\<close>: \<open>csv_disable\<close> is the outcome of disabling an OIDC client.
  A token's stored form is \<open>csv_hash\<close> of its text (SHA-256 in hexadecimal); \<open>issue_token\<close> takes the
  outcome of the token generator.
\<close>

section \<open>The life cycle\<close>

definition cluster_transitions :: "cluster_state \<Rightarrow> cluster_state list" where
  "cluster_transitions st = (case st of
      PendingApproval \<Rightarrow> [PendingRegistration, ClusterRevoked]
    | PendingRegistration \<Rightarrow> [ClusterActive, ClusterRevoked]
    | ClusterActive \<Rightarrow> [ClusterDegraded, Cordoned, Decommissioned, ClusterRevoked]
    | ClusterDegraded \<Rightarrow> [ClusterActive, Cordoned, Decommissioned]
    | Cordoned \<Rightarrow> [ClusterActive, Decommissioned]
    | ClusterRevoked \<Rightarrow> [Decommissioned]
    | Decommissioned \<Rightarrow> [])"

definition can_cluster_transition :: "cluster_state \<Rightarrow> cluster_state \<Rightarrow> bool" where
  "can_cluster_transition from to \<longleftrightarrow> List.member (cluster_transitions from) to"

fun cluster_state_str :: "cluster_state \<Rightarrow> string" where
  "cluster_state_str PendingApproval = ''pending_approval''"
| "cluster_state_str PendingRegistration = ''pending_registration''"
| "cluster_state_str ClusterActive = ''active''"
| "cluster_state_str ClusterDegraded = ''degraded''"
| "cluster_state_str Cordoned = ''cordoned''"
| "cluster_state_str Decommissioned = ''decommissioned''"
| "cluster_state_str ClusterRevoked = ''revoked''"

definition ManagementModeAdopt :: string where "ManagementModeAdopt = ''adopt''"
definition ManagementModeObserveOnly :: string where "ManagementModeObserveOnly = ''observe-only''"

text \<open>The columns of \<open>resource_instances\<close> the cluster and fleet modules read.\<close>

record resource_instance =
  ri_id :: string
  ri_org :: string
  ri_cluster :: string
  ri_mode :: string
  ri_created :: int
  ri_kind :: string
  ri_name :: string
  ri_namespace :: string
  ri_sync :: string

definition check_drain_ownership :: "resource_instance list \<Rightarrow> bool \<Rightarrow> err + string list" where
  "check_drain_ownership instances force =
     (let shared = filter (\<lambda>i. ri_mode i \<noteq> ManagementModeAdopt) instances
      in if shared \<noteq> [] \<and> \<not> force then Inl SharedResources
         else Inr (map ri_id (filter (\<lambda>i. ri_mode i = ManagementModeAdopt) (rev instances))))"

section \<open>The store\<close>

definition create_cluster_row :: "cluster \<Rightarrow> ('a agents_db_scheme, cluster) dbm" where
  "create_cluster_row c = sql (\<lambda>s.
     let row = c\<lparr>cl_k8s := [], cl_distribution := [], cl_issuer := [], cl_client := [], cl_checksum := [],
                 cl_connected := None, cl_last_seen := None, cl_created := clock s, cl_agent_version := []\<rparr>
     in if \<exists>r \<in> set (clusters s). cl_id r = cl_id c \<or> (cl_org r = cl_org c \<and> cl_name r = cl_name c)
        then (Inl ClusterNameTaken, s)
        else (Inr row, s\<lparr>clusters := clusters s @ [row]\<rparr>))"

definition get_cluster :: "string \<Rightarrow> ('a agents_db_scheme, cluster) dbm" where
  "get_cluster i = sql (\<lambda>s. case select_row (\<lambda>c. cl_id c = i) (clusters s) of
      None \<Rightarrow> (Inl ClusterNotFound, s) | Some c \<Rightarrow> (Inr c, s))"

definition list_clusters :: "string \<Rightarrow> ('a agents_db_scheme, cluster list) dbm" where
  "list_clusters org = sql (asks (\<lambda>s. sort_key cl_created (filter (\<lambda>c. cl_org c = org) (clusters s))))"

text \<open>\<open>DELETE\<close> with the cascades of the foreign keys on the cluster.\<close>

definition delete_cluster_row :: "string \<Rightarrow> ('a agents_db_scheme, unit) dbm" where
  "delete_cluster_row i = sql (\<lambda>s.
     if i \<notin> cl_id ` set (clusters s) then (Inl ClusterNotFound, s)
     else (Inr (), s\<lparr>clusters := filter (\<lambda>c. cl_id c \<noteq> i) (clusters s),
                    reg_tokens := filter (\<lambda>t. rt_cluster t \<noteq> i) (reg_tokens s),
                    capabilities := filter (\<lambda>c. cap_cluster c \<noteq> i) (capabilities s),
                    agent_commands := filter (\<lambda>c. cmd_cluster c \<noteq> i) (agent_commands s)\<rparr>))"

definition update_clusters ::
  "(cluster \<Rightarrow> bool) \<Rightarrow> (int \<Rightarrow> cluster \<Rightarrow> cluster) \<Rightarrow> ('a agents_db_scheme, nat) dbm" where
  "update_clusters P f = sql (\<lambda>s.
     (Inr (rows_affected P (clusters s)), s\<lparr>clusters := update_rows P (f (clock s)) (clusters s)\<rparr>))"

definition burn_tokens :: "string \<Rightarrow> ('a agents_db_scheme, unit) dbm" where
  "burn_tokens i = sql (modify (\<lambda>s. s\<lparr>reg_tokens :=
     update_rows (\<lambda>t. rt_cluster t = i \<and> rt_used t = None) (\<lambda>t. t\<lparr>rt_used := Some (clock s)\<rparr>) (reg_tokens s)\<rparr>))"

definition set_state :: "string \<Rightarrow> cluster_state \<Rightarrow> ('a agents_db_scheme, unit) dbm" where
  "set_state i st = bindE (update_clusters (\<lambda>c. cl_id c = i) (\<lambda>now c. c\<lparr>cl_state := st\<rparr>))
     (\<lambda>n. if n = 0 then throw ClusterNotFound else ret ())"

definition set_state_if :: "string \<Rightarrow> cluster_state \<Rightarrow> cluster_state \<Rightarrow> ('a agents_db_scheme, unit) dbm" where
  "set_state_if i from to =
     bindE (update_clusters (\<lambda>c. cl_id c = i \<and> cl_state c = from) (\<lambda>now c. c\<lparr>cl_state := to\<rparr>))
     (\<lambda>n. if n = 0 then throw ClusterInvalidTransition else ret ())"

definition mark_registered_row ::
  "string \<Rightarrow> string \<Rightarrow> string \<Rightarrow> string \<Rightarrow> (string \<times> string) list \<Rightarrow> ('a agents_db_scheme, unit) dbm" where
  "mark_registered_row i client k8s agent labels =
     bindE (update_clusters (\<lambda>c. cl_id c = i) (\<lambda>now c. c\<lparr>cl_client := client, cl_k8s := k8s, cl_labels := labels,
        cl_agent_version := agent, cl_state := ClusterActive, cl_connected := Some now, cl_last_seen := Some now\<rparr>))
     (\<lambda>n. if n = 0 then throw ClusterNotFound else ret ())"

definition set_metadata :: "string \<Rightarrow> string \<Rightarrow> string \<Rightarrow> ('a agents_db_scheme, unit) dbm" where
  "set_metadata i distribution issuer =
     bindE (update_clusters (\<lambda>c. cl_id c = i) (\<lambda>now c. c\<lparr>cl_distribution := distribution, cl_issuer := issuer\<rparr>))
     (\<lambda>n. if n = 0 then throw ClusterNotFound else ret ())"

definition touch_last_seen :: "string \<Rightarrow> ('a agents_db_scheme, unit) dbm" where
  "touch_last_seen i = bindE (update_clusters (\<lambda>c. cl_id c = i) (\<lambda>now c. c\<lparr>cl_last_seen := Some now\<rparr>)) (\<lambda>_. ret ())"

definition set_capability_checksum :: "string \<Rightarrow> string \<Rightarrow> ('a agents_db_scheme, unit) dbm" where
  "set_capability_checksum i checksum =
     bindE (update_clusters (\<lambda>c. cl_id c = i) (\<lambda>now c. c\<lparr>cl_checksum := checksum\<rparr>)) (\<lambda>_. ret ())"

definition set_agent_version :: "string \<Rightarrow> string \<Rightarrow> ('a agents_db_scheme, unit) dbm" where
  "set_agent_version i version =
     bindE (update_clusters (\<lambda>c. cl_id c = i) (\<lambda>now c. c\<lparr>cl_agent_version := version\<rparr>)) (\<lambda>_. ret ())"

text \<open>Tokens: the id and the hash are unique, the cluster must exist.\<close>

definition insert_token :: "registration_token \<Rightarrow> ('a agents_db_scheme, registration_token) dbm" where
  "insert_token t = sql (bindE new_uuid (\<lambda>i s.
     let row = t\<lparr>rt_id := i, rt_used := None, rt_created := clock s\<rparr>
     in if \<exists>r \<in> set (reg_tokens s). rt_id r = i \<or> rt_hash r = rt_hash t
        then (Inl (ErrUnique ''registration_tokens''), s)
        else if rt_cluster t \<notin> cl_id ` set (clusters s)
        then (Inl (ErrMsg ''registration_tokens_cluster_id_fkey''), s)
        else (Inr row, s\<lparr>reg_tokens := reg_tokens s @ [row]\<rparr>)))"

definition select_token :: "string \<Rightarrow> ('a agents_db_scheme, registration_token) dbm" where
  "select_token h = sql (\<lambda>s. case select_row (\<lambda>t. rt_hash t = h) (reg_tokens s) of
      None \<Rightarrow> (Inl TokenInvalid, s) | Some t \<Rightarrow> (Inr t, s))"

definition consume_token :: "string \<Rightarrow> int \<Rightarrow> ('a agents_db_scheme, registration_token) dbm" where
  "consume_token h now = bindE (select_token h) (\<lambda>t.
     if rt_used t \<noteq> None then throw TokenUsed
     else if rt_expires t < now then throw TokenExpired
     else thenE (sql (modify (\<lambda>s. s\<lparr>reg_tokens :=
            update_rows (\<lambda>r. rt_id r = rt_id t) (\<lambda>r. r\<lparr>rt_used := Some (clock s)\<rparr>) (reg_tokens s)\<rparr>)))
          (ret t))"

definition list_active_tokens :: "string \<Rightarrow> int \<Rightarrow> ('a agents_db_scheme, registration_token list) dbm" where
  "list_active_tokens i now = sql (asks (\<lambda>s. sort_key rt_created
     (filter (\<lambda>t. rt_cluster t = i \<and> rt_used t = None \<and> now < rt_expires t) (reg_tokens s))))"

definition revoke_token_row :: "string \<Rightarrow> string \<Rightarrow> ('a agents_db_scheme, bool) dbm" where
  "revoke_token_row i tid = sql (\<lambda>s.
     let P = (\<lambda>t. rt_id t = tid \<and> rt_cluster t = i \<and> rt_used t = None)
     in (Inr (rows_affected P (reg_tokens s) = 1),
         s\<lparr>reg_tokens := update_rows P (\<lambda>t. t\<lparr>rt_used := Some (clock s)\<rparr>) (reg_tokens s)\<rparr>))"

definition token_exists :: "string \<Rightarrow> string \<Rightarrow> ('a agents_db_scheme, bool) dbm" where
  "token_exists i tid = sql (asks (\<lambda>s. \<exists>t \<in> set (reg_tokens s). rt_id t = tid \<and> rt_cluster t = i))"

section \<open>The service\<close>

record 's clusters_svc =
  csv_disable :: "string \<Rightarrow> err option"
  csv_instances :: "(string \<Rightarrow> string \<Rightarrow> ('s, resource_instance list) dbm) option"
  csv_bind_baseline :: "(string \<Rightarrow> string \<Rightarrow> ('s, unit) dbm) option"
  csv_baseline_repo :: "string \<Rightarrow> ('s, string) dbm"
  csv_commands :: "(agent_command \<Rightarrow> ('s, unit) dbm) option"
  csv_token_ttl :: int
  csv_approval :: bool
  csv_hash :: "string \<Rightarrow> string"

definition cluster_payload :: "string \<Rightarrow> string \<Rightarrow> string \<Rightarrow> json" where
  "cluster_payload org i name = JObj ([(''orgId'', JStr org), (''clusterId'', JStr i)]
     @ (if name = [] then [] else [(''name'', JStr name)]))"

definition cluster_ev :: "string \<Rightarrow> string \<Rightarrow> string \<Rightarrow> string \<Rightarrow> json \<Rightarrow> audit_event" where
  "cluster_ev org actor action i payload = audit_ev org actor action ''cluster'' i payload"

definition rebind_command :: "string \<Rightarrow> string \<Rightarrow> agent_command" where
  "rebind_command i repo = \<lparr>cmd_id = ''rebind-'' @ i, cmd_cluster = i, cmd_type = ''inari.agent.gitops-config-update.v1'',
     cmd_payload = JObj [(''baseline_repo'', JStr repo), (''command_id'', JStr (''rebind-'' @ i))],
     cmd_status = CommandPending, cmd_attempts = 0, cmd_result = [], cmd_created = 0, cmd_updated = 0\<rparr>"

definition rebind_baseline ::
  "'a agents_db_scheme clusters_svc \<Rightarrow> string \<Rightarrow> string \<Rightarrow> string \<Rightarrow> ('a agents_db_scheme, cluster) dbm" where
  "rebind_baseline svc actor i repo = (case csv_bind_baseline svc of
      None \<Rightarrow> throw (ErrMsg ''inventory store not configured'')
    | Some bind \<Rightarrow> bindE (get_cluster i) (\<lambda>c.
        thenE (with_tx (thenE (bind i repo)
                 (emit (cluster_ev (cl_org c) actor ''cluster.baseline_rebound'' i JNull) (cl_org c)
                    ''cluster.registered'' (cluster_payload (cl_org c) i (cl_name c)))))
          (thenE (case csv_commands svc of
                    None \<Rightarrow> ret ()
                  | Some enq \<Rightarrow> bindE (csv_baseline_repo svc i)
                      (\<lambda>slug. if slug \<noteq> [] then enq (rebind_command i slug) else ret ()))
             (get_cluster i))))"

definition create_cluster ::
  "'a agents_db_scheme clusters_svc \<Rightarrow> string \<Rightarrow> string \<Rightarrow> string \<Rightarrow> (string \<times> string) list \<Rightarrow>
   ('a agents_db_scheme, cluster) dbm" where
  "create_cluster svc actor org name labels = bindE new_uuid (\<lambda>u.
     with_tx (bindE (create_cluster_row
         \<lparr>cl_id = ''cluster:'' @ u, cl_org = org, cl_name = name, cl_k8s = [], cl_distribution = [], cl_issuer = [],
          cl_labels = labels, cl_client = [],
          cl_state = (if csv_approval svc then PendingApproval else PendingRegistration), cl_checksum = [],
          cl_connected = None, cl_last_seen = None, cl_created = 0, cl_agent_version = []\<rparr>) (\<lambda>c.
       thenE (emit (cluster_ev org actor ''cluster.created'' (cl_id c) JNull) org ''cluster.created''
                (cluster_payload org (cl_id c) name))
             (ret c))))"

definition issue_token ::
  "'a agents_db_scheme clusters_svc \<Rightarrow> err + string \<Rightarrow> string \<Rightarrow> string \<Rightarrow>
   ('a agents_db_scheme, string \<times> registration_token) dbm" where
  "issue_token svc new_token actor i = bindE (get_cluster i) (\<lambda>c.
     if cl_state c = ClusterRevoked then throw ClusterRevokedErr
     else bindE (lift_sum new_token) (\<lambda>plain. bindE (asks clock) (\<lambda>now.
       with_tx (bindE (insert_token \<lparr>rt_id = [], rt_cluster = i, rt_hash = csv_hash svc plain,
            rt_expires = now + csv_token_ttl svc, rt_used = None, rt_created_by = actor, rt_created = 0\<rparr>) (\<lambda>t.
         thenE (record_audit (cluster_ev (cl_org c) actor ''registration-token.issued'' i
                  (JObj [(''tokenId'', JStr (rt_id t))])))
               (ret (plain, t)))))))"

definition list_tokens :: "string \<Rightarrow> ('a agents_db_scheme, registration_token list) dbm" where
  "list_tokens i = bindE (asks clock) (list_active_tokens i)"

definition revoke_token :: "string \<Rightarrow> string \<Rightarrow> string \<Rightarrow> ('a agents_db_scheme, unit) dbm" where
  "revoke_token actor i tid = bindE (get_cluster i) (\<lambda>c.
     with_tx (bindE (revoke_token_row i tid) (\<lambda>burned.
       if \<not> burned then bindE (token_exists i tid) (\<lambda>ex. if \<not> ex then throw TokenNotFound else ret ())
       else record_audit (audit_ev (cl_org c) actor ''token.revoked'' ''registration_token'' tid
              (JObj [(''clusterId'', JStr i)])))))"

definition approve_tx :: "cluster \<Rightarrow> string \<Rightarrow> ('a agents_db_scheme, unit) dbm" where
  "approve_tx c actor = with_tx (thenE (set_state (cl_id c) PendingRegistration)
     (record_audit (cluster_ev (cl_org c) actor ''cluster.approved'' (cl_id c) JNull)))"

definition approve_cluster :: "string \<Rightarrow> string \<Rightarrow> ('a agents_db_scheme, cluster) dbm" where
  "approve_cluster actor i = bindE (get_cluster i) (\<lambda>c.
     if cl_state c \<noteq> PendingApproval then throw ClusterNotPending
     else thenE (approve_tx c actor) (ret (c\<lparr>cl_state := PendingRegistration\<rparr>)))"

definition disable_client :: "'s clusters_svc \<Rightarrow> cluster \<Rightarrow> ('s, unit) dbm" where
  "disable_client svc c = (if cl_client c \<noteq> []
     then (case csv_disable svc (cl_client c) of None \<Rightarrow> ret () | Some e \<Rightarrow> throw e) else ret ())"

definition revoke_tx :: "cluster \<Rightarrow> string \<Rightarrow> ('a agents_db_scheme, unit) dbm" where
  "revoke_tx c actor = with_tx (thenE (set_state (cl_id c) ClusterRevoked)
     (emit (cluster_ev (cl_org c) actor ''cluster.revoked'' (cl_id c) JNull) (cl_org c) ''cluster.revoked''
        (cluster_payload (cl_org c) (cl_id c) [])))"

definition revoke_cluster ::
  "'a agents_db_scheme clusters_svc \<Rightarrow> string \<Rightarrow> string \<Rightarrow> ('a agents_db_scheme, unit) dbm" where
  "revoke_cluster svc actor i = bindE (get_cluster i) (\<lambda>c. thenE (disable_client svc c) (revoke_tx c actor))"

definition delete_tx :: "cluster \<Rightarrow> string \<Rightarrow> ('a agents_db_scheme, unit) dbm" where
  "delete_tx c actor = with_tx (thenE (burn_tokens (cl_id c)) (thenE (delete_cluster_row (cl_id c))
     (emit (cluster_ev (cl_org c) actor ''cluster.deleted'' (cl_id c)
              (JObj [(''name'', JStr (cl_name c)), (''state'', JStr (cluster_state_str (cl_state c)))]))
        (cl_org c) ''cluster.deleted'' (cluster_payload (cl_org c) (cl_id c) (cl_name c)))))"

definition delete_cluster :: "string \<Rightarrow> string \<Rightarrow> ('a agents_db_scheme, unit) dbm" where
  "delete_cluster actor i = bindE (get_cluster i) (\<lambda>c.
     if cl_state c \<noteq> PendingApproval \<and> cl_state c \<noteq> PendingRegistration then throw ClusterNotPendingDeletion
     else delete_tx c actor)"

definition transition_tx :: "cluster \<Rightarrow> string \<Rightarrow> cluster_state \<Rightarrow> string \<Rightarrow> json \<Rightarrow> ('a agents_db_scheme, unit) dbm" where
  "transition_tx c actor to event payload = with_tx (thenE (set_state_if (cl_id c) (cl_state c) to)
     (emit (cluster_ev (cl_org c) actor event (cl_id c) payload) (cl_org c) event
        (cluster_payload (cl_org c) (cl_id c) (cl_name c))))"

definition cluster_transition ::
  "string \<Rightarrow> string \<Rightarrow> cluster_state \<Rightarrow> string \<Rightarrow> json \<Rightarrow> ('a agents_db_scheme, cluster) dbm" where
  "cluster_transition actor i to event payload = bindE (get_cluster i) (\<lambda>c.
     if \<not> can_cluster_transition (cl_state c) to then throw ClusterInvalidTransition
     else thenE (transition_tx c actor to event payload) (ret (c\<lparr>cl_state := to\<rparr>)))"

definition cordon_cluster :: "string \<Rightarrow> string \<Rightarrow> ('a agents_db_scheme, cluster) dbm" where
  "cordon_cluster actor i = cluster_transition actor i Cordoned ''cluster.cordoned'' JNull"

definition uncordon_cluster :: "string \<Rightarrow> string \<Rightarrow> ('a agents_db_scheme, cluster) dbm" where
  "uncordon_cluster actor i = cluster_transition actor i ClusterActive ''cluster.uncordoned'' JNull"

definition drain_plan ::
  "'s clusters_svc \<Rightarrow> cluster \<Rightarrow> bool \<Rightarrow> ('s, string list) dbm" where
  "drain_plan svc c force = (case csv_instances svc of
      None \<Rightarrow> ret []
    | Some ls \<Rightarrow> if cl_state c = ClusterRevoked then ret []
        else bindE (ls (cl_org c) (cl_id c))
               (\<lambda>is. lift_sum (check_drain_ownership (sort_key ri_created is) force)))"

definition decommission_cluster ::
  "'a agents_db_scheme clusters_svc \<Rightarrow> string \<Rightarrow> string \<Rightarrow> bool \<Rightarrow>
   ('a agents_db_scheme, cluster \<times> string list) dbm" where
  "decommission_cluster svc actor i force = bindE (get_cluster i) (\<lambda>c.
     bindE (drain_plan svc c force) (\<lambda>drained.
       thenE (disable_client svc c)
         (bindE (cluster_transition actor i Decommissioned ''cluster.decommissioned''
                   (JObj [(''drainedInstanceIds'', JArr (map JStr drained)), (''force'', JBool force)]))
            (\<lambda>out. ret (out, drained)))))"

definition admit_cluster :: "cluster \<Rightarrow> ('s, cluster) dbm" where
  "admit_cluster c = (if cl_state c = ClusterRevoked then throw ClusterRevokedErr
     else if cl_state c = PendingApproval then throw ClusterNotPending else ret c)"

definition peek_registration_token ::
  "'a agents_db_scheme clusters_svc \<Rightarrow> string \<Rightarrow> ('a agents_db_scheme, cluster) dbm" where
  "peek_registration_token svc plain = bindE (select_token (csv_hash svc plain)) (\<lambda>t.
     if rt_used t \<noteq> None then throw TokenUsed
     else bindE (asks clock) (\<lambda>now. if rt_expires t < now then throw TokenExpired
       else bindE (get_cluster (rt_cluster t)) admit_cluster))"

definition consume_registration_token ::
  "'a agents_db_scheme clusters_svc \<Rightarrow> string \<Rightarrow> ('a agents_db_scheme, cluster) dbm" where
  "consume_registration_token svc plain = with_tx (bindE (asks clock) (\<lambda>now.
     bindE (consume_token (csv_hash svc plain) now) (\<lambda>t. bindE (get_cluster (rt_cluster t)) admit_cluster)))"

definition mark_registered ::
  "string \<Rightarrow> string \<Rightarrow> string \<Rightarrow> string \<Rightarrow> string \<Rightarrow> (string \<times> string) list \<Rightarrow> ('a agents_db_scheme, unit) dbm" where
  "mark_registered actor i client k8s agent labels = bindE (get_cluster i) (\<lambda>c.
     with_tx (thenE (mark_registered_row i client k8s agent labels)
       (emit (cluster_ev (cl_org c) actor ''cluster.registered'' i JNull) (cl_org c) ''cluster.registered''
          (cluster_payload (cl_org c) i (cl_name c)))))"

definition record_heartbeat :: "string \<Rightarrow> ('a agents_db_scheme, unit) dbm" where
  "record_heartbeat i = touch_last_seen i"

section \<open>What the statements do\<close>

lemma update_clusters_okE:
  assumes "update_clusters P f s = (Inr n, s')"
  obtains fs where "n = rows_affected P (clusters s)"
    and "s' = s\<lparr>faults := fs, clusters := update_rows P (f (clock s)) (clusters s)\<rparr>"
  using assms unfolding update_clusters_def by (auto elim!: sql_okE)

lemma update_clusters_healthy [simp]:
  "faults s = [] \<Longrightarrow> update_clusters P f s =
     (Inr (rows_affected P (clusters s)), s\<lparr>clusters := update_rows P (f (clock s)) (clusters s)\<rparr>)"
  by (simp add: update_clusters_def)

lemma get_cluster_read_only: "read_only (get_cluster i)"
  unfolding get_cluster_def by (rule read_only_sql) (auto simp: read_only_def split: option.splits)

lemma get_cluster_okE:
  assumes "get_cluster i s = (Inr c, s')"
  obtains "select_row (\<lambda>c. cl_id c = i) (clusters s) = Some c" "same_tables s s'" "cl_id c = i"
proof -
  have "same_tables s s'" using assms get_cluster_read_only by (blast dest: read_onlyD)
  moreover have sel: "select_row (\<lambda>c. cl_id c = i) (clusters s) = Some c"
    using assms unfolding get_cluster_def by (auto elim!: sql_okE split: option.splits)
  moreover from sel have "cl_id c = i" by (blast dest: select_row_SomeD)
  ultimately show ?thesis using that by blast
qed

lemma get_cluster_healthy:
  "faults s = [] \<Longrightarrow> select_row (\<lambda>c. cl_id c = i) (clusters s) = Some c \<Longrightarrow> get_cluster i s = (Inr c, s)"
  by (simp add: get_cluster_def)

lemma select_token_read_only: "read_only (select_token h)"
  unfolding select_token_def by (rule read_only_sql) (auto simp: read_only_def split: option.splits)

lemma select_token_okE:
  assumes "select_token h s = (Inr t, s')"
  obtains "select_row (\<lambda>t. rt_hash t = h) (reg_tokens s) = Some t" "same_tables s s'" "rt_hash t = h"
proof -
  have "same_tables s s'" using assms select_token_read_only by (blast dest: read_onlyD)
  moreover have sel: "select_row (\<lambda>t. rt_hash t = h) (reg_tokens s) = Some t"
    using assms unfolding select_token_def by (auto elim!: sql_okE split: option.splits)
  moreover from sel have "rt_hash t = h" by (blast dest: select_row_SomeD)
  ultimately show ?thesis using that by blast
qed

lemma logged_agents [simp]:
  "clusters (logged ev org typ p s) = clusters s" "reg_tokens (logged ev org typ p s) = reg_tokens s"
  "capabilities (logged ev org typ p s) = capabilities s"
  "agent_commands (logged ev org typ p s) = agent_commands s"
  by (simp_all add: logged_def)

text \<open>The tables of this module; the fields an aborted or a read-only operation keeps.\<close>

definition registry_view :: "'a agents_db_scheme \<Rightarrow> cluster list \<times> registration_token list \<times> int" where
  "registry_view s = (clusters s, reg_tokens s, clock s)"

lemma registry_view_same: "same_tables s s' \<Longrightarrow> registry_view s' = registry_view s"
  by (auto simp: registry_view_def elim!: same_tablesE)

section \<open>Transitions\<close>

lemma transition_tx_okE:
  assumes "transition_tx c actor to event payload s = (Inr u, s')"
  obtains "\<exists>r \<in> set (clusters s). cl_id r = cl_id c \<and> cl_state r = cl_state c"
    and "clusters s' = update_rows (\<lambda>r. cl_id r = cl_id c \<and> cl_state r = cl_state c)
           (\<lambda>r. r\<lparr>cl_state := to\<rparr>) (clusters s)"
    and "map event_of (outbox_rows s') = map event_of (outbox_rows s)
           @ [(cl_org c, event, cluster_payload (cl_org c) (cl_id c) (cl_name c))]"
proof -
  from assms obtain fs fs' s2 s1 v w where
    1: "set_state_if (cl_id c) (cl_state c) to (s\<lparr>faults := fs\<rparr>) = (Inr v, s1)"
    and 2: "emit (cluster_ev (cl_org c) actor event (cl_id c) payload) (cl_org c) event
        (cluster_payload (cl_org c) (cl_id c) (cl_name c)) s1 = (Inr w, s2)"
    and s': "s' = s2\<lparr>faults := fs'\<rparr>"
    unfolding transition_tx_def by (auto elim!: with_tx_okE thenE_okE)
  from 2 obtain fs2 where s2: "s2 = (logged (cluster_ev (cl_org c) actor event (cl_id c) payload) (cl_org c) event
        (cluster_payload (cl_org c) (cl_id c) (cl_name c)) s1)\<lparr>faults := fs2\<rparr>" by (rule emit_okE)
  let ?P = "\<lambda>r. cl_id r = cl_id c \<and> cl_state r = cl_state c"
  from 1 obtain n s0 where u: "update_clusters ?P (\<lambda>now r. r\<lparr>cl_state := to\<rparr>) (s\<lparr>faults := fs\<rparr>) = (Inr n, s0)"
    and t: "(if n = 0 then throw ClusterInvalidTransition else ret ()) s0 = (Inr v, s1)"
    unfolding set_state_if_def by (auto elim!: bindE_okE)
  from t have n: "n \<noteq> 0" and s1: "s1 = s0" by (auto simp: throw_def ret_def split: if_splits)
  from u obtain fs1 where n': "n = rows_affected ?P (clusters s)"
    and s0: "s0 = s\<lparr>faults := fs1, clusters := update_rows ?P (\<lambda>r. r\<lparr>cl_state := to\<rparr>) (clusters s)\<rparr>"
    by (rule update_clusters_okE) simp
  have "\<exists>r \<in> set (clusters s). ?P r" using n n' by (auto simp: rows_affected_0_iff)
  moreover have "clusters s' = update_rows ?P (\<lambda>r. r\<lparr>cl_state := to\<rparr>) (clusters s)" by (simp add: s' s2 s1 s0)
  moreover have "map event_of (outbox_rows s') = map event_of (outbox_rows s)
       @ [(cl_org c, event, cluster_payload (cl_org c) (cl_id c) (cl_name c))]"
    by (simp add: s' s2 s1 s0 event_of_def outbox_row_def)
  ultimately show ?thesis by (rule that)
qed

lemma cluster_transition_outcome:
  assumes "cluster_transition actor i to event payload s = (res, s')"
  shows "case res of
      Inl e \<Rightarrow> same_tables s s'
    | Inr c' \<Rightarrow> (\<exists>c. select_row (\<lambda>c. cl_id c = i) (clusters s) = Some c \<and> can_cluster_transition (cl_state c) to
        \<and> c' = c\<lparr>cl_state := to\<rparr>
        \<and> clusters s' = update_rows (\<lambda>r. cl_id r = i \<and> cl_state r = cl_state c) (\<lambda>r. r\<lparr>cl_state := to\<rparr>) (clusters s)
        \<and> map event_of (outbox_rows s') = map event_of (outbox_rows s)
            @ [(cl_org c, event, cluster_payload (cl_org c) i (cl_name c))])"
proof -
  obtain g s1 where g: "get_cluster i s = (g, s1)" by fastforce
  have st1: "same_tables s s1" using g get_cluster_read_only by (blast dest: read_onlyD)
  show ?thesis
  proof (cases g)
    case (Inl e)
    with assms g have "res = Inl e" and "s' = s1" by (simp_all add: cluster_transition_def bindE_def)
    with st1 show ?thesis by simp
  next
    case (Inr c)
    with g have sel: "select_row (\<lambda>c. cl_id c = i) (clusters s) = Some c" and id: "cl_id c = i"
      by (auto elim: get_cluster_okE)
    show ?thesis
    proof (cases "can_cluster_transition (cl_state c) to")
      case False
      with assms g Inr have "res = Inl ClusterInvalidTransition" and "s' = s1"
        by (simp_all add: cluster_transition_def bindE_def throw_def)
      with st1 show ?thesis by simp
    next
      case True
      obtain d s2 where d: "transition_tx c actor to event payload s1 = (d, s2)" by fastforce
      show ?thesis
      proof (cases d)
        case (Inl e)
        with assms g Inr True d have "res = Inl e" and s': "s' = s2"
          by (simp_all add: cluster_transition_def bindE_def thenE_def)
        moreover have "same_tables s1 s2" using d Inl unfolding transition_tx_def by (auto dest: with_tx_abort)
        ultimately show ?thesis using st1 by (auto intro: same_tables_trans)
      next
        case (Inr u)
        with assms g \<open>g = Inr c\<close> True d have res: "res = Inr (c\<lparr>cl_state := to\<rparr>)" and s': "s' = s2"
          by (simp_all add: cluster_transition_def bindE_def thenE_def ret_def)
        from st1 have same: "clusters s1 = clusters s" "outbox_rows s1 = outbox_rows s" by (auto elim!: same_tablesE)
        from d [unfolded Inr] show ?thesis
        proof (rule transition_tx_okE)
          assume "clusters s2 = update_rows (\<lambda>r. cl_id r = cl_id c \<and> cl_state r = cl_state c)
              (\<lambda>r. r\<lparr>cl_state := to\<rparr>) (clusters s1)"
            and "map event_of (outbox_rows s2) = map event_of (outbox_rows s1)
              @ [(cl_org c, event, cluster_payload (cl_org c) (cl_id c) (cl_name c))]"
          with sel True id same show ?thesis unfolding res s' by simp
        qed
      qed
    qed
  qed
qed

section \<open>Burned tokens stay burned\<close>

definition no_live_token :: "string \<Rightarrow> 'a agents_db_scheme \<Rightarrow> bool" where
  "no_live_token h s \<longleftrightarrow> (\<forall>t \<in> set (reg_tokens s). rt_hash t = h \<longrightarrow> rt_used t \<noteq> None)"

lemma no_live_log_stable: "log_stable (no_live_token h)"
  by (simp add: log_stable_def no_live_token_def)

lemmas no_live_tx_stable = log_stable_tx_stable [OF no_live_log_stable]

lemma no_live_update_used:
  "no_live_token h s \<Longrightarrow> no_live_token h (s\<lparr>reg_tokens := update_rows P (\<lambda>t. t\<lparr>rt_used := Some n\<rparr>) (reg_tokens s)\<rparr>)"
  by (auto simp: no_live_token_def set_update_rows)

lemma no_live_insert: "rt_hash t \<noteq> h \<Longrightarrow> preserves (no_live_token h) (insert_token t)"
  unfolding insert_token_def
  by (rule preserves_sql [OF no_live_tx_stable], rule preservesI)
     (auto simp: bindE_def new_uuid_def Let_def no_live_token_def split: if_splits)

lemma no_live_consume: "preserves (no_live_token h) (consume_token h' now)"
  unfolding consume_token_def
  by (intro preserves_rules no_live_tx_stable preserves_modify no_live_update_used
      read_only_preserves [OF no_live_tx_stable select_token_read_only])

lemma no_live_revoke_row: "preserves (no_live_token h) (revoke_token_row i tid)"
  unfolding revoke_token_row_def Let_def
  by (rule preserves_sql [OF no_live_tx_stable], rule preservesI) (auto dest: no_live_update_used)

lemma no_live_burn: "preserves (no_live_token h) (burn_tokens i)"
  unfolding burn_tokens_def by (intro preserves_rules no_live_tx_stable preserves_modify no_live_update_used)

lemma no_live_delete_row: "preserves (no_live_token h) (delete_cluster_row i)"
  unfolding delete_cluster_row_def
  by (rule preserves_sql [OF no_live_tx_stable], rule preservesI) (auto simp: no_live_token_def split: if_splits)

lemma no_live_get_cluster: "preserves (no_live_token h) (get_cluster i)"
  by (rule read_only_preserves [OF no_live_tx_stable get_cluster_read_only])

lemma no_live_admit: "preserves I (admit_cluster c)"
  unfolding admit_cluster_def by (intro preserves_rules)

lemma no_live_token_exists: "preserves (no_live_token h) (token_exists i tid)"
  unfolding token_exists_def by (intro preserves_rules no_live_tx_stable)

lemmas no_live_rules = preserves_rules no_live_tx_stable no_live_log_stable no_live_consume no_live_revoke_row
  no_live_burn no_live_delete_row no_live_get_cluster no_live_admit no_live_token_exists

lemma no_live_consume_registration: "preserves (no_live_token h) (consume_registration_token svc plain)"
  unfolding consume_registration_token_def by (intro no_live_rules)

lemma no_live_revoke_token: "preserves (no_live_token h) (revoke_token actor i tid)"
  unfolding revoke_token_def by (intro no_live_rules)

lemma no_live_delete: "preserves (no_live_token h) (delete_cluster actor i)"
  unfolding delete_cluster_def delete_tx_def by (intro no_live_rules)

lemma no_live_issue:
  assumes "\<And>p. nt = Inr p \<Longrightarrow> csv_hash svc p \<noteq> h"
  shows "preserves (no_live_token h) (issue_token svc nt actor i)"
proof (cases nt)
  case (Inl e)
  show ?thesis unfolding issue_token_def Inl
    by (intro preserves_bindE [OF no_live_get_cluster] preserves_if preserves_throw)
       (simp add: lift_sum_def bindE_def preserves_def)
next
  case (Inr p)
  have "preserves (no_live_token h) (bindE (asks clock) (\<lambda>now. with_tx (bindE (insert_token
      \<lparr>rt_id = [], rt_cluster = i, rt_hash = csv_hash svc p, rt_expires = now + csv_token_ttl svc,
       rt_used = None, rt_created_by = actor, rt_created = 0\<rparr>) (\<lambda>t.
         thenE (record_audit (f t)) (ret (p, t))))))" for f
    using assms [OF Inr] by (intro no_live_rules no_live_insert) simp
  then have "preserves (no_live_token h) (bindE (lift_sum (Inr p)) (\<lambda>p. bindE (asks clock) (\<lambda>now. with_tx
      (bindE (insert_token \<lparr>rt_id = [], rt_cluster = i, rt_hash = csv_hash svc p,
         rt_expires = now + csv_token_ttl svc, rt_used = None, rt_created_by = actor, rt_created = 0\<rparr>)
       (\<lambda>t. thenE (record_audit (f t)) (ret (p, t)))))))" for f
    by (simp add: lift_sum_def bindE_def [of "\<lambda>s. (Inr p, s)"])
  with Inr show ?thesis unfolding issue_token_def
    by (intro preserves_bindE [OF no_live_get_cluster] preserves_if preserves_throw) simp
qed

text \<open>
  The operations on the token table in any order; a newly issued token has another hash (the
  generator draws 256 random bits).
\<close>

inductive token_step :: "string \<Rightarrow> 'a agents_db_scheme \<Rightarrow> 'a agents_db_scheme \<Rightarrow> bool" for h where
  t_issue: "(\<And>p. nt = Inr p \<Longrightarrow> csv_hash svc p \<noteq> h) \<Longrightarrow> issue_token svc nt actor i s = (r1, s') \<Longrightarrow> token_step h s s'"
| t_revoke: "revoke_token actor i tid s = (r2, s') \<Longrightarrow> token_step h s s'"
| t_consume: "consume_registration_token svc plain s = (r3, s') \<Longrightarrow> token_step h s s'"
| t_delete: "delete_cluster actor i s = (r4, s') \<Longrightarrow> token_step h s s'"
| t_world: "reg_tokens s' = reg_tokens s \<Longrightarrow> token_step h s s'"

lemma no_live_step: "token_step h s s' \<Longrightarrow> no_live_token h s \<Longrightarrow> no_live_token h s'"
proof (induction rule: token_step.induct)
  case (t_issue nt svc actor i s r1 s')
  show ?case by (rule preservesD [OF no_live_issue [OF t_issue(1)] t_issue(3,2)])
next
  case (t_revoke actor i tid s r2 s')
  show ?case by (rule preservesD [OF no_live_revoke_token t_revoke(2,1)])
next
  case (t_consume svc plain s r3 s')
  show ?case by (rule preservesD [OF no_live_consume_registration t_consume(2,1)])
next
  case (t_delete actor i s r4 s')
  show ?case by (rule preservesD [OF no_live_delete t_delete(2,1)])
next
  case (t_world s' s)
  then show ?case by (simp add: no_live_token_def)
qed

lemma consume_token_dead:
  assumes "no_live_token h s" and "consume_token h now s = (r, s')"
  shows "\<exists>e. r = Inl e"
proof (rule ccontr)
  assume "\<not> (\<exists>e. r = Inl e)"
  then obtain t where "r = Inr t" by (cases r) auto
  with assms(2) obtain t' s1 where "select_token h s = (Inr t', s1)"
    and m: "(if rt_used t' \<noteq> None then throw TokenUsed else if rt_expires t' < now then throw TokenExpired
      else thenE (sql (modify (\<lambda>s. s\<lparr>reg_tokens :=
            update_rows (\<lambda>r. rt_id r = rt_id t') (\<lambda>r. r\<lparr>rt_used := Some (clock s)\<rparr>) (reg_tokens s)\<rparr>))) (ret t')) s1
      = (Inr t, s')"
    unfolding consume_token_def by (auto elim!: bindE_okE)
  then have "t' \<in> set (reg_tokens s)" and "rt_hash t' = h" by (auto elim!: select_token_okE dest: select_row_SomeD)
  with assms(1) m show False by (auto simp: no_live_token_def throw_def)
qed

lemma consume_token_okE:
  assumes "consume_token h now s = (Inr t, s')"
  obtains fs u where "select_row (\<lambda>t. rt_hash t = h) (reg_tokens s) = Some t" and "rt_used t = None"
    and "\<not> rt_expires t < now"
    and "s' = s\<lparr>uuid_next := u, faults := fs, reg_tokens :=
          update_rows (\<lambda>r. rt_id r = rt_id t) (\<lambda>r. r\<lparr>rt_used := Some (clock s)\<rparr>) (reg_tokens s)\<rparr>"
proof -
  from assms obtain t' s1 where sel: "select_token h s = (Inr t', s1)"
    and m: "(if rt_used t' \<noteq> None then throw TokenUsed else if rt_expires t' < now then throw TokenExpired
      else thenE (sql (modify (\<lambda>s. s\<lparr>reg_tokens :=
            update_rows (\<lambda>r. rt_id r = rt_id t') (\<lambda>r. r\<lparr>rt_used := Some (clock s)\<rparr>) (reg_tokens s)\<rparr>))) (ret t')) s1
      = (Inr t, s')"
    unfolding consume_token_def by (auto elim!: bindE_okE)
  from m have u: "rt_used t' = None" and e: "\<not> rt_expires t' < now"
    by (auto simp: throw_def split: if_splits)
  from sel obtain fs u where s1: "s1 = s\<lparr>faults := fs, uuid_next := u\<rparr>"
    and row: "select_row (\<lambda>t. rt_hash t = h) (reg_tokens s) = Some t'"
    by (auto elim!: select_token_okE same_tablesE)
  from m u e obtain fs' where "t = t'" and "s' = s1\<lparr>faults := fs', reg_tokens :=
      update_rows (\<lambda>r. rt_id r = rt_id t') (\<lambda>r. r\<lparr>rt_used := Some (clock s1)\<rparr>) (reg_tokens s1)\<rparr>"
    by (auto elim!: okE)
  with row u e s1 that show ?thesis by auto
qed

lemma consume_registration_okE:
  assumes "consume_registration_token svc plain s = (Inr c, s')"
  obtains t where "select_row (\<lambda>t. rt_hash t = csv_hash svc plain) (reg_tokens s) = Some t"
    and "rt_used t = None" and "\<not> rt_expires t < clock s"
    and "select_row (\<lambda>c. cl_id c = rt_cluster t) (clusters s) = Some c"
    and "cl_state c \<noteq> ClusterRevoked" and "cl_state c \<noteq> PendingApproval"
    and "clusters s' = clusters s" and "clock s' = clock s"
    and "reg_tokens s' = update_rows (\<lambda>r. rt_id r = rt_id t) (\<lambda>r. r\<lparr>rt_used := Some (clock s)\<rparr>) (reg_tokens s)"
proof -
  from assms obtain fs fs' s2 t s1 s1' where 1: "consume_token (csv_hash svc plain) (clock s) (s\<lparr>faults := fs\<rparr>) = (Inr t, s1)"
    and 2: "get_cluster (rt_cluster t) s1 = (Inr c, s1')" and 3: "cl_state c \<noteq> ClusterRevoked" "cl_state c \<noteq> PendingApproval"
    and s2: "s2 = s1'" and s': "s' = s2\<lparr>faults := fs'\<rparr>"
    unfolding consume_registration_token_def admit_cluster_def
    by (auto elim!: with_tx_okE bindE_okE asks_okE simp: throw_def ret_def split: if_splits)
  from 2 have sel: "select_row (\<lambda>c. cl_id c = rt_cluster t) (clusters s1) = Some c" and st: "same_tables s1 s1'"
    by (auto elim: get_cluster_okE)
  from 1 obtain fs1 u where "select_row (\<lambda>t. rt_hash t = csv_hash svc plain) (reg_tokens s) = Some t"
    and "rt_used t = None" "\<not> rt_expires t < clock s"
    and s1: "s1 = (s\<lparr>faults := fs\<rparr>)\<lparr>uuid_next := u, faults := fs1, reg_tokens :=
          update_rows (\<lambda>r. rt_id r = rt_id t) (\<lambda>r. r\<lparr>rt_used := Some (clock s)\<rparr>) (reg_tokens s)\<rparr>"
    by (elim consume_token_okE) simp
  with sel st 3 s2 s' that show ?thesis by (auto elim!: same_tablesE)
qed

lemma consumed_no_live:
  assumes "distinct (map rt_hash (reg_tokens s))"
    and "consume_registration_token svc plain s = (Inr c, s')"
  shows "no_live_token (csv_hash svc plain) s'"
  using assms(2)
proof (rule consume_registration_okE)
  fix t
  assume t: "select_row (\<lambda>t. rt_hash t = csv_hash svc plain) (reg_tokens s) = Some t"
    and rows: "reg_tokens s' = update_rows (\<lambda>r. rt_id r = rt_id t) (\<lambda>r. r\<lparr>rt_used := Some (clock s)\<rparr>) (reg_tokens s)"
  from t have t': "t \<in> set (reg_tokens s)" "rt_hash t = csv_hash svc plain" by (auto dest: select_row_SomeD)
  have "r = t" if "r \<in> set (reg_tokens s)" "rt_hash r = csv_hash svc plain" for r
    using that t' assms(1) by (metis distinct_key_unique)
  then show ?thesis by (auto simp: no_live_token_def rows set_update_rows split: if_splits)
qed

section \<open>Properties\<close>

text \<open>
  (C6) A registration token is spent once. After a successful exchange no later exchange of the same
  token succeeds, whatever tokens are issued, revoked, exchanged or cascaded away in between and
  whatever statements fail, as long as no new token has the same hash.
\<close>

theorem registration_token_single_use:
  assumes "distinct (map rt_hash (reg_tokens s))"
    and "consume_registration_token svc plain s = (Inr c, s1)"
    and "(token_step (csv_hash svc plain))\<^sup>*\<^sup>* s1 s2"
    and "consume_registration_token svc plain s2 = (res, s3)"
  shows "\<exists>e. res = Inl e"
proof -
  from assms(3) consumed_no_live [OF assms(1,2)] have dead: "no_live_token (csv_hash svc plain) s2"
    by (induction rule: rtranclp_induct) (auto intro: no_live_step)
  show ?thesis
  proof (cases res)
    case (Inr d)
    with assms(4) obtain t where "select_row (\<lambda>t. rt_hash t = csv_hash svc plain) (reg_tokens s2) = Some t"
      and "rt_used t = None" by (blast elim: consume_registration_okE)
    with dead show ?thesis by (auto simp: no_live_token_def dest!: select_row_SomeD)
  qed simp
qed

text \<open>
  (C24) Cordon, uncordon and decommission follow the life-cycle table. A transition fails and leaves
  the tables alone, or the cluster was in a state the table lets go to the target, the rows of
  that cluster in that state (and no others) move, and one event is queued.
\<close>

theorem cluster_transition_follows_table:
  assumes "cluster_transition actor i to event payload s = (res, s')"
  shows "case res of
      Inl e \<Rightarrow> same_tables s s'
    | Inr c' \<Rightarrow> (\<exists>c. select_row (\<lambda>c. cl_id c = i) (clusters s) = Some c \<and> can_cluster_transition (cl_state c) to
        \<and> c' = c\<lparr>cl_state := to\<rparr>
        \<and> clusters s' = update_rows (\<lambda>r. cl_id r = i \<and> cl_state r = cl_state c) (\<lambda>r. r\<lparr>cl_state := to\<rparr>) (clusters s)
        \<and> map event_of (outbox_rows s') = map event_of (outbox_rows s)
            @ [(cl_org c, event, cluster_payload (cl_org c) i (cl_name c))])"
  by (rule cluster_transition_outcome [OF assms])

text \<open>
  A decommission drains only what Inari owns. When it succeeds the cluster's OIDC client is
  disabled; unless the cluster was revoked, every instance the inventory listed is managed by
  Inari or the caller forced it, and the drained ids are the managed ones, newest first.
\<close>

theorem decommission_drains_owned:
  assumes "csv_instances svc = Some ls" and "\<And>org i. read_only (ls org i)"
    and "decommission_cluster svc actor i force s = (Inr (c', drained), s')"
  shows "\<exists>c. select_row (\<lambda>c. cl_id c = i) (clusters s) = Some c \<and> cl_state c' = Decommissioned
    \<and> (cl_client c \<noteq> [] \<longrightarrow> csv_disable svc (cl_client c) = None)
    \<and> (if cl_state c = ClusterRevoked then drained = []
       else (\<exists>s1 s2 is. same_tables s s1 \<and> ls (cl_org c) i s1 = (Inr is, s2)
          \<and> (force \<or> (\<forall>x \<in> set is. ri_mode x = ManagementModeAdopt))
          \<and> drained = rev (map ri_id (filter (\<lambda>x. ri_mode x = ManagementModeAdopt) (sort_key ri_created is)))))"
proof -
  from assms(3) obtain c s1 d s2 s3 v s4 where
    1: "get_cluster i s = (Inr c, s1)" and 2: "drain_plan svc c force s1 = (Inr drained, s2)"
    and 3: "disable_client svc c s2 = (Inr d, s3)"
    and 4: "cluster_transition actor i Decommissioned ''cluster.decommissioned'' v s3 = (Inr c', s4)"
    unfolding decommission_cluster_def by (auto elim!: bindE_okE thenE_okE ret_okE)
  from 1 have sel: "select_row (\<lambda>c. cl_id c = i) (clusters s) = Some c" and st: "same_tables s s1" and id: "cl_id c = i"
    by (auto elim: get_cluster_okE)
  have dis: "cl_client c \<noteq> [] \<longrightarrow> csv_disable svc (cl_client c) = None"
    using 3 by (auto simp: disable_client_def throw_def split: option.splits if_splits)
  have dec: "cl_state c' = Decommissioned" using cluster_transition_outcome [OF 4] by auto
  have "if cl_state c = ClusterRevoked then drained = []
     else (\<exists>s1 s2 is. same_tables s s1 \<and> ls (cl_org c) i s1 = (Inr is, s2)
          \<and> (force \<or> (\<forall>x \<in> set is. ri_mode x = ManagementModeAdopt))
          \<and> drained = rev (map ri_id (filter (\<lambda>x. ri_mode x = ManagementModeAdopt) (sort_key ri_created is))))"
  proof (cases "cl_state c = ClusterRevoked")
    case True
    with 2 assms(1) show ?thesis by (simp add: drain_plan_def ret_def)
  next
    case False
    with 2 assms(1) id obtain "is" s2' where l: "ls (cl_org c) i s1 = (Inr is, s2')"
      and own: "check_drain_ownership (sort_key ri_created is) force = Inr drained"
      by (auto simp: drain_plan_def elim!: bindE_okE lift_sum_okE)
    from own have ok: "force \<or> (\<forall>x \<in> set is. ri_mode x = ManagementModeAdopt)"
      by (auto simp: check_drain_ownership_def Let_def filter_empty_conv split: if_splits)
    from own have dr: "drained = rev (map ri_id (filter (\<lambda>x. ri_mode x = ManagementModeAdopt) (sort_key ri_created is)))"
      by (auto simp: check_drain_ownership_def Let_def rev_filter rev_map split: if_splits)
    from False st l ok dr show ?thesis by auto
  qed
  with sel dec dis show ?thesis by blast
qed

text \<open>
  The life-cycle table is bypassed by registration. A decommissioned cluster that still has an
  unspent token is set active again by the registration exchange, although the table has no
  transition out of \<open>decommissioned\<close>.
\<close>

theorem registration_revives_decommissioned:
  assumes "faults s = []" and "select_row (\<lambda>c. cl_id c = i) (clusters s) = Some c" and "cl_state c = Decommissioned"
    and "select_row (\<lambda>t. rt_hash t = csv_hash svc plain) (reg_tokens s) = Some t"
    and "rt_cluster t = i" and "rt_used t = None" and "\<not> rt_expires t < clock s"
  shows "\<exists>s1 s2 c'. consume_registration_token svc plain s = (Inr c, s1)
    \<and> mark_registered actor i client k8s agent labels s1 = (Inr (), s2)
    \<and> select_row (\<lambda>c. cl_id c = i) (clusters s2) = Some c' \<and> cl_state c' = ClusterActive
    \<and> (\<forall>to. \<not> can_cluster_transition (cl_state c) to)"
proof -
  let ?s1 = "s\<lparr>reg_tokens := update_rows (\<lambda>r. rt_id r = rt_id t) (\<lambda>r. r\<lparr>rt_used := Some (clock s)\<rparr>) (reg_tokens s)\<rparr>"
  let ?body = "bindE (asks clock) (\<lambda>now.
     bindE (consume_token (csv_hash svc plain) now) (\<lambda>t. bindE (get_cluster (rt_cluster t)) admit_cluster))"
  have "consume_token (csv_hash svc plain) (clock s) s = (Inr t, ?s1)" using assms
    by (simp add: consume_token_def select_token_def bindE_def thenE_def modify_def ret_def)
  moreover have "get_cluster i ?s1 = (Inr c, ?s1)" using assms by (intro get_cluster_healthy) simp_all
  ultimately have "?body s = (Inr c, ?s1)" using assms
    by (simp add: bindE_def asks_def admit_cluster_def ret_def)
  from with_tx_healthy [where body = ?body, OF assms(1) this] assms(1)
  have 1: "consume_registration_token svc plain s = (Inr c, ?s1)" by (simp add: consume_registration_token_def)
  let ?f = "\<lambda>c. c\<lparr>cl_client := client, cl_k8s := k8s, cl_labels := labels, cl_agent_version := agent,
      cl_state := ClusterActive, cl_connected := Some (clock s), cl_last_seen := Some (clock s)\<rparr>"
  let ?s2 = "logged (cluster_ev (cl_org c) actor ''cluster.registered'' i JNull) (cl_org c) ''cluster.registered''
      (cluster_payload (cl_org c) i (cl_name c)) (?s1\<lparr>clusters := update_rows (\<lambda>c. cl_id c = i) ?f (clusters s)\<rparr>)"
  have n: "rows_affected (\<lambda>c. cl_id c = i) (clusters s) \<noteq> 0"
    using assms(2) by (auto simp: rows_affected_0_iff dest: select_row_SomeD)
  have g: "get_cluster i ?s1 = (Inr c, ?s1)" using assms by (intro get_cluster_healthy) simp_all
  let ?b2 = "thenE (mark_registered_row i client k8s agent labels)
       (emit (cluster_ev (cl_org c) actor ''cluster.registered'' i JNull) (cl_org c) ''cluster.registered''
          (cluster_payload (cl_org c) i (cl_name c)))"
  have "?b2 ?s1 = (Inr (), ?s2)" using assms(1) n
    by (simp add: thenE_def bindE_def mark_registered_row_def ret_def)
  from with_tx_healthy [where body = ?b2, OF _ this] assms(1)
  have 2: "mark_registered actor i client k8s agent labels ?s1 = (Inr (), ?s2)"
    by (simp add: mark_registered_def bindE_def g)
  have "select_row (\<lambda>c. cl_id c = i) (clusters ?s2) = Some (?f c)"
    using assms(2) by (auto simp: select_row_update_key dest: select_row_SomeD)
  moreover have "\<forall>to. \<not> can_cluster_transition (cl_state c) to"
    using assms(3) by (simp add: can_cluster_transition_def cluster_transitions_def)
  ultimately show ?thesis using 1 2 by (intro exI [of _ ?s1] exI [of _ ?s2] exI [of _ "?f c"]) simp
qed

text \<open>
  A second rebind is never delivered. The rebind command of a cluster has a fixed id, so with
  the agent queue behind the service a later rebind leaves the queue as it was, even when the
  first command was acknowledged long ago and named another repository.
\<close>

theorem rebind_not_requeued:
  assumes "csv_commands svc = Some enqueue" and "csv_bind_baseline svc = Some bind"
    and "\<And>x y t r t'. bind x y t = (r, t') \<Longrightarrow> agent_commands t' = agent_commands t"
    and "\<And>x. read_only (csv_baseline_repo svc x)"
    and "''rebind-'' @ i \<in> cmd_id ` set (agent_commands s)"
    and "rebind_baseline svc actor i repo s = (Inr c, s')"
  shows "agent_commands s' = agent_commands s"
proof -
  from assms(1,2,6) obtain c0 s1 u s2 v s3 slug s2' where
    1: "get_cluster i s = (Inr c0, s1)"
    and 2: "with_tx (thenE (bind i repo) (emit (cluster_ev (cl_org c0) actor ''cluster.baseline_rebound'' i JNull)
         (cl_org c0) ''cluster.registered'' (cluster_payload (cl_org c0) i (cl_name c0)))) s1 = (Inr u, s2)"
    and r: "csv_baseline_repo svc i s2 = (Inr slug, s2')"
    and e: "(if slug \<noteq> [] then enqueue (rebind_command i slug) else ret ()) s2' = (Inr v, s3)"
    and 4: "get_cluster i s3 = (Inr c, s')"
    unfolding rebind_baseline_def by (auto elim!: bindE_okE thenE_okE)
  have a1: "agent_commands s1 = agent_commands s" using 1 by (auto elim!: get_cluster_okE same_tablesE)
  have a2: "agent_commands s2 = agent_commands s1"
    using 2 by (auto elim!: with_tx_okE thenE_okE emit_okE dest!: assms(3))
  have a2': "agent_commands s2' = agent_commands s2" using read_onlyD [OF assms(4) r] by (auto elim!: same_tablesE)
  have a3: "agent_commands s3 = agent_commands s2'"
  proof (cases "slug = []")
    case True
    with e show ?thesis by (simp add: ret_def)
  next
    case False
    with e have "enqueue (rebind_command i slug) s2' = (Inr v, s3)" by simp
    moreover have "cmd_id (rebind_command i slug) \<in> cmd_id ` set (agent_commands s2')"
      using assms(5) a1 a2 a2' by (simp add: rebind_command_def)
    ultimately show ?thesis by (rule agent_queue.duplicate)
  qed
  have "agent_commands s' = agent_commands s3" using 4 by (auto elim!: get_cluster_okE same_tablesE)
  with a1 a2 a2' a3 show ?thesis by simp
qed

section \<open>Witnesses\<close>

definition demo_csvc :: "agents_db clusters_svc" where
  "demo_csvc = \<lparr>csv_disable = (\<lambda>_. None),
     csv_instances = Some (\<lambda>org i. ret [\<lparr>ri_id = ''r1'', ri_org = org, ri_cluster = i, ri_mode = ''adopt'', ri_created = 2,
        ri_kind = [], ri_name = [], ri_namespace = [], ri_sync = []\<rparr>,
       \<lparr>ri_id = ''r0'', ri_org = org, ri_cluster = i, ri_mode = ''adopt'', ri_created = 1,
        ri_kind = [], ri_name = [], ri_namespace = [], ri_sync = []\<rparr>]),
     csv_bind_baseline = Some (\<lambda>i r. ret ()), csv_baseline_repo = (\<lambda>i. ret ''acme/other''),
     csv_commands = Some enqueue, csv_token_ttl = 10, csv_approval = False, csv_hash = (\<lambda>p. ''h'' @ p)\<rparr>"

theorem registration_token_single_use_witness:
  "\<exists>c s1 e. consume_registration_token demo_csvc ''1'' demo_gdb = (Inr c, s1)
     \<and> fst (consume_registration_token demo_csvc ''1'' s1) = Inl e"
proof -
  have d: "distinct (map rt_hash (reg_tokens demo_gdb))" by (simp add: demo_gdb_def)
  have "fst (consume_registration_token demo_csvc ''1'' demo_gdb) = Inr (demo_cluster ''c2'' Decommissioned)"
    by code_simp
  then obtain s1 where run: "consume_registration_token demo_csvc ''1'' demo_gdb =
      (Inr (demo_cluster ''c2'' Decommissioned), s1)" by (metis prod.collapse)
  obtain res s3 where again: "consume_registration_token demo_csvc ''1'' s1 = (res, s3)" by fastforce
  have "\<exists>e. res = Inl e"
    by (rule registration_token_single_use [OF d run rtranclp.rtrancl_refl again])
  with run again show ?thesis by auto
qed

theorem cluster_transition_follows_table_witness:
  "\<exists>c. select_row (\<lambda>c. cl_id c = ''c1'') (clusters demo_gdb) = Some c \<and> can_cluster_transition (cl_state c) Cordoned"
proof -
  have "fst (cordon_cluster ''bob'' ''c1'' demo_gdb) = Inr (demo_cluster ''c1'' Cordoned)" by code_simp
  then obtain s' where run: "cluster_transition ''bob'' ''c1'' Cordoned ''cluster.cordoned'' JNull demo_gdb =
      (Inr (demo_cluster ''c1'' Cordoned), s')" unfolding cordon_cluster_def by (metis prod.collapse)
  from cluster_transition_follows_table [OF run] show ?thesis by auto
qed

theorem decommission_drains_owned_witness:
  "\<exists>c s'. decommission_cluster demo_csvc ''bob'' ''c1'' False demo_gdb = (Inr (c, [''r1'', ''r0'']), s')
     \<and> cl_state c = Decommissioned"
proof -
  have "fst (decommission_cluster demo_csvc ''bob'' ''c1'' False demo_gdb)
      = Inr (demo_cluster ''c1'' Decommissioned, [''r1'', ''r0''])" by code_simp
  then obtain s' where run: "decommission_cluster demo_csvc ''bob'' ''c1'' False demo_gdb
      = (Inr (demo_cluster ''c1'' Decommissioned, [''r1'', ''r0'']), s')" by (metis prod.collapse)
  obtain ls where l: "csv_instances demo_csvc = Some ls" and "\<And>org i. read_only (ls org i)"
    by (simp add: demo_csvc_def)
  from decommission_drains_owned [OF this run] run show ?thesis by auto
qed

theorem registration_revives_decommissioned_witness:
  "\<exists>s1 s2 c'. consume_registration_token demo_csvc ''1'' demo_gdb = (Inr (demo_cluster ''c2'' Decommissioned), s1)
    \<and> mark_registered ''agent:c2'' ''c2'' ''client'' ''1.30'' ''v1.2.0'' [] s1 = (Inr (), s2)
    \<and> select_row (\<lambda>c. cl_id c = ''c2'') (clusters s2) = Some c' \<and> cl_state c' = ClusterActive"
proof -
  have f: "faults demo_gdb = []" by (simp add: demo_gdb_def)
  have c: "select_row (\<lambda>c. cl_id c = ''c2'') (clusters demo_gdb) = Some (demo_cluster ''c2'' Decommissioned)"
    and st: "cl_state (demo_cluster ''c2'' Decommissioned) = Decommissioned"
    by (simp_all add: demo_gdb_def demo_cluster_def select_row_def)
  have t: "select_row (\<lambda>t. rt_hash t = csv_hash demo_csvc ''1'') (reg_tokens demo_gdb) = Some (reg_tokens demo_gdb ! 0)"
    and t': "rt_cluster (reg_tokens demo_gdb ! 0) = ''c2''" "rt_used (reg_tokens demo_gdb ! 0) = None"
      "\<not> rt_expires (reg_tokens demo_gdb ! 0) < clock demo_gdb"
    by (simp_all add: demo_gdb_def demo_csvc_def select_row_def)
  from registration_revives_decommissioned [OF f c st t t'] show ?thesis by blast
qed

definition demo_rebind_db :: agents_db where
  "demo_rebind_db = demo_gdb\<lparr>agent_commands := [demo_command ''rebind-c1'' ''c1'' CommandAcked 10]\<rparr>"

theorem rebind_not_requeued_witness:
  "agent_commands (snd (rebind_baseline demo_csvc ''bob'' ''c1'' ''repo2'' demo_rebind_db))
     = [demo_command ''rebind-c1'' ''c1'' CommandAcked 10]"
proof -
  have "fst (rebind_baseline demo_csvc ''bob'' ''c1'' ''repo2'' demo_rebind_db) = Inr (demo_cluster ''c1'' ClusterActive)"
    by code_simp
  then obtain s' where run: "rebind_baseline demo_csvc ''bob'' ''c1'' ''repo2'' demo_rebind_db
      = (Inr (demo_cluster ''c1'' ClusterActive), s')" by (metis prod.collapse)
  have e: "csv_commands demo_csvc = Some enqueue" and b: "csv_bind_baseline demo_csvc = Some (\<lambda>i r. ret ())"
    by (simp_all add: demo_csvc_def)
  have keep: "agent_commands t' = agent_commands t" if "ret () t = (r, t')" for t t' :: agents_db and r
    using that by (simp add: ret_def)
  have ro: "read_only (csv_baseline_repo demo_csvc x)" for x by (simp add: demo_csvc_def)
  have q: "''rebind-'' @ ''c1'' \<in> cmd_id ` set (agent_commands demo_rebind_db)"
    by (simp add: demo_rebind_db_def demo_command_def)
  from rebind_not_requeued [OF e b keep ro q run] run show ?thesis by (simp add: demo_rebind_db_def)
qed

end
