(* ===== verification/Capabilities.thy ===== *)
theory Capabilities
  imports ClusterRegistry
begin

text \<open>
  The capability projection (internal/capabilities): what the agents of the clusters report they
  can run. Incremental updates go through \<open>ingest\<close>; a framed full sync is a sequence of
  \<open>ingest_chunk\<close> and one \<open>finalize_sync\<close>, which alone deletes what the sync did not mention.
\<close>

section \<open>Items and keys\<close>

type_synonym cap_key = "string \<times> string \<times> string \<times> string"

record cap_item =
  it_kind :: string
  it_name :: string
  it_group :: string
  it_version :: string
  it_schema :: json
  it_hints :: json
  it_mode :: string
  it_action :: string

definition CapabilityActionDelete :: string where "CapabilityActionDelete = ''delete''"
definition CapabilityActionUpsert :: string where "CapabilityActionUpsert = ''upsert''"

definition item_key :: "cap_item \<Rightarrow> cap_key" where
  "item_key it = (it_kind it, it_group it, it_name it, it_version it)"

definition cap_key :: "capability \<Rightarrow> cap_key" where
  "cap_key c = (cap_kind c, cap_group c, cap_name c, cap_version c)"

definition live_row :: "string \<Rightarrow> cap_key \<Rightarrow> capability \<Rightarrow> bool" where
  "live_row cluster k c \<longleftrightarrow> cap_cluster c = cluster \<and> cap_key c = k \<and> cap_deleted c = None"

section \<open>The store\<close>

definition item_mode :: "cap_item \<Rightarrow> string" where
  "item_mode it = (if it_mode it = [] then ManagementModeObserveOnly else it_mode it)"

definition new_cap :: "int \<Rightarrow> string \<Rightarrow> cap_item \<Rightarrow> capability" where
  "new_cap now cluster it = \<lparr>cap_cluster = cluster, cap_kind = it_kind it, cap_group = it_group it,
     cap_name = it_name it, cap_version = it_version it, cap_schema = it_schema it, cap_hints = it_hints it,
     cap_mode = item_mode it, cap_first_seen = now, cap_last_seen = now, cap_deleted = None\<rparr>"

definition refreshed_cap :: "int \<Rightarrow> cap_item \<Rightarrow> capability \<Rightarrow> capability" where
  "refreshed_cap now it c = c\<lparr>cap_schema := it_schema it, cap_hints := it_hints it, cap_mode := item_mode it,
     cap_last_seen := now, cap_deleted := None\<rparr>"

definition cap_upsert :: "string \<Rightarrow> cap_item \<Rightarrow> ('a agents_db_scheme, unit) dbm" where
  "cap_upsert cluster it = sql (\<lambda>s.
     if \<exists>c \<in> set (capabilities s). cap_cluster c = cluster \<and> cap_key c = item_key it
     then (Inr (), s\<lparr>capabilities := update_rows (\<lambda>c. cap_cluster c = cluster \<and> cap_key c = item_key it)
            (refreshed_cap (clock s) it) (capabilities s)\<rparr>)
     else if cluster \<notin> cl_id ` set (clusters s) then (Inl (ErrMsg ''capabilities_cluster_id_fkey''), s)
     else (Inr (), s\<lparr>capabilities := capabilities s @ [new_cap (clock s) cluster it]\<rparr>))"

definition cap_soft_delete_key :: "string \<Rightarrow> cap_key \<Rightarrow> ('a agents_db_scheme, bool) dbm" where
  "cap_soft_delete_key cluster k = sql (\<lambda>s.
     (Inr (rows_affected (live_row cluster k) (capabilities s) > 0),
      s\<lparr>capabilities := update_rows (live_row cluster k) (\<lambda>c. c\<lparr>cap_deleted := Some (clock s)\<rparr>) (capabilities s)\<rparr>))"

definition cap_soft_delete :: "string \<Rightarrow> cap_item \<Rightarrow> ('a agents_db_scheme, bool) dbm" where
  "cap_soft_delete cluster it = cap_soft_delete_key cluster (item_key it)"

fun delete_keys :: "string \<Rightarrow> cap_key list \<Rightarrow> ('a agents_db_scheme, unit) dbm" where
  "delete_keys cluster [] = ret ()"
| "delete_keys cluster (k # ks) = bindE (cap_soft_delete_key cluster k) (\<lambda>_. delete_keys cluster ks)"

definition soft_delete_missing :: "string \<Rightarrow> cap_key list \<Rightarrow> ('a agents_db_scheme, nat) dbm" where
  "soft_delete_missing cluster keep =
     bindE (sql (asks (\<lambda>s. map cap_key (filter (\<lambda>c. cap_cluster c = cluster \<and> cap_deleted c = None) (capabilities s)))))
       (\<lambda>live. let stale = filter (\<lambda>k. \<not> List.member keep k) live
               in thenE (delete_keys cluster stale) (ret (length stale)))"

text \<open>\<open>ORDER BY kind, "group", name, version\<close> with the byte order of the strings.\<close>

definition key_less :: "cap_key \<Rightarrow> cap_key \<Rightarrow> bool" where
  "key_less a b =
     (let (ka, ga, na, va) = a; (kb, gb, nb, vb) = b;
          less = (\<lambda>x y. nats_less (string_code x) (string_code y))
      in less ka kb \<or> (ka = kb \<and> (less ga gb \<or> (ga = gb \<and> (less na nb \<or> (na = nb \<and> less va vb))))))"

fun insert_by_key :: "capability \<Rightarrow> capability list \<Rightarrow> capability list" where
  "insert_by_key c [] = [c]"
| "insert_by_key c (d # ds) = (if key_less (cap_key d) (cap_key c) then d # insert_by_key c ds else c # d # ds)"

definition cap_list :: "string \<Rightarrow> ('a agents_db_scheme, capability list) dbm" where
  "cap_list cluster = sql (asks (\<lambda>s. foldr insert_by_key
     (filter (\<lambda>c. cap_cluster c = cluster \<and> cap_deleted c = None) (capabilities s)) []))"

section \<open>The service\<close>

fun apply_items :: "string \<Rightarrow> cap_item list \<Rightarrow> nat \<times> nat \<Rightarrow> ('a agents_db_scheme, nat \<times> nat) dbm" where
  "apply_items cluster [] (u, d) = ret (u, d)"
| "apply_items cluster (it # its) (u, d) =
     (if it_action it = CapabilityActionDelete
      then bindE (cap_soft_delete cluster it) (\<lambda>ok. apply_items cluster its (u, if ok then d + 1 else d))
      else thenE (cap_upsert cluster it) (apply_items cluster its (u + 1, d)))"

definition store_checksum :: "string \<Rightarrow> string \<Rightarrow> ('a agents_db_scheme, unit) dbm" where
  "store_checksum cluster checksum = (if checksum = [] then ret ()
     else bindE (update_clusters (\<lambda>c. cl_id c = cluster)
            (\<lambda>now c. c\<lparr>cl_checksum := checksum, cl_last_seen := Some now\<rparr>)) (\<lambda>_. ret ()))"

definition ingested_payload :: "string \<Rightarrow> string \<Rightarrow> nat \<Rightarrow> nat \<Rightarrow> bool \<Rightarrow> string \<Rightarrow> json" where
  "ingested_payload org cluster u d full checksum = JObj [(''orgId'', JStr org), (''clusterId'', JStr cluster),
     (''upserted'', JNum (real u)), (''deleted'', JNum (real d)), (''fullSync'', JBool full),
     (''stateChecksum'', JStr checksum)]"

definition log_ingest ::
  "string \<Rightarrow> string \<Rightarrow> nat \<Rightarrow> nat \<Rightarrow> bool \<Rightarrow> string \<Rightarrow> ('a agents_db_scheme, unit) dbm" where
  "log_ingest org cluster u d full checksum =
     emit (cluster_ev org (''agent:'' @ cluster) ''capabilities.ingested'' cluster
             (JObj [(''upserted'', JNum (real u)), (''deleted'', JNum (real d)), (''fullSync'', JBool full)]))
       org ''capabilities.ingested'' (ingested_payload org cluster u d full checksum)"

definition ingest :: "string \<Rightarrow> string \<Rightarrow> cap_item list \<Rightarrow> string \<Rightarrow> ('a agents_db_scheme, unit) dbm" where
  "ingest org cluster items checksum = with_tx (bindE (apply_items cluster items (0, 0)) (\<lambda>(u, d).
     thenE (store_checksum cluster checksum) (log_ingest org cluster u d False checksum)))"

definition ingest_chunk :: "string \<Rightarrow> string \<Rightarrow> cap_item list \<Rightarrow> ('a agents_db_scheme, nat) dbm" where
  "ingest_chunk org cluster items = with_tx (bindE (apply_items cluster items (0, 0)) (\<lambda>(u, d). ret u))"

definition finalize_sync ::
  "string \<Rightarrow> string \<Rightarrow> cap_key list \<Rightarrow> string \<Rightarrow> nat \<Rightarrow> ('a agents_db_scheme, nat) dbm" where
  "finalize_sync org cluster keep checksum upserted = with_tx (bindE (soft_delete_missing cluster keep) (\<lambda>d.
     thenE (store_checksum cluster checksum) (thenE (log_ingest org cluster upserted d True checksum) (ret d))))"

section \<open>The live capabilities of a cluster\<close>

definition live_keys :: "string \<Rightarrow> 'a agents_db_scheme \<Rightarrow> cap_key set" where
  "live_keys cluster s = cap_key ` {c \<in> set (capabilities s). cap_cluster c = cluster \<and> cap_deleted c = None}"

definition other_caps :: "string \<Rightarrow> 'a agents_db_scheme \<Rightarrow> capability list" where
  "other_caps cluster s = filter (\<lambda>c. cap_cluster c \<noteq> cluster) (capabilities s)"

text \<open>What an operation on \<open>cluster\<close> does to the projection: the live keys become \<open>g\<close> of them.\<close>

definition moves_live :: "string \<Rightarrow> (cap_key set \<Rightarrow> cap_key set) \<Rightarrow> 'a agents_db_scheme \<Rightarrow> 'a agents_db_scheme \<Rightarrow> bool" where
  "moves_live cluster g s s' \<longleftrightarrow> live_keys cluster s' = g (live_keys cluster s)
     \<and> other_caps cluster s' = other_caps cluster s \<and> map cl_id (clusters s') = map cl_id (clusters s)"

lemma moves_live_refl: "moves_live cluster id s s"
  by (simp add: moves_live_def)

lemma moves_live_trans:
  "moves_live cluster g s s' \<Longrightarrow> moves_live cluster h s' s'' \<Longrightarrow> moves_live cluster (h \<circ> g) s s''"
  by (simp add: moves_live_def)

lemma moves_live_same: "same_tables s s' \<Longrightarrow> moves_live cluster id s s'"
  by (auto simp: moves_live_def live_keys_def other_caps_def elim!: same_tablesE)

lemma filter_update_rows_other:
  "(\<And>r. P r \<Longrightarrow> \<not> Q r \<and> \<not> Q (f r)) \<Longrightarrow> filter Q (update_rows P f rows) = filter Q rows"
  by (induction rows) auto

lemma live_keys_iff: "k \<in> live_keys cluster s \<longleftrightarrow> (\<exists>c \<in> set (capabilities s). live_row cluster k c)"
  by (auto simp: live_keys_def live_row_def)

lemma refreshed_cap_simps [simp]:
  "cap_cluster (refreshed_cap now it c) = cap_cluster c" "cap_key (refreshed_cap now it c) = cap_key c"
  "cap_deleted (refreshed_cap now it c) = None"
  by (simp_all add: refreshed_cap_def cap_key_def)

lemma new_cap_simps [simp]:
  "cap_cluster (new_cap now cluster it) = cluster" "cap_key (new_cap now cluster it) = item_key it"
  "cap_deleted (new_cap now cluster it) = None"
  by (simp_all add: new_cap_def cap_key_def item_key_def)

lemma live_row_refreshed:
  "live_row cluster k (refreshed_cap now it c) \<longleftrightarrow> cap_cluster c = cluster \<and> cap_key c = k"
  by (simp add: live_row_def)

lemma live_keys_refresh:
  assumes "\<exists>c \<in> set (capabilities s). cap_cluster c = cluster \<and> cap_key c = item_key it"
  shows "live_keys cluster (s\<lparr>capabilities := update_rows (\<lambda>c. cap_cluster c = cluster \<and> cap_key c = item_key it)
      (refreshed_cap now it) (capabilities s)\<rparr>) = insert (item_key it) (live_keys cluster s)"
proof (rule set_eqI)
  fix k
  let ?P = "\<lambda>c. cap_cluster c = cluster \<and> cap_key c = item_key it"
  have "(\<exists>c \<in> set (update_rows ?P (refreshed_cap now it) (capabilities s)). live_row cluster k c) \<longleftrightarrow>
      (\<exists>c \<in> set (capabilities s). if ?P c then cap_key c = k else live_row cluster k c)"
    unfolding bex_update_rows by (rule bex_cong [OF refl]) (simp add: live_row_refreshed)
  also have "\<dots> \<longleftrightarrow> k = item_key it \<or> (\<exists>c \<in> set (capabilities s). live_row cluster k c)"
  proof (cases "k = item_key it")
    case True
    with assms show ?thesis by auto
  next
    case False
    then have "(if ?P c then cap_key c = k else live_row cluster k c) = live_row cluster k c" for c
      by (auto simp: live_row_def)
    with False show ?thesis by simp
  qed
  finally show "k \<in> live_keys cluster (s\<lparr>capabilities := update_rows ?P (refreshed_cap now it) (capabilities s)\<rparr>)
      \<longleftrightarrow> k \<in> insert (item_key it) (live_keys cluster s)" by (simp add: live_keys_iff)
qed

lemma cap_upsert_ok:
  assumes "cap_upsert cluster it s = (Inr u, s')"
  shows "moves_live cluster (insert (item_key it)) s s'"
proof -
  let ?P = "\<lambda>c. cap_cluster c = cluster \<and> cap_key c = item_key it"
  from assms obtain fs where run: "(\<lambda>s. if \<exists>c \<in> set (capabilities s). ?P c
       then (Inr (), s\<lparr>capabilities := update_rows ?P (refreshed_cap (clock s) it) (capabilities s)\<rparr>)
     else if cluster \<notin> cl_id ` set (clusters s) then (Inl (ErrMsg ''capabilities_cluster_id_fkey''), s)
     else (Inr (), s\<lparr>capabilities := capabilities s @ [new_cap (clock s) cluster it]\<rparr>)) (s\<lparr>faults := fs\<rparr>) = (Inr u, s')"
    unfolding cap_upsert_def by (rule sql_okE)
  show ?thesis
  proof (cases "\<exists>c \<in> set (capabilities s). ?P c")
    case True
    with run have s': "s' = s\<lparr>faults := fs, capabilities := update_rows ?P (refreshed_cap (clock s) it) (capabilities s)\<rparr>"
      by simp
    have "live_keys cluster s' = insert (item_key it) (live_keys cluster s)"
      using live_keys_refresh [OF True, of "clock s"] by (simp add: s' live_keys_def)
    moreover have "other_caps cluster s' = other_caps cluster s"
      unfolding s' by (simp add: other_caps_def) (rule filter_update_rows_other, simp)
    ultimately show ?thesis by (simp add: moves_live_def s')
  next
    case False
    with run have "s' = s\<lparr>faults := fs, capabilities := capabilities s @ [new_cap (clock s) cluster it]\<rparr>"
      by (simp split: if_splits)
    moreover have "live_keys cluster (s\<lparr>faults := fs, capabilities := capabilities s @ [new_cap (clock s) cluster it]\<rparr>)
        = insert (item_key it) (live_keys cluster s)"
    proof (rule set_eqI)
      fix k
      have "live_row cluster k (new_cap (clock s) cluster it) \<longleftrightarrow> k = item_key it" by (auto simp: live_row_def)
      then show "k \<in> live_keys cluster (s\<lparr>faults := fs, capabilities := capabilities s @ [new_cap (clock s) cluster it]\<rparr>)
          \<longleftrightarrow> k \<in> insert (item_key it) (live_keys cluster s)"
        unfolding live_keys_iff insert_iff by simp
    qed
    ultimately show ?thesis by (simp add: moves_live_def other_caps_def)
  qed
qed

lemma cap_soft_delete_key_ok:
  assumes "cap_soft_delete_key cluster k s = (Inr b, s')"
  shows "moves_live cluster (\<lambda>K. K - {k}) s s'"
proof -
  from assms obtain fs where s': "s' = s\<lparr>faults := fs, capabilities := update_rows (live_row cluster k)
      (\<lambda>c. c\<lparr>cap_deleted := Some (clock s)\<rparr>) (capabilities s)\<rparr>"
    unfolding cap_soft_delete_key_def by (auto elim!: sql_okE)
  have "live_keys cluster s' = live_keys cluster s - {k}"
  proof (rule set_eqI)
    fix j
    have row: "live_row cluster j (if live_row cluster k c then c\<lparr>cap_deleted := Some (clock s)\<rparr> else c)
        \<longleftrightarrow> live_row cluster j c \<and> j \<noteq> k" for c by (auto simp: live_row_def)
    have caps: "capabilities s' = update_rows (live_row cluster k) (\<lambda>c. c\<lparr>cap_deleted := Some (clock s)\<rparr>) (capabilities s)"
      by (simp add: s')
    show "j \<in> live_keys cluster s' \<longleftrightarrow> j \<in> live_keys cluster s - {k}"
      unfolding Diff_iff live_keys_iff caps bex_update_rows row by auto
  qed
  moreover have "other_caps cluster s' = other_caps cluster s"
    unfolding s' by (simp add: other_caps_def) (rule filter_update_rows_other, simp add: live_row_def)
  ultimately show ?thesis by (simp add: moves_live_def s')
qed

lemma delete_keys_ok:
  "delete_keys cluster ks s = (Inr u, s') \<Longrightarrow> moves_live cluster (\<lambda>K. K - set ks) s s'"
proof (induction ks arbitrary: s)
  case Nil
  then show ?case by (simp add: ret_def moves_live_def)
next
  case (Cons k ks)
  then obtain b s1 where 1: "cap_soft_delete_key cluster k s = (Inr b, s1)"
    and 2: "delete_keys cluster ks s1 = (Inr u, s')" by (auto elim!: bindE_okE)
  from cap_soft_delete_key_ok [OF 1] Cons.IH [OF 2] show ?case
    by (auto simp: moves_live_def)
qed

fun items_effect :: "cap_item list \<Rightarrow> cap_key set \<Rightarrow> cap_key set" where
  "items_effect [] K = K"
| "items_effect (it # its) K = items_effect its
     (if it_action it = CapabilityActionDelete then K - {item_key it} else insert (item_key it) K)"

lemma apply_items_ok:
  "apply_items cluster its ud s = (Inr r, s') \<Longrightarrow> moves_live cluster (items_effect its) s s'"
proof (induction its arbitrary: ud s)
  case Nil
  then show ?case by (cases ud) (simp add: ret_def moves_live_def)
next
  case (Cons it its)
  obtain u d where ud: "ud = (u, d)" by fastforce
  show ?case
  proof (cases "it_action it = CapabilityActionDelete")
    case True
    with Cons.prems ud obtain ok s1 where 1: "cap_soft_delete cluster it s = (Inr ok, s1)"
      and 2: "apply_items cluster its (u, if ok then d + 1 else d) s1 = (Inr r, s')" by (auto elim!: bindE_okE)
    from cap_soft_delete_key_ok [OF 1 [unfolded cap_soft_delete_def]] Cons.IH [OF 2] True
    show ?thesis by (auto simp: moves_live_def)
  next
    case False
    with Cons.prems ud obtain v s1 where 1: "cap_upsert cluster it s = (Inr v, s1)"
      and 2: "apply_items cluster its (u + 1, d) s1 = (Inr r, s')" by (auto elim!: thenE_okE)
    from cap_upsert_ok [OF 1] Cons.IH [OF 2] False show ?thesis by (auto simp: moves_live_def)
  qed
qed

lemma live_keys_faults [simp]: "live_keys cluster (s\<lparr>faults := fs\<rparr>) = live_keys cluster s"
  "other_caps cluster (s\<lparr>faults := fs\<rparr>) = other_caps cluster s"
  by (simp_all add: live_keys_def other_caps_def)

lemma moves_live_faults [simp]: "moves_live cluster g s (s'\<lparr>faults := fs\<rparr>) = moves_live cluster g s s'"
  "moves_live cluster g (s\<lparr>faults := fs\<rparr>) s' = moves_live cluster g s s'"
  by (simp_all add: moves_live_def live_keys_def other_caps_def)

lemma store_checksum_ok:
  assumes "store_checksum cluster checksum s = (Inr u, s')"
  shows "moves_live cluster id s s'
    \<and> (checksum \<noteq> [] \<longrightarrow> (\<forall>c \<in> set (clusters s'). cl_id c = cluster \<longrightarrow> cl_checksum c = checksum))"
proof (cases "checksum = []")
  case True
  with assms show ?thesis by (simp add: store_checksum_def ret_def moves_live_refl)
next
  case False
  with assms obtain fs where "s' = s\<lparr>faults := fs, clusters := update_rows (\<lambda>c. cl_id c = cluster)
      (\<lambda>c. c\<lparr>cl_checksum := checksum, cl_last_seen := Some (clock s)\<rparr>) (clusters s)\<rparr>"
    by (auto simp: store_checksum_def elim!: bindE_okE update_clusters_okE ret_okE)
  then have cs: "clusters s' = update_rows (\<lambda>c. cl_id c = cluster)
      (\<lambda>c. c\<lparr>cl_checksum := checksum, cl_last_seen := Some (clock s)\<rparr>) (clusters s)"
    and caps: "capabilities s' = capabilities s" by simp_all
  have "map cl_id (clusters s') = map cl_id (clusters s)"
    unfolding cs by (rule map_update_rows_same) simp
  then have "moves_live cluster id s s'" by (simp add: moves_live_def live_keys_def other_caps_def caps)
  moreover have "\<forall>c \<in> set (clusters s'). cl_id c = cluster \<longrightarrow> cl_checksum c = checksum"
    unfolding cs ball_update_rows by simp
  ultimately show ?thesis by simp
qed

lemma log_ingest_ok:
  assumes "log_ingest org cluster u d full checksum s = (Inr v, s')"
  shows "moves_live cluster id s s' \<and> clusters s' = clusters s"
  using assms unfolding log_ingest_def
  by (auto elim!: emit_okE simp: moves_live_def live_keys_def other_caps_def)

lemma soft_delete_missing_ok:
  assumes "soft_delete_missing cluster keep s = (Inr d, s')"
  shows "moves_live cluster (\<lambda>K. K \<inter> set keep) s s'"
proof -
  let ?live = "map cap_key (filter (\<lambda>c. cap_cluster c = cluster \<and> cap_deleted c = None) (capabilities s))"
  from assms obtain fs v where "delete_keys cluster (filter (\<lambda>k. \<not> List.member keep k) ?live) (s\<lparr>faults := fs\<rparr>) = (Inr v, s')"
    unfolding soft_delete_missing_def by (auto simp: Let_def elim!: bindE_okE thenE_okE sql_okE asks_okE ret_okE)
  from delete_keys_ok [OF this] have "moves_live cluster (\<lambda>K. K - set (filter (\<lambda>k. \<not> List.member keep k) ?live)) s s'"
    by simp
  moreover have "live_keys cluster s - set (filter (\<lambda>k. \<not> List.member keep k) ?live) = live_keys cluster s \<inter> set keep"
    by (auto simp: live_keys_def)
  ultimately show ?thesis by (simp add: moves_live_def)
qed

lemma finalize_sync_ok:
  assumes "finalize_sync org cluster keep checksum n s = (Inr d, s')"
  shows "moves_live cluster (\<lambda>K. K \<inter> set keep) s s'
    \<and> (checksum \<noteq> [] \<longrightarrow> (\<forall>c \<in> set (clusters s'). cl_id c = cluster \<longrightarrow> cl_checksum c = checksum))"
proof -
  from assms obtain fs fs' s1 s2 s3 d1 u v where
    1: "soft_delete_missing cluster keep (s\<lparr>faults := fs\<rparr>) = (Inr d1, s1)"
    and 2: "store_checksum cluster checksum s1 = (Inr u, s2)"
    and 3: "log_ingest org cluster n d1 True checksum s2 = (Inr v, s3)" and s': "s' = s3\<lparr>faults := fs'\<rparr>"
    unfolding finalize_sync_def by (auto elim!: with_tx_okE bindE_okE thenE_okE ret_okE)
  from soft_delete_missing_ok [OF 1] have "moves_live cluster (\<lambda>K. K \<inter> set keep) s s1" by simp
  with store_checksum_ok [OF 2] log_ingest_ok [OF 3] show ?thesis by (simp add: moves_live_def s')
qed

lemma ingest_chunk_outcome:
  assumes "ingest_chunk org cluster items s = (r, s')"
  shows "case r of Inl e \<Rightarrow> moves_live cluster id s s' | Inr n \<Rightarrow> moves_live cluster (items_effect items) s s'"
proof (cases r)
  case (Inl e)
  with assms show ?thesis unfolding ingest_chunk_def by (auto dest!: with_tx_abort intro: moves_live_same)
next
  case (Inr n)
  with assms obtain fs fs' s1 ud where "apply_items cluster items (0, 0) (s\<lparr>faults := fs\<rparr>) = (Inr ud, s1)"
    and s': "s' = s1\<lparr>faults := fs'\<rparr>"
    unfolding ingest_chunk_def by (auto elim!: with_tx_okE bindE_okE ret_okE split: prod.splits)
  from apply_items_ok [OF this(1)] Inr show ?thesis by (simp add: s')
qed

definition upserts :: "cap_item list \<Rightarrow> bool" where
  "upserts items \<longleftrightarrow> (\<forall>it \<in> set items. it_action it \<noteq> CapabilityActionDelete)"

lemma items_effect_upserts: "upserts items \<Longrightarrow> items_effect items K = item_key ` set items \<union> K"
  by (induction items arbitrary: K) (auto simp: upserts_def)

end
