(* ===== verification/AgentSession.thy ===== *)
theory AgentSession
  imports Capabilities
begin

text \<open>
  The agent gateway (internal/agentgateway): admission and fencing of the agents' streams
  (stream.go, session_registry.go), the handling of one inbound event with the framed
  capability sync and the acknowledgement of commands (stream.go, mapping.go), and the
  one-time registration exchange (registration.go).

  The protobuf messages come from the inari-api module, which is not under src/: an inbound
  event is given with its payload decoded (\<open>None\<close> where the payload does not decode), and an
  enumeration of the contract has one constructor per constant the code names and one for
  every other number. Keycloak, the secret store and the other modules are parameters.
\<close>

section \<open>Contract enumerations (mapping.go)\<close>

datatype wire_kind = WireCRD | WireOLMCSV | WireXRD | WireProvider | WireRGD | WireHelm | WireAddon | WireMetadata
  | WireKindOther int

fun map_kind :: "wire_kind \<Rightarrow> string" where
  "map_kind WireCRD = ''crd''"
| "map_kind WireOLMCSV = ''olm-csv''"
| "map_kind WireXRD = ''crossplane-xrd''"
| "map_kind WireProvider = ''crossplane-provider''"
| "map_kind WireRGD = ''kro-rgd''"
| "map_kind WireHelm = ''helm-release''"
| "map_kind WireAddon = ''cluster-addon''"
| "map_kind WireMetadata = ''cluster-metadata''"
| "map_kind (WireKindOther _) = []"

datatype wire_mode = WireAdopt | WireIgnore | WireModeOther int

fun map_mode :: "wire_mode \<Rightarrow> string" where
  "map_mode WireAdopt = ManagementModeAdopt"
| "map_mode WireIgnore = ''ignore''"
| "map_mode (WireModeOther _) = ManagementModeObserveOnly"

datatype wire_action = WireDelete | WireActionOther int

fun map_action :: "wire_action \<Rightarrow> string" where
  "map_action WireDelete = CapabilityActionDelete"
| "map_action (WireActionOther _) = CapabilityActionUpsert"

datatype wire_health = WireHealthy | WireProgressing | WireDegraded | WireSuspended | WireMissing | WireHealthOther int

fun map_health :: "wire_health \<Rightarrow> string" where
  "map_health WireHealthy = ''healthy''"
| "map_health WireProgressing = ''progressing''"
| "map_health WireDegraded = ''degraded''"
| "map_health WireSuspended = ''suspended''"
| "map_health WireMissing = ''missing''"
| "map_health (WireHealthOther _) = ''unknown''"

datatype wire_sync = WireSynced | WireOutOfSync | WireSyncError | WireSyncOther int

fun map_sync :: "wire_sync \<Rightarrow> string" where
  "map_sync WireSynced = ''synced''"
| "map_sync WireOutOfSync = ''out_of_sync''"
| "map_sync WireSyncError = ''error''"
| "map_sync (WireSyncOther _) = []"

record wire_status =
  ws_resource :: "(string \<times> string \<times> string) option"
  ws_health :: wire_health
  ws_sync :: wire_sync
  ws_message :: string
  ws_observed :: "int option"

record status_update =
  su_kind :: string
  su_name :: string
  su_namespace :: string
  su_health :: string
  su_sync :: string
  su_message :: string
  su_observed :: "int option"

definition map_status_update :: "wire_status \<Rightarrow> status_update" where
  "map_status_update upd =
     (let (k, n, ns) = (case ws_resource upd of None \<Rightarrow> ([], [], []) | Some r \<Rightarrow> r)
      in \<lparr>su_kind = k, su_name = n, su_namespace = ns, su_health = map_health (ws_health upd),
          su_sync = map_sync (ws_sync upd), su_message = ws_message upd, su_observed = ws_observed upd\<rparr>)"

record wire_cap =
  wc_kind :: wire_kind
  wc_name :: string
  wc_group :: string
  wc_version :: string
  wc_schema :: json
  wc_hints :: json
  wc_mode :: wire_mode
  wc_action :: wire_action

record capability_update =
  cu_full :: bool
  cu_checksum :: string
  cu_caps :: "wire_cap list"

definition map_cap :: "wire_cap \<Rightarrow> cap_item" where
  "map_cap c = \<lparr>it_kind = map_kind (wc_kind c), it_name = wc_name c, it_group = wc_group c,
     it_version = wc_version c, it_schema = wc_schema c, it_hints = wc_hints c,
     it_mode = map_mode (wc_mode c), it_action = map_action (wc_action c)\<rparr>"

definition map_capability_update :: "capability_update \<Rightarrow> cap_item list" where
  "map_capability_update upd = map map_cap (filter (\<lambda>c. map_kind (wc_kind c) \<noteq> []) (cu_caps upd))"

section \<open>Admission and fencing\<close>

definition authorize_cluster :: "string \<Rightarrow> ('a agents_db_scheme, cluster) dbm" where
  "authorize_cluster i = bindE (catchE (get_cluster i) (\<lambda>_. throw (ErrMsg ''unauthenticated: unknown cluster'')))
     (\<lambda>c. if cl_state c = ClusterActive \<or> cl_state c = ClusterDegraded then ret c
          else if cl_state c = ClusterRevoked then throw (ErrMsg ''permission denied: cluster is revoked'')
          else throw (ErrMsg ''failed precondition: cluster not registered''))"

text \<open>
  The session registry: the current session of each cluster, the sessions whose context is not
  cancelled, and the supply of session identities (a handle is compared by identity).
\<close>

record fence =
  fe_current :: "string \<rightharpoonup> nat"
  fe_live :: "(string \<times> nat) set"
  fe_next :: nat

definition register_session :: "string \<Rightarrow> fence \<Rightarrow> nat \<times> fence" where
  "register_session cluster f =
     (let h = fe_next f;
          live = (case fe_current f cluster of None \<Rightarrow> fe_live f | Some old \<Rightarrow> fe_live f - {(cluster, old)})
      in (h, f\<lparr>fe_current := (fe_current f)(cluster \<mapsto> h), fe_live := insert (cluster, h) live, fe_next := Suc h\<rparr>))"

text \<open>The end of a session: \<open>unregisterSession\<close> and the cancellation of its own context.\<close>

definition unregister_session :: "string \<Rightarrow> nat \<Rightarrow> fence \<Rightarrow> fence" where
  "unregister_session cluster h f =
     (if fe_current f cluster = Some h then f\<lparr>fe_current := (fe_current f)(cluster := None)\<rparr> else f)"

definition end_session :: "string \<Rightarrow> nat \<Rightarrow> fence \<Rightarrow> fence" where
  "end_session cluster h f =
     (let f' = unregister_session cluster h f in f'\<lparr>fe_live := fe_live f' - {(cluster, h)}\<rparr>)"

inductive fence_step :: "fence \<Rightarrow> fence \<Rightarrow> bool" where
  fence_connect: "fence_step f (snd (register_session cluster f))"
| fence_end: "fence_step f (end_session cluster h f)"

definition no_sessions :: fence where
  "no_sessions = \<lparr>fe_current = Map.empty, fe_live = {}, fe_next = 0\<rparr>"

section \<open>A session\<close>

record session =
  se_cluster :: cluster
  se_expected :: int
  se_resync :: bool
  se_beat :: int
  se_keep :: "cap_key list option"
  se_upserted :: nat

definition new_session :: "int \<Rightarrow> cluster \<Rightarrow> session" where
  "new_session now c = \<lparr>se_cluster = c, se_expected = 0, se_resync = False, se_beat = now, se_keep = None, se_upserted = 0\<rparr>"

definition union_keep :: "cap_item list \<Rightarrow> cap_key list \<Rightarrow> cap_key list" where
  "union_keep items keep = keep @ map item_key (filter (\<lambda>it. it_action it \<noteq> CapabilityActionDelete) items)"

definition set_checksum :: "string \<Rightarrow> session \<Rightarrow> session" where
  "set_checksum checksum se = (if checksum = [] then se
     else se\<lparr>se_cluster := (se_cluster se)\<lparr>cl_checksum := checksum\<rparr>\<rparr>)"

definition handle_capability_update ::
  "session \<Rightarrow> capability_update \<Rightarrow> ('a agents_db_scheme, session) dbm" where
  "handle_capability_update se upd =
     (let items = map_capability_update upd; org = cl_org (se_cluster se); cid = cl_id (se_cluster se)
      in if \<not> cu_full upd then
           thenE (ingest org cid items (if se_keep se \<noteq> None then [] else cu_checksum upd))
             (ret (case se_keep se of
                Some keep \<Rightarrow> se\<lparr>se_keep := Some (union_keep items keep)\<rparr>
              | None \<Rightarrow> set_checksum (cu_checksum upd) se))
         else bindE (ingest_chunk org cid items) (\<lambda>upserted.
           let keep = union_keep items (case se_keep se of None \<Rightarrow> [] | Some k \<Rightarrow> k);
               n = se_upserted se + upserted
           in if cu_caps upd \<noteq> [] then ret (se\<lparr>se_keep := Some keep, se_upserted := n\<rparr>)
              else thenE (finalize_sync org cid keep (cu_checksum upd) n)
                     (ret (set_checksum (cu_checksum upd) (se\<lparr>se_keep := None, se_upserted := 0\<rparr>)))))"

datatype inbound =
    InPong
  | InCapability "capability_update option"
  | InStatus "wire_status option"
  | InAck bool "(string \<times> bool \<times> string) option"
  | InResyncResponse "string option"
  | InReportAddons "json list option"
  | InHandshake "(string \<times> string) option"
  | InUnknown

datatype outbound = OutResync | OutHandshake bool string

record in_event =
  in_seq :: int
  in_body :: inbound

record 's gateway =
  gw_status :: "(string \<Rightarrow> string \<Rightarrow> status_update \<Rightarrow> ('s, bool) dbm) option"
  gw_failures :: "(string \<Rightarrow> string \<Rightarrow> ('s, unit) dbm) option"
  gw_addons :: "(string \<Rightarrow> string \<Rightarrow> json list \<Rightarrow> ('s, unit) dbm) option"
  gw_recommended :: string

text \<open>The command id of an ack: the agent echoes the bare id, queued ids may carry a prefix.\<close>

fun resolve_prefixed :: "string \<Rightarrow> string list \<Rightarrow> ('a agents_db_scheme, string) dbm" where
  "resolve_prefixed i [] = ret i"
| "resolve_prefixed i (p # ps) =
     catchE (thenE (get_command (p @ i)) (ret (p @ i))) (\<lambda>_. resolve_prefixed i ps)"

definition resolve_command :: "string \<Rightarrow> ('a agents_db_scheme, string) dbm" where
  "resolve_command i = catchE (thenE (get_command i) (ret i))
     (\<lambda>_. resolve_prefixed i [''register-argocd-app:'', ''register-argocd-appset:'', ''register-argocd-app-manifest:''])"

definition handle_ack ::
  "'a agents_db_scheme gateway \<Rightarrow> bool \<Rightarrow> string \<Rightarrow> bool \<Rightarrow> string \<Rightarrow> ('a agents_db_scheme, unit) dbm" where
  "handle_ack gw nack i failed message =
     (let status = (if nack \<or> failed then CommandNacked else CommandAcked)
      in bindE (resolve_command i) (\<lambda>cid.
           thenE (complete cid status message)
             (case gw_failures gw of
                None \<Rightarrow> ret ()
              | Some mark \<Rightarrow>
                  if status = CommandNacked \<and> has_prefix cid ''register-argocd-app:''
                  then catchE (mark (trim_prefix cid ''register-argocd-app:'')
                         (if message = [] then ''agent failed to register the ArgoCD application'' else message))
                         (\<lambda>_. ret ())
                  else ret ())))"

text \<open>
  The type-specific part of \<open>handleEvent\<close>: the events to send, the session, and whether the
  heartbeat at the end of the function is reached. \<open>resync_type\<close> is the contract's name of the
  resync request event.
\<close>

definition handle_body ::
  "string \<Rightarrow> 'a agents_db_scheme gateway \<Rightarrow> session \<Rightarrow> inbound \<Rightarrow>
   ('a agents_db_scheme, outbound list \<times> session \<times> bool) dbm" where
  "handle_body resync_type gw se body = (let cid = cl_id (se_cluster se); org = cl_org (se_cluster se) in
     case body of
       InPong \<Rightarrow> ret ([], se, True)
     | InUnknown \<Rightarrow> ret ([], se, True)
     | InCapability None \<Rightarrow> ret ([], se, False)
     | InCapability (Some upd) \<Rightarrow> bindE (handle_capability_update se upd) (\<lambda>se'. ret ([], se', True))
     | InStatus None \<Rightarrow> ret ([], se, False)
     | InStatus (Some upd) \<Rightarrow> (case gw_status gw of
           None \<Rightarrow> ret ([], se, True)
         | Some sink \<Rightarrow> thenE (sink org cid (map_status_update upd)) (ret ([], se, True)))
     | InAck nack None \<Rightarrow> ret ([], se, False)
     | InAck nack (Some (i, failed, message)) \<Rightarrow> thenE (handle_ack gw nack i failed message) (ret ([], se, True))
     | InResyncResponse resp \<Rightarrow>
         bindE (case resp of
             None \<Rightarrow> ret se
           | Some checksum \<Rightarrow> if checksum = [] then ret se
               else thenE (set_capability_checksum cid checksum) (ret (set_checksum checksum se)))
           (\<lambda>se'. thenE (catchE (complete_pending_by_type cid resync_type ''resync completed'') (\<lambda>_. ret ()))
              (ret ([], se'\<lparr>se_resync := False\<rparr>, True)))
     | InReportAddons items \<Rightarrow> (case gw_addons gw of
           None \<Rightarrow> ret ([], se, False)
         | Some sink \<Rightarrow> (case items of
              None \<Rightarrow> ret ([], se, False)
            | Some is \<Rightarrow> thenE (sink org cid is) (ret ([], se, False))))
     | InHandshake None \<Rightarrow> ret ([], se, False)
     | InHandshake (Some (version, checksum)) \<Rightarrow>
         thenE (if version = [] then ret () else catchE (set_agent_version cid version) (\<lambda>_. ret ()))
           (let resync = (checksum \<noteq> [] \<and> cl_checksum (se_cluster se) \<noteq> [] \<and> checksum \<noteq> cl_checksum (se_cluster se))
            in if resync then ret ([OutHandshake True (gw_recommended gw), OutResync], se\<lparr>se_resync := True\<rparr>, True)
               else ret ([OutHandshake False (gw_recommended gw)], se, True)))"

definition track_sequence :: "session \<Rightarrow> int \<Rightarrow> outbound list \<times> session" where
  "track_sequence se sq =
     (if sq \<le> 0 then ([], se)
      else if se_expected se > 0 \<and> sq \<noteq> se_expected se \<and> \<not> se_resync se
      then ([OutResync], se\<lparr>se_resync := True, se_expected := sq + 1\<rparr>)
      else ([], se\<lparr>se_expected := sq + 1\<rparr>))"

definition handle_event ::
  "string \<Rightarrow> 'a agents_db_scheme gateway \<Rightarrow> session \<Rightarrow> in_event \<Rightarrow>
   ('a agents_db_scheme, outbound list \<times> session) dbm" where
  "handle_event resync_type gw se ev =
     (let (out0, se0) = track_sequence se (in_seq ev)
      in bindE (handle_body resync_type gw se0 (in_body ev)) (\<lambda>(out, se1, go).
           if \<not> go then ret (out0 @ out, se1)
           else bindE (asks clock) (\<lambda>now.
             if now - se_beat se1 > 15 * second
             then thenE (catchE (record_heartbeat (cl_id (se_cluster se1))) (\<lambda>_. ret ()))
                    (ret (out0 @ out, se1\<lparr>se_beat := now\<rparr>))
             else ret (out0 @ out, se1))))"

fun handle_events ::
  "string \<Rightarrow> 'a agents_db_scheme gateway \<Rightarrow> session \<Rightarrow> in_event list \<Rightarrow>
   ('a agents_db_scheme, outbound list \<times> session) dbm" where
  "handle_events rt gw se [] = ret ([], se)"
| "handle_events rt gw se (ev # evs) = bindE (handle_event rt gw se ev) (\<lambda>(out, se').
     bindE (handle_events rt gw se' evs) (\<lambda>(out', se''). ret (out @ out', se'')))"

section \<open>The registration exchange\<close>

record 's platform_seam =
  ps_render :: "string \<Rightarrow> string \<Rightarrow> string \<Rightarrow> ('s, unit) dbm"
  ps_ensure :: "string \<Rightarrow> string \<Rightarrow> string \<Rightarrow> ('s, unit) dbm"
  ps_mark :: "string \<Rightarrow> string \<Rightarrow> ('s, unit) dbm"

record secret_store =
  st_get :: "string \<Rightarrow> string \<Rightarrow> err + string option"
  st_put :: "string \<Rightarrow> string \<Rightarrow> string \<Rightarrow> err option"

record 's registrar =
  rg_registry :: "'s clusters_svc"
  rg_create_client :: "string \<Rightarrow> err + string"
  rg_client_secret :: "string \<Rightarrow> err + string"
  rg_tunnel_client :: "string \<Rightarrow> err + string"
  rg_dex_client :: "string \<Rightarrow> err + (string \<times> string)"
  rg_dex_enabled :: "string \<Rightarrow> bool"
  rg_new_secret :: "err + string"
  rg_render_dex :: "string \<Rightarrow> string \<Rightarrow> string \<Rightarrow> string \<Rightarrow> err + string"
  rg_platform :: "'s platform_seam option"
  rg_secrets :: "secret_store option"
  rg_secret_key :: string

record register_request =
  rr_token :: string
  rr_k8s :: string
  rr_agent :: string
  rr_labels :: "(string \<times> string) list"

record register_response =
  rs_cluster :: string
  rs_client :: string
  rs_tunnel :: string

definition TunnelSecretKey :: string where "TunnelSecretKey = ''tunnel-client-secret''"

definition cluster_oidc_path :: "string \<Rightarrow> string" where
  "cluster_oidc_path i = ''inari/clusters/'' @ trim_prefix i ''cluster:'' @ ''/oidc-client-secret''"

definition put_secret :: "secret_store \<Rightarrow> string \<Rightarrow> string \<Rightarrow> string \<Rightarrow> ('s, unit) dbm" where
  "put_secret st path key v = (case st_put st path key v of None \<Rightarrow> ret () | Some e \<Rightarrow> throw e)"

definition stable_static_secret :: "'s registrar \<Rightarrow> secret_store \<Rightarrow> string \<Rightarrow> err + string" where
  "stable_static_secret rg st path = (case st_get st path ''dex-argocd-client-secret'' of
      Inl e \<Rightarrow> Inl e
    | Inr (Some existing) \<Rightarrow> if existing \<noteq> [] then Inr existing else rg_new_secret rg
    | Inr None \<Rightarrow> rg_new_secret rg)"

definition provision_dex :: "'s registrar \<Rightarrow> secret_store \<Rightarrow> cluster \<Rightarrow> ('s, unit) dbm" where
  "provision_dex rg st c = bindE (lift_sum (rg_dex_client rg (cl_id c))) (\<lambda>(client, secret).
     bindE (lift_sum (stable_static_secret rg st (cluster_oidc_path (cl_id c)))) (\<lambda>static.
       bindE (lift_sum (rg_render_dex rg (cl_id c) client secret static)) (\<lambda>yaml.
         thenE (put_secret st (cluster_oidc_path (cl_id c)) ''dex-config-yaml'' yaml)
               (put_secret st (cluster_oidc_path (cl_id c)) ''dex-argocd-client-secret'' static))))"

text \<open>Everything before the token is burned: identities provisioned and secrets delivered.\<close>

definition provision_identity ::
  "'a agents_db_scheme registrar \<Rightarrow> cluster \<Rightarrow> ('a agents_db_scheme, string \<times> string) dbm" where
  "provision_identity rg c = bindE (lift_sum (rg_create_client rg (cl_id c))) (\<lambda>client.
     thenE (case rg_platform rg of None \<Rightarrow> ret ()
            | Some p \<Rightarrow> thenE (ps_render p (cl_org c) (cl_id c) client) (ps_ensure p (cl_org c) (cl_id c) client))
       (case rg_secrets rg of
          None \<Rightarrow> throw (ErrExternal ''pending_secret_delivery: platform secret store not configured'')
        | Some st \<Rightarrow> bindE (lift_sum (rg_client_secret rg client)) (\<lambda>secret.
            thenE (put_secret st (cluster_oidc_path (cl_id c)) (rg_secret_key rg) secret)
              (bindE (lift_sum (rg_tunnel_client rg (cl_id c))) (\<lambda>tunnel.
                bindE (lift_sum (rg_client_secret rg tunnel)) (\<lambda>tsecret.
                  thenE (put_secret st (cluster_oidc_path (cl_id c)) TunnelSecretKey tsecret)
                    (thenE (if rg_dex_enabled rg (cl_id c) then provision_dex rg st c else ret ())
                      (thenE (case rg_platform rg of None \<Rightarrow> ret ()
                              | Some p \<Rightarrow> catchE (ps_mark p (cl_org c) client) (\<lambda>_. ret ()))
                        (ret (client, tunnel))))))))))"

definition finish_registration ::
  "'a agents_db_scheme registrar \<Rightarrow> register_request \<Rightarrow> string \<Rightarrow> string \<Rightarrow> cluster \<Rightarrow>
   ('a agents_db_scheme, register_response) dbm" where
  "finish_registration rg req client tunnel c =
     thenE (mark_registered (''agent:'' @ cl_id c) (cl_id c) client (rr_k8s req) (rr_agent req)
              (if rr_labels req \<noteq> [] then rr_labels req else cl_labels c))
       (ret \<lparr>rs_cluster = cl_id c, rs_client = client, rs_tunnel = tunnel\<rparr>)"

definition register_cluster ::
  "'a agents_db_scheme registrar \<Rightarrow> register_request \<Rightarrow> ('a agents_db_scheme, register_response) dbm" where
  "register_cluster rg req =
     (if rr_token req = [] then throw (ErrMsg ''registration_token required'')
      else bindE (peek_registration_token (rg_registry rg) (rr_token req)) (\<lambda>c.
        bindE (provision_identity rg c) (\<lambda>(client, tunnel).
          bindE (consume_registration_token (rg_registry rg) (rr_token req))
            (finish_registration rg req client tunnel))))"

section \<open>Fencing\<close>

definition fenced :: "fence \<Rightarrow> bool" where
  "fenced f \<longleftrightarrow> (\<forall>c h. (c, h) \<in> fe_live f \<longrightarrow> fe_current f c = Some h) \<and> (\<forall>c h. fe_current f c = Some h \<longrightarrow> h < fe_next f)"

lemma fenced_register: "fenced f \<Longrightarrow> fenced (snd (register_session cluster f))"
  by (auto simp: fenced_def register_session_def Let_def less_Suc_eq split: option.splits)

lemma fenced_end: "fenced f \<Longrightarrow> fenced (end_session cluster h f)"
  by (auto simp: fenced_def end_session_def unregister_session_def Let_def)

lemma fence_step_fenced: "fence_step f f' \<Longrightarrow> fenced f \<Longrightarrow> fenced f'"
  by (induction rule: fence_step.induct) (auto intro: fenced_register fenced_end)

section \<open>The framed sync\<close>

fun handle_updates :: "session \<Rightarrow> capability_update list \<Rightarrow> ('a agents_db_scheme, session) dbm" where
  "handle_updates se [] = ret se"
| "handle_updates se (u # us) = bindE (handle_capability_update se u) (\<lambda>se'. handle_updates se' us)"

definition data_chunk :: "capability_update \<Rightarrow> bool" where
  "data_chunk u \<longleftrightarrow> cu_full u \<and> cu_caps u \<noteq> [] \<and> upserts (map_capability_update u)"

definition chunk_keys :: "capability_update list \<Rightarrow> cap_key set" where
  "chunk_keys us = (\<Union>u \<in> set us. item_key ` set (map_capability_update u))"

definition keep_set :: "session \<Rightarrow> cap_key set" where
  "keep_set se = (case se_keep se of None \<Rightarrow> {} | Some k \<Rightarrow> set k)"

lemma set_union_keep: "upserts items \<Longrightarrow> set (union_keep items keep) = set keep \<union> item_key ` set items"
  by (auto simp: union_keep_def upserts_def)

lemma data_chunk_step:
  assumes "data_chunk u" and "handle_capability_update se u s = (r, s')"
  shows "live_keys (cl_id (se_cluster se)) s \<subseteq> live_keys (cl_id (se_cluster se)) s'
    \<and> (\<forall>se'. r = Inr se' \<longrightarrow> se_cluster se' = se_cluster se
        \<and> keep_set se' = keep_set se \<union> chunk_keys [u]
        \<and> moves_live (cl_id (se_cluster se)) (\<lambda>K. chunk_keys [u] \<union> K) s s')"
proof -
  let ?items = "map_capability_update u" and ?cid = "cl_id (se_cluster se)"
  obtain q s1 where q: "ingest_chunk (cl_org (se_cluster se)) ?cid ?items s = (q, s1)" by fastforce
  from assms have full: "cu_full u" "cu_caps u \<noteq> []" and ups: "upserts ?items" by (auto simp: data_chunk_def)
  show ?thesis
  proof (cases q)
    case (Inl e)
    with q assms(2) full have "s' = s1" and "r = Inl e"
      by (simp_all add: handle_capability_update_def Let_def bindE_def)
    with ingest_chunk_outcome [OF q] Inl show ?thesis by (simp add: moves_live_def)
  next
    case (Inr n)
    define keep where "keep = (case se_keep se of None \<Rightarrow> [] | Some k \<Rightarrow> k)"
    from Inr q assms(2) full have s': "s' = s1"
      and r: "r = Inr (se\<lparr>se_keep := Some (union_keep ?items keep), se_upserted := se_upserted se + n\<rparr>)"
      by (simp_all add: handle_capability_update_def Let_def bindE_def ret_def keep_def)
    have k: "set keep = keep_set se" by (simp add: keep_def keep_set_def split: option.splits)
    have keys: "chunk_keys [u] = item_key ` set ?items" by (simp add: chunk_keys_def)
    from ingest_chunk_outcome [OF q] Inr have m: "moves_live ?cid (\<lambda>K. chunk_keys [u] \<union> K) s s'"
      by (simp add: moves_live_def s' keys items_effect_upserts [OF ups])
    then have "live_keys ?cid s \<subseteq> live_keys ?cid s'" by (simp add: moves_live_def)
    moreover have "keep_set (se\<lparr>se_keep := Some (union_keep ?items keep), se_upserted := se_upserted se + n\<rparr>)
        = keep_set se \<union> chunk_keys [u]"
      by (simp add: keep_set_def [of "se\<lparr>se_keep := _, se_upserted := _\<rparr>"] set_union_keep [OF ups] k keys)
    ultimately show ?thesis using m by (simp add: r)
  qed
qed

lemma handle_chunks:
  "\<forall>u \<in> set us. data_chunk u \<Longrightarrow> handle_updates se us s = (r, s') \<Longrightarrow>
   live_keys (cl_id (se_cluster se)) s \<subseteq> live_keys (cl_id (se_cluster se)) s'
    \<and> (\<forall>se'. r = Inr se' \<longrightarrow> se_cluster se' = se_cluster se
        \<and> keep_set se' = keep_set se \<union> chunk_keys us
        \<and> moves_live (cl_id (se_cluster se)) (\<lambda>K. chunk_keys us \<union> K) s s')"
proof (induction us arbitrary: se s)
  case Nil
  then show ?case by (auto simp: ret_def chunk_keys_def moves_live_def)
next
  case (Cons u us)
  obtain q s1 where q: "handle_capability_update se u s = (q, s1)" by fastforce
  from Cons.prems(1) have u: "data_chunk u" and us: "\<forall>u \<in> set us. data_chunk u" by simp_all
  note step = data_chunk_step [OF u q]
  show ?case
  proof (cases q)
    case (Inl e)
    with q Cons.prems(2) have "r = Inl e" and "s' = s1" by (simp_all add: bindE_def)
    with step show ?thesis by simp
  next
    case (Inr se1)
    with q Cons.prems(2) have run: "handle_updates se1 us s1 = (r, s')" by (simp add: bindE_def)
    from step Inr have live: "live_keys (cl_id (se_cluster se)) s \<subseteq> live_keys (cl_id (se_cluster se)) s1"
      and cl: "se_cluster se1 = se_cluster se" and kp: "keep_set se1 = keep_set se \<union> chunk_keys [u]"
      and mv: "moves_live (cl_id (se_cluster se)) (\<lambda>K. chunk_keys [u] \<union> K) s s1" by blast+
    have keys: "chunk_keys (u # us) = chunk_keys us \<union> chunk_keys [u]" by (simp add: chunk_keys_def Un_commute)
    have comp: "(\<lambda>K. chunk_keys us \<union> K) \<circ> (\<lambda>K. chunk_keys [u] \<union> K) = (\<lambda>K. chunk_keys (u # us) \<union> K)"
      by (simp only: keys comp_def Un_assoc)
    note ih = Cons.IH [OF us run, unfolded cl kp]
    show ?thesis
    proof (intro conjI allI impI)
      show "live_keys (cl_id (se_cluster se)) s \<subseteq> live_keys (cl_id (se_cluster se)) s'"
        by (rule subset_trans [OF live conjunct1 [OF ih]])
    next
      fix se' assume r: "r = Inr se'"
      from ih [THEN conjunct2, rule_format, OF r]
      have f: "se_cluster se' = se_cluster se" "keep_set se' = keep_set se \<union> chunk_keys [u] \<union> chunk_keys us"
        "moves_live (cl_id (se_cluster se)) (\<lambda>K. chunk_keys us \<union> K) s1 s'" by blast+
      show "se_cluster se' = se_cluster se" by (rule f)
      show "keep_set se' = keep_set se \<union> chunk_keys (u # us)" by (simp only: f keys Un_ac)
      show "moves_live (cl_id (se_cluster se)) (\<lambda>K. chunk_keys (u # us) \<union> K) s s'"
        using moves_live_trans [OF mv f(3)] by (simp only: comp)
    qed
  qed
qed

lemma handle_updates_append:
  "handle_updates se (us @ vs) = bindE (handle_updates se us) (\<lambda>se'. handle_updates se' vs)"
  by (induction us arbitrary: se) (auto simp: bindE_def ret_def fun_eq_iff split: prod.splits sum.splits)

lemma terminal_step:
  assumes "cu_full t" and "cu_caps t = []" and "handle_capability_update se t s = (Inr se', s')"
  shows "moves_live (cl_id (se_cluster se)) (\<lambda>K. K \<inter> keep_set se) s s' \<and> se_keep se' = None
    \<and> (cu_checksum t \<noteq> [] \<longrightarrow>
        (\<forall>c \<in> set (clusters s'). cl_id c = cl_id (se_cluster se) \<longrightarrow> cl_checksum c = cu_checksum t))"
proof -
  let ?cid = "cl_id (se_cluster se)" and ?org = "cl_org (se_cluster se)"
  have items: "map_capability_update t = []" using assms(2) by (simp add: map_capability_update_def)
  from assms items obtain n s1 k d where 1: "ingest_chunk ?org ?cid [] s = (Inr n, s1)"
    and k: "k = (case se_keep se of None \<Rightarrow> [] | Some k \<Rightarrow> k)"
    and 2: "finalize_sync ?org ?cid k (cu_checksum t) (se_upserted se + n) s1 = (Inr d, s')"
    and se': "se' = set_checksum (cu_checksum t) (se\<lparr>se_keep := None, se_upserted := 0\<rparr>)"
    by (auto simp: handle_capability_update_def Let_def union_keep_def elim!: bindE_okE thenE_okE ret_okE)
  have "set k = keep_set se" by (simp add: k keep_set_def split: option.splits)
  with ingest_chunk_outcome [OF 1] finalize_sync_ok [OF 2] show ?thesis
    by (auto simp: moves_live_def se' set_checksum_def)
qed

section \<open>Properties\<close>

text \<open>
  (C8) A framed full sync is exact. When a session with no sync in flight handles data chunks and
  then the empty terminal chunk, the live capabilities of its cluster are exactly the keys the
  chunks named, those of every other cluster are untouched, and the checksum is recorded.
\<close>

theorem full_sync_exact:
  assumes "se_keep se = None" and "\<forall>u \<in> set chunks. data_chunk u" and "cu_full t" and "cu_caps t = []"
    and "handle_updates se (chunks @ [t]) s = (Inr se', s')"
  shows "live_keys (cl_id (se_cluster se)) s' = chunk_keys chunks
    \<and> other_caps (cl_id (se_cluster se)) s' = other_caps (cl_id (se_cluster se)) s
    \<and> se_keep se' = None
    \<and> (cu_checksum t \<noteq> [] \<longrightarrow>
        (\<forall>c \<in> set (clusters s'). cl_id c = cl_id (se_cluster se) \<longrightarrow> cl_checksum c = cu_checksum t))"
proof -
  from assms(5) obtain se1 s1 where 1: "handle_updates se chunks s = (Inr se1, s1)"
    and 2: "handle_capability_update se1 t s1 = (Inr se', s')"
    by (auto simp: handle_updates_append elim!: bindE_okE ret_okE)
  from handle_chunks [OF assms(2) 1] have cl: "se_cluster se1 = se_cluster se"
    and keep: "keep_set se1 = keep_set se \<union> chunk_keys chunks"
    and mv: "moves_live (cl_id (se_cluster se)) (\<lambda>K. chunk_keys chunks \<union> K) s s1" by blast+
  have "keep_set se = {}" using assms(1) by (simp add: keep_set_def)
  with keep have keep': "keep_set se1 = chunk_keys chunks" by simp
  note last = terminal_step [OF assms(3,4) 2, unfolded cl keep']
  have "live_keys (cl_id (se_cluster se)) s' = (chunk_keys chunks \<union> live_keys (cl_id (se_cluster se)) s) \<inter> chunk_keys chunks"
    using last mv by (simp add: moves_live_def)
  also have "\<dots> = chunk_keys chunks" by blast
  finally show ?thesis using last mv by (simp add: moves_live_def)
qed

text \<open>
  A dropped sync deletes nothing. Whatever prefix of data chunks is handled, and wherever the
  database fails, every capability of the cluster that was live stays live.
\<close>

theorem partial_sync_deletes_nothing:
  assumes "\<forall>u \<in> set chunks. data_chunk u" and "handle_updates se chunks s = (r, s')"
  shows "live_keys (cl_id (se_cluster se)) s \<subseteq> live_keys (cl_id (se_cluster se)) s'"
  by (rule conjunct1 [OF handle_chunks [OF assms]])

text \<open>
  Fencing. However sessions connect and end, a cluster has at most one session whose context is
  not cancelled, and it is the registered one: a late unregister of an evicted session never
  removes its replacement.
\<close>

theorem one_live_session:
  assumes "fence_step\<^sup>*\<^sup>* no_sessions f" and "(c, h1) \<in> fe_live f" and "(c, h2) \<in> fe_live f"
  shows "h1 = h2 \<and> fe_current f c = Some h1"
proof -
  from assms(1) have "fenced f"
  proof (induction rule: rtranclp_induct)
    case base
    show ?case by (simp add: fenced_def no_sessions_def)
  next
    case (step y z)
    from fence_step_fenced [OF step(2,3)] show ?case .
  qed
  then have "fe_current f c = Some h1" and "fe_current f c = Some h2"
    using assms(2,3) unfolding fenced_def by blast+
  then show ?thesis by simp
qed

definition seam_keeps_tokens :: "'a agents_db_scheme registrar \<Rightarrow> bool" where
  "seam_keeps_tokens rg \<longleftrightarrow> (\<forall>p. rg_platform rg = Some p \<longrightarrow>
     (\<forall>toks. (\<forall>a b c. preserves (\<lambda>s. reg_tokens s = toks) (ps_render p a b c))
       \<and> (\<forall>a b c. preserves (\<lambda>s. reg_tokens s = toks) (ps_ensure p a b c))
       \<and> (\<forall>a b. preserves (\<lambda>s. reg_tokens s = toks) (ps_mark p a b))))"

lemma tokens_are_tx_stable: "tx_stable (\<lambda>s. reg_tokens s = toks)"
  by (auto simp: tx_stable_def elim!: same_tablesE)

lemma put_secret_preserves [preserves_rules]: "preserves I (put_secret st path key v)"
  unfolding put_secret_def by (intro preserves_rules)

lemma provision_dex_preserves [preserves_rules]: "preserves I (provision_dex rg st c)"
  unfolding provision_dex_def split_def by (intro preserves_rules)

lemma provision_keeps_tokens:
  "seam_keeps_tokens rg \<Longrightarrow> preserves (\<lambda>s. reg_tokens s = toks) (provision_identity rg c)"
  unfolding provision_identity_def seam_keeps_tokens_def by (intro preserves_rules) auto

lemma peek_keeps_tokens: "preserves (\<lambda>s. reg_tokens s = toks) (peek_registration_token svc plain)"
  unfolding peek_registration_token_def
  by (intro preserves_rules no_live_admit read_only_preserves [OF tokens_are_tx_stable select_token_read_only]
      read_only_preserves [OF tokens_are_tx_stable get_cluster_read_only])

text \<open>
  A failed exchange keeps the token. When the registration exchange fails, either no token row
  has changed, or the token was exchanged and the failure is that of \<open>MarkRegistered\<close>, the
  one step after the burn.
\<close>

theorem failed_exchange_keeps_token:
  assumes "seam_keeps_tokens rg" and "register_cluster rg req s = (Inl e, s')"
  shows "reg_tokens s' = reg_tokens s \<or>
    (\<exists>c client tunnel s1 s2. consume_registration_token (rg_registry rg) (rr_token req) s1 = (Inr c, s2)
       \<and> finish_registration rg req client tunnel c s2 = (Inl e, s'))"
proof -
  let ?I = "\<lambda>s. reg_tokens s = reg_tokens (s :: 'a agents_db_scheme)"
  have pres: "reg_tokens t' = reg_tokens t" if "\<And>toks. preserves (\<lambda>s. reg_tokens s = toks) m" "m t = (r, t')" for m t r t'
    using preservesD [OF that(1) refl that(2)] .
  obtain p s1 where p: "peek_registration_token (rg_registry rg) (rr_token req) s = (p, s1)" by fastforce
  have t1: "reg_tokens s1 = reg_tokens s" by (rule pres [OF peek_keeps_tokens p])
  show ?thesis
  proof (cases "rr_token req = [] \<or> (\<exists>e. p = Inl e)")
    case True
    with assms(2) p t1 show ?thesis by (auto simp: register_cluster_def throw_def bindE_def split: if_splits)
  next
    case False
    then obtain c0 where c0: "p = Inr c0" and tok: "rr_token req \<noteq> []" by (cases p) auto
    obtain q s2 where q: "provision_identity rg c0 s1 = (q, s2)" by fastforce
    have t2: "reg_tokens s2 = reg_tokens s1" by (rule pres [OF provision_keeps_tokens [OF assms(1)] q])
    show ?thesis
    proof (cases q)
      case (Inl e')
      with assms(2) p c0 tok q t1 t2 show ?thesis by (simp add: register_cluster_def bindE_def)
    next
      case (Inr ct)
      obtain client tunnel where ct: "ct = (client, tunnel)" by fastforce
      obtain k s3 where k: "consume_registration_token (rg_registry rg) (rr_token req) s2 = (k, s3)" by fastforce
      show ?thesis
      proof (cases k)
        case (Inl e')
        with k have "same_tables s2 s3" unfolding consume_registration_token_def by (auto dest: with_tx_abort)
        then have "reg_tokens s3 = reg_tokens s2" by (auto elim!: same_tablesE)
        with assms(2) p c0 tok q Inr ct k Inl t1 t2 show ?thesis by (simp add: register_cluster_def bindE_def)
      next
        case (Inr c)
        with assms(2) p c0 tok q \<open>q = Inr ct\<close> ct k have "finish_registration rg req client tunnel c s3 = (Inl e, s')"
          by (simp add: register_cluster_def bindE_def)
        with k Inr show ?thesis by blast
      qed
    qed
  qed
qed

text \<open>
  Acknowledgements are not scoped to the session's cluster. On a healthy database an ack that
  arrives on the stream of one cluster for a command queued for another cluster marks that
  command acknowledged.
\<close>

theorem ack_crosses_clusters:
  assumes "faults s = []" and "select_row (\<lambda>c. cmd_id c = i) (agent_commands s) = Some c"
    and "cmd_cluster c \<noteq> cl_id (se_cluster se)" and "gw_failures gw = None"
  shows "\<exists>s' c'. handle_body rt gw se (InAck False (Some (i, False, msg))) s = (Inr ([], se, True), s')
    \<and> select_row (\<lambda>c. cmd_id c = i) (agent_commands s') = Some c'
    \<and> cmd_cluster c' \<noteq> cl_id (se_cluster se) \<and> cmd_status c' = CommandAcked"
proof -
  let ?f = "\<lambda>c. c\<lparr>cmd_status := CommandAcked, cmd_result := msg, cmd_updated := clock s\<rparr>"
  let ?s = "s\<lparr>agent_commands := update_rows (\<lambda>c. cmd_id c = i) ?f (agent_commands s)\<rparr>"
  have "resolve_command i s = (Inr i, s)" using assms(1,2)
    by (simp add: resolve_command_def catchE_def thenE_def bindE_def get_command_def ret_def)
  then have "handle_body rt gw se (InAck False (Some (i, False, msg))) s = (Inr ([], se, True), ?s)"
    using assms(1,4) by (simp add: handle_body_def handle_ack_def thenE_def bindE_def complete_def modify_def ret_def Let_def)
  moreover have "select_row (\<lambda>c. cmd_id c = i) (agent_commands ?s) = Some (?f c)"
    using assms(2) by (auto simp: select_row_update_key dest: select_row_SomeD)
  ultimately show ?thesis using assms(3) by (intro exI [of _ ?s] exI [of _ "?f c"]) simp
qed

section \<open>Witnesses\<close>

definition demo_cap :: "string \<Rightarrow> wire_cap" where
  "demo_cap n = \<lparr>wc_kind = WireCRD, wc_name = n, wc_group = ''g'', wc_version = ''v1'', wc_schema = JNull,
     wc_hints = JNull, wc_mode = WireModeOther 0, wc_action = WireActionOther 1\<rparr>"

definition demo_chunk :: "string list \<Rightarrow> string \<Rightarrow> capability_update" where
  "demo_chunk ns checksum = \<lparr>cu_full = True, cu_checksum = checksum, cu_caps = map demo_cap ns\<rparr>"

definition demo_session :: session where
  "demo_session = new_session 0 (demo_cluster ''c1'' ClusterActive)"

definition demo_sync_db :: agents_db where
  "demo_sync_db = demo_gdb\<lparr>capabilities := [new_cap 1 ''c1'' (map_cap (demo_cap ''old''))]\<rparr>"

lemma demo_chunks: "\<forall>u \<in> set [demo_chunk [''a''] [], demo_chunk [''b''] []]. data_chunk u"
  by (simp add: data_chunk_def demo_chunk_def upserts_def map_capability_update_def demo_cap_def map_cap_def
      CapabilityActionDelete_def CapabilityActionUpsert_def)

theorem full_sync_exact_witness:
  "live_keys ''c1'' (snd (handle_updates demo_session
      ([demo_chunk [''a''] [], demo_chunk [''b''] []] @ [demo_chunk [] ''sum'']) demo_sync_db))
   = {(''crd'', ''g'', ''a'', ''v1''), (''crd'', ''g'', ''b'', ''v1'')}"
proof -
  have k: "se_keep demo_session = None" and id: "cl_id (se_cluster demo_session) = ''c1''"
    by (simp_all add: demo_session_def new_session_def demo_cluster_def)
  have t: "cu_full (demo_chunk [] ''sum'')" "cu_caps (demo_chunk [] ''sum'') = []" by (simp_all add: demo_chunk_def)
  let ?run = "handle_updates demo_session ([demo_chunk [''a''] [], demo_chunk [''b''] []] @ [demo_chunk [] ''sum'']) demo_sync_db"
  have "map_sum (\<lambda>_. ()) (\<lambda>_. ()) (fst ?run) = Inr ()" by code_simp
  then obtain se' s' where run: "?run = (Inr se', s')" by (cases ?run; cases "fst ?run") auto
  have "map_capability_update (demo_chunk [n] []) = [map_cap (demo_cap n)]" for n
    by (simp add: map_capability_update_def demo_chunk_def demo_cap_def)
  then have "chunk_keys [demo_chunk [''a''] [], demo_chunk [''b''] []]
      = {item_key (map_cap (demo_cap ''a'')), item_key (map_cap (demo_cap ''b''))}"
    by (simp add: chunk_keys_def insert_commute)
  with full_sync_exact [OF k demo_chunks t run] run id show ?thesis
    by (simp add: demo_cap_def map_cap_def item_key_def)
qed

theorem partial_sync_deletes_nothing_witness:
  "(''crd'', ''g'', ''old'', ''v1'') \<in>
     live_keys ''c1'' (snd (handle_updates demo_session [demo_chunk [''a''] [], demo_chunk [''b''] []] demo_sync_db))"
proof -
  obtain r s' where run: "handle_updates demo_session [demo_chunk [''a''] [], demo_chunk [''b''] []] demo_sync_db = (r, s')"
    by fastforce
  have "(''crd'', ''g'', ''old'', ''v1'') \<in> live_keys (cl_id (se_cluster demo_session)) demo_sync_db"
    by (simp add: live_keys_iff live_row_def demo_sync_db_def demo_session_def new_session_def demo_cluster_def
        map_cap_def demo_cap_def item_key_def)
  with partial_sync_deletes_nothing [OF demo_chunks run] run
  show ?thesis by (auto simp: demo_session_def new_session_def demo_cluster_def)
qed

theorem one_live_session_witness:
  "fe_live (end_session ''c1'' 0 (snd (register_session ''c1'' (snd (register_session ''c1'' no_sessions))))) = {(''c1'', 1)}
   \<and> fe_current (end_session ''c1'' 0 (snd (register_session ''c1'' (snd (register_session ''c1'' no_sessions))))) ''c1'' = Some 1"
proof -
  let ?f = "end_session ''c1'' 0 (snd (register_session ''c1'' (snd (register_session ''c1'' no_sessions))))"
  let ?f1 = "snd (register_session ''c1'' no_sessions)"
  let ?f2 = "snd (register_session ''c1'' ?f1)"
  have "fence_step no_sessions ?f1" and "fence_step ?f1 ?f2" and "fence_step ?f2 ?f"
    by (rule fence_connect fence_end)+
  then have steps: "fence_step\<^sup>*\<^sup>* no_sessions ?f" by (meson rtranclp.rtrancl_into_rtrancl rtranclp.rtrancl_refl)
  have l: "fe_live ?f = {(''c1'', 1)}"
    by (auto simp: end_session_def unregister_session_def register_session_def no_sessions_def Let_def)
  then have "(''c1'', 1) \<in> fe_live ?f" by simp
  with one_live_session [OF steps this this] l show ?thesis by simp
qed

definition demo_registrar :: "agents_db registrar" where
  "demo_registrar = \<lparr>rg_registry = demo_csvc, rg_create_client = (\<lambda>i. Inr (''client-'' @ i)),
     rg_client_secret = (\<lambda>c. Inr ''s''), rg_tunnel_client = (\<lambda>i. Inr (''tunnel-'' @ i)),
     rg_dex_client = (\<lambda>i. Inr (''dex'', ''s'')), rg_dex_enabled = (\<lambda>i. True), rg_new_secret = Inr ''n'',
     rg_render_dex = (\<lambda>i c s t. Inr ''yaml''), rg_platform = None,
     rg_secrets = Some \<lparr>st_get = (\<lambda>p k. Inr None), st_put = (\<lambda>p k v. Some (ErrExternal ''vault down''))\<rparr>,
     rg_secret_key = ''client-secret''\<rparr>"

definition demo_register :: register_request where
  "demo_register = \<lparr>rr_token = ''1'', rr_k8s = ''1.30'', rr_agent = ''v1.2.0'', rr_labels = []\<rparr>"

theorem failed_exchange_keeps_token_witness:
  "fst (register_cluster demo_registrar demo_register demo_gdb) = Inl (ErrExternal ''vault down'')
   \<and> (reg_tokens (snd (register_cluster demo_registrar demo_register demo_gdb)) = reg_tokens demo_gdb
      \<or> (\<exists>c client tunnel s1 s2. consume_registration_token demo_csvc ''1'' s1 = (Inr c, s2)
          \<and> finish_registration demo_registrar demo_register client tunnel c s2 =
              (Inl (ErrExternal ''vault down''), snd (register_cluster demo_registrar demo_register demo_gdb))))"
proof -
  have f: "fst (register_cluster demo_registrar demo_register demo_gdb) = Inl (ErrExternal ''vault down'')" by code_simp
  then obtain s' where run: "register_cluster demo_registrar demo_register demo_gdb = (Inl (ErrExternal ''vault down''), s')"
    by (metis prod.collapse)
  have "seam_keeps_tokens demo_registrar" by (simp add: seam_keeps_tokens_def demo_registrar_def)
  from failed_exchange_keeps_token [OF this run] run show ?thesis
    by (simp add: demo_registrar_def demo_register_def)
qed

theorem ack_crosses_clusters_witness:
  "\<exists>s' c'. handle_body ''rt'' \<lparr>gw_status = None, gw_failures = None, gw_addons = None, gw_recommended = []\<rparr>
      (new_session 0 (demo_cluster ''c9'' ClusterActive)) (InAck False (Some (''k1'', False, ''ok''))) demo_gdb
      = (Inr ([], new_session 0 (demo_cluster ''c9'' ClusterActive), True), s')
    \<and> select_row (\<lambda>c. cmd_id c = ''k1'') (agent_commands s') = Some c' \<and> cmd_status c' = CommandAcked"
proof -
  have f: "faults demo_gdb = []" by (simp add: demo_gdb_def)
  have c: "select_row (\<lambda>c. cmd_id c = ''k1'') (agent_commands demo_gdb) = Some (demo_command ''k1'' ''c1'' CommandDelivered 10)"
    by (simp add: demo_gdb_def select_row_def demo_command_def)
  have n: "cmd_cluster (demo_command ''k1'' ''c1'' CommandDelivered 10)
      \<noteq> cl_id (se_cluster (new_session 0 (demo_cluster ''c9'' ClusterActive)))"
    by (simp add: demo_command_def new_session_def demo_cluster_def)
  have g: "gw_failures \<lparr>gw_status = None, gw_failures = None, gw_addons = None, gw_recommended = []\<rparr> = None" by simp
  from ack_crosses_clusters [OF f c n g] show ?thesis by blast
qed

end
