(* ===== verification/Fleet.thy ===== *)
theory Fleet
  imports ClusterRegistry "HOL-Library.List_Lexorder" "HOL-Library.Char_ord"
begin

text \<open>
  The fleet manager (internal/fleetmanager) without rollouts and drift: cluster sets and their
  members, agent channels, the agent version skew and the bulk operations; and the tables and
  the service record the theories Rollouts and Drift share.

  The seams of the Go service are fields of \<open>fleet_svc\<close>. The cluster lister has its contract
  in the locale \<open>cluster_lister\<close>, the command queue in \<open>command_queue\<close> (AgentQueue). The semantic
  versions of github.com/blang/semver are parameters of the functions that use them.
\<close>

section \<open>Rows\<close>

record cluster_set =
  cs_id :: string
  cs_org :: string
  cs_name :: string
  cs_selector :: "(string \<times> string) list"
  cs_created :: int

record stage_gate =
  sg_type :: string
  sg_wait :: int

record rollout_stage =
  st_name :: string
  st_sets :: "string list"
  st_max :: string
  st_before :: "stage_gate option"
  st_after :: "stage_gate option"

record gate_context =
  gc_gate :: string
  gc_type :: string
  gc_wait :: int
  gc_approval :: string
  gc_entered :: int

datatype rollout_state = RolloutStatePending | RolloutStateRunning | RolloutStateWaitingGate
  | RolloutStatePaused | RolloutStateFailed | RolloutStateCompleted | RolloutStateRolledBack

record rollout =
  ro_id :: string
  ro_org :: string
  ro_name :: string
  ro_kind :: string
  ro_target :: string
  ro_version :: string
  ro_stages :: "rollout_stage list"
  ro_state :: rollout_state
  ro_stage :: nat
  ro_gate :: "gate_context option"
  ro_created_by :: string
  ro_created :: int
  ro_updated :: int

datatype target_status = RolloutTargetPending | RolloutTargetDelivered | RolloutTargetHealthy
  | RolloutTargetFailed

text \<open>One cluster's progress through one stage; the first three columns are the primary key.\<close>

record rollout_target =
  rg_rollout :: string
  rg_cluster :: string
  rg_stage :: nat
  rg_status :: target_status
  rg_command :: string
  rg_health :: string
  rg_updated :: int

record agent_channel =
  ch_id :: string
  ch_org :: string
  ch_set :: string
  ch_channel :: string
  ch_version :: string
  ch_created :: int
  ch_updated :: int

datatype drift_status = DriftOpen | DriftResolved

record drift_event =
  dr_id :: string
  dr_org :: string
  dr_cluster :: string
  dr_kind :: string
  dr_ref :: string
  dr_desired :: string
  dr_reported :: string
  dr_detail :: string
  dr_status :: drift_status
  dr_detected :: int

record fleet_db = agents_db +
  cluster_sets :: "cluster_set list"
  rollouts :: "rollout list"
  rollout_targets :: "rollout_target list"
  agent_channels :: "agent_channel list"
  drift_events :: "drift_event list"
  resource_instances :: "resource_instance list"

text \<open>The service: nil seams of the Go struct are \<open>None\<close>.\<close>

record 's fleet_svc =
  fs_clusters :: "string \<Rightarrow> ('s, cluster list) dbm"
  fs_queue :: "agent_command \<Rightarrow> ('s, unit) dbm"
  fs_gates :: "(lifecycle_input \<Rightarrow> ('s, approval_request) dbm) option"
  fs_decider :: "(string \<Rightarrow> string \<Rightarrow> string \<Rightarrow> bool \<Rightarrow> string \<Rightarrow> ('s, approval_request) dbm) option"
  fs_assigner :: "(string \<Rightarrow> string \<Rightarrow> string \<Rightarrow> string \<Rightarrow> string \<Rightarrow> ('s, unit) dbm) option"
  fs_pinner :: "(string \<Rightarrow> string \<Rightarrow> string \<Rightarrow> string \<Rightarrow> ('s, unit) dbm) option"

lemma logged_fleet [simp]:
  "cluster_sets (logged ev org typ p s) = cluster_sets s" "rollouts (logged ev org typ p s) = rollouts s"
  "rollout_targets (logged ev org typ p s) = rollout_targets s" "agent_channels (logged ev org typ p s) = agent_channels s"
  "drift_events (logged ev org typ p s) = drift_events s"
  "resource_instances (logged ev org typ p s) = resource_instances s"
  by (simp_all add: logged_def)

section \<open>Cluster sets\<close>

definition create_cluster_set_row :: "cluster_set \<Rightarrow> ('a fleet_db_scheme, cluster_set) dbm" where
  "create_cluster_set_row cs = sql (\<lambda>s.
     if \<exists>r \<in> set (cluster_sets s). cs_id r = cs_id cs \<or> (cs_org r = cs_org cs \<and> cs_name r = cs_name cs)
     then (Inl (ErrUnique ''cluster_sets''), s)
     else (Inr (cs\<lparr>cs_created := clock s\<rparr>), s\<lparr>cluster_sets := cluster_sets s @ [cs\<lparr>cs_created := clock s\<rparr>]\<rparr>))"

definition get_cluster_set_row :: "string \<Rightarrow> ('a fleet_db_scheme, cluster_set) dbm" where
  "get_cluster_set_row i = sql (\<lambda>s. case select_row (\<lambda>c. cs_id c = i) (cluster_sets s) of
      None \<Rightarrow> (Inl FleetNotFound, s) | Some cs \<Rightarrow> (Inr cs, s))"

definition list_cluster_sets :: "string \<Rightarrow> ('a fleet_db_scheme, cluster_set list) dbm" where
  "list_cluster_sets org = sql (asks (\<lambda>s.
     sort_key cs_created (filter (\<lambda>c. cs_org c = org) (cluster_sets s))))"

text \<open>The channels of a deleted set go with it (\<open>ON DELETE CASCADE\<close>).\<close>

definition delete_cluster_set_row :: "string \<Rightarrow> ('a fleet_db_scheme, unit) dbm" where
  "delete_cluster_set_row i = sql (\<lambda>s.
     if rows_affected (\<lambda>c. cs_id c = i) (cluster_sets s) = 0 then (Inl FleetNotFound, s)
     else (Inr (), s\<lparr>cluster_sets := filter (\<lambda>c. cs_id c \<noteq> i) (cluster_sets s),
                    agent_channels := filter (\<lambda>c. ch_set c \<noteq> i) (agent_channels s)\<rparr>))"

definition cluster_set_payload :: "string \<Rightarrow> string \<Rightarrow> json" where
  "cluster_set_payload org i = JObj [(''orgId'', JStr org), (''clusterSetId'', JStr i)]"

definition create_cluster_set ::
  "string \<Rightarrow> string \<Rightarrow> string \<Rightarrow> (string \<times> string) list \<Rightarrow> ('a fleet_db_scheme, cluster_set) dbm" where
  "create_cluster_set actor org name selector =
     (if name = [] then throw FleetInvalidInput
      else bindE new_uuid (\<lambda>u.
        with_tx (bindE (create_cluster_set_row
            \<lparr>cs_id = ''clusterset:'' @ u, cs_org = org, cs_name = name, cs_selector = selector, cs_created = 0\<rparr>)
          (\<lambda>cs. thenE (emit (audit_ev org actor ''cluster_set.created'' ''cluster_set'' (cs_id cs) JNull) org
                          ''cluster_set.created'' (cluster_set_payload org (cs_id cs)))
                      (ret cs)))))"

definition get_cluster_set :: "string \<Rightarrow> string \<Rightarrow> ('a fleet_db_scheme, cluster_set) dbm" where
  "get_cluster_set org i = bindE (get_cluster_set_row i) (\<lambda>cs.
     if cs_org cs \<noteq> org then throw FleetNotFound else ret cs)"

definition delete_cluster_set :: "string \<Rightarrow> string \<Rightarrow> string \<Rightarrow> ('a fleet_db_scheme, unit) dbm" where
  "delete_cluster_set actor org i = thenE (get_cluster_set org i)
     (with_tx (thenE (delete_cluster_set_row i)
        (emit (audit_ev org actor ''cluster_set.deleted'' ''cluster_set'' i JNull) org
           ''cluster_set.deleted'' (cluster_set_payload org i))))"

text \<open>A missing key of a Go map reads as the empty string.\<close>

definition label_value :: "(string \<times> string) list \<Rightarrow> string \<Rightarrow> string" where
  "label_value labels k = (case map_of labels k of None \<Rightarrow> [] | Some v \<Rightarrow> v)"

definition matches_selector :: "(string \<times> string) list \<Rightarrow> (string \<times> string) list \<Rightarrow> bool" where
  "matches_selector labels selector = list_all (\<lambda>(k, v). label_value labels k = v) selector"

definition resolve_clusters ::
  "'s fleet_svc \<Rightarrow> string \<Rightarrow> (string \<times> string) list \<Rightarrow> ('s, cluster list) dbm" where
  "resolve_clusters svc org selector = bindE (fs_clusters svc org) (\<lambda>cs.
     ret (filter (\<lambda>c. matches_selector (cl_labels c) selector) cs))"

definition cluster_set_members ::
  "'a fleet_db_scheme fleet_svc \<Rightarrow> string \<Rightarrow> string \<Rightarrow> ('a fleet_db_scheme, cluster list) dbm" where
  "cluster_set_members svc org i = bindE (get_cluster_set org i) (\<lambda>cs.
     resolve_clusters svc org (cs_selector cs))"

definition query_clusters ::
  "'s fleet_svc \<Rightarrow> string \<Rightarrow> (string \<times> string) list \<Rightarrow> ('s, cluster list) dbm" where
  "query_clusters svc org selector = resolve_clusters svc org selector"

section \<open>Agent channels\<close>

definition AgentChannelStable :: string where "AgentChannelStable = ''stable''"
definition AgentChannelCanary :: string where "AgentChannelCanary = ''canary''"

text \<open>\<open>ON CONFLICT (cluster_set_id, channel)\<close>: the row keeps its id, its org and its age.\<close>

definition upsert_channel :: "agent_channel \<Rightarrow> ('a fleet_db_scheme, agent_channel) dbm" where
  "upsert_channel c = sql (\<lambda>s.
     let same = (\<lambda>r. ch_set r = ch_set c \<and> ch_channel r = ch_channel c)
     in if ch_set c \<notin> cs_id ` set (cluster_sets s) then (Inl (ErrMsg ''agent_channels_cluster_set_id_fkey''), s)
        else case select_row same (agent_channels s) of
          Some old \<Rightarrow> (Inr (c\<lparr>ch_created := ch_created old, ch_updated := clock s\<rparr>),
             s\<lparr>agent_channels := update_rows same (\<lambda>r. r\<lparr>ch_version := ch_version c, ch_updated := clock s\<rparr>)
                                  (agent_channels s)\<rparr>)
        | None \<Rightarrow> (Inr (c\<lparr>ch_created := clock s, ch_updated := clock s\<rparr>),
             s\<lparr>agent_channels := agent_channels s @ [c\<lparr>ch_created := clock s, ch_updated := clock s\<rparr>]\<rparr>))"

definition set_agent_channel ::
  "string \<Rightarrow> string \<Rightarrow> string \<Rightarrow> string \<Rightarrow> string \<Rightarrow> ('a fleet_db_scheme, agent_channel) dbm" where
  "set_agent_channel actor org set_id channel version =
     (if channel \<noteq> AgentChannelStable \<and> channel \<noteq> AgentChannelCanary then throw FleetInvalidInput
      else if version = [] then throw FleetInvalidInput
      else thenE (get_cluster_set org set_id) (bindE new_uuid (\<lambda>u.
        with_tx (bindE (upsert_channel
            \<lparr>ch_id = ''agentchannel:'' @ u, ch_org = org, ch_set = set_id, ch_channel = channel,
             ch_version = version, ch_created = 0, ch_updated = 0\<rparr>)
          (\<lambda>c. thenE (record_audit (audit_ev org actor ''agent_channel.set'' ''cluster_set'' set_id
                         (JObj [(''channel'', JStr channel), (''version'', JStr version)])))
                     (ret c))))))"

definition list_agent_channels :: "string \<Rightarrow> ('a fleet_db_scheme, agent_channel list) dbm" where
  "list_agent_channels org = sql (asks (\<lambda>s.
     sort_key ch_created (filter (\<lambda>c. ch_org c = org) (agent_channels s))))"

section \<open>The agent version skew\<close>

definition parse_major_minor :: "string \<Rightarrow> (int \<times> int) option" where
  "parse_major_minor v =
     (case split_on (CHR ''.'') (trim_prefix (trim_space v) ''v'') of
        a # b # _ \<Rightarrow> (case (atoi a, atoi b) of (Some mj, Some mn) \<Rightarrow> Some (mj, mn) | _ \<Rightarrow> None)
      | _ \<Rightarrow> None)"

definition supported_agent_version :: "string \<Rightarrow> string \<Rightarrow> bool" where
  "supported_agent_version current reported =
     (case parse_major_minor current of
        None \<Rightarrow> False
      | Some (cur_maj, cur_min) \<Rightarrow>
          (case parse_major_minor reported of
             None \<Rightarrow> False
           | Some (rep_maj, rep_min) \<Rightarrow>
               rep_maj = cur_maj \<and> (rep_min = cur_min \<or> rep_min = cur_min - 1)))"

definition supported_agent_version_in_range ::
  "(string \<Rightarrow> err + ('v \<Rightarrow> bool)) \<Rightarrow> (string \<Rightarrow> err + 'v) \<Rightarrow> string \<Rightarrow> string \<Rightarrow> err + bool" where
  "supported_agent_version_in_range parse_range parse_tolerant range_expr reported =
     (case parse_range range_expr of
        Inl e \<Rightarrow> Inl e
      | Inr rng \<Rightarrow> (case parse_tolerant reported of Inl e \<Rightarrow> Inl e | Inr v \<Rightarrow> Inr (rng v)))"

definition agent_supported ::
  "(string \<Rightarrow> err + ('v \<Rightarrow> bool)) \<Rightarrow> (string \<Rightarrow> err + 'v) \<Rightarrow> string \<Rightarrow> string \<Rightarrow> string \<Rightarrow> bool" where
  "agent_supported parse_range parse_tolerant supported_range current reported =
     (if supported_range \<noteq> [] then
        (case supported_agent_version_in_range parse_range parse_tolerant supported_range reported of
           Inl _ \<Rightarrow> False | Inr ok \<Rightarrow> ok)
      else if current = [] then True
      else supported_agent_version current reported)"

definition upgrade_available ::
  "(string \<Rightarrow> err + 'v) \<Rightarrow> ('v \<Rightarrow> 'v \<Rightarrow> bool) \<Rightarrow> string \<Rightarrow> string \<Rightarrow> bool" where
  "upgrade_available parse_tolerant lt recommended reported =
     (if recommended = [] \<or> reported = [] then False
      else (case parse_tolerant recommended of
          Inl _ \<Rightarrow> False
        | Inr rec \<Rightarrow> (case parse_tolerant reported of Inl _ \<Rightarrow> False | Inr rep \<Rightarrow> lt rep rec)))"

section \<open>Bulk operations\<close>

record bulk_item_result =
  bi_id :: string
  bi_ok :: bool
  bi_error :: "err option"

text \<open>The loop of the three operations: one call per item, whose failure is the item's result.\<close>

fun bulk_each :: "(string \<Rightarrow> ('s, 'a) dbm) \<Rightarrow> string list \<Rightarrow> ('s, bulk_item_result list) dbm" where
  "bulk_each f [] = ret []"
| "bulk_each f (i # is) = (\<lambda>s.
     let (r, s1) = f i s;
         res = (case r of Inl e \<Rightarrow> \<lparr>bi_id = i, bi_ok = False, bi_error = Some e\<rparr>
                        | Inr _ \<Rightarrow> \<lparr>bi_id = i, bi_ok = True, bi_error = None\<rparr>)
     in bindE (bulk_each f is) (\<lambda>rs. ret (res # rs)) s1)"

definition bulk_decide_approvals ::
  "'s fleet_svc \<Rightarrow> string \<Rightarrow> string \<Rightarrow> string list \<Rightarrow> bool \<Rightarrow> string \<Rightarrow> ('s, bulk_item_result list) dbm" where
  "bulk_decide_approvals svc org approver ids approve reason =
     (case fs_decider svc of
        None \<Rightarrow> throw (ErrMsg ''approvals seam not wired'')
      | Some dec \<Rightarrow> if ids = [] then throw FleetInvalidInput
                 else bulk_each (\<lambda>i. dec org i approver approve reason) ids)"

definition bulk_assign_policy ::
  "'s fleet_svc \<Rightarrow> string \<Rightarrow> string \<Rightarrow> string \<Rightarrow> string list \<Rightarrow> ('s, bulk_item_result list) dbm" where
  "bulk_assign_policy svc actor org pack set_ids =
     (case fs_assigner svc of
        None \<Rightarrow> throw (ErrMsg ''policy seam not wired'')
      | Some assign \<Rightarrow> if set_ids = [] then throw FleetInvalidInput
                    else bulk_each (\<lambda>i. assign actor org pack ''clusterset'' i) set_ids)"

definition bulk_pin_catalog ::
  "'s fleet_svc \<Rightarrow> string \<Rightarrow> string \<Rightarrow> string list \<Rightarrow> string \<Rightarrow> ('s, bulk_item_result list) dbm" where
  "bulk_pin_catalog svc actor org item_ids version =
     (case fs_pinner svc of
        None \<Rightarrow> throw (ErrMsg ''catalog seam not wired'')
      | Some pin \<Rightarrow> if item_ids = [] \<or> version = [] then throw FleetInvalidInput
                 else bulk_each (\<lambda>i. pin actor org i version) item_ids)"

section \<open>Members of a cluster set\<close>

text \<open>The cluster lister's contract: the clusters of the org and no others, by a read.\<close>

locale cluster_lister =
  fixes lister :: "string \<Rightarrow> ('a fleet_db_scheme, cluster list) dbm"
  assumes reads: "read_only (lister org)"
    and exact: "lister org s = (Inr cs, s') \<Longrightarrow> set cs = {c \<in> set (clusters s). cl_org c = org}"
begin

lemma resolve_exact:
  assumes "fs_clusters svc = lister" and "resolve_clusters svc org selector s = (Inr cs, s')"
  shows "set cs = {c \<in> set (clusters s). cl_org c = org \<and> matches_selector (cl_labels c) selector}"
  using assms(2) unfolding resolve_clusters_def assms(1) by (auto elim!: bindE_okE ret_okE dest: exact)

lemma resolve_read_only: "fs_clusters svc = lister \<Longrightarrow> read_only (resolve_clusters svc org selector)"
  unfolding resolve_clusters_def by (simp add: read_only_bindE reads)

end

interpretation registry_lister: cluster_lister list_clusters
proof
  fix org :: string
  show "read_only (list_clusters org :: ('a fleet_db_scheme, cluster list) dbm)"
    unfolding list_clusters_def by (rule read_only_sql) simp
next
  fix org cs and s s' :: "'a fleet_db_scheme"
  assume "list_clusters org s = (Inr cs, s')"
  then show "set cs = {c \<in> set (clusters s). cl_org c = org}"
    unfolding list_clusters_def by (auto elim!: sql_okE simp: asks_def)
qed

lemma get_cluster_set_row_read_only: "read_only (get_cluster_set_row i)"
  unfolding get_cluster_set_row_def by (rule read_only_sql) (auto simp: read_only_def split: option.splits)

lemma get_cluster_set_read_only: "read_only (get_cluster_set org i)"
  unfolding get_cluster_set_def by (rule read_only_bindE [OF get_cluster_set_row_read_only]) simp

lemma get_cluster_set_okE:
  assumes "get_cluster_set org i s = (Inr cs, s')"
  obtains "select_row (\<lambda>c. cs_id c = i) (cluster_sets s) = Some cs" "cs_org cs = org" "same_tables s s'"
proof -
  have ro: "same_tables s s'" using assms get_cluster_set_read_only by (blast dest: read_onlyD)
  from assms obtain cs0 s1 where 1: "get_cluster_set_row i s = (Inr cs0, s1)"
    and 2: "(if cs_org cs0 \<noteq> org then throw FleetNotFound else ret cs0) s1 = (Inr cs, s')"
    unfolding get_cluster_set_def by (rule bindE_okE)
  from 1 have "select_row (\<lambda>c. cs_id c = i) (cluster_sets s) = Some cs0"
    unfolding get_cluster_set_row_def by (auto elim!: sql_okE split: option.splits)
  moreover from 2 have "cs = cs0 \<and> cs_org cs = org" by (auto simp: throw_def ret_def split: if_splits)
  ultimately show ?thesis using ro that by blast
qed

lemma get_cluster_set_healthy:
  "faults s = [] \<Longrightarrow> select_row (\<lambda>c. cs_id c = i) (cluster_sets s) = Some cs \<Longrightarrow> cs_org cs = org \<Longrightarrow>
   get_cluster_set org i s = (Inr cs, s)"
  by (simp add: get_cluster_set_def get_cluster_set_row_def bindE_def ret_def)

lemma cluster_set_members_okE:
  assumes "fs_clusters svc = list_clusters"
    and "cluster_set_members svc org i s = (Inr cs, s')"
  obtains cset where "select_row (\<lambda>c. cs_id c = i) (cluster_sets s) = Some cset" "cs_org cset = org"
    and "set cs = {c \<in> set (clusters s). cl_org c = org \<and> matches_selector (cl_labels c) (cs_selector cset)}"
    and "same_tables s s'"
proof -
  from assms(2) obtain cset s1 where 1: "get_cluster_set org i s = (Inr cset, s1)"
    and 2: "resolve_clusters svc org (cs_selector cset) s1 = (Inr cs, s')"
    unfolding cluster_set_members_def by (rule bindE_okE)
  from 1 have sel: "select_row (\<lambda>c. cs_id c = i) (cluster_sets s) = Some cset" "cs_org cset = org"
    and st: "same_tables s s1" by (auto elim: get_cluster_set_okE)
  from st have "clusters s1 = clusters s" by (auto elim!: same_tablesE)
  with registry_lister.resolve_exact [OF assms(1) 2]
  have "set cs = {c \<in> set (clusters s). cl_org c = org \<and> matches_selector (cl_labels c) (cs_selector cset)}" by simp
  moreover have "same_tables s s'"
    by (rule same_tables_trans [OF st read_onlyD [OF registry_lister.resolve_read_only [OF assms(1)] 2]])
  ultimately show ?thesis by (rule that [OF sel])
qed

text \<open>The members of a cluster set are exactly the clusters of the caller's own org whose
  labels carry every pair of the set's selector (a missing label counting as the empty value),
  and a set of another org is not found: no cluster of another tenant can be reached through a
  cluster set.\<close>

theorem cluster_set_members_exact:
  assumes "fs_clusters svc = list_clusters"
    and "cluster_set_members svc org i s = (Inr cs, s')"
  shows "\<exists>cset. select_row (\<lambda>c. cs_id c = i) (cluster_sets s) = Some cset \<and> cs_org cset = org
    \<and> set cs = {c \<in> set (clusters s). cl_org c = org
                 \<and> list_all (\<lambda>(k, v). label_value (cl_labels c) k = v) (cs_selector cset)}"
  by (rule cluster_set_members_okE [OF assms]) (auto simp: matches_selector_def)

section \<open>Bulk decisions\<close>

lemma decide_effect:
  assumes "svc_read_only asvc" and "decide asvc org i approver approve reason s = (res, s')"
  shows "case res of
      Inl e \<Rightarrow> approvals s' = approvals s
    | Inr q \<Rightarrow> (\<exists>req \<in> set (approvals s). ar_id req = i \<and> ar_org req = org \<and> ar_state req = Pending)
        \<and> approvals s' = update_rows (open_row i) (decided_row approver approve reason (clock s)) (approvals s)"
proof (cases res)
  case (Inl e)
  with decide_outcome [OF assms] show ?thesis by (auto elim: same_tablesE)
next
  case (Inr q)
  with decide_outcome [OF assms] obtain req where
    "select_row (\<lambda>r. ar_id r = i) (approvals s) = Some req" "ar_org req = org" "ar_state req = Pending"
    and sb: "settled_by (decided_row approver approve reason (clock s)) req approver
            (''approval.'' @ approval_state_str (decision_state approve)) ''approval.decided''
            (approval_payload org i (ar_item req) (decision_state approve)) s s'"
    by auto
  moreover from this(1) have "ar_id req = i" "req \<in> set (approvals s)" by (auto dest: select_row_SomeD)
  ultimately show ?thesis using Inr by (auto simp: settled_by_def)
qed

definition decided_as :: "string \<Rightarrow> string \<Rightarrow> bool \<Rightarrow> string \<Rightarrow> 'a approvals_db_scheme \<Rightarrow> bool" where
  "decided_as org approver approve i s \<longleftrightarrow> (\<exists>row \<in> set (approvals s). ar_id row = i \<and> ar_org row = org
     \<and> ar_state row = decision_state approve \<and> ar_approver row = approver)"

lemma decided_as_decide:
  assumes "svc_read_only asvc" and "decide asvc org j approver approve reason s = (res, s')"
    and "decided_as org approver approve i s"
  shows "decided_as org approver approve i s'"
proof -
  have ne: "decision_state approve \<noteq> Pending" by (cases approve) (simp_all add: decision_state_def)
  from assms(3) obtain row where row: "row \<in> set (approvals s)" "ar_id row = i" "ar_org row = org"
    "ar_state row = decision_state approve" "ar_approver row = approver" by (auto simp: decided_as_def)
  with ne have "\<not> open_row j row" by (simp add: open_row_def)
  with row(1) decide_effect [OF assms(1,2)] have "row \<in> set (approvals s')"
    by (cases res) (force simp: set_update_rows)+
  with row show ?thesis by (auto simp: decided_as_def)
qed

text \<open>One pass over the ids: what each result says is so at the end, and only the rows of
  successful items have changed.\<close>

lemma bulk_each_decide:
  assumes ro: "svc_read_only asvc"
    and run: "bulk_each (\<lambda>i. decide asvc org i approver approve reason) ids s = (r, s')"
  shows "\<exists>rs. r = Inr rs \<and> map bi_id rs = ids
    \<and> (\<forall>x \<in> set rs. bi_ok x \<longrightarrow> decided_as org approver approve (bi_id x) s')
    \<and> (\<forall>i. decided_as org approver approve i s \<longrightarrow> decided_as org approver approve i s')
    \<and> (\<forall>row \<in> set (approvals s). ar_id row \<notin> bi_id ` {x \<in> set rs. bi_ok x} \<longrightarrow> row \<in> set (approvals s'))"
  using run
proof (induction ids arbitrary: s r s')
  case Nil
  then show ?case by (simp add: ret_def)
next
  case (Cons i ids)
  obtain q s1 where q: "decide asvc org i approver approve reason s = (q, s1)" by fastforce
  obtain r1 s2 where rest: "bulk_each (\<lambda>i. decide asvc org i approver approve reason) ids s1 = (r1, s2)"
    by fastforce
  from Cons.IH [OF rest] obtain rs where rs: "r1 = Inr rs" "map bi_id rs = ids"
    and ok: "\<forall>x \<in> set rs. bi_ok x \<longrightarrow> decided_as org approver approve (bi_id x) s2"
    and keep: "\<forall>i. decided_as org approver approve i s1 \<longrightarrow> decided_as org approver approve i s2"
    and same: "\<forall>row \<in> set (approvals s1). ar_id row \<notin> bi_id ` {x \<in> set rs. bi_ok x} \<longrightarrow> row \<in> set (approvals s2)"
    by blast
  have eff: "case q of Inl e \<Rightarrow> approvals s1 = approvals s
    | Inr v \<Rightarrow> (\<exists>req \<in> set (approvals s). ar_id req = i \<and> ar_org req = org \<and> ar_state req = Pending)
        \<and> approvals s1 = update_rows (open_row i) (decided_row approver approve reason (clock s)) (approvals s)"
    by (rule decide_effect [OF ro q])
  let ?x = "case q of Inl e \<Rightarrow> \<lparr>bi_id = i, bi_ok = False, bi_error = Some e\<rparr>
                    | Inr _ \<Rightarrow> \<lparr>bi_id = i, bi_ok = True, bi_error = None\<rparr>"
  have r: "r = Inr (?x # rs)" "s' = s2"
    using Cons.prems by (simp_all add: q rest rs bindE_def ret_def)
  have x: "bi_id ?x = i" by (cases q) simp_all
  have new: "decided_as org approver approve i s1" if "bi_ok ?x"
    using that eff by (cases q) (auto simp: decided_as_def bex_update_rows open_row_def decided_row_def)
  have old: "\<forall>i. decided_as org approver approve i s \<longrightarrow> decided_as org approver approve i s1"
    using decided_as_decide [OF ro q] by blast
  have row1: "row \<in> set (approvals s1)" if "row \<in> set (approvals s)" and "bi_ok ?x \<longrightarrow> ar_id row \<noteq> i" for row
    using that eff by (cases q) (force simp: set_update_rows open_row_def)+
  have "\<forall>row \<in> set (approvals s). ar_id row \<notin> bi_id ` {x \<in> set (?x # rs). bi_ok x} \<longrightarrow> row \<in> set (approvals s2)"
  proof (intro ballI impI)
    fix row assume mem: "row \<in> set (approvals s)" and ni: "ar_id row \<notin> bi_id ` {x \<in> set (?x # rs). bi_ok x}"
    from ni have "bi_ok ?x \<longrightarrow> ar_id row \<noteq> bi_id ?x" by auto
    then have "bi_ok ?x \<longrightarrow> ar_id row \<noteq> i" by (simp only: x)
    with mem have "row \<in> set (approvals s1)" by (rule row1)
    with same ni show "row \<in> set (approvals s2)" by auto
  qed
  with r x rs ok keep new old show ?case by auto
qed

text \<open>(C15) A bulk decision reports the truth, item by item: there is one result per requested id, in
  order; for every result marked ok the request is, when the call returns, decided that way by
  that approver in that org; and no other request has changed, whatever failed in between.\<close>

theorem bulk_decide_reports_truth:
  assumes "fs_decider svc = Some (decide asvc)" and "svc_read_only asvc" and "ids \<noteq> []"
    and "bulk_decide_approvals svc org approver ids approve reason s = (r, s')"
  shows "\<exists>rs. r = Inr rs \<and> map bi_id rs = ids
    \<and> (\<forall>x \<in> set rs. bi_ok x \<longrightarrow> (\<exists>row \<in> set (approvals s'). ar_id row = bi_id x \<and> ar_org row = org
          \<and> ar_state row = decision_state approve \<and> ar_approver row = approver))
    \<and> (\<forall>row \<in> set (approvals s). ar_id row \<notin> bi_id ` {x \<in> set rs. bi_ok x} \<longrightarrow> row \<in> set (approvals s'))"
  using bulk_each_decide [OF assms(2), of org approver approve reason ids s r s'] assms
  by (auto simp: bulk_decide_approvals_def decided_as_def)

section \<open>The skew\<close>

lemma parse_major_minor_versions:
  "parse_major_minor ''v1.4.2'' = Some (1, 4)" "parse_major_minor ''1.3'' = Some (1, 3)"
  "parse_major_minor ''v2'' = None" "parse_major_minor ''1.x.0'' = None"
  by code_simp+

section \<open>Concrete runs\<close>

definition demo_fleet_cluster :: "string \<Rightarrow> string \<Rightarrow> (string \<times> string) list \<Rightarrow> cluster" where
  "demo_fleet_cluster i org labels = (demo_cluster i ClusterActive)\<lparr>cl_org := org, cl_labels := labels\<rparr>"

definition demo_fleet_db :: fleet_db where
  "demo_fleet_db = \<lparr>faults = [], clock = 100, uuids = (\<lambda>n. replicate n (CHR ''u'')), uuid_next = 1,
     audit_rows = [], audit_archive = [], outbox_rows = [], outbox_seq = 1,
     approvals = [], approval_configs = [],
     clusters = [demo_fleet_cluster ''c1'' ''acme'' [(''env'', ''prod'')],
                 demo_fleet_cluster ''c2'' ''acme'' [(''env'', ''dev'')],
                 demo_fleet_cluster ''c3'' ''other'' [(''env'', ''prod'')],
                 demo_fleet_cluster ''c4'' ''acme'' [(''env'', ''prod''), (''tier'', ''1'')]],
     reg_tokens = [], capabilities = [], agent_commands = [],
     cluster_sets = [\<lparr>cs_id = ''s1'', cs_org = ''acme'', cs_name = ''prod'', cs_selector = [(''env'', ''prod'')], cs_created = 1\<rparr>],
     rollouts = [], rollout_targets = [], agent_channels = [], drift_events = [], resource_instances = []\<rparr>"

text \<open>The wiring of cmd/inari-server, without the bulk seams.\<close>

definition demo_fleet_svc :: "fleet_db fleet_svc" where
  "demo_fleet_svc = \<lparr>fs_clusters = list_clusters, fs_queue = enqueue, fs_gates = None,
     fs_decider = None, fs_assigner = None, fs_pinner = None\<rparr>"

lemma demo_members:
  "fst (cluster_set_members demo_fleet_svc ''acme'' ''s1'' demo_fleet_db) =
     Inr [demo_fleet_cluster ''c1'' ''acme'' [(''env'', ''prod'')],
          demo_fleet_cluster ''c4'' ''acme'' [(''env'', ''prod''), (''tier'', ''1'')]]"
  by code_simp

theorem cluster_set_members_exact_witness:
  "cl_id ` {c \<in> set (clusters demo_fleet_db). cl_org c = ''acme'' \<and> label_value (cl_labels c) ''env'' = ''prod''}
     = {''c1'', ''c4''}"
proof -
  obtain s' where run: "cluster_set_members demo_fleet_svc ''acme'' ''s1'' demo_fleet_db =
      (Inr [demo_fleet_cluster ''c1'' ''acme'' [(''env'', ''prod'')],
          demo_fleet_cluster ''c4'' ''acme'' [(''env'', ''prod''), (''tier'', ''1'')]], s')"
    using demo_members by (metis prod.collapse)
  have svc: "fs_clusters demo_fleet_svc = list_clusters" by (simp add: demo_fleet_svc_def)
  from cluster_set_members_exact [OF svc run] obtain cset where
    sel: "select_row (\<lambda>c. cs_id c = ''s1'') (cluster_sets demo_fleet_db) = Some cset"
    and eq: "set [demo_fleet_cluster ''c1'' ''acme'' [(''env'', ''prod'')],
          demo_fleet_cluster ''c4'' ''acme'' [(''env'', ''prod''), (''tier'', ''1'')]] =
        {c \<in> set (clusters demo_fleet_db). cl_org c = ''acme''
           \<and> list_all (\<lambda>(k, v). label_value (cl_labels c) k = v) (cs_selector cset)}" by blast
  from sel have "cs_selector cset = [(''env'', ''prod'')]" by (auto simp: demo_fleet_db_def select_row_def)
  with eq have "{c \<in> set (clusters demo_fleet_db). cl_org c = ''acme'' \<and> label_value (cl_labels c) ''env'' = ''prod''}
      = {demo_fleet_cluster ''c1'' ''acme'' [(''env'', ''prod'')],
         demo_fleet_cluster ''c4'' ''acme'' [(''env'', ''prod''), (''tier'', ''1'')]}" by simp
  note members = this
  have "cl_id (demo_fleet_cluster i org labels) = i" for i org labels
    by (simp add: demo_fleet_cluster_def demo_cluster_def)
  then show ?thesis unfolding members by simp
qed

definition demo_bulk_svc :: "approvals_db fleet_svc" where
  "demo_bulk_svc = \<lparr>fs_clusters = (\<lambda>_. ret []), fs_queue = (\<lambda>_. ret ()), fs_gates = None,
     fs_decider = Some (decide demo_svc), fs_assigner = None, fs_pinner = None\<rparr>"

lemma demo_bulk:
  "fst (bulk_decide_approvals demo_bulk_svc ''acme'' ''bob'' [''a1'', ''a2'', ''a9''] True ''fine'' demo_adb) =
     Inr [\<lparr>bi_id = ''a1'', bi_ok = True, bi_error = None\<rparr>,
          \<lparr>bi_id = ''a2'', bi_ok = False, bi_error = Some AlreadyDecided\<rparr>,
          \<lparr>bi_id = ''a9'', bi_ok = False, bi_error = Some ApprovalNotFound\<rparr>]"
  by code_simp

theorem bulk_decide_reports_truth_witness:
  "\<exists>row \<in> set (approvals (snd (bulk_decide_approvals demo_bulk_svc ''acme'' ''bob'' [''a1'', ''a2'', ''a9'']
      True ''fine'' demo_adb))). ar_id row = ''a1'' \<and> ar_state row = Approved \<and> ar_approver row = ''bob''"
proof -
  obtain r s' where run: "bulk_decide_approvals demo_bulk_svc ''acme'' ''bob'' [''a1'', ''a2'', ''a9''] True ''fine''
      demo_adb = (r, s')" by fastforce
  have dec: "fs_decider demo_bulk_svc = Some (decide demo_svc)" by (simp add: demo_bulk_svc_def)
  have ne: "[''a1'', ''a2'', ''a9''] \<noteq> []" by simp
  from bulk_decide_reports_truth [OF dec demo_svc_read_only ne run]
  obtain rs where r: "r = Inr rs" and ok: "\<forall>x \<in> set rs. bi_ok x \<longrightarrow> (\<exists>row \<in> set (approvals s').
      ar_id row = bi_id x \<and> ar_org row = ''acme'' \<and> ar_state row = decision_state True \<and> ar_approver row = ''bob'')"
    by blast
  from demo_bulk run r have "\<lparr>bi_id = ''a1'', bi_ok = True, bi_error = None\<rparr> \<in> set rs" by simp
  with ok have "\<exists>row \<in> set (approvals s'). ar_id row = ''a1'' \<and> ar_state row = decision_state True \<and> ar_approver row = ''bob''"
    by fastforce
  then show ?thesis by (simp add: run decision_state_def)
qed

end
