(* ===== verification/Rollouts.thy ===== *)
theory Rollouts
  imports Fleet
begin

text \<open>
  Staged rollouts (internal/fleetmanager/rollout.go, resume.go and the rollout part of
  store.go): the state machine, the stages with their gates and their concurrency bound, and
  the advance loop that delivers desired-state commands through the queue and waits for the
  agents' acks.

  A rollout the service holds in memory is a copy that may be stale; \<open>set_rollout_state\<close> is the
  compare-and-set that decides. \<open>Rollout.State\<close> and the target statuses are datatypes; gate
  kinds stay strings, because the code has a branch for any other string.
\<close>

section \<open>The state machine\<close>

definition rollout_transitions :: "rollout_state \<Rightarrow> rollout_state list" where
  "rollout_transitions st = (case st of
      RolloutStatePending \<Rightarrow> [RolloutStateRunning, RolloutStateFailed]
    | RolloutStateRunning \<Rightarrow> [RolloutStateWaitingGate, RolloutStatePaused, RolloutStateFailed,
        RolloutStateCompleted, RolloutStateRolledBack]
    | RolloutStateWaitingGate \<Rightarrow> [RolloutStateRunning, RolloutStatePaused, RolloutStateFailed, RolloutStateRolledBack]
    | RolloutStatePaused \<Rightarrow> [RolloutStateRunning, RolloutStateWaitingGate, RolloutStateFailed, RolloutStateRolledBack]
    | RolloutStateFailed \<Rightarrow> [RolloutStateRolledBack, RolloutStateRunning]
    | RolloutStateCompleted \<Rightarrow> [RolloutStateRolledBack]
    | RolloutStateRolledBack \<Rightarrow> [])"

definition can_rollout_transition :: "rollout_state \<Rightarrow> rollout_state \<Rightarrow> bool" where
  "can_rollout_transition from to \<longleftrightarrow> List.member (rollout_transitions from) to"

fun rollout_state_str :: "rollout_state \<Rightarrow> string" where
  "rollout_state_str RolloutStatePending = ''pending''"
| "rollout_state_str RolloutStateRunning = ''running''"
| "rollout_state_str RolloutStateWaitingGate = ''waiting_gate''"
| "rollout_state_str RolloutStatePaused = ''paused''"
| "rollout_state_str RolloutStateFailed = ''failed''"
| "rollout_state_str RolloutStateCompleted = ''completed''"
| "rollout_state_str RolloutStateRolledBack = ''rolled_back''"

text \<open>\<open>ParseMaxConcurrency\<close>. The products stay far below the bounds of a 64-bit int.\<close>

definition parse_max_concurrency :: "string \<Rightarrow> int \<Rightarrow> err + int" where
  "parse_max_concurrency spec members =
     (if members \<le> 0 then Inr 0
      else let spec = trim_space spec in
        if spec = [] then Inl FleetInvalidInput
        else if has_suffix spec ''%'' then
          (case atoi (trim_suffix spec ''%'') of
             None \<Rightarrow> Inl FleetInvalidInput
           | Some pct \<Rightarrow> if pct \<le> 0 \<or> pct > 100 then Inl FleetInvalidInput
               else let n = (members * pct + 99) div 100 in Inr (if n < 1 then 1 else n))
        else (case atoi spec of
             None \<Rightarrow> Inl FleetInvalidInput
           | Some n \<Rightarrow> if n \<le> 0 then Inl FleetInvalidInput else Inr (if n > members then members else n)))"

definition valid_rollout_kind :: "string \<Rightarrow> bool" where
  "valid_rollout_kind kind \<longleftrightarrow> List.member [''capability'', ''policy_pack'', ''agent_upgrade'', ''catalog_version''] kind"

record create_rollout_input =
  cri_name :: string
  cri_kind :: string
  cri_target :: string
  cri_version :: string
  cri_stages :: "rollout_stage list"

definition stage_gates :: "rollout_stage \<Rightarrow> stage_gate list" where
  "stage_gates st = (case st_before st of None \<Rightarrow> [] | Some g \<Rightarrow> [g]) @ (case st_after st of None \<Rightarrow> [] | Some g \<Rightarrow> [g])"

definition validate_gate :: "stage_gate \<Rightarrow> err option" where
  "validate_gate g =
     (if sg_type g = ''wait'' then (if sg_wait g \<le> 0 then Some FleetInvalidInput else None)
      else if sg_type g = ''approval'' then None
      else Some FleetInvalidInput)"

definition first_err :: "('x \<Rightarrow> err option) \<Rightarrow> 'x list \<Rightarrow> err option" where
  "first_err f xs = (case find (\<lambda>x. f x \<noteq> None) xs of None \<Rightarrow> None | Some x \<Rightarrow> f x)"

definition validate_stage :: "rollout_stage \<Rightarrow> err option" where
  "validate_stage st =
     (if st_sets st = [] then Some FleetInvalidInput
      else (case parse_max_concurrency (st_max st) 100 of
              Inl e \<Rightarrow> Some e
            | Inr _ \<Rightarrow> first_err validate_gate (stage_gates st)))"

definition validate_stages :: "rollout_stage list \<Rightarrow> err option" where
  "validate_stages stages = (if stages = [] then Some FleetInvalidInput else first_err validate_stage stages)"

section \<open>The store\<close>

definition create_rollout_row :: "rollout \<Rightarrow> ('a fleet_db_scheme, rollout) dbm" where
  "create_rollout_row r = sql (\<lambda>s.
     let row = r\<lparr>ro_state := RolloutStatePending, ro_stage := 0, ro_gate := None, ro_created := clock s, ro_updated := clock s\<rparr>
     in if \<exists>x \<in> set (rollouts s). ro_id x = ro_id r \<or> (ro_org x = ro_org r \<and> ro_name x = ro_name r)
        then (Inl (ErrUnique ''rollouts''), s)
        else (Inr row, s\<lparr>rollouts := rollouts s @ [row]\<rparr>))"

definition get_rollout_row :: "string \<Rightarrow> ('a fleet_db_scheme, rollout) dbm" where
  "get_rollout_row i = sql (\<lambda>s. case select_row (\<lambda>r. ro_id r = i) (rollouts s) of
      None \<Rightarrow> (Inl FleetNotFound, s) | Some r \<Rightarrow> (Inr r, s))"

definition list_rollouts :: "string \<Rightarrow> ('a fleet_db_scheme, rollout list) dbm" where
  "list_rollouts org = sql (asks (\<lambda>s.
     rev (sort_key ro_created (filter (\<lambda>r. ro_org r = org) (rollouts s)))))"

definition list_active_rollouts :: "('a fleet_db_scheme, rollout list) dbm" where
  "list_active_rollouts = sql (asks (\<lambda>s.
     filter (\<lambda>r. ro_state r = RolloutStateRunning \<or> ro_state r = RolloutStateWaitingGate) (rollouts s)))"

definition set_rollout_state ::
  "string \<Rightarrow> rollout_state \<Rightarrow> rollout_state \<Rightarrow> nat \<Rightarrow> gate_context option \<Rightarrow> ('a fleet_db_scheme, bool) dbm" where
  "set_rollout_state i want st stage gctx = sql (\<lambda>s.
     let P = (\<lambda>r. ro_id r = i \<and> ro_state r = want)
     in (Inr (rows_affected P (rollouts s) = 1),
         s\<lparr>rollouts := update_rows P
             (\<lambda>r. r\<lparr>ro_state := st, ro_stage := stage, ro_gate := gctx, ro_updated := clock s\<rparr>) (rollouts s)\<rparr>))"

text \<open>An empty \<open>approvalId\<close> is left out of the stored document, so that the column reads as NULL.\<close>

definition awaits_approval :: "string \<Rightarrow> nat \<Rightarrow> string \<Rightarrow> rollout \<Rightarrow> bool" where
  "awaits_approval i stage which r \<longleftrightarrow> ro_id r = i \<and> ro_state r = RolloutStateWaitingGate \<and> ro_stage r = stage
     \<and> (case ro_gate r of None \<Rightarrow> False | Some gc \<Rightarrow> gc_gate gc = which \<and> gc_approval gc = [])"

definition set_gate_approval :: "string \<Rightarrow> nat \<Rightarrow> string \<Rightarrow> string \<Rightarrow> ('a fleet_db_scheme, bool) dbm" where
  "set_gate_approval i stage which approval = sql (\<lambda>s.
     (Inr (rows_affected (awaits_approval i stage which) (rollouts s) = 1),
      s\<lparr>rollouts := update_rows (awaits_approval i stage which)
          (\<lambda>r. r\<lparr>ro_gate := map_option (\<lambda>gc. gc\<lparr>gc_approval := approval\<rparr>) (ro_gate r), ro_updated := clock s\<rparr>)
          (rollouts s)\<rparr>))"

definition target_key :: "string \<Rightarrow> string \<Rightarrow> nat \<Rightarrow> rollout_target \<Rightarrow> bool" where
  "target_key i cluster stage t \<longleftrightarrow> rg_rollout t = i \<and> rg_cluster t = cluster \<and> rg_stage t = stage"

text \<open>The upsert keeps the observed health of a row that exists.\<close>

definition upsert_target :: "string \<Rightarrow> string \<Rightarrow> nat \<Rightarrow> target_status \<Rightarrow> string \<Rightarrow> ('a fleet_db_scheme, unit) dbm" where
  "upsert_target i cluster stage st cmd = sql (\<lambda>s.
     if i \<notin> ro_id ` set (rollouts s) then (Inl (ErrMsg ''rollout_targets_rollout_id_fkey''), s)
     else (Inr (), s\<lparr>rollout_targets :=
       (if list_ex (target_key i cluster stage) (rollout_targets s)
        then update_rows (target_key i cluster stage)
               (\<lambda>t. t\<lparr>rg_status := st, rg_command := cmd, rg_updated := clock s\<rparr>) (rollout_targets s)
        else rollout_targets s @ [\<lparr>rg_rollout = i, rg_cluster = cluster, rg_stage = stage, rg_status = st,
               rg_command = cmd, rg_health = [], rg_updated = clock s\<rparr>])\<rparr>))"

definition stage_targets :: "string \<Rightarrow> nat \<Rightarrow> rollout_target list \<Rightarrow> rollout_target list" where
  "stage_targets i stage ts = sort_key rg_cluster (filter (\<lambda>t. rg_rollout t = i \<and> rg_stage t = stage) ts)"

definition list_targets :: "string \<Rightarrow> nat \<Rightarrow> ('a fleet_db_scheme, rollout_target list) dbm" where
  "list_targets i stage = sql (asks (\<lambda>s. stage_targets i stage (rollout_targets s)))"

definition set_target_status :: "string \<Rightarrow> string \<Rightarrow> nat \<Rightarrow> target_status \<Rightarrow> string \<Rightarrow> ('a fleet_db_scheme, unit) dbm" where
  "set_target_status i cluster stage st health = sql (modify (\<lambda>s. s\<lparr>rollout_targets :=
     update_rows (target_key i cluster stage)
       (\<lambda>t. t\<lparr>rg_status := st, rg_health := health, rg_updated := clock s\<rparr>) (rollout_targets s)\<rparr>))"

definition command_statuses :: "string list \<Rightarrow> ('a fleet_db_scheme, string \<rightharpoonup> command_status) dbm" where
  "command_statuses ids =
     (if ids = [] then ret Map.empty
      else sql (asks (\<lambda>s. map_of (map (\<lambda>c. (cmd_id c, cmd_status c))
             (filter (\<lambda>c. List.member ids (cmd_id c)) (agent_commands s))))))"

section \<open>Transitions\<close>

definition rollout_payload :: "rollout \<Rightarrow> string \<Rightarrow> nat \<Rightarrow> json" where
  "rollout_payload r st stage = JObj ([(''orgId'', JStr (ro_org r)), (''rolloutId'', JStr (ro_id r))]
     @ (if st = [] then [] else [(''state'', JStr st)])
     @ (if stage = 0 then [] else [(''stage'', JNum (real stage))]))"

definition rollout_ev :: "rollout \<Rightarrow> string \<Rightarrow> string \<Rightarrow> json \<Rightarrow> audit_event" where
  "rollout_ev r actor action payload = audit_ev (ro_org r) actor action ''rollout'' (ro_id r) payload"

fun transition_event :: "rollout_state \<Rightarrow> string" where
  "transition_event RolloutStateRunning = ''rollout.started''"
| "transition_event RolloutStatePaused = ''rollout.paused''"
| "transition_event RolloutStateCompleted = ''rollout.completed''"
| "transition_event RolloutStateFailed = ''rollout.failed''"
| "transition_event RolloutStateRolledBack = ''rollout.rolled_back''"
| "transition_event RolloutStateWaitingGate = ''rollout.gate_entered''"
| "transition_event RolloutStatePending = ''rollout.resumed''"

text \<open>\<open>transition\<close> returns the copy it was given, as it leaves it.\<close>

definition transition ::
  "rollout \<Rightarrow> rollout_state \<Rightarrow> nat \<Rightarrow> gate_context option \<Rightarrow> string \<Rightarrow> ('a fleet_db_scheme, rollout) dbm" where
  "transition r to stage gctx actor =
     (if \<not> can_rollout_transition (ro_state r) to then throw InvalidTransition
      else bindE (set_rollout_state (ro_id r) (ro_state r) to stage gctx) (\<lambda>ok.
        if \<not> ok then throw InvalidTransition
        else thenE (emit (rollout_ev r actor (''rollout.'' @ rollout_state_str to) JNull) (ro_org r)
                      (transition_event to) (rollout_payload r (rollout_state_str to) stage))
               (ret (r\<lparr>ro_state := to, ro_stage := stage, ro_gate := gctx\<rparr>))))"

definition SystemFleet :: string where "SystemFleet = ''system:fleetmanager''"

definition create_rollout ::
  "'a fleet_db_scheme fleet_svc \<Rightarrow> string \<Rightarrow> string \<Rightarrow> create_rollout_input \<Rightarrow> ('a fleet_db_scheme, rollout) dbm" where
  "create_rollout svc actor org cin =
     (if cri_name cin = [] then throw FleetInvalidInput
      else if \<not> valid_rollout_kind (cri_kind cin) then throw FleetInvalidInput
      else (case validate_stages (cri_stages cin) of
        Some e \<Rightarrow> throw e
      | None \<Rightarrow>
        if fs_gates svc = None \<and> list_ex (\<lambda>st. list_ex (\<lambda>g. sg_type g = ''approval'') (stage_gates st)) (cri_stages cin)
        then throw (ErrMsg ''approval gate configured but no gate requester wired'')
        else thenE (foldr (\<lambda>i m. thenE (get_cluster_set org i) m) (concat (map st_sets (cri_stages cin))) (ret ()))
          (bindE new_uuid (\<lambda>u.
            with_tx (bindE (create_rollout_row
                \<lparr>ro_id = ''rollout:'' @ u, ro_org = org, ro_name = cri_name cin, ro_kind = cri_kind cin,
                 ro_target = cri_target cin, ro_version = cri_version cin, ro_stages = cri_stages cin,
                 ro_state = RolloutStatePending, ro_stage = 0, ro_gate = None, ro_created_by = actor,
                 ro_created = 0, ro_updated = 0\<rparr>)
              (\<lambda>r. thenE (emit (rollout_ev r actor ''rollout.created'' JNull) org ''rollout.created''
                            (rollout_payload r [] 0))
                     (ret r)))))))"

definition get_rollout :: "string \<Rightarrow> string \<Rightarrow> ('a fleet_db_scheme, rollout) dbm" where
  "get_rollout org i = bindE (get_rollout_row i) (\<lambda>r.
     if ro_org r \<noteq> org then throw FleetNotFound else ret r)"

definition get_rollout_targets :: "string \<Rightarrow> string \<Rightarrow> nat \<Rightarrow> ('a fleet_db_scheme, rollout_target list) dbm" where
  "get_rollout_targets org i stage = thenE (get_rollout org i) (list_targets i stage)"

definition stop_rollout :: "string \<Rightarrow> string \<Rightarrow> string \<Rightarrow> ('a fleet_db_scheme, rollout) dbm" where
  "stop_rollout actor org i = bindE (get_rollout org i) (\<lambda>r.
     thenE (with_tx (transition r RolloutStatePaused (ro_stage r) (ro_gate r) actor)) (get_rollout org i))"

section \<open>Members, commands and gates\<close>

text \<open>The union of the sets' members in the order met, without repetition (\<open>seen\<close>).\<close>

fun add_members :: "cluster list \<Rightarrow> cluster list \<Rightarrow> cluster list" where
  "add_members out [] = out"
| "add_members out (c # cs) = (if cl_id c \<in> cl_id ` set out then add_members out cs else add_members (out @ [c]) cs)"

fun collect_members ::
  "'a fleet_db_scheme fleet_svc \<Rightarrow> string \<Rightarrow> cluster list \<Rightarrow> string list \<Rightarrow> ('a fleet_db_scheme, cluster list) dbm" where
  "collect_members svc org out [] = ret out"
| "collect_members svc org out (i # is) = bindE (cluster_set_members svc org i) (\<lambda>cs.
     collect_members svc org (add_members out cs) is)"

definition stage_members ::
  "'a fleet_db_scheme fleet_svc \<Rightarrow> string \<Rightarrow> rollout_stage \<Rightarrow> ('a fleet_db_scheme, cluster list) dbm" where
  "stage_members svc org st = collect_members svc org [] (st_sets st)"

definition command_suffix :: "rollout \<Rightarrow> string \<Rightarrow> string" where
  "command_suffix r version = (if version \<noteq> ro_version r then ''rollback'' else ''apply'')"

definition command_for :: "rollout \<Rightarrow> nat \<Rightarrow> string \<Rightarrow> string \<Rightarrow> agent_command" where
  "command_for r stage cluster version =
     \<lparr>cmd_id = ''rollout:'' @ ro_id r @ '':'' @ show_nat stage @ '':'' @ cluster @ '':'' @ command_suffix r version,
      cmd_cluster = cluster, cmd_type = ''inari.fleet.RolloutApply'',
      cmd_payload = JObj [(''desiredVersion'', JStr version), (''kind'', JStr (ro_kind r)),
        (''rolloutId'', JStr (ro_id r)), (''targetRef'', JStr (ro_target r))],
      cmd_status = CommandPending, cmd_attempts = 0, cmd_result = [], cmd_created = 0, cmd_updated = 0\<rparr>"

definition gate_spec :: "rollout \<Rightarrow> gate_context \<Rightarrow> json" where
  "gate_spec r gc = JObj [(''gate'', JStr (gc_gate gc)), (''rolloutId'', JStr (ro_id r)),
     (''stage'', JNum (real (ro_stage r)))]"

definition request_gate_approval ::
  "'a fleet_db_scheme fleet_svc \<Rightarrow> rollout \<Rightarrow> ('a fleet_db_scheme, unit) dbm" where
  "request_gate_approval svc r = (case fs_gates svc of
      None \<Rightarrow> throw (ErrMsg ''approval gate configured but no gate requester wired'')
    | Some req \<Rightarrow> (case ro_gate r of
          None \<Rightarrow> ret ()
        | Some gc \<Rightarrow>
            if ro_state r \<noteq> RolloutStateWaitingGate \<or> gc_type gc \<noteq> ''approval'' \<or> gc_approval gc \<noteq> [] then ret ()
            else bindE (req \<lparr>li_org = ro_org r, li_action = ApprovalActionRolloutStageGate,
                           li_requester = SystemFleet, li_context = gate_spec r gc\<rparr>)
              (\<lambda>ar. thenE (set_gate_approval (ro_id r) (ro_stage r) (gc_gate gc) (ar_id ar)) (ret ()))))"

definition enter_gate ::
  "'a fleet_db_scheme fleet_svc \<Rightarrow> rollout \<Rightarrow> nat \<Rightarrow> string \<Rightarrow> stage_gate \<Rightarrow> ('a fleet_db_scheme, unit) dbm" where
  "enter_gate svc r stage which g = bindE (asks clock) (\<lambda>now.
     bindE (with_tx (transition r RolloutStateWaitingGate stage
              (Some \<lparr>gc_gate = which, gc_type = sg_type g, gc_wait = sg_wait g, gc_approval = [], gc_entered = now\<rparr>)
              SystemFleet))
       (\<lambda>r'. if sg_type g = ''approval'' then request_gate_approval svc r' else ret ()))"

definition gate_is :: "string \<Rightarrow> rollout \<Rightarrow> bool" where
  "gate_is which r \<longleftrightarrow> (case ro_gate r of None \<Rightarrow> False | Some gc \<Rightarrow> gc_gate gc = which)"

definition clear_gate :: "rollout \<Rightarrow> ('a fleet_db_scheme, unit) dbm" where
  "clear_gate r =
     (let next_stage = (if gate_is ''after'' r then ro_stage r + 1 else ro_stage r)
      in thenE (with_tx (transition r RolloutStateRunning next_stage None SystemFleet)) (ret ()))"

definition gate_approved :: "string \<Rightarrow> int \<Rightarrow> string \<Rightarrow> ('a fleet_db_scheme, unit) dbm" where
  "gate_approved i stage which = bindE (get_rollout_row i) (\<lambda>r.
     if int (ro_stage r) \<noteq> stage \<or> \<not> gate_is which r then ret ()
     else if ro_state r \<noteq> RolloutStateWaitingGate \<and> ro_state r \<noteq> RolloutStatePaused then ret ()
     else clear_gate r)"

definition gate_rejected :: "string \<Rightarrow> int \<Rightarrow> ('a fleet_db_scheme, unit) dbm" where
  "gate_rejected i stage = bindE (get_rollout_row i) (\<lambda>r.
     if int (ro_stage r) \<noteq> stage \<or> ro_gate r = None then ret ()
     else if ro_state r \<noteq> RolloutStateWaitingGate \<and> ro_state r \<noteq> RolloutStatePaused then ret ()
     else thenE (with_tx (transition r RolloutStateFailed (ro_stage r) (ro_gate r) ''system:approvals'')) (ret ()))"

section \<open>The advance loop\<close>

definition fail_rollout :: "rollout \<Rightarrow> ('a fleet_db_scheme, unit) dbm" where
  "fail_rollout r = thenE (with_tx (transition r RolloutStateFailed (ro_stage r) (ro_gate r) SystemFleet)) (ret ())"

definition advance_stage :: "rollout \<Rightarrow> nat \<Rightarrow> ('a fleet_db_scheme, unit) dbm" where
  "advance_stage r next_stage = with_tx (bindE (set_rollout_state (ro_id r) (ro_state r) (ro_state r) next_stage None) (\<lambda>ok.
     if \<not> ok then throw InvalidTransition
     else emit (rollout_ev r SystemFleet ''rollout.stage_advanced'' (JObj [(''stage'', JNum (real next_stage))])) (ro_org r)
            ''rollout.stage_advanced'' (rollout_payload r (rollout_state_str (ro_state r)) next_stage)))"

fun deliver_targets ::
  "'a fleet_db_scheme fleet_svc \<Rightarrow> rollout \<Rightarrow> nat \<Rightarrow> nat \<Rightarrow> rollout_target list \<Rightarrow> ('a fleet_db_scheme, unit) dbm" where
  "deliver_targets svc r stage slots [] = ret ()"
| "deliver_targets svc r stage slots (t # ts) =
     (if slots = 0 then ret ()
      else if rg_status t \<noteq> RolloutTargetPending then deliver_targets svc r stage slots ts
      else let cmd = command_for r stage (rg_cluster t) (ro_version r)
        in thenE (fs_queue svc cmd)
          (thenE (upsert_target (ro_id r) (rg_cluster t) stage RolloutTargetDelivered (cmd_id cmd))
             (deliver_targets svc r stage (slots - 1) ts)))"

definition deliver_batch ::
  "'a fleet_db_scheme fleet_svc \<Rightarrow> rollout \<Rightarrow> nat \<Rightarrow> int \<Rightarrow> ('a fleet_db_scheme, unit) dbm" where
  "deliver_batch svc r stage slots =
     (if slots \<le> 0 then ret ()
      else bindE (list_targets (ro_id r) stage) (deliver_targets svc r stage (nat slots)))"

fun seed_targets :: "string \<Rightarrow> nat \<Rightarrow> cluster list \<Rightarrow> ('a fleet_db_scheme, unit) dbm" where
  "seed_targets i stage [] = ret ()"
| "seed_targets i stage (c # cs) =
     thenE (upsert_target i (cl_id c) stage RolloutTargetPending []) (seed_targets i stage cs)"

text \<open>Reading the acks: how many targets are pending, in flight and failed. A delivered target
  whose command is acknowledged becomes healthy or failed.\<close>

fun reconcile_targets ::
  "(string \<rightharpoonup> command_status) \<Rightarrow> string \<Rightarrow> nat \<Rightarrow> rollout_target list \<Rightarrow> nat \<times> nat \<times> nat \<Rightarrow>
   ('a fleet_db_scheme, nat \<times> nat \<times> nat) dbm" where
  "reconcile_targets st i stage [] (p, a, f) = ret (p, a, f)"
| "reconcile_targets st i stage (t # ts) (p, a, f) =
     (case rg_status t of
        RolloutTargetPending \<Rightarrow> reconcile_targets st i stage ts (p + 1, a, f)
      | RolloutTargetDelivered \<Rightarrow>
          (case st (rg_command t) of
             Some CommandAcked \<Rightarrow> thenE (set_target_status i (rg_cluster t) stage RolloutTargetHealthy ''healthy'')
                                   (reconcile_targets st i stage ts (p, a, f))
           | Some CommandNacked \<Rightarrow> thenE (set_target_status i (rg_cluster t) stage RolloutTargetFailed ''unhealthy'')
                                   (reconcile_targets st i stage ts (p, a, f + 1))
           | _ \<Rightarrow> reconcile_targets st i stage ts (p, a + 1, f))
      | RolloutTargetFailed \<Rightarrow> reconcile_targets st i stage ts (p, a, f + 1)
      | RolloutTargetHealthy \<Rightarrow> reconcile_targets st i stage ts (p, a, f))"

definition awaited_commands :: "rollout_target list \<Rightarrow> string list" where
  "awaited_commands ts = map rg_command (filter (\<lambda>t. rg_command t \<noteq> [] \<and> rg_status t = RolloutTargetDelivered) ts)"

text \<open>The branch of a stage without targets.\<close>

definition start_stage ::
  "'a fleet_db_scheme fleet_svc \<Rightarrow> rollout \<Rightarrow> nat \<Rightarrow> rollout_stage \<Rightarrow> ('a fleet_db_scheme, bool) dbm" where
  "start_stage svc r stage st = bindE (stage_members svc (ro_org r) st) (\<lambda>members.
     if members = [] then thenE (fail_rollout r) (ret True)
     else thenE (seed_targets (ro_id r) stage members)
       (case st_before st of
          Some g \<Rightarrow> thenE (enter_gate svc r stage ''before'' g) (ret True)
        | None \<Rightarrow> bindE (lift_sum (parse_max_concurrency (st_max st) (int (length members)))) (\<lambda>n.
            thenE (deliver_batch svc r stage n) (ret True))))"

text \<open>The branch of a stage under way.\<close>

definition continue_stage ::
  "'a fleet_db_scheme fleet_svc \<Rightarrow> rollout \<Rightarrow> nat \<Rightarrow> rollout_stage \<Rightarrow> rollout_target list \<Rightarrow> ('a fleet_db_scheme, bool) dbm" where
  "continue_stage svc r stage st targets =
     bindE (command_statuses (awaited_commands targets)) (\<lambda>sts.
     bindE (reconcile_targets sts (ro_id r) stage targets (0, 0, 0)) (\<lambda>(p, a, f).
       if f > 0 then thenE (fail_rollout r) (ret True)
       else if p + a > 0 then bindE (stage_members svc (ro_org r) st) (\<lambda>members.
         bindE (lift_sum (parse_max_concurrency (st_max st) (int (length members)))) (\<lambda>n.
           thenE (deliver_batch svc r stage (n - int a)) (ret True)))
       else (case st_after st of
          Some g \<Rightarrow> thenE (enter_gate svc r stage ''after'' g) (ret True)
        | None \<Rightarrow> thenE (advance_stage r (stage + 1)) (ret False))))"

text \<open>A \<open>time.Duration\<close> counts nanoseconds in 64 bits: the product wraps around.\<close>

definition wait_over :: "int \<Rightarrow> gate_context \<Rightarrow> bool" where
  "wait_over now gc \<longleftrightarrow> gc_entered gc + wrap64 (gc_wait gc * second) \<le> now"

text \<open>\<open>True\<close> is \<open>done\<close>: the rollout is parked.\<close>

definition advance_once ::
  "'a fleet_db_scheme fleet_svc \<Rightarrow> string \<Rightarrow> ('a fleet_db_scheme, bool) dbm" where
  "advance_once svc i = bindE (get_rollout_row i) (\<lambda>r.
     case ro_state r of
       RolloutStateRunning \<Rightarrow>
         if length (ro_stages r) \<le> ro_stage r
         then thenE (with_tx (transition r RolloutStateCompleted (ro_stage r) None SystemFleet)) (ret True)
         else bindE (list_targets (ro_id r) (ro_stage r)) (\<lambda>targets.
           if targets = [] then start_stage svc r (ro_stage r) (ro_stages r ! ro_stage r)
           else continue_stage svc r (ro_stage r) (ro_stages r ! ro_stage r) targets)
     | RolloutStateWaitingGate \<Rightarrow>
         (case ro_gate r of
            None \<Rightarrow> thenE (clear_gate r) (ret True)
          | Some gc \<Rightarrow>
              if gc_type gc = ''approval'' \<and> gc_approval gc = [] then thenE (request_gate_approval svc r) (ret True)
              else bindE (asks clock) (\<lambda>now.
                if gc_type gc = ''wait'' \<and> wait_over now gc then thenE (clear_gate r) (ret True)
                else ret True))
     | _ \<Rightarrow> ret True)"

fun advance_steps :: "nat \<Rightarrow> 'a fleet_db_scheme fleet_svc \<Rightarrow> string \<Rightarrow> ('a fleet_db_scheme, unit) dbm" where
  "advance_steps 0 svc i = ret ()"
| "advance_steps (Suc n) svc i = bindE (advance_once svc i) (\<lambda>parked.
     if parked then ret () else advance_steps n svc i)"

definition maxAdvanceSteps :: nat where "maxAdvanceSteps = 64"

definition advance :: "'a fleet_db_scheme fleet_svc \<Rightarrow> string \<Rightarrow> ('a fleet_db_scheme, unit) dbm" where
  "advance svc i = advance_steps maxAdvanceSteps svc i"

fun advance_all :: "'a fleet_db_scheme fleet_svc \<Rightarrow> rollout list \<Rightarrow> ('a fleet_db_scheme, unit) dbm" where
  "advance_all svc [] = ret ()"
| "advance_all svc (r # rs) = thenE (catchE (advance svc (ro_id r)) (\<lambda>_. ret ())) (advance_all svc rs)"

definition advance_sweep :: "'a fleet_db_scheme fleet_svc \<Rightarrow> ('a fleet_db_scheme, nat) dbm" where
  "advance_sweep svc = bindE list_active_rollouts (\<lambda>rs. thenE (advance_all svc rs) (ret (length rs)))"

section \<open>Start, resume and rollback\<close>

definition start_rollout ::
  "'a fleet_db_scheme fleet_svc \<Rightarrow> string \<Rightarrow> string \<Rightarrow> string \<Rightarrow> ('a fleet_db_scheme, rollout) dbm" where
  "start_rollout svc actor org i = bindE (get_rollout org i) (\<lambda>r.
     thenE (with_tx (transition r RolloutStateRunning 0 None actor))
       (thenE (advance svc (ro_id r)) (get_rollout org i)))"

definition resume_rollout ::
  "'a fleet_db_scheme fleet_svc \<Rightarrow> string \<Rightarrow> string \<Rightarrow> string \<Rightarrow> ('a fleet_db_scheme, rollout) dbm" where
  "resume_rollout svc actor org i = bindE (get_rollout org i) (\<lambda>r.
     thenE (with_tx (transition r (if ro_gate r = None then RolloutStateRunning else RolloutStateWaitingGate)
                       (ro_stage r) (ro_gate r) actor))
       (thenE (advance svc (ro_id r)) (get_rollout org i)))"

fun enqueue_all :: "'s fleet_svc \<Rightarrow> agent_command list \<Rightarrow> ('s, unit) dbm" where
  "enqueue_all svc [] = ret ()"
| "enqueue_all svc (c # cs) = thenE (fs_queue svc c) (enqueue_all svc cs)"

text \<open>The loop runs from the last stage to the first: \<open>rollback_stages n\<close> treats stages \<open>n - 1\<close> down to 0.\<close>

fun rollback_stages ::
  "nat \<Rightarrow> 'a fleet_db_scheme fleet_svc \<Rightarrow> string \<Rightarrow> rollout \<Rightarrow> string \<Rightarrow> ('a fleet_db_scheme, unit) dbm" where
  "rollback_stages 0 svc org r version = ret ()"
| "rollback_stages (Suc stage) svc org r version =
     bindE (stage_members svc org (ro_stages r ! stage)) (\<lambda>members.
       thenE (enqueue_all svc (map (\<lambda>c. command_for r stage (cl_id c) version) members))
         (rollback_stages stage svc org r version))"

definition rollback_rollout ::
  "'a fleet_db_scheme fleet_svc \<Rightarrow> string \<Rightarrow> string \<Rightarrow> string \<Rightarrow> string \<Rightarrow> ('a fleet_db_scheme, rollout) dbm" where
  "rollback_rollout svc actor org i version =
     (if version = [] then throw FleetInvalidInput
      else bindE (get_rollout org i) (\<lambda>r.
        if ro_state r = RolloutStatePending \<or> ro_state r = RolloutStateRolledBack then throw InvalidTransition
        else if version = ro_version r then throw FleetInvalidInput
        else thenE (rollback_stages (length (ro_stages r)) svc org r version)
          (thenE (with_tx (if \<not> can_rollout_transition (ro_state r) RolloutStateRolledBack then throw InvalidTransition
                           else transition r RolloutStateRolledBack (ro_stage r) None actor))
             (get_rollout org i))))"

section \<open>The resume handler\<close>

text \<open>\<open>load\<close> is the \<open>ApprovalLoader\<close>, wired to \<open>get_request\<close>.\<close>

definition resume_handle ::
  "(string \<Rightarrow> string \<Rightarrow> ('a fleet_db_scheme, approval_request) dbm) \<Rightarrow> json \<Rightarrow> ('a fleet_db_scheme, unit) dbm" where
  "resume_handle load payload =
     bindE (lift_sum (jstring ''orgId'' payload)) (\<lambda>org.
     bindE (lift_sum (jstring ''approvalId'' payload)) (\<lambda>i.
     bindE (lift_sum (jstring ''state'' payload)) (\<lambda>st.
     bindE (load org i) (\<lambda>req.
       if ar_action req \<noteq> ApprovalActionRolloutStageGate then ret ()
       else bindE (lift_sum (jstring ''rolloutId'' (ar_spec req))) (\<lambda>ro.
         bindE (lift_sum (jint ''stage'' (ar_spec req))) (\<lambda>stage.
         bindE (lift_sum (jstring ''gate'' (ar_spec req))) (\<lambda>which.
           if st = approval_state_str Approved then gate_approved ro stage which
           else gate_rejected ro stage)))))))"

text \<open>The service as cmd/inari-server/main.go wires it; the seams to the policy service and the
  catalog have no part in rollouts.\<close>

definition fleet_service :: "'a fleet_db_scheme approvals_svc \<Rightarrow> 'a fleet_db_scheme fleet_svc" where
  "fleet_service asvc = \<lparr>fs_clusters = list_clusters, fs_queue = enqueue,
     fs_gates = Some (request_lifecycle_approval asvc), fs_decider = Some (decide asvc),
     fs_assigner = None, fs_pinner = None\<rparr>"

end
