(* ===== verification/RolloutSafety.thy ===== *)
theory RolloutSafety
  imports Rollouts
begin

text \<open>
  What rollouts guarantee. The locale \<open>rollout_invariant\<close> is the contract of a state predicate
  that survives every operation of the fleet manager on the rollouts \<open>may\<close> allows; it is
  interpreted on two predicates, the path of one rollout through its state machine and a
  rollout parked on a gate.
\<close>

section \<open>Reading a rollout\<close>

lemma get_rollout_row_read_only: "read_only (get_rollout_row i)"
  unfolding get_rollout_row_def by (rule read_only_sql) (auto simp: read_only_def split: option.splits)

lemma get_rollout_row_okE:
  assumes "get_rollout_row i s = (Inr r, s')"
  obtains "select_row (\<lambda>r. ro_id r = i) (rollouts s) = Some r" "same_tables s s'" "ro_id r = i"
proof -
  have "same_tables s s'" using assms get_rollout_row_read_only by (blast dest: read_onlyD)
  moreover have sel: "select_row (\<lambda>r. ro_id r = i) (rollouts s) = Some r"
    using assms unfolding get_rollout_row_def by (auto elim!: sql_okE split: option.splits)
  moreover from sel have "ro_id r = i" by (blast dest: select_row_SomeD)
  ultimately show ?thesis using that by blast
qed

lemma get_rollout_read_only: "read_only (get_rollout org i)"
  unfolding get_rollout_def by (rule read_only_bindE [OF get_rollout_row_read_only]) simp

lemma get_rollout_okE:
  assumes "get_rollout org i s = (Inr r, s')"
  obtains "select_row (\<lambda>r. ro_id r = i) (rollouts s) = Some r" "same_tables s s'" "ro_org r = org"
proof -
  have "same_tables s s'" using assms get_rollout_read_only by (blast dest: read_onlyD)
  moreover from assms obtain r1 s1 where "get_rollout_row i s = (Inr r1, s1)"
    and 2: "(if ro_org r1 \<noteq> org then throw FleetNotFound else ret r1) s1 = (Inr r, s')"
    unfolding get_rollout_def by (rule bindE_okE)
  moreover from 2 have "r1 = r \<and> ro_org r = org" by (auto simp: throw_def ret_def split: if_splits)
  ultimately show ?thesis using that by (auto elim: get_rollout_row_okE)
qed

section \<open>Predicates every operation keeps\<close>

lemma other_targets:
  assumes "\<And>t. rg_rollout (f t) = rg_rollout t"
  shows "filter (\<lambda>t. rg_rollout t \<noteq> i) (update_rows (target_key i cluster stage) f ts) =
     filter (\<lambda>t. rg_rollout t \<noteq> i) ts"
  by (induction ts) (auto simp: target_key_def assms)

lemma preserves_reconcile:
  assumes "\<And>cluster st h. preserves I (set_target_status i cluster stage st h)"
  shows "preserves I (reconcile_targets sts i stage ts c)"
proof (induction ts arbitrary: c)
  case Nil
  then show ?case by (cases c) (simp add: preserves_ret)
next
  case (Cons t ts)
  obtain p a f where c: "c = (p, a, f)" by (cases c)
  have "preserves I (thenE (set_target_status i (rg_cluster t) stage st h) (reconcile_targets sts i stage ts c))"
    for st h c by (intro preserves_thenE assms Cons)
  with Cons show ?case unfolding c
    by (simp split: target_status.splits option.splits command_status.splits)
qed

locale rollout_invariant =
  fixes I :: "'a fleet_db_scheme \<Rightarrow> bool"
    and may :: "string \<Rightarrow> bool"
  assumes log: "log_stable I"
    and cmds: "I s \<Longrightarrow> I (s\<lparr>agent_commands := cs\<rparr>)"
    and apprs: "I s \<Longrightarrow> I (s\<lparr>approvals := as\<rparr>)"
    and targets: "I s \<Longrightarrow> may i \<Longrightarrow>
      filter (\<lambda>t. rg_rollout t \<noteq> i) ts = filter (\<lambda>t. rg_rollout t \<noteq> i) (rollout_targets s) \<Longrightarrow>
      I (s\<lparr>rollout_targets := ts\<rparr>)"
    and moves: "I s \<Longrightarrow> may i \<Longrightarrow> can_rollout_transition want st \<or> st = want \<Longrightarrow>
      I (s\<lparr>rollouts := update_rows (\<lambda>r. ro_id r = i \<and> ro_state r = want)
             (\<lambda>r. r\<lparr>ro_state := st, ro_stage := stage, ro_gate := gctx, ro_updated := clock s\<rparr>) (rollouts s)\<rparr>)"
    and links: "I s \<Longrightarrow> may i \<Longrightarrow>
      I (s\<lparr>rollouts := update_rows (awaits_approval i stage which)
          (\<lambda>r. r\<lparr>ro_gate := map_option (\<lambda>gc. gc\<lparr>gc_approval := approval\<rparr>) (ro_gate r), ro_updated := clock s\<rparr>)
          (rollouts s)\<rparr>)"
    and adds: "I s \<Longrightarrow> ro_id row \<notin> ro_id ` set (rollouts s) \<Longrightarrow> I (s\<lparr>rollouts := rollouts s @ [row]\<rparr>)"
begin

lemma stable: "tx_stable I"
  by (rule log_stable_tx_stable [OF log])

lemma reads: "read_only m \<Longrightarrow> preserves I m"
  by (rule read_only_preserves [OF stable])

lemma keeps_set_state:
  "may i \<Longrightarrow> can_rollout_transition want st \<or> st = want \<Longrightarrow> preserves I (set_rollout_state i want st stage gctx)"
  unfolding set_rollout_state_def Let_def
  by (rule preserves_sql [OF stable], rule preservesI) (auto dest: moves)

lemma keeps_transition: "may (ro_id r) \<Longrightarrow> preserves I (transition r to stage gctx actor)"
  unfolding transition_def
  by (intro preserves_rules keeps_set_state preserves_emit [OF log]) auto

lemma keeps_transition_tx: "may (ro_id r) \<Longrightarrow> preserves I (with_tx (transition r to stage gctx actor))"
  by (rule preserves_with_tx [OF stable keeps_transition])

lemma keeps_set_gate_approval: "may i \<Longrightarrow> preserves I (set_gate_approval i stage which approval)"
  unfolding set_gate_approval_def
  by (rule preserves_sql [OF stable], rule preservesI) (auto dest: links)

lemma keeps_upsert_target: "may i \<Longrightarrow> preserves I (upsert_target i cluster stage st cmd)"
  unfolding upsert_target_def
proof (rule preserves_sql [OF stable], rule preservesI, goal_cases)
  case (1 s r s')
  from 1 show ?case by (auto split: if_splits intro!: targets [where i = i] simp: other_targets)
qed

lemma keeps_set_target_status: "may i \<Longrightarrow> preserves I (set_target_status i cluster stage st health)"
  unfolding set_target_status_def
proof (rule preserves_sql [OF stable], rule preserves_modify, goal_cases)
  case (1 s)
  from 1 show ?case by (auto intro!: targets [of s i] simp: other_targets)
qed

lemma keeps_enqueue: "preserves I (enqueue c)"
  unfolding enqueue_def
  by (rule preserves_sql [OF stable], rule preservesI) (auto split: if_splits dest: cmds)

lemma keeps_gate_request: "preserves I (request_lifecycle_approval asvc lin)"
  unfolding request_lifecycle_approval_def create_lifecycle_def insert_approval_def log_approval_def
  by (intro preserves_rules stable preserves_emit [OF log] preservesI)
     (auto simp: Let_def split: if_splits dest: apprs)

lemma keeps_members: "preserves I (cluster_set_members (fleet_service asvc) org i)"
  unfolding cluster_set_members_def
  by (intro preserves_rules reads get_cluster_set_read_only registry_lister.resolve_read_only)
     (simp add: fleet_service_def)

lemma keeps_collect: "preserves I (collect_members (fleet_service asvc) org out ids)"
  by (induction ids arbitrary: out) (auto intro!: preserves_rules keeps_members)

lemma keeps_stage_members: "preserves I (stage_members (fleet_service asvc) org st)"
  unfolding stage_members_def by (rule keeps_collect)

lemma keeps_request_gate: "may (ro_id r) \<Longrightarrow> preserves I (request_gate_approval (fleet_service asvc) r)"
  unfolding request_gate_approval_def
  by (auto simp: fleet_service_def split: option.splits intro!: preserves_rules keeps_gate_request keeps_set_gate_approval)

lemma transition_id: "transition r to stage gctx actor s = (Inr r', s') \<Longrightarrow> ro_id r' = ro_id r"
  unfolding transition_def by (auto split: if_splits elim!: throw_okE bindE_okE thenE_okE ret_okE)

lemma preserves_transition_then:
  assumes "may (ro_id r)" and "\<And>r'. ro_id r' = ro_id r \<Longrightarrow> preserves I (f r')"
  shows "preserves I (bindE (with_tx (transition r to stage gctx actor)) f)"
proof (rule preservesI)
  fix s q s' assume I: "I s" and run: "bindE (with_tx (transition r to stage gctx actor)) f s = (q, s')"
  obtain q1 s1 where 1: "with_tx (transition r to stage gctx actor) s = (q1, s1)" by fastforce
  have I1: "I s1" by (rule preservesD [OF keeps_transition_tx [OF assms(1)] I 1])
  show "I s'"
  proof (cases q1)
    case (Inl e)
    with run 1 I1 show ?thesis by (simp add: bindE_def)
  next
    case (Inr r')
    with 1 have "ro_id r' = ro_id r" by (auto elim!: with_tx_okE dest: transition_id)
    moreover from run 1 Inr have "f r' s1 = (q, s')" by (simp add: bindE_def)
    ultimately show ?thesis using assms(2) I1 by (blast intro: preservesD)
  qed
qed

lemma keeps_enter_gate: "may (ro_id r) \<Longrightarrow> preserves I (enter_gate (fleet_service asvc) r stage which g)"
  unfolding enter_gate_def
  by (rule preserves_bindE [OF preserves_asks], rule preserves_transition_then)
     (auto intro!: preserves_ret keeps_request_gate)

lemma keeps_clear_gate: "may (ro_id r) \<Longrightarrow> preserves I (clear_gate r)"
  unfolding clear_gate_def Let_def by (intro preserves_rules keeps_transition_tx)

lemma keeps_fail: "may (ro_id r) \<Longrightarrow> preserves I (fail_rollout r)"
  unfolding fail_rollout_def by (intro preserves_rules keeps_transition_tx)

lemma keeps_advance_stage: "may (ro_id r) \<Longrightarrow> preserves I (advance_stage r next_stage)"
  unfolding advance_stage_def
  by (intro preserves_rules stable keeps_set_state preserves_emit [OF log]) auto

lemma keeps_deliver: "may (ro_id r) \<Longrightarrow> preserves I (deliver_targets (fleet_service asvc) r stage slots ts)"
  by (induction ts arbitrary: slots)
     (auto simp: Let_def fleet_service_def intro!: preserves_rules keeps_enqueue keeps_upsert_target)

lemma keeps_list_targets: "preserves I (list_targets i stage)"
  unfolding list_targets_def by (intro preserves_rules stable)

lemma keeps_deliver_batch: "may (ro_id r) \<Longrightarrow> preserves I (deliver_batch (fleet_service asvc) r stage slots)"
  unfolding deliver_batch_def by (intro preserves_rules keeps_list_targets keeps_deliver)

lemma keeps_seed: "may i \<Longrightarrow> preserves I (seed_targets i stage cs)"
  by (induction cs) (auto intro!: preserves_rules keeps_upsert_target)

lemma keeps_reconcile: "may i \<Longrightarrow> preserves I (reconcile_targets sts i stage ts c)"
  by (rule preserves_reconcile) (rule keeps_set_target_status)

lemma keeps_start_stage: "may (ro_id r) \<Longrightarrow> preserves I (start_stage (fleet_service asvc) r stage st)"
  unfolding start_stage_def
  by (intro preserves_rules keeps_stage_members keeps_fail keeps_seed keeps_enter_gate keeps_deliver_batch)

lemma keeps_continue_stage:
  assumes "may (ro_id r)"
  shows "preserves I (continue_stage (fleet_service asvc) r stage st ts)"
proof -
  have "preserves I (command_statuses ids)" for ids
    unfolding command_statuses_def by (intro preserves_rules stable)
  then show ?thesis unfolding continue_stage_def using assms
    by (auto intro!: preserves_rules keeps_reconcile keeps_fail keeps_stage_members keeps_deliver_batch keeps_enter_gate
      keeps_advance_stage split: prod.splits option.splits)
qed

lemma preserves_row_then:
  assumes "\<And>r. ro_id r = i \<Longrightarrow> preserves I (f r)"
  shows "preserves I (bindE (get_rollout_row i) f)"
proof (rule preservesI)
  fix s q s' assume I: "I s" and run: "bindE (get_rollout_row i) f s = (q, s')"
  obtain q1 s1 where 1: "get_rollout_row i s = (q1, s1)" by fastforce
  have I1: "I s1" by (rule preservesD [OF reads [OF get_rollout_row_read_only] I 1])
  show "I s'"
  proof (cases q1)
    case (Inl e)
    with run 1 I1 show ?thesis by (simp add: bindE_def)
  next
    case (Inr r)
    with 1 have "ro_id r = i" by (auto elim: get_rollout_row_okE)
    moreover from run 1 Inr have "f r s1 = (q, s')" by (simp add: bindE_def)
    ultimately show ?thesis using assms I1 by (blast intro: preservesD)
  qed
qed

lemma preserves_rollout_then:
  assumes "\<And>r. ro_id r = i \<Longrightarrow> preserves I (f r)"
  shows "preserves I (bindE (get_rollout org i) f)"
proof -
  have eq: "bindE (get_rollout org i) f =
      bindE (get_rollout_row i) (\<lambda>r. if ro_org r \<noteq> org then throw FleetNotFound else f r)"
    by (rule ext) (auto simp: get_rollout_def bindE_def throw_def ret_def split: prod.splits sum.splits)
  show ?thesis unfolding eq by (intro preserves_row_then preserves_rules assms)
qed

lemma keeps_get_rollout: "preserves I (get_rollout org i)"
  by (rule reads [OF get_rollout_read_only])

lemma keeps_advance_once: "may i \<Longrightarrow> preserves I (advance_once (fleet_service asvc) i)"
  unfolding advance_once_def
  by (rule preserves_row_then)
     (auto split: rollout_state.splits option.splits intro!: preserves_rules keeps_transition_tx keeps_list_targets
       keeps_start_stage keeps_continue_stage keeps_clear_gate keeps_request_gate)

lemma keeps_advance: "may i \<Longrightarrow> preserves I (advance (fleet_service asvc) i)"
proof -
  assume "may i"
  then have "preserves I (advance_steps n (fleet_service asvc) i)" for n
    by (induction n) (auto intro!: preserves_rules keeps_advance_once)
  then show ?thesis by (simp add: advance_def)
qed

lemma keeps_start: "may i \<Longrightarrow> preserves I (start_rollout (fleet_service asvc) actor org i)"
  unfolding start_rollout_def
  by (rule preserves_rollout_then) (auto intro!: preserves_rules keeps_transition_tx keeps_advance keeps_get_rollout)

lemma keeps_stop: "may i \<Longrightarrow> preserves I (stop_rollout actor org i)"
  unfolding stop_rollout_def
  by (rule preserves_rollout_then) (auto intro!: preserves_rules keeps_transition_tx keeps_get_rollout)

lemma keeps_resume: "may i \<Longrightarrow> preserves I (resume_rollout (fleet_service asvc) actor org i)"
  unfolding resume_rollout_def
  by (rule preserves_rollout_then) (auto intro!: preserves_rules keeps_transition_tx keeps_advance keeps_get_rollout)

lemma keeps_enqueue_all: "preserves I (enqueue_all (fleet_service asvc) cs)"
  by (induction cs) (auto simp: fleet_service_def intro!: preserves_rules keeps_enqueue)

lemma keeps_rollback_stages: "preserves I (rollback_stages n (fleet_service asvc) org r version)"
  by (induction n) (auto intro!: preserves_rules keeps_stage_members keeps_enqueue_all)

lemma keeps_rollback: "may i \<Longrightarrow> preserves I (rollback_rollout (fleet_service asvc) actor org i version)"
  unfolding rollback_rollout_def
  by (intro preserves_if preserves_throw preserves_rollout_then)
     (auto intro!: preserves_rules stable keeps_rollback_stages keeps_transition keeps_get_rollout)

lemma keeps_gate_approved: "may i \<Longrightarrow> preserves I (gate_approved i stage which)"
  unfolding gate_approved_def by (rule preserves_row_then) (auto intro!: preserves_rules keeps_clear_gate)

lemma keeps_gate_rejected: "may i \<Longrightarrow> preserves I (gate_rejected i stage)"
  unfolding gate_rejected_def by (rule preserves_row_then) (auto intro!: preserves_rules keeps_transition_tx)

lemma keeps_create: "preserves I (create_rollout (fleet_service asvc) actor org cin)"
proof -
  have row: "preserves I (create_rollout_row r)" for r
    unfolding create_rollout_row_def
    by (rule preserves_sql [OF stable], rule preservesI) (auto simp: Let_def split: if_splits intro!: adds)
  have sets: "preserves I (foldr (\<lambda>i m. thenE (get_cluster_set org i) m) ids (ret ()))" for ids
    by (induction ids) (auto intro!: preserves_ret preserves_thenE reads [OF get_cluster_set_read_only])
  show ?thesis unfolding create_rollout_def
    by (intro preserves_rules stable row sets preserves_emit [OF log])
qed

end

section \<open>The path of a rollout\<close>

definition same_definition :: "rollout \<Rightarrow> rollout \<Rightarrow> bool" where
  "same_definition r r' \<longleftrightarrow> ro_id r' = ro_id r \<and> ro_org r' = ro_org r \<and> ro_name r' = ro_name r \<and> ro_kind r' = ro_kind r
     \<and> ro_target r' = ro_target r \<and> ro_version r' = ro_version r \<and> ro_stages r' = ro_stages r"

definition rollout_moves :: "(rollout_state \<times> rollout_state) set" where
  "rollout_moves = {(a, b). can_rollout_transition a b}"

definition on_path :: "rollout \<Rightarrow> 'a fleet_db_scheme \<Rightarrow> bool" where
  "on_path r0 s \<longleftrightarrow> (\<exists>r. select_row (\<lambda>r. ro_id r = ro_id r0) (rollouts s) = Some r \<and> same_definition r0 r
     \<and> (ro_state r0, ro_state r) \<in> rollout_moves\<^sup>*)"

lemma select_row_append_left: "select_row P xs = Some r \<Longrightarrow> select_row P (xs @ ys) = Some r"
  by (induction xs) (auto simp: select_row_def)

lemma on_path_update:
  assumes "on_path r0 s" and id: "\<And>r. ro_id (f r) = ro_id r"
    and upd: "\<And>r. P r \<Longrightarrow> same_definition r0 r \<Longrightarrow> (ro_state r0, ro_state r) \<in> rollout_moves\<^sup>* \<Longrightarrow>
      same_definition r0 (f r) \<and> (ro_state r0, ro_state (f r)) \<in> rollout_moves\<^sup>*"
  shows "on_path r0 (s\<lparr>rollouts := update_rows P f (rollouts s)\<rparr>)"
proof -
  from assms(1) obtain r where r: "select_row (\<lambda>r. ro_id r = ro_id r0) (rollouts s) = Some r"
    and d: "same_definition r0 r" "(ro_state r0, ro_state r) \<in> rollout_moves\<^sup>*" by (auto simp: on_path_def)
  have "select_row (\<lambda>r. ro_id r = ro_id r0) (update_rows P f (rollouts s)) = Some (if P r then f r else r)"
    by (simp add: select_row_update_key id r)
  moreover have "same_definition r0 (if P r then f r else r)
      \<and> (ro_state r0, ro_state (if P r then f r else r)) \<in> rollout_moves\<^sup>*"
    using upd d by simp
  ultimately show ?thesis unfolding on_path_def by simp
qed

interpretation path: rollout_invariant "on_path r0 :: 'a fleet_db_scheme \<Rightarrow> bool" "\<lambda>_. True" for r0
proof
  show "log_stable (on_path r0 :: 'a fleet_db_scheme \<Rightarrow> bool)" by (simp add: log_stable_def on_path_def)
next
  fix s :: "'a fleet_db_scheme" and i want st stage gctx
  assume I: "on_path r0 s" and legal: "can_rollout_transition want st \<or> st = want"
  from I show "on_path r0 (s\<lparr>rollouts := update_rows (\<lambda>r. ro_id r = i \<and> ro_state r = want)
             (\<lambda>r. r\<lparr>ro_state := st, ro_stage := stage, ro_gate := gctx, ro_updated := clock s\<rparr>) (rollouts s)\<rparr>)"
    by (rule on_path_update) (use legal in \<open>auto simp: same_definition_def rollout_moves_def intro: rtrancl_into_rtrancl\<close>)
next
  fix s :: "'a fleet_db_scheme" and i stage which approval
  assume "on_path r0 s"
  then show "on_path r0 (s\<lparr>rollouts := update_rows (awaits_approval i stage which)
          (\<lambda>r. r\<lparr>ro_gate := map_option (\<lambda>gc. gc\<lparr>gc_approval := approval\<rparr>) (ro_gate r), ro_updated := clock s\<rparr>)
          (rollouts s)\<rparr>)"
    by (rule on_path_update) (auto simp: same_definition_def)
next
  fix s :: "'a fleet_db_scheme" and row
  assume "on_path r0 s"
  then show "on_path r0 (s\<lparr>rollouts := rollouts s @ [row]\<rparr>)"
    by (auto simp: on_path_def dest: select_row_append_left)
qed (simp_all add: on_path_def)

text \<open>
  One step of the system on the rollouts: an operation of the service with any arguments and
  any statement failures, a resumed approval, the advance of one rollout by the sweep, or the
  rest of the world, which leaves the rollouts alone.
\<close>

inductive fleet_step :: "'a fleet_db_scheme approvals_svc \<Rightarrow> 'a fleet_db_scheme \<Rightarrow> 'a fleet_db_scheme \<Rightarrow> bool"
  for asvc where
  f_create: "create_rollout (fleet_service asvc) actor org cin s = (r1, s') \<Longrightarrow> fleet_step asvc s s'"
| f_start: "start_rollout (fleet_service asvc) actor org i s = (r2, s') \<Longrightarrow> fleet_step asvc s s'"
| f_stop: "stop_rollout actor org i s = (r3, s') \<Longrightarrow> fleet_step asvc s s'"
| f_resume: "resume_rollout (fleet_service asvc) actor org i s = (r4, s') \<Longrightarrow> fleet_step asvc s s'"
| f_rollback: "rollback_rollout (fleet_service asvc) actor org i version s = (r5, s') \<Longrightarrow> fleet_step asvc s s'"
| f_advance: "advance (fleet_service asvc) i s = (r6, s') \<Longrightarrow> fleet_step asvc s s'"
| f_transition: "with_tx (transition r to stage gctx actor) s = (r7, s') \<Longrightarrow> fleet_step asvc s s'"
| f_approved: "gate_approved i n which s = (r8, s') \<Longrightarrow> fleet_step asvc s s'"
| f_rejected: "gate_rejected i n s = (r9, s') \<Longrightarrow> fleet_step asvc s s'"
| f_world: "rollouts s' = rollouts s \<Longrightarrow> fleet_step asvc s s'"

lemma on_path_step:
  assumes "fleet_step asvc s s'" and "on_path r0 s"
  shows "on_path r0 s'"
  using assms
proof (induction rule: fleet_step.induct)
  case (f_create actor org cin s r1 s')
  show ?case by (rule preservesD [OF path.keeps_create f_create(2,1)])
next
  case (f_start actor org i s r2 s')
  show ?case by (rule preservesD [OF path.keeps_start [OF TrueI] f_start(2,1)])
next
  case (f_stop actor org i s r3 s')
  show ?case by (rule preservesD [OF path.keeps_stop [OF TrueI] f_stop(2,1)])
next
  case (f_resume actor org i s r4 s')
  show ?case by (rule preservesD [OF path.keeps_resume [OF TrueI] f_resume(2,1)])
next
  case (f_rollback actor org i version s r5 s')
  show ?case by (rule preservesD [OF path.keeps_rollback [OF TrueI] f_rollback(2,1)])
next
  case (f_advance i s r6 s')
  show ?case by (rule preservesD [OF path.keeps_advance [OF TrueI] f_advance(2,1)])
next
  case (f_transition r to stage gctx actor s r7 s')
  show ?case by (rule preservesD [OF path.keeps_transition_tx [OF TrueI] f_transition(2,1)])
next
  case (f_approved i n which s r8 s')
  show ?case by (rule preservesD [OF path.keeps_gate_approved [OF TrueI] f_approved(2,1)])
next
  case (f_rejected i n s r9 s')
  show ?case by (rule preservesD [OF path.keeps_gate_rejected [OF TrueI] f_rejected(2,1)])
next
  case (f_world s' s)
  then show ?case by (simp add: on_path_def)
qed

text \<open>(C9) Whatever the service does, with any interleaving, stale copies and statement failures, a rollout moves
  only along the transition table, and its definition (org, name, kind, target, version and
  stages) never changes. A rolled-back rollout therefore stays rolled back.\<close>

theorem rollout_follows_table:
  assumes "(fleet_step asvc)\<^sup>*\<^sup>* s s'"
    and "select_row (\<lambda>r. ro_id r = i) (rollouts s) = Some r"
  shows "\<exists>r'. select_row (\<lambda>r. ro_id r = i) (rollouts s') = Some r' \<and> same_definition r r'
    \<and> (ro_state r, ro_state r') \<in> {(a, b). can_rollout_transition a b}\<^sup>*"
proof -
  from assms(2) have id: "ro_id r = i" by (auto dest: select_row_SomeD)
  have "on_path r s" using assms(2) id by (auto simp: on_path_def same_definition_def)
  with assms(1) have "on_path r s'"
    by (induction rule: rtranclp_induct) (auto intro: on_path_step)
  then show ?thesis using id by (simp add: on_path_def rollout_moves_def)
qed

section \<open>A parked rollout\<close>

definition targets_of :: "string \<Rightarrow> rollout_target list \<Rightarrow> rollout_target list" where
  "targets_of i ts = filter (\<lambda>t. rg_rollout t = i) ts"

definition parked :: "rollout \<Rightarrow> rollout_target list \<Rightarrow> int \<Rightarrow> 'a fleet_db_scheme \<Rightarrow> bool" where
  "parked r0 ts0 now s \<longleftrightarrow> clock s = now \<and> select_row (\<lambda>r. ro_id r = ro_id r0) (rollouts s) = Some r0
     \<and> targets_of (ro_id r0) (rollout_targets s) = ts0"

lemma parked_update:
  assumes "parked r0 ts0 now s" and "\<And>r. ro_id (f r) = ro_id r" and "\<not> P r0"
  shows "parked r0 ts0 now (s\<lparr>rollouts := update_rows P f (rollouts s)\<rparr>)"
  using assms by (simp add: parked_def select_row_update_key)

lemma targets_of_other:
  assumes "filter (\<lambda>t. rg_rollout t \<noteq> i) ts = filter (\<lambda>t. rg_rollout t \<noteq> i) ts'" and "i \<noteq> j"
  shows "targets_of j ts = targets_of j ts'"
proof -
  have "targets_of j ts = targets_of j (filter (\<lambda>t. rg_rollout t \<noteq> i) ts)" for ts
    unfolding targets_of_def filter_filter by (rule filter_cong) (use assms(2) in auto)
  with assms(1) show ?thesis by metis
qed

interpretation hold: rollout_invariant "parked r0 ts0 now :: 'a fleet_db_scheme \<Rightarrow> bool" "\<lambda>i. i \<noteq> ro_id r0" for r0 ts0 now
proof
  show "log_stable (parked r0 ts0 now :: 'a fleet_db_scheme \<Rightarrow> bool)" by (simp add: log_stable_def parked_def)
next
  fix s :: "'a fleet_db_scheme" and i ts
  assume "parked r0 ts0 now s" and "i \<noteq> ro_id r0"
    and "filter (\<lambda>t. rg_rollout t \<noteq> i) ts = filter (\<lambda>t. rg_rollout t \<noteq> i) (rollout_targets s)"
  then show "parked r0 ts0 now (s\<lparr>rollout_targets := ts\<rparr>)"
    using targets_of_other [of i ts "rollout_targets s" "ro_id r0"] by (simp add: parked_def)
next
  fix s :: "'a fleet_db_scheme" and i want st stage gctx
  assume "parked r0 ts0 now s" and "i \<noteq> ro_id r0"
  then show "parked r0 ts0 now (s\<lparr>rollouts := update_rows (\<lambda>r. ro_id r = i \<and> ro_state r = want)
             (\<lambda>r. r\<lparr>ro_state := st, ro_stage := stage, ro_gate := gctx, ro_updated := clock s\<rparr>) (rollouts s)\<rparr>)"
    by (intro parked_update) auto
next
  fix s :: "'a fleet_db_scheme" and i stage which approval
  assume "parked r0 ts0 now s" and "i \<noteq> ro_id r0"
  then show "parked r0 ts0 now (s\<lparr>rollouts := update_rows (awaits_approval i stage which)
          (\<lambda>r. r\<lparr>ro_gate := map_option (\<lambda>gc. gc\<lparr>gc_approval := approval\<rparr>) (ro_gate r), ro_updated := clock s\<rparr>)
          (rollouts s)\<rparr>)"
    by (intro parked_update) (auto simp: awaits_approval_def)
next
  fix s :: "'a fleet_db_scheme" and row
  assume "parked r0 ts0 now s"
  then show "parked r0 ts0 now (s\<lparr>rollouts := rollouts s @ [row]\<rparr>)"
    by (auto simp: parked_def dest: select_row_append_left)
qed (simp_all add: parked_def)

definition gate_closed :: "int \<Rightarrow> rollout \<Rightarrow> bool" where
  "gate_closed now r \<longleftrightarrow> ro_state r = RolloutStateWaitingGate \<and> (\<exists>gc. ro_gate r = Some gc
     \<and> \<not> (gc_type gc = ''approval'' \<and> gc_approval gc = []) \<and> \<not> (gc_type gc = ''wait'' \<and> wait_over now gc))"

lemma advance_once_parked:
  assumes I: "parked r0 ts0 now s" and closed: "gate_closed now r0"
    and run: "advance_once svc (ro_id r0) s = (res, s')"
  shows "parked r0 ts0 now s' \<and> res \<noteq> Inr False"
proof -
  obtain q s1 where q: "get_rollout_row (ro_id r0) s = (q, s1)" by fastforce
  have I1: "parked r0 ts0 now s1" by (rule preservesD [OF hold.reads [OF get_rollout_row_read_only] I q])
  show ?thesis
  proof (cases q)
    case (Inl e)
    with run q I1 show ?thesis by (auto simp: advance_once_def bindE_def)
  next
    case (Inr r)
    with q I have "r = r0" by (auto elim!: get_rollout_row_okE simp: parked_def)
    with run q Inr I1 closed show ?thesis
      by (auto simp: advance_once_def gate_closed_def bindE_def asks_def ret_def parked_def split: if_splits)
  qed
qed

lemma advance_parked:
  assumes "parked r0 ts0 now s" and "gate_closed now r0" and "advance (fleet_service asvc) i s = (res, s')"
  shows "parked r0 ts0 now s'"
proof (cases "i = ro_id r0")
  case True
  have "advance_steps n svc (ro_id r0) s = (res, s') \<Longrightarrow> parked r0 ts0 now s'" for n svc
  proof (cases n)
    case 0
    then show "advance_steps n svc (ro_id r0) s = (res, s') \<Longrightarrow> parked r0 ts0 now s'" using assms(1) by (simp add: ret_def)
  next
    case (Suc k)
    obtain q s1 where q: "advance_once svc (ro_id r0) s = (q, s1)" by fastforce
    with advance_once_parked [OF assms(1,2) q] Suc
    show "advance_steps n svc (ro_id r0) s = (res, s') \<Longrightarrow> parked r0 ts0 now s'"
      by (cases q) (auto simp: bindE_def ret_def split: if_splits)
  qed
  with assms(3) True show ?thesis by (simp add: advance_def)
next
  case False
  show ?thesis by (rule preservesD [OF hold.keeps_advance [OF False] assms(1,3)])
qed

lemma sweep_parked:
  assumes "parked r0 ts0 now s" and "gate_closed now r0" and "advance_sweep (fleet_service asvc) s = (res, s')"
  shows "parked r0 ts0 now s'"
proof -
  have one: "preserves (parked r0 ts0 now) (advance (fleet_service asvc) i)" for i
    using advance_parked [OF _ assms(2)] by (blast intro: preservesI)
  have "preserves (parked r0 ts0 now) (advance_all (fleet_service asvc) rs)" for rs
    by (induction rs) (auto intro!: preserves_rules one)
  then have "preserves (parked r0 ts0 now) (advance_sweep (fleet_service asvc))"
    unfolding advance_sweep_def list_active_rollouts_def by (intro preserves_rules hold.stable)
  then show ?thesis using assms(1,3) by (blast intro: preservesD)
qed

text \<open>(C10) A gate holds. However often the advance loop runs, with any failures and whatever the other rollouts
  do, a rollout parked on an approval gate with its request linked, or on a wait gate whose time
  is not over, keeps its row and its targets: nothing of the stage is delivered before the gate
  opens.\<close>

theorem gate_holds_under_advance:
  assumes "advance_sweep (fleet_service asvc) s = (res, s')"
    and "select_row (\<lambda>r. ro_id r = i) (rollouts s) = Some r"
    and "ro_state r = RolloutStateWaitingGate" and "ro_gate r = Some gc"
    and "(gc_type gc = ''approval'' \<and> gc_approval gc \<noteq> [])
      \<or> (gc_type gc = ''wait'' \<and> 0 \<le> gc_wait gc \<and> gc_wait gc * second < 2 ^ 63
         \<and> clock s < gc_entered gc + gc_wait gc * second)"
  shows "select_row (\<lambda>r. ro_id r = i) (rollouts s') = Some r
    \<and> targets_of i (rollout_targets s') = targets_of i (rollout_targets s)"
proof -
  from assms(2) have id: "ro_id r = i" by (auto dest: select_row_SomeD)
  let ?ts = "targets_of i (rollout_targets s)"
  have "parked r ?ts (clock s) s" using assms(2) id by (simp add: parked_def)
  moreover have "gate_closed (clock s) r"
    using assms(3-5) by (auto simp: gate_closed_def wait_over_def wrap64_small second_def)
  ultimately have "parked r ?ts (clock s) s'" using assms(1) by (rule sweep_parked)
  then show ?thesis using id by (simp add: parked_def)
qed

end
