(* ===== verification/RolloutDelivery.thy ===== *)
theory RolloutDelivery
  imports RolloutSafety
begin

text \<open>
  What the delivery of a rollout guarantees: a stage is left only when all its targets are
  healthy, the number of targets in flight stays within the concurrency bound, command ids
  identify rollout, stage, cluster and direction, and a rollback reaches every member.
\<close>

section \<open>Targets of a stage\<close>

definition key_of :: "rollout_target \<Rightarrow> string \<times> string \<times> nat" where
  "key_of t = (rg_rollout t, rg_cluster t, rg_stage t)"

definition in_stage :: "string \<Rightarrow> nat \<Rightarrow> rollout_target \<Rightarrow> bool" where
  "in_stage i stage t \<longleftrightarrow> rg_rollout t = i \<and> rg_stage t = stage"

definition delivered_count :: "string \<Rightarrow> nat \<Rightarrow> rollout_target list \<Rightarrow> nat" where
  "delivered_count i stage ts = length (filter (\<lambda>t. in_stage i stage t \<and> rg_status t = RolloutTargetDelivered) ts)"

lemma stage_targets_set: "set (stage_targets i stage ts) = {t \<in> set ts. in_stage i stage t}"
  by (auto simp: stage_targets_def in_stage_def)

lemma set_target_status_okE:
  assumes "set_target_status i cluster stage st h s = (Inr u, s')"
  obtains fs where "s' = s\<lparr>faults := fs, rollout_targets := update_rows (target_key i cluster stage)
       (\<lambda>t. t\<lparr>rg_status := st, rg_health := h, rg_updated := clock s\<rparr>) (rollout_targets s)\<rparr>"
  using assms unfolding set_target_status_def by (auto elim!: sql_okE modify_okE)

text \<open>The counters only grow.\<close>

lemma reconcile_counts_grow:
  "reconcile_targets sts i stage ts (p, a, f) s = (Inr (p', a', f'), s') \<Longrightarrow> p \<le> p' \<and> a \<le> a' \<and> f \<le> f'"
proof (induction ts arbitrary: p a f s)
  case Nil
  then show ?case by (simp add: ret_def)
next
  case (Cons t ts)
  have upd: "p \<le> p' \<and> a \<le> a' \<and> f \<le> f'"
    if "thenE (set_target_status i (rg_cluster t) stage st h) (reconcile_targets sts i stage ts (p, a, g)) s
        = (Inr (p', a', f'), s')" and "f \<le> g" for st h g
    using that by (auto elim!: thenE_okE dest!: Cons.IH)
  show ?case
  proof (cases "rg_status t")
    case RolloutTargetDelivered
    with Cons.prems show ?thesis
      by (cases "sts (rg_command t)")
         (auto dest!: Cons.IH upd split: command_status.splits if_splits)
  qed (use Cons.prems in \<open>auto dest!: Cons.IH\<close>)
qed

text \<open>Rows of the stage that are not healthy yet have a copy in the list still to be visited.\<close>

definition unhealthy_listed :: "string \<Rightarrow> nat \<Rightarrow> rollout_target list \<Rightarrow> rollout_target list \<Rightarrow> bool" where
  "unhealthy_listed i stage ts rows \<longleftrightarrow> (\<forall>x \<in> set rows. in_stage i stage x \<longrightarrow> rg_status x = RolloutTargetHealthy
     \<or> (\<exists>t \<in> set ts. rg_cluster t = rg_cluster x \<and> rg_status t \<noteq> RolloutTargetHealthy))"

lemma reconcile_all_healthy:
  assumes "reconcile_targets sts i stage ts (p, a, f) s = (Inr (p, a, f), s')"
    and "unhealthy_listed i stage ts (rollout_targets s)"
  shows "unhealthy_listed i stage [] (rollout_targets s')"
  using assms
proof (induction ts arbitrary: s)
  case Nil
  then show ?case by (simp add: ret_def)
next
  case (Cons t ts)
  show ?case
  proof (cases "rg_status t")
    case RolloutTargetPending
    with Cons.prems(1) show ?thesis by (auto dest: reconcile_counts_grow)
  next
    case RolloutTargetFailed
    with Cons.prems(1) show ?thesis by (auto dest: reconcile_counts_grow)
  next
    case RolloutTargetHealthy
    with Cons.prems have "unhealthy_listed i stage ts (rollout_targets s)"
      by (auto simp: unhealthy_listed_def)
    with Cons RolloutTargetHealthy show ?thesis by simp
  next
    case RolloutTargetDelivered
    show ?thesis
    proof (cases "sts (rg_command t) = Some CommandAcked")
      case True
      with Cons.prems(1) RolloutTargetDelivered obtain u s1 where
        1: "set_target_status i (rg_cluster t) stage RolloutTargetHealthy ''healthy'' s = (Inr u, s1)"
        and 2: "reconcile_targets sts i stage ts (p, a, f) s1 = (Inr (p, a, f), s')"
        by (auto elim!: thenE_okE)
      from 1 obtain fs where "rollout_targets s1 = update_rows (target_key i (rg_cluster t) stage)
         (\<lambda>t. t\<lparr>rg_status := RolloutTargetHealthy, rg_health := ''healthy'', rg_updated := clock s\<rparr>) (rollout_targets s)"
        by (auto elim!: set_target_status_okE)
      then have "unhealthy_listed i stage ts (rollout_targets s1)"
        unfolding unhealthy_listed_def
      proof (simp only: ball_update_rows, intro ballI impI)
        fix x assume x: "x \<in> set (rollout_targets s)"
          and st: "in_stage i stage (if target_key i (rg_cluster t) stage x then x
             \<lparr>rg_status := RolloutTargetHealthy, rg_health := ''healthy'', rg_updated := clock s\<rparr> else x)"
        then have "in_stage i stage x" by (auto simp: in_stage_def split: if_splits)
        with x Cons.prems(2) have old: "rg_status x = RolloutTargetHealthy \<or>
           (\<exists>t' \<in> set (t # ts). rg_cluster t' = rg_cluster x \<and> rg_status t' \<noteq> RolloutTargetHealthy)"
          by (simp only: unhealthy_listed_def)
        show "rg_status (if target_key i (rg_cluster t) stage x then x
             \<lparr>rg_status := RolloutTargetHealthy, rg_health := ''healthy'', rg_updated := clock s\<rparr> else x) = RolloutTargetHealthy \<or>
           (\<exists>t' \<in> set ts. rg_cluster t' = rg_cluster (if target_key i (rg_cluster t) stage x then x
             \<lparr>rg_status := RolloutTargetHealthy, rg_health := ''healthy'', rg_updated := clock s\<rparr> else x)
             \<and> rg_status t' \<noteq> RolloutTargetHealthy)"
        proof (cases "target_key i (rg_cluster t) stage x")
          case False
          with \<open>in_stage i stage x\<close> have "rg_cluster t \<noteq> rg_cluster x"
            by (auto simp: target_key_def in_stage_def)
          with old False show ?thesis by simp
        qed simp
      qed
      with 2 show ?thesis by (rule Cons.IH)
    next
      case False
      with Cons.prems(1) RolloutTargetDelivered show ?thesis
        by (auto split: option.splits command_status.splits elim!: thenE_okE dest!: reconcile_counts_grow)
    qed
  qed
qed

section \<open>Leaving a stage\<close>

lemma reconcile_rollouts:
  assumes "reconcile_targets sts i stage ts c s = (res, s')"
  shows "rollouts s' = rollouts s"
proof -
  let ?I = "\<lambda>x. rollouts x = rollouts s"
  have "preserves ?I (set_target_status i cluster stage st h)" for cluster st h
    unfolding set_target_status_def
    by (intro preserves_sql preserves_modify) (auto simp: tx_stable_def elim: same_tablesE)
  then have "preserves ?I (reconcile_targets sts i stage ts c)" by (rule preserves_reconcile)
  from preservesD [OF this _ assms] show ?thesis by simp
qed

lemma command_statuses_read_only: "read_only (command_statuses ids)"
  unfolding command_statuses_def by (auto intro: read_only_sql)

lemma list_targets_read_only: "read_only (list_targets i stage)"
  unfolding list_targets_def by (rule read_only_sql) simp

lemma list_targets_okE:
  assumes "list_targets i stage s = (Inr ts, s')"
  obtains "ts = stage_targets i stage (rollout_targets s)" "same_tables s s'"
proof -
  have "same_tables s s'" using assms list_targets_read_only by (blast dest: read_onlyD)
  moreover have "ts = stage_targets i stage (rollout_targets s)"
    using assms unfolding list_targets_def by (auto elim!: sql_okE simp: asks_def)
  ultimately show ?thesis by (intro that)
qed

lemma set_rollout_state_okE:
  assumes "set_rollout_state i want st stage gctx s = (Inr ok, s')"
  obtains fs where "ok \<longleftrightarrow> rows_affected (\<lambda>r. ro_id r = i \<and> ro_state r = want) (rollouts s) = 1"
    and "s' = s\<lparr>faults := fs, rollouts := update_rows (\<lambda>r. ro_id r = i \<and> ro_state r = want)
             (\<lambda>r. r\<lparr>ro_state := st, ro_stage := stage, ro_gate := gctx, ro_updated := clock s\<rparr>) (rollouts s)\<rparr>"
  using assms unfolding set_rollout_state_def Let_def by (auto elim!: sql_okE)

lemma advance_stage_okE:
  assumes "advance_stage r next_stage s = (Inr u, s')"
  obtains "rollout_targets s' = rollout_targets s"
    and "rollouts s' = update_rows (\<lambda>x. ro_id x = ro_id r \<and> ro_state x = ro_state r)
      (\<lambda>x. x\<lparr>ro_state := ro_state r, ro_stage := next_stage, ro_gate := None, ro_updated := clock s\<rparr>) (rollouts s)"
  using assms unfolding advance_stage_def
  by (auto elim!: with_tx_okE bindE_okE set_rollout_state_okE emit_okE throw_okE split: if_splits)

lemma continue_stage_False:
  assumes "continue_stage svc r stage st ts s = (Inr False, s')"
  obtains sts s1 s2 u where "command_statuses (awaited_commands ts) s = (Inr sts, s1)"
    and "reconcile_targets sts (ro_id r) stage ts (0, 0, 0) s1 = (Inr (0, 0, 0), s2)"
    and "advance_stage r (stage + 1) s2 = (Inr u, s')"
  using assms unfolding continue_stage_def
  by (auto elim!: bindE_okE thenE_okE ret_okE split: prod.splits if_splits option.splits)

lemma start_stage_True: "start_stage svc r stage st s = (Inr b, s') \<Longrightarrow> b"
  unfolding start_stage_def
  by (auto elim!: bindE_okE thenE_okE ret_okE lift_sum_okE split: if_splits option.splits)


end
