(* ===== verification/RolloutConcurrency.thy ===== *)
theory RolloutConcurrency
  imports RolloutDelivery
begin

text \<open>
  The concurrency bound of a stage: one step of the advance loop leaves at most as many targets
  in flight as \<open>ParseMaxConcurrency\<close> allows for the current members, or as were in flight before.
\<close>

section \<open>The bound\<close>

lemma ceil_hundredth:
  fixes x m :: int
  assumes "0 < x" and "x \<le> m * 100"
  shows "1 \<le> (x + 99) div 100 \<and> (x + 99) div 100 \<le> m \<and> x \<le> 100 * ((x + 99) div 100)
    \<and> 100 * ((x + 99) div 100 - 1) < x"
proof -
  define q where "q = (x + 99) div 100"
  have "x + 99 = 100 * q + (x + 99) mod 100" by (simp add: q_def)
  moreover have "0 \<le> (x + 99) mod 100" "(x + 99) mod 100 < 100" by simp_all
  ultimately have "100 * q \<le> x + 99" "x + 99 < 100 * q + 100" by linarith+
  with assms have "1 \<le> q" "q \<le> m" "x \<le> 100 * q" "100 * q - 100 < x" by linarith+
  then show ?thesis unfolding q_def by (simp add: right_diff_distrib)
qed

text \<open>The bound of a stage with members lies between one and their number, and a percentage is rounded up:
  it is the least number of clusters that makes at least that share.\<close>

theorem max_concurrency_bounds:
  assumes "parse_max_concurrency spec m = Inr n" and "0 < m"
  shows "1 \<le> n \<and> n \<le> m
    \<and> (has_suffix (trim_space spec) ''%'' \<longrightarrow> (\<exists>p. atoi (trim_suffix (trim_space spec) ''%'') = Some p
          \<and> m * p \<le> 100 * n \<and> 100 * (n - 1) < m * p))"
proof -
  have pct: "1 \<le> (m * p + 99) div 100 \<and> (m * p + 99) div 100 \<le> m
      \<and> m * p \<le> 100 * ((m * p + 99) div 100) \<and> 100 * ((m * p + 99) div 100 - 1) < m * p" if "0 < p" "p \<le> 100" for p
  proof (rule ceil_hundredth)
    show "m * p \<le> m * 100" using that assms(2) by (intro mult_left_mono) auto
    show "0 < m * p" using that assms(2) by simp
  qed
  show ?thesis
  proof (cases "has_suffix (trim_space spec) ''%''")
    case True
    with assms obtain p where p: "atoi (trim_suffix (trim_space spec) ''%'') = Some p" "0 < p" "p \<le> 100"
      and n: "n = (if (m * p + 99) div 100 < 1 then 1 else (m * p + 99) div 100)"
      unfolding parse_max_concurrency_def Let_def by (auto split: if_splits option.splits)
    with pct [of p] show ?thesis by auto
  next
    case False
    with assms show ?thesis unfolding parse_max_concurrency_def Let_def by (auto split: if_splits option.splits)
  qed
qed

theorem max_concurrency_bounds_witness: "parse_max_concurrency '' 25% '' 9 = Inr 3 \<and> 9 * 25 \<le> 100 * (3 :: int)"
proof -
  have run: "parse_max_concurrency '' 25% '' 9 = Inr 3" by code_simp
  from max_concurrency_bounds [OF run] have "(\<exists>p. atoi (trim_suffix (trim_space '' 25% '') ''%'') = Some p \<and> 9 * p \<le> 100 * (3::int))"
    by (auto simp: has_suffix_def has_prefix_def trim_space_def is_space_def)
  moreover have "atoi (trim_suffix (trim_space '' 25% '') ''%'') = Some 25" by code_simp
  ultimately show ?thesis using run by simp
qed

section \<open>Counting targets in flight\<close>

lemma delivered_count_Cons:
  "delivered_count i k (t # ts) = (if in_stage i k t \<and> rg_status t = RolloutTargetDelivered then 1 else 0) + delivered_count i k ts"
  by (simp add: delivered_count_def)

lemma delivered_count_append: "delivered_count i k (xs @ ys) = delivered_count i k xs + delivered_count i k ys"
  by (simp add: delivered_count_def)

lemma delivered_count_sort: "delivered_count i k (stage_targets i k ts) = delivered_count i k ts"
  unfolding delivered_count_def stage_targets_def in_stage_def filter_sort length_sort filter_filter
  by (rule arg_cong [where f = length], rule filter_cong) auto

lemma update_other:
  "key_of t \<notin> set (map key_of ts) \<Longrightarrow> in_stage i k t \<Longrightarrow> update_rows (target_key i (rg_cluster t) k) f ts = ts"
  by (rule update_rows_none) (force simp: target_key_def key_of_def in_stage_def image_iff)

lemma keys_update:
  "(\<And>t. key_of (f t) = key_of t) \<Longrightarrow> map key_of (update_rows P f ts) = map key_of ts"
  by (rule map_update_rows_same)

lemma delivered_count_settle:
  assumes "distinct (map key_of rows)" and "t \<in> set rows" and "in_stage i k t" and "rg_status t = RolloutTargetDelivered"
    and f: "\<And>t. key_of (f t) = key_of t \<and> rg_status (f t) \<noteq> RolloutTargetDelivered"
  shows "delivered_count i k rows = Suc (delivered_count i k (update_rows (target_key i (rg_cluster t) k) f rows))"
  using assms(1,2)
proof (induction rows)
  case (Cons x rows)
  show ?case
  proof (cases "x = t")
    case True
    with Cons.prems assms(3) have "update_rows (target_key i (rg_cluster t) k) f rows = rows"
      by (intro update_other) auto
    moreover have "target_key i (rg_cluster t) k t" using assms(3) by (simp add: target_key_def in_stage_def)
    ultimately show ?thesis using True assms(3,4) f by (simp add: delivered_count_Cons)
  next
    case False
    with Cons.prems have mem: "t \<in> set rows" "key_of x \<noteq> key_of t" by auto
    with assms(3) have "\<not> target_key i (rg_cluster t) k x" by (auto simp: target_key_def key_of_def in_stage_def)
    with Cons mem show ?thesis by (simp add: delivered_count_Cons)
  qed
qed simp

lemma delivered_count_upsert:
  assumes "distinct (map key_of rows)" and "\<And>t. key_of (f t) = key_of t"
  shows "delivered_count i k (update_rows (target_key i c k) f rows) \<le> Suc (delivered_count i k rows)"
  using assms(1)
proof (induction rows)
  case (Cons x rows)
  show ?case
  proof (cases "target_key i c k x")
    case True
    then have st: "in_stage i k x" and c: "c = rg_cluster x" by (auto simp: target_key_def in_stage_def)
    with Cons.prems have "update_rows (target_key i c k) f rows = rows"
      unfolding c by (intro update_other) auto
    then show ?thesis by (simp add: delivered_count_Cons)
  qed (use Cons in \<open>auto simp: delivered_count_Cons\<close>)
qed (simp add: delivered_count_def)

lemma delivered_count_not_delivered:
  assumes "\<And>t. rg_status (f t) \<noteq> RolloutTargetDelivered"
  shows "delivered_count i k (update_rows P f rows) \<le> delivered_count i k rows"
  by (induction rows) (auto simp: delivered_count_Cons assms)

section \<open>Reconciling\<close>

lemma reconcile_delivered:
  assumes "reconcile_targets sts i k ts (p, a, f) s = (Inr (p', a', f'), s')"
    and "distinct (map key_of (rollout_targets s))" and "distinct (map key_of ts)"
    and "set ts \<subseteq> set (rollout_targets s)" and "\<forall>t \<in> set ts. in_stage i k t"
  shows "delivered_count i k (rollout_targets s') + delivered_count i k ts + a \<le> delivered_count i k (rollout_targets s) + a'
    \<and> a' \<le> a + delivered_count i k ts \<and> distinct (map key_of (rollout_targets s'))"
  using assms
proof (induction ts arbitrary: p a f s)
  case Nil
  then show ?case by (simp add: ret_def delivered_count_def)
next
  case (Cons t ts)
  have settle: "delivered_count i k (rollout_targets s') + delivered_count i k (t # ts) + a \<le> delivered_count i k (rollout_targets s) + a'
    \<and> a' \<le> a + delivered_count i k (t # ts) \<and> distinct (map key_of (rollout_targets s'))"
    if run: "thenE (set_target_status i (rg_cluster t) k st h) (reconcile_targets sts i k ts (p, a, g)) s
        = (Inr (p', a', f'), s')" and st: "st \<noteq> RolloutTargetDelivered" and d: "rg_status t = RolloutTargetDelivered" for st h g
  proof -
    let ?f = "\<lambda>t. t\<lparr>rg_status := st, rg_health := h, rg_updated := clock s\<rparr>"
    from run obtain u s1 where 1: "set_target_status i (rg_cluster t) k st h s = (Inr u, s1)"
      and 2: "reconcile_targets sts i k ts (p, a, g) s1 = (Inr (p', a', f'), s')" by (rule thenE_okE)
    from 1 have rows: "rollout_targets s1 = update_rows (target_key i (rg_cluster t) k) ?f (rollout_targets s)"
      by (auto elim: set_target_status_okE)
    have t: "t \<in> set (rollout_targets s)" "in_stage i k t" using Cons.prems by auto
    have keys: "map key_of (rollout_targets s1) = map key_of (rollout_targets s)"
      unfolding rows by (rule keys_update) (simp add: key_of_def)
    have cnt: "delivered_count i k (rollout_targets s) = Suc (delivered_count i k (rollout_targets s1))"
      unfolding rows by (rule delivered_count_settle [OF Cons.prems(2) t d]) (simp add: key_of_def st)
    have sub: "set ts \<subseteq> set (rollout_targets s1)"
    proof
      fix x assume x: "x \<in> set ts"
      with Cons.prems(3) have "key_of x \<noteq> key_of t" by (metis distinct.simps(2) image_eqI list.set_map list.simps(9))
      moreover from x Cons.prems(5) have "in_stage i k x" by simp
      ultimately have "\<not> target_key i (rg_cluster t) k x" using t(2) by (auto simp: target_key_def key_of_def in_stage_def)
      moreover from x Cons.prems(4) have "x \<in> set (rollout_targets s)" by auto
      ultimately show "x \<in> set (rollout_targets s1)" unfolding rows set_update_rows by force
    qed
    have "distinct (map key_of (rollout_targets s1))" unfolding keys by (rule Cons.prems(2))
    from Cons.IH [OF 2 this _ sub] Cons.prems(3,5) cnt t(2) d show ?thesis
      by (simp add: delivered_count_Cons)
  qed
  have keep: "delivered_count i k (rollout_targets s') + delivered_count i k ts + b \<le> delivered_count i k (rollout_targets s) + a'
    \<and> a' \<le> b + delivered_count i k ts \<and> distinct (map key_of (rollout_targets s'))"
    if "reconcile_targets sts i k ts (q, b, g) s = (Inr (p', a', f'), s')" for q b g
    using Cons.IH [OF that] Cons.prems(2-5) by simp
  show ?case
  proof (cases "rg_status t")
    case RolloutTargetDelivered
    have t: "in_stage i k t" using Cons.prems(5) by simp
    note settled = settle [OF _ _ RolloutTargetDelivered]
    from Cons.prems(1) RolloutTargetDelivered show ?thesis
      by (cases "sts (rg_command t)")
         (auto split: command_status.splits if_splits dest!: keep settled simp: delivered_count_Cons t)
  qed (use Cons.prems(1) in \<open>auto dest!: keep simp: delivered_count_Cons\<close>)
qed

section \<open>Delivering\<close>

lemma upsert_target_okE:
  assumes "upsert_target i c k st cmd s = (Inr u, s')"
  obtains "clusters s' = clusters s" and "rollout_targets s' =
      (if list_ex (target_key i c k) (rollout_targets s)
        then update_rows (target_key i c k)
               (\<lambda>t. t\<lparr>rg_status := st, rg_command := cmd, rg_updated := clock s\<rparr>) (rollout_targets s)
        else rollout_targets s @ [\<lparr>rg_rollout = i, rg_cluster = c, rg_stage = k, rg_status = st,
               rg_command = cmd, rg_health = [], rg_updated = clock s\<rparr>])"
  using assms unfolding upsert_target_def by (auto elim!: sql_okE split: if_splits)

lemma upsert_target_count:
  assumes "upsert_target i c k st cmd s = (Inr u, s')" and d: "distinct (map key_of (rollout_targets s))"
  shows "distinct (map key_of (rollout_targets s'))
    \<and> delivered_count i k (rollout_targets s') \<le> delivered_count i k (rollout_targets s)
        + (if st = RolloutTargetDelivered then 1 else 0)"
proof (cases "list_ex (target_key i c k) (rollout_targets s)")
  case True
  let ?f = "\<lambda>t. t\<lparr>rg_status := st, rg_command := cmd, rg_updated := clock s\<rparr>"
  from assms(1) True have rows: "rollout_targets s' = update_rows (target_key i c k) ?f (rollout_targets s)"
    by (auto elim: upsert_target_okE)
  have keys: "map key_of (rollout_targets s') = map key_of (rollout_targets s)"
    unfolding rows by (rule keys_update) (simp add: key_of_def)
  have "delivered_count i k (rollout_targets s') \<le> Suc (delivered_count i k (rollout_targets s))"
    unfolding rows by (rule delivered_count_upsert [OF d]) (simp add: key_of_def)
  moreover have "delivered_count i k (rollout_targets s') \<le> delivered_count i k (rollout_targets s)"
    if "st \<noteq> RolloutTargetDelivered"
    unfolding rows using that by (intro delivered_count_not_delivered) simp
  ultimately show ?thesis using keys d by simp
next
  case False
  from assms(1) False obtain t where rows: "rollout_targets s' = rollout_targets s @ [t]"
    and t: "key_of t = (i, c, k)" "rg_status t = st" by (auto elim!: upsert_target_okE simp: key_of_def)
  from False have "(i, c, k) \<notin> key_of ` set (rollout_targets s)"
    by (auto simp: list_ex_iff target_key_def key_of_def)
  then show ?thesis using d t by (auto simp: rows delivered_count_append delivered_count_def)
qed

lemma enqueue_targets: "enqueue c s = (r, s') \<Longrightarrow> rollout_targets s' = rollout_targets s"
  by (drule enqueue_cases) auto

lemma deliver_targets_count:
  assumes "deliver_targets (fleet_service asvc) r k slots ts s = (Inr u, s')"
    and "distinct (map key_of (rollout_targets s))"
  shows "delivered_count (ro_id r) k (rollout_targets s') \<le> delivered_count (ro_id r) k (rollout_targets s) + slots"
  using assms
proof (induction ts arbitrary: slots s)
  case Nil
  then show ?case by (simp add: ret_def)
next
  case (Cons t ts)
  show ?case
  proof (cases "slots = 0 \<or> rg_status t \<noteq> RolloutTargetPending")
    case True
    with Cons show ?thesis by (cases "slots = 0") (auto simp: ret_def)
  next
    case False
    with Cons.prems(1) obtain s1 s2 v w x where q: "enqueue x s = (Inr v, s1)"
      and up: "upsert_target (ro_id r) (rg_cluster t) k RolloutTargetDelivered (cmd_id x) s1 = (Inr w, s2)"
      and rest: "deliver_targets (fleet_service asvc) r k (slots - 1) ts s2 = (Inr u, s')"
      by (auto simp: Let_def fleet_service_def elim!: thenE_okE)
    have "rollout_targets s1 = rollout_targets s" by (rule enqueue_targets [OF q])
    with upsert_target_count [OF up] Cons.prems(2)
    have "distinct (map key_of (rollout_targets s2))"
      and "delivered_count (ro_id r) k (rollout_targets s2) \<le> delivered_count (ro_id r) k (rollout_targets s) + 1"
      by simp_all
    with Cons.IH [OF rest] False show ?thesis by simp
  qed
qed

lemma deliver_batch_count:
  assumes "deliver_batch (fleet_service asvc) r k slots s = (Inr u, s')"
    and "distinct (map key_of (rollout_targets s))"
  shows "delivered_count (ro_id r) k (rollout_targets s') \<le> delivered_count (ro_id r) k (rollout_targets s) + nat slots"
proof (cases "slots \<le> 0")
  case True
  with assms(1) show ?thesis by (auto simp: deliver_batch_def ret_def)
next
  case False
  with assms(1) obtain ts s1 where 1: "list_targets (ro_id r) k s = (Inr ts, s1)"
    and 2: "deliver_targets (fleet_service asvc) r k (nat slots) ts s1 = (Inr u, s')"
    by (auto simp: deliver_batch_def elim: bindE_okE)
  from 1 have "rollout_targets s1 = rollout_targets s" by (auto elim!: list_targets_okE same_tablesE)
  with deliver_targets_count [OF 2] assms(2) show ?thesis by simp
qed

lemma seed_targets_count:
  assumes "seed_targets i k cs s = (Inr u, s')" and "distinct (map key_of (rollout_targets s))"
  shows "distinct (map key_of (rollout_targets s'))
    \<and> delivered_count i k (rollout_targets s') \<le> delivered_count i k (rollout_targets s)"
  using assms
proof (induction cs arbitrary: s)
  case Nil
  then show ?case by (simp add: ret_def)
next
  case (Cons c cs)
  from Cons.prems(1) obtain v s1 where 1: "upsert_target i (cl_id c) k RolloutTargetPending [] s = (Inr v, s1)"
    and 2: "seed_targets i k cs s1 = (Inr u, s')" by (auto elim: thenE_okE)
  from upsert_target_count [OF 1 Cons.prems(2)] have "distinct (map key_of (rollout_targets s1))"
    and "delivered_count i k (rollout_targets s1) \<le> delivered_count i k (rollout_targets s)" by simp_all
  with Cons.IH [OF 2] show ?case by simp
qed

section \<open>Members of a stage\<close>

definition stage_member_ids :: "'a fleet_db_scheme \<Rightarrow> string \<Rightarrow> rollout_stage \<Rightarrow> string set" where
  "stage_member_ids s org st = cl_id ` {c \<in> set (clusters s). cl_org c = org
     \<and> (\<exists>i \<in> set (st_sets st). \<exists>cs. select_row (\<lambda>c. cs_id c = i) (cluster_sets s) = Some cs
           \<and> matches_selector (cl_labels c) (cs_selector cs))}"

lemma add_members_set: "cl_id ` set (add_members out cs) = cl_id ` set out \<union> cl_id ` set cs"
  by (induction out cs rule: add_members.induct) auto

lemma add_members_distinct: "distinct (map cl_id out) \<Longrightarrow> distinct (map cl_id (add_members out cs))"
  by (induction out cs rule: add_members.induct) auto

lemma collect_members_exact:
  assumes "collect_members (fleet_service asvc) org out ids s = (Inr ms, s')" and "distinct (map cl_id out)"
  shows "distinct (map cl_id ms) \<and> same_tables s s' \<and> cl_id ` set ms = cl_id ` set out \<union>
    cl_id ` {c \<in> set (clusters s). cl_org c = org
     \<and> (\<exists>i \<in> set ids. \<exists>cs. select_row (\<lambda>c. cs_id c = i) (cluster_sets s) = Some cs
           \<and> matches_selector (cl_labels c) (cs_selector cs))}"
  using assms
proof (induction ids arbitrary: out s)
  case Nil
  then show ?case by (simp add: ret_def)
next
  case (Cons i ids)
  from Cons.prems(1) obtain cs s1 where 1: "cluster_set_members (fleet_service asvc) org i s = (Inr cs, s1)"
    and 2: "collect_members (fleet_service asvc) org (add_members out cs) ids s1 = (Inr ms, s')"
    by (auto elim: bindE_okE)
  have svc: "fs_clusters (fleet_service asvc) = list_clusters" by (simp add: fleet_service_def)
  from cluster_set_members_okE [OF svc 1] obtain cset where
    sel: "select_row (\<lambda>c. cs_id c = i) (cluster_sets s) = Some cset" and
    cs: "set cs = {c \<in> set (clusters s). cl_org c = org \<and> matches_selector (cl_labels c) (cs_selector cset)}"
    and st: "same_tables s s1" by blast
  from st have "clusters s1 = clusters s" "cluster_sets s1 = cluster_sets s" by (auto elim!: same_tablesE)
  with Cons.IH [OF 2 add_members_distinct [OF Cons.prems(2)]] st
  have "distinct (map cl_id ms)" "same_tables s s'" and ms: "cl_id ` set ms = cl_id ` set (add_members out cs) \<union>
    cl_id ` {c \<in> set (clusters s). cl_org c = org
     \<and> (\<exists>i \<in> set ids. \<exists>cs. select_row (\<lambda>c. cs_id c = i) (cluster_sets s) = Some cs
           \<and> matches_selector (cl_labels c) (cs_selector cs))}"
    by (auto intro: same_tables_trans)
  moreover have "cl_id ` set ms = cl_id ` set out \<union> cl_id ` {c \<in> set (clusters s). cl_org c = org
     \<and> (\<exists>i \<in> set (i # ids). \<exists>cs. select_row (\<lambda>c. cs_id c = i) (cluster_sets s) = Some cs
           \<and> matches_selector (cl_labels c) (cs_selector cs))}"
    unfolding ms add_members_set cs using sel by auto
  ultimately show ?case by simp
qed

lemma stage_members_exact:
  assumes "stage_members (fleet_service asvc) org st s = (Inr ms, s')"
  shows "length ms = card (stage_member_ids s org st) \<and> cl_id ` set ms = stage_member_ids s org st \<and> same_tables s s'"
proof -
  from collect_members_exact [OF assms [unfolded stage_members_def]]
  have "distinct (map cl_id ms)" and "same_tables s s'" and eq: "set (map cl_id ms) = stage_member_ids s org st"
    by (simp_all add: stage_member_ids_def)
  moreover from this(1) eq have "length ms = card (stage_member_ids s org st)"
    by (metis distinct_card length_map)
  ultimately show ?thesis by simp
qed

section \<open>One step\<close>

lemma reconcile_members:
  assumes "reconcile_targets sts i k ts c s = (res, s')"
  shows "stage_member_ids s' org st = stage_member_ids s org st"
proof -
  let ?I = "\<lambda>x. clusters x = clusters s \<and> cluster_sets x = cluster_sets s"
  have "preserves ?I (set_target_status i cluster stage st h)" for cluster stage st h
    unfolding set_target_status_def
    by (intro preserves_sql preserves_modify) (auto simp: tx_stable_def elim!: same_tablesE)
  then have "preserves ?I (reconcile_targets sts i k ts c)" by (rule preserves_reconcile)
  from preservesD [OF this _ assms] show ?thesis by (simp add: stage_member_ids_def)
qed

definition stage_limit :: "'a fleet_db_scheme \<Rightarrow> string \<Rightarrow> rollout_stage \<Rightarrow> nat" where
  "stage_limit s org st = (case parse_max_concurrency (st_max st) (int (card (stage_member_ids s org st))) of
     Inl _ \<Rightarrow> 0 | Inr n \<Rightarrow> nat n)"

lemma members_same_tables: "same_tables s s1 \<Longrightarrow> stage_member_ids s1 = stage_member_ids s"
  by (elim same_tablesE, intro ext) (simp add: stage_member_ids_def)

lemma limit_same_tables: "same_tables s s1 \<Longrightarrow> stage_limit s1 = stage_limit s"
  by (intro ext) (simp add: stage_limit_def members_same_tables)

text \<open>Moving the rollout itself leaves the targets alone.\<close>

lemma targets_stable: "log_stable (\<lambda>x :: 'a fleet_db_scheme. rollout_targets x = T)"
  by (simp add: log_stable_def)

lemmas targets_tx_stable = log_stable_tx_stable [OF targets_stable]

lemma targets_transition: "preserves (\<lambda>x. rollout_targets x = T) (with_tx (transition r to stage gctx actor))"
  unfolding transition_def set_rollout_state_def Let_def
  by (intro preserves_rules targets_tx_stable preserves_emit [OF targets_stable]) (auto intro: preservesI)

lemma targets_request: "preserves (\<lambda>x. rollout_targets x = T) (request_gate_approval (fleet_service asvc) r)"
proof -
  have "preserves (\<lambda>x. rollout_targets x = T) (request_lifecycle_approval asvc lin)" for lin
    unfolding request_lifecycle_approval_def create_lifecycle_def insert_approval_def log_approval_def
    by (intro preserves_rules targets_tx_stable preserves_emit [OF targets_stable] preservesI)
       (auto simp: Let_def split: if_splits)
  moreover have "preserves (\<lambda>x. rollout_targets x = T) (set_gate_approval i stage which approval)" for i stage which approval
    unfolding set_gate_approval_def by (intro preserves_sql targets_tx_stable) (auto intro: preservesI)
  ultimately show ?thesis
    by (auto simp: request_gate_approval_def fleet_service_def split: option.splits intro!: preserves_rules)
qed

lemma targets_enter_gate: "preserves (\<lambda>x. rollout_targets x = T) (enter_gate (fleet_service asvc) r stage which g)"
  unfolding enter_gate_def by (intro preserves_rules targets_transition targets_request)

lemma enter_gate_targets:
  "enter_gate (fleet_service asvc) r stage which g s = (res, s') \<Longrightarrow> rollout_targets s' = rollout_targets s"
  using preservesD [OF targets_enter_gate, of s "rollout_targets s"] by simp

lemma fail_rollout_targets: "fail_rollout r s = (res, s') \<Longrightarrow> rollout_targets s' = rollout_targets s"
proof -
  have "preserves (\<lambda>x. rollout_targets x = T) (fail_rollout r)" for T
    unfolding fail_rollout_def by (intro preserves_rules targets_transition)
  then show "fail_rollout r s = (res, s') \<Longrightarrow> rollout_targets s' = rollout_targets s" by (blast dest: preservesD)
qed

lemma start_stage_count:
  assumes "start_stage (fleet_service asvc) r k st s = (Inr b, s')" and d: "distinct (map key_of (rollout_targets s))"
  shows "delivered_count (ro_id r) k (rollout_targets s') \<le>
    delivered_count (ro_id r) k (rollout_targets s) + stage_limit s (ro_org r) st"
proof -
  from assms(1) obtain ms s1 where 1: "stage_members (fleet_service asvc) (ro_org r) st s = (Inr ms, s1)"
    and 2: "(if ms = [] then thenE (fail_rollout r) (ret True)
     else thenE (seed_targets (ro_id r) k ms)
       (case st_before st of
          Some g \<Rightarrow> thenE (enter_gate (fleet_service asvc) r k ''before'' g) (ret True)
        | None \<Rightarrow> bindE (lift_sum (parse_max_concurrency (st_max st) (int (length ms)))) (\<lambda>n.
            thenE (deliver_batch (fleet_service asvc) r k n) (ret True)))) s1 = (Inr b, s')"
    unfolding start_stage_def by (rule bindE_okE)
  from stage_members_exact [OF 1] have len: "length ms = card (stage_member_ids s (ro_org r) st)"
    and rows: "rollout_targets s1 = rollout_targets s" by (auto elim!: same_tablesE)
  show ?thesis
  proof (cases "ms = []")
    case True
    with 2 rows show ?thesis by (auto elim!: thenE_okE ret_okE dest: fail_rollout_targets)
  next
    case False
    with 2 obtain u s2 where 3: "seed_targets (ro_id r) k ms s1 = (Inr u, s2)"
      and 4: "(case st_before st of
          Some g \<Rightarrow> thenE (enter_gate (fleet_service asvc) r k ''before'' g) (ret True)
        | None \<Rightarrow> bindE (lift_sum (parse_max_concurrency (st_max st) (int (length ms)))) (\<lambda>n.
            thenE (deliver_batch (fleet_service asvc) r k n) (ret True))) s2 = (Inr b, s')"
      by (auto elim: thenE_okE)
    from seed_targets_count [OF 3] d rows have d2: "distinct (map key_of (rollout_targets s2))"
      and c2: "delivered_count (ro_id r) k (rollout_targets s2) \<le> delivered_count (ro_id r) k (rollout_targets s)" by simp_all
    show ?thesis
    proof (cases "st_before st")
      case (Some g)
      with 4 c2 show ?thesis by (auto elim!: thenE_okE ret_okE dest!: enter_gate_targets)
    next
      case None
      with 4 obtain n v where n: "parse_max_concurrency (st_max st) (int (length ms)) = Inr n"
        and 5: "deliver_batch (fleet_service asvc) r k n s2 = (Inr v, s')"
        by (auto elim!: bindE_okE thenE_okE lift_sum_okE ret_okE)
      from deliver_batch_count [OF 5 d2] c2 n len show ?thesis by (simp add: stage_limit_def)
    qed
  qed
qed

lemma continue_stage_count:
  assumes "continue_stage (fleet_service asvc) r k st ts s = (Inr b, s')"
    and ts: "ts = stage_targets (ro_id r) k (rollout_targets s)"
    and d: "distinct (map key_of (rollout_targets s))"
  shows "delivered_count (ro_id r) k (rollout_targets s') \<le>
    max (delivered_count (ro_id r) k (rollout_targets s)) (stage_limit s (ro_org r) st)"
proof -
  let ?D = "\<lambda>x. delivered_count (ro_id r) k (rollout_targets x)"
  from assms(1) obtain sts s1 p a f s2 where 1: "command_statuses (awaited_commands ts) s = (Inr sts, s1)"
    and 2: "reconcile_targets sts (ro_id r) k ts (0, 0, 0) s1 = (Inr (p, a, f), s2)"
    and 3: "(if f > 0 then thenE (fail_rollout r) (ret True)
       else if p + a > 0 then bindE (stage_members (fleet_service asvc) (ro_org r) st) (\<lambda>members.
         bindE (lift_sum (parse_max_concurrency (st_max st) (int (length members)))) (\<lambda>n.
           thenE (deliver_batch (fleet_service asvc) r k (n - int a)) (ret True)))
       else (case st_after st of
          Some g \<Rightarrow> thenE (enter_gate (fleet_service asvc) r k ''after'' g) (ret True)
        | None \<Rightarrow> thenE (advance_stage r (k + 1)) (ret False))) s2 = (Inr b, s')"
    unfolding continue_stage_def by (auto elim!: bindE_okE split: prod.splits)
  have st1: "same_tables s s1" by (rule read_onlyD [OF command_statuses_read_only 1])
  then have rows: "rollout_targets s1 = rollout_targets s" by (auto elim!: same_tablesE)
  have mem1: "stage_member_ids s1 = stage_member_ids s" by (rule members_same_tables [OF st1])
  have cnt: "delivered_count (ro_id r) k ts = ?D s" unfolding ts by (rule delivered_count_sort)
  have dts: "distinct (map key_of ts)"
    using d unfolding ts stage_targets_def by (simp add: distinct_map inj_on_def)
  have sub: "set ts \<subseteq> set (rollout_targets s1)" "\<forall>t \<in> set ts. in_stage (ro_id r) k t"
    unfolding rows ts stage_targets_set by auto
  from reconcile_delivered [OF 2 _ dts sub] d have D2: "?D s2 \<le> a" "a \<le> ?D s"
    and d2: "distinct (map key_of (rollout_targets s2))" by (simp_all add: rows cnt)
  show ?thesis
  proof (cases "f > 0 \<or> p + a = 0")
    case True
    have "rollout_targets s' = rollout_targets s2"
    proof (cases "f > 0")
      case True
      with 3 show ?thesis by (auto elim!: thenE_okE ret_okE dest: fail_rollout_targets)
    next
      case False
      with 3 \<open>f > 0 \<or> p + a = 0\<close> show ?thesis
        by (cases "st_after st") (auto elim!: thenE_okE ret_okE advance_stage_okE dest: enter_gate_targets)
    qed
    with D2 show ?thesis by simp
  next
    case False
    with 3 obtain ms s3 n v where 4: "stage_members (fleet_service asvc) (ro_org r) st s2 = (Inr ms, s3)"
      and n: "parse_max_concurrency (st_max st) (int (length ms)) = Inr n"
      and 5: "deliver_batch (fleet_service asvc) r k (n - int a) s3 = (Inr v, s')"
      by (auto elim!: bindE_okE thenE_okE lift_sum_okE ret_okE split: if_splits)
    from stage_members_exact [OF 4] have len: "length ms = card (stage_member_ids s2 (ro_org r) st)"
      and rows3: "rollout_targets s3 = rollout_targets s2" by (auto elim!: same_tablesE)
    have "nat n = stage_limit s (ro_org r) st"
      using n len reconcile_members [OF 2] by (simp add: stage_limit_def mem1)
    with deliver_batch_count [OF 5] d2 D2 show ?thesis unfolding rows3 by fastforce
  qed
qed

text \<open>(C13) Concurrency stays bounded. A step of the advance loop on a running rollout leaves at most as many
  targets of the current stage delivered and unacknowledged as the larger of: the number that
  was in flight before, and what \<open>ParseMaxConcurrency\<close> makes of the stage's specification for
  the number of its current members (the clusters of the org matching one of its sets).\<close>

theorem concurrency_bounded:
  assumes "advance_once (fleet_service asvc) i s = (Inr b, s')"
    and "select_row (\<lambda>r. ro_id r = i) (rollouts s) = Some r"
    and "ro_state r = RolloutStateRunning" and "ro_stage r < length (ro_stages r)"
    and "distinct (map key_of (rollout_targets s))"
  shows "delivered_count i (ro_stage r) (rollout_targets s') \<le>
    max (delivered_count i (ro_stage r) (rollout_targets s))
        (stage_limit s (ro_org r) (ro_stages r ! ro_stage r))"
proof -
  let ?k = "ro_stage r"
  from assms(2) have id: "ro_id r = i" by (auto dest: select_row_SomeD)
  from assms(1) obtain r1 s1 where 1: "get_rollout_row i s = (Inr r1, s1)"
    unfolding advance_once_def by (rule bindE_okE)
  then have r1: "r1 = r" and st1: "same_tables s s1" using assms(2) by (auto elim: get_rollout_row_okE)
  from 1 r1 assms(1,3,4) obtain ts s2 where 3: "list_targets i ?k s1 = (Inr ts, s2)"
    and 4: "(if ts = [] then start_stage (fleet_service asvc) r ?k (ro_stages r ! ?k)
           else continue_stage (fleet_service asvc) r ?k (ro_stages r ! ?k) ts) s2 = (Inr b, s')"
    unfolding advance_once_def by (auto simp: id bindE_def split: prod.splits sum.splits)
  from 3 st1 have "same_tables s s2" and ts1: "ts = stage_targets i ?k (rollout_targets s1)"
    by (auto elim: list_targets_okE intro: same_tables_trans)
  then have rows: "rollout_targets s2 = rollout_targets s" by (auto elim!: same_tablesE)
  have lim: "stage_limit s2 = stage_limit s" by (rule limit_same_tables [OF \<open>same_tables s s2\<close>])
  from ts1 st1 rows have ts: "ts = stage_targets i ?k (rollout_targets s2)" by (auto elim!: same_tablesE)
  have d2: "distinct (map key_of (rollout_targets s2))" using assms(5) by (simp add: rows)
  show ?thesis
  proof (cases "ts = []")
    case True
    have "delivered_count i ?k (rollout_targets s2) = 0"
      using delivered_count_sort [of i ?k "rollout_targets s2"] ts True by (simp add: delivered_count_def)
    with start_stage_count [of asvc r ?k _ s2 b s'] 4 True d2 show ?thesis by (simp add: id rows lim)
  next
    case False
    with continue_stage_count [of asvc r ?k _ ts s2 b s'] 4 ts d2 show ?thesis by (simp add: id rows lim)
  qed
qed

end
