(* ===== verification/RolloutRollback.thy ===== *)
theory RolloutRollback
  imports RolloutConcurrency
begin

text \<open>
  The commands of a rollout: their ids tell rollout, stage, cluster and direction apart, and a
  rollback leaves a command for every member of every stage in the queue.
\<close>

section \<open>Command ids\<close>

lemma split_at_sep:
  "c \<notin> set xs \<Longrightarrow> c \<notin> set xs' \<Longrightarrow> xs @ c # ys = xs' @ c # ys' \<Longrightarrow> xs = xs' \<and> ys = ys'"
proof (induction xs arbitrary: xs')
  case Nil
  then show ?case by (cases xs') auto
next
  case (Cons x xs)
  then show ?case by (cases xs') auto
qed

lemma split_at_last_sep:
  assumes "c \<notin> set ys" and "c \<notin> set ys'" and "xs @ c # ys = xs' @ c # ys'"
  shows "xs = xs' \<and> ys = ys'"
proof -
  from assms(3) have "rev (xs @ c # ys) = rev (xs' @ c # ys')" by simp
  then have "rev ys @ c # rev xs = rev ys' @ c # rev xs'" by simp
  with assms(1,2) have "rev ys = rev ys' \<and> rev xs = rev xs'" by (intro split_at_sep) simp_all
  then show ?thesis by simp
qed

lemma command_suffix_no_colon: "CHR '':'' \<notin> set (command_suffix r v)"
  by (simp add: command_suffix_def)

lemma command_suffix_rollback: "command_suffix r v = ''rollback'' \<longleftrightarrow> v \<noteq> ro_version r"
  by (simp add: command_suffix_def)

text \<open>The id of a rollout command is an idempotency key that never confuses two commands: with rollout ids
  as \<open>CreateRollout\<close> makes them (a uuid has no colon), equal ids mean the same rollout, the
  same stage, the same cluster (whatever characters its id has) and the same direction.\<close>

theorem command_ids_unambiguous:
  assumes "ro_id r = ''rollout:'' @ u" and "CHR '':'' \<notin> set u"
    and "ro_id r' = ''rollout:'' @ u'" and "CHR '':'' \<notin> set u'"
    and "cmd_id (command_for r k c v) = cmd_id (command_for r' k' c' v')"
  shows "ro_id r = ro_id r' \<and> k = k' \<and> c = c' \<and> (v = ro_version r \<longleftrightarrow> v' = ro_version r')"
proof -
  from assms(1,3,5) have "u @ CHR '':'' # show_nat k @ CHR '':'' # c @ CHR '':'' # command_suffix r v =
      u' @ CHR '':'' # show_nat k' @ CHR '':'' # c' @ CHR '':'' # command_suffix r' v'"
    by (simp add: command_for_def)
  from split_at_sep [OF assms(2,4) this] have u: "u = u'" and
    rest: "show_nat k @ CHR '':'' # c @ CHR '':'' # command_suffix r v =
      show_nat k' @ CHR '':'' # c' @ CHR '':'' # command_suffix r' v'" by blast+
  from split_at_sep [OF show_nat_no_colon show_nat_no_colon rest]
  have k: "show_nat k = show_nat k'" and rest2: "c @ CHR '':'' # command_suffix r v = c' @ CHR '':'' # command_suffix r' v'"
    by blast+
  from split_at_last_sep [OF command_suffix_no_colon command_suffix_no_colon rest2]
  have "c = c'" and "command_suffix r v = command_suffix r' v'" by blast+
  moreover from k have "k = k'" by (rule show_nat_inj)
  ultimately show ?thesis using u assms(1,3) by (auto simp: command_suffix_def split: if_splits)
qed

section \<open>Rollback\<close>

lemma enqueue_all_eq: "enqueue_all (fleet_service asvc) cs = agent_queue.enq_all cs"
  by (induction cs) (simp_all add: fleet_service_def)

text \<open>What queueing leaves alone.\<close>

definition fleet_frame :: "'a fleet_db_scheme \<Rightarrow> cluster list \<times> cluster_set list \<times> rollout list \<times> int" where
  "fleet_frame s = (clusters s, cluster_sets s, rollouts s, clock s)"

lemma enqueue_frame: "enqueue c s = (r, s') \<Longrightarrow> fleet_frame s' = fleet_frame s"
  by (drule enqueue_cases) (auto simp: fleet_frame_def)

lemma enqueue_all_frame: "enqueue_all (fleet_service asvc) cs s = (r, s') \<Longrightarrow> fleet_frame s' = fleet_frame s"
proof (induction cs arbitrary: s)
  case Nil
  then show ?case by (simp add: ret_def)
next
  case (Cons c cs)
  obtain q s1 where q: "enqueue c s = (q, s1)" by fastforce
  with Cons.prems Cons.IH [of s1] enqueue_frame [OF q] show ?case
    by (cases q) (auto simp: fleet_service_def thenE_def bindE_def)
qed

lemma frame_same_tables: "same_tables s s' \<Longrightarrow> fleet_frame s' = fleet_frame s \<and> agent_commands s' = agent_commands s"
  by (auto elim!: same_tablesE simp: fleet_frame_def)

lemma frame_members: "fleet_frame s' = fleet_frame s \<Longrightarrow> stage_member_ids s' = stage_member_ids s"
  by (intro ext) (simp add: stage_member_ids_def fleet_frame_def)

definition commands_queued :: "rollout \<Rightarrow> nat \<Rightarrow> string set \<Rightarrow> string \<Rightarrow> 'a fleet_db_scheme \<Rightarrow> bool" where
  "commands_queued r k cs version s \<longleftrightarrow>
     (\<forall>c \<in> cs. \<exists>cmd \<in> set (agent_commands s). cmd_id cmd = cmd_id (command_for r k c version))"

lemma rollback_stages_queued:
  assumes "rollback_stages n (fleet_service asvc) org r version s = (Inr u, s')"
  shows "fleet_frame s' = fleet_frame s \<and> set (agent_commands s) \<subseteq> set (agent_commands s')
    \<and> (\<forall>k < n. commands_queued r k (stage_member_ids s org (ro_stages r ! k)) version s')"
  using assms
proof (induction n arbitrary: s)
  case 0
  then show ?case by (simp add: ret_def)
next
  case (Suc n)
  let ?cmds = "\<lambda>ms. map (\<lambda>c. command_for r n (cl_id c) version) ms"
  from Suc.prems obtain ms s1 v s2 where 1: "stage_members (fleet_service asvc) org (ro_stages r ! n) s = (Inr ms, s1)"
    and 2: "enqueue_all (fleet_service asvc) (?cmds ms) s1 = (Inr v, s2)"
    and 3: "rollback_stages n (fleet_service asvc) org r version s2 = (Inr u, s')"
    by (auto elim!: bindE_okE thenE_okE)
  from stage_members_exact [OF 1] have ids: "cl_id ` set ms = stage_member_ids s org (ro_stages r ! n)"
    and st: "same_tables s s1" by auto
  have f1: "fleet_frame s1 = fleet_frame s" "agent_commands s1 = agent_commands s" using frame_same_tables [OF st] by auto
  have f2: "fleet_frame s2 = fleet_frame s1" by (rule enqueue_all_frame [OF 2])
  have "set (agent_commands s1) \<subseteq> set (agent_commands s2)"
    by (rule agent_queue.enq_all_keeps [OF 2 [unfolded enqueue_all_eq]])
  moreover have "cmd_id ` set (?cmds ms) \<subseteq> cmd_id ` set (agent_commands s2)"
    by (rule agent_queue.enq_all_present [OF 2 [unfolded enqueue_all_eq]])
  moreover note IH = Suc.IH [OF 3]
  ultimately have "commands_queued r n (stage_member_ids s org (ro_stages r ! n)) version s'"
    unfolding commands_queued_def ids [symmetric] by fastforce
  moreover have "stage_member_ids s2 = stage_member_ids s" using f1 f2 by (intro frame_members) simp
  ultimately show ?case using IH f1 f2 \<open>set (agent_commands s1) \<subseteq> set (agent_commands s2)\<close>
    by (auto simp: less_Suc_eq)
qed

lemma rollout_tx_okE:
  assumes "with_tx (transition r to stage gctx actor) s = (Inr r', s')"
  obtains "can_rollout_transition (ro_state r) to" and "agent_commands s' = agent_commands s"
    and "r' = r\<lparr>ro_state := to, ro_stage := stage, ro_gate := gctx\<rparr>"
    and "rollouts s' = update_rows (\<lambda>x. ro_id x = ro_id r \<and> ro_state x = ro_state r)
      (\<lambda>x. x\<lparr>ro_state := to, ro_stage := stage, ro_gate := gctx, ro_updated := clock s\<rparr>) (rollouts s)"
    and "outbox_rows s' = outbox_rows s @ [outbox_row s (ro_org r) (transition_event to) (rollout_payload r (rollout_state_str to) stage)]"
  using assms unfolding transition_def
  by (auto elim!: with_tx_okE bindE_okE thenE_okE set_rollout_state_okE emit_okE throw_okE ret_okE split: if_splits
      simp: outbox_row_def)


end
