(* ===== verification/RolloutGaps.thy ===== *)
theory RolloutGaps
  imports RolloutRollback
begin

text \<open>
  Concrete rollouts: the theorems of the rollout theories at work, and the runs on which the
  code does not do what its comments say (a start skips an approval gate, a failure between
  seeding and parking loses a before-gate, a long wait overflows).
\<close>

section \<open>A rollout\<close>

definition demo_asvc :: "fleet_db approvals_svc" where
  "demo_asvc = \<lparr>svc_roles = Some (\<lambda>org user perm. ret (user = ''bob'')),
     svc_items = (\<lambda>i. throw (ErrMsg ''no item'')), svc_ttl = DefaultTTL, svc_platform = None\<rparr>"

definition approval_gate :: stage_gate where
  "approval_gate = \<lparr>sg_type = ''approval'', sg_wait = 0\<rparr>"

definition demo_stage :: "stage_gate option \<Rightarrow> rollout_stage" where
  "demo_stage g = \<lparr>st_name = ''prod'', st_sets = [''s1''], st_max = ''50%'', st_before = g, st_after = None\<rparr>"

definition demo_rollout :: "rollout_state \<Rightarrow> stage_gate option \<Rightarrow> gate_context option \<Rightarrow> rollout" where
  "demo_rollout st g gctx = \<lparr>ro_id = ''rollout:r1'', ro_org = ''acme'', ro_name = ''up'', ro_kind = ''capability'',
     ro_target = ''pg'', ro_version = ''2'', ro_stages = [demo_stage g], ro_state = st, ro_stage = 0,
     ro_gate = gctx, ro_created_by = ''alice'', ro_created = 1, ro_updated = 1\<rparr>"

definition demo_target :: "string \<Rightarrow> target_status \<Rightarrow> rollout_target" where
  "demo_target c st = \<lparr>rg_rollout = ''rollout:r1'', rg_cluster = c, rg_stage = 0, rg_status = st, rg_command = [],
     rg_health = [], rg_updated = 1\<rparr>"

definition demo_rollout_db :: "rollout \<Rightarrow> rollout_target list \<Rightarrow> fleet_db" where
  "demo_rollout_db r ts = demo_fleet_db\<lparr>rollouts := [r], rollout_targets := ts\<rparr>"

definition parked_gate :: gate_context where
  "parked_gate = \<lparr>gc_gate = ''before'', gc_type = ''approval'', gc_wait = 0, gc_approval = ''a9'', gc_entered = 50\<rparr>"

text \<open>Parked before its first stage on an approval gate.\<close>

definition parked_db :: fleet_db where
  "parked_db = demo_rollout_db (demo_rollout RolloutStateWaitingGate (Some approval_gate) (Some parked_gate))
     [demo_target ''c1'' RolloutTargetPending, demo_target ''c4'' RolloutTargetPending]
     \<lparr>approvals := [(demo_request ''a9'' ''system:fleetmanager'' ''rollout.stage_gate'' Pending 500)]\<rparr>"

section \<open>A start skips the approval gate\<close>

definition started_parked :: "(err + rollout) \<times> fleet_db" where
  "started_parked = start_rollout (fleet_service demo_asvc) ''mallory'' ''acme'' ''rollout:r1'' parked_db"


section \<open>A failure loses the before-gate\<close>

text \<open>The rollout has just been started; the seventh statement of the step, the transaction that
  parks the rollout, fails. The next sweep finds the database healthy.\<close>

definition crash_db :: fleet_db where
  "crash_db = (demo_rollout_db (demo_rollout RolloutStateRunning (Some approval_gate) None) [])
     \<lparr>faults := [False, False, False, False, False, False, True]\<rparr>"

definition crash_run :: "(err + unit) \<times> (err + nat) \<times> fleet_db" where
  "crash_run = (let (r1, s1) = advance (fleet_service demo_asvc) ''rollout:r1'' crash_db;
                    (r2, s2) = advance_sweep (fleet_service demo_asvc) s1 in (r1, r2, s2))"

text \<open>A stage's targets are seeded outside the transaction that parks the rollout, and existing targets are
  taken to mean that the gate was passed: when that transaction fails once, the next sweep
  delivers the first command although the stage has a before-gate, and no approval was ever
  requested.\<close>

theorem failure_loses_before_gate:
  "(case crash_run of (r1, r2, s') \<Rightarrow>
      (r1, r2, map ro_state (rollouts s'), map cmd_cluster (agent_commands s'), approvals s'))
   = (Inl ErrDB, Inr 1, [RolloutStateRunning], [''c1''], [])"
  by code_simp

section \<open>Long waits\<close>

text \<open>A wait gate is as long as declared only up to the range of a \<open>time.Duration\<close>: a wait of 9223372037 to
  18446744073 seconds passes validation, and its gate is over the moment it is entered.\<close>

theorem long_wait_is_no_wait:
  assumes "9223372037 \<le> w" and "w \<le> 18446744073"
  shows "validate_gate \<lparr>sg_type = ''wait'', sg_wait = w\<rparr> = None
    \<and> wait_over now \<lparr>gc_gate = which, gc_type = ''wait'', gc_wait = w, gc_approval = [], gc_entered = now\<rparr>"
proof -
  have lo: "2 ^ 64 \<le> w * second + 2 ^ 63" and hi: "w * second + 2 ^ 63 < 2 * 2 ^ 64"
    using assms by (simp_all add: second_def)
  have "(w * second + 2 ^ 63) mod 2 ^ 64 = w * second + 2 ^ 63 - 2 ^ 64"
    using lo hi by (simp add: mod_pos_geq mod_pos_pos_trivial)
  then have "wrap64 (w * second) = w * second - 2 ^ 64" by (simp add: wrap64_def)
  moreover have "w * second \<le> 2 ^ 64" using assms(2) by (simp add: second_def)
  ultimately show ?thesis using assms(1) by (simp add: validate_gate_def wait_over_def)
qed

theorem long_wait_is_no_wait_witness:
  "wait_over 0 \<lparr>gc_gate = ''before'', gc_type = ''wait'', gc_wait = 10000000000, gc_approval = [], gc_entered = 0\<rparr>"
  using long_wait_is_no_wait [of 10000000000 0 "''before''"] by simp

section \<open>Witnesses\<close>

lemma parked_row: "select_row (\<lambda>r. ro_id r = ''rollout:r1'') (rollouts parked_db) =
    Some (demo_rollout RolloutStateWaitingGate (Some approval_gate) (Some parked_gate))"
  by (simp add: parked_db_def demo_rollout_db_def demo_rollout_def select_row_def)

theorem gate_holds_under_advance_witness:
  "select_row (\<lambda>r. ro_id r = ''rollout:r1'') (rollouts (snd (advance_sweep (fleet_service demo_asvc) parked_db))) =
     Some (demo_rollout RolloutStateWaitingGate (Some approval_gate) (Some parked_gate))"
proof -
  obtain res s' where run: "advance_sweep (fleet_service demo_asvc) parked_db = (res, s')" by fastforce
  have st: "ro_state (demo_rollout RolloutStateWaitingGate (Some approval_gate) (Some parked_gate)) = RolloutStateWaitingGate"
    and g: "ro_gate (demo_rollout RolloutStateWaitingGate (Some approval_gate) (Some parked_gate)) = Some parked_gate"
    by (simp_all add: demo_rollout_def)
  have c: "(gc_type parked_gate = ''approval'' \<and> gc_approval parked_gate \<noteq> [])
      \<or> (gc_type parked_gate = ''wait'' \<and> 0 \<le> gc_wait parked_gate \<and> gc_wait parked_gate * second < 2 ^ 63
         \<and> clock parked_db < gc_entered parked_gate + gc_wait parked_gate * second)"
    by (simp add: parked_gate_def)
  from gate_holds_under_advance [OF run parked_row st g c] run show ?thesis by simp
qed

definition running_db :: "rollout_target list \<Rightarrow> fleet_db" where
  "running_db ts = demo_rollout_db (demo_rollout RolloutStateRunning None None) ts"

lemma running_row: "select_row (\<lambda>r. ro_id r = ''rollout:r1'') (rollouts (running_db ts)) =
    Some (demo_rollout RolloutStateRunning None None)"
  by (simp add: running_db_def demo_rollout_db_def demo_rollout_def select_row_def)

theorem rollout_follows_table_witness:
  "\<exists>r'. select_row (\<lambda>r. ro_id r = ''rollout:r1'') (rollouts (snd (advance (fleet_service demo_asvc) ''rollout:r1'' (running_db [])))) = Some r'
     \<and> ro_version r' = ''2''"
proof -
  obtain res s' where run: "advance (fleet_service demo_asvc) ''rollout:r1'' (running_db []) = (res, s')" by fastforce
  then have "fleet_step demo_asvc (running_db []) s'" by (rule f_advance)
  then have "(fleet_step demo_asvc)\<^sup>*\<^sup>* (running_db []) s'" by blast
  from rollout_follows_table [OF this running_row] run show ?thesis
    by (auto simp: same_definition_def demo_rollout_def)
qed

definition healthy_db :: fleet_db where
  "healthy_db = running_db [demo_target ''c1'' RolloutTargetHealthy]"

lemma healthy_run: "fst (advance_once (fleet_service demo_asvc) ''rollout:r1'' healthy_db) = Inr False"
  by code_simp


lemma fresh_run: "fst (advance_once (fleet_service demo_asvc) ''rollout:r1'' (running_db [])) = Inr True"
  by code_simp

text \<open>The members of a stage, computed.\<close>

definition member_list :: "'a fleet_db_scheme \<Rightarrow> string \<Rightarrow> rollout_stage \<Rightarrow> string list" where
  "member_list s org st = map cl_id (filter (\<lambda>c. cl_org c = org \<and> list_ex (\<lambda>i.
     case select_row (\<lambda>c. cs_id c = i) (cluster_sets s) of None \<Rightarrow> False
     | Some cs \<Rightarrow> matches_selector (cl_labels c) (cs_selector cs)) (st_sets st)) (clusters s))"

lemma stage_member_ids_list: "stage_member_ids s org st = set (member_list s org st)"
proof -
  have "(\<exists>i \<in> A. \<exists>cs. f i = Some cs \<and> P cs) \<longleftrightarrow> (\<exists>i \<in> A. case f i of None \<Rightarrow> False | Some cs \<Rightarrow> P cs)"
    for A :: "string set" and f :: "string \<Rightarrow> cluster_set option" and P
    by (rule bex_cong [OF refl]) (simp split: option.splits)
  then show ?thesis unfolding stage_member_ids_def member_list_def list_ex_iff set_map set_filter by simp
qed

lemma demo_member_list: "member_list (running_db []) ''acme'' (demo_stage None) = [''c1'', ''c4'']"
  "member_list healthy_db ''acme'' (demo_stage None) = [''c1'', ''c4'']"
  by code_simp+

lemma fresh_limit: "stage_limit (running_db []) ''acme'' (demo_stage None) = 1"
proof -
  have "card (stage_member_ids (running_db []) ''acme'' (demo_stage None)) = 2"
    by (simp add: stage_member_ids_list demo_member_list)
  moreover have "parse_max_concurrency ''50%'' 2 = Inr 1" by code_simp
  ultimately show ?thesis by (simp add: stage_limit_def demo_stage_def)
qed

theorem concurrency_bounded_witness:
  "delivered_count ''rollout:r1'' 0 (rollout_targets (snd (advance_once (fleet_service demo_asvc) ''rollout:r1'' (running_db [])))) \<le> 1"
proof -
  obtain s' where run: "advance_once (fleet_service demo_asvc) ''rollout:r1'' (running_db []) = (Inr True, s')"
    using fresh_run by (metis prod.collapse)
  have st: "ro_state (demo_rollout RolloutStateRunning None None) = RolloutStateRunning"
    "ro_stage (demo_rollout RolloutStateRunning None None) < length (ro_stages (demo_rollout RolloutStateRunning None None))"
    by (simp_all add: demo_rollout_def)
  have ts: "rollout_targets (running_db []) = []" by (simp add: running_db_def demo_rollout_db_def)
  then have d: "distinct (map key_of (rollout_targets (running_db [])))" by simp
  from concurrency_bounded [OF run running_row st d] fresh_limit run show ?thesis
    by (simp add: demo_rollout_def ts delivered_count_def)
qed

theorem command_ids_unambiguous_witness:
  "cmd_id (command_for (demo_rollout RolloutStateRunning None None) 1 ''c:1'' ''2'')
     \<noteq> cmd_id (command_for (demo_rollout RolloutStateRunning None None) 1 ''c:1'' ''1'')"
proof
  let ?r = "demo_rollout RolloutStateRunning None None"
  assume eq: "cmd_id (command_for ?r 1 ''c:1'' ''2'') = cmd_id (command_for ?r 1 ''c:1'' ''1'')"
  have id: "ro_id ?r = ''rollout:'' @ ''r1''" and u: "CHR '':'' \<notin> set ''r1''" by (simp_all add: demo_rollout_def)
  from command_ids_unambiguous [OF id u id u eq] show False by (simp add: demo_rollout_def)
qed

lemma rollback_run:
  "map_sum (\<lambda>e. e) ro_state (fst (rollback_rollout (fleet_service demo_asvc) ''alice'' ''acme'' ''rollout:r1'' ''1'' healthy_db))
     = Inr RolloutStateRolledBack"
  by code_simp


end
