(* ===== verification/Drift.thy ===== *)
theory Drift
  imports Fleet
begin

text \<open>
  Drift detection (internal/fleetmanager/drift.go): events of diverged desired and reported state,
  reported once while open, and the sweep that opens and resolves them from the sync states
  of the inventory.
\<close>

section \<open>Events\<close>

definition DriftKindInstanceSpec :: string where "DriftKindInstanceSpec = ''instance_spec''"

definition insert_drift :: "drift_event \<Rightarrow> ('a fleet_db_scheme, unit) dbm" where
  "insert_drift d = sql (\<lambda>s.
     if dr_id d \<in> dr_id ` set (drift_events s) then (Inl (ErrUnique ''drift_events''), s)
     else (Inr (), s\<lparr>drift_events := drift_events s @ [d\<lparr>dr_status := DriftOpen, dr_detected := clock s\<rparr>]\<rparr>))"

definition open_same :: "string \<Rightarrow> string \<Rightarrow> string \<Rightarrow> string \<Rightarrow> drift_event \<Rightarrow> bool" where
  "open_same cluster kind ref reported d \<longleftrightarrow> dr_cluster d = cluster \<and> dr_kind d = kind \<and> dr_ref d = ref
     \<and> dr_reported d = reported \<and> dr_status d = DriftOpen"

definition has_open_drift :: "string \<Rightarrow> string \<Rightarrow> string \<Rightarrow> string \<Rightarrow> ('a fleet_db_scheme, bool) dbm" where
  "has_open_drift cluster kind ref reported = sql (asks (\<lambda>s.
     list_ex (open_same cluster kind ref reported) (drift_events s)))"

definition list_open_drift :: "('a fleet_db_scheme, drift_event list) dbm" where
  "list_open_drift = sql (asks (\<lambda>s. filter (\<lambda>d. dr_status d = DriftOpen) (drift_events s)))"

definition resolve_row :: "string \<Rightarrow> drift_event \<Rightarrow> bool" where
  "resolve_row i d \<longleftrightarrow> dr_id d = i \<and> dr_status d = DriftOpen"

definition resolve_drift_row :: "string \<Rightarrow> ('a fleet_db_scheme, bool) dbm" where
  "resolve_drift_row i = sql (\<lambda>s. (Inr (rows_affected (resolve_row i) (drift_events s) = 1),
     s\<lparr>drift_events := update_rows (resolve_row i) (\<lambda>d. d\<lparr>dr_status := DriftResolved\<rparr>) (drift_events s)\<rparr>))"

definition list_drift :: "string \<Rightarrow> string \<Rightarrow> drift_status option \<Rightarrow> ('a fleet_db_scheme, drift_event list) dbm" where
  "list_drift org cluster status = sql (asks (\<lambda>s. rev (sort_key dr_detected (filter (\<lambda>d. dr_org d = org
     \<and> (cluster = [] \<or> dr_cluster d = cluster) \<and> (case status of None \<Rightarrow> True | Some st \<Rightarrow> dr_status d = st))
     (drift_events s)))))"

definition drift_payload :: "drift_event \<Rightarrow> json" where
  "drift_payload d = JObj ([(''orgId'', JStr (dr_org d)), (''driftId'', JStr (dr_id d)), (''clusterId'', JStr (dr_cluster d)),
     (''kind'', JStr (dr_kind d))] @ (if dr_ref d = [] then [] else [(''resourceRef'', JStr (dr_ref d))]))"

definition drift_ev :: "drift_event \<Rightarrow> string \<Rightarrow> audit_event" where
  "drift_ev d action = audit_ev (dr_org d) ''system:fleetmanager'' action ''drift_event'' (dr_id d) JNull"

text \<open>An event without an id gets a fresh one. The result tells whether an event was created.\<close>

definition report_drift :: "drift_event \<Rightarrow> ('a fleet_db_scheme, bool) dbm" where
  "report_drift d =
     (if dr_org d = [] \<or> dr_cluster d = [] \<or> dr_kind d = [] then throw FleetInvalidInput
      else bindE (has_open_drift (dr_cluster d) (dr_kind d) (dr_ref d) (dr_reported d)) (\<lambda>already.
        if already then ret False
        else bindE (if dr_id d = [] then bindE new_uuid (\<lambda>u. ret (d\<lparr>dr_id := ''drift:'' @ u\<rparr>)) else ret d) (\<lambda>d.
          thenE (with_tx (thenE (insert_drift d)
              (emit (drift_ev d ''drift.detected'') (dr_org d) ''drift.detected'' (drift_payload d))))
            (ret True))))"

definition resolve_drift :: "drift_event \<Rightarrow> ('a fleet_db_scheme, unit) dbm" where
  "resolve_drift d = with_tx (bindE (resolve_drift_row (dr_id d)) (\<lambda>ok.
     if \<not> ok then ret ()
     else emit (drift_ev d ''drift.resolved'') (dr_org d) ''drift.resolved'' (drift_payload d)))"

section \<open>The sweep\<close>

definition out_of_sync :: "resource_instance \<Rightarrow> bool" where
  "out_of_sync i \<longleftrightarrow> ri_sync i \<noteq> [] \<and> ri_sync i \<noteq> ''Synced'' \<and> ri_sync i \<noteq> ''synced''"

definition list_out_of_sync :: "('a fleet_db_scheme, resource_instance list) dbm" where
  "list_out_of_sync = sql (asks (\<lambda>s. filter out_of_sync (resource_instances s)))"

definition instance_ref :: "resource_instance \<Rightarrow> string" where
  "instance_ref i = (if ri_namespace i \<noteq> [] then ri_kind i @ ''/'' @ ri_namespace i @ ''/'' @ ri_name i
     else ri_kind i @ ''/'' @ ri_name i)"

definition drift_key :: "string \<Rightarrow> string \<Rightarrow> string \<Rightarrow> string" where
  "drift_key cluster kind ref = cluster @ ''|'' @ kind @ ''|'' @ ref"

definition instance_key :: "resource_instance \<Rightarrow> string" where
  "instance_key i = drift_key (ri_cluster i) DriftKindInstanceSpec (instance_ref i)"

definition instance_event :: "resource_instance \<Rightarrow> drift_event" where
  "instance_event i = \<lparr>dr_id = [], dr_org = ri_org i, dr_cluster = ri_cluster i, dr_kind = DriftKindInstanceSpec,
     dr_ref = instance_ref i, dr_desired = [], dr_reported = ri_sync i,
     dr_detail = ''instance '' @ ri_id i @ '' reported sync state '' @ ri_sync i,
     dr_status = DriftOpen, dr_detected = 0\<rparr>"

text \<open>The number of new events.\<close>

fun report_all :: "resource_instance list \<Rightarrow> ('a fleet_db_scheme, nat) dbm" where
  "report_all [] = ret 0"
| "report_all (i # is) = bindE (report_drift (instance_event i)) (\<lambda>created.
     bindE (report_all is) (\<lambda>n. ret (if created then n + 1 else n)))"

text \<open>The map \<open>current\<close>: a later instance with the same key overwrites an earlier one, a missing key
  reads as the empty string.\<close>

definition current_state :: "resource_instance list \<Rightarrow> string \<Rightarrow> string" where
  "current_state is k = (case map_of (rev (map (\<lambda>i. (instance_key i, ri_sync i)) is)) k of None \<Rightarrow> [] | Some v \<Rightarrow> v)"

definition stale_drift :: "(string \<Rightarrow> string) \<Rightarrow> drift_event \<Rightarrow> bool" where
  "stale_drift current d \<longleftrightarrow> dr_kind d = DriftKindInstanceSpec
     \<and> current (drift_key (dr_cluster d) (dr_kind d) (dr_ref d)) \<noteq> dr_reported d"

fun resolve_stale :: "(string \<Rightarrow> string) \<Rightarrow> drift_event list \<Rightarrow> ('a fleet_db_scheme, unit) dbm" where
  "resolve_stale current [] = ret ()"
| "resolve_stale current (d # ds) =
     (if stale_drift current d then thenE (resolve_drift d) (resolve_stale current ds) else resolve_stale current ds)"

definition drift_sweep :: "('a fleet_db_scheme, nat) dbm" where
  "drift_sweep = bindE list_out_of_sync (\<lambda>diverged.
     bindE (report_all diverged) (\<lambda>n.
     bindE list_open_drift (\<lambda>opens.
       thenE (resolve_stale (current_state diverged) opens) (ret n))))"

section \<open>What a sweep leaves open\<close>

definition open_instance_drift :: "drift_event list \<Rightarrow> (string \<times> string) set" where
  "open_instance_drift ds = {(drift_key (dr_cluster d) (dr_kind d) (dr_ref d), dr_reported d) | d.
     d \<in> set ds \<and> dr_kind d = DriftKindInstanceSpec \<and> dr_status d = DriftOpen}"

lemma report_drift_okE:
  assumes "report_drift d s = (Inr created, s')"
  obtains "list_ex (open_same (dr_cluster d) (dr_kind d) (dr_ref d) (dr_reported d)) (drift_events s)"
      "drift_events s' = drift_events s" "resource_instances s' = resource_instances s"
  | e where "drift_events s' = drift_events s @ [e]" "dr_id e \<notin> dr_id ` set (drift_events s)"
      "open_same (dr_cluster d) (dr_kind d) (dr_ref d) (dr_reported d) e" "resource_instances s' = resource_instances s"
proof -
  from assms obtain b s1 where 1: "has_open_drift (dr_cluster d) (dr_kind d) (dr_ref d) (dr_reported d) s = (Inr b, s1)"
    and 2: "(if b then ret False
        else bindE (if dr_id d = [] then bindE new_uuid (\<lambda>u. ret (d\<lparr>dr_id := ''drift:'' @ u\<rparr>)) else ret d) (\<lambda>d.
          thenE (with_tx (thenE (insert_drift d)
              (emit (drift_ev d ''drift.detected'') (dr_org d) ''drift.detected'' (drift_payload d))))
            (ret True))) s1 = (Inr created, s')"
    unfolding report_drift_def by (auto elim!: bindE_okE throw_okE split: if_splits)
  from 1 obtain fs where s1: "s1 = s\<lparr>faults := fs\<rparr>"
    and b: "b = list_ex (open_same (dr_cluster d) (dr_kind d) (dr_ref d) (dr_reported d)) (drift_events s)"
    unfolding has_open_drift_def by (auto elim!: sql_okE simp: asks_def)
  show ?thesis
  proof (cases b)
    case True
    with 2 s1 b show ?thesis by (auto simp: ret_def intro: that(1))
  next
    case False
    with 2 obtain d' s2 u where 3: "(if dr_id d = [] then bindE new_uuid (\<lambda>u. ret (d\<lparr>dr_id := ''drift:'' @ u\<rparr>)) else ret d) s1 = (Inr d', s2)"
      and 4: "with_tx (thenE (insert_drift d')
              (emit (drift_ev d' ''drift.detected'') (dr_org d') ''drift.detected'' (drift_payload d'))) s2 = (Inr u, s')"
      by (auto elim!: bindE_okE thenE_okE ret_okE)
    from 3 have d': "dr_cluster d' = dr_cluster d" "dr_kind d' = dr_kind d" "dr_ref d' = dr_ref d" "dr_reported d' = dr_reported d"
      and s2: "drift_events s2 = drift_events s" "resource_instances s2 = resource_instances s"
      using s1 by (auto elim!: bindE_okE new_uuid_okE ret_okE split: if_splits)
    from 4 have "drift_events s' = drift_events s2 @ [d'\<lparr>dr_status := DriftOpen, dr_detected := clock s2\<rparr>]
        \<and> dr_id d' \<notin> dr_id ` set (drift_events s2) \<and> resource_instances s' = resource_instances s2"
      unfolding insert_drift_def by (auto elim!: with_tx_okE thenE_okE sql_okE emit_okE split: if_splits)
    with d' s2 show ?thesis by (intro that(2)) (auto simp: open_same_def)
  qed
qed

abbreviation reports :: "resource_instance \<Rightarrow> drift_event \<Rightarrow> bool" where
  "reports i \<equiv> open_same (ri_cluster i) DriftKindInstanceSpec (instance_ref i) (ri_sync i)"

lemma report_instance_okE:
  assumes "report_drift (instance_event i) s = (Inr c, s')"
  obtains new where "drift_events s' = drift_events s @ new" "list_all (reports i) new"
    and "list_ex (reports i) (drift_events s')" and "resource_instances s' = resource_instances s"
    and "distinct (map dr_id (drift_events s)) \<Longrightarrow> distinct (map dr_id (drift_events s'))"
proof -
  have ev: "open_same (dr_cluster (instance_event i)) (dr_kind (instance_event i)) (dr_ref (instance_event i))
      (dr_reported (instance_event i)) = reports i"
    by (simp add: instance_event_def)
  from assms show ?thesis
  proof (rule report_drift_okE, unfold ev)
    assume "list_ex (reports i) (drift_events s)" "drift_events s' = drift_events s"
      "resource_instances s' = resource_instances s"
    then show ?thesis by (intro that [of "[]"]) simp_all
  next
    fix e assume "drift_events s' = drift_events s @ [e]" "dr_id e \<notin> dr_id ` set (drift_events s)" "reports i e"
      "resource_instances s' = resource_instances s"
    then show ?thesis by (intro that [of "[e]"]) simp_all
  qed
qed

lemma report_all_ok:
  assumes "report_all is s = (Inr n, s')"
  shows "\<exists>new. drift_events s' = drift_events s @ new \<and> (\<forall>e \<in> set new. \<exists>i \<in> set is. reports i e)
    \<and> (\<forall>i \<in> set is. list_ex (reports i) (drift_events s')) \<and> resource_instances s' = resource_instances s
    \<and> (distinct (map dr_id (drift_events s)) \<longrightarrow> distinct (map dr_id (drift_events s')))"
  using assms
proof (induction "is" arbitrary: s n)
  case Nil
  then show ?case by (simp add: ret_def)
next
  case (Cons i "is")
  from Cons.prems obtain c s1 m where 1: "report_drift (instance_event i) s = (Inr c, s1)"
    and 2: "report_all is s1 = (Inr m, s')" by (auto elim!: bindE_okE ret_okE split: if_splits)
  from 1 obtain n1 where a: "drift_events s1 = drift_events s @ n1" "list_all (reports i) n1"
    "list_ex (reports i) (drift_events s1)" "resource_instances s1 = resource_instances s"
    "distinct (map dr_id (drift_events s)) \<longrightarrow> distinct (map dr_id (drift_events s1))"
    by (rule report_instance_okE) blast
  from Cons.IH [OF 2] obtain n2 where b: "drift_events s' = drift_events s1 @ n2"
    "\<forall>e \<in> set n2. \<exists>i \<in> set is. reports i e" "\<forall>i \<in> set is. list_ex (reports i) (drift_events s')"
    "resource_instances s' = resource_instances s1"
    "distinct (map dr_id (drift_events s1)) \<longrightarrow> distinct (map dr_id (drift_events s'))" by blast
  have "drift_events s' = drift_events s @ (n1 @ n2)" using a b by simp
  moreover have "\<forall>e \<in> set (n1 @ n2). \<exists>i \<in> set (i # is). reports i e"
    using a(2) b(2) by (auto simp: list_all_iff)
  moreover have "\<forall>i \<in> set (i # is). list_ex (reports i) (drift_events s')"
    using a(3) b(1,3) by auto
  ultimately show ?case using a(4,5) b(4,5) by metis
qed

definition close_ids :: "string set \<Rightarrow> drift_event list \<Rightarrow> drift_event list" where
  "close_ids ids ds = map (\<lambda>e. if dr_id e \<in> ids \<and> dr_status e = DriftOpen then e\<lparr>dr_status := DriftResolved\<rparr> else e) ds"

lemma close_ids_insert: "close_ids (insert i ids) ds =
    close_ids ids (update_rows (resolve_row i) (\<lambda>d. d\<lparr>dr_status := DriftResolved\<rparr>) ds)"
  by (auto simp: close_ids_def update_rows_def resolve_row_def)

lemma resolve_drift_ok:
  "resolve_drift d s = (Inr u, s') \<Longrightarrow> drift_events s' =
     update_rows (resolve_row (dr_id d)) (\<lambda>d. d\<lparr>dr_status := DriftResolved\<rparr>) (drift_events s)"
  unfolding resolve_drift_def resolve_drift_row_def
  by (auto elim!: with_tx_okE bindE_okE sql_okE emit_okE ret_okE split: if_splits)

lemma resolve_stale_ok:
  "resolve_stale cur ds s = (Inr u, s') \<Longrightarrow>
     drift_events s' = close_ids (dr_id ` {d \<in> set ds. stale_drift cur d}) (drift_events s)"
proof (induction ds arbitrary: s)
  case Nil
  then show ?case by (simp add: ret_def close_ids_def)
next
  case (Cons d ds)
  show ?case
  proof (cases "stale_drift cur d")
    case True
    with Cons.prems obtain v s1 where 1: "resolve_drift d s = (Inr v, s1)" and 2: "resolve_stale cur ds s1 = (Inr u, s')"
      by (auto elim: thenE_okE)
    have eq: "{x \<in> set (d # ds). stale_drift cur x} = insert d {x \<in> set ds. stale_drift cur x}" using True by auto
    show ?thesis unfolding eq image_insert close_ids_insert
      using Cons.IH [OF 2] resolve_drift_ok [OF 1] by simp
  next
    case False
    then have eq: "{x \<in> set (d # ds). stale_drift cur x} = {x \<in> set ds. stale_drift cur x}" by auto
    from Cons False show ?thesis unfolding eq by simp
  qed
qed

lemma open_after_close:
  assumes "distinct (map dr_id ds)"
  shows "e \<in> set (close_ids (dr_id ` {d \<in> set (filter (\<lambda>d. dr_status d = DriftOpen) ds). stale_drift cur d}) ds)
      \<and> dr_status e = DriftOpen \<longleftrightarrow> e \<in> set ds \<and> dr_status e = DriftOpen \<and> \<not> stale_drift cur e"
proof -
  have "dr_id e \<in> dr_id ` {d \<in> set ds. dr_status d = DriftOpen \<and> stale_drift cur d} \<longleftrightarrow> stale_drift cur e"
    if "e \<in> set ds" "dr_status e = DriftOpen" for e
    using that distinct_key_unique [OF assms that(1)] by auto
  then show ?thesis by (auto simp: close_ids_def)
qed

lemma current_state_unique:
  assumes "i \<in> set is" and "\<forall>j \<in> set is. instance_key j = instance_key i \<longrightarrow> ri_sync j = ri_sync i"
  shows "current_state is (instance_key i) = ri_sync i"
proof -
  let ?m = "map_of (rev (map (\<lambda>i. (instance_key i, ri_sync i)) is))"
  have "?m (instance_key i) \<noteq> None" using assms(1) by (auto simp: map_of_eq_None_iff image_image)
  then obtain v where v: "?m (instance_key i) = Some v" by blast
  then have "(instance_key i, v) \<in> set (rev (map (\<lambda>i. (instance_key i, ri_sync i)) is))" by (rule map_of_SomeD)
  with assms(2) have "v = ri_sync i" by auto
  with v show ?thesis by (simp add: current_state_def)
qed

lemma current_state_SomeD:
  "current_state is k = v \<Longrightarrow> v \<noteq> [] \<Longrightarrow> \<exists>i \<in> set is. instance_key i = k \<and> ri_sync i = v"
  by (auto simp: current_state_def split: option.splits dest!: map_of_SomeD)


section \<open>Concrete sweeps\<close>

definition demo_instance :: "string \<Rightarrow> string \<Rightarrow> string \<Rightarrow> resource_instance" where
  "demo_instance i name sync = \<lparr>ri_id = i, ri_org = ''acme'', ri_cluster = ''c1'', ri_mode = [], ri_created = 1,
     ri_kind = ''Pg'', ri_name = name, ri_namespace = [], ri_sync = sync\<rparr>"

definition demo_drift_db :: "resource_instance list \<Rightarrow> fleet_db" where
  "demo_drift_db is = demo_fleet_db\<lparr>resource_instances := is\<rparr>"

lemma demo_sweep_run:
  "fst (drift_sweep (demo_drift_db [demo_instance ''r1'' ''a'' ''OutOfSync'', demo_instance ''r2'' ''b'' ''Synced''])) = Inr 1"
  by code_simp


text \<open>Two diverged instances of one cluster, kind, namespace and name.\<close>

definition flapping_run :: "(err + nat) list" where
  "flapping_run = (let (r1, s1) = drift_sweep (demo_drift_db [demo_instance ''r1'' ''a'' ''OutOfSync'', demo_instance ''r2'' ''a'' ''Degraded'']);
      (r2, s2) = drift_sweep s1; (r3, s3) = drift_sweep s2 in [r1, r2, r3])"

text \<open>The map of the sweep keeps one state per resource key: two instances of the same kind, namespace and
  name in one cluster (of two API groups, say) with different states make every sweep report the
  first as a new event and resolve it again, with a notification each time.\<close>

theorem drift_flaps: "flapping_run = [Inr 2, Inr 1, Inr 1]"
  by code_simp

end
