(* ===== verification/Permissions.thy ===== *)
theory Permissions
  imports Prelude
begin

text \<open>
  The permission catalog, the built-in roles and the OpenFGA object names
  (internal/authz/permissions.go and the helpers of authz.go). A permission slug names one
  relation of the organization type; a role is a list of slugs; the Kubernetes tier of a role is
  the highest tier one of its slugs contributes.
\<close>

section \<open>Slugs and relations\<close>

definition PermTenantRead :: string where "PermTenantRead = ''tenant.read''"
definition PermTenantSettingsWrite :: string where "PermTenantSettingsWrite = ''tenant.settings.write''"
definition PermTenantMembersManage :: string where "PermTenantMembersManage = ''tenant.members.manage''"
definition PermTenantTeamsManage :: string where "PermTenantTeamsManage = ''tenant.teams.manage''"
definition PermTenantRBACManage :: string where "PermTenantRBACManage = ''tenant.rbac.manage''"
definition PermTenantIdentityManage :: string where "PermTenantIdentityManage = ''tenant.identity.manage''"
definition PermTenantNotificationsManage :: string where "PermTenantNotificationsManage = ''tenant.notifications.manage''"
definition PermTenantAdmin :: string where "PermTenantAdmin = ''tenant.admin''"
definition PermClustersRegister :: string where "PermClustersRegister = ''clusters.register''"
definition PermClustersKubectl :: string where "PermClustersKubectl = ''clusters.kubectl''"
definition PermCloudAccountsManage :: string where "PermCloudAccountsManage = ''cloudaccounts.manage''"
definition PermZonesManage :: string where "PermZonesManage = ''zones.manage''"
definition PermFleetManage :: string where "PermFleetManage = ''fleet.manage''"
definition PermPoliciesManage :: string where "PermPoliciesManage = ''policies.manage''"
definition PermSecretStoresManage :: string where "PermSecretStoresManage = ''secretstores.manage''"
definition PermExtensionsManage :: string where "PermExtensionsManage = ''extensions.manage''"
definition PermExtensionsInvoke :: string where "PermExtensionsInvoke = ''extensions.invoke''"
definition PermCatalogManage :: string where "PermCatalogManage = ''catalog.manage''"
definition PermDeploymentsCreate :: string where "PermDeploymentsCreate = ''deployments.create''"
definition PermApprovalsManage :: string where "PermApprovalsManage = ''approvals.manage''"

definition RelationTenantRead :: string where "RelationTenantRead = ''tenant_read''"
definition RelationTenantSettingsWrite :: string where "RelationTenantSettingsWrite = ''tenant_settings_write''"
definition RelationTenantMembersManage :: string where "RelationTenantMembersManage = ''tenant_members_manage''"
definition RelationTenantTeamsManage :: string where "RelationTenantTeamsManage = ''tenant_teams_manage''"
definition RelationTenantRBACManage :: string where "RelationTenantRBACManage = ''tenant_rbac_manage''"
definition RelationTenantIdentityManage :: string where "RelationTenantIdentityManage = ''tenant_identity_manage''"
definition RelationTenantNotificationsManage :: string where "RelationTenantNotificationsManage = ''tenant_notifications_manage''"
definition RelationTenantAdmin :: string where "RelationTenantAdmin = ''tenant_admin''"
definition RelationClustersRegister :: string where "RelationClustersRegister = ''clusters_register''"
definition RelationClustersKubectl :: string where "RelationClustersKubectl = ''clusters_kubectl''"
definition RelationKubectl :: string where "RelationKubectl = ''kubectl''"
definition RelationCloudAccountsManage :: string where "RelationCloudAccountsManage = ''cloudaccounts_manage''"
definition RelationZonesManage :: string where "RelationZonesManage = ''zones_manage''"
definition RelationFleetManage :: string where "RelationFleetManage = ''fleet_manage''"
definition RelationPoliciesManage :: string where "RelationPoliciesManage = ''policies_manage''"
definition RelationSecretStoresManage :: string where "RelationSecretStoresManage = ''secretstores_manage''"
definition RelationExtensionsManage :: string where "RelationExtensionsManage = ''extensions_manage''"
definition RelationExtensionsInvoke :: string where "RelationExtensionsInvoke = ''extensions_invoke''"
definition RelationCatalogManage :: string where "RelationCatalogManage = ''catalog_manage''"
definition RelationDeploymentsCreate :: string where "RelationDeploymentsCreate = ''deployments_create''"
definition RelationApprovalsManage :: string where "RelationApprovalsManage = ''approvals_manage''"

section \<open>The catalog\<close>

record permission =
  pm_slug :: string
  pm_name :: string
  pm_description :: string
  pm_domain :: string
  pm_tier :: string

definition perm_entry :: "string \<Rightarrow> string \<Rightarrow> string \<Rightarrow> string \<Rightarrow> string \<Rightarrow> permission" where
  "perm_entry slug name desc grp tier = \<lparr>pm_slug = slug, pm_name = name, pm_description = desc,
     pm_domain = grp, pm_tier = tier\<rparr>"

definition permission_catalog :: "permission list" where
  "permission_catalog = [
     perm_entry PermTenantRead ''Read tenant'' ''View the tenant, its resources, and status''
       ''tenant'' ''viewer'',
     perm_entry PermTenantSettingsWrite ''Edit tenant settings'' ''Update the org profile and git configuration''
       ''tenant'' [],
     perm_entry PermTenantMembersManage ''Manage members'' ''Invite and remove org and team members''
       ''tenant'' [],
     perm_entry PermTenantTeamsManage ''Manage teams'' ''Create, update, and delete teams''
       ''tenant'' [],
     perm_entry PermTenantRBACManage ''Manage RBAC'' ''Edit roles and team-to-role mappings''
       ''tenant'' [],
     perm_entry PermTenantIdentityManage ''Manage identity'' ''Manage OIDC clients and identity-provider brokers''
       ''tenant'' [],
     perm_entry PermTenantNotificationsManage ''Manage notifications'' ''Configure notification channels and rules''
       ''tenant'' [],
     perm_entry PermTenantAdmin ''Tenant administrator'' ''Delete the tenant and other irreversible administration''
       ''tenant'' ''admin'',
     perm_entry PermClustersRegister ''Operate clusters'' ''Register, cordon, and decommission clusters''
       ''infrastructure'' ''operator'',
     perm_entry PermClustersKubectl ''Access clusters with kubectl'' ''Open proxied kubectl sessions through the inari-kubeproxy gateway''
       ''infrastructure'' [],
     perm_entry PermCloudAccountsManage ''Manage cloud accounts'' ''Register and deregister cloud accounts''
       ''infrastructure'' ''operator'',
     perm_entry PermZonesManage ''Manage tenant zones'' ''Provision and close tenant zones''
       ''infrastructure'' ''operator'',
     perm_entry PermFleetManage ''Manage fleet'' ''Operate the cluster fleet (cluster sets, rollouts, drift)''
       ''infrastructure'' ''operator'',
     perm_entry PermPoliciesManage ''Manage policies'' ''Create, assign, and delete policy packs''
       ''infrastructure'' ''operator'',
     perm_entry PermSecretStoresManage ''Manage secret stores'' ''Configure external secret stores''
       ''infrastructure'' ''operator'',
     perm_entry PermExtensionsManage ''Manage extensions'' ''Register and unregister extensions''
       ''infrastructure'' ''operator'',
     perm_entry PermExtensionsInvoke ''Invoke extensions'' ''Call extension backends through the gateway proxy''
       ''workloads'' [],
     perm_entry PermCatalogManage ''Manage catalog'' ''Publish and edit org catalog items''
       ''workloads'' ''editor'',
     perm_entry PermDeploymentsCreate ''Deploy workloads'' ''Deploy, update, roll back, and undeploy instances; run scaffolds''
       ''workloads'' ''editor'',
     perm_entry PermApprovalsManage ''Manage approvals'' ''Decide approval requests and configure approval policy''
       ''workloads'' []]"

text \<open>\<open>catalogIndex\<close>: the map from the slugs to the entries.\<close>

definition catalog_index :: "string \<rightharpoonup> permission" where
  "catalog_index = map_of (map (\<lambda>p. (pm_slug p, p)) permission_catalog)"

definition valid_permission :: "string \<Rightarrow> bool" where
  "valid_permission slug \<longleftrightarrow> catalog_index slug \<noteq> None"

definition permission_relation :: "string \<Rightarrow> string option" where
  "permission_relation slug =
     (if \<not> valid_permission slug then None else Some (replace_char (CHR ''.'') (CHR ''_'') slug))"

definition k8s_fragment_tier :: "string \<Rightarrow> string" where
  "k8s_fragment_tier slug = (case catalog_index slug of None \<Rightarrow> [] | Some p \<Rightarrow> pm_tier p)"

text \<open>A missing key of the map reads as 0.\<close>

definition k8s_tier_rank :: "string \<Rightarrow> nat" where
  "k8s_tier_rank tier = (case map_of [([], 0), (''viewer'', 1), (''editor'', 2), (''operator'', 3), (''admin'', 4)] tier of
      None \<Rightarrow> 0 | Some n \<Rightarrow> n)"

definition effective_k8s_tier :: "string list \<Rightarrow> string" where
  "effective_k8s_tier ps = foldl (\<lambda>best p.
     if k8s_tier_rank best < k8s_tier_rank (k8s_fragment_tier p) then k8s_fragment_tier p else best) [] ps"

section \<open>The built-in roles\<close>

record builtin_role =
  br_name :: string
  br_display :: string
  br_description :: string
  br_permissions :: "string list"

definition BuiltinRoleAdmin :: string where "BuiltinRoleAdmin = ''admin''"
definition BuiltinRoleOperator :: string where "BuiltinRoleOperator = ''operator''"
definition BuiltinRoleEditor :: string where "BuiltinRoleEditor = ''editor''"
definition BuiltinRoleViewer :: string where "BuiltinRoleViewer = ''viewer''"

definition builtin_roles :: "builtin_role list" where
  "builtin_roles =
     (let all = map pm_slug permission_catalog;
          op = [PermTenantRead, PermTenantMembersManage, PermClustersRegister, PermClustersKubectl, PermCloudAccountsManage, PermZonesManage, PermFleetManage, PermPoliciesManage, PermSecretStoresManage, PermExtensionsManage, PermExtensionsInvoke, PermCatalogManage, PermDeploymentsCreate, PermApprovalsManage];
          ed = [PermTenantRead, PermCatalogManage, PermDeploymentsCreate, PermExtensionsInvoke, PermApprovalsManage];
          vw = [PermTenantRead]
      in [\<lparr>br_name = BuiltinRoleAdmin, br_display = ''Org Admin'', br_description = ''Full tenant administration'',
           br_permissions = all\<rparr>,
          \<lparr>br_name = BuiltinRoleOperator, br_display = ''Platform Engineer'',
           br_description = ''Operate the tenant's clusters, infrastructure, and workloads'', br_permissions = op\<rparr>,
          \<lparr>br_name = BuiltinRoleEditor, br_display = ''Developer'', br_description = ''Deploy and manage workloads'',
           br_permissions = ed\<rparr>,
          \<lparr>br_name = BuiltinRoleViewer, br_display = ''Viewer'', br_description = ''Read-only access'',
           br_permissions = vw\<rparr>])"

definition builtin_role_permissions :: "string \<Rightarrow> string list" where
  "builtin_role_permissions name =
     (case find (\<lambda>r. br_name r = name) builtin_roles of None \<Rightarrow> [] | Some r \<Rightarrow> br_permissions r)"

section \<open>Object names\<close>

text \<open>\<open>stripTypePrefix\<close> (with the one prefix its callers pass) and the helpers that build the
  user and object strings of the tuples.\<close>

definition strip_type_prefix :: "string \<Rightarrow> string \<Rightarrow> string" where
  "strip_type_prefix i p = trim_prefix i (p @ '':'')"

definition org_object :: "string \<Rightarrow> string" where "org_object i = ''organization:'' @ trim_prefix i ''org:''"
definition team_object :: "string \<Rightarrow> string" where "team_object i = ''team:'' @ i"
definition cluster_object :: "string \<Rightarrow> string" where "cluster_object i = ''cluster:'' @ strip_type_prefix i ''cluster''"
definition catalog_item_object :: "string \<Rightarrow> string" where
  "catalog_item_object i = ''catalog_item:'' @ replace_char (CHR '':'') (CHR ''/'') i"
definition resource_instance_object :: "string \<Rightarrow> string" where "resource_instance_object i = ''resource_instance:'' @ i"
definition cloud_account_object :: "string \<Rightarrow> string" where
  "cloud_account_object i = ''cloud_account:'' @ strip_type_prefix i ''cloudaccount''"
definition policy_pack_object :: "string \<Rightarrow> string" where
  "policy_pack_object i = ''policy_pack:'' @ strip_type_prefix i ''policypack''"
definition cluster_set_object :: "string \<Rightarrow> string" where
  "cluster_set_object i = ''cluster_set:'' @ strip_type_prefix i ''clusterset''"
definition tenant_zone_object :: "string \<Rightarrow> string" where
  "tenant_zone_object i = ''tenant_zone:'' @ strip_type_prefix i ''zone''"
definition extension_object :: "string \<Rightarrow> string" where
  "extension_object i = ''extension:'' @ strip_type_prefix i ''extension''"
definition rollout_object :: "string \<Rightarrow> string" where
  "rollout_object i = ''rollout:'' @ strip_type_prefix i ''rollout''"
definition drift_event_object :: "string \<Rightarrow> string" where
  "drift_event_object i = ''drift_event:'' @ strip_type_prefix i ''drift''"
definition team_member_userset :: "string \<Rightarrow> string" where
  "team_member_userset i = team_object i @ ''#member''"

section \<open>The catalog is a bijection between slugs and relations\<close>

lemmas slug_defs =
  PermTenantRead_def PermTenantSettingsWrite_def PermTenantMembersManage_def PermTenantTeamsManage_def
  PermTenantRBACManage_def PermTenantIdentityManage_def PermTenantNotificationsManage_def PermTenantAdmin_def
  PermClustersRegister_def PermClustersKubectl_def PermCloudAccountsManage_def PermZonesManage_def
  PermFleetManage_def PermPoliciesManage_def PermSecretStoresManage_def PermExtensionsManage_def
  PermExtensionsInvoke_def PermCatalogManage_def PermDeploymentsCreate_def PermApprovalsManage_def
lemmas relation_defs =
  RelationTenantRead_def RelationTenantSettingsWrite_def RelationTenantMembersManage_def
  RelationTenantTeamsManage_def RelationTenantRBACManage_def RelationTenantIdentityManage_def
  RelationTenantNotificationsManage_def RelationTenantAdmin_def RelationClustersRegister_def
  RelationClustersKubectl_def RelationKubectl_def RelationCloudAccountsManage_def RelationZonesManage_def
  RelationFleetManage_def RelationPoliciesManage_def RelationSecretStoresManage_def RelationExtensionsManage_def
  RelationExtensionsInvoke_def RelationCatalogManage_def RelationDeploymentsCreate_def
  RelationApprovalsManage_def

lemma catalog_slugs: "map pm_slug permission_catalog = [
    PermTenantRead, PermTenantSettingsWrite, PermTenantMembersManage, PermTenantTeamsManage,
    PermTenantRBACManage, PermTenantIdentityManage, PermTenantNotificationsManage, PermTenantAdmin,
    PermClustersRegister, PermClustersKubectl, PermCloudAccountsManage, PermZonesManage,
    PermFleetManage, PermPoliciesManage, PermSecretStoresManage, PermExtensionsManage,
    PermExtensionsInvoke, PermCatalogManage, PermDeploymentsCreate, PermApprovalsManage]"
  by (simp add: permission_catalog_def perm_entry_def)

lemma catalog_slugs_distinct: "distinct (map pm_slug permission_catalog)"
  by code_simp

lemma valid_permission_iff: "valid_permission slug \<longleftrightarrow> slug \<in> set (map pm_slug permission_catalog)"
  by (auto simp: valid_permission_def catalog_index_def map_of_eq_None_iff image_image)

lemma slugs_no_underscore: "slug \<in> set (map pm_slug permission_catalog) \<Longrightarrow> CHR ''_'' \<notin> set slug"
proof -
  have "list_all (\<lambda>slug. \<not> List.member slug (CHR ''_'')) (map pm_slug permission_catalog)" by code_simp
  then show "slug \<in> set (map pm_slug permission_catalog) \<Longrightarrow> CHR ''_'' \<notin> set slug"
    by (auto simp: list_all_iff)
qed

lemma replace_char_inj:
  "b \<notin> set s \<Longrightarrow> b \<notin> set t \<Longrightarrow> replace_char a b s = replace_char a b t \<Longrightarrow> s = t"
proof (induction s arbitrary: t)
  case (Cons x s)
  then show ?case by (cases t) (auto simp: replace_char_def split: if_splits)
qed (simp add: replace_char_def)

lemma permission_relation_inj:
  assumes "permission_relation s = Some r" and "permission_relation t = Some r"
  shows "s = t"
proof -
  have rel: "u \<in> set (map pm_slug permission_catalog) \<and> replace_char (CHR ''.'') (CHR ''_'') u = r"
    if "permission_relation u = Some r" for u
    using that unfolding permission_relation_def valid_permission_iff by (simp split: if_splits)
  show ?thesis
    using replace_char_inj [OF slugs_no_underscore slugs_no_underscore] rel [OF assms(1)] rel [OF assms(2)]
    by metis
qed

text \<open>Every relation constant of the enforcement points is the relation of its slug.\<close>

lemma relation_constants:
  "permission_relation PermTenantRead = Some RelationTenantRead"
  "permission_relation PermTenantSettingsWrite = Some RelationTenantSettingsWrite"
  "permission_relation PermTenantMembersManage = Some RelationTenantMembersManage"
  "permission_relation PermTenantTeamsManage = Some RelationTenantTeamsManage"
  "permission_relation PermTenantRBACManage = Some RelationTenantRBACManage"
  "permission_relation PermTenantIdentityManage = Some RelationTenantIdentityManage"
  "permission_relation PermTenantNotificationsManage = Some RelationTenantNotificationsManage"
  "permission_relation PermTenantAdmin = Some RelationTenantAdmin"
  "permission_relation PermClustersRegister = Some RelationClustersRegister"
  "permission_relation PermClustersKubectl = Some RelationClustersKubectl"
  "permission_relation PermCloudAccountsManage = Some RelationCloudAccountsManage"
  "permission_relation PermZonesManage = Some RelationZonesManage"
  "permission_relation PermFleetManage = Some RelationFleetManage"
  "permission_relation PermPoliciesManage = Some RelationPoliciesManage"
  "permission_relation PermSecretStoresManage = Some RelationSecretStoresManage"
  "permission_relation PermExtensionsManage = Some RelationExtensionsManage"
  "permission_relation PermExtensionsInvoke = Some RelationExtensionsInvoke"
  "permission_relation PermCatalogManage = Some RelationCatalogManage"
  "permission_relation PermDeploymentsCreate = Some RelationDeploymentsCreate"
  "permission_relation PermApprovalsManage = Some RelationApprovalsManage"
  by (simp_all add: permission_relation_def valid_permission_iff catalog_slugs slug_defs relation_defs replace_char_def)

text \<open>The relations of the catalog in its order.\<close>

definition catalog_relations :: "string list" where
  "catalog_relations = map (\<lambda>p. replace_char (CHR ''.'') (CHR ''_'') (pm_slug p)) permission_catalog"

lemma permission_relation_Some_iff:
  "permission_relation s = Some r \<longleftrightarrow> valid_permission s \<and> r = replace_char (CHR ''.'') (CHR ''_'') s"
  by (auto simp: permission_relation_def)

lemma catalog_relations_iff: "r \<in> set catalog_relations \<longleftrightarrow> (\<exists>s. permission_relation s = Some r)"
  by (auto simp: catalog_relations_def permission_relation_Some_iff valid_permission_iff)

section \<open>The tier of a role is the highest of its permissions\<close>

lemma effective_tier_fold:
  "k8s_tier_rank (foldl (\<lambda>best p. if k8s_tier_rank best < k8s_tier_rank (k8s_fragment_tier p) then k8s_fragment_tier p
       else best) b ps) = Max (insert (k8s_tier_rank b) ((\<lambda>p. k8s_tier_rank (k8s_fragment_tier p)) ` set ps))"
proof (induction ps arbitrary: b)
  case (Cons p ps)
  let ?M = "(\<lambda>p. k8s_tier_rank (k8s_fragment_tier p)) ` set ps"
  show ?case
    by (simp add: Cons.IH Max_insert insert_commute del: Max_insert)
       (cases "?M = {}", auto simp: max_def)
qed simp

lemma effective_tier_max:
  "k8s_tier_rank (effective_k8s_tier ps) = Max (insert 0 ((\<lambda>p. k8s_tier_rank (k8s_fragment_tier p)) ` set ps))"
  unfolding effective_k8s_tier_def effective_tier_fold by (simp add: k8s_tier_rank_def)

lemma effective_tier_mono: "set ps \<subseteq> set qs \<Longrightarrow> k8s_tier_rank (effective_k8s_tier ps) \<le> k8s_tier_rank (effective_k8s_tier qs)"
  unfolding effective_tier_max by (rule Max_mono) auto

lemma builtin_hierarchy:
  "set (builtin_role_permissions BuiltinRoleViewer) \<subseteq> set (builtin_role_permissions BuiltinRoleEditor)"
  "set (builtin_role_permissions BuiltinRoleEditor) \<subseteq> set (builtin_role_permissions BuiltinRoleOperator)"
  "set (builtin_role_permissions BuiltinRoleOperator) \<subseteq> set (builtin_role_permissions BuiltinRoleAdmin)"
  by (simp_all add: builtin_role_permissions_def builtin_roles_def Let_def catalog_slugs BuiltinRoleAdmin_def
      BuiltinRoleOperator_def BuiltinRoleEditor_def BuiltinRoleViewer_def)

lemma builtin_tiers:
  "map (\<lambda>r. effective_k8s_tier (br_permissions r)) builtin_roles = [''admin'', ''operator'', ''editor'', ''viewer'']"
  by code_simp

section \<open>Object names\<close>

lemma org_object_inj:
  assumes "has_prefix a ''org:''" and "has_prefix b ''org:''" and "org_object a = org_object b"
  shows "a = b"
proof -
  have "''org:'' @ drop (length ''org:'') x = x" if "has_prefix x ''org:''" for x
    using that unfolding has_prefix_def by (metis append_take_drop_id)
  moreover from assms have "drop (length ''org:'') a = drop (length ''org:'') b"
    by (simp add: org_object_def trim_prefix_def)
  ultimately show ?thesis using assms(1,2) by metis
qed

lemma team_member_userset_inj: "team_member_userset a = team_member_userset b \<Longrightarrow> a = b"
  by (simp add: team_member_userset_def team_object_def)

text \<open>The rewriting of a colon to a slash identifies two catalog items.\<close>

lemma catalog_item_object_collides: "catalog_item_object ''a:b'' = catalog_item_object ''a/b''"
  by (simp add: catalog_item_object_def replace_char_def)

end
