(* ===== verification/TupleSync.thy ===== *)
theory TupleSync
  imports Approvals Permissions
begin

text \<open>
  The OpenFGA tuples (internal/authz): the idempotent store over the OpenFGA client (authz.go),
  the reconcilers of the platform group, of the team groups and of the role permissions
  (platformsync.go, teamsync.go, rolesync.go), and the outbox consumer that writes and deletes
  tuples (tuplewriter.go, tenantdeletion.go).

  The OpenFGA server is not under src/: the client is a parameter and \<open>fga_laws\<close> states the
  documented behaviour of its Write and Read calls. The reconcilers use only the interface
  \<open>Store\<close>, a parameter too; \<open>store_laws\<close> is its contract, and \<open>openfga_store_laws\<close> proves
  that the code's store keeps it. Go iterates a map in any order; the model takes the order of
  the lists the maps are built from, and what is proved speaks of sets of tuples.
\<close>

section \<open>Tuples and the store\<close>

record fga_tuple =
  tp_user :: string
  tp_relation :: string
  tp_object :: string

definition RelationMember :: string where "RelationMember = ''member''"
definition RelationParent :: string where "RelationParent = ''parent''"

definition mk_tuple :: "string \<Rightarrow> string \<Rightarrow> string \<Rightarrow> fga_tuple" where
  "mk_tuple u rel obj = \<lparr>tp_user = u, tp_relation = rel, tp_object = obj\<rparr>"

lemma mk_tuple_simps [simp]:
  "tp_user (mk_tuple u rel obj) = u" "tp_relation (mk_tuple u rel obj) = rel" "tp_object (mk_tuple u rel obj) = obj"
  by (simp_all add: mk_tuple_def)

lemma mk_tuple_eq [simp]: "mk_tuple u r ob = mk_tuple u' r' ob' \<longleftrightarrow> u = u' \<and> r = r' \<and> ob = ob'"
  by (simp add: mk_tuple_def)

lemma mk_tuple_collapse [simp]: "mk_tuple (tp_user t) (tp_relation t) (tp_object t) = t"
  by (simp add: mk_tuple_def)

record 's tuple_ops =
  to_read :: "string \<Rightarrow> string \<Rightarrow> ('s, fga_tuple list) dbm"
  to_write :: "fga_tuple list \<Rightarrow> ('s, unit) dbm"
  to_delete :: "fga_tuple list \<Rightarrow> ('s, unit) dbm"

text \<open>The calls of the client: a Write request with its writes and deletes, and one page of a Read
  request with the continuation token.\<close>

record 's fga_client =
  fc_write :: "fga_tuple list \<Rightarrow> fga_tuple list \<Rightarrow> ('s, unit) dbm"
  fc_read :: "string \<Rightarrow> string \<Rightarrow> string option \<Rightarrow> ('s, fga_tuple list \<times> string) dbm"

text \<open>\<open>strings.Contains\<close> on the text of an error. The client's errors carry the server's text.\<close>

fun has_substring :: "string \<Rightarrow> string \<Rightarrow> bool" where
  "has_substring p [] = (p = [])"
| "has_substring p (c # cs) = (has_prefix (c # cs) p \<or> has_substring p cs)"

fun err_text :: "err \<Rightarrow> string" where
  "err_text (ErrExternal m) = m"
| "err_text (ErrMsg m) = m"
| "err_text _ = []"

definition is_tuple_exists_err :: "err \<Rightarrow> bool" where
  "is_tuple_exists_err e = has_substring ''already exists'' (err_text e)"

definition is_tuple_missing_err :: "err \<Rightarrow> bool" where
  "is_tuple_missing_err e = has_substring ''does not exist'' (err_text e)"

definition is_relation_not_found_err :: "err \<Rightarrow> bool" where
  "is_relation_not_found_err e \<longleftrightarrow> has_substring ''relation'' (err_text e)
     \<and> (has_substring ''not found'' (err_text e) \<or> has_substring ''undefined'' (err_text e))"

fun write_each :: "'s fga_client \<Rightarrow> fga_tuple list \<Rightarrow> ('s, unit) dbm" where
  "write_each c [] = ret ()"
| "write_each c (t # ts) =
     thenE (catchE (fc_write c [t] []) (\<lambda>e. if is_tuple_exists_err e then ret () else throw e)) (write_each c ts)"

definition write_tuples :: "'s fga_client \<Rightarrow> fga_tuple list \<Rightarrow> ('s, unit) dbm" where
  "write_tuples c ts =
     catchE (fc_write c ts []) (\<lambda>e. if \<not> is_tuple_exists_err e then throw e else write_each c ts)"

fun delete_each :: "'s fga_client \<Rightarrow> fga_tuple list \<Rightarrow> ('s, unit) dbm" where
  "delete_each c [] = ret ()"
| "delete_each c (t # ts) =
     thenE (catchE (fc_write c [] [t]) (\<lambda>e. if is_tuple_missing_err e then ret () else throw e)) (delete_each c ts)"

definition delete_tuples :: "'s fga_client \<Rightarrow> fga_tuple list \<Rightarrow> ('s, unit) dbm" where
  "delete_tuples c ts =
     catchE (fc_write c [] ts) (\<lambda>e. if \<not> is_tuple_missing_err e then throw e else delete_each c ts)"

text \<open>The loop over the pages has no bound of its own: it runs on fuel here, and
  \<open>read_pages_returns\<close> gives the fuel that is enough.\<close>

fun read_pages ::
  "nat \<Rightarrow> 's fga_client \<Rightarrow> string \<Rightarrow> string \<Rightarrow> string option \<Rightarrow> fga_tuple list \<Rightarrow> ('s, fga_tuple list) dbm" where
  "read_pages 0 c obj rel token out = throw (ErrMsg ''out of fuel'')"
| "read_pages (Suc n) c obj rel token out = bindE (fc_read c obj rel token) (\<lambda>(ts, nxt).
     if nxt = [] then ret (out @ ts) else read_pages n c obj rel (Some nxt) (out @ ts))"

definition openfga_store :: "nat \<Rightarrow> 's fga_client \<Rightarrow> 's tuple_ops" where
  "openfga_store fuel c = \<lparr>to_read = (\<lambda>obj rel. read_pages fuel c obj rel None []),
     to_write = write_tuples c, to_delete = delete_tuples c\<rparr>"

text \<open>
  What OpenFGA documents. \<open>T\<close> is the set of tuples in the store. A Write request is one
  transaction: it deletes and writes all its tuples or leaves the store as it was, and it is the
  existing or the missing tuple that a single-tuple request names in its error. A Read request
  changes nothing; \<open>rest\<close> is what the pages from a token on still hold.
\<close>

definition fga_write_laws :: "('s \<Rightarrow> fga_tuple set) \<Rightarrow> 's fga_client \<Rightarrow> bool" where
  "fga_write_laws T c \<longleftrightarrow>
     (\<forall>W D s s'. fc_write c W D s = (Inr (), s') \<longrightarrow> T s' = (T s - set D) \<union> set W)
   \<and> (\<forall>W D s e s'. fc_write c W D s = (Inl e, s') \<longrightarrow> T s' = T s)
   \<and> (\<forall>t s e s'. fc_write c [t] [] s = (Inl e, s') \<longrightarrow> is_tuple_exists_err e \<longrightarrow> t \<in> T s)
   \<and> (\<forall>t s e s'. fc_write c [] [t] s = (Inl e, s') \<longrightarrow> is_tuple_missing_err e \<longrightarrow> t \<notin> T s)"

definition matching :: "fga_tuple set \<Rightarrow> string \<Rightarrow> string \<Rightarrow> fga_tuple set" where
  "matching A obj rel = {t \<in> A. tp_object t = obj \<and> tp_relation t = rel}"

definition fga_read_laws ::
  "('s \<Rightarrow> fga_tuple set) \<Rightarrow> ('s \<Rightarrow> string \<Rightarrow> string \<Rightarrow> string option \<Rightarrow> fga_tuple list) \<Rightarrow> 's fga_client \<Rightarrow> bool" where
  "fga_read_laws T rest c \<longleftrightarrow>
     (\<forall>obj rel tok s r s'. fc_read c obj rel tok s = (r, s') \<longrightarrow> T s' = T s \<and> rest s' = rest s)
   \<and> (\<forall>s obj rel. set (rest s obj rel None) = matching (T s) obj rel)
   \<and> (\<forall>obj rel tok s ts s'. fc_read c obj rel tok s = (Inr (ts, []), s') \<longrightarrow> ts = rest s obj rel tok)
   \<and> (\<forall>obj rel tok s ts nxt s'. fc_read c obj rel tok s = (Inr (ts, nxt), s') \<longrightarrow> nxt \<noteq> [] \<longrightarrow>
        ts \<noteq> [] \<and> rest s obj rel tok = ts @ rest s obj rel (Some nxt))"

text \<open>The contract of the interface \<open>Store\<close>.\<close>

definition wrote :: "fga_tuple set \<Rightarrow> fga_tuple list \<Rightarrow> err + unit \<Rightarrow> fga_tuple set \<Rightarrow> bool" where
  "wrote A ts r B \<longleftrightarrow> (case r of Inr _ \<Rightarrow> B = A \<union> set ts | Inl _ \<Rightarrow> A \<subseteq> B \<and> B \<subseteq> A \<union> set ts)"

definition deleted :: "fga_tuple set \<Rightarrow> fga_tuple list \<Rightarrow> err + unit \<Rightarrow> fga_tuple set \<Rightarrow> bool" where
  "deleted A ts r B \<longleftrightarrow> (case r of Inr _ \<Rightarrow> B = A - set ts | Inl _ \<Rightarrow> A - set ts \<subseteq> B \<and> B \<subseteq> A)"

definition store_laws :: "('s \<Rightarrow> fga_tuple set) \<Rightarrow> 's tuple_ops \<Rightarrow> bool" where
  "store_laws T st \<longleftrightarrow>
     (\<forall>ts s r s'. to_write st ts s = (r, s') \<longrightarrow> wrote (T s) ts r (T s'))
   \<and> (\<forall>ts s r s'. to_delete st ts s = (r, s') \<longrightarrow> deleted (T s) ts r (T s'))
   \<and> (\<forall>obj rel s r s'. to_read st obj rel s = (r, s') \<longrightarrow> T s' = T s)
   \<and> (\<forall>obj rel s ts s'. to_read st obj rel s = (Inr ts, s') \<longrightarrow> set ts = matching (T s) obj rel)"

section \<open>Joined errors\<close>

text \<open>A loop that goes on after a failure and returns \<open>errors.Join\<close> of the failures, nil when there is none.\<close>

fun run_all :: "('s, unit) dbm list \<Rightarrow> 's \<Rightarrow> err list \<times> 's" where
  "run_all [] s = ([], s)"
| "run_all (m # ms) s = (case m s of (r, s1) \<Rightarrow> (case run_all ms s1 of (es, s2) \<Rightarrow>
     ((case r of Inl e \<Rightarrow> e # es | Inr _ \<Rightarrow> es), s2)))"

definition join_all :: "('s, unit) dbm list \<Rightarrow> ('s, unit) dbm" where
  "join_all ms = (\<lambda>s. case run_all ms s of (es, s') \<Rightarrow> (if es = [] then Inr () else Inl (ErrJoined es), s'))"

section \<open>The group reconcilers\<close>


definition reconcile_members :: "'s tuple_ops \<Rightarrow> string list \<Rightarrow> string \<Rightarrow> string \<Rightarrow> ('s, unit) dbm" where
  "reconcile_members st ids obj rel =
     (let desired = remdups (map user_object ids)
      in bindE (to_read st obj rel) (\<lambda>existing.
           let actual = remdups (map tp_user existing);
               writes = map (\<lambda>u. mk_tuple u rel obj) (filter (\<lambda>u. u \<notin> set actual) desired);
               deletes = map (\<lambda>u. mk_tuple u rel obj) (filter (\<lambda>u. u \<notin> set desired) actual)
           in thenE (if writes \<noteq> [] then to_write st writes else ret ())
                    (if deletes \<noteq> [] then to_delete st deletes else ret ())))"

definition reconcile_group ::
  "'s tuple_ops \<Rightarrow> (string \<Rightarrow> ('s, string list) dbm) \<Rightarrow> string \<Rightarrow> string \<Rightarrow> string \<Rightarrow> ('s, unit) dbm" where
  "reconcile_group st members path obj rel =
     bindE (members path) (\<lambda>ids. reconcile_members st ids obj rel)"

definition platform_sync :: "'s tuple_ops \<Rightarrow> (string \<Rightarrow> ('s, string list) dbm) \<Rightarrow> string \<Rightarrow> ('s, unit) dbm" where
  "platform_sync st members path = reconcile_group st members path ObjectPlatform RelationOrgCreator"

record team_group =
  tg_team :: string
  tg_org :: string
  tg_role :: string
  tg_permissions :: "string list"
  tg_path :: string

record kc_user =
  us_id :: string
  us_email :: string
  us_display :: string

record 's team_sync =
  ts_store :: "'s tuple_ops"
  ts_users :: "string \<Rightarrow> ('s, kc_user list) dbm"
  ts_teams :: "('s, team_group list) dbm"
  ts_project :: "team_group \<Rightarrow> kc_user list \<Rightarrow> ('s, unit) dbm"

definition reconcile_team_group :: "'s team_sync \<Rightarrow> team_group \<Rightarrow> ('s, unit) dbm" where
  "reconcile_team_group sy g = bindE (ts_users sy (tg_path g)) (\<lambda>us.
     join_all [reconcile_members (ts_store sy) (map us_id us) (team_object (tg_team g)) RelationMember,
               ts_project sy g us])"

definition team_sync_once :: "'s team_sync \<Rightarrow> ('s, unit) dbm" where
  "team_sync_once sy = bindE (ts_teams sy) (\<lambda>groups.
     join_all (map (reconcile_team_group sy) (filter (\<lambda>g. tg_path g \<noteq> []) groups)))"

section \<open>The role reconciler\<close>

definition legacy_org_relations :: "string list" where
  "legacy_org_relations = [''admin'', ''platform_engineer'', ''developer'', ''viewer'']"

definition sweep_relation :: "'s tuple_ops \<Rightarrow> string \<Rightarrow> string \<Rightarrow> ('s, unit) dbm" where
  "sweep_relation st obj rel =
     bindE (catchE (to_read st obj rel) (\<lambda>e. if is_relation_not_found_err e then ret [] else throw e))
       (\<lambda>ts. if ts = [] then ret () else to_delete st ts)"

definition sweep_legacy :: "'s tuple_ops \<Rightarrow> string \<Rightarrow> ('s, unit) dbm" where
  "sweep_legacy st obj = join_all (map (sweep_relation st obj) legacy_org_relations)"

definition converge_relation :: "'s tuple_ops \<Rightarrow> string \<Rightarrow> (string \<Rightarrow> string list) \<Rightarrow> string \<Rightarrow> ('s, unit) dbm" where
  "converge_relation st obj desired rel = bindE (to_read st obj rel) (\<lambda>actual.
     let want = desired rel;
         del = filter (\<lambda>t. tp_user t \<notin> set want) actual;
         add = map (\<lambda>u. mk_tuple u rel obj) (filter (\<lambda>u. u \<notin> set (map tp_user actual)) want)
     in thenE (if del \<noteq> [] then to_delete st del else ret ())
              (if add \<noteq> [] then to_write st add else ret ()))"

definition converge_org :: "'s tuple_ops \<Rightarrow> string \<Rightarrow> (string \<Rightarrow> string list) \<Rightarrow> ('s, unit) dbm" where
  "converge_org st obj desired = join_all (map (\<lambda>p. converge_relation st obj desired
     (case permission_relation (pm_slug p) of None \<Rightarrow> [] | Some rel \<Rightarrow> rel)) permission_catalog)"

definition desired_users :: "team_group list \<Rightarrow> string \<Rightarrow> string \<Rightarrow> string list" where
  "desired_users groups org rel = remdups (map (\<lambda>g. team_member_userset (tg_team g))
     (filter (\<lambda>g. tg_org g = org \<and> list_ex (\<lambda>p. permission_relation p = Some rel) (tg_permissions g)) groups))"

definition desired_orgs :: "team_group list \<Rightarrow> string list" where
  "desired_orgs groups = remdups (map tg_org
     (filter (\<lambda>g. list_ex (\<lambda>p. permission_relation p \<noteq> None) (tg_permissions g)) groups))"

definition role_sync_steps :: "'s tuple_ops \<Rightarrow> team_group list \<Rightarrow> ('s, unit) dbm list" where
  "role_sync_steps st groups = concat (map (\<lambda>org. [sweep_legacy st (org_object org),
     converge_org st (org_object org) (desired_users groups org)]) (desired_orgs groups))"

definition role_sync_once :: "'s tuple_ops \<Rightarrow> ('s, team_group list) dbm \<Rightarrow> ('s, unit) dbm" where
  "role_sync_once st teams = bindE teams (\<lambda>groups.
     join_all (role_sync_steps st groups))"


section \<open>The OpenFGA store keeps the contract\<close>

lemma fga_write_okD: "fga_write_laws T c \<Longrightarrow> fc_write c W D s = (Inr u, s') \<Longrightarrow> T s' = (T s - set D) \<union> set W"
  by (simp add: fga_write_laws_def)

lemma fga_write_errD: "fga_write_laws T c \<Longrightarrow> fc_write c W D s = (Inl e, s') \<Longrightarrow> T s' = T s"
  by (auto simp: fga_write_laws_def)

lemma fga_existsD: "fga_write_laws T c \<Longrightarrow> fc_write c [t] [] s = (Inl e, s') \<Longrightarrow> is_tuple_exists_err e \<Longrightarrow> t \<in> T s"
  by (auto simp: fga_write_laws_def)

lemma fga_missingD: "fga_write_laws T c \<Longrightarrow> fc_write c [] [t] s = (Inl e, s') \<Longrightarrow> is_tuple_missing_err e \<Longrightarrow> t \<notin> T s"
  by (auto simp: fga_write_laws_def)

lemma wrote_Nil [simp]: "wrote A [] r A"
  by (simp add: wrote_def split: sum.splits)

lemma deleted_Nil [simp]: "deleted A [] r A"
  by (simp add: deleted_def split: sum.splits)

lemma wrote_Cons: "wrote (insert t A) ts r B \<Longrightarrow> wrote A (t # ts) r B"
  by (auto simp: wrote_def split: sum.splits)

lemma deleted_Cons: "deleted (A - {t}) ts r B \<Longrightarrow> deleted A (t # ts) r B"
  by (auto simp: deleted_def split: sum.splits)

lemma wrote_refl: "wrote A ts (Inl e) A"
  by (simp add: wrote_def)

lemma deleted_refl: "deleted A ts (Inl e) A"
  by (auto simp: deleted_def)

lemma write_each_effect:
  assumes laws: "fga_write_laws T c" and "write_each c ts s = (r, s')"
  shows "wrote (T s) ts r (T s')"
  using assms(2)
proof (induction ts arbitrary: s)
  case Nil
  then show ?case by (auto simp: ret_def)
next
  case (Cons t ts)
  obtain r1 s1 where w: "fc_write c [t] [] s = (r1, s1)" by fastforce
  consider (ok) u where "r1 = Inr u" | (dup) e where "r1 = Inl e" "is_tuple_exists_err e"
    | (fail) e where "r1 = Inl e" "\<not> is_tuple_exists_err e" by (cases r1) auto
  then show ?case
  proof cases
    case ok
    with w Cons.prems have "write_each c ts s1 = (r, s')" by (simp add: dbm_defs)
    from Cons.IH [OF this] fga_write_okD [OF laws w [unfolded ok]] show ?thesis
      by (intro wrote_Cons) simp
  next
    case dup
    with w Cons.prems have "write_each c ts s1 = (r, s')" by (simp add: dbm_defs)
    from Cons.IH [OF this] fga_existsD [OF laws w [unfolded dup(1)] dup(2)]
      fga_write_errD [OF laws w [unfolded dup(1)]] show ?thesis
      by (intro wrote_Cons) (simp add: insert_absorb)
  next
    case fail
    with w Cons.prems fga_write_errD [OF laws w [unfolded fail(1)]] show ?thesis
      by (auto simp: dbm_defs wrote_refl)
  qed
qed

lemma delete_each_effect:
  assumes laws: "fga_write_laws T c" and "delete_each c ts s = (r, s')"
  shows "deleted (T s) ts r (T s')"
  using assms(2)
proof (induction ts arbitrary: s)
  case Nil
  then show ?case by (auto simp: ret_def)
next
  case (Cons t ts)
  obtain r1 s1 where w: "fc_write c [] [t] s = (r1, s1)" by fastforce
  consider (ok) u where "r1 = Inr u" | (gone) e where "r1 = Inl e" "is_tuple_missing_err e"
    | (fail) e where "r1 = Inl e" "\<not> is_tuple_missing_err e" by (cases r1) auto
  then show ?case
  proof cases
    case ok
    with w Cons.prems have "delete_each c ts s1 = (r, s')" by (simp add: dbm_defs)
    from Cons.IH [OF this] fga_write_okD [OF laws w [unfolded ok]] show ?thesis
      by (intro deleted_Cons) simp
  next
    case gone
    with w Cons.prems have "delete_each c ts s1 = (r, s')" by (simp add: dbm_defs)
    from Cons.IH [OF this] fga_missingD [OF laws w [unfolded gone(1)] gone(2)]
      fga_write_errD [OF laws w [unfolded gone(1)]] show ?thesis
      by (intro deleted_Cons) simp
  next
    case fail
    with w Cons.prems fga_write_errD [OF laws w [unfolded fail(1)]] show ?thesis
      by (auto simp: dbm_defs deleted_refl)
  qed
qed

lemma write_tuples_effect:
  assumes laws: "fga_write_laws T c" and run: "write_tuples c ts s = (r, s')"
  shows "wrote (T s) ts r (T s')"
proof -
  obtain r1 s1 where w: "fc_write c ts [] s = (r1, s1)" by fastforce
  show ?thesis
  proof (cases r1)
    case (Inr u)
    with w run fga_write_okD [OF laws w [unfolded Inr]] show ?thesis
      by (auto simp: write_tuples_def dbm_defs wrote_def)
  next
    case (Inl e)
    note same = fga_write_errD [OF laws w [unfolded Inl]]
    from w Inl run consider "write_each c ts s1 = (r, s')" | "r = Inl e" "s' = s1"
      by (auto simp: write_tuples_def dbm_defs split: if_splits)
    then show ?thesis
      by cases (use write_each_effect [OF laws] same wrote_refl in fastforce)+
  qed
qed

lemma delete_tuples_effect:
  assumes laws: "fga_write_laws T c" and run: "delete_tuples c ts s = (r, s')"
  shows "deleted (T s) ts r (T s')"
proof -
  obtain r1 s1 where w: "fc_write c [] ts s = (r1, s1)" by fastforce
  show ?thesis
  proof (cases r1)
    case (Inr u)
    with w run fga_write_okD [OF laws w [unfolded Inr]] show ?thesis
      by (auto simp: delete_tuples_def dbm_defs deleted_def)
  next
    case (Inl e)
    note same = fga_write_errD [OF laws w [unfolded Inl]]
    from w Inl run consider "delete_each c ts s1 = (r, s')" | "r = Inl e" "s' = s1"
      by (auto simp: delete_tuples_def dbm_defs split: if_splits)
    then show ?thesis
      by cases (use delete_each_effect [OF laws] same deleted_refl in fastforce)+
  qed
qed

lemma fga_read_sameD: "fga_read_laws T rest c \<Longrightarrow> fc_read c obj rel tok s = (r, s') \<Longrightarrow> T s' = T s \<and> rest s' = rest s"
  unfolding fga_read_laws_def by (drule conjunct1, elim allE, erule (1) mp)

lemma fga_read_lastD: "fga_read_laws T rest c \<Longrightarrow> fc_read c obj rel tok s = (Inr (ts, []), s') \<Longrightarrow> ts = rest s obj rel tok"
  by (auto simp: fga_read_laws_def)

lemma fga_read_nextD:
  "fga_read_laws T rest c \<Longrightarrow> fc_read c obj rel tok s = (Inr (ts, nxt), s') \<Longrightarrow> nxt \<noteq> [] \<Longrightarrow>
   ts \<noteq> [] \<and> rest s obj rel tok = ts @ rest s obj rel (Some nxt)"
  unfolding fga_read_laws_def by blast

lemma read_pages_effect:
  assumes laws: "fga_read_laws T rest c" and "read_pages n c obj rel tok out s = (r, s')"
  shows "T s' = T s \<and> (case r of Inl e \<Rightarrow> True | Inr ts \<Rightarrow> ts = out @ rest s obj rel tok)"
  using assms(2)
proof (induction n arbitrary: tok out s)
  case (Suc n)
  obtain r1 s1 where w: "fc_read c obj rel tok s = (r1, s1)" by fastforce
  note same = fga_read_sameD [OF laws w]
  show ?case
  proof (cases r1)
    case (Inl e)
    with w Suc.prems same show ?thesis by (auto simp: dbm_defs)
  next
    case (Inr p)
    obtain ts nxt where p: "p = (ts, nxt)" by fastforce
    show ?thesis
    proof (cases "nxt = []")
      case True
      with w Inr p Suc.prems same fga_read_lastD [OF laws, of obj rel tok s ts s1] show ?thesis
        by (auto simp: dbm_defs)
    next
      case False
      with w Inr p Suc.prems have "read_pages n c obj rel (Some nxt) (out @ ts) s1 = (r, s')"
        by (simp add: dbm_defs)
      from Suc.IH [OF this] same fga_read_nextD [OF laws w [unfolded Inr p] False] show ?thesis
        by (auto split: sum.splits)
    qed
  qed
qed (auto simp: throw_def)

text \<open>Fuel beyond the number of tuples left is enough when no page fails.\<close>

lemma read_pages_returns:
  assumes laws: "fga_read_laws T rest c"
    and total_read: "\<And>tok s. \<exists>p s'. fc_read c obj rel tok s = (Inr p, s')"
    and "length (rest s obj rel tok) < n"
  shows "\<exists>ts s'. read_pages n c obj rel tok out s = (Inr ts, s')"
  using assms(3)
proof (induction n arbitrary: tok out s)
  case (Suc n)
  from total_read obtain ts nxt s1 where w: "fc_read c obj rel tok s = (Inr (ts, nxt), s1)" by fastforce
  show ?case
  proof (cases "nxt = []")
    case True
    with w show ?thesis by (simp add: dbm_defs)
  next
    case False
    from fga_read_nextD [OF laws w False] have "length (rest s obj rel (Some nxt)) < n"
      using Suc.prems by (cases ts) auto
    then have "length (rest s1 obj rel (Some nxt)) < n" using fga_read_sameD [OF laws w] by simp
    from Suc.IH [OF this, of "out @ ts"] w False show ?thesis by (simp add: dbm_defs)
  qed
qed simp

lemma openfga_store_laws:
  assumes "fga_write_laws T c" and laws: "fga_read_laws T rest c"
  shows "store_laws T (openfga_store fuel c)"
proof -
  have "set (rest s obj rel None) = matching (T s) obj rel" for s obj rel
    using laws by (simp add: fga_read_laws_def)
  with read_pages_effect [OF laws] have "set ts = matching (T s) obj rel"
    if "read_pages fuel c obj rel None [] s = (Inr ts, s')" for obj rel s ts s' using that by fastforce
  moreover have "T s' = T s" if "read_pages fuel c obj rel None [] s = (r, s')" for obj rel s r s'
    using read_pages_effect [OF laws that] by simp
  ultimately show ?thesis
    unfolding store_laws_def openfga_store_def
    using write_tuples_effect [OF assms(1)] delete_tuples_effect [OF assms(1)] by simp
qed


section \<open>What the reconcilers establish\<close>

lemma store_writeD: "store_laws T st \<Longrightarrow> to_write st ts s = (r, s') \<Longrightarrow> wrote (T s) ts r (T s')"
  and store_deleteD: "store_laws T st \<Longrightarrow> to_delete st ts s = (r, s') \<Longrightarrow> deleted (T s) ts r (T s')"
  and store_read_same: "store_laws T st \<Longrightarrow> to_read st obj rel s = (r1, s') \<Longrightarrow> T s' = T s"
  and store_readD: "store_laws T st \<Longrightarrow> to_read st obj rel s = (Inr ts, s') \<Longrightarrow> set ts = matching (T s) obj rel"
  unfolding store_laws_def by blast+

lemma wrote_ok [simp]: "wrote A ts (Inr u) B \<longleftrightarrow> B = A \<union> set ts"
  by (simp add: wrote_def)

lemma deleted_ok [simp]: "deleted A ts (Inr u) B \<longleftrightarrow> B = A - set ts"
  by (simp add: deleted_def)

lemma matching_eq: "t \<in> matching A obj rel \<Longrightarrow> t = mk_tuple (tp_user t) rel obj"
  by (auto simp: matching_def)

text \<open>\<open>replaced\<close>: the tuples of one object and relation are replaced by the given users.\<close>

definition replaced :: "fga_tuple set \<Rightarrow> string \<Rightarrow> string \<Rightarrow> string set \<Rightarrow> fga_tuple set" where
  "replaced A obj rel U = (A - matching A obj rel) \<union> (\<lambda>u. mk_tuple u rel obj) ` U"

lemma mk_tuple_image:
  "t \<in> (\<lambda>u. mk_tuple u rel obj) ` V \<longleftrightarrow> tp_object t = obj \<and> tp_relation t = rel \<and> tp_user t \<in> V"
  by (auto simp: image_iff) (metis mk_tuple_collapse)

lemma replaced_iff:
  "t \<in> replaced A obj rel U \<longleftrightarrow> (if tp_object t = obj \<and> tp_relation t = rel then tp_user t \<in> U else t \<in> A)"
  unfolding replaced_def Un_iff mk_tuple_image by (auto simp: matching_def)

lemma matching_users: "t \<in> matching A obj rel \<longleftrightarrow> tp_object t = obj \<and> tp_relation t = rel \<and> tp_user t \<in> tp_user ` matching A obj rel"
proof -
  have "t \<in> matching A obj rel" if "tp_object t = obj" "tp_relation t = rel" "tp_user t = tp_user t'" "t' \<in> matching A obj rel" for t'
  proof -
    from that(4) have "t' = mk_tuple (tp_user t') rel obj" by (rule matching_eq)
    also have "\<dots> = t" using that by (metis mk_tuple_collapse)
    finally show ?thesis using that(4) by simp
  qed
  then show ?thesis by (auto simp: matching_def)
qed

lemma delete_if_ok:
  assumes "store_laws T st" and "(if ts \<noteq> [] then to_delete st ts else ret ()) s = (Inr u, s')"
  shows "T s' = T s - set ts"
  using assms store_deleteD [OF assms(1), of ts s "Inr u" s'] by (auto split: if_splits elim: ret_okE)

lemma write_if_ok:
  assumes "store_laws T st" and "(if ts \<noteq> [] then to_write st ts else ret ()) s = (Inr u, s')"
  shows "T s' = T s \<union> set ts"
  using assms store_writeD [OF assms(1), of ts s "Inr u" s'] by (auto split: if_splits elim: ret_okE)

lemma reconcile_members_ok:
  assumes laws: "store_laws T st" and run: "reconcile_members st ids obj rel s = (Inr u, s')"
  shows "T s' = replaced (T s) obj rel (user_object ` set ids)"
proof -
  let ?U = "user_object ` set ids" and ?mk = "\<lambda>u. mk_tuple u rel obj"
  from run obtain ts s1 where r: "to_read st obj rel s = (Inr ts, s1)"
    and rest: "(let actual = remdups (map tp_user ts);
               writes = map ?mk (filter (\<lambda>u. u \<notin> set actual) (remdups (map user_object ids)));
               deletes = map ?mk (filter (\<lambda>u. u \<notin> set (remdups (map user_object ids))) actual)
           in thenE (if writes \<noteq> [] then to_write st writes else ret ())
                    (if deletes \<noteq> [] then to_delete st deletes else ret ())) s1 = (Inr u, s')"
    unfolding reconcile_members_def Let_def by (rule bindE_okE)
  from rest obtain v s2 where 2: "(if map ?mk (filter (\<lambda>u. u \<notin> set (remdups (map tp_user ts))) (remdups (map user_object ids))) \<noteq> []
        then to_write st (map ?mk (filter (\<lambda>u. u \<notin> set (remdups (map tp_user ts))) (remdups (map user_object ids))))
        else ret ()) s1 = (Inr v, s2)"
    and 3: "(if map ?mk (filter (\<lambda>u. u \<notin> set (remdups (map user_object ids))) (remdups (map tp_user ts))) \<noteq> []
        then to_delete st (map ?mk (filter (\<lambda>u. u \<notin> set (remdups (map user_object ids))) (remdups (map tp_user ts))))
        else ret ()) s2 = (Inr u, s')"
    unfolding Let_def by (rule thenE_okE)
  from write_if_ok [OF laws 2] have w: "T s2 = T s1 \<union> ?mk ` (?U - tp_user ` set ts)"
    by (auto simp only: set_map set_filter set_remdups)
  from delete_if_ok [OF laws 3] have d: "T s' = T s2 - ?mk ` (tp_user ` set ts - ?U)"
    by (auto simp only: set_map set_filter set_remdups)
  show ?thesis
  proof (rule set_eqI)
    fix t
    have "t \<in> T s1 \<longleftrightarrow> t \<in> T s" by (simp only: store_read_same [OF laws r])
    moreover have "t \<in> T s \<longleftrightarrow> tp_user t \<in> tp_user ` set ts" if "tp_object t = obj" "tp_relation t = rel"
      using matching_users [of t "T s" obj rel] that unfolding store_readD [OF laws r] by (simp add: matching_def)
    ultimately show "t \<in> T s' \<longleftrightarrow> t \<in> replaced (T s) obj rel ?U"
      unfolding d w replaced_iff Diff_iff Un_iff mk_tuple_image by (cases "tp_object t = obj \<and> tp_relation t = rel") auto
  qed
qed


lemma converge_relation_ok:
  assumes laws: "store_laws T st" and run: "converge_relation st obj desired rel s = (Inr u, s')"
  shows "T s' = replaced (T s) obj rel (set (desired rel))"
proof -
  let ?mk = "\<lambda>u. mk_tuple u rel obj"
  from run obtain ts s1 where r: "to_read st obj rel s = (Inr ts, s1)"
    and rest: "thenE (if filter (\<lambda>t. tp_user t \<notin> set (desired rel)) ts \<noteq> []
                 then to_delete st (filter (\<lambda>t. tp_user t \<notin> set (desired rel)) ts) else ret ())
         (if map ?mk (filter (\<lambda>u. u \<notin> set (map tp_user ts)) (desired rel)) \<noteq> []
          then to_write st (map ?mk (filter (\<lambda>u. u \<notin> set (map tp_user ts)) (desired rel))) else ret ()) s1 = (Inr u, s')"
    unfolding converge_relation_def Let_def by (rule bindE_okE)
  from rest obtain v s2 where 2: "(if filter (\<lambda>t. tp_user t \<notin> set (desired rel)) ts \<noteq> []
                 then to_delete st (filter (\<lambda>t. tp_user t \<notin> set (desired rel)) ts) else ret ()) s1 = (Inr v, s2)"
    and 3: "(if map ?mk (filter (\<lambda>u. u \<notin> set (map tp_user ts)) (desired rel)) \<noteq> []
          then to_write st (map ?mk (filter (\<lambda>u. u \<notin> set (map tp_user ts)) (desired rel))) else ret ()) s2 = (Inr u, s')"
    by (rule thenE_okE)
  have ts: "set ts = matching (T s) obj rel" by (rule store_readD [OF laws r])
  from delete_if_ok [OF laws 2] have d: "T s2 = T s1 - {t \<in> set ts. tp_user t \<notin> set (desired rel)}"
    by (auto simp only: set_filter)
  from write_if_ok [OF laws 3] have w: "T s' = T s2 \<union> ?mk ` (set (desired rel) - tp_user ` set ts)"
    by (auto simp only: set_map set_filter)
  show ?thesis
  proof (rule set_eqI)
    fix t
    have "t \<in> T s1 \<longleftrightarrow> t \<in> T s" by (simp only: store_read_same [OF laws r])
    moreover have "t \<in> T s \<longleftrightarrow> tp_user t \<in> tp_user ` set ts" if "tp_object t = obj" "tp_relation t = rel"
      using matching_users [of t "T s" obj rel] that unfolding ts by (simp add: matching_def)
    moreover have "t \<in> set ts \<longleftrightarrow> tp_object t = obj \<and> tp_relation t = rel \<and> t \<in> T s"
      unfolding ts by (auto simp: matching_def)
    ultimately show "t \<in> T s' \<longleftrightarrow> t \<in> replaced (T s) obj rel (set (desired rel))"
      unfolding d w replaced_iff Diff_iff Un_iff mk_tuple_image mem_Collect_eq
      by (cases "tp_object t = obj \<and> tp_relation t = rel") auto
  qed
qed

text \<open>\<open>confined\<close>: whatever happens, only tuples with the property \<open>P\<close> change.\<close>

definition confined :: "('s \<Rightarrow> fga_tuple set) \<Rightarrow> (fga_tuple \<Rightarrow> bool) \<Rightarrow> ('s, 'a) dbm \<Rightarrow> bool" where
  "confined T P m \<longleftrightarrow> (\<forall>s r s'. m s = (r, s') \<longrightarrow> (\<forall>t. \<not> P t \<longrightarrow> (t \<in> T s' \<longleftrightarrow> t \<in> T s)))"

lemma confinedI: "(\<And>s r s' t. m s = (r, s') \<Longrightarrow> \<not> P t \<Longrightarrow> t \<in> T s' \<longleftrightarrow> t \<in> T s) \<Longrightarrow> confined T P m"
  by (simp add: confined_def)

lemma confinedD: "confined T P m \<Longrightarrow> m s = (r, s') \<Longrightarrow> \<not> P t \<Longrightarrow> t \<in> T s' \<longleftrightarrow> t \<in> T s"
  by (simp add: confined_def)

lemma confined_ret: "confined T P (ret x)"
  and confined_throw: "confined T P (throw e)"
  by (simp_all add: confined_def ret_def throw_def)

lemma confined_bindE:
  assumes "confined T P m" and "\<And>x s s'. m s = (Inr x, s') \<Longrightarrow> confined T P (f x)"
  shows "confined T P (bindE m f)"
proof (rule confinedI)
  fix s r s' t
  assume run: "bindE m f s = (r, s')" and t: "\<not> P t"
  obtain r1 s1 where 1: "m s = (r1, s1)" by fastforce
  show "t \<in> T s' \<longleftrightarrow> t \<in> T s"
  proof (cases r1)
    case (Inl e)
    with run 1 confinedD [OF assms(1) 1 t] show ?thesis by (simp add: bindE_def)
  next
    case (Inr x)
    with run 1 have 2: "f x s1 = (r, s')" by (simp add: bindE_def)
    have "t \<in> T s' \<longleftrightarrow> t \<in> T s1" by (rule confinedD [OF assms(2) [OF 1 [unfolded Inr]] 2 t])
    with confinedD [OF assms(1) 1 t] show ?thesis by simp
  qed
qed

lemma confined_thenE: "confined T P m \<Longrightarrow> confined T P n \<Longrightarrow> confined T P (thenE m n)"
  unfolding thenE_def by (rule confined_bindE)

lemma confined_read: "store_laws T st \<Longrightarrow> confined T P (to_read st obj rel)"
  by (rule confinedI) (metis store_read_same)

lemma confined_write: "store_laws T st \<Longrightarrow> (\<And>t. t \<in> set ts \<Longrightarrow> P t) \<Longrightarrow> confined T P (to_write st ts)"
  by (rule confinedI, drule store_writeD) (auto simp: wrote_def split: sum.splits)

lemma confined_delete: "store_laws T st \<Longrightarrow> (\<And>t. t \<in> set ts \<Longrightarrow> P t) \<Longrightarrow> confined T P (to_delete st ts)"
  by (rule confinedI, drule store_deleteD) (auto simp: deleted_def split: sum.splits)

lemma confined_if: "(b \<Longrightarrow> confined T P m) \<Longrightarrow> (\<not> b \<Longrightarrow> confined T P n) \<Longrightarrow> confined T P (if b then m else n)"
  by simp

lemma confined_mono: "confined T P m \<Longrightarrow> (\<And>t. P t \<Longrightarrow> Q t) \<Longrightarrow> confined T Q m"
  unfolding confined_def by blast

definition at_relation :: "string \<Rightarrow> string \<Rightarrow> fga_tuple \<Rightarrow> bool" where
  "at_relation obj rel t \<longleftrightarrow> tp_object t = obj \<and> tp_relation t = rel"

lemma at_relation_mk [simp]: "at_relation obj rel (mk_tuple u rel obj)"
  by (simp add: at_relation_def)

lemma at_relation_matching: "t \<in> matching A obj rel \<Longrightarrow> at_relation obj rel t"
  by (simp add: at_relation_def matching_def)

lemma confined_reconcile:
  assumes laws: "store_laws T st"
  shows "confined T (at_relation obj rel) (reconcile_members st ids obj rel)"
  unfolding reconcile_members_def Let_def
  by (intro confined_bindE confined_thenE confined_if confined_ret confined_read confined_write confined_delete laws)
     auto

lemma confined_converge:
  assumes laws: "store_laws T st"
  shows "confined T (at_relation obj rel) (converge_relation st obj desired rel)"
  unfolding converge_relation_def Let_def
  by (intro confined_bindE confined_thenE confined_if confined_ret confined_read confined_write confined_delete laws)
     (auto dest!: store_readD [OF laws] simp: at_relation_matching)

lemma confined_sweep_relation:
  assumes laws: "store_laws T st"
  shows "confined T (at_relation obj rel) (sweep_relation st obj rel)"
proof (rule confinedI)
  fix s r s' t
  assume run: "sweep_relation st obj rel s = (r, s')" and t: "\<not> at_relation obj rel t"
  obtain r1 s1 where 1: "to_read st obj rel s = (r1, s1)" by fastforce
  have same: "T s1 = T s" by (rule store_read_same [OF laws 1])
  show "t \<in> T s' \<longleftrightarrow> t \<in> T s"
  proof (cases r1)
    case (Inl e)
    with run 1 same show ?thesis
      by (auto simp: sweep_relation_def dbm_defs split: if_splits)
  next
    case (Inr ts)
    have all: "at_relation obj rel x" if "x \<in> set ts" for x
      using that store_readD [OF laws 1 [unfolded Inr]] by (simp add: at_relation_matching)
    from run 1 Inr have "(if ts = [] then ret () else to_delete st ts) s1 = (r, s')"
      by (simp add: sweep_relation_def dbm_defs)
    moreover have "confined T (at_relation obj rel) (if ts = [] then ret () else to_delete st ts)"
      by (intro confined_if confined_ret confined_delete laws all)
    ultimately show ?thesis using t same unfolding confined_def by metis
  qed
qed


section \<open>Joined loops\<close>

lemma join_all_Nil: "join_all [] s = (Inr (), s)"
  by (simp add: join_all_def)

lemma join_all_ConsE:
  assumes "join_all (m # ms) s = (Inr u, s')"
  obtains v s1 where "m s = (Inr v, s1)" "join_all ms s1 = (Inr (), s')"
  using assms by (auto simp: join_all_def split: prod.splits sum.splits if_splits)

lemma confined_run_all:
  assumes "\<forall>m \<in> set ms. confined T P m" and "run_all ms s = (es, s')" and "\<not> P t"
  shows "t \<in> T s' \<longleftrightarrow> t \<in> T s"
  using assms(1,2)
proof (induction ms arbitrary: s es)
  case (Cons m ms)
  obtain r s1 where 1: "m s = (r, s1)" by fastforce
  obtain es1 s2 where 2: "run_all ms s1 = (es1, s2)" by fastforce
  from Cons.prems(2) 1 2 have s': "s' = s2" by simp
  have "t \<in> T s2 \<longleftrightarrow> t \<in> T s1" using Cons.IH [of s1 es1] Cons.prems(1) 2 s' by simp
  moreover have "t \<in> T s1 \<longleftrightarrow> t \<in> T s"
    by (rule confinedD [where P = P and m = m and r = r]) (use Cons.prems(1) 1 assms(3) in simp_all)
  ultimately show ?case using s' by simp
qed simp

lemma confined_join_all: "(\<And>m. m \<in> set ms \<Longrightarrow> confined T P m) \<Longrightarrow> confined T P (join_all ms)"
proof (rule confinedI)
  fix s r s' t
  assume all: "\<And>m. m \<in> set ms \<Longrightarrow> confined T P m" and run: "join_all ms s = (r, s')" and t: "\<not> P t"
  obtain es s2 where 1: "run_all ms s = (es, s2)" by fastforce
  with run have "s' = s2" by (simp add: join_all_def)
  with confined_run_all [where P = P and ms = ms, OF _ 1 t] all show "t \<in> T s' \<longleftrightarrow> t \<in> T s" by blast
qed

text \<open>What one iteration makes true and every other iteration keeps holds after the loop.\<close>

definition keeps :: "('s \<Rightarrow> bool) \<Rightarrow> ('s, unit) dbm \<Rightarrow> bool" where
  "keeps Q m \<longleftrightarrow> (\<forall>s s'. Q s \<longrightarrow> m s = (Inr (), s') \<longrightarrow> Q s')"

definition makes :: "('s \<Rightarrow> bool) \<Rightarrow> ('s, unit) dbm \<Rightarrow> bool" where
  "makes Q m \<longleftrightarrow> (\<forall>s s'. m s = (Inr (), s') \<longrightarrow> Q s')"

lemma keepsI: "(\<And>s s'. Q s \<Longrightarrow> m s = (Inr (), s') \<Longrightarrow> Q s') \<Longrightarrow> keeps Q m"
  by (simp add: keeps_def)

lemma keepsD: "keeps Q m \<Longrightarrow> Q s \<Longrightarrow> m s = (Inr (), s') \<Longrightarrow> Q s'"
  unfolding keeps_def by blast

lemma makes_keeps: "makes Q m \<Longrightarrow> keeps Q m"
  by (simp add: keeps_def makes_def)

lemma join_all_keeps:
  assumes "\<forall>m \<in> set ms. keeps Q m"
  shows "keeps Q (join_all ms)"
  using assms
proof (induction ms)
  case Nil
  then show ?case by (auto simp: keeps_def join_all_Nil)
next
  case (Cons m ms)
  then have m: "keeps Q m" and ms: "keeps Q (join_all ms)" by simp_all
  show ?case
  proof (rule keepsI)
    fix s s' assume q: "Q s" and run: "join_all (m # ms) s = (Inr (), s')"
    from run obtain v s1 where 1: "m s = (Inr v, s1)" and 2: "join_all ms s1 = (Inr (), s')"
      by (rule join_all_ConsE)
    have "Q s1" using keepsD [OF m q] 1 by simp
    then show "Q s'" by (rule keepsD [OF ms _ 2])
  qed
qed

lemma join_all_makes:
  assumes "it \<in> set ms" and "makes Q it" and "\<forall>m \<in> set ms. keeps Q m"
  shows "makes Q (join_all ms)"
  using assms(1,3)
proof (induction ms)
  case (Cons m ms)
  from Cons.prems have ms: "keeps Q (join_all ms)" by (simp add: join_all_keeps)
  show ?case unfolding makes_def
  proof (intro allI impI)
    fix s s' assume run: "join_all (m # ms) s = (Inr (), s')"
    from run obtain v s1 where 1: "m s = (Inr v, s1)" and 2: "join_all ms s1 = (Inr (), s')"
      by (rule join_all_ConsE)
    show "Q s'"
    proof (cases "m = it")
      case True
      with 1 assms(2) have "Q s1" by (simp add: makes_def)
      then show ?thesis by (rule keepsD [OF ms _ 2])
    next
      case False
      with Cons have "makes Q (join_all ms)" by simp
      with 2 show ?thesis by (simp add: makes_def)
    qed
  qed
qed simp

section \<open>The role reconciler converges\<close>

definition at_object :: "string \<Rightarrow> fga_tuple \<Rightarrow> bool" where
  "at_object obj t \<longleftrightarrow> tp_object t = obj"

lemma at_relation_object: "at_relation obj rel t \<Longrightarrow> at_object obj t"
  by (simp add: at_relation_def at_object_def)

lemma confined_sweep_legacy:
  assumes "store_laws T st"
  shows "confined T (\<lambda>t. tp_object t = obj \<and> tp_relation t \<in> set legacy_org_relations) (sweep_legacy st obj)"
  unfolding sweep_legacy_def
  by (rule confined_join_all)
     (auto simp: at_relation_def intro: confined_mono [OF confined_sweep_relation [OF assms]])

lemma confined_converge_org:
  assumes "store_laws T st"
  shows "confined T (at_object obj) (converge_org st obj desired)"
  unfolding converge_org_def
  by (rule confined_join_all)
     (auto intro: confined_mono [OF confined_converge [OF assms] at_relation_object])

lemma converge_org_relations:
  "converge_org st obj desired = join_all (map (converge_relation st obj desired) catalog_relations)"
proof -
  have "(case permission_relation (pm_slug p) of None \<Rightarrow> [] | Some rel \<Rightarrow> rel) =
      replace_char (CHR ''.'') (CHR ''_'') (pm_slug p)" if "p \<in> set permission_catalog" for p
    using that by (auto simp: permission_relation_def valid_permission_iff)
  then have "map (\<lambda>p. converge_relation st obj desired
      (case permission_relation (pm_slug p) of None \<Rightarrow> [] | Some rel \<Rightarrow> rel)) permission_catalog =
    map (\<lambda>p. converge_relation st obj desired (replace_char (CHR ''.'') (CHR ''_'') (pm_slug p))) permission_catalog"
    by (intro map_cong refl) simp
  then show ?thesis unfolding converge_org_def catalog_relations_def map_map comp_def by (rule arg_cong)
qed

text \<open>The tuples of one object and relation are exactly those of the given users.\<close>

definition holds_exactly :: "('s \<Rightarrow> fga_tuple set) \<Rightarrow> string \<Rightarrow> string \<Rightarrow> string set \<Rightarrow> 's \<Rightarrow> bool" where
  "holds_exactly T obj rel U s \<longleftrightarrow> matching (T s) obj rel = (\<lambda>u. mk_tuple u rel obj) ` U"

lemma keeps_confined:
  assumes "confined T P m" and "\<And>t. P t \<Longrightarrow> \<not> at_relation obj rel t"
  shows "keeps (holds_exactly T obj rel U) m"
proof (rule keepsI)
  fix s s' assume q: "holds_exactly T obj rel U s" and r: "m s = (Inr (), s')"
  have "t \<in> matching (T s') obj rel \<longleftrightarrow> t \<in> matching (T s) obj rel" for t
    using confinedD [OF assms(1) r, of t] assms(2) [of t] by (auto simp: matching_def at_relation_def)
  with q show "holds_exactly T obj rel U s'" unfolding holds_exactly_def by blast
qed

lemma replaced_exactly: "T s' = replaced A obj rel U \<Longrightarrow> holds_exactly T obj rel U s'"
proof -
  assume eq: "T s' = replaced A obj rel U"
  have "t \<in> matching (T s') obj rel \<longleftrightarrow> t \<in> (\<lambda>u. mk_tuple u rel obj) ` U" for t
    unfolding mk_tuple_image matching_def eq mem_Collect_eq replaced_iff
    by (cases "tp_object t = obj \<and> tp_relation t = rel") auto
  then show ?thesis unfolding holds_exactly_def by blast
qed

lemma makes_reconcile:
  assumes "store_laws T st"
  shows "makes (holds_exactly T obj rel (user_object ` set ids)) (reconcile_members st ids obj rel)"
  unfolding makes_def by (intro allI impI) (rule replaced_exactly [where T = T], erule reconcile_members_ok [OF assms])

lemma makes_converge_org:
  assumes laws: "store_laws T st" and rel: "rel \<in> set catalog_relations"
  shows "makes (holds_exactly T obj rel (set (desired rel))) (converge_org st obj desired)"
  unfolding converge_org_relations
proof (rule join_all_makes [where it = "converge_relation st obj desired rel"])
  show "converge_relation st obj desired rel \<in> set (map (converge_relation st obj desired) catalog_relations)"
    using rel by simp
  show est: "makes (holds_exactly T obj rel (set (desired rel))) (converge_relation st obj desired rel)"
    unfolding makes_def by (intro allI impI) (rule replaced_exactly [where T = T], erule converge_relation_ok [OF laws])
  show "\<forall>m \<in> set (map (converge_relation st obj desired) catalog_relations).
      keeps (holds_exactly T obj rel (set (desired rel))) m"
  proof
    fix m assume "m \<in> set (map (converge_relation st obj desired) catalog_relations)"
    then obtain rel' where m: "m = converge_relation st obj desired rel'" by auto
    show "keeps (holds_exactly T obj rel (set (desired rel))) m"
    proof (cases "rel' = rel")
      case True
      with est m show ?thesis by (simp add: makes_keeps)
    next
      case False
      then show ?thesis unfolding m
        by (intro keeps_confined [OF confined_converge [OF laws]]) (simp add: at_relation_def)
    qed
  qed
qed

lemma legacy_not_catalog: "rel \<in> set catalog_relations \<Longrightarrow> rel \<notin> set legacy_org_relations"
proof -
  have "list_all (\<lambda>r. \<not> List.member legacy_org_relations r) catalog_relations" by code_simp
  then show "rel \<in> set catalog_relations \<Longrightarrow> rel \<notin> set legacy_org_relations"
    unfolding list_all_iff by (metis (full_types) List.member_iff)
qed

lemma role_sync_ok:
  assumes laws: "store_laws T st" and ids: "\<forall>g \<in> set groups. has_prefix (tg_org g) ''org:''"
    and org: "org \<in> set (desired_orgs groups)" and rel: "rel \<in> set catalog_relations"
  shows "makes (holds_exactly T (org_object org) rel (set (desired_users groups org rel)))
           (join_all (role_sync_steps st groups))"
proof (rule join_all_makes [where it = "converge_org st (org_object org) (desired_users groups org)"])
  let ?Q = "holds_exactly T (org_object org) rel (set (desired_users groups org rel))"
  have pre: "has_prefix o1 ''org:''" if "o1 \<in> set (desired_orgs groups)" for o1
    using that ids by (auto simp: desired_orgs_def)
  show "converge_org st (org_object org) (desired_users groups org) \<in> set (role_sync_steps st groups)"
    using org by (auto simp: role_sync_steps_def)
  show est: "makes ?Q (converge_org st (org_object org) (desired_users groups org))"
    by (rule makes_converge_org [OF laws rel])
  show "\<forall>m \<in> set (role_sync_steps st groups). keeps ?Q m"
  proof
    fix m assume "m \<in> set (role_sync_steps st groups)"
    then obtain o1 where o1: "o1 \<in> set (desired_orgs groups)"
      and m: "m = sweep_legacy st (org_object o1) \<or> m = converge_org st (org_object o1) (desired_users groups o1)"
      by (auto simp: role_sync_steps_def)
    from m show "keeps ?Q m"
    proof
      assume "m = sweep_legacy st (org_object o1)"
      then show ?thesis using legacy_not_catalog [OF rel]
        by (simp only:) (rule keeps_confined [OF confined_sweep_legacy [OF laws]], auto simp: at_relation_def)
    next
      assume e: "m = converge_org st (org_object o1) (desired_users groups o1)"
      show ?thesis
      proof (cases "o1 = org")
        case True
        with e est show ?thesis by (simp add: makes_keeps)
      next
        case False
        then have "org_object o1 \<noteq> org_object org" using org_object_inj pre o1 org by blast
        then show ?thesis unfolding e
          by (intro keeps_confined [OF confined_converge_org [OF laws]]) (simp add: at_relation_def at_object_def)
      qed
    qed
  qed
qed


text \<open>What the pass does not reach: the objects of the organizations without a single valid
  permission among their teams.\<close>

lemma role_sync_confined:
  assumes "store_laws T st"
  shows "confined T (\<lambda>t. tp_object t \<in> org_object ` set (desired_orgs groups)) (join_all (role_sync_steps st groups))"
proof (rule confined_join_all)
  fix m assume "m \<in> set (role_sync_steps st groups)"
  then obtain o1 where o1: "o1 \<in> set (desired_orgs groups)"
    and m: "m = sweep_legacy st (org_object o1) \<or> m = converge_org st (org_object o1) (desired_users groups o1)"
    by (auto simp: role_sync_steps_def)
  from m show "confined T (\<lambda>t. tp_object t \<in> org_object ` set (desired_orgs groups)) m"
  proof
    assume "m = sweep_legacy st (org_object o1)"
    then show ?thesis using o1
      by (simp only:) (rule confined_mono [OF confined_sweep_legacy [OF assms]], auto)
  next
    assume "m = converge_org st (org_object o1) (desired_users groups o1)"
    then show ?thesis using o1
      by (simp only:) (rule confined_mono [OF confined_converge_org [OF assms]], auto simp: at_object_def)
  qed
qed

text \<open>
  (C20) Role convergence. When a pass of the role reconciler succeeds, then for every organization
  with a team that has a valid permission, and for every relation of the catalog, the tuples of
  the organization's object are exactly those of the teams whose role bundle has the permission:
  what was missing is written and what was stray is deleted, whatever the store held before.
\<close>

theorem role_sync_exact:
  assumes "store_laws T st" and "teams s = (Inr groups, s1)" and "role_sync_once st teams s = (Inr (), s')"
    and "\<forall>g \<in> set groups. has_prefix (tg_org g) ''org:''"
    and "g0 \<in> set groups" "p0 \<in> set (tg_permissions g0)" "valid_permission p0"
    and "permission_relation p = Some rel"
  shows "matching (T s') (org_object (tg_org g0)) rel =
    (\<lambda>g. mk_tuple (team_member_userset (tg_team g)) rel (org_object (tg_org g0))) `
      {g \<in> set groups. tg_org g = tg_org g0 \<and> p \<in> set (tg_permissions g)}"
proof -
  have run: "join_all (role_sync_steps st groups) s1 = (Inr (), s')"
    using assms(2,3) by (simp add: role_sync_once_def bindE_def)
  have org: "tg_org g0 \<in> set (desired_orgs groups)"
    using assms(5-7) by (auto simp: desired_orgs_def list_ex_iff permission_relation_def image_iff)
  have "rel \<in> set catalog_relations" using assms(8) by (auto simp: catalog_relations_iff)
  from role_sync_ok [OF assms(1,4) org this] run
  have "matching (T s') (org_object (tg_org g0)) rel =
      (\<lambda>u. mk_tuple u rel (org_object (tg_org g0))) ` set (desired_users groups (tg_org g0) rel)"
    by (simp add: makes_def holds_exactly_def)
  moreover have "permission_relation q = Some rel \<longleftrightarrow> q = p" for q
    using assms(8) permission_relation_inj by blast
  then have "set (desired_users groups (tg_org g0) rel) =
      (\<lambda>g. team_member_userset (tg_team g)) ` {g \<in> set groups. tg_org g = tg_org g0 \<and> p \<in> set (tg_permissions g)}"
    by (auto simp: desired_users_def list_ex_iff)
  ultimately show ?thesis by (simp add: image_image)
qed

section \<open>The team reconciler\<close>

lemma confined_False: "(\<And>s r s'. m s = (r, s') \<Longrightarrow> T s' = T s) \<Longrightarrow> confined T P m"
  by (rule confinedI) simp

lemma confined_project:
  assumes "\<forall>g us s r s'. ts_project sy g us s = (r, s') \<longrightarrow> T s' = T s"
  shows "confined T P (ts_project sy g us)"
  by (rule confined_False) (use assms in blast)

lemma confined_users:
  assumes "\<forall>path s r s'. ts_users sy path s = (r, s') \<longrightarrow> T s' = T s \<and> (\<forall>us. r = Inr us \<longrightarrow> us = U path)"
  shows "confined T P (ts_users sy path)"
  by (rule confined_False) (use assms in blast)

lemma reconcile_team_group_makes:
  assumes laws: "store_laws T (ts_store sy)"
    and users: "\<forall>path s r s'. ts_users sy path s = (r, s') \<longrightarrow> T s' = T s \<and> (\<forall>us. r = Inr us \<longrightarrow> us = U path)"
    and proj: "\<forall>g us s r s'. ts_project sy g us s = (r, s') \<longrightarrow> T s' = T s"
  shows "makes (holds_exactly T (team_object (tg_team g)) RelationMember (user_object ` us_id ` set (U (tg_path g))))
           (reconcile_team_group sy g)"
  unfolding makes_def
proof (intro allI impI)
  let ?Q = "holds_exactly T (team_object (tg_team g)) RelationMember (user_object ` us_id ` set (U (tg_path g)))"
  fix s s' assume "reconcile_team_group sy g s = (Inr (), s')"
  then obtain us s1 where u: "ts_users sy (tg_path g) s = (Inr us, s1)"
    and j: "join_all [reconcile_members (ts_store sy) (map us_id us) (team_object (tg_team g)) RelationMember,
               ts_project sy g us] s1 = (Inr (), s')"
    unfolding reconcile_team_group_def by (rule bindE_okE)
  from users u have us: "us = U (tg_path g)" by blast
  have "makes ?Q (join_all [reconcile_members (ts_store sy) (map us_id us) (team_object (tg_team g)) RelationMember,
               ts_project sy g us])"
  proof (rule join_all_makes)
    show m: "makes ?Q (reconcile_members (ts_store sy) (map us_id us) (team_object (tg_team g)) RelationMember)"
      using makes_reconcile [OF laws, of "team_object (tg_team g)" RelationMember "map us_id us"] by (simp add: us)
    have "keeps ?Q (ts_project sy g us)"
      by (rule keeps_confined [OF confined_project [OF proj, where P = "\<lambda>_. False"]]) simp
    with m show "\<forall>m \<in> set [reconcile_members (ts_store sy) (map us_id us) (team_object (tg_team g)) RelationMember,
               ts_project sy g us]. keeps ?Q m" by (simp add: makes_keeps)
  qed simp
  with j show "?Q s'" by (simp add: makes_def)
qed

lemma confined_team_group:
  assumes laws: "store_laws T (ts_store sy)"
    and users: "\<forall>path s r s'. ts_users sy path s = (r, s') \<longrightarrow> T s' = T s \<and> (\<forall>us. r = Inr us \<longrightarrow> us = U path)"
    and proj: "\<forall>g us s r s'. ts_project sy g us s = (r, s') \<longrightarrow> T s' = T s"
  shows "confined T (at_relation (team_object (tg_team g)) RelationMember) (reconcile_team_group sy g)"
  unfolding reconcile_team_group_def
  by (intro confined_bindE confined_users [OF users] confined_join_all)
     (auto intro: confined_reconcile [OF laws] confined_project [OF proj])


text \<open>
  Team convergence. When a pass over the team groups succeeds, the member tuples of every
  team with a group path are exactly those of the users the identity provider lists in its group,
  independently of the database projection. The projection and the listing write no tuples, and
  the teams are distinct.
\<close>

theorem team_sync_exact:
  assumes laws: "store_laws T (ts_store sy)"
    and users: "\<forall>path s r s'. ts_users sy path s = (r, s') \<longrightarrow> T s' = T s \<and> (\<forall>us. r = Inr us \<longrightarrow> us = U path)"
    and proj: "\<forall>g us s r s'. ts_project sy g us s = (r, s') \<longrightarrow> T s' = T s"
    and teams: "ts_teams sy s = (Inr groups, s1)" and dist: "distinct (map tg_team groups)"
    and run: "team_sync_once sy s = (Inr (), s')"
    and g: "g \<in> set groups" "tg_path g \<noteq> []"
  shows "matching (T s') (team_object (tg_team g)) RelationMember =
    (\<lambda>u. mk_tuple (user_object (us_id u)) RelationMember (team_object (tg_team g))) ` set (U (tg_path g))"
proof -
  let ?Q = "holds_exactly T (team_object (tg_team g)) RelationMember (user_object ` us_id ` set (U (tg_path g)))"
  let ?gs = "filter (\<lambda>g. tg_path g \<noteq> []) groups"
  have "makes ?Q (join_all (map (reconcile_team_group sy) ?gs))"
  proof (rule join_all_makes [where it = "reconcile_team_group sy g"])
    show "reconcile_team_group sy g \<in> set (map (reconcile_team_group sy) ?gs)" using g by simp
    show est: "makes ?Q (reconcile_team_group sy g)" by (rule reconcile_team_group_makes [OF laws users proj])
    show "\<forall>m \<in> set (map (reconcile_team_group sy) ?gs). keeps ?Q m"
    proof
      fix m assume "m \<in> set (map (reconcile_team_group sy) ?gs)"
      then obtain h where h: "h \<in> set groups" "m = reconcile_team_group sy h" by auto
      show "keeps ?Q m"
      proof (cases "h = g")
        case True
        with est h show ?thesis by (simp add: makes_keeps)
      next
        case False
        with dist h(1) g(1) have "tg_team h \<noteq> tg_team g" by (metis distinct_key_unique)
        then show ?thesis unfolding h(2)
          by (intro keeps_confined [OF confined_team_group [OF laws users proj]])
             (auto simp: at_relation_def team_object_def)
      qed
    qed
  qed
  moreover have "join_all (map (reconcile_team_group sy) ?gs) s1 = (Inr (), s')"
    using run teams by (simp add: team_sync_once_def bindE_def)
  ultimately show ?thesis by (simp add: makes_def holds_exactly_def image_image)
qed


section \<open>The passes return when the store does\<close>

definition succeeds :: "('s, 'a) dbm \<Rightarrow> bool" where
  "succeeds m \<longleftrightarrow> (\<forall>s. \<exists>x s'. m s = (Inr x, s'))"

lemma succeedsD: "succeeds m \<Longrightarrow> \<exists>x s'. m s = (Inr x, s')"
  by (simp add: succeeds_def)

lemma succeeds_ret: "succeeds (ret x)"
  by (simp add: succeeds_def ret_def)

lemma succeeds_bindE: "succeeds m \<Longrightarrow> (\<And>x. succeeds (f x)) \<Longrightarrow> succeeds (bindE m f)"
  unfolding succeeds_def bindE_def by (metis (no_types, lifting) case_prod_conv old.sum.simps(6))

lemma succeeds_thenE: "succeeds m \<Longrightarrow> succeeds n \<Longrightarrow> succeeds (thenE m n)"
  unfolding thenE_def by (rule succeeds_bindE)

lemma succeeds_catchE: "succeeds m \<Longrightarrow> succeeds (catchE m h)"
  unfolding succeeds_def catchE_def by (metis (no_types, lifting) case_prod_conv old.sum.simps(6))

lemma succeeds_if: "succeeds m \<Longrightarrow> succeeds n \<Longrightarrow> succeeds (if b then m else n)"
  by simp

lemma succeeds_join_all: "\<forall>m \<in> set ms. succeeds m \<Longrightarrow> succeeds (join_all ms)"
proof (induction ms)
  case Nil
  then show ?case by (simp add: succeeds_def join_all_Nil)
next
  case (Cons m ms)
  show ?case unfolding succeeds_def
  proof
    fix s
    from Cons.prems have "succeeds m" by simp
    then obtain x s1 where 1: "m s = (Inr x, s1)" unfolding succeeds_def by blast
    from Cons have "succeeds (join_all ms)" by simp
    then obtain y s2 where "join_all ms s1 = (Inr y, s2)" unfolding succeeds_def by blast
    then have "run_all ms s1 = ([], s2)" by (simp add: join_all_def split: prod.splits if_splits)
    with 1 show "\<exists>x s'. join_all (m # ms) s = (Inr x, s')" by (simp add: join_all_def)
  qed
qed

definition live_store :: "'s tuple_ops \<Rightarrow> bool" where
  "live_store st \<longleftrightarrow> (\<forall>obj rel. succeeds (to_read st obj rel)) \<and> (\<forall>ts. succeeds (to_write st ts))
     \<and> (\<forall>ts. succeeds (to_delete st ts))"

lemma live_storeD:
  assumes "live_store st"
  shows "succeeds (to_read st obj rel)" and "succeeds (to_write st ts)" and "succeeds (to_delete st ts)"
  using assms by (simp_all add: live_store_def)

lemmas succeeds_rules = succeeds_bindE succeeds_thenE succeeds_catchE succeeds_if succeeds_ret live_storeD

lemma role_sync_returns:
  assumes "live_store st" and "succeeds teams"
  shows "succeeds (role_sync_once st teams)"
proof -
  have c: "succeeds (converge_org st obj desired)" for obj desired
    unfolding converge_org_relations converge_relation_def Let_def
    by (intro succeeds_join_all ballI) (auto intro!: succeeds_rules assms(1))
  have "succeeds (sweep_legacy st obj)" for obj
    unfolding sweep_legacy_def sweep_relation_def
    by (intro succeeds_join_all ballI) (auto intro!: succeeds_rules assms(1))
  with c show ?thesis unfolding role_sync_once_def
    by (intro succeeds_bindE succeeds_join_all assms(2)) (auto simp: role_sync_steps_def)
qed

lemma reconcile_members_returns: "live_store st \<Longrightarrow> succeeds (reconcile_members st ids obj rel)"
  unfolding reconcile_members_def Let_def by (intro succeeds_rules)

section \<open>A concrete server\<close>

text \<open>A server that keeps the documented behaviour, with one page per Read request.\<close>

definition demo_client :: "fga_tuple list fga_client" where
  "demo_client = \<lparr>
     fc_write = (\<lambda>W D ts. if list_ex (List.member ts) W then (Inl (ErrExternal ''tuple already exists''), ts)
        else if \<not> list_all (List.member ts) D then (Inl (ErrExternal ''tuple does not exist''), ts)
        else (Inr (), filter (\<lambda>t. \<not> List.member D t) ts @ W)),
     fc_read = (\<lambda>obj rel tok ts. (Inr (case tok of None \<Rightarrow> filter (at_relation obj rel) ts | Some _ \<Rightarrow> [], []), ts))\<rparr>"

lemma demo_errors [simp]:
  "is_tuple_exists_err (ErrExternal ''tuple already exists'')" "\<not> is_tuple_exists_err (ErrExternal ''tuple does not exist'')"
  "is_tuple_missing_err (ErrExternal ''tuple does not exist'')" "\<not> is_tuple_missing_err (ErrExternal ''tuple already exists'')"
  by code_simp+

lemma demo_client_writes: "fga_write_laws set demo_client"
  unfolding fga_write_laws_def demo_client_def
  by (auto simp: list_ex_iff list_all_iff split: if_splits)

lemma demo_client_reads:
  "fga_read_laws set (\<lambda>ts obj rel tok. case tok of None \<Rightarrow> filter (at_relation obj rel) ts | Some _ \<Rightarrow> []) demo_client"
  unfolding fga_read_laws_def demo_client_def matching_def at_relation_def by auto

abbreviation demo_store :: "fga_tuple list tuple_ops" where
  "demo_store \<equiv> openfga_store 1 demo_client"

lemma demo_store_laws: "store_laws set demo_store"
  by (rule openfga_store_laws [OF demo_client_writes demo_client_reads])

definition demo_groups :: "team_group list" where
  "demo_groups =
     [\<lparr>tg_team = ''t1'', tg_org = ''org:a'', tg_role = ''r1'', tg_permissions = [PermTenantRead, ''retired''], tg_path = ''p1''\<rparr>,
      \<lparr>tg_team = ''t2'', tg_org = ''org:a'', tg_role = ''r2'', tg_permissions = [PermTenantRead, PermTenantAdmin], tg_path = []\<rparr>]"

definition demo_tuples :: "fga_tuple list" where
  "demo_tuples = [mk_tuple (team_member_userset ''t9'') RelationTenantRead ''organization:a'',
     mk_tuple (team_member_userset ''t1'') RelationTenantRead ''organization:a'',
     mk_tuple ''user:gone'' RelationMember ''team:t1'']"

lemma demo_write_each: "succeeds (write_each demo_client ts)"
proof (induction ts)
  case (Cons t ts)
  have "succeeds (catchE (fc_write demo_client [t] []) (\<lambda>e. if is_tuple_exists_err e then ret () else throw e))"
    by (auto simp: succeeds_def demo_client_def catchE_def ret_def)
  with Cons show ?case by (simp add: succeeds_thenE)
qed (simp add: succeeds_ret)

lemma demo_delete_each: "succeeds (delete_each demo_client ts)"
proof (induction ts)
  case (Cons t ts)
  have "succeeds (catchE (fc_write demo_client [] [t]) (\<lambda>e. if is_tuple_missing_err e then ret () else throw e))"
    by (auto simp: succeeds_def demo_client_def catchE_def ret_def)
  with Cons show ?case by (simp add: succeeds_thenE)
qed (simp add: succeeds_ret)

lemma demo_store_live: "live_store demo_store"
proof -
  have "succeeds (write_tuples demo_client ts)" for ts
    using demo_write_each [of ts] by (auto simp: succeeds_def write_tuples_def catchE_def demo_client_def)
  moreover have "succeeds (delete_tuples demo_client ts)" for ts
    using demo_delete_each [of ts] by (auto simp: succeeds_def delete_tuples_def catchE_def demo_client_def)
  moreover have "succeeds (read_pages 1 demo_client obj rel None [])" for obj rel
    by (auto simp: succeeds_def demo_client_def dbm_defs)
  ultimately show ?thesis by (simp add: live_store_def openfga_store_def)
qed

lemma demo_role_sync: "fst (role_sync_once demo_store (ret demo_groups) s) = Inr ()"
  using role_sync_returns [OF demo_store_live succeeds_ret, of demo_groups] unfolding succeeds_def
  by (metis fst_conv old.unit.exhaust)

theorem role_sync_exact_witness:
  "matching (set (snd (role_sync_once demo_store (ret demo_groups) demo_tuples))) ''organization:a'' RelationTenantRead =
   {mk_tuple ''team:t1#member'' RelationTenantRead ''organization:a'', mk_tuple ''team:t2#member'' RelationTenantRead ''organization:a''}"
proof -
  obtain s' where run: "role_sync_once demo_store (ret demo_groups) demo_tuples = (Inr (), s')"
    using demo_role_sync by (metis prod.collapse)
  have org: "org_object ''org:a'' = ''organization:a''" by code_simp
  have valid: "valid_permission PermTenantRead" by code_simp
  have read: "PermTenantRead \<noteq> ''retired''" by code_simp
  have "matching (set s') (org_object (tg_org (demo_groups ! 0))) RelationTenantRead =
      (\<lambda>g. mk_tuple (team_member_userset (tg_team g)) RelationTenantRead (org_object (tg_org (demo_groups ! 0)))) `
        {g \<in> set demo_groups. tg_org g = tg_org (demo_groups ! 0) \<and> PermTenantRead \<in> set (tg_permissions g)}"
    by (rule role_sync_exact [OF demo_store_laws _ run _ _ _ valid relation_constants(1)])
       (auto simp: ret_def demo_groups_def has_prefix_def)
  moreover have "{g \<in> set demo_groups. tg_org g = tg_org (demo_groups ! 0) \<and> PermTenantRead \<in> set (tg_permissions g)} = set demo_groups"
    by (auto simp: demo_groups_def)
  ultimately show ?thesis using run
    by (simp add: demo_groups_def org team_member_userset_def team_object_def)
qed

definition demo_team_sync :: "fga_tuple list team_sync" where
  "demo_team_sync = \<lparr>ts_store = demo_store,
     ts_users = (\<lambda>path. ret (if path = ''p1'' then [\<lparr>us_id = ''alice'', us_email = [], us_display = []\<rparr>] else [])),
     ts_teams = ret demo_groups, ts_project = (\<lambda>g us. ret ())\<rparr>"

lemma demo_team_run: "fst (team_sync_once demo_team_sync demo_tuples) = Inr ()"
  by code_simp

theorem team_sync_exact_witness:
  "matching (set (snd (team_sync_once demo_team_sync demo_tuples))) ''team:t1'' RelationMember =
   {mk_tuple ''user:alice'' RelationMember ''team:t1''}"
proof -
  obtain s' where run: "team_sync_once demo_team_sync demo_tuples = (Inr (), s')"
    using demo_team_run by (metis prod.collapse)
  let ?U = "\<lambda>path. if path = ''p1'' then [\<lparr>us_id = ''alice'', us_email = [], us_display = []\<rparr>] else []"
  have laws: "store_laws set (ts_store demo_team_sync)" using demo_store_laws by (simp add: demo_team_sync_def)
  have users: "\<forall>path s r s'. ts_users demo_team_sync path s = (r, s') \<longrightarrow>
      set s' = set s \<and> (\<forall>us. r = Inr us \<longrightarrow> us = ?U path)"
    by (simp add: demo_team_sync_def ret_def)
  have proj: "\<forall>g us s r s'. ts_project demo_team_sync g us s = (r, s') \<longrightarrow> set s' = set s"
    by (simp add: demo_team_sync_def ret_def)
  have teams: "ts_teams demo_team_sync demo_tuples = (Inr demo_groups, demo_tuples)"
    by (simp add: demo_team_sync_def ret_def)
  have "matching (set s') (team_object (tg_team (demo_groups ! 0))) RelationMember =
    (\<lambda>u. mk_tuple (user_object (us_id u)) RelationMember (team_object (tg_team (demo_groups ! 0)))) `
       set (?U (tg_path (demo_groups ! 0)))"
    by (rule team_sync_exact [OF laws users proj teams _ run]) (simp_all add: demo_groups_def)
  then show ?thesis using run by (simp add: demo_groups_def team_object_def user_object_def)
qed

end
