(* ===== verification/TupleWriter.thy ===== *)
theory TupleWriter
  imports TupleSync
begin

text \<open>
  The outbox consumer that keeps the OpenFGA tuples (internal/authz/tuplewriter.go and
  tenantdeletion.go). An event's payload is decoded field by field; the fields the handler does
  not read are not decoded.
\<close>

section \<open>The tuples of an event\<close>

definition permission_tuples :: "string \<Rightarrow> string \<Rightarrow> string list \<Rightarrow> fga_tuple list" where
  "permission_tuples org team ps = concat (map (\<lambda>p. case permission_relation p of
      None \<Rightarrow> []
    | Some rel \<Rightarrow> [mk_tuple (team_member_userset team) rel (org_object org)]) ps)"

definition parent_tuple :: "string \<Rightarrow> string \<Rightarrow> fga_tuple" where
  "parent_tuple org obj = mk_tuple (org_object org) RelationParent obj"

definition member_tuple :: "string \<Rightarrow> string \<Rightarrow> fga_tuple" where
  "member_tuple user team = mk_tuple (user_object user) RelationMember (team_object team)"

record team_seed =
  sd_team :: string
  sd_name :: string
  sd_permissions :: "string list"

record membership_payload =
  mp_org :: string
  mp_team :: string
  mp_user :: string
  mp_role :: string

record tenant_deleting =
  td_org :: string
  td_teams :: "team_seed list"
  td_members :: "membership_payload list"
  td_objects :: "(string \<times> string list) list"

definition tenant_deletion_object :: "string \<Rightarrow> string \<Rightarrow> err + string" where
  "tenant_deletion_object typ i =
     (if typ = ''cluster'' then Inr (cluster_object i)
      else if typ = ''cloud_account'' then Inr (cloud_account_object i)
      else if typ = ''cluster_set'' then Inr (cluster_set_object i)
      else if typ = ''policy_pack'' then Inr (policy_pack_object i)
      else if typ = ''extension'' then Inr (extension_object i)
      else if typ = ''rollout'' then Inr (rollout_object i)
      else if typ = ''drift_event'' then Inr (drift_event_object i)
      else if typ = ''tenant_zone'' then Inr (tenant_zone_object i)
      else Inl (ErrMsg ''unknown tenant-deletion object type''))"

fun object_tuples :: "string \<Rightarrow> (string \<times> string) list \<Rightarrow> err + fga_tuple list" where
  "object_tuples org [] = Inr []"
| "object_tuples org ((typ, i) # rest) = (case tenant_deletion_object typ i of
      Inl e \<Rightarrow> Inl e
    | Inr obj \<Rightarrow> (case object_tuples org rest of
        Inl e \<Rightarrow> Inl e
      | Inr ts \<Rightarrow> Inr (parent_tuple org obj # ts)))"

definition tuples_for_tenant_deletion :: "tenant_deleting \<Rightarrow> err + fga_tuple list" where
  "tuples_for_tenant_deletion p =
     (case object_tuples (td_org p) (concat (map (\<lambda>(typ, ids). map (Pair typ) ids) (td_objects p))) of
        Inl e \<Rightarrow> Inl e
      | Inr ts \<Rightarrow> Inr (concat (map (\<lambda>t. permission_tuples (td_org p) (sd_team t) (sd_permissions t)) (td_teams p))
            @ map (\<lambda>m. member_tuple (mp_user m) (mp_team m)) (td_members p) @ ts))"

section \<open>Decoding\<close>

fun jas_map :: "(json \<Rightarrow> err + 'a) \<Rightarrow> json \<Rightarrow> err + (string \<times> 'a) list" where
  "jas_map f JNull = Inr []"
| "jas_map f (JObj kvs) = jmap (\<lambda>j. case j of
      JArr [JStr k, v] \<Rightarrow> (case f v of Inl e \<Rightarrow> Inl e | Inr x \<Rightarrow> Inr (k, x)) | _ \<Rightarrow> Inl ErrJSON)
      (map (\<lambda>(k, v). JArr [JStr k, v]) kvs)"
| "jas_map f _ = Inl ErrJSON"

definition jstrings :: "string \<Rightarrow> json \<Rightarrow> err + string list" where
  "jstrings = jfield (jlist jas_string)"

definition team_seed_of :: "json \<Rightarrow> err + team_seed" where
  "team_seed_of j = (case jstring ''teamId'' j of Inl e \<Rightarrow> Inl e | Inr t \<Rightarrow>
     (case jstring ''name'' j of Inl e \<Rightarrow> Inl e | Inr n \<Rightarrow>
     (case jstrings ''permissions'' j of Inl e \<Rightarrow> Inl e | Inr ps \<Rightarrow>
        Inr \<lparr>sd_team = t, sd_name = n, sd_permissions = ps\<rparr>)))"

definition membership_of :: "json \<Rightarrow> err + membership_payload" where
  "membership_of j = (case jstring ''orgId'' j of Inl e \<Rightarrow> Inl e | Inr org \<Rightarrow>
     (case jstring ''teamId'' j of Inl e \<Rightarrow> Inl e | Inr t \<Rightarrow>
     (case jstring ''userId'' j of Inl e \<Rightarrow> Inl e | Inr u \<Rightarrow>
     (case jstring ''roleId'' j of Inl e \<Rightarrow> Inl e | Inr r \<Rightarrow>
        Inr \<lparr>mp_org = org, mp_team = t, mp_user = u, mp_role = r\<rparr>))))"

definition tenant_deleting_of :: "json \<Rightarrow> err + tenant_deleting" where
  "tenant_deleting_of j = (case jstring ''orgId'' j of Inl e \<Rightarrow> Inl e | Inr org \<Rightarrow>
     (case jfield (jlist team_seed_of) ''teams'' j of Inl e \<Rightarrow> Inl e | Inr teams \<Rightarrow>
     (case jfield (jlist membership_of) ''members'' j of Inl e \<Rightarrow> Inl e | Inr members \<Rightarrow>
     (case jfield (jas_map (jlist jas_string)) ''objects'' j of Inl e \<Rightarrow> Inl e | Inr objects \<Rightarrow>
        Inr \<lparr>td_org = org, td_teams = teams, td_members = members, td_objects = objects\<rparr>))))"

text \<open>A team's change of role in \<open>rbac.mappings.updated\<close>.\<close>

definition role_change_of :: "json \<Rightarrow> err + string \<times> string list \<times> string list" where
  "role_change_of j = (case jstring ''teamId'' j of Inl e \<Rightarrow> Inl e | Inr t \<Rightarrow>
     (case jstrings ''oldPermissions'' j of Inl e \<Rightarrow> Inl e | Inr old \<Rightarrow>
     (case jstrings ''newPermissions'' j of Inl e \<Rightarrow> Inl e | Inr new \<Rightarrow> Inr (t, old, new))))"

section \<open>The handler\<close>

definition tuple_writer_events :: "string list" where
  "tuple_writer_events = [''tenant.created'', ''tenant.deleting'', ''tenant.restored'', ''team.created'',
     ''team.deleted'', ''membership.added'', ''membership.removed'', ''cluster.created'', ''cluster.revoked'',
     ''catalog.item_upserted'', ''deploy.requested'', ''instance.created'', ''cloud_account.registered'',
     ''cloud_account.deregistered'', ''cluster_set.created'', ''cluster_set.deleted'', ''policy_pack.assigned'',
     ''policy_pack.unassigned'', ''policy_pack.deleted'', ''tenant_zone.active'', ''tenant_zone.closed'',
     ''extension.registered'', ''extension.unregistered'', ''rollout.created'', ''drift.detected'',
     ''rbac.mappings.updated'', ''role.created'', ''role.updated'', ''role.deleted'']"

definition write_org_role_tuples :: "'s tuple_ops \<Rightarrow> string \<Rightarrow> team_seed list \<Rightarrow> bool \<Rightarrow> ('s, unit) dbm" where
  "write_org_role_tuples st org teams del =
     (let ts = concat (map (\<lambda>t. permission_tuples org (sd_team t) (sd_permissions t)) teams)
      in if ts = [] then ret () else if del then to_delete st ts else to_write st ts)"

text \<open>The shape of most branches: the parent tuple of an object of an organization. Some branches
  skip an empty organization.\<close>

definition with_parent ::
  "(fga_tuple list \<Rightarrow> ('s, unit) dbm) \<Rightarrow> bool \<Rightarrow> string \<Rightarrow> string \<Rightarrow> (string \<Rightarrow> string) \<Rightarrow> json \<Rightarrow> ('s, unit) dbm" where
  "with_parent apply_tuples skip_empty okey ikey obj p =
     bindE (lift_sum (jstring okey p)) (\<lambda>org. bindE (lift_sum (jstring ikey p)) (\<lambda>i.
       if skip_empty \<and> org = [] then ret () else apply_tuples [parent_tuple org (obj i)]))"

definition with_member :: "(fga_tuple list \<Rightarrow> ('s, unit) dbm) \<Rightarrow> json \<Rightarrow> ('s, unit) dbm" where
  "with_member apply_tuples p = bindE (lift_sum (membership_of p)) (\<lambda>m.
     apply_tuples [member_tuple (mp_user m) (mp_team m)])"

definition with_team :: "(fga_tuple list \<Rightarrow> ('s, unit) dbm) \<Rightarrow> json \<Rightarrow> ('s, unit) dbm" where
  "with_team apply_tuples p = bindE (lift_sum (jstring ''orgId'' p)) (\<lambda>org.
     bindE (lift_sum (jstring ''teamId'' p)) (\<lambda>team.
     bindE (lift_sum (jstrings ''permissions'' p)) (\<lambda>ps. apply_tuples (permission_tuples org team ps))))"

definition with_deletion :: "(fga_tuple list \<Rightarrow> ('s, unit) dbm) \<Rightarrow> json \<Rightarrow> ('s, unit) dbm" where
  "with_deletion apply_tuples p = bindE (lift_sum (tenant_deleting_of p)) (\<lambda>d.
     bindE (lift_sum (tuples_for_tenant_deletion d)) (\<lambda>ts. if ts = [] then ret () else apply_tuples ts))"

text \<open>Deletes, then writes: the rewriting of the tuples of changed teams.\<close>

definition rewrite :: "'s tuple_ops \<Rightarrow> fga_tuple list \<Rightarrow> fga_tuple list \<Rightarrow> ('s, unit) dbm" where
  "rewrite st del add = thenE (if del \<noteq> [] then to_delete st del else ret ())
     (if add \<noteq> [] then to_write st add else ret ())"

definition mappings_updated :: "'s tuple_ops \<Rightarrow> json \<Rightarrow> ('s, unit) dbm" where
  "mappings_updated st p = bindE (lift_sum (jstring ''orgId'' p)) (\<lambda>org.
     bindE (lift_sum (jfield (jlist role_change_of) ''changes'' p)) (\<lambda>changes.
       rewrite st (concat (map (\<lambda>(t, old, new). permission_tuples org t old) changes))
                  (concat (map (\<lambda>(t, old, new). permission_tuples org t new) changes))))"

definition role_updated :: "'s tuple_ops \<Rightarrow> json \<Rightarrow> ('s, unit) dbm" where
  "role_updated st p = bindE (lift_sum (jstring ''orgId'' p)) (\<lambda>org.
     bindE (lift_sum (jstrings ''oldPermissions'' p)) (\<lambda>old.
     bindE (lift_sum (jstrings ''newPermissions'' p)) (\<lambda>new.
     bindE (lift_sum (jstrings ''teamIds'' p)) (\<lambda>teams.
       rewrite st (concat (map (\<lambda>t. permission_tuples org t old) teams))
                  (concat (map (\<lambda>t. permission_tuples org t new) teams))))))"

definition role_deleted :: "'s tuple_ops \<Rightarrow> json \<Rightarrow> ('s, unit) dbm" where
  "role_deleted st p = bindE (lift_sum (jstring ''orgId'' p)) (\<lambda>org.
     bindE (lift_sum (jstrings ''oldPermissions'' p)) (\<lambda>old.
     bindE (lift_sum (jstrings ''teamIds'' p)) (\<lambda>teams.
       let del = concat (map (\<lambda>t. permission_tuples org t old) teams)
       in if del \<noteq> [] then to_delete st del else ret ())))"

definition deploy_requested :: "'s tuple_ops \<Rightarrow> json \<Rightarrow> ('s, unit) dbm" where
  "deploy_requested st p = bindE (lift_sum (jstring ''clusterId'' p)) (\<lambda>c.
     bindE (lift_sum (jstring ''instanceId'' p)) (\<lambda>i.
       to_write st [mk_tuple (cluster_object c) RelationParent (resource_instance_object i)]))"

definition tuple_writer_handle :: "'s tuple_ops \<Rightarrow> outbox_event \<Rightarrow> ('s, unit) dbm" where
  "tuple_writer_handle st ev =
     (let p = ob_payload ev; t = ob_type ev
      in if t = ''tenant.created'' then bindE (lift_sum (jstring ''orgId'' p)) (\<lambda>org.
             bindE (lift_sum (jfield (jlist team_seed_of) ''teams'' p)) (\<lambda>teams. write_org_role_tuples st org teams False))
         else if t = ''tenant.deleting'' then with_deletion (to_delete st) p
         else if t = ''tenant.restored'' then with_deletion (to_write st) p
         else if t = ''team.created'' then with_team (to_write st) p
         else if t = ''team.deleted'' then with_team (to_delete st) p
         else if t = ''membership.added'' then with_member (to_write st) p
         else if t = ''membership.removed'' then with_member (to_delete st) p
         else if t = ''cluster.created'' then with_parent (to_write st) False ''orgId'' ''clusterId'' cluster_object p
         else if t = ''cluster.revoked'' then with_parent (to_delete st) False ''orgId'' ''clusterId'' cluster_object p
         else if t = ''catalog.item_upserted'' then with_parent (to_write st) True ''orgId'' ''itemId'' catalog_item_object p
         else if t = ''deploy.requested'' \<or> t = ''instance.created'' then deploy_requested st p
         else if t = ''cloud_account.registered'' then with_parent (to_write st) False ''orgId'' ''accountId'' cloud_account_object p
         else if t = ''tenant_zone.active'' then with_parent (to_write st) True ''zoneOrgId'' ''zoneId'' tenant_zone_object p
         else if t = ''tenant_zone.closed'' then with_parent (to_delete st) True ''zoneOrgId'' ''zoneId'' tenant_zone_object p
         else if t = ''cloud_account.deregistered'' then with_parent (to_delete st) False ''orgId'' ''accountId'' cloud_account_object p
         else if t = ''cluster_set.created'' then with_parent (to_write st) False ''orgId'' ''clusterSetId'' cluster_set_object p
         else if t = ''cluster_set.deleted'' then with_parent (to_delete st) False ''orgId'' ''clusterSetId'' cluster_set_object p
         else if t = ''policy_pack.assigned'' then with_parent (to_write st) False ''orgId'' ''packId'' policy_pack_object p
         else if t = ''policy_pack.unassigned'' \<or> t = ''policy_pack.deleted''
           then with_parent (to_delete st) False ''orgId'' ''packId'' policy_pack_object p
         else if t = ''extension.registered'' then with_parent (to_write st) True ''orgId'' ''extensionId'' extension_object p
         else if t = ''extension.unregistered'' then with_parent (to_delete st) True ''orgId'' ''extensionId'' extension_object p
         else if t = ''rollout.created'' then with_parent (to_write st) False ''orgId'' ''rolloutId'' rollout_object p
         else if t = ''drift.detected'' then with_parent (to_write st) False ''orgId'' ''driftId'' drift_event_object p
         else if t = ''rbac.mappings.updated'' then mappings_updated st p
         else if t = ''role.created'' then ret ()
         else if t = ''role.updated'' then role_updated st p
         else if t = ''role.deleted'' then role_deleted st p
         else ret ())"

definition tuple_writer :: "'s tuple_ops \<Rightarrow> 's named_handler" where
  "tuple_writer st = \<lparr>h_name = ''authz-tuple-writer'', h_types = tuple_writer_events, h_handle = tuple_writer_handle st\<rparr>"

section \<open>The effect of an event\<close>

text \<open>\<open>fixed_delta\<close>: a successful run deletes one set of tuples and then writes another, whatever
  the state.\<close>

definition delta :: "('s \<Rightarrow> fga_tuple set) \<Rightarrow> fga_tuple set \<Rightarrow> fga_tuple set \<Rightarrow> ('s, unit) dbm \<Rightarrow> bool" where
  "delta T D A m \<longleftrightarrow> (\<forall>s s'. m s = (Inr (), s') \<longrightarrow> T s' = (T s - D) \<union> A)"

definition fixed_delta :: "('s \<Rightarrow> fga_tuple set) \<Rightarrow> ('s, unit) dbm \<Rightarrow> bool" where
  "fixed_delta T m \<longleftrightarrow> (\<exists>D A. delta T D A m)"

named_theorems delta_rules "rules that decompose fixed_delta goals"

lemma delta_ret: "delta T {} {} (ret ())"
  by (simp add: delta_def ret_def)

lemma delta_write: "store_laws T st \<Longrightarrow> delta T {} (set ts) (to_write st ts)"
  unfolding delta_def by (auto dest: store_writeD)

lemma delta_delete: "store_laws T st \<Longrightarrow> delta T (set ts) {} (to_delete st ts)"
  unfolding delta_def by (auto dest: store_deleteD)

lemma delta_rewrite:
  assumes laws: "store_laws T st"
  shows "delta T (set del) (set add) (rewrite st del add)"
  unfolding delta_def rewrite_def
proof (intro allI impI)
  fix s s' assume "thenE (if del \<noteq> [] then to_delete st del else ret ())
     (if add \<noteq> [] then to_write st add else ret ()) s = (Inr (), s')"
  then obtain x s1 where 1: "(if del \<noteq> [] then to_delete st del else ret ()) s = (Inr x, s1)"
    and 2: "(if add \<noteq> [] then to_write st add else ret ()) s1 = (Inr (), s')" by (rule thenE_okE)
  from delete_if_ok [OF laws 1] write_if_ok [OF laws 2] show "T s' = (T s - set del) \<union> set add" by simp
qed

lemma delta_lift_sum:
  assumes "\<And>x. r = Inr x \<Longrightarrow> delta T D A (f x)"
  shows "delta T D A (bindE (lift_sum r) f)"
  using assms by (cases r) (simp_all add: delta_def dbm_defs)

lemma delta_fixed [delta_rules]: "delta T D A m \<Longrightarrow> fixed_delta T m"
  unfolding fixed_delta_def by blast

lemma fixed_ret [delta_rules]: "fixed_delta T (ret ())"
  by (rule delta_fixed [OF delta_ret])

lemma fixed_lift_sum [delta_rules]: "(\<And>x. fixed_delta T (f x)) \<Longrightarrow> fixed_delta T (bindE (lift_sum r) f)"
proof (cases r)
  case (Inl e)
  then have "delta T {} {} (bindE (lift_sum r) f)" by (simp add: delta_def dbm_defs)
  then show ?thesis by (rule delta_fixed)
next
  case (Inr x)
  assume "\<And>x. fixed_delta T (f x)"
  moreover from Inr have "bindE (lift_sum r) f = f x" by (rule_tac ext) (simp add: dbm_defs)
  ultimately show ?thesis by simp
qed

lemma fixed_if [delta_rules]: "fixed_delta T m \<Longrightarrow> fixed_delta T n \<Longrightarrow> fixed_delta T (if b then m else n)"
  by simp

lemma fixed_write: "store_laws T st \<Longrightarrow> fixed_delta T (to_write st ts)"
  by (rule delta_fixed [OF delta_write])

lemma fixed_delete: "store_laws T st \<Longrightarrow> fixed_delta T (to_delete st ts)"
  by (rule delta_fixed [OF delta_delete])

lemma fixed_rewrite: "store_laws T st \<Longrightarrow> fixed_delta T (rewrite st del add)"
  by (rule delta_fixed [OF delta_rewrite])

text \<open>Applying a fixed change twice is applying it once.\<close>

lemma fixed_delta_again:
  "fixed_delta T m \<Longrightarrow> m s = (Inr (), s1) \<Longrightarrow> m s1 = (Inr (), s2) \<Longrightarrow> T s2 = T s1"
  unfolding fixed_delta_def delta_def by blast

lemma tuple_writer_fixed:
  assumes laws: "store_laws T st"
  shows "fixed_delta T (tuple_writer_handle st ev)"
proof -
  note store = fixed_write [OF laws] fixed_delete [OF laws] fixed_rewrite [OF laws]
  have p: "fixed_delta T (with_parent f b k i ob p)" if "\<And>ts. fixed_delta T (f ts)" for f b k i ob p
    unfolding with_parent_def by (intro fixed_lift_sum fixed_if fixed_ret that)
  have m: "fixed_delta T (with_member f p)" if "\<And>ts. fixed_delta T (f ts)" for f p
    unfolding with_member_def by (intro fixed_lift_sum that)
  have t: "fixed_delta T (with_team f p)" if "\<And>ts. fixed_delta T (f ts)" for f p
    unfolding with_team_def by (intro fixed_lift_sum that)
  have d: "fixed_delta T (with_deletion f p)" if "\<And>ts. fixed_delta T (f ts)" for f p
    unfolding with_deletion_def by (intro fixed_lift_sum fixed_if fixed_ret that)
  have r: "fixed_delta T (mappings_updated st p)" "fixed_delta T (role_updated st p)" for p
    unfolding mappings_updated_def role_updated_def by (intro fixed_lift_sum store)+
  have x: "fixed_delta T (role_deleted st p)" "fixed_delta T (deploy_requested st p)" for p
    unfolding role_deleted_def deploy_requested_def Let_def by (intro fixed_lift_sum fixed_if fixed_ret store)+
  have w: "fixed_delta T (write_org_role_tuples st org teams d)" for org teams d
    unfolding write_org_role_tuples_def Let_def by (intro fixed_if fixed_ret store)
  show ?thesis
    unfolding tuple_writer_handle_def Let_def by (intro fixed_if fixed_lift_sum fixed_ret p m t d r x w store)
qed

end
