(* ===== verification/Tenancy.thy ===== *)
theory Tenancy
  imports TupleWriter
begin

text \<open>
  Tenants, teams, roles and memberships (internal/tenancy: tenancy.go, roles.go, members.go,
  member_projection.go, seed.go, and the team-to-role mappings of identity.go).

  Keycloak is not under src/: its admin calls are the fields of \<open>idp\<close>, operations on the
  whole state so that a model of Keycloak can be part of it. The primary keys, the unique
  constraints and the foreign keys of the migrations 0001 and 0029 are part of the statements.
  The cache of organizations (a read-through cache that fails open) is not modelled:
  \<open>invalidateOrgCache\<close> does nothing here.
\<close>

section \<open>Rows\<close>

record organization =
  og_id :: string
  og_slug :: string
  og_display :: string
  og_kc :: string
  og_status :: string
  og_created :: int

record org_role =
  rl_id :: string
  rl_org :: string
  rl_name :: string
  rl_display :: string
  rl_description :: string
  rl_builtin :: bool
  rl_permissions :: "string list"
  rl_created :: int
  rl_updated :: int

text \<open>The role name of a team is a joined column: a row of the table does not hold it.\<close>

record team =
  tm_id :: string
  tm_org :: string
  tm_name :: string
  tm_display :: string
  tm_role :: string
  tm_role_name :: string
  tm_path :: string
  tm_created :: int

record membership =
  mb_user :: string
  mb_org :: string
  mb_team :: "string option"
  mb_role :: string

record tenancy_db = approvals_db +
  organizations :: "organization list"
  org_roles :: "org_role list"
  teams :: "team list"
  memberships :: "membership list"
  tenant_users :: "kc_user list"

definition OrgStatusActive :: string where "OrgStatusActive = ''active''"
definition OrgStatusDeleting :: string where "OrgStatusDeleting = ''deleting''"
definition OrgStatusDeleted :: string where "OrgStatusDeleted = ''deleted''"

definition PlatformTeamName :: string where "PlatformTeamName = ''platform-team''"
definition OrgAdminsTeamName :: string where "OrgAdminsTeamName = ''org-admins''"
definition DevelopersTeamName :: string where "DevelopersTeamName = ''developers''"
definition ViewersTeamName :: string where "ViewersTeamName = ''viewers''"
definition membersTeamName :: string where "membersTeamName = ''members''"

definition default_teams :: "(string \<times> string) list" where
  "default_teams = [(OrgAdminsTeamName, BuiltinRoleAdmin), (PlatformTeamName, BuiltinRoleOperator),
     (DevelopersTeamName, BuiltinRoleEditor), (ViewersTeamName, BuiltinRoleViewer)]"

definition builtin_anchor_team :: "(string \<times> string) list" where
  "builtin_anchor_team = [(BuiltinRoleAdmin, OrgAdminsTeamName), (BuiltinRoleOperator, PlatformTeamName),
     (BuiltinRoleEditor, DevelopersTeamName), (BuiltinRoleViewer, ViewersTeamName)]"

definition anchor_team_for_role :: "org_role \<Rightarrow> string" where
  "anchor_team_for_role r = (if rl_builtin r then (case map_of builtin_anchor_team (rl_name r) of
      Some name \<Rightarrow> name | None \<Rightarrow> rl_name r) else rl_name r)"

definition group_path :: "string \<Rightarrow> string \<Rightarrow> string" where
  "group_path slug tm = ''tenant-'' @ slug @ ''/'' @ tm"

section \<open>The store: organizations\<close>

definition create_organization :: "organization \<Rightarrow> ('a tenancy_db_scheme, organization) dbm" where
  "create_organization org = sql (\<lambda>s.
     let row = org\<lparr>og_status := OrgStatusActive, og_created := clock s\<rparr>
     in if list_ex (\<lambda>r. og_id r = og_id org \<or> og_slug r = og_slug org \<or> og_kc r = og_kc org) (organizations s)
        then (Inl SlugTaken, s)
        else (Inr row, s\<lparr>organizations := organizations s @ [row]\<rparr>))"

definition get_organization_by_slug :: "string \<Rightarrow> ('a tenancy_db_scheme, organization) dbm" where
  "get_organization_by_slug slug = sql (\<lambda>s. case select_row (\<lambda>r. og_slug r = slug) (organizations s) of
      None \<Rightarrow> (Inl OrgNotFound, s) | Some r \<Rightarrow> (Inr r, s))"

definition get_organization_by_id :: "string \<Rightarrow> ('a tenancy_db_scheme, organization) dbm" where
  "get_organization_by_id i = sql (\<lambda>s. case select_row (\<lambda>r. og_id r = i) (organizations s) of
      None \<Rightarrow> (Inl OrgNotFound, s) | Some r \<Rightarrow> (Inr r, s))"

definition set_org_status :: "string \<Rightarrow> string \<Rightarrow> ('a tenancy_db_scheme, unit) dbm" where
  "set_org_status i status = sql (modify (\<lambda>s. s\<lparr>organizations :=
     update_rows (\<lambda>r. og_id r = i) (\<lambda>r. r\<lparr>og_status := status\<rparr>) (organizations s)\<rparr>))"

text \<open>The cascades of the tables modelled here; the others cascade outside the model.\<close>

definition delete_organization :: "string \<Rightarrow> ('a tenancy_db_scheme, unit) dbm" where
  "delete_organization i = sql (modify (\<lambda>s. s\<lparr>organizations := filter (\<lambda>r. og_id r \<noteq> i) (organizations s),
     org_roles := filter (\<lambda>r. rl_org r \<noteq> i) (org_roles s), teams := filter (\<lambda>t. tm_org t \<noteq> i) (teams s),
     memberships := filter (\<lambda>m. mb_org m \<noteq> i) (memberships s)\<rparr>))"

definition list_organizations :: "('a tenancy_db_scheme, organization list) dbm" where
  "list_organizations = sql (asks (\<lambda>s. sort_key og_created (organizations s)))"

definition update_organization_display_name :: "string \<Rightarrow> string \<Rightarrow> ('a tenancy_db_scheme, unit) dbm" where
  "update_organization_display_name i name = sql (modify (\<lambda>s. s\<lparr>organizations :=
     update_rows (\<lambda>r. og_id r = i) (\<lambda>r. r\<lparr>og_display := name\<rparr>) (organizations s)\<rparr>))"

section \<open>The store: roles\<close>

definition insert_role :: "org_role \<Rightarrow> ('a tenancy_db_scheme, org_role) dbm" where
  "insert_role r = bindE new_uuid (\<lambda>i s.
     let row = r\<lparr>rl_id := i, rl_created := clock s, rl_updated := clock s\<rparr>
     in if \<not> list_ex (\<lambda>g. og_id g = rl_org r) (organizations s) then (Inl fk_violation, s)
        else if list_ex (\<lambda>x. rl_id x = i \<or> (rl_org x = rl_org r \<and> rl_name x = rl_name r)) (org_roles s)
        then (Inl RoleNameTaken, s)
        else (Inr row, s\<lparr>org_roles := org_roles s @ [row]\<rparr>))"

definition create_role_row :: "org_role \<Rightarrow> ('a tenancy_db_scheme, org_role) dbm" where
  "create_role_row r = sql (insert_role (r\<lparr>rl_builtin := False\<rparr>))"

text \<open>\<open>ON CONFLICT (org_id, name) DO NOTHING\<close>: a name that exists is skipped.\<close>

fun seed_roles :: "string \<Rightarrow> builtin_role list \<Rightarrow> ('a tenancy_db_scheme, unit) dbm" where
  "seed_roles org [] = ret ()"
| "seed_roles org (b # bs) = thenE
     (sql (\<lambda>s. if list_ex (\<lambda>x. rl_org x = org \<and> rl_name x = br_name b) (org_roles s) then (Inr (), s)
          else thenE (insert_role \<lparr>rl_id = [], rl_org = org, rl_name = br_name b, rl_display = br_display b,
             rl_description = br_description b, rl_builtin = True, rl_permissions = br_permissions b,
             rl_created = 0, rl_updated = 0\<rparr>) (ret ()) s))
     (seed_roles org bs)"

definition seed_builtin_roles :: "string \<Rightarrow> ('a tenancy_db_scheme, unit) dbm" where
  "seed_builtin_roles org = seed_roles org builtin_roles"

definition list_roles_row :: "string \<Rightarrow> ('a tenancy_db_scheme, org_role list) dbm" where
  "list_roles_row org = sql (asks (\<lambda>s. sort_names rl_name (filter (\<lambda>r. rl_org r = org) (org_roles s))))"

definition get_role_by_name :: "string \<Rightarrow> string \<Rightarrow> ('a tenancy_db_scheme, org_role) dbm" where
  "get_role_by_name org name = sql (\<lambda>s. case select_row (\<lambda>r. rl_org r = org \<and> rl_name r = name) (org_roles s) of
      None \<Rightarrow> (Inl RoleNotFound, s) | Some r \<Rightarrow> (Inr r, s))"

definition get_role_by_id :: "string \<Rightarrow> string \<Rightarrow> ('a tenancy_db_scheme, org_role) dbm" where
  "get_role_by_id org i = sql (\<lambda>s. case select_row (\<lambda>r. rl_org r = org \<and> rl_id r = i) (org_roles s) of
      None \<Rightarrow> (Inl RoleNotFound, s) | Some r \<Rightarrow> (Inr r, s))"

text \<open>The old bundle is read first (\<open>FOR UPDATE\<close>); its missing row is pgx's own error.\<close>

definition update_role_row :: "org_role \<Rightarrow> ('a tenancy_db_scheme, string list) dbm" where
  "update_role_row r = bindE
     (sql (\<lambda>s. case select_row (\<lambda>x. rl_org x = rl_org r \<and> rl_id x = rl_id r) (org_roles s) of
         None \<Rightarrow> (Inl ErrNoRows, s) | Some x \<Rightarrow> (Inr (rl_permissions x), s)))
     (\<lambda>old. bindE (sql (\<lambda>s.
        let P = (\<lambda>x. rl_org x = rl_org r \<and> rl_id x = rl_id r)
        in if list_ex (\<lambda>x. rl_org x = rl_org r \<and> rl_name x = rl_name r \<and> rl_id x \<noteq> rl_id r) (org_roles s)
              \<and> list_ex P (org_roles s)
           then (Inl RoleNameTaken, s)
           else (Inr (rows_affected P (org_roles s)), s\<lparr>org_roles := update_rows P (\<lambda>x. x\<lparr>rl_name := rl_name r,
                   rl_display := rl_display r, rl_description := rl_description r,
                   rl_permissions := rl_permissions r, rl_updated := clock s\<rparr>) (org_roles s)\<rparr>)))
        (\<lambda>n. if n = 0 then throw RoleNotFound else ret old))"

definition delete_role_row :: "string \<Rightarrow> string \<Rightarrow> ('a tenancy_db_scheme, unit) dbm" where
  "delete_role_row org i = sql (\<lambda>s.
     if \<not> list_ex (\<lambda>r. rl_org r = org \<and> rl_id r = i) (org_roles s) then (Inl RoleNotFound, s)
     else if list_ex (\<lambda>t. tm_role t = i) (teams s) \<or> list_ex (\<lambda>m. mb_role m = i) (memberships s)
     then (Inl fk_violation, s)
     else (Inr (), s\<lparr>org_roles := filter (\<lambda>r. \<not> (rl_org r = org \<and> rl_id r = i)) (org_roles s)\<rparr>))"

definition list_team_ids_for_role :: "string \<Rightarrow> ('a tenancy_db_scheme, string list) dbm" where
  "list_team_ids_for_role i = sql (asks (\<lambda>s. map tm_id (sort_names tm_name (filter (\<lambda>t. tm_role t = i) (teams s)))))"

text \<open>The row lock of the guardrail serializes the transactions of one tenant; a missing
  organization is pgx's own error.\<close>

definition lock_org_for_guardrail :: "string \<Rightarrow> ('a tenancy_db_scheme, unit) dbm" where
  "lock_org_for_guardrail i = sql (\<lambda>s. if list_ex (\<lambda>r. og_id r = i) (organizations s) then (Inr (), s) else (Inl ErrNoRows, s))"

definition admin_guardrail_holds :: "string \<Rightarrow> ('a tenancy_db_scheme, bool) dbm" where
  "admin_guardrail_holds org = sql (asks (\<lambda>s. list_ex (\<lambda>t. tm_org t = org
     \<and> list_ex (\<lambda>r. rl_id r = tm_role t \<and> List.member (rl_permissions r) PermTenantAdmin) (org_roles s)) (teams s)))"

definition has_permission_row :: "string \<Rightarrow> string \<Rightarrow> string \<Rightarrow> ('a tenancy_db_scheme, bool) dbm" where
  "has_permission_row org user perm = sql (asks (\<lambda>s. list_ex (\<lambda>m. mb_org m = org \<and> mb_user m = user
     \<and> list_ex (\<lambda>r. rl_id r = mb_role m \<and> List.member (rl_permissions r) perm) (org_roles s)) (memberships s)))"

definition list_member_role_names :: "string \<Rightarrow> string \<Rightarrow> ('a tenancy_db_scheme, string list) dbm" where
  "list_member_role_names org user = sql (asks (\<lambda>s. sort_names id (remdups (map rl_name (concat (map
     (\<lambda>m. filter (\<lambda>r. rl_id r = mb_role m) (org_roles s))
     (filter (\<lambda>m. mb_org m = org \<and> mb_user m = user) (memberships s))))))))"

section \<open>The store: teams\<close>

definition create_team_row :: "team \<Rightarrow> ('a tenancy_db_scheme, team) dbm" where
  "create_team_row t = sql (bindE new_uuid (\<lambda>i s.
     if list_ex (\<lambda>x. tm_id x = i \<or> (tm_org x = tm_org t \<and> tm_name x = tm_name t) \<or> tm_path x = tm_path t) (teams s)
     then (Inl TeamNameTaken, s)
     else if \<not> list_ex (\<lambda>g. og_id g = tm_org t) (organizations s) \<or> \<not> list_ex (\<lambda>r. rl_id r = tm_role t) (org_roles s)
     then (Inl fk_violation, s)
     else (Inr (t\<lparr>tm_id := i, tm_created := clock s\<rparr>),
           s\<lparr>teams := teams s @ [t\<lparr>tm_id := i, tm_display := [], tm_role_name := [], tm_created := clock s\<rparr>]\<rparr>)))"

text \<open>\<open>JOIN roles\<close>: the role name is filled in, a team without its role is left out.\<close>

definition join_role :: "org_role list \<Rightarrow> team \<Rightarrow> team option" where
  "join_role rs t = map_option (\<lambda>r. t\<lparr>tm_role_name := rl_name r\<rparr>) (select_row (\<lambda>r. rl_id r = tm_role t) rs)"

definition update_team_display_name :: "string \<Rightarrow> string \<Rightarrow> string \<Rightarrow> ('a tenancy_db_scheme, team) dbm" where
  "update_team_display_name org name disp = sql (\<lambda>s.
     let P = (\<lambda>t. tm_org t = org \<and> tm_name t = name)
     in (case select_row P (teams s) of
          None \<Rightarrow> (Inl TeamNotFound, s)
        | Some t \<Rightarrow> (Inr (t\<lparr>tm_display := disp\<rparr>),
            s\<lparr>teams := update_rows P (\<lambda>t. t\<lparr>tm_display := disp\<rparr>) (teams s)\<rparr>)))"

definition delete_team_row :: "string \<Rightarrow> string \<Rightarrow> ('a tenancy_db_scheme, team) dbm" where
  "delete_team_row org name = sql (\<lambda>s.
     let P = (\<lambda>t. tm_org t = org \<and> tm_name t = name)
     in (case select_row P (teams s) of
          None \<Rightarrow> (Inl TeamNotFound, s)
        | Some t \<Rightarrow> (Inr t, s\<lparr>teams := filter (\<lambda>x. \<not> P x) (teams s),
            memberships := filter (\<lambda>m. mb_team m \<noteq> Some (tm_id t)) (memberships s)\<rparr>)))"

definition list_teams :: "string \<Rightarrow> ('a tenancy_db_scheme, team list) dbm" where
  "list_teams org = sql (asks (\<lambda>s. sort_names tm_name
     (List.map_filter (join_role (org_roles s)) (filter (\<lambda>t. tm_org t = org) (teams s)))))"

definition list_all_teams :: "('a tenancy_db_scheme, team list) dbm" where
  "list_all_teams = sql (asks (\<lambda>s. sort_names tm_org (sort_names tm_name
     (List.map_filter (join_role (org_roles s)) (teams s)))))"

definition list_active_teams :: "('a tenancy_db_scheme, team list) dbm" where
  "list_active_teams = sql (asks (\<lambda>s. sort_names tm_org (sort_names tm_name
     (List.map_filter (join_role (org_roles s))
        (filter (\<lambda>t. list_ex (\<lambda>g. og_id g = tm_org t \<and> og_status g = OrgStatusActive) (organizations s)) (teams s))))))"

definition get_team_by_name :: "string \<Rightarrow> string \<Rightarrow> ('a tenancy_db_scheme, team) dbm" where
  "get_team_by_name org name = sql (\<lambda>s.
     case List.map_filter (join_role (org_roles s)) (filter (\<lambda>t. tm_org t = org \<and> tm_name t = name) (teams s)) of
       [] \<Rightarrow> (Inl TeamNotFound, s) | t # _ \<Rightarrow> (Inr t, s))"

definition update_team_role :: "string \<Rightarrow> string \<Rightarrow> ('a tenancy_db_scheme, unit) dbm" where
  "update_team_role tid rid = sql (\<lambda>s.
     if list_ex (\<lambda>t. tm_id t = tid) (teams s) \<and> \<not> list_ex (\<lambda>r. rl_id r = rid) (org_roles s) then (Inl fk_violation, s)
     else (Inr (), s\<lparr>teams := update_rows (\<lambda>t. tm_id t = tid) (\<lambda>t. t\<lparr>tm_role := rid\<rparr>) (teams s)\<rparr>))"

section \<open>The store: users and memberships\<close>

text \<open>\<open>COALESCE(NULLIF(EXCLUDED.x, ''), users.x)\<close>: an empty incoming field keeps the stored one.\<close>

definition coalesce :: "string \<Rightarrow> string \<Rightarrow> string" where
  "coalesce new old = (if new = [] then old else new)"

definition upsert_user :: "kc_user \<Rightarrow> ('a tenancy_db_scheme, unit) dbm" where
  "upsert_user u = sql (modify (\<lambda>s. s\<lparr>tenant_users :=
     (if list_ex (\<lambda>x. us_id x = us_id u) (tenant_users s)
      then update_rows (\<lambda>x. us_id x = us_id u) (\<lambda>x. x\<lparr>us_email := coalesce (us_email u) (us_email x),
             us_display := coalesce (us_display u) (us_display x)\<rparr>) (tenant_users s)
      else tenant_users s @ [u])\<rparr>))"

definition add_membership :: "membership \<Rightarrow> ('a tenancy_db_scheme, bool) dbm" where
  "add_membership m = sql (\<lambda>s.
     if list_ex (\<lambda>x. mb_user x = mb_user m \<and> mb_org x = mb_org m \<and> mb_role x = mb_role m) (memberships s) then (Inr False, s)
     else if \<not> list_ex (\<lambda>u. us_id u = mb_user m) (tenant_users s) \<or> \<not> list_ex (\<lambda>g. og_id g = mb_org m) (organizations s)
       \<or> \<not> list_ex (\<lambda>r. rl_id r = mb_role m) (org_roles s)
       \<or> (case mb_team m of None \<Rightarrow> False | Some t \<Rightarrow> \<not> list_ex (\<lambda>x. tm_id x = t) (teams s))
     then (Inl fk_violation, s)
     else (Inr True, s\<lparr>memberships := memberships s @ [m]\<rparr>))"

definition remove_membership :: "string \<Rightarrow> string \<Rightarrow> string \<Rightarrow> ('a tenancy_db_scheme, bool) dbm" where
  "remove_membership user org tid = sql (\<lambda>s.
     let P = (\<lambda>m. mb_user m = user \<and> mb_org m = org \<and> mb_team m = Some tid)
     in if tid = [] then (Inl (ErrMsg ''invalid input syntax for type uuid''), s) else (Inr (rows_affected P (memberships s) = 1), s\<lparr>memberships := filter (\<lambda>m. \<not> P m) (memberships s)\<rparr>))"

record membership_path =
  mw_team :: string
  mw_path :: string
  mw_role :: string

definition list_memberships_with_paths :: "string \<Rightarrow> string \<Rightarrow> ('a tenancy_db_scheme, membership_path list) dbm" where
  "list_memberships_with_paths org user = sql (asks (\<lambda>s. map (\<lambda>m.
     \<lparr>mw_team = (case mb_team m of None \<Rightarrow> [] | Some t \<Rightarrow> t),
      mw_path = (case select_row (\<lambda>t. mb_team m = Some (tm_id t)) (teams s) of None \<Rightarrow> [] | Some t \<Rightarrow> tm_path t),
      mw_role = mb_role m\<rparr>)
     (filter (\<lambda>m. mb_org m = org \<and> mb_user m = user) (memberships s))))"

definition remove_memberships_for_user :: "string \<Rightarrow> string \<Rightarrow> ('a tenancy_db_scheme, membership list) dbm" where
  "remove_memberships_for_user org user = sql (\<lambda>s.
     let P = (\<lambda>m. mb_org m = org \<and> mb_user m = user)
     in (Inr (filter P (memberships s)), s\<lparr>memberships := filter (\<lambda>m. \<not> P m) (memberships s)\<rparr>))"

definition remove_stale_team_memberships ::
  "string \<Rightarrow> string \<Rightarrow> string list \<Rightarrow> ('a tenancy_db_scheme, unit) dbm" where
  "remove_stale_team_memberships tid role keep = sql (modify (\<lambda>s. s\<lparr>memberships :=
     filter (\<lambda>m. \<not> (mb_team m = Some tid \<and> (\<not> List.member keep (mb_user m) \<or> mb_role m \<noteq> role))) (memberships s)\<rparr>))"

end
