(* ===== verification/TenancyService.thy ===== *)
theory TenancyService
  imports Tenancy
begin

text \<open>
  The tenancy service (internal/tenancy): what the HTTP routes, the scaffold seam and the team
  reconciler call. Every write is one transaction with its audit row and its outbox row; calls
  to Keycloak stay outside the transactions, before or after them, as in the code.
\<close>

section \<open>The identity provider and the service\<close>

record 's idp =
  ip_create_org :: "string \<Rightarrow> string \<Rightarrow> ('s, string) dbm"
  ip_update_org :: "string \<Rightarrow> string \<Rightarrow> ('s, unit) dbm"
  ip_delete_org :: "string \<Rightarrow> ('s, unit) dbm"
  ip_create_group :: "string \<Rightarrow> ('s, unit) dbm"
  ip_delete_group :: "string \<Rightarrow> ('s, unit) dbm"
  ip_add_org_member :: "string \<Rightarrow> string \<Rightarrow> ('s, unit) dbm"
  ip_remove_org_member :: "string \<Rightarrow> string \<Rightarrow> ('s, unit) dbm"
  ip_add_group_member :: "string \<Rightarrow> string \<Rightarrow> ('s, unit) dbm"
  ip_remove_group_member :: "string \<Rightarrow> string \<Rightarrow> ('s, unit) dbm"
  ip_list_group_members :: "string \<Rightarrow> ('s, string list) dbm"
  ip_get_user :: "string \<Rightarrow> ('s, kc_user) dbm"
  ip_get_user_by_email :: "string \<Rightarrow> ('s, kc_user) dbm"

record 's tenancy_svc =
  tv_idp :: "'s idp"
  tv_platform :: "(organization \<Rightarrow> ('s, unit) dbm) option"
  tv_kubectl :: "(string \<Rightarrow> string \<Rightarrow> ('s, unit) dbm) option"
  tv_brokers :: "string \<Rightarrow> ('s, string list) dbm"

text \<open>JSON of the payloads: a nil slice is null, an empty \<open>omitempty\<close> field is left out.\<close>

definition jstrs :: "string list \<Rightarrow> json" where
  "jstrs xs = (if xs = [] then JNull else JArr (map JStr xs))"

definition role_payload :: "org_role \<Rightarrow> string list \<Rightarrow> string list \<Rightarrow> string list \<Rightarrow> json" where
  "role_payload r old new team_ids = JObj ([(''orgId'', JStr (rl_org r)), (''roleId'', JStr (rl_id r)), (''name'', JStr (rl_name r))]
     @ (if old = [] then [] else [(''oldPermissions'', jstrs old)])
     @ (if new = [] then [] else [(''newPermissions'', jstrs new)])
     @ (if team_ids = [] then [] else [(''teamIds'', jstrs team_ids)]))"

definition team_payload :: "team \<Rightarrow> org_role \<Rightarrow> json" where
  "team_payload t r = JObj [(''orgId'', JStr (tm_org t)), (''teamId'', JStr (tm_id t)), (''name'', JStr (tm_name t)),
     (''roleId'', JStr (rl_id r)), (''roleName'', JStr (rl_name r)), (''permissions'', jstrs (rl_permissions r))]"

definition membership_json :: "string \<Rightarrow> string \<Rightarrow> string \<Rightarrow> string \<Rightarrow> json" where
  "membership_json org tm user role = JObj [(''orgId'', JStr org), (''teamId'', JStr tm), (''userId'', JStr user),
     (''roleId'', JStr role)]"

definition team_seed_json :: "team_seed \<Rightarrow> json" where
  "team_seed_json t = JObj [(''teamId'', JStr (sd_team t)), (''name'', JStr (sd_name t)), (''permissions'', jstrs (sd_permissions t))]"

definition tenant_created_payload :: "string \<Rightarrow> string \<Rightarrow> team_seed list \<Rightarrow> json" where
  "tenant_created_payload org slug seeds = JObj [(''orgId'', JStr org), (''slug'', JStr slug),
     (''teams'', JArr (map team_seed_json seeds))]"

section \<open>Creating tenants\<close>

fun create_default_teams ::
  "string \<Rightarrow> organization \<Rightarrow> (string \<times> string) list \<Rightarrow> team list \<times> team_seed list \<Rightarrow>
   ('a tenancy_db_scheme, team list \<times> team_seed list) dbm" where
  "create_default_teams actor org [] (ts, seeds) = ret (ts, seeds)"
| "create_default_teams actor org ((name, role_name) # dts) (ts, seeds) =
     bindE (get_role_by_name (og_id org) role_name) (\<lambda>r.
     bindE (create_team_row \<lparr>tm_id = [], tm_org = og_id org, tm_name = name, tm_display = [], tm_role = rl_id r,
        tm_role_name = rl_name r, tm_path = group_path (og_slug org) name, tm_created = 0\<rparr>) (\<lambda>t.
     thenE (record_audit (audit_ev (og_id org) actor ''team.created'' ''team'' (tm_id t) JNull))
       (create_default_teams actor org dts (ts @ [t],
          seeds @ [\<lparr>sd_team = tm_id t, sd_name = tm_name t, sd_permissions = rl_permissions r\<rparr>]))))"

text \<open>The transaction that \<open>CreateTenant\<close> and \<open>SeedPlatformOrg\<close> have in common.\<close>

definition tenant_tx :: "string \<Rightarrow> organization \<Rightarrow> ('a tenancy_db_scheme, organization \<times> team list) dbm" where
  "tenant_tx actor org = with_tx (bindE (create_organization org) (\<lambda>row.
     thenE (seed_builtin_roles (og_id org))
       (bindE (create_default_teams actor org default_teams ([], [])) (\<lambda>(ts, seeds).
          thenE (emit (audit_ev (og_id org) actor ''tenant.created'' ''organization'' (og_id org) JNull)
                   (og_id org) ''tenant.created'' (tenant_created_payload (og_id org) (og_slug org) seeds))
            (ret (row, ts))))))"

definition creator_join :: "string \<Rightarrow> string \<Rightarrow> team \<Rightarrow> ('a tenancy_db_scheme, unit) dbm" where
  "creator_join actor org t =
     bindE (add_membership \<lparr>mb_user = actor, mb_org = org, mb_team = Some (tm_id t), mb_role = tm_role t\<rparr>) (\<lambda>_.
       emit (audit_ev org actor ''membership.added'' ''user'' actor JNull) org ''membership.added''
         (membership_json org (tm_id t) actor (tm_role t)))"

definition creator_membership ::
  "'a tenancy_db_scheme tenancy_svc \<Rightarrow> string \<Rightarrow> string \<Rightarrow> string \<Rightarrow> team list \<Rightarrow> ('a tenancy_db_scheme, unit) dbm" where
  "creator_membership svc actor kc org ts =
     thenE (ip_add_org_member (tv_idp svc) kc actor)
       (case (select_row (\<lambda>t. tm_name t = OrgAdminsTeamName) ts, select_row (\<lambda>t. tm_name t = PlatformTeamName) ts) of
          (Some a, Some p) \<Rightarrow>
            thenE (each_do (\<lambda>t. ip_add_group_member (tv_idp svc) (tm_path t) actor) [a, p])
              (with_tx (thenE (upsert_user \<lparr>us_id = actor, us_email = [], us_display = []\<rparr>)
                 (each_do (creator_join actor org) [a, p])))
        | (Some a, None) \<Rightarrow> thenE (ip_add_group_member (tv_idp svc) (tm_path a) actor)
            (throw (ErrMsg ''default anchor team not found''))
        | _ \<Rightarrow> throw (ErrMsg ''default anchor team not found''))"

text \<open>The best-effort compensation of a failed transaction returns the transaction's error,
  whether or not the deletion in Keycloak succeeds.\<close>

definition compensate :: "('s, unit) dbm \<Rightarrow> err \<Rightarrow> ('s, 'a) dbm" where
  "compensate undo e = thenE (catchE undo (\<lambda>_. ret ())) (throw e)"

definition create_tenant ::
  "'a tenancy_db_scheme tenancy_svc \<Rightarrow> string \<Rightarrow> string \<Rightarrow> string \<Rightarrow>
   ('a tenancy_db_scheme, organization \<times> team list) dbm" where
  "create_tenant svc actor slug disp = bindE (ip_create_org (tv_idp svc) slug disp) (\<lambda>kc.
     let org = \<lparr>og_id = ''org:'' @ kc, og_slug = slug, og_display = disp, og_kc = kc, og_status = [], og_created = 0\<rparr>
     in bindE (catchE (tenant_tx actor org) (compensate (ip_delete_org (tv_idp svc) kc))) (\<lambda>(row, ts).
        thenE (each_do (\<lambda>t. ip_create_group (tv_idp svc) (tm_path t)) ts)
          (thenE (case tv_platform svc of None \<Rightarrow> ret () | Some ensure \<Rightarrow> ensure row)
          (thenE (case tv_kubectl svc of None \<Rightarrow> ret () | Some ensure \<Rightarrow> ensure actor slug)
          (thenE (if actor \<noteq> [] then creator_membership svc actor kc (og_id org) ts else ret ())
             (ret (row, ts)))))))"

definition PlatformOrgSlug :: string where "PlatformOrgSlug = ''platform''"

definition seed_platform_org :: "'a tenancy_db_scheme tenancy_svc \<Rightarrow> ('a tenancy_db_scheme, unit) dbm" where
  "seed_platform_org svc =
     bindE (catchE (thenE (get_organization_by_slug PlatformOrgSlug) (ret True))
              (\<lambda>e. if e = OrgNotFound then ret False else throw e)) (\<lambda>exists.
       if exists then ret ()
       else bindE (ip_create_org (tv_idp svc) PlatformOrgSlug ''Inari Platform'') (\<lambda>kc.
         let org = \<lparr>og_id = ''org:'' @ kc, og_slug = PlatformOrgSlug, og_display = ''Inari Platform'', og_kc = kc,
               og_status = [], og_created = 0\<rparr>
         in bindE (catchE (bindE (tenant_tx ''system:seed'' org) (\<lambda>(row, ts). ret ts))
                (\<lambda>e. if e = SlugTaken then ret [] else compensate (ip_delete_org (tv_idp svc) kc) e))
              (each_do (\<lambda>t. ip_create_group (tv_idp svc) (tm_path t)))))"

definition update_tenant_profile ::
  "'a tenancy_db_scheme tenancy_svc \<Rightarrow> string \<Rightarrow> string \<Rightarrow> string \<Rightarrow> ('a tenancy_db_scheme, organization) dbm" where
  "update_tenant_profile svc actor slug disp = bindE (get_organization_by_slug slug) (\<lambda>org.
     if og_display org = disp then ret org
     else thenE (ip_update_org (tv_idp svc) (og_kc org) disp)
       (thenE (with_tx (thenE (update_organization_display_name (og_id org) disp)
          (record_audit (audit_ev (og_id org) actor ''organization.updated'' ''organization'' (og_id org)
             (JObj [(''displayName'', JObj [(''from'', JStr (og_display org)), (''to'', JStr disp)])])))))
          (ret (org\<lparr>og_display := disp\<rparr>))))"

section \<open>Roles\<close>

definition list_roles :: "string \<Rightarrow> ('a tenancy_db_scheme, org_role list) dbm" where
  "list_roles org = list_roles_row org"

text \<open>The two orders in which a role is resolved from a name or an id.\<close>

definition role_by_name_or_id :: "string \<Rightarrow> string \<Rightarrow> ('a tenancy_db_scheme, org_role) dbm" where
  "role_by_name_or_id org x = catchE (get_role_by_name org x)
     (\<lambda>e. if e = RoleNotFound then get_role_by_id org x else throw e)"

definition role_by_id_or_name :: "string \<Rightarrow> string \<Rightarrow> ('a tenancy_db_scheme, org_role) dbm" where
  "role_by_id_or_name org x = catchE (get_role_by_id org x)
     (\<lambda>e. if e = RoleNotFound then get_role_by_name org x else throw e)"

definition get_role :: "string \<Rightarrow> string \<Rightarrow> ('a tenancy_db_scheme, org_role) dbm" where
  "get_role slug x = bindE (get_organization_by_slug slug) (\<lambda>org. role_by_name_or_id (og_id org) x)"

text \<open>\<open>^[a-z0-9]([-a-z0-9]*[a-z0-9])?$\<close>, at most 63 characters.\<close>

definition role_name_ok :: "string \<Rightarrow> bool" where
  "role_name_ok s \<longleftrightarrow> s \<noteq> [] \<and> length s \<le> 63 \<and> lower_or_digit (hd s) \<and> lower_or_digit (last s)
     \<and> list_all (\<lambda>c. lower_or_digit c \<or> c = CHR ''-'') s"

fun check_permissions :: "string list \<Rightarrow> string list \<Rightarrow> err option" where
  "check_permissions seen [] = None"
| "check_permissions seen (p # ps) =
     (if \<not> valid_permission p then Some RoleInputError
      else if List.member seen p then Some RoleInputError
      else check_permissions (p # seen) ps)"

definition validate_role_input :: "string \<Rightarrow> string list \<Rightarrow> err option" where
  "validate_role_input name ps = (if \<not> role_name_ok name then Some RoleInputError else check_permissions [] ps)"

definition sorted_copy :: "string list \<Rightarrow> string list" where
  "sorted_copy = sort_names id"

definition role_audit :: "org_role \<Rightarrow> string \<Rightarrow> string \<Rightarrow> json \<Rightarrow> audit_event" where
  "role_audit r actor action p = audit_ev (rl_org r) actor action ''role'' (rl_id r) p"

definition role_json :: "org_role \<Rightarrow> json" where
  "role_json r = JObj [(''name'', JStr (rl_name r)), (''permissions'', jstrs (rl_permissions r))]"

definition create_role_tx :: "string \<Rightarrow> org_role \<Rightarrow> ('a tenancy_db_scheme, org_role) dbm" where
  "create_role_tx actor r0 = with_tx (bindE (create_role_row r0) (\<lambda>r.
     thenE (emit (role_audit r actor ''role.created'' (role_json r)) (rl_org r) ''role.created''
              (role_payload r [] (rl_permissions r) []))
       (ret r)))"

definition create_role :: "string \<Rightarrow> string \<Rightarrow> org_role \<Rightarrow> ('a tenancy_db_scheme, org_role) dbm" where
  "create_role actor slug rin = (case validate_role_input (rl_name rin) (rl_permissions rin) of
      Some e \<Rightarrow> throw e
    | None \<Rightarrow> bindE (get_organization_by_slug slug) (\<lambda>org.
        create_role_tx actor \<lparr>rl_id = [], rl_org = og_id org, rl_name = rl_name rin,
          rl_display = (if rl_display rin = [] then rl_name rin else rl_display rin),
          rl_description = rl_description rin, rl_builtin = False,
          rl_permissions = sorted_copy (rl_permissions rin), rl_created = 0, rl_updated = 0\<rparr>))"

record role_patch =
  pt_name :: "string option"
  pt_display :: "string option"
  pt_description :: "string option"
  pt_permissions :: "string list option"

definition or_old :: "'v option \<Rightarrow> 'v \<Rightarrow> 'v" where
  "or_old x old = (case x of None \<Rightarrow> old | Some v \<Rightarrow> v)"

definition patched :: "role_patch \<Rightarrow> org_role \<Rightarrow> org_role" where
  "patched pt r = r\<lparr>rl_name := or_old (pt_name pt) (rl_name r), rl_display := or_old (pt_display pt) (rl_display r),
     rl_description := or_old (pt_description pt) (rl_description r),
     rl_permissions := (case pt_permissions pt of None \<Rightarrow> rl_permissions r | Some ps \<Rightarrow> sorted_copy ps)\<rparr>"

definition update_role_tx :: "string \<Rightarrow> org_role \<Rightarrow> ('a tenancy_db_scheme, unit) dbm" where
  "update_role_tx actor r = with_tx (thenE (lock_org_for_guardrail (rl_org r))
     (bindE (update_role_row r) (\<lambda>old.
      bindE (admin_guardrail_holds (rl_org r)) (\<lambda>ok.
        if \<not> ok then throw AdminGuardrailErr
        else bindE (list_team_ids_for_role (rl_id r)) (\<lambda>team_ids.
          emit (role_audit r actor ''role.updated'' (role_json r)) (rl_org r) ''role.updated''
            (role_payload r old (rl_permissions r) team_ids))))))"

definition update_role ::
  "string \<Rightarrow> string \<Rightarrow> string \<Rightarrow> role_patch \<Rightarrow> ('a tenancy_db_scheme, org_role) dbm" where
  "update_role actor slug name pt = bindE (get_organization_by_slug slug) (\<lambda>org.
     bindE (role_by_name_or_id (og_id org) name) (\<lambda>r0.
       if (case pt_name pt of None \<Rightarrow> False | Some n \<Rightarrow> n \<noteq> rl_name r0) \<and> rl_builtin r0 then throw BuiltinRoleErr
       else let r = patched pt r0
         in (case validate_role_input (rl_name r) (rl_permissions r) of
               Some e \<Rightarrow> throw e
             | None \<Rightarrow> thenE (update_role_tx actor r) (ret r))))"

definition delete_role_tx :: "string \<Rightarrow> org_role \<Rightarrow> ('a tenancy_db_scheme, unit) dbm" where
  "delete_role_tx actor r = with_tx (thenE (lock_org_for_guardrail (rl_org r))
     (bindE (list_team_ids_for_role (rl_id r)) (\<lambda>team_ids.
        if team_ids \<noteq> [] then throw RoleInUse
        else thenE (delete_role_row (rl_org r) (rl_id r))
          (bindE (admin_guardrail_holds (rl_org r)) (\<lambda>ok.
             if \<not> ok then throw AdminGuardrailErr
             else emit (role_audit r actor ''role.deleted'' (JObj [(''name'', JStr (rl_name r))])) (rl_org r) ''role.deleted''
                    (role_payload r (rl_permissions r) [] []))))))"

definition delete_role :: "string \<Rightarrow> string \<Rightarrow> string \<Rightarrow> ('a tenancy_db_scheme, unit) dbm" where
  "delete_role actor slug name = bindE (get_organization_by_slug slug) (\<lambda>org.
     bindE (role_by_name_or_id (og_id org) name) (\<lambda>r.
       if rl_builtin r then throw BuiltinRoleErr else delete_role_tx actor r))"


section \<open>Teams\<close>

definition get_team :: "string \<Rightarrow> string \<Rightarrow> ('a tenancy_db_scheme, team) dbm" where
  "get_team slug name = bindE (get_organization_by_slug slug) (\<lambda>org. get_team_by_name (og_id org) name)"

definition create_team_tx :: "string \<Rightarrow> team \<Rightarrow> org_role \<Rightarrow> ('a tenancy_db_scheme, team) dbm" where
  "create_team_tx actor t0 r = with_tx (bindE (create_team_row t0) (\<lambda>t.
     thenE (emit (audit_ev (tm_org t) actor ''team.created'' ''team'' (tm_id t)
              (JObj [(''team'', JStr (tm_name t)), (''role'', JStr (rl_name r))])) (tm_org t) ''team.created'' (team_payload t r))
       (ret t)))"

definition create_team ::
  "'a tenancy_db_scheme tenancy_svc \<Rightarrow> string \<Rightarrow> string \<Rightarrow> string \<Rightarrow> string \<Rightarrow> ('a tenancy_db_scheme, team) dbm" where
  "create_team svc actor slug name role = bindE (get_organization_by_slug slug) (\<lambda>org.
     bindE (role_by_id_or_name (og_id org) role) (\<lambda>r.
       let t0 = \<lparr>tm_id = [], tm_org = og_id org, tm_name = name, tm_display = [], tm_role = rl_id r,
             tm_role_name = rl_name r, tm_path = group_path slug name, tm_created = 0\<rparr>
       in thenE (ip_create_group (tv_idp svc) (tm_path t0)) (create_team_tx actor t0 r)))"

definition ensure_team_in ::
  "'a tenancy_db_scheme tenancy_svc \<Rightarrow> string \<Rightarrow> organization \<Rightarrow> string \<Rightarrow> org_role \<Rightarrow> ('a tenancy_db_scheme, team) dbm" where
  "ensure_team_in svc actor org name r = catchE (get_team_by_name (og_id org) name)
     (\<lambda>e. if e \<noteq> TeamNotFound then throw e
          else catchE (create_team svc actor (og_slug org) name (rl_id r))
            (\<lambda>e. if e = TeamNameTaken then get_team_by_name (og_id org) name else throw e))"

definition ensure_team ::
  "'a tenancy_db_scheme tenancy_svc \<Rightarrow> string \<Rightarrow> string \<Rightarrow> string \<Rightarrow> string \<Rightarrow> ('a tenancy_db_scheme, team) dbm" where
  "ensure_team svc actor slug name role = bindE (get_organization_by_slug slug) (\<lambda>org.
     bindE (get_role_by_name (og_id org) role) (\<lambda>r. ensure_team_in svc actor org name r))"

definition is_anchor_team :: "string \<Rightarrow> bool" where
  "is_anchor_team name = list_ex (\<lambda>(_, anchor). anchor = name) builtin_anchor_team"

definition update_team :: "string \<Rightarrow> string \<Rightarrow> string \<Rightarrow> string \<Rightarrow> ('a tenancy_db_scheme, team) dbm" where
  "update_team actor slug name disp =
     (if is_anchor_team name then throw DefaultTeamErr
      else bindE (get_organization_by_slug slug) (\<lambda>org.
        bindE (get_team_by_name (og_id org) name) (\<lambda>old.
          if tm_display old = disp then ret old
          else with_tx (bindE (update_team_display_name (og_id org) name disp) (\<lambda>t.
            thenE (record_audit (audit_ev (og_id org) actor ''team.updated'' ''team'' (tm_id t)
                    (JObj [(''team'', JStr name), (''displayName'', JObj [(''from'', JStr (tm_display old)), (''to'', JStr disp)])])))
              (ret t))))))"

definition delete_team_tx :: "string \<Rightarrow> string \<Rightarrow> string \<Rightarrow> org_role \<Rightarrow> ('a tenancy_db_scheme, team) dbm" where
  "delete_team_tx actor org name r = with_tx (thenE (lock_org_for_guardrail org)
     (bindE (delete_team_row org name) (\<lambda>t.
      bindE (admin_guardrail_holds org) (\<lambda>ok.
        if \<not> ok then throw AdminGuardrailErr
        else thenE (emit (audit_ev org actor ''team.deleted'' ''team'' (tm_id t)
               (JObj [(''team'', JStr (tm_name t)), (''role'', JStr (rl_name r))])) org ''team.deleted''
               (team_payload (t\<lparr>tm_org := org\<rparr>) r))
             (ret t)))))"

definition delete_team ::
  "'a tenancy_db_scheme tenancy_svc \<Rightarrow> string \<Rightarrow> string \<Rightarrow> string \<Rightarrow> ('a tenancy_db_scheme, unit) dbm" where
  "delete_team svc actor slug name =
     (if is_anchor_team name then throw DefaultTeamErr
      else bindE (get_organization_by_slug slug) (\<lambda>org.
        thenE (if name = membersTeamName
               then bindE (tv_brokers svc (og_id org)) (\<lambda>bs. if bs \<noteq> [] then throw MembersTeamInUse else ret ())
               else ret ())
          (bindE (get_team_by_name (og_id org) name) (\<lambda>t0.
           bindE (get_role_by_id (og_id org) (tm_role t0)) (\<lambda>r.
           bindE (delete_team_tx actor (og_id org) name r) (\<lambda>t.
             ip_delete_group (tv_idp svc) (tm_path t)))))))"

section \<open>The mapping of teams to roles\<close>

record team_role_change =
  ch_team :: string
  ch_name :: string
  ch_old_role :: string
  ch_old :: "string list"
  ch_new_role :: string
  ch_new :: "string list"

definition change_json :: "team_role_change \<Rightarrow> json" where
  "change_json c = JObj [(''teamId'', JStr (ch_team c)), (''name'', JStr (ch_name c)), (''oldRoleId'', JStr (ch_old_role c)),
     (''oldPermissions'', jstrs (ch_old c)), (''newRoleId'', JStr (ch_new_role c)), (''newPermissions'', jstrs (ch_new c))]"

definition mappings_payload :: "string \<Rightarrow> team_role_change list \<Rightarrow> json" where
  "mappings_payload org changes = JObj [(''orgId'', JStr org), (''changes'', JArr (map change_json changes))]"

text \<open>Every entry is resolved before the transaction; \<open>mp\<close> holds a team name and a role.\<close>

fun resolve_mappings :: "string \<Rightarrow> (string \<times> string) list \<Rightarrow> ('a tenancy_db_scheme, (team \<times> org_role) list) dbm" where
  "resolve_mappings org [] = ret []"
| "resolve_mappings org ((name, role) # mps) =
     bindE (get_team_by_name org name) (\<lambda>t. bindE (role_by_id_or_name org role) (\<lambda>r.
       bindE (resolve_mappings org mps) (\<lambda>rest. ret ((t, r) # rest))))"

fun apply_mappings :: "string \<Rightarrow> (team \<times> org_role) list \<Rightarrow> ('a tenancy_db_scheme, team_role_change list) dbm" where
  "apply_mappings org [] = ret []"
| "apply_mappings org ((t, r) # mps) =
     (if tm_role t = rl_id r then apply_mappings org mps
      else bindE (get_role_by_id org (tm_role t)) (\<lambda>old.
        thenE (update_team_role (tm_id t) (rl_id r))
          (bindE (apply_mappings org mps) (\<lambda>rest.
             ret (\<lparr>ch_team = tm_id t, ch_name = tm_name t, ch_old_role = tm_role t, ch_old = rl_permissions old,
                   ch_new_role = rl_id r, ch_new = rl_permissions r\<rparr> # rest)))))"

definition set_mappings_tx ::
  "string \<Rightarrow> string \<Rightarrow> (team \<times> org_role) list \<Rightarrow> ('a tenancy_db_scheme, team_role_change list) dbm" where
  "set_mappings_tx actor org mps = with_tx (thenE (lock_org_for_guardrail org)
     (bindE (apply_mappings org mps) (\<lambda>changes.
        if changes = [] then ret []
        else bindE (admin_guardrail_holds org) (\<lambda>ok.
          if \<not> ok then throw AdminGuardrailErr
          else thenE (emit (audit_ev org actor ''rbac.mappings.updated'' ''organization'' org (mappings_payload org changes))
                 org ''rbac.mappings.updated'' (mappings_payload org changes))
            (ret changes)))))"

definition set_rbac_mappings ::
  "string \<Rightarrow> string \<Rightarrow> (string \<times> string) list \<Rightarrow> ('a tenancy_db_scheme, team_role_change list) dbm" where
  "set_rbac_mappings actor slug mappings =
     (if \<not> distinct (map fst mappings) then throw (ErrMsg ''duplicate team in mappings'')
      else bindE (get_organization_by_slug slug) (\<lambda>org.
        bindE (resolve_mappings (og_id org) mappings) (set_mappings_tx actor (og_id org))))"

section \<open>Members\<close>

definition resolve_member_subject :: "'s tenancy_svc \<Rightarrow> string \<Rightarrow> ('s, kc_user) dbm" where
  "resolve_member_subject svc subject = catchE (ip_get_user (tv_idp svc) subject)
     (\<lambda>e. if e \<noteq> UserNotFound \<or> \<not> List.member subject (CHR ''@'') then throw e
          else ip_get_user_by_email (tv_idp svc) subject)"

definition add_member_tx ::
  "string \<Rightarrow> string \<Rightarrow> team \<Rightarrow> kc_user \<Rightarrow> ('a tenancy_db_scheme, unit) dbm" where
  "add_member_tx actor org t u = with_tx (thenE (upsert_user u)
     (bindE (add_membership \<lparr>mb_user = us_id u, mb_org = org, mb_team = Some (tm_id t), mb_role = tm_role t\<rparr>) (\<lambda>inserted.
        if \<not> inserted then ret ()
        else emit (audit_ev org actor ''membership.added'' ''user'' (us_id u)
               (JObj [(''teamId'', JStr (tm_id t)), (''team'', JStr (tm_name t)), (''role'', JStr (tm_role_name t))]))
             org ''membership.added'' (membership_json org (tm_id t) (us_id u) (tm_role t)))))"

definition add_member ::
  "'a tenancy_db_scheme tenancy_svc \<Rightarrow> string \<Rightarrow> string \<Rightarrow> string \<Rightarrow> string \<Rightarrow> ('a tenancy_db_scheme, unit) dbm" where
  "add_member svc actor slug team_name subject = bindE (resolve_member_subject svc subject) (\<lambda>u.
     bindE (get_organization_by_slug slug) (\<lambda>org.
     bindE (get_team_by_name (og_id org) team_name) (\<lambda>t.
     thenE (ip_add_org_member (tv_idp svc) (og_kc org) (us_id u))
       (thenE (ip_add_group_member (tv_idp svc) (tm_path t) (us_id u))
         (add_member_tx actor (og_id org) t u)))))"

definition remove_member_tx ::
  "string \<Rightarrow> string \<Rightarrow> team \<Rightarrow> string \<Rightarrow> ('a tenancy_db_scheme, unit) dbm" where
  "remove_member_tx actor org t user = with_tx (bindE (remove_membership user org (tm_id t)) (\<lambda>removed.
     if \<not> removed then ret ()
     else emit (audit_ev org actor ''membership.removed'' ''user'' user
            (JObj [(''teamId'', JStr (tm_id t)), (''team'', JStr (tm_name t))]))
          org ''membership.removed'' (membership_json org (tm_id t) user (tm_role t))))"

definition remove_member ::
  "'a tenancy_db_scheme tenancy_svc \<Rightarrow> string \<Rightarrow> string \<Rightarrow> string \<Rightarrow> string \<Rightarrow> ('a tenancy_db_scheme, unit) dbm" where
  "remove_member svc actor slug team_name user = bindE (get_organization_by_slug slug) (\<lambda>org.
     bindE (get_team_by_name (og_id org) team_name) (\<lambda>t.
     thenE (ip_remove_group_member (tv_idp svc) (tm_path t) user)
       (remove_member_tx actor (og_id org) t user)))"

text \<open>The loop over the other teams of the user inside the transaction.\<close>

definition leave_team :: "string \<Rightarrow> string \<Rightarrow> membership_path \<Rightarrow> ('a tenancy_db_scheme, unit) dbm" where
  "leave_team org user m = bindE (remove_membership user org (mw_team m)) (\<lambda>removed.
     if removed then append_outbox org ''membership.removed'' (membership_json org (mw_team m) user (mw_role m)) else ret ())"

definition set_member_role_tx ::
  "string \<Rightarrow> string \<Rightarrow> team \<Rightarrow> kc_user \<Rightarrow> membership_path list \<Rightarrow> bool \<Rightarrow> ('a tenancy_db_scheme, unit) dbm" where
  "set_member_role_tx actor org anchor u removed is_new = with_tx (thenE (upsert_user u)
     (thenE (each_do (leave_team org (us_id u)) removed)
     (bindE (add_membership \<lparr>mb_user = us_id u, mb_org = org, mb_team = Some (tm_id anchor), mb_role = tm_role anchor\<rparr>) (\<lambda>inserted.
        thenE (if inserted then append_outbox org ''membership.added'' (membership_json org (tm_id anchor) (us_id u) (tm_role anchor))
               else ret ())
          (if inserted \<or> removed \<noteq> []
           then record_audit (audit_ev org actor (if is_new then ''member.added'' else ''member.role_changed'') ''user'' (us_id u)
                  (JObj [(''role'', JStr (tm_role_name anchor)), (''team'', JStr (tm_name anchor))]))
           else ret ())))))"

definition set_member_role ::
  "'a tenancy_db_scheme tenancy_svc \<Rightarrow> string \<Rightarrow> string \<Rightarrow> string \<Rightarrow> string \<Rightarrow> ('a tenancy_db_scheme, unit) dbm" where
  "set_member_role svc actor slug subject role = bindE (resolve_member_subject svc subject) (\<lambda>u.
     bindE (get_organization_by_slug slug) (\<lambda>org.
     bindE (role_by_id_or_name (og_id org) role) (\<lambda>r.
     bindE (ensure_team_in svc actor org (anchor_team_for_role r) r) (\<lambda>anchor.
     bindE (list_memberships_with_paths (og_id org) (us_id u)) (\<lambda>current.
       let removed = filter (\<lambda>m. mw_team m \<noteq> tm_id anchor) current
       in thenE (ip_add_org_member (tv_idp svc) (og_kc org) (us_id u))
         (thenE (ip_add_group_member (tv_idp svc) (tm_path anchor) (us_id u))
         (thenE (each_do (\<lambda>m. if mw_path m \<noteq> [] then ip_remove_group_member (tv_idp svc) (mw_path m) (us_id u) else ret ()) removed)
           (set_member_role_tx actor (og_id org) anchor u removed (current = []))))))))) "

definition remove_org_member_tx :: "string \<Rightarrow> string \<Rightarrow> string \<Rightarrow> ('a tenancy_db_scheme, unit) dbm" where
  "remove_org_member_tx actor org user = with_tx (bindE (remove_memberships_for_user org user) (\<lambda>removed.
     if removed = [] then ret ()
     else thenE (record_audit (audit_ev org actor ''member.removed'' ''user'' user (JObj [(''teams'', JNum (real (length removed)))])))
       (each_do (\<lambda>m. append_outbox org ''membership.removed''
          (membership_json org (case mb_team m of None \<Rightarrow> [] | Some t \<Rightarrow> t) user (mb_role m))) removed)))"

definition remove_org_member ::
  "'a tenancy_db_scheme tenancy_svc \<Rightarrow> string \<Rightarrow> string \<Rightarrow> string \<Rightarrow> ('a tenancy_db_scheme, unit) dbm" where
  "remove_org_member svc actor slug user = bindE (get_organization_by_slug slug) (\<lambda>org.
     bindE (list_memberships_with_paths (og_id org) user) (\<lambda>current.
     thenE (each_do (\<lambda>m. if mw_path m \<noteq> [] then ip_remove_group_member (tv_idp svc) (mw_path m) user else ret ()) current)
       (thenE (ip_remove_org_member (tv_idp svc) (og_kc org) user)
         (remove_org_member_tx actor (og_id org) user))))"

section \<open>The projection of the team groups\<close>

definition project_member :: "team_group \<Rightarrow> kc_user \<Rightarrow> ('a tenancy_db_scheme, unit) dbm" where
  "project_member g u = thenE (upsert_user u)
     (bindE (add_membership \<lparr>mb_user = us_id u, mb_org = tg_org g, mb_team = Some (tg_team g), mb_role = tg_role g\<rparr>)
        (\<lambda>_. ret ()))"

definition sync_team_members :: "team_group \<Rightarrow> kc_user list \<Rightarrow> ('a tenancy_db_scheme, unit) dbm" where
  "sync_team_members g members =
     (let us = filter (\<lambda>u. us_id u \<noteq> []) members
      in with_tx (thenE (each_do (project_member g) us)
           (remove_stale_team_memberships (tg_team g) (tg_role g) (map us_id us))))"

text \<open>The lister of the team groups (cmd/inari-server/main.go): the teams of the active
  organizations with the bundle of their role.\<close>

fun team_group_refs ::
  "(string \<times> (string \<times> string list) list) list \<Rightarrow> team list \<Rightarrow> ('a tenancy_db_scheme, team_group list) dbm" where
  "team_group_refs cache [] = ret []"
| "team_group_refs cache (t # ts) =
     bindE (case map_of cache (tm_org t) of
              Some perms \<Rightarrow> ret perms
            | None \<Rightarrow> bindE (list_roles (tm_org t)) (\<lambda>rs. ret (map (\<lambda>r. (rl_id r, rl_permissions r)) rs))) (\<lambda>perms.
     bindE (team_group_refs ((tm_org t, perms) # cache) ts) (\<lambda>gs.
       ret (\<lparr>tg_team = tm_id t, tg_org = tm_org t, tg_role = tm_role t,
             tg_permissions = (case map_of perms (tm_role t) of None \<Rightarrow> [] | Some ps \<Rightarrow> ps),
             tg_path = tm_path t\<rparr> # gs)))"

definition list_team_groups :: "('a tenancy_db_scheme, team_group list) dbm" where
  "list_team_groups = bindE list_active_teams (team_group_refs [])"

section \<open>Permissions and platform administrators\<close>

definition has_permission :: "string \<Rightarrow> string \<Rightarrow> string \<Rightarrow> ('a tenancy_db_scheme, bool) dbm" where
  "has_permission org user perm = has_permission_row org user perm"

definition platform_admin_audit :: "string \<Rightarrow> string \<Rightarrow> kc_user \<Rightarrow> string \<Rightarrow> audit_event" where
  "platform_admin_audit actor action u grp = audit_ev ''platform'' actor action ''user'' (us_id u)
     (JObj [(''email'', JStr (us_email u)), (''group'', JStr grp)])"

definition grant_platform_admin ::
  "'a tenancy_db_scheme tenancy_svc \<Rightarrow> string \<Rightarrow> string \<Rightarrow> string \<Rightarrow> ('a tenancy_db_scheme, unit) dbm" where
  "grant_platform_admin svc actor grp subject = bindE (resolve_member_subject svc subject) (\<lambda>u.
     bindE (ip_list_group_members (tv_idp svc) grp) (\<lambda>ids.
       if List.member ids (us_id u) then ret ()
       else thenE (ip_add_group_member (tv_idp svc) grp (us_id u))
              (record_audit (platform_admin_audit actor ''platform.admin.granted'' u grp))))"

definition revoke_platform_admin ::
  "'a tenancy_db_scheme tenancy_svc \<Rightarrow> string \<Rightarrow> string \<Rightarrow> string \<Rightarrow> ('a tenancy_db_scheme, unit) dbm" where
  "revoke_platform_admin svc actor grp subject = bindE (resolve_member_subject svc subject) (\<lambda>u.
     bindE (ip_list_group_members (tv_idp svc) grp) (\<lambda>ids.
       if \<not> List.member ids (us_id u) then ret ()
       else thenE (ip_remove_group_member (tv_idp svc) grp (us_id u))
              (record_audit (platform_admin_audit actor ''platform.admin.revoked'' u grp))))"

end
