(* ===== verification/TenancySafety.thy ===== *)
theory TenancySafety
  imports TenancyService
begin

text \<open>
  The administrator guardrail: every organization keeps a team whose role has
  \<open>tenant.admin\<close>, under every interleaving of the tenancy transactions on stale copies and with
  any statements failing. It rests on the keys of the schema, which every statement keeps
  (\<open>tenancy_wf\<close>), and on the frame of a transaction: it leaves the teams and roles of other
  organizations in place.
\<close>

section \<open>The keys of the schema\<close>

definition tenancy_wf :: "'a tenancy_db_scheme \<Rightarrow> bool" where
  "tenancy_wf s \<longleftrightarrow> distinct (map rl_id (org_roles s))
     \<and> (\<forall>r \<in> set (org_roles s). rl_org r \<in> og_id ` set (organizations s))
     \<and> (\<forall>t \<in> set (teams s). \<exists>r \<in> set (org_roles s). rl_id r = tm_role t \<and> rl_org r = tm_org t)"

definition has_admin_team :: "'a tenancy_db_scheme \<Rightarrow> string \<Rightarrow> bool" where
  "has_admin_team s org \<longleftrightarrow> (\<exists>t \<in> set (teams s). tm_org t = org
     \<and> (\<exists>r \<in> set (org_roles s). rl_id r = tm_role t \<and> PermTenantAdmin \<in> set (rl_permissions r)))"

definition guarded :: "'a tenancy_db_scheme \<Rightarrow> bool" where
  "guarded s \<longleftrightarrow> tenancy_wf s \<and> (\<forall>g \<in> set (organizations s). has_admin_team s (og_id g))"

text \<open>The parts of the state the guardrail reads.\<close>

definition same_tenants :: "'a tenancy_db_scheme \<Rightarrow> 'a tenancy_db_scheme \<Rightarrow> bool" where
  "same_tenants s s' \<longleftrightarrow> org_roles s' = org_roles s \<and> teams s' = teams s
     \<and> og_id ` set (organizations s') = og_id ` set (organizations s)"

lemma same_tenants_refl [simp]: "same_tenants s s"
  by (simp add: same_tenants_def)

lemma same_tenants_trans: "same_tenants s s1 \<Longrightarrow> same_tenants s1 s2 \<Longrightarrow> same_tenants s s2"
  by (simp add: same_tenants_def)

lemma wf_same: "same_tenants s s' \<Longrightarrow> tenancy_wf s \<Longrightarrow> tenancy_wf s'"
  by (simp add: tenancy_wf_def same_tenants_def)

lemma has_admin_same: "same_tenants s s' \<Longrightarrow> has_admin_team s' org \<longleftrightarrow> has_admin_team s org"
  by (simp add: has_admin_team_def same_tenants_def)

lemma guarded_same: "same_tenants s s' \<Longrightarrow> guarded s \<Longrightarrow> guarded s'"
proof -
  assume same: "same_tenants s s'" and g: "guarded s"
  have "has_admin_team s' (og_id g')" if "g' \<in> set (organizations s')" for g'
  proof -
    from that same obtain g0 where "g0 \<in> set (organizations s)" "og_id g' = og_id g0"
      unfolding same_tenants_def by (metis image_iff)
    with g have "has_admin_team s (og_id g')" by (simp add: guarded_def)
    then show ?thesis using has_admin_same [OF same] by simp
  qed
  with g wf_same [OF same] show ?thesis by (simp add: guarded_def)
qed

lemma same_tables_tenants: "same_tables s s' \<Longrightarrow> same_tenants s s'"
  by (auto elim!: same_tablesE simp: same_tenants_def)

text \<open>\<open>keeps_tenants\<close>: an operation that, run from a state like \<open>s0\<close>, ends in one like it.\<close>

lemma log_stable_same: "log_stable (same_tenants s0)"
  by (simp add: log_stable_def same_tenants_def)

lemma log_stable_wf: "log_stable tenancy_wf"
  by (simp add: log_stable_def tenancy_wf_def)

text \<open>\<open>frame\<close>: the teams and roles of the other organizations are still there.\<close>

definition frame :: "string \<Rightarrow> 'a tenancy_db_scheme \<Rightarrow> 'a tenancy_db_scheme \<Rightarrow> bool" where
  "frame org s s' \<longleftrightarrow> (\<forall>t \<in> set (teams s). tm_org t \<noteq> org \<longrightarrow> t \<in> set (teams s'))
     \<and> (\<forall>r \<in> set (org_roles s). rl_org r \<noteq> org \<longrightarrow> r \<in> set (org_roles s'))
     \<and> og_id ` set (organizations s') = og_id ` set (organizations s)"

lemma log_stable_frame: "log_stable (frame org s0)"
  by (simp add: log_stable_def frame_def)

lemma frame_refl [simp]: "frame org s s"
  by (simp add: frame_def)

lemma frame_same: "frame org s0 s \<Longrightarrow> same_tenants s s' \<Longrightarrow> frame org s0 s'"
  by (auto simp: frame_def same_tenants_def)

lemma guarded_wf: "guarded s \<Longrightarrow> same_tenants s s1 \<Longrightarrow> same_tenants s1 s2 \<Longrightarrow> tenancy_wf s2"
  unfolding guarded_def using wf_same by blast

lemma wf_role_org:
  assumes "tenancy_wf s" and "t \<in> set (teams s)" and "r \<in> set (org_roles s)" and "rl_id r = tm_role t"
  shows "rl_org r = tm_org t"
proof -
  from assms(1,2) obtain r' where "r' \<in> set (org_roles s)" "rl_id r' = tm_role t" "rl_org r' = tm_org t"
    by (auto simp: tenancy_wf_def)
  with assms show ?thesis by (metis distinct_key_unique tenancy_wf_def)
qed

lemma frame_admin:
  assumes wf: "tenancy_wf s" and "frame org s s'" and "other \<noteq> org" and "has_admin_team s other"
  shows "has_admin_team s' other"
proof -
  from assms(4) obtain t r where t: "t \<in> set (teams s)" "tm_org t = other" and r: "r \<in> set (org_roles s)"
    "rl_id r = tm_role t" "PermTenantAdmin \<in> set (rl_permissions r)" by (auto simp: has_admin_team_def)
  have "rl_org r = other" using wf_role_org [OF wf t(1) r(1,2)] t(2) by simp
  with t r assms(2,3) have "t \<in> set (teams s')" "r \<in> set (org_roles s')" by (auto simp: frame_def)
  with t r show ?thesis by (auto simp: has_admin_team_def)
qed

lemma guarded_frame:
  assumes "guarded s" and "frame org s s'" and "tenancy_wf s'" and "has_admin_team s' org"
  shows "guarded s'"
  unfolding guarded_def
proof (intro conjI ballI)
  show "tenancy_wf s'" by fact
  fix g assume "g \<in> set (organizations s')"
  then have "og_id g \<in> og_id ` set (organizations s)" using assms(2) by (auto simp: frame_def)
  then have "has_admin_team s (og_id g)" using assms(1) by (auto simp: guarded_def)
  moreover have "tenancy_wf s" using assms(1) by (simp add: guarded_def)
  ultimately show "has_admin_team s' (og_id g)"
    using frame_admin [OF _ assms(2)] assms(4) by (cases "og_id g = org") auto
qed

section \<open>What the statements keep\<close>

lemma preserves_reads:
  assumes "log_stable I"
  shows "preserves I (lock_org_for_guardrail org)" "preserves I (admin_guardrail_holds org)"
    "preserves I (list_team_ids_for_role i)" "preserves I (get_role_by_id org i)" "preserves I (get_role_by_name org n)"
    "preserves I (get_organization_by_slug sl)" "preserves I (get_team_by_name org n)"
    "preserves I (list_memberships_with_paths org u)" "preserves I (has_permission_row org u p)"
  unfolding lock_org_for_guardrail_def admin_guardrail_holds_def list_team_ids_for_role_def get_role_by_id_def
    get_role_by_name_def get_organization_by_slug_def get_team_by_name_def list_memberships_with_paths_def has_permission_row_def
  by (rule preserves_sql_body [OF assms], simp add: asks_def split: if_splits option.splits list.splits)+

lemma insert_role_cases:
  assumes run: "insert_role r s = (res, s')"
  obtains "same_tenants s s'" "res = Inl fk_violation \<or> res = Inl RoleNameTaken"
  | row where "teams s' = teams s" "organizations s' = organizations s" "org_roles s' = org_roles s @ [row]"
      "rl_org row = rl_org r" "rl_name row = rl_name r" "rl_permissions row = rl_permissions r"
      "rl_org r \<in> og_id ` set (organizations s)" "rl_id row \<notin> rl_id ` set (org_roles s)"
      "\<forall>x \<in> set (org_roles s). rl_org x = rl_org r \<longrightarrow> rl_name x \<noteq> rl_name r" "res = Inr row"
proof -
  let ?row = "r\<lparr>rl_id := uuids s (uuid_next s), rl_created := clock s, rl_updated := clock s\<rparr>"
  have "insert_role r s = (if \<not> list_ex (\<lambda>g. og_id g = rl_org r) (organizations s)
      then (Inl fk_violation, s\<lparr>uuid_next := Suc (uuid_next s)\<rparr>)
      else if list_ex (\<lambda>x. rl_id x = uuids s (uuid_next s) \<or> (rl_org x = rl_org r \<and> rl_name x = rl_name r)) (org_roles s)
      then (Inl RoleNameTaken, s\<lparr>uuid_next := Suc (uuid_next s)\<rparr>)
      else (Inr ?row, s\<lparr>uuid_next := Suc (uuid_next s), org_roles := org_roles s @ [?row]\<rparr>))"
    by (simp add: insert_role_def bindE_def new_uuid_def Let_def)
  with run have b: "(if \<not> list_ex (\<lambda>g. og_id g = rl_org r) (organizations s)
      then (Inl fk_violation, s\<lparr>uuid_next := Suc (uuid_next s)\<rparr>)
      else if list_ex (\<lambda>x. rl_id x = uuids s (uuid_next s) \<or> (rl_org x = rl_org r \<and> rl_name x = rl_name r)) (org_roles s)
      then (Inl RoleNameTaken, s\<lparr>uuid_next := Suc (uuid_next s)\<rparr>)
      else (Inr ?row, s\<lparr>uuid_next := Suc (uuid_next s), org_roles := org_roles s @ [?row]\<rparr>)) = (res, s')" by simp
  show ?thesis
  proof (cases "\<not> list_ex (\<lambda>g. og_id g = rl_org r) (organizations s)
      \<or> list_ex (\<lambda>x. rl_id x = uuids s (uuid_next s) \<or> (rl_org x = rl_org r \<and> rl_name x = rl_name r)) (org_roles s)")
    case True
    with b have "same_tenants s s' \<and> (res = Inl fk_violation \<or> res = Inl RoleNameTaken)"
      by (auto simp: same_tenants_def split: if_splits)
    then show ?thesis using that(1) by blast
  next
    case F: False
    with b have "res = Inr ?row" and "s' = s\<lparr>uuid_next := Suc (uuid_next s), org_roles := org_roles s @ [?row]\<rparr>" by simp_all
    then show ?thesis using F by (intro that(2) [of ?row]) (auto simp: list_ex_iff intro: rev_image_eqI)
  qed
qed

lemma insert_role_wf:
  assumes wf: "tenancy_wf s" and run: "insert_role r s = (res, s')"
  shows "tenancy_wf s'"
  using run
proof (cases rule: insert_role_cases)
  case 1
  then show ?thesis using wf wf_same by blast
next
  case (2 row)
  then show ?thesis using wf by (auto simp: tenancy_wf_def)
qed

lemma insert_role_frame:
  "frame org s0 s \<Longrightarrow> insert_role r s = (res, s') \<Longrightarrow> frame org s0 s'"
  by (erule insert_role_cases) (simp_all add: frame_def same_tenants_def)

lemma preserves_seed_roles:
  assumes "log_stable I" and "\<And>r s res s'. I s \<Longrightarrow> insert_role r s = (res, s') \<Longrightarrow> I s'"
  shows "preserves I (seed_roles org bs)"
proof (induction bs)
  case (Cons b bs)
  have ins: "preserves I (insert_role r)" for r by (rule preservesI) (rule assms(2))
  show ?case unfolding seed_roles.simps
  proof (rule preserves_thenE [OF _ Cons], rule preserves_sql_body [OF assms(1)])
    fix s r s'
    assume "I s" and "(if list_ex (\<lambda>x. rl_org x = org \<and> rl_name x = br_name b) (org_roles s) then (Inr (), s)
          else thenE (insert_role \<lparr>rl_id = [], rl_org = org, rl_name = br_name b, rl_display = br_display b,
             rl_description = br_description b, rl_builtin = True, rl_permissions = br_permissions b,
             rl_created = 0, rl_updated = 0\<rparr>) (ret ()) s) = (r, s')"
    then show "I s'" using preservesD [OF preserves_thenE [OF ins preserves_ret]] by (auto split: if_splits)
  qed
qed (simp add: preserves_ret)

text \<open>A team row may only name a role of its own organization: \<open>role_of\<close> says so of a copy.\<close>

definition role_of :: "'a tenancy_db_scheme \<Rightarrow> string \<Rightarrow> string \<Rightarrow> bool" where
  "role_of s org rid \<longleftrightarrow> (\<forall>x \<in> set (org_roles s). rl_id x = rid \<longrightarrow> rl_org x = org)"

definition team_of :: "'a tenancy_db_scheme \<Rightarrow> string \<Rightarrow> string \<Rightarrow> bool" where
  "team_of s org tid \<longleftrightarrow> (\<forall>x \<in> set (teams s). tm_id x = tid \<longrightarrow> tm_org x = org)"

lemma create_team_row_cases:
  assumes run: "create_team_row t s = (res, s')"
  obtains e where "same_tenants s s'" "res = Inl e"
  | row where "teams s' = teams s @ [row]" "organizations s' = organizations s" "org_roles s' = org_roles s"
      "tm_org row = tm_org t" "tm_role row = tm_role t" "tm_name row = tm_name t"
      "\<exists>r \<in> set (org_roles s). rl_id r = tm_role t" "tm_id row \<notin> tm_id ` set (teams s)"
      "\<exists>c. res = Inr (t\<lparr>tm_id := tm_id row, tm_created := c\<rparr>)"
proof -
  let ?i = "uuids s (uuid_next s)"
  let ?row = "t\<lparr>tm_id := ?i, tm_display := [], tm_role_name := [], tm_created := clock s\<rparr>"
  from run [unfolded create_team_row_def] show ?thesis
  proof (cases rule: sql_runE)
    case (1 fs)
    then show ?thesis by (intro that(1)) (simp_all add: same_tenants_def)
  next
    case (2 fs)
    then have b: "(if list_ex (\<lambda>x. tm_id x = ?i \<or> (tm_org x = tm_org t \<and> tm_name x = tm_name t) \<or> tm_path x = tm_path t) (teams s)
       then (Inl TeamNameTaken, s\<lparr>faults := fs, uuid_next := Suc (uuid_next s)\<rparr>)
       else if \<not> list_ex (\<lambda>g. og_id g = tm_org t) (organizations s) \<or> \<not> list_ex (\<lambda>r. rl_id r = tm_role t) (org_roles s)
       then (Inl fk_violation, s\<lparr>faults := fs, uuid_next := Suc (uuid_next s)\<rparr>)
       else (Inr (t\<lparr>tm_id := ?i, tm_created := clock s\<rparr>),
             s\<lparr>faults := fs, uuid_next := Suc (uuid_next s), teams := teams s @ [?row]\<rparr>)) = (res, s')"
      by (simp add: bindE_def new_uuid_def split del: if_split cong: if_cong)
    show ?thesis
    proof (cases "list_ex (\<lambda>x. tm_id x = ?i \<or> (tm_org x = tm_org t \<and> tm_name x = tm_name t) \<or> tm_path x = tm_path t) (teams s)
       \<or> \<not> list_ex (\<lambda>g. og_id g = tm_org t) (organizations s) \<or> \<not> list_ex (\<lambda>r. rl_id r = tm_role t) (org_roles s)")
      case True
      with b have "same_tenants s s' \<and> (\<exists>e. res = Inl e)" by (auto simp: same_tenants_def split: if_splits)
      then show ?thesis using that(1) by blast
    next
      case F: False
      with b have "res = Inr (t\<lparr>tm_id := ?i, tm_created := clock s\<rparr>)"
        and s': "s' = s\<lparr>faults := fs, uuid_next := Suc (uuid_next s), teams := teams s @ [?row]\<rparr>" by simp_all
      then show ?thesis using F by (intro that(2) [of ?row]) (auto simp: list_ex_iff intro: rev_image_eqI)
    qed
  qed
qed

lemma create_team_row_wf:
  assumes wf: "tenancy_wf s" and role: "role_of s (tm_org t) (tm_role t)" and run: "create_team_row t s = (res, s')"
  shows "tenancy_wf s'"
  using run
proof (cases rule: create_team_row_cases)
  case (1 e)
  then show ?thesis using wf wf_same by blast
next
  case (2 row)
  then show ?thesis using wf role by (auto simp: tenancy_wf_def role_of_def)
qed

lemma create_team_row_frame: "frame org s0 s \<Longrightarrow> create_team_row t s = (res, s') \<Longrightarrow> frame org s0 s'"
  by (erule create_team_row_cases) (simp_all add: frame_def same_tenants_def)


lemma preserves_update_role_row:
  assumes "log_stable I"
    and "\<And>s f P. I s \<Longrightarrow> (\<And>x. P x \<Longrightarrow> rl_org x = rl_org r) \<Longrightarrow> (\<And>x. rl_id (f x) = rl_id x \<and> rl_org (f x) = rl_org x) \<Longrightarrow>
      I (s\<lparr>org_roles := update_rows P f (org_roles s)\<rparr>)"
  shows "preserves I (update_role_row r)"
  unfolding update_role_row_def
  by (intro preserves_bindE preserves_if preserves_throw preserves_ret preserves_sql_body [OF assms(1)])
     (auto simp: Let_def intro!: assms(2) split: option.splits if_splits)

lemma update_roles_wf:
  assumes "tenancy_wf s" and "\<And>x. rl_id (f x) = rl_id x \<and> rl_org (f x) = rl_org x"
  shows "tenancy_wf (s\<lparr>org_roles := update_rows P f (org_roles s)\<rparr>)"
proof -
  have "map rl_id (update_rows P f (org_roles s)) = map rl_id (org_roles s)"
    by (rule map_update_rows_same) (simp add: assms(2))
  then show ?thesis using assms unfolding tenancy_wf_def
    by (simp add: ball_update_rows bex_update_rows if_distrib cong: if_cong)
qed

lemma update_roles_frame:
  assumes "frame org s0 s" and "\<And>x. P x \<Longrightarrow> rl_org x = org"
  shows "frame org s0 (s\<lparr>org_roles := update_rows P f (org_roles s)\<rparr>)"
  using assms unfolding frame_def by (auto simp: set_update_rows image_iff)

lemma update_role_row_wf: "preserves tenancy_wf (update_role_row r)"
  by (rule preserves_update_role_row [OF log_stable_wf]) (rule update_roles_wf)

lemma update_role_row_frame: "preserves (frame (rl_org r) s0) (update_role_row r)"
  by (rule preserves_update_role_row [OF log_stable_frame]) (rule update_roles_frame)

lemma delete_role_row_wf: "preserves tenancy_wf (delete_role_row org i)"
  unfolding delete_role_row_def
proof (rule preserves_sql_body [OF log_stable_wf])
  fix s r s'
  assume wf: "tenancy_wf s" and run: "(if \<not> list_ex (\<lambda>r. rl_org r = org \<and> rl_id r = i) (org_roles s) then (Inl RoleNotFound, s)
     else if list_ex (\<lambda>t. tm_role t = i) (teams s) \<or> list_ex (\<lambda>m. mb_role m = i) (memberships s)
     then (Inl fk_violation, s)
     else (Inr (), s\<lparr>org_roles := filter (\<lambda>r. \<not> (rl_org r = org \<and> rl_id r = i)) (org_roles s)\<rparr>)) = (r, s')"
  show "tenancy_wf s'"
  proof (cases "s' = s")
    case False
    with run have "\<forall>t \<in> set (teams s). tm_role t \<noteq> i"
      and s': "s' = s\<lparr>org_roles := filter (\<lambda>r. \<not> (rl_org r = org \<and> rl_id r = i)) (org_roles s)\<rparr>"
      by (auto simp: list_ex_iff split: if_splits)
    then show ?thesis using wf unfolding s' tenancy_wf_def by (auto simp: distinct_map_filter) metis
  qed (simp add: wf)
qed

lemma delete_role_row_frame: "preserves (frame org s0) (delete_role_row org i)"
  unfolding delete_role_row_def
  by (rule preserves_sql_body [OF log_stable_frame]) (auto simp: frame_def split: if_splits)

lemma delete_team_row_wf: "preserves tenancy_wf (delete_team_row org name)"
  unfolding delete_team_row_def
  by (rule preserves_sql_body [OF log_stable_wf]) (auto simp: tenancy_wf_def Let_def split: option.splits)

lemma delete_team_row_frame: "preserves (frame org s0) (delete_team_row org name)"
  unfolding delete_team_row_def
  by (rule preserves_sql_body [OF log_stable_frame]) (auto simp: frame_def Let_def split: option.splits)

text \<open>The copies of a mapping: the team and the role belong to the organization.\<close>

definition copies_of :: "'a tenancy_db_scheme \<Rightarrow> string \<Rightarrow> (team \<times> org_role) list \<Rightarrow> bool" where
  "copies_of s org mps \<longleftrightarrow> (\<forall>(t, r) \<in> set mps. team_of s org (tm_id t) \<and> role_of s org (rl_id r))"

lemma update_team_role_keeps:
  assumes wf: "tenancy_wf s" and t: "team_of s org tid" and r: "role_of s org rid" and fr: "frame org s0 s"
    and run: "update_team_role tid rid s = (res, s')"
  shows "tenancy_wf s' \<and> frame org s0 s' \<and> org_roles s' = org_roles s
    \<and> map (\<lambda>t. (tm_id t, tm_org t)) (teams s') = map (\<lambda>t. (tm_id t, tm_org t)) (teams s)"
  using run [unfolded update_team_role_def]
proof (cases rule: sql_runE)
  case (1 fs)
  then show ?thesis using wf fr by (simp add: tenancy_wf_def frame_def)
next
  case (2 fs)
  let ?ts = "update_rows (\<lambda>t. tm_id t = tid) (\<lambda>t. t\<lparr>tm_role := rid\<rparr>) (teams s)"
  from 2 consider "same_tenants s s'" | "s' = s\<lparr>faults := fs, teams := ?ts\<rparr>"
    "list_ex (\<lambda>t. tm_id t = tid) (teams s) \<longrightarrow> list_ex (\<lambda>r. rl_id r = rid) (org_roles s)"
    by (auto simp: same_tenants_def split: if_splits)
  then show ?thesis
  proof cases
    case 1
    then show ?thesis using wf_same [OF 1 wf] frame_same [OF fr 1] by (simp add: same_tenants_def)
  next
    case 2
    have "map (\<lambda>t. (tm_id t, tm_org t)) ?ts = map (\<lambda>t. (tm_id t, tm_org t)) (teams s)"
      by (rule map_update_rows_same) simp
    moreover have "\<exists>r \<in> set (org_roles s). rl_id r = tm_role x \<and> rl_org r = tm_org x" if x: "x \<in> set ?ts" for x
    proof -
      from x obtain y where y: "y \<in> set (teams s)" "x = (if tm_id y = tid then y\<lparr>tm_role := rid\<rparr> else y)"
        by (auto simp: set_update_rows)
      show ?thesis
      proof (cases "tm_id y = tid")
        case True
        then have "tm_org y = org" using t y(1) by (simp add: team_of_def)
        moreover obtain r where "r \<in> set (org_roles s)" "rl_id r = rid" using 2(2) y(1) True by (auto simp: list_ex_iff)
        ultimately show ?thesis using r y True by (auto simp: role_of_def)
      next
        case False
        then show ?thesis using wf y by (auto simp: tenancy_wf_def)
      qed
    qed
    moreover have "y \<in> set ?ts" if "y \<in> set (teams s)" "tm_org y \<noteq> org" for y
      using that t by (auto simp: set_update_rows team_of_def image_iff)
    ultimately show ?thesis using wf fr 2(1) by (auto simp: tenancy_wf_def frame_def)
  qed
qed


lemma apply_mappings_keeps:
  assumes "tenancy_wf s" and "copies_of s org mps" and "frame org s0 s" and "apply_mappings org mps s = (res, s')"
  shows "tenancy_wf s' \<and> frame org s0 s'"
  using assms
proof (induction mps arbitrary: s res s')
  case Nil
  then show ?case by (simp add: ret_def)
next
  case (Cons tr mps)
  obtain t r where tr: "tr = (t, r)" by fastforce
  from Cons.prems(2) have rest: "copies_of s org mps" and t: "team_of s org (tm_id t)" and r: "role_of s org (rl_id r)"
    by (simp_all add: copies_of_def tr)
  show ?case
  proof (cases "tm_role t = rl_id r")
    case True
    with Cons.IH [OF Cons.prems(1) rest Cons.prems(3)] Cons.prems(4) tr show ?thesis by simp
  next
    case False
    obtain r1 s1 where 1: "get_role_by_id org (tm_role t) s = (r1, s1)" by fastforce
    have st1: "same_tenants s s1" using 1 unfolding get_role_by_id_def
      by (auto elim!: sql_runE simp: same_tenants_def split: option.splits)
    have fr1: "frame org s0 s1" using Cons.prems(3) st1 by (auto simp: frame_def same_tenants_def)
    note wf1 = wf_same [OF st1 Cons.prems(1)]
    have t1: "team_of s1 org (tm_id t)" and r1': "role_of s1 org (rl_id r)" and rest1: "copies_of s1 org mps"
      using t r rest st1 by (simp_all add: team_of_def role_of_def copies_of_def same_tenants_def)
    show ?thesis
    proof (cases r1)
      case (Inl e)
      with Cons.prems(4) tr False 1 have "s' = s1" by (simp add: bindE_def)
      with wf1 fr1 show ?thesis by simp
    next
      case (Inr old)
      obtain r2 s2 where 2: "update_team_role (tm_id t) (rl_id r) s1 = (r2, s2)" by fastforce
      from update_team_role_keeps [OF wf1 t1 r1' fr1 2] have k: "tenancy_wf s2" "frame org s0 s2"
        and ro: "org_roles s2 = org_roles s1"
        and te: "map (\<lambda>t. (tm_id t, tm_org t)) (teams s2) = map (\<lambda>t. (tm_id t, tm_org t)) (teams s1)" by auto
      have "team_of s2 org i \<longleftrightarrow> team_of s1 org i" for i
      proof -
        have "team_of s org i \<longleftrightarrow> (\<forall>p \<in> set (map (\<lambda>t. (tm_id t, tm_org t)) (teams s)). fst p = i \<longrightarrow> snd p = org)"
          for s :: "'a tenancy_db_scheme" by (auto simp: team_of_def)
        then show ?thesis by (simp only: te)
      qed
      then have rest2: "copies_of s2 org mps" using rest1 ro by (simp add: copies_of_def role_of_def)
      obtain r3 s3 where 3: "apply_mappings org mps s2 = (r3, s3)" by fastforce
      have "s' = s2 \<or> s' = s3" using Cons.prems(4) tr False 1 Inr 2 3
        by (auto simp: bindE_def thenE_def ret_def split: sum.splits)
      with k Cons.IH [OF k(1) rest2 k(2) 3] show ?thesis by auto
    qed
  qed
qed

lemma apply_mappings_unchanged:
  "apply_mappings org mps s = (Inr [], s') \<Longrightarrow> same_tenants s s'"
proof (induction mps arbitrary: s)
  case (Cons tr mps)
  obtain t r where tr: "tr = (t, r)" by fastforce
  show ?case
  proof (cases "tm_role t = rl_id r")
    case True
    with Cons tr show ?thesis by simp
  next
    case False
    with Cons.prems tr show ?thesis by (auto elim!: bindE_okE thenE_okE ret_okE)
  qed
qed (simp add: ret_def)

section \<open>The transactions keep the guardrail\<close>

lemma guardrail_check:
  assumes "admin_guardrail_holds org s = (Inr ok, s')"
  shows "ok \<longleftrightarrow> has_admin_team s' org" and "same_tenants s s'"
  using assms unfolding admin_guardrail_holds_def has_admin_team_def same_tenants_def
  by (auto elim!: sql_okE asks_okE simp: list_ex_iff)

lemma tx_guarded:
  assumes g: "guarded s" and run: "with_tx body s = (res, s')"
    and wf: "\<And>s1 x s2. same_tenants s s1 \<Longrightarrow> body s1 = (Inr x, s2) \<Longrightarrow> tenancy_wf s2 \<and> frame org s1 s2 \<and> has_admin_team s2 org"
  shows "guarded s'"
proof (cases res)
  case (Inl e)
  with run have "same_tables s s'" by (auto dest: with_tx_abort)
  then show ?thesis using g guarded_same same_tables_tenants by blast
next
  case (Inr x)
  with run obtain fs fs' s2 where b: "body (s\<lparr>faults := fs\<rparr>) = (Inr x, s2)" and s': "s' = s2\<lparr>faults := fs'\<rparr>"
    by (auto elim: with_tx_okE)
  have st: "same_tenants s (s\<lparr>faults := fs\<rparr>)" by (simp add: same_tenants_def)
  from wf [OF st b] have "tenancy_wf s2" "frame org (s\<lparr>faults := fs\<rparr>) s2" "has_admin_team s2 org" by auto
  with guarded_frame [OF guarded_same [OF st g]] have "guarded s2" by blast
  moreover have "same_tenants s2 s'" unfolding s' by (simp add: same_tenants_def)
  ultimately show ?thesis using guarded_same by blast
qed

lemma emit_same: "emit ev org typ p s = (Inr u, s') \<Longrightarrow> same_tenants s s'"
  by (erule emit_okE) (simp add: same_tenants_def logged_def)

lemma has_admin_after: "same_tenants s s' \<Longrightarrow> has_admin_team s org \<Longrightarrow> has_admin_team s' org"
  by (simp add: has_admin_same)

lemma lock_same: "lock_org_for_guardrail org s = (Inr u, s') \<Longrightarrow> same_tenants s s'"
  unfolding lock_org_for_guardrail_def by (erule sql_okE) (auto simp: same_tenants_def split: if_splits)

lemma team_ids_same: "list_team_ids_for_role i s = (Inr u, s') \<Longrightarrow> same_tenants s s'"
  unfolding list_team_ids_for_role_def by (auto elim!: sql_okE asks_okE simp: same_tenants_def)

lemma frame_same_left: "same_tenants s0 s \<Longrightarrow> frame org s s' \<Longrightarrow> frame org s0 s'"
  by (auto simp: frame_def same_tenants_def)

lemma update_role_tx_guarded:
  assumes g: "guarded s" and run: "update_role_tx actor r s = (res, s')"
  shows "guarded s'"
proof (rule tx_guarded [OF g run [unfolded update_role_tx_def]])
  fix s1 x s2
  assume st: "same_tenants s s1" and body: "thenE (lock_org_for_guardrail (rl_org r))
     (bindE (update_role_row r) (\<lambda>old.
      bindE (admin_guardrail_holds (rl_org r)) (\<lambda>ok.
        if \<not> ok then throw AdminGuardrailErr
        else bindE (list_team_ids_for_role (rl_id r)) (\<lambda>team_ids.
          emit (role_audit r actor ''role.updated'' (role_json r)) (rl_org r) ''role.updated''
            (role_payload r old (rl_permissions r) team_ids))))) s1 = (Inr x, s2)"
  from body obtain u a old b ok c ids d where 1: "lock_org_for_guardrail (rl_org r) s1 = (Inr u, a)"
    and 2: "update_role_row r a = (Inr old, b)" and 3: "admin_guardrail_holds (rl_org r) b = (Inr ok, c)" and ok: "ok"
    and 4: "list_team_ids_for_role (rl_id r) c = (Inr ids, d)"
    and 5: "emit (role_audit r actor ''role.updated'' (role_json r)) (rl_org r) ''role.updated''
            (role_payload r old (rl_permissions r) ids) d = (Inr x, s2)"
    by (auto elim!: bindE_okE thenE_okE throw_okE split: if_splits)
  have wf1: "tenancy_wf a" by (rule guarded_wf [OF g st lock_same [OF 1]])
  have wf: "tenancy_wf b" by (rule preservesD [OF update_role_row_wf wf1 2])
  have fr: "frame (rl_org r) a b" by (rule preservesD [OF update_role_row_frame frame_refl 2])
  note same = same_tenants_trans [OF guardrail_check(2) [OF 3] same_tenants_trans [OF team_ids_same [OF 4] emit_same [OF 5]]]
  have "has_admin_team s2 (rl_org r)"
    using guardrail_check(1) [OF 3] ok has_admin_after [OF same_tenants_trans [OF team_ids_same [OF 4] emit_same [OF 5]]] by simp
  then show "tenancy_wf s2 \<and> frame (rl_org r) s1 s2 \<and> has_admin_team s2 (rl_org r)"
    using wf_same [OF same wf] frame_same [OF frame_same_left [OF lock_same [OF 1] fr] same] by blast
qed

lemma delete_role_tx_guarded:
  assumes g: "guarded s" and run: "delete_role_tx actor r s = (res, s')"
  shows "guarded s'"
proof (rule tx_guarded [OF g run [unfolded delete_role_tx_def]])
  fix s1 x s2
  assume st: "same_tenants s s1" and body: "thenE (lock_org_for_guardrail (rl_org r))
     (bindE (list_team_ids_for_role (rl_id r)) (\<lambda>team_ids.
        if team_ids \<noteq> [] then throw RoleInUse
        else thenE (delete_role_row (rl_org r) (rl_id r))
          (bindE (admin_guardrail_holds (rl_org r)) (\<lambda>ok.
             if \<not> ok then throw AdminGuardrailErr
             else emit (role_audit r actor ''role.deleted'' (JObj [(''name'', JStr (rl_name r))])) (rl_org r) ''role.deleted''
                    (role_payload r (rl_permissions r) [] []))))) s1 = (Inr x, s2)"
  from body obtain u a ids b v c ok d where 1: "lock_org_for_guardrail (rl_org r) s1 = (Inr u, a)"
    and 2: "list_team_ids_for_role (rl_id r) a = (Inr ids, b)"
    and 3: "delete_role_row (rl_org r) (rl_id r) b = (Inr v, c)"
    and 4: "admin_guardrail_holds (rl_org r) c = (Inr ok, d)" and ok: "ok"
    and 5: "emit (role_audit r actor ''role.deleted'' (JObj [(''name'', JStr (rl_name r))])) (rl_org r) ''role.deleted''
                    (role_payload r (rl_permissions r) [] []) d = (Inr x, s2)"
    by (auto elim!: bindE_okE thenE_okE throw_okE split: if_splits)
  note pre = same_tenants_trans [OF lock_same [OF 1] team_ids_same [OF 2]]
  have wf1: "tenancy_wf b" by (rule guarded_wf [OF g st pre])
  have wf: "tenancy_wf c" by (rule preservesD [OF delete_role_row_wf wf1 3])
  have fr: "frame (rl_org r) b c" by (rule preservesD [OF delete_role_row_frame frame_refl 3])
  note same = same_tenants_trans [OF guardrail_check(2) [OF 4] emit_same [OF 5]]
  have "has_admin_team s2 (rl_org r)"
    using guardrail_check(1) [OF 4] ok has_admin_after [OF emit_same [OF 5]] by simp
  then show "tenancy_wf s2 \<and> frame (rl_org r) s1 s2 \<and> has_admin_team s2 (rl_org r)"
    using wf_same [OF same wf] frame_same [OF frame_same_left [OF pre fr] same] by blast
qed

lemma delete_team_tx_guarded:
  assumes g: "guarded s" and run: "delete_team_tx actor org name r s = (res, s')"
  shows "guarded s'"
proof (rule tx_guarded [OF g run [unfolded delete_team_tx_def]])
  fix s1 x s2
  assume st: "same_tenants s s1" and body: "thenE (lock_org_for_guardrail org)
     (bindE (delete_team_row org name) (\<lambda>t.
      bindE (admin_guardrail_holds org) (\<lambda>ok.
        if \<not> ok then throw AdminGuardrailErr
        else thenE (emit (audit_ev org actor ''team.deleted'' ''team'' (tm_id t)
               (JObj [(''team'', JStr (tm_name t)), (''role'', JStr (rl_name r))])) org ''team.deleted''
               (team_payload (t\<lparr>tm_org := org\<rparr>) r))
             (ret t)))) s1 = (Inr x, s2)"
  from body obtain u a t b ok c v where 1: "lock_org_for_guardrail org s1 = (Inr u, a)"
    and 2: "delete_team_row org name a = (Inr t, b)" and 3: "admin_guardrail_holds org b = (Inr ok, c)" and ok: "ok"
    and 4: "emit (audit_ev org actor ''team.deleted'' ''team'' (tm_id t)
               (JObj [(''team'', JStr (tm_name t)), (''role'', JStr (rl_name r))])) org ''team.deleted''
               (team_payload (t\<lparr>tm_org := org\<rparr>) r) c = (Inr v, s2)"
    by (auto elim!: bindE_okE thenE_okE throw_okE ret_okE split: if_splits)
  have wf1: "tenancy_wf a" by (rule guarded_wf [OF g st lock_same [OF 1]])
  have wf: "tenancy_wf b" by (rule preservesD [OF delete_team_row_wf wf1 2])
  have fr: "frame org a b" by (rule preservesD [OF delete_team_row_frame frame_refl 2])
  note same = same_tenants_trans [OF guardrail_check(2) [OF 3] emit_same [OF 4]]
  have "has_admin_team s2 org"
    using guardrail_check(1) [OF 3] ok has_admin_after [OF emit_same [OF 4]] by simp
  then show "tenancy_wf s2 \<and> frame org s1 s2 \<and> has_admin_team s2 org"
    using wf_same [OF same wf] frame_same [OF frame_same_left [OF lock_same [OF 1] fr] same] by blast
qed


lemma set_mappings_tx_guarded:
  assumes g: "guarded s" and copies: "copies_of s org mps" and run: "set_mappings_tx actor org mps s = (res, s')"
  shows "guarded s'"
proof (rule tx_guarded [OF g run [unfolded set_mappings_tx_def]])
  fix s1 x s2
  assume st: "same_tenants s s1" and body: "thenE (lock_org_for_guardrail org)
     (bindE (apply_mappings org mps) (\<lambda>changes.
        if changes = [] then ret []
        else bindE (admin_guardrail_holds org) (\<lambda>ok.
          if \<not> ok then throw AdminGuardrailErr
          else thenE (emit (audit_ev org actor ''rbac.mappings.updated'' ''organization'' org (mappings_payload org changes))
                 org ''rbac.mappings.updated'' (mappings_payload org changes))
            (ret changes)))) s1 = (Inr x, s2)"
  from body obtain u a where 1: "lock_org_for_guardrail org s1 = (Inr u, a)" and rest: "bindE (apply_mappings org mps) (\<lambda>changes.
        if changes = [] then ret []
        else bindE (admin_guardrail_holds org) (\<lambda>ok.
          if \<not> ok then throw AdminGuardrailErr
          else thenE (emit (audit_ev org actor ''rbac.mappings.updated'' ''organization'' org (mappings_payload org changes))
                 org ''rbac.mappings.updated'' (mappings_payload org changes))
            (ret changes))) a = (Inr x, s2)" by (rule thenE_okE)
  note pre = same_tenants_trans [OF st lock_same [OF 1]]
  have org: "org \<in> og_id ` set (organizations a)"
    using 1 unfolding lock_org_for_guardrail_def by (auto elim!: sql_okE simp: list_ex_iff split: if_splits)
  from rest obtain ch b where 2: "apply_mappings org mps a = (Inr ch, b)" and tl: "(if ch = [] then ret []
        else bindE (admin_guardrail_holds org) (\<lambda>ok.
          if \<not> ok then throw AdminGuardrailErr
          else thenE (emit (audit_ev org actor ''rbac.mappings.updated'' ''organization'' org (mappings_payload org ch))
                 org ''rbac.mappings.updated'' (mappings_payload org ch))
            (ret ch))) b = (Inr x, s2)" by (rule bindE_okE)
  have wf1: "tenancy_wf a" by (rule guarded_wf [OF g st lock_same [OF 1]])
  have "copies_of a org mps" using copies pre by (simp add: copies_of_def team_of_def role_of_def same_tenants_def)
  from apply_mappings_keeps [OF wf1 this frame_refl 2] have wf: "tenancy_wf b" and fr: "frame org a b" by auto
  show "tenancy_wf s2 \<and> frame org s1 s2 \<and> has_admin_team s2 org"
  proof (cases "ch = []")
    case True
    then have b: "s2 = b" using tl by (auto elim!: ret_okE)
    have "same_tenants a b" by (rule apply_mappings_unchanged [OF 2 [unfolded True]])
    moreover have "has_admin_team a org"
      using guarded_same [OF pre g] org by (auto simp: guarded_def)
    ultimately show ?thesis
      using b wf frame_same_left [OF lock_same [OF 1] fr] has_admin_after by blast
  next
    case False
    with tl obtain ok c v where 3: "admin_guardrail_holds org b = (Inr ok, c)" and ok: "ok"
      and 4: "emit (audit_ev org actor ''rbac.mappings.updated'' ''organization'' org (mappings_payload org ch))
                 org ''rbac.mappings.updated'' (mappings_payload org ch) c = (Inr v, s2)"
      by (auto elim!: bindE_okE thenE_okE throw_okE ret_okE split: if_splits)
    note same = same_tenants_trans [OF guardrail_check(2) [OF 3] emit_same [OF 4]]
    have "has_admin_team s2 org"
      using guardrail_check(1) [OF 3] ok has_admin_after [OF emit_same [OF 4]] by simp
    then show ?thesis
      using wf_same [OF same wf] frame_same [OF frame_same_left [OF lock_same [OF 1] fr] same] by blast
  qed
qed

section \<open>Insertions only add rows\<close>

definition grown :: "string \<Rightarrow> 'a tenancy_db_scheme \<Rightarrow> 'a tenancy_db_scheme \<Rightarrow> bool" where
  "grown org s s' \<longleftrightarrow> set (teams s) \<subseteq> set (teams s') \<and> set (org_roles s) \<subseteq> set (org_roles s')
     \<and> og_id ` set (organizations s') \<subseteq> insert org (og_id ` set (organizations s))"

lemma grown_refl [simp]: "grown org s s"
  by (auto simp: grown_def)

lemma log_stable_grown: "log_stable (grown org s0)"
  by (simp add: log_stable_def grown_def)

lemma grown_admin: "grown org s s' \<Longrightarrow> has_admin_team s other \<Longrightarrow> has_admin_team s' other"
  unfolding grown_def has_admin_team_def by blast

lemma guarded_grown:
  assumes "guarded s" and "grown org s s'" and "tenancy_wf s'" and "has_admin_team s' org \<or> org \<in> og_id ` set (organizations s)"
  shows "guarded s'"
  unfolding guarded_def
proof (intro conjI ballI)
  show "tenancy_wf s'" by fact
  fix g assume "g \<in> set (organizations s')"
  then have "og_id g \<in> insert org (og_id ` set (organizations s))" using assms(2) by (auto simp: grown_def)
  then show "has_admin_team s' (og_id g)"
    using assms(1,4) grown_admin [OF assms(2)] by (auto simp: guarded_def)
qed

lemma insert_role_grown: "grown org s0 s \<Longrightarrow> insert_role r s = (res, s') \<Longrightarrow> grown org s0 s'"
  by (erule insert_role_cases) (auto simp: grown_def same_tenants_def)

lemma create_team_row_grown: "grown org s0 s \<Longrightarrow> create_team_row t s = (res, s') \<Longrightarrow> grown org s0 s'"
  by (erule create_team_row_cases) (auto simp: grown_def same_tenants_def)

lemma grown_same: "grown org s0 s \<Longrightarrow> same_tenants s s' \<Longrightarrow> grown org s0 s'"
  by (auto simp: grown_def same_tenants_def)

lemma grown_same_left: "same_tenants s0 s \<Longrightarrow> grown org s s' \<Longrightarrow> grown org s0 s'"
  by (auto simp: grown_def same_tenants_def)

lemma tx_grows:
  assumes g: "guarded s" and run: "with_tx body s = (res, s')"
    and grow: "\<And>s1 x s2. same_tenants s s1 \<Longrightarrow> body s1 = (Inr x, s2) \<Longrightarrow>
      tenancy_wf s2 \<and> grown org s1 s2 \<and> (has_admin_team s2 org \<or> org \<in> og_id ` set (organizations s1))"
  shows "guarded s'"
proof (cases res)
  case (Inl e)
  with run have "same_tables s s'" by (auto dest: with_tx_abort)
  then show ?thesis using g guarded_same same_tables_tenants by blast
next
  case (Inr x)
  with run obtain fs fs' s2 where b: "body (s\<lparr>faults := fs\<rparr>) = (Inr x, s2)" and s': "s' = s2\<lparr>faults := fs'\<rparr>"
    by (auto elim: with_tx_okE)
  have st: "same_tenants s (s\<lparr>faults := fs\<rparr>)" by (simp add: same_tenants_def)
  from grow [OF st b] have "guarded s2" using guarded_grown [OF guarded_same [OF st g]] by blast
  moreover have "same_tenants s2 s'" unfolding s' by (simp add: same_tenants_def)
  ultimately show ?thesis using guarded_same by blast
qed

lemma create_role_tx_guarded:
  assumes g: "guarded s" and run: "create_role_tx actor r s = (res, s')"
  shows "guarded s'"
proof (rule tx_grows [OF g run [unfolded create_role_tx_def]])
  fix s1 x s2
  assume st: "same_tenants s s1" and body: "bindE (create_role_row r) (\<lambda>r.
     thenE (emit (role_audit r actor ''role.created'' (role_json r)) (rl_org r) ''role.created''
              (role_payload r [] (rl_permissions r) []))
       (ret r)) s1 = (Inr x, s2)"
  from body obtain row a u where 1: "create_role_row r s1 = (Inr row, a)"
    and 2: "emit (role_audit row actor ''role.created'' (role_json row)) (rl_org row) ''role.created''
              (role_payload row [] (rl_permissions row) []) a = (Inr u, s2)"
    by (auto elim!: bindE_okE thenE_okE ret_okE)
  from 1 obtain fs where ins: "insert_role (r\<lparr>rl_builtin := False\<rparr>) (s1\<lparr>faults := fs\<rparr>) = (Inr row, a)"
    unfolding create_role_row_def by (rule sql_okE)
  have st1: "same_tenants s1 (s1\<lparr>faults := fs\<rparr>)" by (simp add: same_tenants_def)
  have "tenancy_wf a" by (rule insert_role_wf [OF guarded_wf [OF g st st1] ins])
  moreover have "grown (rl_org r) (s1\<lparr>faults := fs\<rparr>) a" by (rule insert_role_grown [OF grown_refl ins])
  moreover have "rl_org r \<in> og_id ` set (organizations s1)"
    using ins by (cases rule: insert_role_cases) auto
  ultimately show "tenancy_wf s2 \<and> grown (rl_org r) s1 s2 \<and> (has_admin_team s2 (rl_org r) \<or> rl_org r \<in> og_id ` set (organizations s1))"
    using emit_same [OF 2] wf_same grown_same grown_same_left [OF st1] by blast
qed

lemma create_team_tx_guarded:
  assumes g: "guarded s" and role: "role_of s (tm_org t) (tm_role t)" and run: "create_team_tx actor t r s = (res, s')"
  shows "guarded s'"
proof (rule tx_grows [OF g run [unfolded create_team_tx_def]])
  fix s1 x s2
  assume st: "same_tenants s s1" and body: "bindE (create_team_row t) (\<lambda>t.
     thenE (emit (audit_ev (tm_org t) actor ''team.created'' ''team'' (tm_id t)
              (JObj [(''team'', JStr (tm_name t)), (''role'', JStr (rl_name r))])) (tm_org t) ''team.created'' (team_payload t r))
       (ret t)) s1 = (Inr x, s2)"
  from body obtain row a u where 1: "create_team_row t s1 = (Inr row, a)"
    and 2: "emit (audit_ev (tm_org row) actor ''team.created'' ''team'' (tm_id row)
              (JObj [(''team'', JStr (tm_name row)), (''role'', JStr (rl_name r))])) (tm_org row) ''team.created'' (team_payload row r) a
            = (Inr u, s2)"
    by (auto elim!: bindE_okE thenE_okE ret_okE)
  have wf1: "tenancy_wf s1" using guarded_wf [OF g st same_tenants_refl] .
  have "role_of s1 (tm_org t) (tm_role t)" using role st by (simp add: role_of_def same_tenants_def)
  from create_team_row_wf [OF wf1 this 1] have "tenancy_wf a" .
  moreover have "grown (tm_org t) s1 a" by (rule create_team_row_grown [OF grown_refl 1])
  moreover have "tm_org t \<in> og_id ` set (organizations s1)"
    using 1
  proof (cases rule: create_team_row_cases)
    case (2 row')
    then obtain x where "x \<in> set (org_roles s1)" "rl_id x = tm_role t" by blast
    with \<open>role_of s1 (tm_org t) (tm_role t)\<close> wf1 show ?thesis by (auto simp: role_of_def tenancy_wf_def)
  qed simp
  ultimately show "tenancy_wf s2 \<and> grown (tm_org t) s1 s2 \<and> (has_admin_team s2 (tm_org t) \<or> tm_org t \<in> og_id ` set (organizations s1))"
    using emit_same [OF 2] wf_same grown_same by blast
qed


section \<open>A new tenant has an administrator team\<close>

lemma record_audit_same: "record_audit ev s = (Inr u, s') \<Longrightarrow> same_tenants s s'"
  by (erule record_audit_okE) (simp add: same_tenants_def)

lemma grown_trans: "grown org s s1 \<Longrightarrow> grown org s1 s2 \<Longrightarrow> grown org s s2"
  unfolding grown_def by blast

lemma get_role_by_name_okD:
  assumes "get_role_by_name org name s = (Inr r, s')"
  shows "same_tenants s s'" and "r \<in> set (org_roles s)" and "rl_org r = org" and "rl_name r = name"
  using assms unfolding get_role_by_name_def
  by (auto elim!: sql_okE dest: select_row_SomeD simp: same_tenants_def split: option.splits)

lemma role_of_row: "tenancy_wf s \<Longrightarrow> r \<in> set (org_roles s) \<Longrightarrow> role_of s (rl_org r) (rl_id r)"
  unfolding role_of_def tenancy_wf_def by (metis distinct_key_unique)

lemma default_team_step:
  assumes wf: "tenancy_wf s" and run: "create_default_teams actor org ((name, rn) # dts) (ts, seeds) s = (Inr res, s')"
  obtains r row s1 ts' seeds' where "tenancy_wf s1" "grown (og_id org) s s1" "r \<in> set (org_roles s)" "rl_org r = og_id org"
    "rl_name r = rn" "r \<in> set (org_roles s1)" "row \<in> set (teams s1)" "tm_org row = og_id org" "tm_role row = rl_id r"
    "create_default_teams actor org dts (ts', seeds') s1 = (Inr res, s')"
proof -
  let ?t = "\<lambda>r. \<lparr>tm_id = [], tm_org = og_id org, tm_name = name, tm_display = [], tm_role = rl_id r,
        tm_role_name = rl_name r, tm_path = group_path (og_slug org) name, tm_created = 0\<rparr>"
  from run obtain r a t b u c where 1: "get_role_by_name (og_id org) rn s = (Inr r, a)"
    and 2: "create_team_row (?t r) a = (Inr t, b)"
    and 3: "record_audit (audit_ev (og_id org) actor ''team.created'' ''team'' (tm_id t) JNull) b = (Inr u, c)"
    and 4: "create_default_teams actor org dts (ts @ [t],
          seeds @ [\<lparr>sd_team = tm_id t, sd_name = tm_name t, sd_permissions = rl_permissions r\<rparr>]) c = (Inr res, s')"
    by (auto elim!: bindE_okE thenE_okE)
  note r = get_role_by_name_okD [OF 1]
  have wfa: "tenancy_wf a" by (rule wf_same [OF r(1) wf])
  have ra: "r \<in> set (org_roles a)" using r(1,2) by (simp add: same_tenants_def)
  have "role_of a (tm_org (?t r)) (tm_role (?t r))" using role_of_row [OF wfa ra] r(3) by simp
  from create_team_row_wf [OF wfa this 2] have wfb: "tenancy_wf b" .
  have "grown (og_id org) s b"
    using create_team_row_grown [OF grown_refl 2] grown_same_left [OF r(1)] by blast
  then have grc: "grown (og_id org) s c" using record_audit_same [OF 3] grown_same by blast
  have wfc: "tenancy_wf c" by (rule wf_same [OF record_audit_same [OF 3] wfb])
  from 2 obtain row where row: "teams b = teams a @ [row]" "org_roles b = org_roles a" "tm_org row = og_id org" "tm_role row = rl_id r"
    by (cases rule: create_team_row_cases) auto
  then have "row \<in> set (teams c)" "r \<in> set (org_roles c)" using record_audit_same [OF 3] ra by (simp_all add: same_tenants_def)
  with that [OF wfc grc r(2-4) _ _ row(3,4) 4] show ?thesis by blast
qed

lemma default_teams_keep:
  assumes "tenancy_wf s" and "create_default_teams actor org dts acc s = (Inr res, s')"
  shows "tenancy_wf s' \<and> grown (og_id org) s s'"
  using assms
proof (induction dts arbitrary: s acc)
  case Nil
  then show ?case by (cases acc) (simp add: ret_def)
next
  case (Cons d dts)
  obtain name rn where d: "d = (name, rn)" by fastforce
  obtain ts seeds where acc: "acc = (ts, seeds)" by fastforce
  from Cons.prems(2) [unfolded d acc] show ?case
  proof (rule default_team_step [OF Cons.prems(1)])
    fix r row s1 ts' seeds'
    assume "tenancy_wf s1" and g: "grown (og_id org) s s1"
      and "create_default_teams actor org dts (ts', seeds') s1 = (Inr res, s')"
    then show ?thesis using Cons.IH [of s1] grown_trans [OF g] by blast
  qed
qed

text \<open>The roles of a new organization are the built-in ones.\<close>

definition builtin_only :: "string \<Rightarrow> 'a tenancy_db_scheme \<Rightarrow> bool" where
  "builtin_only org s \<longleftrightarrow> (\<forall>r \<in> set (org_roles s). rl_org r = org \<longrightarrow>
     (\<exists>b \<in> set builtin_roles. rl_name r = br_name b \<and> rl_permissions r = br_permissions b))"

lemma seed_roles_builtin:
  assumes "set bs \<subseteq> set builtin_roles"
  shows "preserves (builtin_only org :: 'a tenancy_db_scheme \<Rightarrow> bool) (seed_roles org bs)"
  using assms
proof (induction bs)
  case (Cons b bs)
  have stable: "log_stable (builtin_only org :: 'a tenancy_db_scheme \<Rightarrow> bool)" by (simp add: log_stable_def builtin_only_def)
  show ?case unfolding seed_roles.simps
  proof (rule preserves_thenE)
    let ?r = "\<lparr>rl_id = [], rl_org = org, rl_name = br_name b, rl_display = br_display b,
             rl_description = br_description b, rl_builtin = True, rl_permissions = br_permissions b,
             rl_created = 0, rl_updated = 0\<rparr>"
    show "preserves (builtin_only org :: 'a tenancy_db_scheme \<Rightarrow> bool) (sql (\<lambda>s. if list_ex (\<lambda>x. rl_org x = org \<and> rl_name x = br_name b) (org_roles s)
        then (Inr (), s) else thenE (insert_role ?r) (ret ()) s))"
    proof (rule preserves_sql_body [OF stable])
      fix s res s'
      assume I: "builtin_only org s" and run: "(if list_ex (\<lambda>x. rl_org x = org \<and> rl_name x = br_name b) (org_roles s)
        then (Inr (), s) else thenE (insert_role ?r) (ret ()) s) = (res, s')"
      show "builtin_only org s'"
      proof (cases "s' = s")
        case False
        with run have t: "thenE (insert_role ?r) (ret ()) s = (res, s')" by (auto split: if_splits)
        obtain r1 s1 where ins: "insert_role ?r s = (r1, s1)" by fastforce
        from t ins have "s' = s1" by (auto simp: thenE_def bindE_def ret_def split: sum.splits)
        moreover have "builtin_only org s1"
          using ins
        proof (cases rule: insert_role_cases)
          case 1
          then show ?thesis using I by (simp add: builtin_only_def same_tenants_def)
        next
          case (2 row)
          then show ?thesis using I Cons.prems by (auto simp: builtin_only_def)
        qed
        ultimately show ?thesis by simp
      qed (simp add: I)
    qed
    show "preserves (builtin_only org :: 'a tenancy_db_scheme \<Rightarrow> bool) (seed_roles org bs)" using Cons by simp
  qed
qed (simp add: preserves_ret)

lemma builtin_admin: "b \<in> set builtin_roles \<Longrightarrow> br_name b = BuiltinRoleAdmin \<Longrightarrow> PermTenantAdmin \<in> set (br_permissions b)"
  by (auto simp: builtin_roles_def Let_def BuiltinRoleAdmin_def BuiltinRoleOperator_def BuiltinRoleEditor_def
      BuiltinRoleViewer_def permission_catalog_def perm_entry_def)

lemma tenant_tx_guarded:
  assumes g: "guarded s" and run: "tenant_tx actor org s = (res, s')"
  shows "guarded s'"
proof (rule tx_grows [OF g run [unfolded tenant_tx_def]])
  fix s1 x s2
  assume st: "same_tenants s s1" and body: "bindE (create_organization org) (\<lambda>row.
     thenE (seed_builtin_roles (og_id org))
       (bindE (create_default_teams actor org default_teams ([], [])) (\<lambda>(ts, seeds).
          thenE (emit (audit_ev (og_id org) actor ''tenant.created'' ''organization'' (og_id org) JNull)
                   (og_id org) ''tenant.created'' (tenant_created_payload (og_id org) (og_slug org) seeds))
            (ret (row, ts))))) s1 = (Inr x, s2)"
  from body obtain row a where 1: "create_organization org s1 = (Inr row, a)" and b1: "thenE (seed_builtin_roles (og_id org))
       (bindE (create_default_teams actor org default_teams ([], [])) (\<lambda>(ts, seeds).
          thenE (emit (audit_ev (og_id org) actor ''tenant.created'' ''organization'' (og_id org) JNull)
                   (og_id org) ''tenant.created'' (tenant_created_payload (og_id org) (og_slug org) seeds))
            (ret (row, ts)))) a = (Inr x, s2)" by (rule bindE_okE)
  from b1 obtain u b where 2: "seed_builtin_roles (og_id org) a = (Inr u, b)"
    and b2: "bindE (create_default_teams actor org default_teams ([], [])) (\<lambda>(ts, seeds).
          thenE (emit (audit_ev (og_id org) actor ''tenant.created'' ''organization'' (og_id org) JNull)
                   (og_id org) ''tenant.created'' (tenant_created_payload (og_id org) (og_slug org) seeds))
            (ret (row, ts))) b = (Inr x, s2)" by (rule thenE_okE)
  from b2 obtain tss c where 3: "create_default_teams actor org default_teams ([], []) b = (Inr tss, c)"
    and b3: "(case tss of (ts, seeds) \<Rightarrow>
          thenE (emit (audit_ev (og_id org) actor ''tenant.created'' ''organization'' (og_id org) JNull)
                   (og_id org) ''tenant.created'' (tenant_created_payload (og_id org) (og_slug org) seeds))
            (ret (row, ts))) c = (Inr x, s2)" by (rule bindE_okE)
  from b3 have same: "same_tenants c s2"
    by (auto split: prod.splits elim!: thenE_okE ret_okE dest: emit_same)
  have wf1: "tenancy_wf s1" by (rule guarded_wf [OF g st same_tenants_refl])
  have new: "og_id org \<notin> og_id ` set (organizations s1)" and ra: "org_roles a = org_roles s1" and ta: "teams a = teams s1"
    and oa: "og_id ` set (organizations a) = insert (og_id org) (og_id ` set (organizations s1))"
    using 1 unfolding create_organization_def by (auto elim!: sql_okE simp: Let_def list_ex_iff split: if_splits)
  have wfa: "tenancy_wf a" using wf1 ra ta oa by (auto simp: tenancy_wf_def)
  have gra: "grown (og_id org) s1 a" using ra ta oa by (auto simp: grown_def)
  have wfb: "tenancy_wf b"
    by (rule preservesD [OF preserves_seed_roles [OF log_stable_wf] wfa 2 [unfolded seed_builtin_roles_def]]) (rule insert_role_wf)
  have grb: "grown (og_id org) a b"
    by (rule preservesD [OF preserves_seed_roles [OF log_stable_grown] grown_refl 2 [unfolded seed_builtin_roles_def]])
       (rule insert_role_grown)
  have "rl_org r \<noteq> og_id org" if "r \<in> set (org_roles a)" for r
    using wf1 new ra that unfolding tenancy_wf_def by metis
  then have "builtin_only (og_id org) a" by (simp add: builtin_only_def)
  then have bb: "builtin_only (og_id org) b"
    using preservesD [OF seed_roles_builtin [OF subset_refl]] 2 [unfolded seed_builtin_roles_def] by blast
  from default_teams_keep [OF wfb 3] have wfc: "tenancy_wf c" and grc: "grown (og_id org) b c" by auto
  have "has_admin_team c (og_id org)"
    using 3 [unfolded default_teams_def]
  proof (rule default_team_step [OF wfb])
    fix r row1 d ts' seeds'
    assume d: "tenancy_wf d" "r \<in> set (org_roles b)" "rl_org r = og_id org" "rl_name r = BuiltinRoleAdmin"
      "r \<in> set (org_roles d)" "row1 \<in> set (teams d)" "tm_org row1 = og_id org" "tm_role row1 = rl_id r"
      and rest: "create_default_teams actor org [(PlatformTeamName, BuiltinRoleOperator),
        (DevelopersTeamName, BuiltinRoleEditor), (ViewersTeamName, BuiltinRoleViewer)] (ts', seeds') d = (Inr tss, c)"
    from bb d(2-4) builtin_admin have "PermTenantAdmin \<in> set (rl_permissions r)"
      unfolding builtin_only_def by metis
    with d(5-8) have "has_admin_team d (og_id org)" unfolding has_admin_team_def by metis
    moreover have "grown (og_id org) d c" using default_teams_keep [OF d(1) rest] by simp
    ultimately show ?thesis using grown_admin by blast
  qed
  then show "tenancy_wf s2 \<and> grown (og_id org) s1 s2 \<and> (has_admin_team s2 (og_id org) \<or> og_id org \<in> og_id ` set (organizations s1))"
    using wf_same [OF same wfc] grown_same [OF grown_trans [OF gra grown_trans [OF grb grc]] same] has_admin_after [OF same] by blast
qed


section \<open>The system\<close>

text \<open>The display name of a team is not read by the guardrail.\<close>

lemma team_rows_guarded:
  assumes g: "guarded s" and ts: "teams s' = update_rows P f (teams s)" and f: "\<And>t. tm_org (f t) = tm_org t \<and> tm_role (f t) = tm_role t"
    and "org_roles s' = org_roles s" and "og_id ` set (organizations s') = og_id ` set (organizations s)"
  shows "guarded s'"
proof -
  let ?h = "\<lambda>t. if P t then f t else t"
  have h: "tm_org (?h t) = tm_org t" "tm_role (?h t) = tm_role t" for t using f by auto
  have rows: "set (teams s') = ?h ` set (teams s)" unfolding ts by (simp add: set_update_rows)
  have adm: "has_admin_team s' org" if a: "has_admin_team s org" for org
  proof -
    from a obtain t r where "t \<in> set (teams s)" "tm_org t = org" "r \<in> set (org_roles s)" "rl_id r = tm_role t"
      "PermTenantAdmin \<in> set (rl_permissions r)" by (auto simp: has_admin_team_def)
    then show ?thesis unfolding has_admin_team_def assms(4) rows using h by (intro bexI [of _ "?h t"]) auto
  qed
  have "tenancy_wf s'" using g f assms(4,5) unfolding guarded_def tenancy_wf_def rows by auto
  moreover have "has_admin_team s' (og_id g')" if "g' \<in> set (organizations s')" for g'
  proof -
    from that assms(5) have "og_id g' \<in> og_id ` set (organizations s)" by blast
    then show ?thesis using g adm by (auto simp: guarded_def)
  qed
  ultimately show ?thesis by (simp add: guarded_def)
qed

lemma update_team_guarded:
  assumes g: "guarded s" and run: "with_tx (bindE (update_team_display_name org name disp) f) s = (res, s')"
    and f: "\<And>t s1 x s2. f t s1 = (Inr x, s2) \<Longrightarrow> same_tenants s1 s2"
  shows "guarded s'"
proof (cases res)
  case (Inl e)
  with run have "same_tables s s'" by (auto dest: with_tx_abort)
  then show ?thesis using g guarded_same same_tables_tenants by blast
next
  case (Inr x)
  from run [unfolded Inr] obtain fs fs' s2 where b: "bindE (update_team_display_name org name disp) f (s\<lparr>faults := fs\<rparr>) = (Inr x, s2)"
    and s': "s' = s2\<lparr>faults := fs'\<rparr>" by (rule with_tx_okE)
  from b obtain t a where 1: "update_team_display_name org name disp (s\<lparr>faults := fs\<rparr>) = (Inr t, a)" and 2: "f t a = (Inr x, s2)"
    by (rule bindE_okE)
  from 1 have "teams a = update_rows (\<lambda>t. tm_org t = org \<and> tm_name t = name) (\<lambda>t. t\<lparr>tm_display := disp\<rparr>) (teams s)
      \<and> org_roles a = org_roles s \<and> organizations a = organizations s"
    unfolding update_team_display_name_def by (auto elim!: sql_okE simp: Let_def split: option.splits)
  then have "guarded a"
    by (intro team_rows_guarded [OF g, where s' = a and P = "\<lambda>t. tm_org t = org \<and> tm_name t = name"
        and f = "\<lambda>t. t\<lparr>tm_display := disp\<rparr>"]) auto
  then have "guarded s2" using guarded_same f [OF 2] by blast
  moreover have "same_tenants s2 s'" unfolding s' by (simp add: same_tenants_def)
  ultimately show ?thesis using guarded_same by blast
qed

lemma delete_organization_guarded:
  assumes g: "guarded s" and run: "delete_organization i s = (res, s')"
  shows "guarded s'"
  using run [unfolded delete_organization_def]
proof (cases rule: sql_runE)
  case (1 fs)
  then have "same_tenants s s'" by (simp add: same_tenants_def)
  then show ?thesis using g guarded_same by blast
next
  case (2 fs)
  then have r: "org_roles s' = filter (\<lambda>r. rl_org r \<noteq> i) (org_roles s)" and t: "teams s' = filter (\<lambda>t. tm_org t \<noteq> i) (teams s)"
    and o: "organizations s' = filter (\<lambda>r. og_id r \<noteq> i) (organizations s)" by (auto simp: modify_def)
  have wf: "tenancy_wf s" using g by (simp add: guarded_def)
  have roles: "\<exists>r \<in> set (org_roles s'). rl_id r = tm_role t' \<and> rl_org r = tm_org t'" if "t' \<in> set (teams s')" for t'
    using that wf unfolding r t tenancy_wf_def by fastforce
  have "tenancy_wf s'" unfolding tenancy_wf_def
  proof (intro conjI)
    show "distinct (map rl_id (org_roles s'))" using wf unfolding r by (simp add: tenancy_wf_def distinct_map_filter)
    show "\<forall>r \<in> set (org_roles s'). rl_org r \<in> og_id ` set (organizations s')"
      using wf unfolding r o tenancy_wf_def by fastforce
    show "\<forall>t \<in> set (teams s'). \<exists>r \<in> set (org_roles s'). rl_id r = tm_role t \<and> rl_org r = tm_org t" using roles by blast
  qed
  moreover have "has_admin_team s' (og_id h)" if h: "h \<in> set (organizations s')" for h
  proof -
    from h o have "h \<in> set (organizations s)" and ne: "og_id h \<noteq> i" by auto
    then obtain t0 r0 where "t0 \<in> set (teams s)" "tm_org t0 = og_id h" "r0 \<in> set (org_roles s)" "rl_id r0 = tm_role t0"
      "PermTenantAdmin \<in> set (rl_permissions r0)" using g by (auto simp: guarded_def has_admin_team_def)
    moreover from wf_role_org [OF wf this(1,3,4)] have "rl_org r0 = tm_org t0" .
    ultimately show ?thesis using ne unfolding has_admin_team_def r t by (auto intro!: exI [of _ t0] exI [of _ r0])
  qed
  ultimately show ?thesis by (simp add: guarded_def)
qed

text \<open>The operations on users and memberships leave what the guardrail reads alone.\<close>

lemma preserves_member_rows:
  "preserves (same_tenants s0) (upsert_user u)" "preserves (same_tenants s0) (add_membership m)"
  "preserves (same_tenants s0) (remove_membership user org tid)" "preserves (same_tenants s0) (remove_memberships_for_user org user)"
  "preserves (same_tenants s0) (remove_stale_team_memberships tid role keep)"
  unfolding upsert_user_def add_membership_def remove_membership_def remove_memberships_for_user_def
    remove_stale_team_memberships_def
  by (rule preserves_sql_body [OF log_stable_same], auto simp: same_tenants_def modify_def Let_def split: if_splits)+

lemma member_operations_keep:
  "preserves (same_tenants s0) (add_member_tx actor org t u)"
  "preserves (same_tenants s0) (remove_member_tx actor org t user)"
  "preserves (same_tenants s0) (set_member_role_tx actor org anchor u removed is_new)"
  "preserves (same_tenants s0) (remove_org_member_tx actor org user)"
  "preserves (same_tenants s0) (sync_team_members g members)"
  unfolding add_member_tx_def remove_member_tx_def set_member_role_tx_def remove_org_member_tx_def sync_team_members_def
    leave_team_def project_member_def Let_def
  by (intro preserves_rules log_stable_tx_stable log_stable_same preserves_each_do preserves_member_rows | rule log_stable_same)+

text \<open>
  One step: a tenancy transaction on copies read at any earlier time, with any statements failing,
  or anything that leaves the teams, the roles and the set of organizations alone (memberships,
  profiles and statuses, users, other components, time). A copy of a team or role names rows of the
  organization it was read for: the identifiers are random and not used twice.
\<close>

inductive tenancy_step :: "'a tenancy_db_scheme \<Rightarrow> 'a tenancy_db_scheme \<Rightarrow> bool" where
  tenant_created: "tenant_tx actor org s = (r, s') \<Longrightarrow> tenancy_step s s'"
| role_created: "create_role_tx actor role s = (r, s') \<Longrightarrow> tenancy_step s s'"
| role_updated: "update_role_tx actor role s = (u, s') \<Longrightarrow> tenancy_step s s'"
| role_deleted: "delete_role_tx actor role s = (u, s') \<Longrightarrow> tenancy_step s s'"
| team_created: "role_of s (tm_org t) (tm_role t) \<Longrightarrow> create_team_tx actor t role s = (r, s') \<Longrightarrow> tenancy_step s s'"
| team_renamed: "with_tx (bindE (update_team_display_name org name disp) (\<lambda>t. thenE (record_audit ev) (ret t))) s = (r, s') \<Longrightarrow>
    tenancy_step s s'"
| team_deleted: "delete_team_tx actor org name role s = (r, s') \<Longrightarrow> tenancy_step s s'"
| roles_mapped: "copies_of s org mps \<Longrightarrow> set_mappings_tx actor org mps s = (r, s') \<Longrightarrow> tenancy_step s s'"
| tenant_deleted: "delete_organization i s = (u, s') \<Longrightarrow> tenancy_step s s'"
| other: "same_tenants s s' \<Longrightarrow> tenancy_step s s'"

lemma member_step:
  assumes "preserves (same_tenants s) m" and "m s = (r, s')"
  shows "tenancy_step s s'"
  by (rule other) (rule preservesD [OF assms(1) same_tenants_refl assms(2)])

lemma tenancy_step_guarded: "tenancy_step s s' \<Longrightarrow> guarded s \<Longrightarrow> guarded s'"
proof (induction rule: tenancy_step.induct)
  case (tenant_created actor org s r s')
  then show ?case by (blast intro: tenant_tx_guarded)
next
  case (role_created actor role s r s')
  then show ?case by (blast intro: create_role_tx_guarded)
next
  case (role_updated actor role s u s')
  then show ?case by (blast intro: update_role_tx_guarded)
next
  case (role_deleted actor role s u s')
  then show ?case by (blast intro: delete_role_tx_guarded)
next
  case (team_created s t actor role r s')
  then show ?case by (blast intro: create_team_tx_guarded)
next
  case (team_renamed org name disp ev s r s')
  then show ?case by (rule_tac update_team_guarded) (auto elim!: thenE_okE ret_okE dest: record_audit_same)
next
  case (team_deleted actor org name role s r s')
  then show ?case by (blast intro: delete_team_tx_guarded)
next
  case (roles_mapped s org mps actor r s')
  then show ?case by (blast intro: set_mappings_tx_guarded)
next
  case (tenant_deleted i s u s')
  then show ?case by (blast intro: delete_organization_guarded)
next
  case (other s s')
  then show ?case by (blast intro: guarded_same)
qed

text \<open>
  (C17) The administrator guardrail. In every state reachable from an empty database, every
  organization has a team whose role has \<open>tenant.admin\<close>: no interleaving of tenant creations,
  role edits and deletions, team creations, renamings and deletions and role mappings on stale
  copies, with any statements failing, locks a tenant out.
\<close>

theorem admin_guardrail_invariant:
  assumes "organizations s0 = []" "org_roles s0 = []" "teams s0 = []"
    and "tenancy_step\<^sup>*\<^sup>* s0 s" and "g \<in> set (organizations s)"
  shows "\<exists>t \<in> set (teams s). \<exists>r \<in> set (org_roles s). tm_org t = og_id g \<and> tm_role t = rl_id r
    \<and> PermTenantAdmin \<in> set (rl_permissions r)"
proof -
  have "guarded s0" using assms(1-3) by (simp add: guarded_def tenancy_wf_def)
  with assms(4) have "guarded s" by (induction rule: rtranclp_induct) (blast intro: tenancy_step_guarded)+
  with assms(5) have "has_admin_team s (og_id g)" by (simp add: guarded_def)
  then show ?thesis unfolding has_admin_team_def by metis
qed

text \<open>A tenant created in an empty database, with fresh identifiers.\<close>

definition demo_tenancy :: tenancy_db where
  "demo_tenancy = \<lparr>faults = [], clock = 100, uuids = (\<lambda>n. replicate n (CHR ''u'')), uuid_next = 1,
     audit_rows = [], audit_archive = [], outbox_rows = [], outbox_seq = 1, approvals = [], approval_configs = [],
     organizations = [], org_roles = [], teams = [], memberships = [], tenant_users = []\<rparr>"

definition demo_org :: organization where
  "demo_org = \<lparr>og_id = ''org:k1'', og_slug = ''acme'', og_display = ''Acme'', og_kc = ''k1'', og_status = [], og_created = 0\<rparr>"

definition demo_created :: tenancy_db where
  "demo_created = snd (tenant_tx ''ada'' demo_org demo_tenancy)"

lemma demo_created_org: "map og_id (organizations demo_created) = [''org:k1'']"
  unfolding demo_created_def by code_simp

lemma demo_created_step: "tenancy_step demo_tenancy demo_created"
  unfolding demo_created_def by (rule tenant_created) (rule prod.collapse [symmetric])

lemma admin_guardrail_invariant_witness:
  "\<exists>t \<in> set (teams demo_created). \<exists>r \<in> set (org_roles demo_created). tm_org t = ''org:k1'' \<and> tm_role t = rl_id r
    \<and> PermTenantAdmin \<in> set (rl_permissions r)"
proof -
  from demo_created_org obtain g where g: "g \<in> set (organizations demo_created)" "og_id g = ''org:k1''" by auto
  have "organizations demo_tenancy = []" "org_roles demo_tenancy = []" "teams demo_tenancy = []"
    by (simp_all add: demo_tenancy_def)
  from admin_guardrail_invariant [OF this r_into_rtranclp [where r = tenancy_step, OF demo_created_step] g(1)]
  show ?thesis unfolding g(2) .
qed

end
