(* ===== verification/TenancyMirror.thy ===== *)
theory TenancyMirror
  imports TenancySafety
begin

text \<open>
  The mirror of the roles in OpenFGA, across three components: a tenancy transaction
  (internal/tenancy) commits its rows together with one outbox row; the relay publishes the outbox
  in order; the tuple writer (internal/authz/tuplewriter.go) applies each event, with failed
  attempts and redeliveries. Once the queue is drained, the permission tuples are those of the
  roles of the teams, whatever failed in between.
\<close>

section \<open>What a handler does to the tuples, in success and in failure\<close>

definition effect :: "('s \<Rightarrow> fga_tuple set) \<Rightarrow> fga_tuple set \<Rightarrow> fga_tuple set \<Rightarrow> ('s, unit) dbm \<Rightarrow> bool" where
  "effect T D A m \<longleftrightarrow> (\<forall>s r s'. m s = (r, s') \<longrightarrow> T s - D \<subseteq> T s' \<and> T s' \<subseteq> T s \<union> A
     \<and> (r = Inr () \<longrightarrow> T s' = (T s - D) \<union> A))"

lemma effectD:
  assumes "effect T D A m" and "m s = (r, s')"
  shows "T s - D \<subseteq> T s'" and "T s' \<subseteq> T s \<union> A" and "r = Inr () \<Longrightarrow> T s' = (T s - D) \<union> A"
  using assms unfolding effect_def by metis+

lemma effect_ret: "effect T {} {} (ret ())"
  by (simp add: effect_def ret_def)

lemma effect_throw: "effect T {} {} (throw e)"
  by (simp add: effect_def throw_def)

lemma effect_write: "store_laws T st \<Longrightarrow> effect T {} (set ts) (to_write st ts)"
proof -
  assume "store_laws T st"
  then have "\<forall>s r s'. to_write st ts s = (r, s') \<longrightarrow> wrote (T s) ts r (T s')" by (simp add: store_laws_def)
  then show ?thesis unfolding effect_def wrote_def by (fastforce split: sum.splits)
qed

lemma effect_delete: "store_laws T st \<Longrightarrow> effect T (set ts) {} (to_delete st ts)"
proof -
  assume "store_laws T st"
  then have "\<forall>s r s'. to_delete st ts s = (r, s') \<longrightarrow> deleted (T s) ts r (T s')" by (simp add: store_laws_def)
  then show ?thesis unfolding effect_def deleted_def by (fastforce split: sum.splits)
qed

lemma effect_write_if: "store_laws T st \<Longrightarrow> effect T {} (set ts) (if ts = [] then ret () else to_write st ts)"
  using effect_write effect_ret by (metis list.set(1))

lemma effect_write_if': "store_laws T st \<Longrightarrow> effect T {} (set ts) (if ts \<noteq> [] then to_write st ts else ret ())"
  using effect_write effect_ret by (metis list.set(1))

lemma effect_delete_if': "store_laws T st \<Longrightarrow> effect T (set ts) {} (if ts \<noteq> [] then to_delete st ts else ret ())"
  using effect_delete effect_ret by (metis list.set(1))

lemma effect_thenE:
  assumes m: "effect T D {} m" and n: "effect T {} A n"
  shows "effect T D A (thenE m n)"
  unfolding effect_def
proof (intro allI impI)
  fix s r s' assume run: "thenE m n s = (r, s')"
  obtain r1 s1 where 1: "m s = (r1, s1)" by fastforce
  note d = effectD [OF m 1]
  show "T s - D \<subseteq> T s' \<and> T s' \<subseteq> T s \<union> A \<and> (r = Inr () \<longrightarrow> T s' = (T s - D) \<union> A)"
  proof (cases r1)
    case (Inl e)
    with run 1 have "s' = s1" "r = Inl e" by (auto simp: thenE_def bindE_def)
    with d(1,2) show ?thesis by auto
  next
    case (Inr u)
    with run 1 have 2: "n s1 = (r, s')" by (simp add: thenE_def bindE_def)
    from d(3) Inr have "T s1 = T s - D" by simp
    with effectD [OF n 2] show ?thesis by blast
  qed
qed

lemma effect_rewrite: "store_laws T st \<Longrightarrow> effect T (set del) (set add) (rewrite st del add)"
  unfolding rewrite_def by (intro effect_thenE effect_delete_if' effect_write_if')

lemma bind_lift_Inr [simp]: "bindE (lift_sum (Inr x)) f = f x"
  by (rule ext) (simp add: dbm_defs)

lemma effect_lift_Inr: "effect T D A (f x) \<Longrightarrow> r = Inr x \<Longrightarrow> effect T D A (bindE (lift_sum r) f)"
  by simp

section \<open>The permission tuples\<close>

lemma permission_tuples_mem:
  "tp \<in> set (permission_tuples org team ps) \<longleftrightarrow>
     (\<exists>p \<in> set ps. \<exists>rel. permission_relation p = Some rel \<and> tp = mk_tuple (team_member_userset team) rel (org_object org))"
  by (auto simp: permission_tuples_def split: option.splits) (metis option.distinct(1) option.inject)+

definition permission_space :: "fga_tuple set" where
  "permission_space = {tp. \<exists>org team ps. tp \<in> set (permission_tuples org team ps)}"

lemma permission_tuples_space: "set (permission_tuples org team ps) \<subseteq> permission_space"
  by (auto simp: permission_space_def)

lemma permission_tuples_team:
  "tp \<in> set (permission_tuples org team ps) \<Longrightarrow> tp \<in> set (permission_tuples org' team' ps') \<Longrightarrow> team = team'"
  by (auto simp: permission_tuples_mem dest: team_member_userset_inj)

lemma permission_space_user: "tp \<in> permission_space \<Longrightarrow> has_prefix (tp_user tp) ''team:''"
  by (auto simp: permission_space_def permission_tuples_mem team_member_userset_def team_object_def has_prefix_def)

text \<open>What the tables say.\<close>

definition team_tuples :: "'a tenancy_db_scheme \<Rightarrow> team \<Rightarrow> fga_tuple set" where
  "team_tuples s t = (\<Union>r \<in> {r \<in> set (org_roles s). rl_id r = tm_role t}.
     set (permission_tuples (tm_org t) (tm_id t) (rl_permissions r)))"

definition role_tuples :: "'a tenancy_db_scheme \<Rightarrow> fga_tuple set" where
  "role_tuples s = (\<Union>t \<in> set (teams s). team_tuples s t)"

definition mirror_wf :: "'a tenancy_db_scheme \<Rightarrow> bool" where
  "mirror_wf s \<longleftrightarrow> tenancy_wf s \<and> distinct (map tm_id (teams s)) \<and> distinct (map (\<lambda>t. (tm_org t, tm_name t)) (teams s))"

lemma role_tuples_same: "same_tenants s s' \<Longrightarrow> role_tuples s' = role_tuples s"
  by (simp add: role_tuples_def team_tuples_def same_tenants_def)

lemma mirror_wf_same: "same_tenants s s' \<Longrightarrow> mirror_wf s \<Longrightarrow> mirror_wf s'"
  using wf_same by (auto simp: mirror_wf_def same_tenants_def)

lemma team_tuples_role:
  assumes wf: "tenancy_wf s" and r: "r \<in> set (org_roles s)" "rl_id r = tm_role t"
  shows "team_tuples s t = set (permission_tuples (tm_org t) (tm_id t) (rl_permissions r))"
proof -
  have "{x \<in> set (org_roles s). rl_id x = tm_role t} = {r}"
    using wf r distinct_key_unique unfolding tenancy_wf_def by fastforce
  then show ?thesis by (simp add: team_tuples_def)
qed

lemma team_tuples_team: "tp \<in> team_tuples s t \<Longrightarrow> tp \<in> set (permission_tuples org team ps) \<Longrightarrow> team = tm_id t"
  by (auto simp: team_tuples_def dest: permission_tuples_team)

lemma team_tuples_space: "team_tuples s t \<subseteq> permission_space"
  using permission_tuples_space by (fastforce simp: team_tuples_def)

section \<open>The events of the transactions\<close>

text \<open>The statements that are not an outbox write leave the outbox alone.\<close>

lemma tx_stable_outbox: "tx_stable (\<lambda>s. outbox_rows s = os)"
  by (auto simp: tx_stable_def elim!: same_tablesE)

lemma preserves_sql_outbox:
  assumes "\<And>s r s'. f s = (r, s') \<Longrightarrow> outbox_rows s' = outbox_rows s"
  shows "preserves (\<lambda>s. outbox_rows s = os) (sql f)"
  by (rule preserves_sql [OF tx_stable_outbox]) (rule preservesI, simp add: assms)

lemma silent_reads:
  "preserves (\<lambda>s. outbox_rows s = os) (lock_org_for_guardrail org)" "preserves (\<lambda>s. outbox_rows s = os) (admin_guardrail_holds org)"
  "preserves (\<lambda>s. outbox_rows s = os) (list_team_ids_for_role i)" "preserves (\<lambda>s. outbox_rows s = os) (get_role_by_id org i)"
  "preserves (\<lambda>s. outbox_rows s = os) (get_role_by_name org n)"
  unfolding lock_org_for_guardrail_def admin_guardrail_holds_def list_team_ids_for_role_def get_role_by_id_def get_role_by_name_def
  by (rule preserves_sql_outbox, simp add: asks_def split: if_splits option.splits)+

lemma silent_audit: "preserves (\<lambda>s. outbox_rows s = os) (record_audit ev)"
  unfolding record_audit_def by (rule preserves_sql_outbox) (auto simp: dbm_defs new_uuid_def)

lemma silent_rows:
  "preserves (\<lambda>s. outbox_rows s = os) (update_role_row r)" "preserves (\<lambda>s. outbox_rows s = os) (delete_role_row org i)"
  "preserves (\<lambda>s. outbox_rows s = os) (delete_team_row org name)" "preserves (\<lambda>s. outbox_rows s = os) (update_team_role tid rid)"
  "preserves (\<lambda>s. outbox_rows s = os) (create_team_row t)" "preserves (\<lambda>s. outbox_rows s = os) (create_role_row r)"
  "preserves (\<lambda>s. outbox_rows s = os) (create_organization g)" "preserves (\<lambda>s. outbox_rows s = os) (update_team_display_name org n d)"
proof -
  show "preserves (\<lambda>s. outbox_rows s = os) (update_role_row r)"
    unfolding update_role_row_def
    by (intro preserves_bindE preserves_if preserves_throw preserves_ret preserves_sql_outbox)
       (auto simp: Let_def split: option.splits if_splits)
  show "preserves (\<lambda>s. outbox_rows s = os) (delete_role_row org i)" "preserves (\<lambda>s. outbox_rows s = os) (delete_team_row org name)"
    "preserves (\<lambda>s. outbox_rows s = os) (update_team_role tid rid)" "preserves (\<lambda>s. outbox_rows s = os) (create_organization g)"
    "preserves (\<lambda>s. outbox_rows s = os) (update_team_display_name org n d)"
    unfolding delete_role_row_def delete_team_row_def update_team_role_def create_organization_def update_team_display_name_def
    by (rule preserves_sql_outbox, auto simp: Let_def split: option.splits if_splits)+
  show "preserves (\<lambda>s. outbox_rows s = os) (create_team_row t)" "preserves (\<lambda>s. outbox_rows s = os) (create_role_row r)"
    unfolding create_team_row_def create_role_row_def insert_role_def
    by (rule preserves_sql_outbox, auto simp: bindE_def new_uuid_def Let_def split: if_splits)+
qed

lemmas silent = silent_reads silent_audit silent_rows

text \<open>\<open>publishes s s' typ p\<close>: one event was added.\<close>

definition publishes :: "'a db_scheme \<Rightarrow> 'a db_scheme \<Rightarrow> string \<Rightarrow> json \<Rightarrow> bool" where
  "publishes s s' typ p \<longleftrightarrow> (\<exists>ev. outbox_rows s' = outbox_rows s @ [ev] \<and> ob_type ev = typ \<and> ob_payload ev = p)"

lemma emit_publishes: "emit ev org typ p s = (Inr u, s') \<Longrightarrow> publishes s s' typ p"
  by (erule emit_okE) (simp add: publishes_def outbox_row_def)

lemma silent_okD: "(\<And>os. preserves (\<lambda>s. outbox_rows s = os) m) \<Longrightarrow> m s = (r, s') \<Longrightarrow> outbox_rows s' = outbox_rows s"
  using preservesD [of "\<lambda>x. outbox_rows x = outbox_rows s" m s r s'] by simp

lemma publishes_left: "outbox_rows s1 = outbox_rows s \<Longrightarrow> publishes s1 s' typ p \<Longrightarrow> publishes s s' typ p"
  by (simp add: publishes_def)

text \<open>A committed transaction: its body ran from the same tables and ended in the tables of the result.\<close>

definition same_view :: "'a tenancy_db_scheme \<Rightarrow> 'a tenancy_db_scheme \<Rightarrow> bool" where
  "same_view s s' \<longleftrightarrow> same_tenants s s' \<and> outbox_rows s' = outbox_rows s"

lemma with_tx_viewE:
  assumes "with_tx body s = (Inr x, s')"
  obtains s1 s2 where "same_view s s1" "body s1 = (Inr x, s2)" "same_view s2 s'"
proof -
  from assms obtain fs fs' s2 where b: "body (s\<lparr>faults := fs\<rparr>) = (Inr x, s2)" and s': "s' = s2\<lparr>faults := fs'\<rparr>"
    by (rule with_tx_okE)
  show ?thesis by (rule that [OF _ b]) (simp_all add: s' same_view_def same_tenants_def)
qed

lemma update_role_row_okE:
  assumes "update_role_row r s = (Inr old, s')"
  obtains x f where "x \<in> set (org_roles s)" "rl_org x = rl_org r" "rl_id x = rl_id r" "old = rl_permissions x" "teams s' = teams s"
    "org_roles s' = update_rows (\<lambda>x. rl_org x = rl_org r \<and> rl_id x = rl_id r) f (org_roles s)"
    "\<forall>x. rl_id (f x) = rl_id x \<and> rl_org (f x) = rl_org x \<and> rl_permissions (f x) = rl_permissions r"
proof -
  let ?P = "\<lambda>x. rl_org x = rl_org r \<and> rl_id x = rl_id r"
  from assms obtain n a where 1: "sql (\<lambda>s. case select_row ?P (org_roles s) of
         None \<Rightarrow> (Inl ErrNoRows, s) | Some x \<Rightarrow> (Inr (rl_permissions x), s)) s = (Inr old, a)"
    and 2: "sql (\<lambda>s. if list_ex (\<lambda>x. rl_org x = rl_org r \<and> rl_name x = rl_name r \<and> rl_id x \<noteq> rl_id r) (org_roles s)
              \<and> list_ex ?P (org_roles s)
           then (Inl RoleNameTaken, s)
           else (Inr (rows_affected ?P (org_roles s)), s\<lparr>org_roles := update_rows ?P (\<lambda>x. x\<lparr>rl_name := rl_name r,
                   rl_display := rl_display r, rl_description := rl_description r,
                   rl_permissions := rl_permissions r, rl_updated := clock s\<rparr>) (org_roles s)\<rparr>)) a = (Inr n, s')"
    unfolding update_role_row_def Let_def by (auto elim!: bindE_okE throw_okE ret_okE split: if_splits)
  from 1 obtain x where x: "select_row ?P (org_roles s) = Some x" "old = rl_permissions x"
    and a: "org_roles a = org_roles s" "teams a = teams s"
    by (auto elim!: sql_okE split: option.splits)
  from 2 obtain c where "teams s' = teams a" "org_roles s' = update_rows ?P (\<lambda>x. x\<lparr>rl_name := rl_name r,
                   rl_display := rl_display r, rl_description := rl_description r,
                   rl_permissions := rl_permissions r, rl_updated := c\<rparr>) (org_roles a)"
    by (auto elim!: sql_okE split: if_splits)
  with x a select_row_SomeD [OF x(1)] show ?thesis by (intro that) auto
qed

lemma update_role_tx_okE:
  assumes "update_role_tx actor r s = (Inr u, s')"
  obtains x f ids where "x \<in> set (org_roles s)" "rl_org x = rl_org r" "rl_id x = rl_id r" "teams s' = teams s"
    "org_roles s' = update_rows (\<lambda>x. rl_org x = rl_org r \<and> rl_id x = rl_id r) f (org_roles s)"
    "\<forall>x. rl_id (f x) = rl_id x \<and> rl_org (f x) = rl_org x \<and> rl_permissions (f x) = rl_permissions r"
    "set ids = tm_id ` {t \<in> set (teams s). tm_role t = rl_id r}"
    "publishes s s' ''role.updated'' (role_payload r (rl_permissions x) (rl_permissions r) ids)"
proof -
  from assms [unfolded update_role_tx_def] obtain s1 s2 where v1: "same_view s s1" and v2: "same_view s2 s'"
    and body: "thenE (lock_org_for_guardrail (rl_org r))
     (bindE (update_role_row r) (\<lambda>old.
      bindE (admin_guardrail_holds (rl_org r)) (\<lambda>ok.
        if \<not> ok then throw AdminGuardrailErr
        else bindE (list_team_ids_for_role (rl_id r)) (\<lambda>team_ids.
          emit (role_audit r actor ''role.updated'' (role_json r)) (rl_org r) ''role.updated''
            (role_payload r old (rl_permissions r) team_ids))))) s1 = (Inr u, s2)" by (rule with_tx_viewE)
  from body obtain v a old b ok c ids d where 1: "lock_org_for_guardrail (rl_org r) s1 = (Inr v, a)"
    and 2: "update_role_row r a = (Inr old, b)" and 3: "admin_guardrail_holds (rl_org r) b = (Inr ok, c)"
    and 4: "list_team_ids_for_role (rl_id r) c = (Inr ids, d)"
    and 5: "emit (role_audit r actor ''role.updated'' (role_json r)) (rl_org r) ''role.updated''
            (role_payload r old (rl_permissions r) ids) d = (Inr u, s2)"
    by (auto elim!: bindE_okE thenE_okE throw_okE split: if_splits)
  from 2 obtain x f where x: "x \<in> set (org_roles a)" "rl_org x = rl_org r" "rl_id x = rl_id r" "old = rl_permissions x" "teams b = teams a"
    "org_roles b = update_rows (\<lambda>x. rl_org x = rl_org r \<and> rl_id x = rl_id r) f (org_roles a)"
    and f: "\<forall>x. rl_id (f x) = rl_id x \<and> rl_org (f x) = rl_org x \<and> rl_permissions (f x) = rl_permissions r"
    by (rule update_role_row_okE)
  note same = lock_same [OF 1] guardrail_check(2) [OF 3] team_ids_same [OF 4] emit_same [OF 5]
  have "set ids = tm_id ` {t \<in> set (teams c). tm_role t = rl_id r}"
    using 4 unfolding list_team_ids_for_role_def by (auto elim!: sql_okE asks_okE simp: set_sort_names)
  moreover have "outbox_rows d = outbox_rows s"
    using v1 silent_okD [OF silent(1) 1] silent_okD [OF silent_rows(1) 2] silent_okD [OF silent(2) 3] silent_okD [OF silent(3) 4]
    by (simp add: same_view_def)
  with emit_publishes [OF 5] v2 have "publishes s s' ''role.updated'' (role_payload r old (rl_permissions r) ids)"
    by (simp add: publishes_def same_view_def)
  ultimately show ?thesis using v1 v2 same x
    by (intro that [OF _ _ _ _ _ f]) (simp_all add: same_view_def same_tenants_def)
qed

section \<open>The handler on the events of the transactions\<close>

lemma jlist_strs: "jlist jas_string (jstrs xs) = Inr xs"
  by (simp add: jlist_def jstrs_def jmap_map)

lemma jlist_nil [simp]: "jlist f JNull = Inr []"
  by (simp add: jlist_def)

lemma role_payload_fields:
  "jstring ''orgId'' (role_payload r old new ids) = Inr (rl_org r)"
  "jstrings ''oldPermissions'' (role_payload r old new ids) = Inr old"
  "jstrings ''newPermissions'' (role_payload r old new ids) = Inr new"
  "jstrings ''teamIds'' (role_payload r old new ids) = Inr ids"
  unfolding role_payload_def jstring_def jstrings_def jfield_def by (simp_all add: jlist_strs map_add_def split: if_splits)

lemma team_payload_fields:
  "jstring ''orgId'' (team_payload t r) = Inr (tm_org t)" "jstring ''teamId'' (team_payload t r) = Inr (tm_id t)"
  "jstrings ''permissions'' (team_payload t r) = Inr (rl_permissions r)"
  unfolding team_payload_def jstring_def jstrings_def jfield_def by (simp_all add: jlist_strs)

lemma team_seed_roundtrip: "team_seed_of (team_seed_json t) = Inr t"
  by (simp add: team_seed_of_def team_seed_json_def jstring_def jstrings_def jfield_def jlist_strs)

lemma tenant_created_fields:
  "jstring ''orgId'' (tenant_created_payload org slug seeds) = Inr org"
  "jfield (jlist team_seed_of) ''teams'' (tenant_created_payload org slug seeds) = Inr seeds"
  by (simp_all add: tenant_created_payload_def jstring_def jfield_def jlist_def jmap_map team_seed_roundtrip)

lemma change_roundtrip: "role_change_of (change_json c) = Inr (ch_team c, ch_old c, ch_new c)"
  by (simp add: role_change_of_def change_json_def jstring_def jstrings_def jfield_def jlist_strs)

lemma mappings_fields:
  "jstring ''orgId'' (mappings_payload org cs) = Inr org"
  "jfield (jlist role_change_of) ''changes'' (mappings_payload org cs) = Inr (map (\<lambda>c. (ch_team c, ch_old c, ch_new c)) cs)"
proof -
  show "jstring ''orgId'' (mappings_payload org cs) = Inr org" by (simp add: mappings_payload_def jstring_def jfield_def)
  have "jmap role_change_of (map change_json cs) = Inr (map (\<lambda>c. (ch_team c, ch_old c, ch_new c)) cs)"
    by (induction cs) (simp_all add: change_roundtrip)
  then show "jfield (jlist role_change_of) ''changes'' (mappings_payload org cs) = Inr (map (\<lambda>c. (ch_team c, ch_old c, ch_new c)) cs)"
    by (simp add: mappings_payload_def jfield_def jlist_def)
qed

definition event_effect ::
  "('s \<Rightarrow> fga_tuple set) \<Rightarrow> 's tuple_ops \<Rightarrow> string \<Rightarrow> json \<Rightarrow> fga_tuple set \<Rightarrow> fga_tuple set \<Rightarrow> bool" where
  "event_effect T st typ p D A \<longleftrightarrow> (\<forall>ev. ob_type ev = typ \<longrightarrow> ob_payload ev = p \<longrightarrow> effect T D A (tuple_writer_handle st ev))"

lemma team_created_effect:
  assumes laws: "store_laws T st"
  shows "event_effect T st ''team.created'' (team_payload t r) {} (set (permission_tuples (tm_org t) (tm_id t) (rl_permissions r)))"
  unfolding event_effect_def tuple_writer_handle_def Let_def with_team_def
  by (auto intro!: effect_lift_Inr effect_write [OF laws] simp: team_payload_fields)

lemma team_deleted_effect:
  assumes laws: "store_laws T st"
  shows "event_effect T st ''team.deleted'' (team_payload t r) (set (permission_tuples (tm_org t) (tm_id t) (rl_permissions r))) {}"
  unfolding event_effect_def tuple_writer_handle_def Let_def with_team_def
  by (auto intro!: effect_lift_Inr effect_delete [OF laws] simp: team_payload_fields)

lemma tenant_created_effect:
  assumes laws: "store_laws T st"
  shows "event_effect T st ''tenant.created'' (tenant_created_payload org slug seeds) {}
    (\<Union>t \<in> set seeds. set (permission_tuples org (sd_team t) (sd_permissions t)))"
proof -
  let ?ts = "concat (map (\<lambda>t. permission_tuples org (sd_team t) (sd_permissions t)) seeds)"
  have "effect T {} (set ?ts) (write_org_role_tuples st org seeds False)"
    using effect_write_if [OF laws, of ?ts] by (simp only: write_org_role_tuples_def Let_def if_False)
  then have "effect T {} (\<Union>t \<in> set seeds. set (permission_tuples org (sd_team t) (sd_permissions t)))
      (write_org_role_tuples st org seeds False)" by simp
  then show ?thesis unfolding event_effect_def tuple_writer_handle_def Let_def
    by (auto intro!: effect_lift_Inr simp: tenant_created_fields)
qed

lemma role_updated_effect:
  assumes laws: "store_laws T st"
  shows "event_effect T st ''role.updated'' (role_payload r old new ids)
    (\<Union>i \<in> set ids. set (permission_tuples (rl_org r) i old)) (\<Union>i \<in> set ids. set (permission_tuples (rl_org r) i new))"
proof -
  have "effect T (set (concat (map (\<lambda>t. permission_tuples (rl_org r) t old) ids)))
    (set (concat (map (\<lambda>t. permission_tuples (rl_org r) t new) ids))) (role_updated st (role_payload r old new ids))"
    using effect_rewrite [OF laws] by (simp only: role_updated_def role_payload_fields bind_lift_Inr)
  then show ?thesis unfolding event_effect_def tuple_writer_handle_def Let_def by auto
qed

lemma role_deleted_effect:
  assumes laws: "store_laws T st"
  shows "event_effect T st ''role.deleted'' (role_payload r old new []) {} {}"
proof -
  have "effect T {} {} (role_deleted st (role_payload r old new []))"
    using effect_ret by (simp add: role_deleted_def role_payload_fields)
  then show ?thesis unfolding event_effect_def tuple_writer_handle_def Let_def by auto
qed

lemma role_created_effect: "event_effect T st ''role.created'' p {} {}"
  unfolding event_effect_def tuple_writer_handle_def Let_def by (auto intro: effect_ret)

lemma mappings_updated_effect:
  assumes laws: "store_laws T st"
  shows "event_effect T st ''rbac.mappings.updated'' (mappings_payload org cs)
    (\<Union>c \<in> set cs. set (permission_tuples org (ch_team c) (ch_old c))) (\<Union>c \<in> set cs. set (permission_tuples org (ch_team c) (ch_new c)))"
proof -
  let ?cs = "map (\<lambda>c. (ch_team c, ch_old c, ch_new c)) cs"
  have "effect T (set (concat (map (\<lambda>(t, old, new). permission_tuples org t old) ?cs)))
    (set (concat (map (\<lambda>(t, old, new). permission_tuples org t new) ?cs))) (mappings_updated st (mappings_payload org cs))"
    using effect_rewrite [OF laws] by (simp only: mappings_updated_def mappings_fields bind_lift_Inr)
  then show ?thesis unfolding event_effect_def tuple_writer_handle_def Let_def by auto
qed

section \<open>The transactions and their events agree\<close>

text \<open>The image under a key of rows that keep their tuples apart, some of which change.\<close>

lemma swap_union:
  assumes apart: "\<And>t t' x. t \<in> S \<Longrightarrow> t' \<in> S \<Longrightarrow> x \<in> F t \<Longrightarrow> x \<in> F t' \<Longrightarrow> t = t'"
    and sub: "I \<subseteq> S" and keep: "\<And>t. t \<in> S - I \<Longrightarrow> G t = F t"
  shows "(\<Union>t \<in> S. G t) = ((\<Union>t \<in> S. F t) - (\<Union>t \<in> I. F t)) \<union> (\<Union>t \<in> I. G t)"
proof -
  have "(\<Union>t \<in> S. G t) = (\<Union>t \<in> S - I. G t) \<union> (\<Union>t \<in> I. G t)" using sub by blast
  moreover have "(\<Union>t \<in> S - I. G t) = (\<Union>t \<in> S - I. F t)" using keep by simp
  moreover have "(\<Union>t \<in> S - I. F t) = (\<Union>t \<in> S. F t) - (\<Union>t \<in> I. F t)" using apart sub by blast
  ultimately show ?thesis by simp
qed

definition mirrored :: "('s \<Rightarrow> fga_tuple set) \<Rightarrow> 's tuple_ops \<Rightarrow> 'a tenancy_db_scheme \<Rightarrow> 'a tenancy_db_scheme \<Rightarrow> bool" where
  "mirrored T st s s' \<longleftrightarrow> mirror_wf s' \<and> (\<exists>typ p D A. publishes s s' typ p \<and> event_effect T st typ p D A
     \<and> D \<subseteq> permission_space \<and> A \<subseteq> permission_space \<and> role_tuples s' = (role_tuples s - D) \<union> A)"

lemma mirroredI:
  assumes "mirror_wf s'" and "publishes s s' typ p" and "event_effect T st typ p D A"
    and "D \<subseteq> permission_space" and "A \<subseteq> permission_space" and "role_tuples s' = (role_tuples s - D) \<union> A"
  shows "mirrored T st s s'"
  using assms unfolding mirrored_def by blast

lemma team_apart:
  assumes "mirror_wf s" and "t \<in> set (teams s)" and "t' \<in> set (teams s)" and "x \<in> team_tuples s t" and "x \<in> team_tuples s t'"
  shows "t = t'"
proof -
  from assms(4) obtain ps where "x \<in> set (permission_tuples (tm_org t) (tm_id t) ps)" by (auto simp: team_tuples_def)
  from team_tuples_team [OF assms(5) this] have "tm_id t = tm_id t'" .
  with assms(1-3) show ?thesis by (auto simp: mirror_wf_def dest: distinct_key_unique)
qed

lemma permission_tuples_union_space: "(\<Union>i \<in> I. set (permission_tuples (f i) (g i) (h i))) \<subseteq> permission_space"
  using permission_tuples_space by blast

lemma wf_teams_role:
  assumes "tenancy_wf s" and "t \<in> set (teams s)"
  obtains r where "r \<in> set (org_roles s)" "rl_id r = tm_role t" "rl_org r = tm_org t"
  using assms by (auto simp: tenancy_wf_def)

lemma tx_keeps_wf:
  "preserves tenancy_wf (update_role_tx actor r)" "preserves tenancy_wf (delete_role_tx actor r)"
  "preserves tenancy_wf (delete_team_tx actor org name r)"
  unfolding update_role_tx_def delete_role_tx_def delete_team_tx_def
  by (intro preserves_with_tx log_stable_tx_stable log_stable_wf preserves_thenE preserves_bindE preserves_if preserves_throw
    preserves_ret preserves_emit preserves_reads update_role_row_wf delete_role_row_wf delete_team_row_wf)+

lemma update_role_mirrored:
  assumes laws: "store_laws T st" and wf: "mirror_wf s" and run: "update_role_tx actor r s = (Inr u, s')"
  shows "mirrored T st s s'"
proof -
  from run obtain x f ids where x: "x \<in> set (org_roles s)" "rl_org x = rl_org r" "rl_id x = rl_id r" and ts: "teams s' = teams s"
    and rs: "org_roles s' = update_rows (\<lambda>x. rl_org x = rl_org r \<and> rl_id x = rl_id r) f (org_roles s)"
    and f: "\<forall>x. rl_id (f x) = rl_id x \<and> rl_org (f x) = rl_org x \<and> rl_permissions (f x) = rl_permissions r"
    and ids: "set ids = tm_id ` {t \<in> set (teams s). tm_role t = rl_id r}"
    and ev: "publishes s s' ''role.updated'' (role_payload r (rl_permissions x) (rl_permissions r) ids)"
    by (rule update_role_tx_okE)
  have twf: "tenancy_wf s" using wf by (simp add: mirror_wf_def)
  have twf': "tenancy_wf s'" by (rule preservesD [OF tx_keeps_wf(1) twf run])
  then have wf': "mirror_wf s'" using wf ts by (simp add: mirror_wf_def)
  let ?I = "{t \<in> set (teams s). tm_role t = rl_id r}"
  have fx: "f x \<in> set (org_roles s')" using x unfolding rs set_update_rows by (intro image_eqI [of _ _ x]) auto
  have org: "tm_org t = rl_org r" if "t \<in> ?I" for t
    using wf_role_org [OF twf _ x(1)] that x by auto
  have old: "team_tuples s t = set (permission_tuples (rl_org r) (tm_id t) (rl_permissions x))" if "t \<in> ?I" for t
    using team_tuples_role [OF twf x(1), of t] that x(3) org by auto
  have new: "team_tuples s' t = set (permission_tuples (rl_org r) (tm_id t) (rl_permissions r))" if "t \<in> ?I" for t
    using team_tuples_role [OF twf' fx, of t] that x(3) f org by auto
  have keep: "team_tuples s' t = team_tuples s t" if t: "t \<in> set (teams s) - ?I" for t
  proof -
    from t obtain y where y: "y \<in> set (org_roles s)" "rl_id y = tm_role t" using wf_teams_role [OF twf] by auto
    with t have "y \<in> set (org_roles s')" unfolding rs set_update_rows by (intro image_eqI [of _ _ y]) auto
    then show ?thesis using team_tuples_role [OF twf y] team_tuples_role [OF twf' _ y(2)] by simp
  qed
  have "role_tuples s' = (role_tuples s - (\<Union>t \<in> ?I. team_tuples s t)) \<union> (\<Union>t \<in> ?I. team_tuples s' t)"
    unfolding role_tuples_def ts by (rule swap_union [OF team_apart [OF wf] _ keep]) auto
  then have "role_tuples s' = (role_tuples s - (\<Union>i \<in> set ids. set (permission_tuples (rl_org r) i (rl_permissions x))))
      \<union> (\<Union>i \<in> set ids. set (permission_tuples (rl_org r) i (rl_permissions r)))"
    using old new by (simp add: ids)
  then show ?thesis
    by (intro mirroredI [OF wf' ev role_updated_effect [OF laws]] permission_tuples_union_space)
qed

lemma create_team_row_fresh:
  assumes "create_team_row t s = (Inr x, s')"
  shows "(tm_org t, tm_name t) \<notin> (\<lambda>t. (tm_org t, tm_name t)) ` set (teams s)"
  using assms unfolding create_team_row_def bindE_def new_uuid_def
  by (auto elim!: sql_okE simp: list_ex_iff split: if_splits)

text \<open>A team inserted with a role of its organization.\<close>

lemma create_team_row_mirror:
  assumes wf: "mirror_wf s" and r: "r \<in> set (org_roles s)" "rl_id r = tm_role t" "rl_org r = tm_org t"
    and run: "create_team_row t s = (Inr x, s')"
  shows "mirror_wf s'" and "org_roles s' = org_roles s" and "tm_org x = tm_org t" and "tm_name x = tm_name t"
    and "role_tuples s' = role_tuples s \<union> set (permission_tuples (tm_org t) (tm_id x) (rl_permissions r))"
proof -
  have twf: "tenancy_wf s" using wf by (simp add: mirror_wf_def)
  from run obtain row c where ts: "teams s' = teams s @ [row]" and rs: "org_roles s' = org_roles s"
    and row: "tm_org row = tm_org t" "tm_role row = tm_role t" "tm_name row = tm_name t"
      "tm_id row \<notin> tm_id ` set (teams s)" and x: "x = t\<lparr>tm_id := tm_id row, tm_created := c\<rparr>"
    by (cases rule: create_team_row_cases) auto
  have "tenancy_wf s'"
    using create_team_row_wf [OF twf _ run] role_of_row [OF twf r(1)] r(2,3) by simp
  then show "mirror_wf s'" using wf row create_team_row_fresh [OF run] by (auto simp: mirror_wf_def ts)
  show "org_roles s' = org_roles s" "tm_org x = tm_org t" "tm_name x = tm_name t" using rs x by simp_all
  have eq: "team_tuples s' y = team_tuples s y" for y by (simp add: team_tuples_def rs)
  have "team_tuples s row = set (permission_tuples (tm_org t) (tm_id x) (rl_permissions r))"
    using team_tuples_role [OF twf r(1), of row] r(2) row x by simp
  then show "role_tuples s' = role_tuples s \<union> set (permission_tuples (tm_org t) (tm_id x) (rl_permissions r))"
    by (auto simp: role_tuples_def ts eq)
qed

lemma create_team_mirrored:
  assumes laws: "store_laws T st" and wf: "mirror_wf s"
    and r: "r \<in> set (org_roles s)" "rl_id r = tm_role t" "rl_org r = tm_org t"
    and run: "create_team_tx actor t r s = (Inr x, s')"
  shows "mirrored T st s s'"
proof -
  from run [unfolded create_team_tx_def] obtain s1 s2 where v1: "same_view s s1" and v2: "same_view s2 s'"
    and body: "bindE (create_team_row t) (\<lambda>t.
     thenE (emit (audit_ev (tm_org t) actor ''team.created'' ''team'' (tm_id t)
              (JObj [(''team'', JStr (tm_name t)), (''role'', JStr (rl_name r))])) (tm_org t) ''team.created'' (team_payload t r))
       (ret t)) s1 = (Inr x, s2)" by (rule with_tx_viewE)
  from body obtain row a u where 1: "create_team_row t s1 = (Inr row, a)"
    and 2: "emit (audit_ev (tm_org row) actor ''team.created'' ''team'' (tm_id row)
              (JObj [(''team'', JStr (tm_name row)), (''role'', JStr (rl_name r))])) (tm_org row) ''team.created''
              (team_payload row r) a = (Inr u, s2)"
    by (auto elim!: bindE_okE thenE_okE ret_okE)
  have wf1: "mirror_wf s1" using v1 wf mirror_wf_same by (auto simp: same_view_def)
  have r1: "r \<in> set (org_roles s1)" using v1 r by (simp add: same_view_def same_tenants_def)
  note row = create_team_row_mirror [OF wf1 r1 r(2,3) 1]
  have same: "same_tenants a s'" using same_tenants_trans [OF emit_same [OF 2]] v2 by (simp add: same_view_def)
  have ev: "publishes s s' ''team.created'' (team_payload row r)"
    using v1 v2 silent_okD [OF silent_rows(5) 1] emit_publishes [OF 2] by (simp add: publishes_def same_view_def)
  have "role_tuples s' = role_tuples s1 \<union> set (permission_tuples (tm_org t) (tm_id row) (rl_permissions r))"
    using role_tuples_same [OF same] row(5) by simp
  moreover have "role_tuples s1 = role_tuples s" using v1 by (simp add: same_view_def role_tuples_same)
  ultimately have tuples: "role_tuples s' = (role_tuples s - {}) \<union> set (permission_tuples (tm_org row) (tm_id row) (rl_permissions r))"
    using row(3) by simp
  show ?thesis
    by (rule mirroredI [OF mirror_wf_same [OF same row(1)] ev team_created_effect [OF laws] _ permission_tuples_space tuples]) simp
qed

lemma delete_team_mirrored:
  assumes laws: "store_laws T st" and wf: "mirror_wf s"
    and r: "r \<in> set (org_roles s)" and role: "\<And>t. t \<in> set (teams s) \<Longrightarrow> tm_org t = org \<Longrightarrow> tm_name t = name \<Longrightarrow> tm_role t = rl_id r"
    and run: "delete_team_tx actor org name r s = (Inr x, s')"
  shows "mirrored T st s s'"
proof -
  from run [unfolded delete_team_tx_def] obtain s1 s2 where v1: "same_view s s1" and v2: "same_view s2 s'"
    and body: "thenE (lock_org_for_guardrail org)
     (bindE (delete_team_row org name) (\<lambda>t.
      bindE (admin_guardrail_holds org) (\<lambda>ok.
        if \<not> ok then throw AdminGuardrailErr
        else thenE (emit (audit_ev org actor ''team.deleted'' ''team'' (tm_id t)
               (JObj [(''team'', JStr (tm_name t)), (''role'', JStr (rl_name r))])) org ''team.deleted''
               (team_payload (t\<lparr>tm_org := org\<rparr>) r))
             (ret t)))) s1 = (Inr x, s2)" by (rule with_tx_viewE)
  from body obtain u a t b ok c v where 1: "lock_org_for_guardrail org s1 = (Inr u, a)"
    and 2: "delete_team_row org name a = (Inr t, b)" and 3: "admin_guardrail_holds org b = (Inr ok, c)"
    and 4: "emit (audit_ev org actor ''team.deleted'' ''team'' (tm_id t)
               (JObj [(''team'', JStr (tm_name t)), (''role'', JStr (rl_name r))])) org ''team.deleted''
               (team_payload (t\<lparr>tm_org := org\<rparr>) r) c = (Inr v, s2)"
    by (auto elim!: bindE_okE thenE_okE throw_okE ret_okE split: if_splits)
  have pre: "same_tenants s a" using v1 same_tenants_trans [OF _ lock_same [OF 1]] by (simp add: same_view_def)
  have post: "same_tenants b s'"
    using v2 same_tenants_trans [OF guardrail_check(2) [OF 3] same_tenants_trans [OF emit_same [OF 4]]] by (simp add: same_view_def)
  have twf: "tenancy_wf s" using wf by (simp add: mirror_wf_def)
  let ?P = "\<lambda>t. tm_org t = org \<and> tm_name t = name"
  from 2 have t: "t \<in> set (teams s)" "?P t" and tb: "teams b = filter (\<lambda>x. \<not> ?P x) (teams s)" and rb: "org_roles b = org_roles s"
    using pre unfolding delete_team_row_def
    by (auto elim!: sql_okE dest: select_row_SomeD simp: Let_def same_tenants_def split: option.splits)
  have ts: "teams s' = filter (\<lambda>x. \<not> ?P x) (teams s)" and rs: "org_roles s' = org_roles s"
    using post tb rb by (simp_all add: same_tenants_def)
  have wf': "mirror_wf s'"
    using preservesD [OF tx_keeps_wf(3) twf run] wf unfolding mirror_wf_def ts by (simp add: distinct_map_filter)
  have ev: "publishes s s' ''team.deleted'' (team_payload (t\<lparr>tm_org := org\<rparr>) r)"
    using v1 v2 silent_okD [OF silent(1) 1] silent_okD [OF silent_rows(3) 2] silent_okD [OF silent(2) 3] emit_publishes [OF 4]
    by (simp add: publishes_def same_view_def)
  have only: "y = t" if "y \<in> set (teams s)" "?P y" for y
    using that t wf by (auto simp: mirror_wf_def dest: distinct_key_unique)
  have set': "set (teams s') = set (teams s) - {t}" using ts only t(2) by auto
  have "team_tuples s t = set (permission_tuples (tm_org t) (tm_id t) (rl_permissions r))"
    using team_tuples_role [OF twf r, of t] role [OF t(1)] t(2) by simp
  moreover have "role_tuples s' = (\<Union>y \<in> set (teams s). if y = t then {} else team_tuples s y)"
    unfolding role_tuples_def set' by (auto simp: team_tuples_def rs split: if_splits)
  moreover have "\<dots> = (role_tuples s - (\<Union>y \<in> {t}. team_tuples s y)) \<union> (\<Union>y \<in> {t}. if y = t then {} else team_tuples s y)"
    unfolding role_tuples_def by (rule swap_union [OF team_apart [OF wf]]) (use t in auto)
  ultimately have "role_tuples s' = (role_tuples s - set (permission_tuples (tm_org t) (tm_id t) (rl_permissions r))) \<union> {}" by simp
  then show ?thesis
    using mirroredI [OF wf' ev team_deleted_effect [OF laws] permission_tuples_space empty_subsetI] t(2) by simp
qed

text \<open>Roles no team has.\<close>

lemma role_tuples_unused:
  assumes "teams s' = teams s"
    and "\<And>t r. t \<in> set (teams s) \<Longrightarrow> rl_id r = tm_role t \<Longrightarrow> r \<in> set (org_roles s') \<longleftrightarrow> r \<in> set (org_roles s)"
  shows "role_tuples s' = role_tuples s"
proof -
  have "team_tuples s' t = team_tuples s t" if "t \<in> set (teams s)" for t
    unfolding team_tuples_def using assms(2) [OF that] by fastforce
  then show ?thesis by (simp add: role_tuples_def assms(1))
qed

lemma role_added_tuples:
  assumes wf: "tenancy_wf s" and ts: "teams s' = teams s" and rs: "org_roles s' = org_roles s @ [row]"
    and new: "rl_id row \<notin> rl_id ` set (org_roles s)"
  shows "role_tuples s' = role_tuples s"
proof (rule role_tuples_unused [OF ts])
  fix t and r :: org_role assume t: "t \<in> set (teams s)" and r: "rl_id r = tm_role t"
  have "tm_role t \<in> rl_id ` set (org_roles s)" using wf_teams_role [OF wf t] by (metis imageI)
  then have "r \<noteq> row" using r new by auto
  then show "r \<in> set (org_roles s') \<longleftrightarrow> r \<in> set (org_roles s)" by (simp add: rs)
qed

lemma create_role_mirrored:
  assumes laws: "store_laws T st" and wf: "mirror_wf s" and run: "create_role_tx actor r s = (Inr x, s')"
  shows "mirrored T st s s'"
proof -
  from run [unfolded create_role_tx_def] obtain s1 s2 where v1: "same_view s s1" and v2: "same_view s2 s'"
    and body: "bindE (create_role_row r) (\<lambda>r. thenE (emit (role_audit r actor ''role.created'' (role_json r)) (rl_org r) ''role.created''
              (role_payload r [] (rl_permissions r) [])) (ret r)) s1 = (Inr x, s2)" by (rule with_tx_viewE)
  from body obtain y a u where 1: "create_role_row r s1 = (Inr y, a)"
    and 2: "emit (role_audit y actor ''role.created'' (role_json y)) (rl_org y) ''role.created''
              (role_payload y [] (rl_permissions y) []) a = (Inr u, s2)"
    by (auto elim!: bindE_okE thenE_okE ret_okE)
  have twf: "tenancy_wf s1" using v1 wf wf_same by (auto simp: same_view_def mirror_wf_def)
  from 1 obtain s0 fs where s0: "s0 = s1\<lparr>faults := fs\<rparr>" and ins: "insert_role (r\<lparr>rl_builtin := False\<rparr>) s0 = (Inr y, a)"
    unfolding create_role_row_def by (auto elim: sql_okE)
  have twf0: "tenancy_wf s0" using twf by (simp add: s0 tenancy_wf_def)
  from ins obtain row where ts: "teams a = teams s0" and rs: "org_roles a = org_roles s0 @ [row]"
    and new: "rl_id row \<notin> rl_id ` set (org_roles s0)" by (cases rule: insert_role_cases) auto
  have "role_tuples a = role_tuples s0" by (rule role_added_tuples [OF twf0 ts rs new])
  moreover have "role_tuples s0 = role_tuples s" using v1 by (simp add: s0 same_view_def same_tenants_def role_tuples_def team_tuples_def)
  moreover have same: "same_tenants a s'" using same_tenants_trans [OF emit_same [OF 2]] v2 by (simp add: same_view_def)
  ultimately have tuples: "role_tuples s' = (role_tuples s - {}) \<union> {}" using role_tuples_same [OF same] by simp
  have "mirror_wf a"
    using insert_role_wf [OF twf0 ins] wf v1 ts by (simp add: mirror_wf_def s0 same_view_def same_tenants_def)
  from mirror_wf_same [OF same this] have wf': "mirror_wf s'" .
  have ev: "publishes s s' ''role.created'' (role_payload y [] (rl_permissions y) [])"
    using v1 v2 silent_okD [OF silent_rows(6) 1] emit_publishes [OF 2] by (simp add: publishes_def same_view_def)
  show ?thesis by (rule mirroredI [OF wf' ev role_created_effect empty_subsetI empty_subsetI tuples])
qed

lemma delete_role_mirrored:
  assumes laws: "store_laws T st" and wf: "mirror_wf s" and run: "delete_role_tx actor r s = (Inr x, s')"
  shows "mirrored T st s s'"
proof -
  from run [unfolded delete_role_tx_def] obtain s1 s2 where v1: "same_view s s1" and v2: "same_view s2 s'"
    and body: "thenE (lock_org_for_guardrail (rl_org r))
     (bindE (list_team_ids_for_role (rl_id r)) (\<lambda>team_ids.
        if team_ids \<noteq> [] then throw RoleInUse
        else thenE (delete_role_row (rl_org r) (rl_id r))
          (bindE (admin_guardrail_holds (rl_org r)) (\<lambda>ok.
             if \<not> ok then throw AdminGuardrailErr
             else emit (role_audit r actor ''role.deleted'' (JObj [(''name'', JStr (rl_name r))])) (rl_org r) ''role.deleted''
                    (role_payload r (rl_permissions r) [] []))))) s1 = (Inr x, s2)" by (rule with_tx_viewE)
  from body obtain u a b v c ok d where 1: "lock_org_for_guardrail (rl_org r) s1 = (Inr u, a)"
    and 2: "list_team_ids_for_role (rl_id r) a = (Inr [], b)"
    and 3: "delete_role_row (rl_org r) (rl_id r) b = (Inr v, c)"
    and 4: "admin_guardrail_holds (rl_org r) c = (Inr ok, d)"
    and 5: "emit (role_audit r actor ''role.deleted'' (JObj [(''name'', JStr (rl_name r))])) (rl_org r) ''role.deleted''
                    (role_payload r (rl_permissions r) [] []) d = (Inr x, s2)"
    by (auto elim!: bindE_okE thenE_okE throw_okE split: if_splits)
  have pre: "same_tenants s b"
    using v1 same_tenants_trans [OF _ same_tenants_trans [OF lock_same [OF 1] team_ids_same [OF 2]]] by (simp add: same_view_def)
  have post: "same_tenants c s'"
    using v2 same_tenants_trans [OF guardrail_check(2) [OF 4] same_tenants_trans [OF emit_same [OF 5]]] by (simp add: same_view_def)
  have none: "tm_role t \<noteq> rl_id r" if "t \<in> set (teams b)" for t
  proof -
    have "teams b = teams a" using team_ids_same [OF 2] by (simp add: same_tenants_def)
    moreover have "set ([] :: string list) = tm_id ` {t \<in> set (teams a). tm_role t = rl_id r}"
      using 2 unfolding list_team_ids_for_role_def by (auto elim!: sql_okE asks_okE simp: set_sort_names dest: arg_cong [where f = set])
    ultimately show ?thesis using that by auto
  qed
  from 3 have ts: "teams c = teams b" and rs: "org_roles c = filter (\<lambda>x. \<not> (rl_org x = rl_org r \<and> rl_id x = rl_id r)) (org_roles b)"
    unfolding delete_role_row_def by (auto elim!: sql_okE split: if_splits)
  have "role_tuples c = role_tuples b"
    by (rule role_tuples_unused [OF ts]) (use none in \<open>auto simp: rs\<close>)
  then have tuples: "role_tuples s' = (role_tuples s - {}) \<union> {}"
    using role_tuples_same [OF pre] role_tuples_same [OF post] by simp
  have ts': "teams s' = teams s" using pre post ts by (simp add: same_tenants_def)
  have wf': "mirror_wf s'"
    using preservesD [OF tx_keeps_wf(2) _ run] wf unfolding mirror_wf_def ts' by simp
  have ev: "publishes s s' ''role.deleted'' (role_payload r (rl_permissions r) [] [])"
    using v1 v2 silent_okD [OF silent(1) 1] silent_okD [OF silent(3) 2] silent_okD [OF silent_rows(2) 3]
      silent_okD [OF silent(2) 4] emit_publishes [OF 5]
    by (simp add: publishes_def same_view_def)
  show ?thesis by (rule mirroredI [OF wf' ev role_deleted_effect [OF laws] empty_subsetI empty_subsetI tuples])
qed

text \<open>A mapping on fresh copies: the rows still say what was read.\<close>

definition fresh_copies :: "'a tenancy_db_scheme \<Rightarrow> string \<Rightarrow> (team \<times> org_role) list \<Rightarrow> bool" where
  "fresh_copies s org mps \<longleftrightarrow> distinct (map (\<lambda>(t, r). tm_id t) mps) \<and> (\<forall>(t, r) \<in> set mps. r \<in> set (org_roles s) \<and> rl_org r = org
     \<and> (\<exists>row \<in> set (teams s). tm_id row = tm_id t \<and> tm_org row = org \<and> tm_role row = tm_role t))"

lemma update_team_role_mirror:
  assumes wf: "mirror_wf s" and row: "row \<in> set (teams s)" "tm_id row = tid" "tm_org row = org"
    and old: "old \<in> set (org_roles s)" "rl_id old = tm_role row"
    and r: "r \<in> set (org_roles s)" "rl_org r = org"
    and run: "update_team_role tid (rl_id r) s = (Inr u, s')"
  shows "mirror_wf s'" and "org_roles s' = org_roles s"
    and "teams s' = update_rows (\<lambda>t. tm_id t = tid) (\<lambda>t. t\<lparr>tm_role := rl_id r\<rparr>) (teams s)"
    and "role_tuples s' = (role_tuples s - set (permission_tuples org tid (rl_permissions old)))
      \<union> set (permission_tuples org tid (rl_permissions r))"
proof -
  let ?f = "\<lambda>t. if tm_id t = tid then t\<lparr>tm_role := rl_id r\<rparr> else t"
  have twf: "tenancy_wf s" using wf by (simp add: mirror_wf_def)
  from run show ts: "teams s' = update_rows (\<lambda>t. tm_id t = tid) (\<lambda>t. t\<lparr>tm_role := rl_id r\<rparr>) (teams s)"
    and rs: "org_roles s' = org_roles s"
    unfolding update_team_role_def by (auto elim!: sql_okE split: if_splits)
  have only: "t = row" if "t \<in> set (teams s)" "tm_id t = tid" for t
    using that row wf by (auto simp: mirror_wf_def dest: distinct_key_unique)
  have "team_of s org tid" unfolding team_of_def using only row(3) by blast
  moreover have "role_of s org (rl_id r)" using role_of_row [OF twf r(1)] r(2) by simp
  ultimately have "tenancy_wf s'" using update_team_role_keeps [OF twf _ _ frame_refl run] by blast
  moreover have "map tm_id (teams s') = map tm_id (teams s)"
    and "map (\<lambda>t. (tm_org t, tm_name t)) (teams s') = map (\<lambda>t. (tm_org t, tm_name t)) (teams s)"
    unfolding ts by (rule map_update_rows_same, simp)+
  ultimately show "mirror_wf s'" using wf by (simp add: mirror_wf_def)
  have eq: "team_tuples s' t = team_tuples s t" for t by (simp add: team_tuples_def rs)
  have "role_tuples s' = (\<Union>t \<in> set (teams s). team_tuples s (?f t))"
    unfolding role_tuples_def ts set_update_rows by (simp only: eq image_image)
  also have "\<dots> = (role_tuples s - (\<Union>t \<in> {row}. team_tuples s t)) \<union> (\<Union>t \<in> {row}. team_tuples s (?f t))"
    unfolding role_tuples_def
  proof (rule swap_union [OF team_apart [OF wf]])
    fix t assume "t \<in> set (teams s) - {row}"
    then have "tm_id t \<noteq> tid" using only by blast
    then show "team_tuples s (?f t) = team_tuples s t" by simp
  qed (simp_all add: row(1))
  also have "(\<Union>t \<in> {row}. team_tuples s t) = set (permission_tuples org tid (rl_permissions old))"
    using team_tuples_role [OF twf old] row by simp
  also have "(\<Union>t \<in> {row}. team_tuples s (?f t)) = set (permission_tuples org tid (rl_permissions r))"
    using team_tuples_role [OF twf r(1), of "row\<lparr>tm_role := rl_id r\<rparr>"] row by simp
  finally show "role_tuples s' = (role_tuples s - set (permission_tuples org tid (rl_permissions old)))
      \<union> set (permission_tuples org tid (rl_permissions r))" .
qed

abbreviation change_tuples :: "string \<Rightarrow> (team_role_change \<Rightarrow> string list) \<Rightarrow> team_role_change list \<Rightarrow> fga_tuple set" where
  "change_tuples org ps cs \<equiv> (\<Union>c \<in> set cs. set (permission_tuples org (ch_team c) (ps c)))"

lemma apply_mappings_mirror:
  assumes "mirror_wf s" and "fresh_copies s org mps" and "apply_mappings org mps s = (Inr cs, s')"
  shows "mirror_wf s' \<and> outbox_rows s' = outbox_rows s \<and> ch_team ` set cs \<subseteq> (\<lambda>(t, r). tm_id t) ` set mps
    \<and> role_tuples s' = (role_tuples s - change_tuples org ch_old cs) \<union> change_tuples org ch_new cs"
  using assms
proof (induction mps arbitrary: s cs)
  case Nil
  then show ?case by (simp add: ret_def)
next
  case (Cons tr mps)
  obtain t r where tr: "tr = (t, r)" by fastforce
  from Cons.prems(2) obtain row where rest: "fresh_copies s org mps" and notin: "tm_id t \<notin> (\<lambda>(t, r). tm_id t) ` set mps"
    and r: "r \<in> set (org_roles s)" "rl_org r = org"
    and row: "row \<in> set (teams s)" "tm_id row = tm_id t" "tm_org row = org" "tm_role row = tm_role t"
    by (auto simp: fresh_copies_def tr image_iff)
  show ?case
  proof (cases "tm_role t = rl_id r")
    case True
    with Cons.prems(3) tr have "apply_mappings org mps s = (Inr cs, s')" by simp
    from Cons.IH [OF Cons.prems(1) rest this] show ?thesis by (auto simp: tr)
  next
    case False
    with Cons.prems(3) tr obtain old a u b cs' where 1: "get_role_by_id org (tm_role t) s = (Inr old, a)"
      and 2: "update_team_role (tm_id t) (rl_id r) a = (Inr u, b)" and 3: "apply_mappings org mps b = (Inr cs', s')"
      and cs: "cs = \<lparr>ch_team = tm_id t, ch_name = tm_name t, ch_old_role = tm_role t, ch_old = rl_permissions old,
                   ch_new_role = rl_id r, ch_new = rl_permissions r\<rparr> # cs'"
      by (auto elim!: bindE_okE thenE_okE ret_okE)
    from 1 obtain fs where sel: "select_row (\<lambda>r. rl_org r = org \<and> rl_id r = tm_role t) (org_roles s) = Some old"
      and sa: "a = s\<lparr>faults := fs\<rparr>"
      unfolding get_role_by_id_def by (auto elim!: sql_okE split: option.splits)
    have same: "same_tenants s a" and old: "old \<in> set (org_roles a)" "rl_id old = tm_role row"
      using select_row_SomeD [OF sel] row(4) by (simp_all add: sa same_tenants_def)
    have a: "mirror_wf a" "row \<in> set (teams a)" "r \<in> set (org_roles a)"
      using mirror_wf_same [OF same Cons.prems(1)] row r same by (simp_all add: same_tenants_def)
    note up = update_team_role_mirror [OF a(1,2) row(2,3) old a(3) r(2) 2]
    have "fresh_copies b org mps"
      unfolding fresh_copies_def
    proof (intro conjI ballI, goal_cases)
      case 1
      then show ?case using rest by (simp add: fresh_copies_def)
    next
      case (2 p)
      obtain t' r' where p: "p = (t', r')" by fastforce
      from rest 2 p obtain row' where f: "r' \<in> set (org_roles s)" "rl_org r' = org"
        and row': "row' \<in> set (teams s)" "tm_id row' = tm_id t'" "tm_org row' = org" "tm_role row' = tm_role t'"
        by (auto simp: fresh_copies_def)
      have "tm_id row' \<noteq> tm_id t" using notin 2 p row'(2) by force
      with row'(1) same have "row' \<in> set (teams b)"
        unfolding up(3) set_update_rows by (intro image_eqI [of _ _ row']) (auto simp: same_tenants_def)
      then show ?case using f row' up(2) same by (auto simp: p same_tenants_def)
    qed
    from Cons.IH [OF up(1) this 3] have IH: "mirror_wf s'" "outbox_rows s' = outbox_rows b"
      "ch_team ` set cs' \<subseteq> (\<lambda>(t, r). tm_id t) ` set mps"
      "role_tuples s' = (role_tuples b - change_tuples org ch_old cs') \<union> change_tuples org ch_new cs'" by auto
    have "outbox_rows b = outbox_rows s"
      using silent_okD [OF silent(4) 1] silent_okD [OF silent_rows(4) 2] by simp
    moreover have "set (permission_tuples org (tm_id t) (rl_permissions r)) \<inter> change_tuples org ch_old cs' = {}"
    proof -
      have "tm_id t \<noteq> ch_team c" if "c \<in> set cs'" for c using that IH(3) notin by blast
      then show ?thesis by (auto dest: permission_tuples_team)
    qed
    moreover have "role_tuples a = role_tuples s" by (rule role_tuples_same [OF same])
    ultimately show ?thesis using IH up(4) by (auto simp: cs tr)
  qed
qed

lemma set_mappings_mirrored:
  assumes laws: "store_laws T st" and wf: "mirror_wf s" and fresh: "fresh_copies s org mps"
    and run: "set_mappings_tx actor org mps s = (Inr cs, s')"
  shows "if cs = [] then same_view s s' else mirrored T st s s'"
proof -
  from run [unfolded set_mappings_tx_def] obtain s1 s2 where v1: "same_view s s1" and v2: "same_view s2 s'"
    and body: "thenE (lock_org_for_guardrail org)
     (bindE (apply_mappings org mps) (\<lambda>changes.
        if changes = [] then ret []
        else bindE (admin_guardrail_holds org) (\<lambda>ok.
          if \<not> ok then throw AdminGuardrailErr
          else thenE (emit (audit_ev org actor ''rbac.mappings.updated'' ''organization'' org (mappings_payload org changes))
                 org ''rbac.mappings.updated'' (mappings_payload org changes))
            (ret changes)))) s1 = (Inr cs, s2)" by (rule with_tx_viewE)
  from body obtain u a where 1: "lock_org_for_guardrail org s1 = (Inr u, a)" and rest: "bindE (apply_mappings org mps) (\<lambda>changes.
        if changes = [] then ret []
        else bindE (admin_guardrail_holds org) (\<lambda>ok.
          if \<not> ok then throw AdminGuardrailErr
          else thenE (emit (audit_ev org actor ''rbac.mappings.updated'' ''organization'' org (mappings_payload org changes))
                 org ''rbac.mappings.updated'' (mappings_payload org changes))
            (ret changes))) a = (Inr cs, s2)" by (rule thenE_okE)
  from rest obtain ch b where 2: "apply_mappings org mps a = (Inr ch, b)" and tl: "(if ch = [] then ret []
        else bindE (admin_guardrail_holds org) (\<lambda>ok.
          if \<not> ok then throw AdminGuardrailErr
          else thenE (emit (audit_ev org actor ''rbac.mappings.updated'' ''organization'' org (mappings_payload org ch))
                 org ''rbac.mappings.updated'' (mappings_payload org ch))
            (ret ch))) b = (Inr cs, s2)" by (rule bindE_okE)
  have pre: "same_tenants s a" using v1 same_tenants_trans [OF _ lock_same [OF 1]] by (simp add: same_view_def)
  have ob: "outbox_rows a = outbox_rows s" using v1 silent_okD [OF silent(1) 1] by (simp add: same_view_def)
  have fa: "fresh_copies a org mps" using fresh pre by (simp add: fresh_copies_def same_tenants_def)
  note ap = apply_mappings_mirror [OF mirror_wf_same [OF pre wf] fa 2]
  show ?thesis
  proof (cases "ch = []")
    case True
    then have "cs = []" "s2 = b" using tl by (auto elim!: ret_okE)
    moreover have "same_tenants a b" by (rule apply_mappings_unchanged [OF 2 [unfolded True]])
    ultimately show ?thesis
      using v2 ob ap same_tenants_trans [OF pre same_tenants_trans] by (auto simp: same_view_def)
  next
    case False
    with tl obtain ok c v where 3: "admin_guardrail_holds org b = (Inr ok, c)" and cs: "cs = ch"
      and 4: "emit (audit_ev org actor ''rbac.mappings.updated'' ''organization'' org (mappings_payload org ch))
                 org ''rbac.mappings.updated'' (mappings_payload org ch) c = (Inr v, s2)"
      by (auto elim!: bindE_okE thenE_okE throw_okE ret_okE split: if_splits)
    have same: "same_tenants b s'"
      using v2 same_tenants_trans [OF guardrail_check(2) [OF 3] same_tenants_trans [OF emit_same [OF 4]]] by (simp add: same_view_def)
    have ev: "publishes s s' ''rbac.mappings.updated'' (mappings_payload org ch)"
      using v2 ob ap silent_okD [OF silent(2) 3] emit_publishes [OF 4] by (simp add: publishes_def same_view_def)
    have tuples: "role_tuples s' = (role_tuples s - change_tuples org ch_old ch) \<union> change_tuples org ch_new ch"
      using ap role_tuples_same [OF pre] role_tuples_same [OF same] by simp
    have "mirrored T st s s'"
      by (rule mirroredI [OF mirror_wf_same [OF same] ev mappings_updated_effect [OF laws] _ _ tuples])
         (use ap in \<open>auto intro: permission_tuples_union_space [THEN subsetD]\<close>)
    then show ?thesis using False cs by simp
  qed
qed

text \<open>A new tenant: the seeded roles belong to no team yet, the default teams name them.\<close>

lemma insert_role_outbox: "insert_role r s = (res, s') \<Longrightarrow> outbox_rows s' = outbox_rows s"
  unfolding insert_role_def by (auto simp: bindE_def new_uuid_def Let_def split: if_splits)

lemma silent_seed_roles: "preserves (\<lambda>s. outbox_rows s = os) (seed_roles org bs)"
proof (induction bs)
  case (Cons b bs)
  show ?case unfolding seed_roles.simps
    by (rule preserves_thenE [OF preserves_sql_outbox Cons])
       (auto simp: thenE_def bindE_def ret_def split: if_splits prod.splits sum.splits dest: insert_role_outbox)
qed (simp add: preserves_ret)

lemma seed_roles_tuples:
  "preserves (\<lambda>s. mirror_wf s \<and> role_tuples s = R) (seed_roles org bs)"
proof (rule preserves_seed_roles)
  show "log_stable (\<lambda>s. mirror_wf s \<and> role_tuples s = R)"
    by (simp add: log_stable_def mirror_wf_def tenancy_wf_def role_tuples_def team_tuples_def)
  fix r s res s'
  assume I: "mirror_wf s \<and> role_tuples s = R" and run: "insert_role r s = (res, s')"
  have twf: "tenancy_wf s" using I by (simp add: mirror_wf_def)
  from run show "mirror_wf s' \<and> role_tuples s' = R"
  proof (cases rule: insert_role_cases)
    case 1
    then show ?thesis using I mirror_wf_same role_tuples_same by blast
  next
    case (2 row)
    from role_added_tuples [OF twf 2(1,3,8)] I insert_role_wf [OF twf run] show ?thesis by (simp add: mirror_wf_def 2(1))
  qed
qed

abbreviation seed_tuples :: "string \<Rightarrow> team_seed list \<Rightarrow> fga_tuple set" where
  "seed_tuples org seeds \<equiv> (\<Union>t \<in> set seeds. set (permission_tuples org (sd_team t) (sd_permissions t)))"

lemma default_teams_mirror:
  assumes "mirror_wf s" and "create_default_teams actor org dts (ts0, seeds0) s = (Inr (ts, seeds), s')"
  shows "\<exists>new. mirror_wf s' \<and> outbox_rows s' = outbox_rows s \<and> seeds = seeds0 @ new
    \<and> role_tuples s' = role_tuples s \<union> seed_tuples (og_id org) new"
  using assms
proof (induction dts arbitrary: s ts0 seeds0)
  case Nil
  then show ?case by (simp add: ret_def)
next
  case (Cons d dts)
  obtain name rn where d: "d = (name, rn)" by fastforce
  let ?t = "\<lambda>r. \<lparr>tm_id = [], tm_org = og_id org, tm_name = name, tm_display = [], tm_role = rl_id r,
        tm_role_name = rl_name r, tm_path = group_path (og_slug org) name, tm_created = 0\<rparr>"
  let ?seed = "\<lambda>t r. \<lparr>sd_team = tm_id t, sd_name = tm_name t, sd_permissions = rl_permissions r\<rparr>"
  from Cons.prems(2) [unfolded d] obtain r a t b u c where 1: "get_role_by_name (og_id org) rn s = (Inr r, a)"
    and 2: "create_team_row (?t r) a = (Inr t, b)"
    and 3: "record_audit (audit_ev (og_id org) actor ''team.created'' ''team'' (tm_id t) JNull) b = (Inr u, c)"
    and 4: "create_default_teams actor org dts (ts0 @ [t], seeds0 @ [?seed t r]) c = (Inr (ts, seeds), s')"
    by (auto elim!: bindE_okE thenE_okE)
  note r = get_role_by_name_okD [OF 1]
  have ra: "r \<in> set (org_roles a)" using r(1,2) by (simp add: same_tenants_def)
  note row = create_team_row_mirror [OF mirror_wf_same [OF r(1) Cons.prems(1)] ra _ _ 2, simplified, OF r(3)]
  note same = record_audit_same [OF 3]
  from Cons.IH [OF mirror_wf_same [OF same row(1)] 4] obtain new where new: "mirror_wf s'" "outbox_rows s' = outbox_rows c"
    "seeds = (seeds0 @ [?seed t r]) @ new" "role_tuples s' = role_tuples c \<union> seed_tuples (og_id org) new" by blast
  have "outbox_rows c = outbox_rows s"
    using silent_okD [OF silent(5) 1] silent_okD [OF silent_rows(5) 2] silent_okD [OF silent_audit 3] by simp
  moreover have "role_tuples c = role_tuples s \<union> set (permission_tuples (og_id org) (tm_id t) (rl_permissions r))"
    using role_tuples_same [OF same] role_tuples_same [OF r(1)] row(5) by simp
  ultimately show ?case using new by (intro exI [of _ "?seed t r # new"]) auto
qed

lemma tenant_mirrored:
  assumes laws: "store_laws T st" and wf: "mirror_wf s" and run: "tenant_tx actor org s = (Inr x, s')"
  shows "mirrored T st s s'"
proof -
  let ?ev = "\<lambda>seeds. emit (audit_ev (og_id org) actor ''tenant.created'' ''organization'' (og_id org) JNull)
                   (og_id org) ''tenant.created'' (tenant_created_payload (og_id org) (og_slug org) seeds)"
  from run [unfolded tenant_tx_def] obtain s1 s2 where v1: "same_view s s1" and v2: "same_view s2 s'"
    and body: "bindE (create_organization org) (\<lambda>row. thenE (seed_builtin_roles (og_id org))
       (bindE (create_default_teams actor org default_teams ([], [])) (\<lambda>(ts, seeds). thenE (?ev seeds) (ret (row, ts))))) s1
       = (Inr x, s2)" by (rule with_tx_viewE)
  from body obtain row a where 1: "create_organization org s1 = (Inr row, a)" and b1: "thenE (seed_builtin_roles (og_id org))
       (bindE (create_default_teams actor org default_teams ([], [])) (\<lambda>(ts, seeds). thenE (?ev seeds) (ret (row, ts)))) a
       = (Inr x, s2)" by (rule bindE_okE)
  from b1 obtain u b where 2: "seed_roles (og_id org) builtin_roles a = (Inr u, b)"
    and b2: "bindE (create_default_teams actor org default_teams ([], [])) (\<lambda>(ts, seeds). thenE (?ev seeds) (ret (row, ts))) b
       = (Inr x, s2)" unfolding seed_builtin_roles_def by (rule thenE_okE)
  from b2 obtain tss c where 3: "create_default_teams actor org default_teams ([], []) b = (Inr tss, c)"
    and b3: "(case tss of (ts, seeds) \<Rightarrow> thenE (?ev seeds) (ret (row, ts))) c = (Inr x, s2)" by (rule bindE_okE)
  obtain ts seeds where tss: "tss = (ts, seeds)" by fastforce
  with b3 obtain v where 4: "?ev seeds c = (Inr v, s2)" by (auto elim!: thenE_okE ret_okE)
  have wf1: "mirror_wf s1" and t1: "role_tuples s1 = role_tuples s"
    using v1 wf mirror_wf_same [of s s1] role_tuples_same [of s s1] by (simp_all add: same_view_def)
  have ra: "org_roles a = org_roles s1" and ta: "teams a = teams s1"
    and oa: "og_id ` set (organizations a) = insert (og_id org) (og_id ` set (organizations s1))"
    using 1 unfolding create_organization_def by (auto elim!: sql_okE simp: Let_def list_ex_iff split: if_splits)
  have wfa: "mirror_wf a" using wf1 ra ta oa by (auto simp: mirror_wf_def tenancy_wf_def)
  have t_a: "role_tuples a = role_tuples s" using t1 ra ta by (simp add: role_tuples_def team_tuples_def)
  from preservesD [OF seed_roles_tuples _ 2] wfa t_a have b: "mirror_wf b" "role_tuples b = role_tuples s" by blast+
  from default_teams_mirror [OF b(1) 3 [unfolded tss]] obtain new where c: "mirror_wf c" "outbox_rows c = outbox_rows b"
    "seeds = new" "role_tuples c = role_tuples b \<union> seed_tuples (og_id org) new" by auto
  have same: "same_tenants c s'" using same_tenants_trans [OF emit_same [OF 4]] v2 by (simp add: same_view_def)
  have ev: "publishes s s' ''tenant.created'' (tenant_created_payload (og_id org) (og_slug org) seeds)"
    using v1 v2 c(2) silent_okD [OF silent_rows(7) 1] silent_okD [OF silent_seed_roles 2] emit_publishes [OF 4]
    by (simp add: publishes_def same_view_def)
  have tuples: "role_tuples s' = (role_tuples s - {}) \<union> seed_tuples (og_id org) seeds"
    using role_tuples_same [OF same] c b by simp
  show ?thesis
    by (rule mirroredI [OF mirror_wf_same [OF same c(1)] ev tenant_created_effect [OF laws] empty_subsetI
        permission_tuples_union_space tuples])
qed

section \<open>The other events\<close>

definition role_events :: "string list" where
  "role_events = [''tenant.created'', ''tenant.deleting'', ''tenant.restored'', ''team.created'', ''team.deleted'',
     ''rbac.mappings.updated'', ''role.created'', ''role.updated'', ''role.deleted'']"

definition neutral :: "('s \<Rightarrow> fga_tuple set) \<Rightarrow> ('s, unit) dbm \<Rightarrow> bool" where
  "neutral T m \<longleftrightarrow> (\<exists>D A. effect T D A m \<and> D \<inter> permission_space = {} \<and> A \<inter> permission_space = {})"

lemma neutral_ret: "neutral T (ret ())"
  using effect_ret unfolding neutral_def by blast

lemma neutral_if: "neutral T m \<Longrightarrow> neutral T n \<Longrightarrow> neutral T (if b then m else n)"
  by simp

lemma neutral_lift: "(\<And>x. neutral T (f x)) \<Longrightarrow> neutral T (bindE (lift_sum r) f)"
proof (cases r)
  case (Inl e)
  then have "bindE (lift_sum r) f = throw e" by (auto simp: dbm_defs)
  then show ?thesis using effect_throw [of T e] unfolding neutral_def by auto
qed simp

lemma neutral_store:
  assumes "store_laws T st" and "set ts \<inter> permission_space = {}"
  shows "neutral T (to_write st ts)" "neutral T (to_delete st ts)"
  using effect_write [OF assms(1)] effect_delete [OF assms(1)] assms(2) unfolding neutral_def by blast+

lemma outside_space: "\<not> has_prefix u ''team:'' \<Longrightarrow> set [mk_tuple u rel obj] \<inter> permission_space = {}"
  using permission_space_user [of "mk_tuple u rel obj"] by auto

lemma other_event_neutral:
  assumes laws: "store_laws T st" and kind: "ob_type ev \<notin> set role_events"
  shows "neutral T (tuple_writer_handle st ev)"
proof -
  have pref: "\<not> has_prefix (org_object a) ''team:''" "\<not> has_prefix (user_object a) ''team:''"
    "\<not> has_prefix (cluster_object a) ''team:''" for a
    by (simp_all add: org_object_def user_object_def cluster_object_def has_prefix_def)
  note store = neutral_store [OF laws outside_space [OF pref(1)]] neutral_store [OF laws outside_space [OF pref(2)]]
    neutral_store [OF laws outside_space [OF pref(3)]]
  have p: "neutral T (with_parent (to_write st) b k i ob p)" "neutral T (with_parent (to_delete st) b k i ob p)" for b k i ob p
    unfolding with_parent_def parent_tuple_def by (intro neutral_lift neutral_if neutral_ret store)+
  have m: "neutral T (with_member (to_write st) p)" "neutral T (with_member (to_delete st) p)" for p
    unfolding with_member_def member_tuple_def by (intro neutral_lift store)+
  have d: "neutral T (deploy_requested st p)" for p
    unfolding deploy_requested_def by (intro neutral_lift store)
  from kind show ?thesis unfolding tuple_writer_handle_def Let_def role_events_def
    by (simp only: list.set insert_iff empty_iff de_Morgan_disj simp_thms if_False if_True)
       (intro neutral_if p m d neutral_ret)
qed

section \<open>The system: transactions, the queue of events, the tuple writer\<close>

text \<open>
  The committed transactions on roles and teams. The copies a caller passes in (the role of a team
  it creates or deletes, the rows of a mapping) are fresh: they say what the rows say. The code
  reads them before the transaction, so a stale copy is possible; \<open>delete_team_event\<close> shows that the
  event then says what the copy said, and the periodic role reconciler (TupleSync) has to repair the mirror.
\<close>

lemma delete_team_event:
  assumes run: "delete_team_tx actor org name r s = (Inr t, s')"
  shows "publishes s s' ''team.deleted'' (team_payload (t\<lparr>tm_org := org\<rparr>) r)"
proof -
  from run [unfolded delete_team_tx_def] obtain s1 s2 where v1: "same_view s s1" and v2: "same_view s2 s'"
    and body: "thenE (lock_org_for_guardrail org)
     (bindE (delete_team_row org name) (\<lambda>t.
      bindE (admin_guardrail_holds org) (\<lambda>ok.
        if \<not> ok then throw AdminGuardrailErr
        else thenE (emit (audit_ev org actor ''team.deleted'' ''team'' (tm_id t)
               (JObj [(''team'', JStr (tm_name t)), (''role'', JStr (rl_name r))])) org ''team.deleted''
               (team_payload (t\<lparr>tm_org := org\<rparr>) r))
             (ret t)))) s1 = (Inr t, s2)" by (rule with_tx_viewE)
  from body obtain u a b ok c v where "lock_org_for_guardrail org s1 = (Inr u, a)"
    and "delete_team_row org name a = (Inr t, b)" and "admin_guardrail_holds org b = (Inr ok, c)"
    and "emit (audit_ev org actor ''team.deleted'' ''team'' (tm_id t)
               (JObj [(''team'', JStr (tm_name t)), (''role'', JStr (rl_name r))])) org ''team.deleted''
               (team_payload (t\<lparr>tm_org := org\<rparr>) r) c = (Inr v, s2)"
    by (auto elim!: bindE_okE thenE_okE throw_okE ret_okE split: if_splits)
  from silent_okD [OF silent(1) this(1)] silent_okD [OF silent_rows(3) this(2)] silent_okD [OF silent(2) this(3)]
    emit_publishes [OF this(4)] v1 v2
  show ?thesis by (simp add: publishes_def same_view_def)
qed

inductive role_write :: "'a tenancy_db_scheme \<Rightarrow> 'a tenancy_db_scheme \<Rightarrow> bool" where
  tenant: "tenant_tx actor org s = (Inr x, s') \<Longrightarrow> role_write s s'"
| new_role: "create_role_tx actor r s = (Inr y, s') \<Longrightarrow> role_write s s'"
| changed_role: "update_role_tx actor r s = (Inr u, s') \<Longrightarrow> role_write s s'"
| dropped_role: "delete_role_tx actor r s = (Inr u, s') \<Longrightarrow> role_write s s'"
| new_team: "r \<in> set (org_roles s) \<Longrightarrow> rl_id r = tm_role t \<Longrightarrow> rl_org r = tm_org t \<Longrightarrow>
    create_team_tx actor t r s = (Inr z, s') \<Longrightarrow> role_write s s'"
| dropped_team: "r \<in> set (org_roles s) \<Longrightarrow>
    (\<And>t. t \<in> set (teams s) \<Longrightarrow> tm_org t = org \<Longrightarrow> tm_name t = name \<Longrightarrow> tm_role t = rl_id r) \<Longrightarrow>
    delete_team_tx actor org name r s = (Inr z, s') \<Longrightarrow> role_write s s'"
| mapped: "fresh_copies s org mps \<Longrightarrow> set_mappings_tx actor org mps s = (Inr cs, s') \<Longrightarrow> role_write s s'"

lemma role_write_mirrored:
  assumes "store_laws T st" and "mirror_wf s" and "role_write s s'"
  shows "same_view s s' \<or> mirrored T st s s'"
  using assms(3)
proof cases
  case (mapped org mps actor cs)
  then show ?thesis using set_mappings_mirrored [OF assms(1,2)] by (metis (full_types))
qed (use assms(1,2) in \<open>blast intro: tenant_mirrored create_role_mirrored update_role_mirrored delete_role_mirrored
    create_team_mirrored delete_team_mirrored\<close>)+

text \<open>
  The events are queued in the order of the outbox. An attempt at the first event may fail half-way
  or be repeated; a successful one may be acknowledged. Anything else (memberships, clusters, other
  services) may write rows and queue events that are not about roles.
\<close>

inductive mirror_step ::
  "'s tuple_ops \<Rightarrow> 'a tenancy_db_scheme \<times> outbox_event list \<times> 's \<Rightarrow> 'a tenancy_db_scheme \<times> outbox_event list \<times> 's \<Rightarrow> bool"
  for st where
  role_change: "role_write s s' \<Longrightarrow> outbox_rows s' = outbox_rows s @ evs \<Longrightarrow> mirror_step st (s, q, f) (s', q @ evs, f)"
| elsewhere: "same_tenants s s' \<Longrightarrow> set (map ob_type evs) \<inter> set role_events = {} \<Longrightarrow> mirror_step st (s, q, f) (s', q @ evs, f)"
| attempt: "tuple_writer_handle st ev f = (r, f') \<Longrightarrow> mirror_step st (s, ev # q, f) (s, ev # q, f')"
| acked: "tuple_writer_handle st ev f = (Inr (), f') \<Longrightarrow> mirror_step st (s, ev # q, f) (s, q, f')"

text \<open>What the queued events will do to the permission tuples.\<close>

definition shift :: "fga_tuple set \<Rightarrow> fga_tuple set \<times> fga_tuple set \<Rightarrow> fga_tuple set" where
  "shift X d = (X - fst d) \<union> (snd d \<inter> permission_space)"

definition will_mirror ::
  "('s \<Rightarrow> fga_tuple set) \<Rightarrow> 's tuple_ops \<Rightarrow> 'a tenancy_db_scheme \<times> outbox_event list \<times> 's \<Rightarrow> bool" where
  "will_mirror T st c \<longleftrightarrow> (case c of (s, q, f) \<Rightarrow> mirror_wf s
     \<and> (\<exists>ds. list_all2 (\<lambda>ev d. effect T (fst d) (snd d) (tuple_writer_handle st ev)) q ds
          \<and> foldl shift (T f \<inter> permission_space) ds = role_tuples s))"

lemma role_tuples_space: "role_tuples s \<subseteq> permission_space"
  using team_tuples_space by (fastforce simp: role_tuples_def)

lemma will_mirror_step:
  assumes laws: "store_laws T st" and "mirror_step st c c'" and "will_mirror T st c"
  shows "will_mirror T st c'"
  using assms(2)
proof cases
  case (role_change s s' evs q f)
  from assms(3) role_change obtain ds where wf: "mirror_wf s"
    and ds: "list_all2 (\<lambda>ev d. effect T (fst d) (snd d) (tuple_writer_handle st ev)) q ds"
      "foldl shift (T f \<inter> permission_space) ds = role_tuples s" by (auto simp: will_mirror_def)
  from role_write_mirrored [OF laws wf role_change(3)] show ?thesis
  proof
    assume v: "same_view s s'"
    then have "evs = []" using role_change(4) by (simp add: same_view_def)
    moreover have "mirror_wf s'" "role_tuples s' = role_tuples s"
      using v mirror_wf_same [OF _ wf] role_tuples_same [of s s'] by (simp_all add: same_view_def)
    ultimately show ?thesis using ds by (auto simp: will_mirror_def role_change(2))
  next
    assume "mirrored T st s s'"
    then obtain ty p D A where m: "mirror_wf s'" "publishes s s' ty p" "event_effect T st ty p D A"
      "A \<subseteq> permission_space" "role_tuples s' = (role_tuples s - D) \<union> A" by (auto simp: mirrored_def)
    then obtain ev where "evs = [ev]" "effect T D A (tuple_writer_handle st ev)"
      using role_change(4) by (auto simp: publishes_def event_effect_def)
    moreover have "foldl shift (T f \<inter> permission_space) (ds @ [(D, A)]) = role_tuples s'"
      using ds(2) m(4,5) by (auto simp: shift_def)
    moreover from ds(1) calculation(1,2) have "list_all2 (\<lambda>ev d. effect T (fst d) (snd d) (tuple_writer_handle st ev))
        (q @ evs) (ds @ [(D, A)])" by (simp add: list_all2_appendI)
    ultimately show ?thesis unfolding will_mirror_def role_change(2) using m(1) by blast
  qed
next
  case (elsewhere s s' evs q f)
  from assms(3) elsewhere obtain ds where wf: "mirror_wf s"
    and ds: "list_all2 (\<lambda>ev d. effect T (fst d) (snd d) (tuple_writer_handle st ev)) q ds"
      "foldl shift (T f \<inter> permission_space) ds = role_tuples s" by (auto simp: will_mirror_def)
  have "\<exists>ds'. list_all2 (\<lambda>ev d. effect T (fst d) (snd d) (tuple_writer_handle st ev)) evs ds'
      \<and> foldl shift X ds' = X" if "X \<subseteq> permission_space" for X
    using elsewhere(4)
  proof (induction evs)
    case (Cons ev evs)
    then have "neutral T (tuple_writer_handle st ev)" by (intro other_event_neutral [OF laws]) auto
    then obtain D A where d: "effect T D A (tuple_writer_handle st ev)" "D \<inter> permission_space = {}" "A \<inter> permission_space = {}"
      by (auto simp: neutral_def)
    from Cons obtain ds' where "list_all2 (\<lambda>ev d. effect T (fst d) (snd d) (tuple_writer_handle st ev)) evs ds'"
      "foldl shift X ds' = X" by auto
    moreover have "shift X (D, A) = X" using that d by (auto simp: shift_def)
    ultimately show ?case using d(1) by (intro exI [of _ "(D, A) # ds'"]) simp
  qed simp
  from this [OF role_tuples_space [of s]] obtain ds' where
    "list_all2 (\<lambda>ev d. effect T (fst d) (snd d) (tuple_writer_handle st ev)) evs ds'" "foldl shift (role_tuples s) ds' = role_tuples s"
    by blast
  with ds show ?thesis unfolding will_mirror_def elsewhere(2)
    using mirror_wf_same [OF elsewhere(3) wf] role_tuples_same [OF elsewhere(3)]
    by (auto intro!: exI [of _ "ds @ ds'"] list_all2_appendI)
next
  case (attempt ev f r f' s q)
  from assms(3) attempt(1) obtain d ds where "mirror_wf s" and e: "effect T (fst d) (snd d) (tuple_writer_handle st ev)"
    and ds: "list_all2 (\<lambda>ev d. effect T (fst d) (snd d) (tuple_writer_handle st ev)) q ds"
      "foldl shift (shift (T f \<inter> permission_space) d) ds = role_tuples s"
    by (auto simp: will_mirror_def list_all2_Cons1)
  moreover have "shift (T f' \<inter> permission_space) d = shift (T f \<inter> permission_space) d"
    using effectD(1,2) [OF e attempt(3)] unfolding shift_def by blast
  ultimately show ?thesis unfolding will_mirror_def attempt(2) by (auto intro!: exI [of _ "d # ds"])
next
  case (acked ev f f' s q)
  from assms(3) acked(1) obtain d ds where "mirror_wf s" and e: "effect T (fst d) (snd d) (tuple_writer_handle st ev)"
    and ds: "list_all2 (\<lambda>ev d. effect T (fst d) (snd d) (tuple_writer_handle st ev)) q ds"
      "foldl shift (shift (T f \<inter> permission_space) d) ds = role_tuples s"
    by (auto simp: will_mirror_def list_all2_Cons1)
  moreover have "T f' \<inter> permission_space = shift (T f \<inter> permission_space) d"
    using effectD(3) [OF e acked(3)] unfolding shift_def by auto
  ultimately show ?thesis unfolding will_mirror_def acked(2) by (auto intro!: exI [of _ ds])
qed


text \<open>A team of a role with one permission, created and mirrored.\<close>

definition mirror_role :: org_role where
  "mirror_role = \<lparr>rl_id = ''r1'', rl_org = ''org:k1'', rl_name = ''reader'', rl_display = [], rl_description = [],
     rl_builtin = False, rl_permissions = [PermTenantRead], rl_created = 0, rl_updated = 0\<rparr>"

definition mirror_team :: team where
  "mirror_team = \<lparr>tm_id = [], tm_org = ''org:k1'', tm_name = ''ops'', tm_display = [], tm_role = ''r1'', tm_role_name = [],
     tm_path = ''p'', tm_created = 0\<rparr>"

definition mirror_before :: tenancy_db where
  "mirror_before = demo_tenancy\<lparr>organizations := [demo_org], org_roles := [mirror_role]\<rparr>"

definition mirror_after :: tenancy_db where
  "mirror_after = snd (create_team_tx ''ada'' mirror_team mirror_role mirror_before)"

definition mirror_event :: outbox_event where
  "mirror_event = hd (outbox_rows mirror_after)"

definition mirror_written :: "fga_tuple list" where
  "mirror_written = snd (tuple_writer_handle demo_store mirror_event [])"

lemma mirror_demo_write:
  "fst (create_team_tx ''ada'' mirror_team mirror_role mirror_before) = Inr (mirror_team\<lparr>tm_id := ''u'', tm_created := 100\<rparr>)"
  by code_simp

lemma mirror_demo_event: "length (outbox_rows mirror_after) = 1"
  by code_simp

lemma mirror_demo_handled: "fst (tuple_writer_handle demo_store mirror_event []) = Inr ()"
  by code_simp

lemma mirror_demo_written: "mirror_written = [mk_tuple ''team:u#member'' RelationTenantRead ''organization:k1'']"
  by code_simp

lemma mirror_demo_wf: "mirror_wf mirror_before" and mirror_demo_empty: "role_tuples mirror_before = {}"
  by (simp_all add: mirror_wf_def tenancy_wf_def role_tuples_def mirror_before_def demo_tenancy_def demo_org_def mirror_role_def)


end
