(* ===== verification/TenantDeletion.thy ===== *)
theory TenantDeletion
  imports TenancyMirror
begin

text \<open>
  Tenant decommissioning (internal/tenancy: deletion.go, deletion_resume.go): the request that
  freezes an organization and opens an approval, the handler of the decision, and the resumable
  teardown with its five steps. The identity provider, the store of tuples, the registry that
  revokes clusters and the approval service are parameters, as they are interfaces in the code.
\<close>

section \<open>Rows\<close>

record tenant_deletion =
  dl_org :: string
  dl_state :: string
  dl_step :: string
  dl_force :: bool
  dl_reason :: string
  dl_requester :: string
  dl_approval :: string
  dl_error :: string
  dl_snapshot :: json

text \<open>The rows of other components the queries of a deletion read: clusters, instances, cloud
  accounts, tenant zones and so on, with their kind, identifier, name and state.\<close>

record org_thing =
  ot_kind :: string
  ot_org :: string
  ot_id :: string
  ot_name :: string
  ot_state :: string

record deletion_db = tenancy_db +
  tenant_deletions :: "tenant_deletion list"
  org_things :: "org_thing list"

definition TenantDeletionStateAwaitingApproval :: string where "TenantDeletionStateAwaitingApproval = ''awaiting_approval''"
definition TenantDeletionStateDeleting :: string where "TenantDeletionStateDeleting = ''deleting''"
definition TenantDeletionStateFailed :: string where "TenantDeletionStateFailed = ''delete_failed''"

section \<open>The store\<close>

definition create_tenant_deletion :: "tenant_deletion \<Rightarrow> ('a deletion_db_scheme, unit) dbm" where
  "create_tenant_deletion d = sql (\<lambda>s.
     if list_ex (\<lambda>x. dl_org x = dl_org d) (tenant_deletions s) then (Inl (ErrUnique ''tenant_deletions_pkey''), s)
     else if \<not> list_ex (\<lambda>g. og_id g = dl_org d) (organizations s) then (Inl fk_violation, s)
     else (Inr (), s\<lparr>tenant_deletions := tenant_deletions s @ [d]\<rparr>))"

definition get_tenant_deletion :: "string \<Rightarrow> ('a deletion_db_scheme, tenant_deletion) dbm" where
  "get_tenant_deletion org = sql (\<lambda>s. case select_row (\<lambda>d. dl_org d = org) (tenant_deletions s) of
      None \<Rightarrow> (Inl DeletionNotFound, s) | Some d \<Rightarrow> (Inr d, s))"

definition set_tenant_deletion_approval :: "string \<Rightarrow> string \<Rightarrow> ('a deletion_db_scheme, unit) dbm" where
  "set_tenant_deletion_approval org i = sql (modify (\<lambda>s. s\<lparr>tenant_deletions :=
     update_rows (\<lambda>d. dl_org d = org) (\<lambda>d. d\<lparr>dl_approval := i\<rparr>) (tenant_deletions s)\<rparr>))"

definition update_tenant_deletion :: "string \<Rightarrow> string \<Rightarrow> string \<Rightarrow> string \<Rightarrow> ('a deletion_db_scheme, unit) dbm" where
  "update_tenant_deletion org st step e = sql (modify (\<lambda>s. s\<lparr>tenant_deletions :=
     update_rows (\<lambda>d. dl_org d = org) (\<lambda>d. d\<lparr>dl_state := st, dl_step := step, dl_error := e\<rparr>) (tenant_deletions s)\<rparr>))"

definition delete_tenant_deletion_row :: "string \<Rightarrow> ('a deletion_db_scheme, unit) dbm" where
  "delete_tenant_deletion_row org = sql (modify (\<lambda>s. s\<lparr>tenant_deletions :=
     filter (\<lambda>d. dl_org d \<noteq> org) (tenant_deletions s)\<rparr>))"

definition list_pending_tenant_deletions :: "('a deletion_db_scheme, tenant_deletion list) dbm" where
  "list_pending_tenant_deletions = sql (asks (\<lambda>s. filter (\<lambda>d. dl_state d = TenantDeletionStateDeleting
     \<or> dl_state d = TenantDeletionStateFailed) (tenant_deletions s)))"

text \<open>The four queries of the blockers, in order.\<close>

definition blocker_queries :: "(string \<times> (string \<Rightarrow> bool)) list" where
  "blocker_queries =
     [(''cluster'', \<lambda>st. \<not> (st = ''decommissioned'' \<or> st = ''revoked'')),
      (''instance'', \<lambda>st. st = ''pending'' \<or> st = ''deploying'' \<or> st = ''deleting''),
      (''cloud_account'', \<lambda>st. True),
      (''tenant_zone'', \<lambda>st. st \<noteq> ''closed'')]"

type_synonym dependency = "string \<times> string \<times> string \<times> string"

fun list_blockers :: "string \<Rightarrow> (string \<times> (string \<Rightarrow> bool)) list \<Rightarrow> ('a deletion_db_scheme, dependency list) dbm" where
  "list_blockers org [] = ret []"
| "list_blockers org ((kind, P) # qs) = bindE (sql (asks (\<lambda>s. map (\<lambda>t. (kind, ot_id t, ot_name t, ot_state t))
       (sort_names ot_id (filter (\<lambda>t. ot_kind t = kind \<and> ot_org t = org \<and> P (ot_state t)) (org_things s))))))
     (\<lambda>ds. bindE (list_blockers org qs) (\<lambda>rest. ret (ds @ rest)))"

definition list_deletion_blockers :: "string \<Rightarrow> ('a deletion_db_scheme, dependency list) dbm" where
  "list_deletion_blockers org = list_blockers org blocker_queries"

text \<open>The snapshot of the tuples to retract: \<open>encoding/json\<close> writes a nil slice as null. (It also
  sorts the keys of a map; the order of the fields of an object carries no meaning here.)\<close>

definition jlist_of :: "('x \<Rightarrow> json) \<Rightarrow> 'x list \<Rightarrow> json" where
  "jlist_of f xs = (if xs = [] then JNull else JArr (map f xs))"

definition membership_row_json :: "membership_payload \<Rightarrow> json" where
  "membership_row_json m = membership_json (mp_org m) (mp_team m) (mp_user m) (mp_role m)"

definition tenant_deleting_json :: "string \<Rightarrow> tenant_deleting \<Rightarrow> json" where
  "tenant_deleting_json slug p = JObj [(''orgId'', JStr (td_org p)), (''slug'', JStr slug),
     (''teams'', jlist_of team_seed_json (td_teams p)), (''members'', jlist_of membership_row_json (td_members p)),
     (''objects'', JObj (map (\<lambda>(typ, ids). (typ, jstrs ids)) (td_objects p)))]"

fun snapshot_teams :: "string \<Rightarrow> team list \<Rightarrow> ('a deletion_db_scheme, team_seed list) dbm" where
  "snapshot_teams org [] = ret []"
| "snapshot_teams org (t # ts) = bindE (get_role_by_id org (tm_role t)) (\<lambda>r.
     bindE (snapshot_teams org ts) (\<lambda>rest.
       ret (\<lparr>sd_team = tm_id t, sd_name = tm_name t, sd_permissions = rl_permissions r\<rparr> # rest)))"

definition snapshot_kinds :: "string list" where
  "snapshot_kinds = [''cluster'', ''cloud_account'', ''cluster_set'', ''policy_pack'', ''extension'', ''rollout'',
     ''drift_event'', ''tenant_zone'']"

fun snapshot_objects :: "string \<Rightarrow> string list \<Rightarrow> ('a deletion_db_scheme, (string \<times> string list) list) dbm" where
  "snapshot_objects org [] = ret []"
| "snapshot_objects org (k # ks) = bindE (sql (asks (\<lambda>s. map ot_id
       (filter (\<lambda>t. ot_kind t = k \<and> ot_org t = org) (org_things s))))) (\<lambda>ids.
     bindE (snapshot_objects org ks) (\<lambda>rest. ret (if ids = [] then rest else (k, ids) # rest)))"

definition tenant_snapshot :: "organization \<Rightarrow> ('a deletion_db_scheme, tenant_deleting) dbm" where
  "tenant_snapshot org = bindE (list_teams (og_id org)) (\<lambda>ts.
     bindE (snapshot_teams (og_id org) ts) (\<lambda>seeds.
     bindE (sql (asks (\<lambda>s. List.map_filter (\<lambda>m. map_option (\<lambda>t.
         \<lparr>mp_org = og_id org, mp_team = t, mp_user = mb_user m, mp_role = mb_role m\<rparr>) (mb_team m))
         (filter (\<lambda>m. mb_org m = og_id org) (memberships s))))) (\<lambda>members.
     bindE (snapshot_objects (og_id org) snapshot_kinds) (\<lambda>objects.
       ret \<lparr>td_org = og_id org, td_teams = seeds, td_members = members, td_objects = objects\<rparr>))))"

section \<open>The request\<close>

text \<open>\<open>gate\<close> is \<open>RequestLifecycleApproval\<close>: organization, action, requester and context to the id.\<close>

type_synonym 's deletion_gate = "string \<Rightarrow> string \<Rightarrow> string \<Rightarrow> json \<Rightarrow> ('s, string) dbm"

text \<open>The adapter of the approval service (cmd/inari-server/main.go).\<close>

definition deletion_approval_gate :: "'a deletion_db_scheme approvals_svc \<Rightarrow> 'a deletion_db_scheme deletion_gate" where
  "deletion_approval_gate svc org action requester ctx = bindE (request_lifecycle_approval svc
     \<lparr>li_org = org, li_action = action, li_requester = requester, li_context = ctx\<rparr>) (\<lambda>r. ret (ar_id r))"

definition deletion_context :: "organization \<Rightarrow> bool \<Rightarrow> string \<Rightarrow> json" where
  "deletion_context org force reason = JObj ([(''orgId'', JStr (og_id org)), (''slug'', JStr (og_slug org)),
     (''force'', JBool force)] @ (if reason = [] then [] else [(''reason'', JStr reason)]))"

definition freeze_tx ::
  "string \<Rightarrow> organization \<Rightarrow> bool \<Rightarrow> string \<Rightarrow> tenant_deleting \<Rightarrow> ('a deletion_db_scheme, unit) dbm" where
  "freeze_tx actor org force reason snap = with_tx (thenE (set_org_status (og_id org) OrgStatusDeleting)
     (thenE (record_audit (audit_ev (og_id org) actor ''tenant.decommission_requested'' ''organization'' (og_id org)
        (JObj [(''force'', JBool force), (''reason'', JStr reason)])))
     (thenE (create_tenant_deletion \<lparr>dl_org = og_id org, dl_state = TenantDeletionStateAwaitingApproval, dl_step = [],
        dl_force = force, dl_reason = reason, dl_requester = actor, dl_approval = [], dl_error = [],
        dl_snapshot = tenant_deleting_json (og_slug org) snap\<rparr>)
       (append_outbox (og_id org) ''tenant.deleting'' (tenant_deleting_json (og_slug org) snap)))))"

text \<open>An organization that is being deleted and has its row: the id of its approval, whatever it is.\<close>

definition pending_approval :: "organization \<Rightarrow> ('a deletion_db_scheme, string option) dbm" where
  "pending_approval org = (if og_status org = OrgStatusDeleting
     then catchE (bindE (get_tenant_deletion (og_id org)) (\<lambda>d. ret (Some (dl_approval d)))) (\<lambda>_. ret None)
     else ret None)"

definition delete_tenant ::
  "'a deletion_db_scheme deletion_gate option \<Rightarrow> string \<Rightarrow> string \<Rightarrow> bool \<Rightarrow> string \<Rightarrow> ('a deletion_db_scheme, string) dbm" where
  "delete_tenant gt actor slug force reason = bindE (get_organization_by_slug slug) (\<lambda>org.
     bindE (pending_approval org) (\<lambda>pending. case pending of
        Some i \<Rightarrow> ret i
      | None \<Rightarrow> bindE (list_deletion_blockers (og_id org)) (\<lambda>blockers.
          if blockers \<noteq> [] \<and> \<not> force then throw (DependencyError blockers)
          else bindE (tenant_snapshot org) (\<lambda>snap.
            thenE (freeze_tx actor org force reason snap)
              (case gt of
                 None \<Rightarrow> throw (ErrMsg ''deletion approval gate not wired'')
               | Some request \<Rightarrow> bindE (request (og_id org) ApprovalActionTenantDecommission actor
                     (deletion_context org force reason)) (\<lambda>i.
                   thenE (set_tenant_deletion_approval (og_id org) i) (ret i)))))))"

definition get_deletion :: "string \<Rightarrow> ('a deletion_db_scheme, tenant_deletion) dbm" where
  "get_deletion slug = bindE (get_organization_by_slug slug) (\<lambda>org. get_tenant_deletion (og_id org))"

definition deletion_dependencies :: "string \<Rightarrow> ('a deletion_db_scheme, dependency list) dbm" where
  "deletion_dependencies slug = bindE (get_organization_by_slug slug) (\<lambda>org. list_deletion_blockers (og_id org))"

section \<open>The teardown\<close>

record 's deleter =
  de_idp :: "'s idp"
  de_tuples :: "'s tuple_ops"
  de_clusters :: "((string \<Rightarrow> ('s, (string \<times> string) list) dbm) \<times> (string \<Rightarrow> string \<Rightarrow> ('s, unit) dbm)) option"
  de_text :: "err \<Rightarrow> string"

definition deletion_steps :: "string list" where
  "deletion_steps = [''revoke_clusters'', ''archive_audit'', ''fga_cleanup'', ''delete_keycloak_org'', ''delete_org_row'']"

definition mark_done :: "string \<Rightarrow> string \<Rightarrow> ('a deletion_db_scheme, unit) dbm" where
  "mark_done org step = update_tenant_deletion org TenantDeletionStateDeleting step []"

text \<open>A cluster is listed with its state.\<close>

definition step_revoke_clusters :: "'a deletion_db_scheme deleter \<Rightarrow> tenant_deletion \<Rightarrow> ('a deletion_db_scheme, unit) dbm" where
  "step_revoke_clusters d del = thenE
     (case de_clusters d of
        Some (lst, revoke) \<Rightarrow> (if dl_force del then bindE (lst (dl_org del)) (\<lambda>cs. each_do (\<lambda>(i, st).
            if st = ''decommissioned'' \<or> st = ''revoked'' then ret () else revoke ''system:tenant-deletion'' i) cs)
          else ret ())
      | None \<Rightarrow> ret ())
     (mark_done (dl_org del) ''revoke_clusters'')"

text \<open>\<open>INSERT INTO audit_archive SELECT ... ON CONFLICT (id) DO NOTHING\<close>, then the deletion of the
  archived rows and of the published outbox rows.\<close>

definition archive_rows :: "string \<Rightarrow> ('a deletion_db_scheme, unit) dbm" where
  "archive_rows org = sql (modify (\<lambda>s. s\<lparr>audit_archive := audit_archive s @
     filter (\<lambda>a. ev_org a = org \<and> ev_id a \<notin> set (map ev_id (audit_archive s))) (audit_rows s)\<rparr>))"

definition step_archive_audit :: "tenant_deletion \<Rightarrow> ('a deletion_db_scheme, unit) dbm" where
  "step_archive_audit del = with_tx (thenE (sql (ret ()))
     (thenE (archive_rows (dl_org del))
     (thenE (sql (modify (\<lambda>s. s\<lparr>audit_rows := filter (\<lambda>a. ev_org a \<noteq> dl_org del) (audit_rows s)\<rparr>)))
     (thenE (sql (modify (\<lambda>s. s\<lparr>outbox_rows := filter (\<lambda>e. \<not> (ob_org e = dl_org del \<and> ob_published e \<noteq> None)) (outbox_rows s)\<rparr>)))
       (mark_done (dl_org del) ''archive_audit'')))))"

definition step_fga_cleanup :: "'a deletion_db_scheme deleter \<Rightarrow> tenant_deletion \<Rightarrow> ('a deletion_db_scheme, unit) dbm" where
  "step_fga_cleanup d del = bindE (lift_sum (tenant_deleting_of (dl_snapshot del))) (\<lambda>p.
     bindE (lift_sum (tuples_for_tenant_deletion p)) (\<lambda>ts.
       thenE (if ts \<noteq> [] then to_delete (de_tuples d) ts else ret ())
         (mark_done (dl_org del) ''fga_cleanup'')))"

definition step_delete_keycloak_org :: "'a deletion_db_scheme deleter \<Rightarrow> tenant_deletion \<Rightarrow> ('a deletion_db_scheme, unit) dbm" where
  "step_delete_keycloak_org d del = bindE (get_organization_by_id (dl_org del)) (\<lambda>org.
     thenE (ip_delete_org (de_idp d) (og_kc org))
       (thenE (ip_delete_group (de_idp d) (''tenant-'' @ og_slug org))
         (mark_done (dl_org del) ''delete_keycloak_org'')))"

definition slug_from_snapshot :: "json \<Rightarrow> string" where
  "slug_from_snapshot j = (case tenant_deleting_of j of Inl _ \<Rightarrow> [] | Inr _ \<Rightarrow> (case jstring ''slug'' j of Inl _ \<Rightarrow> [] | Inr x \<Rightarrow> x))"

text \<open>The row of the organization and what cascades from it. The tables without a foreign key
  (\<open>secret_stores\<close>, \<open>scaffold_runs\<close>, \<open>tenant_zones\<close>, \<open>approval_config\<close>) are emptied before; of
  those only the zones and the approval configuration are part of the state.\<close>

definition delete_organization_cascade :: "string \<Rightarrow> ('a deletion_db_scheme, unit) dbm" where
  "delete_organization_cascade i = thenE (delete_organization i) (modify (\<lambda>s. s\<lparr>
     tenant_deletions := filter (\<lambda>d. dl_org d \<noteq> i) (tenant_deletions s),
     org_things := filter (\<lambda>t. ot_org t \<noteq> i) (org_things s),
     approvals := filter (\<lambda>a. ar_org a \<noteq> i) (approvals s)\<rparr>))"

definition step_delete_org_row :: "tenant_deletion \<Rightarrow> ('a deletion_db_scheme, unit) dbm" where
  "step_delete_org_row del = with_tx (thenE (sql (ret ())) (thenE (sql (ret ()))
     (thenE (sql (modify (\<lambda>s. s\<lparr>org_things := filter (\<lambda>t. \<not> (ot_kind t = ''tenant_zone'' \<and> ot_org t = dl_org del)) (org_things s)\<rparr>)))
     (thenE (sql (modify (\<lambda>s. s\<lparr>approval_configs := filter (\<lambda>c. cr_org c \<noteq> dl_org del) (approval_configs s)\<rparr>)))
     (thenE (emit (audit_ev (dl_org del) ''system:tenant-deletion'' ''tenant.deleted'' ''organization'' (dl_org del)
          (JObj [(''requestedBy'', JStr (dl_requester del)), (''force'', JBool (dl_force del))]))
        (dl_org del) ''tenant.deleted'' (JObj [(''orgId'', JStr (dl_org del)), (''slug'', JStr (slug_from_snapshot (dl_snapshot del)))]))
       (delete_organization_cascade (dl_org del)))))))"

definition run_step ::
  "'a deletion_db_scheme deleter \<Rightarrow> string \<Rightarrow> tenant_deletion \<Rightarrow> ('a deletion_db_scheme, unit) dbm" where
  "run_step d step del =
     (if step = ''revoke_clusters'' then step_revoke_clusters d del
      else if step = ''archive_audit'' then step_archive_audit del
      else if step = ''fga_cleanup'' then step_fga_cleanup d del
      else if step = ''delete_keycloak_org'' then step_delete_keycloak_org d del
      else if step = ''delete_org_row'' then step_delete_org_row del
      else throw (ErrMsg ''unknown step''))"

text \<open>The loop: a failing step marks the row failed, with the last completed step.\<close>

fun run_steps ::
  "'a deletion_db_scheme deleter \<Rightarrow> tenant_deletion \<Rightarrow> string list \<Rightarrow> ('a deletion_db_scheme, unit) dbm" where
  "run_steps d del [] = ret ()"
| "run_steps d del (step # steps) = thenE
     (catchE (run_step d step del) (\<lambda>e. thenE
        (catchE (update_tenant_deletion (dl_org del) TenantDeletionStateFailed (dl_step del) (de_text d e)) (\<lambda>_. ret ()))
        (throw e)))
     (run_steps d (del\<lparr>dl_step := step\<rparr>) steps)"

text \<open>The index after the last step with the recorded name; an unknown name starts over.\<close>

fun start_after :: "nat \<Rightarrow> string list \<Rightarrow> string \<Rightarrow> nat \<Rightarrow> nat" where
  "start_after i [] step start = start"
| "start_after i (x # xs) step start = start_after (Suc i) xs step (if x = step then Suc i else start)"

definition run_deletion :: "'a deletion_db_scheme deleter \<Rightarrow> string \<Rightarrow> ('a deletion_db_scheme, unit) dbm" where
  "run_deletion d org = bindE (catchE (bindE (get_tenant_deletion org) (\<lambda>x. ret (Some x)))
       (\<lambda>e. if e = DeletionNotFound then ret None else throw e)) (\<lambda>found. case found of
     None \<Rightarrow> ret ()
   | Some del \<Rightarrow> if dl_state del = TenantDeletionStateAwaitingApproval
       then throw (ErrMsg ''still awaiting approval; refusing to run'')
       else run_steps d del (drop (start_after 0 deletion_steps (dl_step del) 0) deletion_steps))"

text \<open>The scan at start-up logs a failure and goes on.\<close>

definition resume_pending_deletions :: "'a deletion_db_scheme deleter \<Rightarrow> ('a deletion_db_scheme, unit) dbm" where
  "resume_pending_deletions d = bindE (catchE list_pending_tenant_deletions (\<lambda>_. ret []))
     (each_do (\<lambda>del. catchE (run_deletion d (dl_org del)) (\<lambda>_. ret ())))"

definition retry_deletion ::
  "'a deletion_db_scheme deleter option \<Rightarrow> string \<Rightarrow> ('a deletion_db_scheme, tenant_deletion option) dbm" where
  "retry_deletion dl slug = bindE (get_organization_by_slug slug) (\<lambda>org.
     bindE (get_tenant_deletion (og_id org)) (\<lambda>del.
       if dl_state del \<noteq> TenantDeletionStateFailed then throw (ErrMsg ''deletion is not failed'')
       else thenE (update_tenant_deletion (og_id org) TenantDeletionStateDeleting (dl_step del) [])
         (case dl of
            None \<Rightarrow> throw (ErrMsg ''deleter not wired'')
          | Some d \<Rightarrow> thenE (run_deletion d (og_id org))
              (catchE (bindE (get_tenant_deletion (og_id org)) (\<lambda>x. ret (Some x)))
                (\<lambda>e. if e = DeletionNotFound then ret None else throw e)))))"

section \<open>The decision\<close>

definition mark_deletion_approved :: "string \<Rightarrow> ('a deletion_db_scheme, unit) dbm" where
  "mark_deletion_approved org = update_tenant_deletion org TenantDeletionStateDeleting [] []"

definition restore_tx :: "string \<Rightarrow> string \<Rightarrow> string \<Rightarrow> json option \<Rightarrow> ('a deletion_db_scheme, unit) dbm" where
  "restore_tx org i action snap = with_tx (thenE (set_org_status org OrgStatusActive)
     (thenE (record_audit (audit_ev org ''system:approvals'' action ''organization'' org (JObj [(''approvalId'', JStr i)])))
     (thenE (delete_tenant_deletion_row org)
       (case snap of
          None \<Rightarrow> ret ()
        | Some j \<Rightarrow> bindE (lift_sum (tenant_deleting_of j)) (\<lambda>p.
            append_outbox org ''tenant.restored'' (tenant_deleting_json (slug_from_snapshot j) p))))))"

definition restore_org :: "string \<Rightarrow> string \<Rightarrow> string \<Rightarrow> ('a deletion_db_scheme, unit) dbm" where
  "restore_org org i action = bindE (catchE (bindE (get_tenant_deletion org) (\<lambda>d. ret (Some (dl_snapshot d)))) (\<lambda>_. ret None))
     (restore_tx org i action)"

definition deny_deletion :: "string \<Rightarrow> string \<Rightarrow> ('a deletion_db_scheme, unit) dbm" where
  "deny_deletion org i = restore_org org i ''tenant.decommission_denied''"

definition abort_deletion :: "string \<Rightarrow> string \<Rightarrow> ('a deletion_db_scheme, unit) dbm" where
  "abort_deletion org i = restore_org org i ''tenant.decommission_cancelled''"

definition deletion_resume_events :: "string list" where
  "deletion_resume_events = [''approval.decided'', ''approval.cancelled'']"

definition deletion_resume_handle ::
  "'a deletion_db_scheme deleter \<Rightarrow> outbox_event \<Rightarrow> ('a deletion_db_scheme, unit) dbm" where
  "deletion_resume_handle d ev = bindE (lift_sum (jstring ''orgId'' (ob_payload ev))) (\<lambda>porg.
     bindE (lift_sum (jstring ''approvalId'' (ob_payload ev))) (\<lambda>i.
     bindE (lift_sum (jstring ''state'' (ob_payload ev))) (\<lambda>st.
     bindE (get_request porg i) (\<lambda>req.
       if ar_action req \<noteq> ApprovalActionTenantDecommission then ret ()
       else (case (jstring ''orgId'' (ar_spec req), jstring ''slug'' (ar_spec req)) of
           (Inr org, Inr slug) \<Rightarrow> if org = [] then throw (ErrMsg ''missing org context'')
             else if st = approval_state_str Approved then thenE (mark_deletion_approved org) (run_deletion d org)
             else if st = approval_state_str Cancelled then abort_deletion org i
             else deny_deletion org i
         | _ \<Rightarrow> throw (ErrMsg ''missing org context''))))))"

definition deletion_resume :: "'a deletion_db_scheme deleter \<Rightarrow> 'a deletion_db_scheme named_handler" where
  "deletion_resume d = \<lparr>h_name = ''tenant-deletion-resume'', h_types = deletion_resume_events, h_handle = deletion_resume_handle d\<rparr>"

end
