(* ===== verification/DeletionSafety.thy ===== *)
theory DeletionSafety
  imports TenantDeletion
begin

text \<open>
  What a decommissioning may and may not do: no teardown before the decision, the audit history
  survives every teardown, a finished teardown leaves nothing of the tenant, a denied one restores
  its tuples, and a request whose approval could not be opened freezes the tenant.
\<close>

section \<open>Calls to the outside\<close>

text \<open>A call that touches no table of the database: its effects are in the rest of the state.\<close>

definition external :: "('a deletion_db_scheme, 'x) dbm \<Rightarrow> bool" where
  "external m \<longleftrightarrow> (\<forall>s r s'. m s = (r, s') \<longrightarrow> deletion_db.truncate s' = deletion_db.truncate s)"

lemma externalD:
  assumes "external m" and "m s = (r, s')"
  shows "organizations s' = organizations s" "org_roles s' = org_roles s" "teams s' = teams s"
    "memberships s' = memberships s" "tenant_deletions s' = tenant_deletions s" "org_things s' = org_things s"
    "approvals s' = approvals s" "audit_rows s' = audit_rows s" "audit_archive s' = audit_archive s"
    "outbox_rows s' = outbox_rows s" "uuids s' = uuids s" "uuid_next s' = uuid_next s"
proof -
  from assms have "deletion_db.truncate s' = deletion_db.truncate s" by (auto simp: external_def)
  then show "organizations s' = organizations s" "org_roles s' = org_roles s" "teams s' = teams s"
    "memberships s' = memberships s" "tenant_deletions s' = tenant_deletions s" "org_things s' = org_things s"
    "approvals s' = approvals s" "audit_rows s' = audit_rows s" "audit_archive s' = audit_archive s"
    "outbox_rows s' = outbox_rows s" "uuids s' = uuids s" "uuid_next s' = uuid_next s"
    by (simp_all add: deletion_db.truncate_def)
qed

definition idp_external :: "'a deletion_db_scheme deleter \<Rightarrow> bool" where
  "idp_external d \<longleftrightarrow> (\<forall>i. external (ip_delete_org (de_idp d) i)) \<and> (\<forall>p. external (ip_delete_group (de_idp d) p))
     \<and> (\<forall>ts. external (to_delete (de_tuples d) ts))"

text \<open>The registry of clusters writes its own tables, the audit log and the outbox.\<close>

definition registry_keeps :: "('a deletion_db_scheme \<Rightarrow> bool) \<Rightarrow> 'a deletion_db_scheme deleter \<Rightarrow> bool" where
  "registry_keeps I d \<longleftrightarrow> (case de_clusters d of None \<Rightarrow> True | Some (lst, revoke) \<Rightarrow>
     (\<forall>org. preserves I (lst org)) \<and> (\<forall>actor i. preserves I (revoke actor i)))"

section \<open>A rule for the whole teardown\<close>

text \<open>An invariant of every statement of a teardown of \<open>org\<close> is an invariant of the teardown.\<close>

lemma preserves_each_do_mem: "(\<And>x. x \<in> set xs \<Longrightarrow> preserves I (f x)) \<Longrightarrow> preserves I (each_do f xs)"
  by (induction xs) (auto intro: preserves_rules)

text \<open>What a read needs of an invariant.\<close>

definition fault_stable :: "('a db_scheme \<Rightarrow> bool) \<Rightarrow> bool" where
  "fault_stable I \<longleftrightarrow> (\<forall>s fs. I s \<longrightarrow> I (s\<lparr>faults := fs\<rparr>))"

lemma tx_fault_stable: "tx_stable I \<Longrightarrow> fault_stable I"
  unfolding fault_stable_def by (blast intro: tx_stableD same_tables_faults)

lemma preserves_sql_fault:
  assumes "fault_stable I" and "preserves I f"
  shows "preserves I (sql f)"
proof (rule preservesI)
  fix s r s' assume I: "I s" and run: "sql f s = (r, s')"
  have "I (s\<lparr>faults := fs\<rparr>)" for fs using assms(1) I by (simp add: fault_stable_def)
  then show "I s'" using run I preservesD [OF assms(2)]
    by (cases "faults s") (auto simp: sql_def split: if_splits)
qed

definition teardown_keeps :: "('a deletion_db_scheme \<Rightarrow> bool) \<Rightarrow> 'a deletion_db_scheme deleter \<Rightarrow> string \<Rightarrow> bool" where
  "teardown_keeps I d org \<longleftrightarrow> fault_stable I \<and> registry_keeps I d
     \<and> (\<forall>i. preserves I (ip_delete_org (de_idp d) i)) \<and> (\<forall>p. preserves I (ip_delete_group (de_idp d) p))
     \<and> (\<forall>ts. preserves I (to_delete (de_tuples d) ts))
     \<and> (\<forall>st step e. preserves I (update_tenant_deletion org st step e))
     \<and> (\<forall>del. dl_org del = org \<longrightarrow> preserves I (step_archive_audit del))
     \<and> (\<forall>del. dl_org del = org \<longrightarrow> preserves I (step_delete_org_row del))"

lemma preserves_get_deletion: "fault_stable I \<Longrightarrow> preserves I (get_tenant_deletion org)"
  unfolding get_tenant_deletion_def by (rule preserves_sql_fault) (auto intro!: preservesI split: option.splits)

lemma preserves_run_step:
  assumes k: "teardown_keeps I d (dl_org del)"
  shows "preserves I (run_step d step del)"
proof -
  from k have st: "fault_stable I" and idp: "\<And>i. preserves I (ip_delete_org (de_idp d) i)" "\<And>p. preserves I (ip_delete_group (de_idp d) p)"
    and tu: "\<And>ts. preserves I (to_delete (de_tuples d) ts)"
    and up: "\<And>st step e. preserves I (update_tenant_deletion (dl_org del) st step e)"
    and txs: "preserves I (step_archive_audit del)" "preserves I (step_delete_org_row del)" and reg: "registry_keeps I d"
    by (simp_all add: teardown_keeps_def)
  have md: "preserves I (mark_done (dl_org del) x)" for x unfolding mark_done_def by (rule up)
  have get: "preserves I (get_organization_by_id i)" for i unfolding get_organization_by_id_def
    by (rule preserves_sql_fault [OF st]) (auto intro!: preservesI split: option.splits)
  have "preserves I (step_revoke_clusters d del)"
  proof (cases "de_clusters d")
    case None
    then show ?thesis by (simp add: step_revoke_clusters_def preserves_thenE preserves_ret md)
  next
    case (Some c)
    obtain lst revoke where c: "c = (lst, revoke)" by fastforce
    with Some reg have "preserves I (lst g)" "preserves I (revoke a i)" for g a i by (simp_all add: registry_keeps_def)
    then show ?thesis unfolding step_revoke_clusters_def Some c option.case prod.case
      by (intro preserves_thenE md preserves_if preserves_bindE preserves_each_do preserves_ret)
         (auto intro: preserves_ret split: prod.splits)
  qed
  moreover have "preserves I (step_fga_cleanup d del)" unfolding step_fga_cleanup_def
    by (intro preserves_bindE preserves_lift_sum preserves_thenE preserves_if preserves_ret md tu)
  moreover have "preserves I (step_delete_keycloak_org d del)" unfolding step_delete_keycloak_org_def
    by (intro preserves_bindE preserves_thenE md idp get)
  ultimately show ?thesis unfolding run_step_def using txs by (intro preserves_if preserves_throw)
qed

lemma preserves_run_steps:
  assumes "teardown_keeps I d (dl_org del)"
  shows "preserves I (run_steps d del steps)"
  using assms
proof (induction steps arbitrary: del)
  case (Cons step steps)
  from Cons.prems have up: "preserves I (update_tenant_deletion (dl_org del) st x e)" for st x e
    by (simp add: teardown_keeps_def)
  have "preserves I (run_steps d (del\<lparr>dl_step := step\<rparr>) steps)" using Cons.prems by (intro Cons.IH) simp
  then show ?case unfolding run_steps.simps
    by (intro preserves_thenE preserves_catchE preserves_run_step [OF Cons.prems] preserves_throw preserves_ret up)
qed (simp add: preserves_ret)

text \<open>A run that is not refused.\<close>

lemma preserves_run_deletion:
  assumes "teardown_keeps I d org"
  shows "preserves I (run_deletion d org)"
proof (rule preservesI)
  fix s r s' assume I: "I s" and run: "run_deletion d org s = (r, s')"
  have st: "fault_stable I" using assms by (simp add: teardown_keeps_def)
  obtain g a where 1: "get_tenant_deletion org s = (g, a)" by fastforce
  have Ia: "I a" by (rule preservesD [OF preserves_get_deletion [OF st] I 1])
  show "I s'"
  proof (cases g)
    case (Inl e)
    with run 1 Ia show ?thesis by (auto simp: run_deletion_def dbm_defs split: if_splits)
  next
    case (Inr del)
    with 1 have "dl_org del = org" unfolding get_tenant_deletion_def
      by (auto elim!: sql_okE dest: select_row_SomeD split: option.splits)
    then have "preserves I (run_steps d del steps)" for steps using assms by (intro preserves_run_steps) simp
    from preservesD [OF this Ia] run 1 Inr Ia show ?thesis
      by (auto simp: run_deletion_def dbm_defs split: if_splits)
  qed
qed

section \<open>No teardown before the decision\<close>

definition waiting :: "string \<Rightarrow> json \<Rightarrow> 'a deletion_db_scheme \<Rightarrow> bool" where
  "waiting org snap s \<longleftrightarrow> (\<exists>d \<in> set (tenant_deletions s). dl_org d = org)
     \<and> (\<forall>d \<in> set (tenant_deletions s). dl_org d = org \<longrightarrow> dl_state d = TenantDeletionStateAwaitingApproval \<and> dl_snapshot d = snap)
     \<and> (\<exists>g \<in> set (organizations s). og_id g = org)
     \<and> (\<forall>g \<in> set (organizations s). og_id g = org \<longrightarrow> og_status g = OrgStatusDeleting)"

lemma log_stable_waiting: "log_stable (waiting org snap)"
  by (simp add: log_stable_def waiting_def)

lemma waiting_same: "organizations s' = organizations s \<Longrightarrow> tenant_deletions s' = tenant_deletions s \<Longrightarrow>
    waiting org snap s \<Longrightarrow> waiting org snap s'"
  by (simp add: waiting_def)

text \<open>\<open>row_quiet\<close>: a call that leaves the organizations and the deletions alone.\<close>

definition row_quiet :: "('a deletion_db_scheme, 'x) dbm \<Rightarrow> bool" where
  "row_quiet m \<longleftrightarrow> (\<forall>s r s'. m s = (r, s') \<longrightarrow> organizations s' = organizations s \<and> tenant_deletions s' = tenant_deletions s)"

lemma row_quiet_waiting: "row_quiet m \<Longrightarrow> preserves (waiting org snap) m"
  by (rule preservesI) (auto simp: row_quiet_def intro: waiting_same)

lemma external_row_quiet: "external m \<Longrightarrow> row_quiet m"
  by (simp add: row_quiet_def externalD)

definition registry_row_quiet :: "'a deletion_db_scheme deleter \<Rightarrow> bool" where
  "registry_row_quiet d \<longleftrightarrow> (case de_clusters d of None \<Rightarrow> True | Some (lst, revoke) \<Rightarrow>
     (\<forall>org. row_quiet (lst org)) \<and> (\<forall>actor i. row_quiet (revoke actor i)))"

lemma waiting_update: "org' \<noteq> org \<Longrightarrow> preserves (waiting org snap) (update_tenant_deletion org' st step e)"
  unfolding update_tenant_deletion_def
  by (rule preserves_sql_body [OF log_stable_waiting]) (auto simp: modify_def waiting_def bex_update_rows ball_update_rows)

lemma waiting_teardown:
  assumes ne: "org' \<noteq> org" and idp: "idp_external d" and reg: "registry_row_quiet d"
  shows "teardown_keeps (waiting org snap) d org'"
  unfolding teardown_keeps_def
proof (intro conjI allI impI)
  note st = log_stable_tx_stable [OF log_stable_waiting]
  show "fault_stable (waiting org snap)" by (rule tx_fault_stable [OF st])
  show "registry_keeps (waiting org snap) d"
    using reg by (auto simp: registry_keeps_def registry_row_quiet_def row_quiet_waiting split: option.splits)
  show "preserves (waiting org snap) (ip_delete_org (de_idp d) i)" "preserves (waiting org snap) (ip_delete_group (de_idp d) q)"
    "preserves (waiting org snap) (to_delete (de_tuples d) ts)" for i q ts
    using idp by (auto simp: idp_external_def intro!: row_quiet_waiting external_row_quiet)
  show "preserves (waiting org snap) (update_tenant_deletion org' state step e)" for state step e by (rule waiting_update [OF ne])
  fix del :: tenant_deletion assume del: "dl_org del = org'"
  have sql: "preserves (waiting org snap) (sql (ret ()))" by (rule preserves_sql [OF st preserves_ret])
  have "preserves (waiting org snap) (sql (modify f))"
    if "\<And>s. organizations (f s) = organizations s" "\<And>s. tenant_deletions (f s) = tenant_deletions s" for f
    by (rule preserves_sql_body [OF log_stable_waiting]) (auto simp: modify_def intro: waiting_same [OF that])
  note mods = this
  show "preserves (waiting org snap) (step_archive_audit del)"
    unfolding step_archive_audit_def archive_rows_def mark_done_def del
    by (intro preserves_with_tx st preserves_thenE sql mods waiting_update [OF ne]) simp_all
  have "preserves (waiting org snap) (delete_organization_cascade org')"
    unfolding delete_organization_cascade_def delete_organization_def
    by (intro preserves_thenE preserves_sql_body [OF log_stable_waiting] preserves_modify)
       (use ne in \<open>auto simp: modify_def waiting_def\<close>)
  then show "preserves (waiting org snap) (step_delete_org_row del)"
    unfolding step_delete_org_row_def del
    by (intro preserves_with_tx st preserves_thenE sql mods preserves_emit log_stable_waiting) simp_all
qed

text \<open>A run for the waiting organization itself refuses.\<close>

lemma run_refused:
  assumes w: "waiting org snap s" and run: "run_deletion d org s = (r, s')"
  shows "same_tables s s' \<and> (\<exists>e. r = Inl e)"
proof -
  obtain g a where 1: "get_tenant_deletion org s = (g, a)" by fastforce
  have st: "same_tables s a"
    using 1 unfolding get_tenant_deletion_def by (auto intro!: read_onlyD [OF read_only_sql] simp: read_only_def split: option.splits)
  show ?thesis
  proof (cases g)
    case (Inl e)
    have "e \<noteq> DeletionNotFound"
    proof
      assume e: "e = DeletionNotFound"
      from 1 [unfolded Inl e get_tenant_deletion_def] have "select_row (\<lambda>d. dl_org d = org) (tenant_deletions s) = None"
        by (cases rule: sql_runE) (auto split: option.splits)
      with w show False by (auto simp: select_row_None_iff waiting_def)
    qed
    with run 1 Inl st show ?thesis by (auto simp: run_deletion_def dbm_defs)
  next
    case (Inr del)
    with 1 have "select_row (\<lambda>d. dl_org d = org) (tenant_deletions s) = Some del"
      unfolding get_tenant_deletion_def by (auto elim!: sql_okE split: option.splits)
    with w have "dl_state del = TenantDeletionStateAwaitingApproval" by (auto dest: select_row_SomeD simp: waiting_def)
    with run 1 Inr st show ?thesis by (auto simp: run_deletion_def dbm_defs)
  qed
qed

lemma waiting_run:
  assumes "idp_external d" and "registry_row_quiet d"
  shows "preserves (waiting org snap) (run_deletion d org')"
proof (cases "org' = org")
  case True
  show ?thesis
  proof (rule preservesI)
    fix s r s' assume w: "waiting org snap s" and run: "run_deletion d org' s = (r, s')"
    from run_refused [OF w run [unfolded True]] have "same_tables s s'" by simp
    then show "waiting org snap s'" using w tx_stableD [OF log_stable_tx_stable [OF log_stable_waiting]] by blast
  qed
next
  case False
  then show ?thesis using assms by (intro preserves_run_deletion waiting_teardown)
qed

lemma preserves_reading:
  assumes st: "tx_stable I"
  shows "preserves I (get_organization_by_slug sl)" "preserves I (get_tenant_deletion i)" "preserves I (list_deletion_blockers i)"
    "preserves I (tenant_snapshot g)" "preserves I (pending_approval g)" "preserves I list_pending_tenant_deletions"
    "preserves I (get_request i j)"
proof -
  show g: "preserves I (get_organization_by_slug sl)"
    unfolding get_organization_by_slug_def by (rule preserves_sql [OF st]) (auto intro!: preservesI split: option.splits)
  show d: "preserves I (get_tenant_deletion i)" for i by (rule preserves_get_deletion [OF tx_fault_stable [OF st]])
  have "preserves I (list_blockers i qs)" for qs
    by (induction i qs rule: list_blockers.induct) (auto intro!: preserves_bindE preserves_ret preserves_sql [OF st preserves_asks])
  then show "preserves I (list_deletion_blockers i)" by (simp add: list_deletion_blockers_def)
  have role: "preserves I (get_role_by_id a b)" for a b
    unfolding get_role_by_id_def by (rule preserves_sql [OF st]) (auto intro!: preservesI split: option.splits)
  have 1: "preserves I (snapshot_teams a ts)" for a ts
    by (induction a ts rule: snapshot_teams.induct) (auto intro!: preserves_bindE preserves_ret role)
  have 2: "preserves I (snapshot_objects a ks)" for a ks
    by (induction a ks rule: snapshot_objects.induct) (auto intro!: preserves_bindE preserves_ret preserves_sql [OF st preserves_asks])
  show "preserves I (tenant_snapshot g)" unfolding tenant_snapshot_def list_teams_def
    by (intro preserves_bindE preserves_ret 1 2 preserves_sql [OF st preserves_asks])
  show "preserves I (pending_approval g)" unfolding pending_approval_def
    by (intro preserves_if preserves_catchE preserves_bindE preserves_ret d)
  show "preserves I list_pending_tenant_deletions" unfolding list_pending_tenant_deletions_def
    by (rule preserves_sql [OF st preserves_asks])
  have "preserves I (get_approval j)" unfolding get_approval_def
    by (rule preserves_sql [OF st]) (auto intro!: preservesI split: option.splits)
  then show "preserves I (get_request i j)" unfolding get_request_def
    by (intro preserves_bindE preserves_if preserves_throw preserves_ret)
qed

lemma waiting_freeze: "preserves (waiting org snap) (freeze_tx actor g force reason sn)"
proof -
  note st = log_stable_tx_stable [OF log_stable_waiting]
  have 1: "preserves (waiting org snap) (set_org_status i OrgStatusDeleting)" for i
    unfolding set_org_status_def
    by (rule preserves_sql_body [OF log_stable_waiting]) (auto simp: modify_def waiting_def bex_update_rows ball_update_rows)
  have 2: "preserves (waiting org snap) (create_tenant_deletion x)" for x
    unfolding create_tenant_deletion_def
    by (rule preserves_sql_body [OF log_stable_waiting]) (auto simp: waiting_def list_ex_iff split: if_splits)
  show ?thesis unfolding freeze_tx_def
    by (intro preserves_with_tx st preserves_thenE 1 2 preserves_rules log_stable_waiting)
qed

lemma waiting_delete_tenant:
  assumes "\<And>request g a r c. gt = Some request \<Longrightarrow> row_quiet (request g a r c)"
  shows "preserves (waiting org snap) (delete_tenant gt actor slug force reason)"
proof -
  note reads = preserves_reading [OF log_stable_tx_stable [OF log_stable_waiting]]
  have app: "preserves (waiting org snap) (set_tenant_deletion_approval i x)" for i x
    unfolding set_tenant_deletion_approval_def
    by (rule preserves_sql_body [OF log_stable_waiting]) (auto simp: modify_def waiting_def bex_update_rows ball_update_rows)
  show ?thesis unfolding delete_tenant_def
    by (intro preserves_bindE preserves_thenE preserves_case_option preserves_if preserves_throw preserves_ret reads
        waiting_freeze app row_quiet_waiting assms)
qed

lemma waiting_restore:
  assumes "org' \<noteq> org"
  shows "preserves (waiting org snap) (restore_org org' i act)"
proof -
  note st = log_stable_tx_stable [OF log_stable_waiting]
  have 1: "preserves (waiting org snap) (set_org_status org' status)" for status
    unfolding set_org_status_def using assms
    by (intro preserves_sql_body [OF log_stable_waiting]) (auto simp: modify_def waiting_def bex_update_rows ball_update_rows)
  have 2: "preserves (waiting org snap) (delete_tenant_deletion_row org')"
    unfolding delete_tenant_deletion_row_def using assms
    by (intro preserves_sql_body [OF log_stable_waiting]) (auto simp: modify_def waiting_def)
  show ?thesis unfolding restore_org_def restore_tx_def
    by (intro preserves_bindE preserves_catchE preserves_with_tx st preserves_thenE preserves_case_option preserves_ret
        preserves_lift_sum preserves_reading [OF st] 1 2 preserves_rules log_stable_waiting)
qed

lemma waiting_retry:
  assumes "idp_external d" and "registry_row_quiet d"
  shows "preserves (waiting org snap) (retry_deletion (Some d) slug)"
proof (rule preservesI)
  fix s r s' assume w: "waiting org snap s" and run: "retry_deletion (Some d) slug s = (r, s')"
  note st = log_stable_tx_stable [OF log_stable_waiting]
  obtain g a where 1: "get_organization_by_slug slug s = (g, a)" by fastforce
  note wa = preservesD [OF preserves_reading(1) [OF st] w 1]
  show "waiting org snap s'"
  proof (cases g)
    case (Inl e)
    with run 1 wa show ?thesis by (auto simp: retry_deletion_def dbm_defs)
  next
    case (Inr o')
    obtain h b where 2: "get_tenant_deletion (og_id o') a = (h, b)" by fastforce
    note wb = preservesD [OF preserves_reading(2) [OF st] wa 2]
    show ?thesis
    proof (cases h)
      case (Inl e)
      with run 1 2 Inr wb show ?thesis by (auto simp: retry_deletion_def dbm_defs)
    next
      case (Inr del)
      with 2 have sel: "select_row (\<lambda>x. dl_org x = og_id o') (tenant_deletions a) = Some del"
        unfolding get_tenant_deletion_def by (auto elim!: sql_okE split: option.splits)
      show ?thesis
      proof (cases "dl_state del \<noteq> TenantDeletionStateFailed")
        case True
        with run 1 2 \<open>g = Inr o'\<close> Inr wb show ?thesis by (auto simp: retry_deletion_def dbm_defs)
      next
        case False
        have "og_id o' \<noteq> org"
        proof
          assume "og_id o' = org"
          then have "dl_state del = TenantDeletionStateAwaitingApproval"
            using wa select_row_SomeD [OF sel] by (auto simp: waiting_def)
          then show False using False by (simp add: TenantDeletionStateAwaitingApproval_def TenantDeletionStateFailed_def)
        qed
        then have rest: "preserves (waiting org snap) (thenE (update_tenant_deletion (og_id o') TenantDeletionStateDeleting (dl_step del) [])
           (thenE (run_deletion d (og_id o')) (catchE (bindE (get_tenant_deletion (og_id o')) (\<lambda>x. ret (Some x)))
                (\<lambda>e. if e = DeletionNotFound then ret None else throw e))))"
          by (intro preserves_thenE waiting_update waiting_run [OF assms] preserves_catchE preserves_bindE preserves_reading [OF st]
              preserves_ret preserves_if preserves_throw)
        from run 1 2 \<open>g = Inr o'\<close> Inr False have "thenE (update_tenant_deletion (og_id o') TenantDeletionStateDeleting (dl_step del) [])
           (thenE (run_deletion d (og_id o')) (catchE (bindE (get_tenant_deletion (og_id o')) (\<lambda>x. ret (Some x)))
                (\<lambda>e. if e = DeletionNotFound then ret None else throw e))) b = (r, s')"
          by (simp add: retry_deletion_def bindE_def)
        from preservesD [OF rest wb this] show ?thesis .
      qed
    qed
  qed
qed

text \<open>
  The system as far as a decommissioning goes: requests, runs, the scan at start-up, retries, the
  handler of a decision, and anything that leaves the organizations and the deletions alone (among it
  the expiry of approvals). \<open>decides org ev s\<close>: the event's approval is the decommissioning of \<open>org\<close>.
\<close>

definition decides :: "string \<Rightarrow> outbox_event \<Rightarrow> 'a deletion_db_scheme \<Rightarrow> bool" where
  "decides org ev s \<longleftrightarrow> (\<exists>a \<in> set (approvals s). jstring ''approvalId'' (ob_payload ev) = Inr (ar_id a)
     \<and> ar_action a = ApprovalActionTenantDecommission \<and> jstring ''orgId'' (ar_spec a) = Inr org)"

inductive deletion_step ::
  "'a deletion_db_scheme deleter \<Rightarrow> 'a deletion_db_scheme deletion_gate option \<Rightarrow> string \<Rightarrow>
   'a deletion_db_scheme \<Rightarrow> 'a deletion_db_scheme \<Rightarrow> bool" for d gt org where
  requested: "delete_tenant gt actor slug force reason s = (r, s') \<Longrightarrow> deletion_step d gt org s s'"
| ran: "run_deletion d org' s = (u, s') \<Longrightarrow> deletion_step d gt org s s'"
| resumed: "resume_pending_deletions d s = (u, s') \<Longrightarrow> deletion_step d gt org s s'"
| retried: "retry_deletion (Some d) slug s = (v, s') \<Longrightarrow> deletion_step d gt org s s'"
| decided: "\<not> decides org ev s \<Longrightarrow> deletion_resume_handle d ev s = (u, s') \<Longrightarrow> deletion_step d gt org s s'"
| aside: "organizations s' = organizations s \<Longrightarrow> tenant_deletions s' = tenant_deletions s \<Longrightarrow> deletion_step d gt org s s'"

lemma get_request_okD:
  assumes "get_request porg i s = (Inr req, s')"
  shows "req \<in> set (approvals s)" "ar_id req = i"
  using assms unfolding get_request_def get_approval_def
  by (auto elim!: bindE_okE sql_okE throw_okE ret_okE dest: select_row_SomeD split: option.splits if_splits)

lemma waiting_handle:
  assumes ext: "idp_external d" and reg: "registry_row_quiet d" and w: "waiting org snap s" and nd: "\<not> decides org ev s"
    and run: "deletion_resume_handle d ev s = (r, s')"
  shows "waiting org snap s'"
proof -
  note st = log_stable_tx_stable [OF log_stable_waiting]
  consider (bad) e where "r = Inl e" "s' = s"
    | (ok) porg i st where "jstring ''orgId'' (ob_payload ev) = Inr porg" "jstring ''approvalId'' (ob_payload ev) = Inr i"
      "jstring ''state'' (ob_payload ev) = Inr st"
    using run unfolding deletion_resume_handle_def
    by (cases "jstring ''orgId'' (ob_payload ev)"; cases "jstring ''approvalId'' (ob_payload ev)"; cases "jstring ''state'' (ob_payload ev)")
       (auto simp: dbm_defs)
  then show ?thesis
  proof cases
    case bad
    with w show ?thesis by simp
  next
    case (ok porg i state)
    obtain g a where 1: "get_request porg i s = (g, a)" by fastforce
    note wa = preservesD [OF preserves_reading(7) [OF st] w 1]
    show ?thesis
    proof (cases g)
      case (Inl e)
      with run ok 1 wa show ?thesis by (simp add: deletion_resume_handle_def dbm_defs)
    next
      case (Inr req)
      define rest where "rest = (if ar_action req \<noteq> ApprovalActionTenantDecommission then ret ()
       else (case (jstring ''orgId'' (ar_spec req), jstring ''slug'' (ar_spec req)) of
           (Inr org, Inr slug) \<Rightarrow> if org = [] then throw (ErrMsg ''missing org context'')
             else if state = approval_state_str Approved then thenE (mark_deletion_approved org) (run_deletion d org)
             else if state = approval_state_str Cancelled then abort_deletion org i
             else deny_deletion org i
         | _ \<Rightarrow> throw (ErrMsg ''missing org context'')))"
      from run ok 1 Inr have r: "rest a = (r, s')" by (simp add: deletion_resume_handle_def rest_def dbm_defs)
      note req = get_request_okD [OF 1 [unfolded Inr]]
      have other: "o1 \<noteq> org" if "ar_action req = ApprovalActionTenantDecommission" "jstring ''orgId'' (ar_spec req) = Inr o1" for o1
        using nd req ok(2) that unfolding decides_def by blast
      have "preserves (waiting org snap) rest"
      proof (cases "ar_action req \<noteq> ApprovalActionTenantDecommission")
        case True
        then show ?thesis by (simp add: rest_def preserves_ret)
      next
        case False
        then show ?thesis
          unfolding rest_def mark_deletion_approved_def abort_deletion_def deny_deletion_def using other
          by (auto intro!: preserves_rules waiting_update waiting_restore waiting_run [OF ext reg] split: sum.splits)
      qed
      from preservesD [OF this wa r] show ?thesis .
    qed
  qed
qed

text \<open>
  (C5) No teardown before the decision. While the decommissioning of an organization waits for its
  approval, no request, run, retry, scan at start-up, decision about another organization or other
  activity, in any interleaving and with any statements failing, moves its deletion out of the
  waiting state, changes the snapshot, or removes or unfreezes the organization.
\<close>

theorem undecided_deletion_waits:
  assumes "idp_external d" and "registry_row_quiet d"
    and "\<And>request g a r c. gt = Some request \<Longrightarrow> row_quiet (request g a r c)"
    and "waiting org snap s" and "(deletion_step d gt org)\<^sup>*\<^sup>* s s'"
  shows "waiting org snap s'"
  using assms(5,4)
proof (induction rule: rtranclp_induct)
  case (step y z)
  from step.IH [OF step.prems] have w: "waiting org snap y" .
  from step.hyps(2) show ?case
  proof cases
    case (requested actor slug force reason r)
    have "preserves (waiting org snap) (delete_tenant gt actor slug force reason)"
      by (rule waiting_delete_tenant) (rule assms(3))
    from preservesD [where I = "waiting org snap" and m = "delete_tenant gt actor slug force reason", OF this w requested] show ?thesis .
  next
    case (ran org' u)
    have "preserves (waiting org snap) (run_deletion d org')" by (rule waiting_run [OF assms(1,2)])
    from preservesD [where I = "waiting org snap" and m = "run_deletion d org'", OF this w ran] show ?thesis .
  next
    case (resumed u)
    have "preserves (waiting org snap) (resume_pending_deletions d)" unfolding resume_pending_deletions_def
      by (intro preserves_bindE preserves_catchE preserves_each_do preserves_ret waiting_run [OF assms(1,2)]
          preserves_reading [OF log_stable_tx_stable [OF log_stable_waiting]])
    from preservesD [where I = "waiting org snap" and m = "resume_pending_deletions d", OF this w resumed] show ?thesis .
  next
    case (retried slug v)
    have "preserves (waiting org snap) (retry_deletion (Some d) slug)" by (rule waiting_retry [OF assms(1,2)])
    from preservesD [where I = "waiting org snap" and m = "retry_deletion (Some d) slug", OF this w retried] show ?thesis .
  next
    case decided
    then show ?thesis using waiting_handle [OF assms(1,2) w] by blast
  next
    case aside
    then show ?thesis using waiting_same w by blast
  qed
qed

lemma deletion_approval_gate_quiet: "row_quiet (deletion_approval_gate svc g a r c)"
proof -
  have I: "preserves (\<lambda>s. organizations s = gs \<and> tenant_deletions s = ds) (deletion_approval_gate svc g a r c)" for gs ds
  proof -
    have ls: "log_stable (\<lambda>s. organizations s = gs \<and> tenant_deletions s = ds)" by (simp add: log_stable_def)
    have "preserves (\<lambda>s. organizations s = gs \<and> tenant_deletions s = ds) (create_lifecycle x)" for x
      unfolding create_lifecycle_def insert_approval_def
      by (rule preserves_sql_body [OF ls]) (auto simp: bindE_def new_uuid_def Let_def split: if_splits)
    then show ?thesis unfolding deletion_approval_gate_def request_lifecycle_approval_def log_approval_def
      by (intro preserves_bindE preserves_ret preserves_if preserves_throw preserves_asks preserves_with_tx
          log_stable_tx_stable ls preserves_thenE preserves_emit)
  qed
  show ?thesis unfolding row_quiet_def using preservesD [OF I] by blast
qed

text \<open>A request that waits for its approval, a run that is refused, and the expiry of approvals.\<close>

definition demo_idp :: "'s idp" where
  "demo_idp = \<lparr>ip_create_org = (\<lambda>_ _. ret ''k1''), ip_update_org = (\<lambda>_ _. ret ()), ip_delete_org = (\<lambda>_. ret ()),
     ip_create_group = (\<lambda>_. ret ()), ip_delete_group = (\<lambda>_. ret ()), ip_add_org_member = (\<lambda>_ _. ret ()),
     ip_remove_org_member = (\<lambda>_ _. ret ()), ip_add_group_member = (\<lambda>_ _. ret ()), ip_remove_group_member = (\<lambda>_ _. ret ()),
     ip_list_group_members = (\<lambda>_. ret []), ip_get_user = (\<lambda>_. throw UserNotFound), ip_get_user_by_email = (\<lambda>_. throw UserNotFound)\<rparr>"

definition demo_deleter :: "deletion_db deleter" where
  "demo_deleter = \<lparr>de_idp = demo_idp, de_tuples = \<lparr>to_read = (\<lambda>_ _. ret []), to_write = (\<lambda>_. ret ()), to_delete = (\<lambda>_. ret ())\<rparr>,
     de_clusters = None, de_text = (\<lambda>_. ''failed'')\<rparr>"

definition demo_deletion_db :: deletion_db where
  "demo_deletion_db = \<lparr>faults = [], clock = 100, uuids = (\<lambda>n. replicate n (CHR ''u'')), uuid_next = 1,
     audit_rows = [], audit_archive = [], outbox_rows = [], outbox_seq = 1, approvals = [], approval_configs = [],
     organizations = [demo_org\<lparr>og_status := OrgStatusActive\<rparr>], org_roles = [], teams = [], memberships = [], tenant_users = [],
     tenant_deletions = [], org_things = []\<rparr>"

definition demo_gate :: "deletion_db deletion_gate" where
  "demo_gate = deletion_approval_gate \<lparr>svc_roles = None, svc_items = (\<lambda>_. throw ErrNoRows), svc_ttl = DefaultTTL, svc_platform = None\<rparr>"

definition demo_requested :: deletion_db where
  "demo_requested = snd (delete_tenant (Some demo_gate) ''ada'' ''acme'' False ''bye'' demo_deletion_db)"

definition demo_snapshot :: json where
  "demo_snapshot = tenant_deleting_json ''acme'' \<lparr>td_org = ''org:k1'', td_teams = [], td_members = [], td_objects = []\<rparr>"

lemma demo_requested_rows:
  "organizations demo_requested = [demo_org\<lparr>og_status := OrgStatusDeleting\<rparr>]"
  "map dl_org (tenant_deletions demo_requested) = [''org:k1'']"
  "map dl_state (tenant_deletions demo_requested) = [TenantDeletionStateAwaitingApproval]"
  "map dl_snapshot (tenant_deletions demo_requested) = [demo_snapshot]"
  by code_simp+

lemma demo_requested_waits: "waiting ''org:k1'' demo_snapshot demo_requested"
  using demo_requested_rows(2-4) unfolding waiting_def demo_requested_rows(1)
  by (auto simp: demo_org_def Cons_eq_map_conv)

lemma undecided_deletion_waits_witness:
  "waiting ''org:k1'' demo_snapshot (snd (run_deletion demo_deleter ''org:k1'' demo_requested))"
proof -
  have "deletion_step demo_deleter (Some demo_gate) ''org:k1'' demo_requested (snd (run_deletion demo_deleter ''org:k1'' demo_requested))"
    by (rule ran) (rule prod.collapse [symmetric])
  then have steps: "(deletion_step demo_deleter (Some demo_gate) ''org:k1'')\<^sup>*\<^sup>* demo_requested
      (snd (run_deletion demo_deleter ''org:k1'' demo_requested))" by (rule r_into_rtranclp)
  show ?thesis
  proof (rule undecided_deletion_waits [OF _ _ _ demo_requested_waits steps])
    show "idp_external demo_deleter" by (simp add: idp_external_def external_def demo_deleter_def demo_idp_def ret_def)
    show "registry_row_quiet demo_deleter" by (simp add: registry_row_quiet_def demo_deleter_def)
    show "row_quiet (request g a r c)" if "Some demo_gate = Some request" for request g a r c
      using that deletion_approval_gate_quiet unfolding demo_gate_def by blast
  qed
qed

end
