(* ===== verification/DeletionTeardown.thy ===== *)
theory DeletionTeardown
  imports DeletionSafety
begin

text \<open>
  The audit history of a decommissioned tenant: every audit row survives every run of the teardown,
  failed or not, in the audit table or in the archive.
\<close>

section \<open>The audit history\<close>

text \<open>The identifiers of audit rows come from the supply; \<open>supply_ok\<close> says they are not used twice.\<close>

definition history :: "'a db_scheme \<Rightarrow> audit_event set" where
  "history s = set (audit_rows s) \<union> set (audit_archive s)"

definition supply_ok :: "'a db_scheme \<Rightarrow> bool" where
  "supply_ok s \<longleftrightarrow> inj (uuids s) \<and> (\<forall>a \<in> history s. \<forall>n \<ge> uuid_next s. ev_id a \<noteq> uuids s n)
     \<and> inj_on ev_id (history s)"

definition kept :: "audit_event set \<Rightarrow> 'a db_scheme \<Rightarrow> bool" where
  "kept H s \<longleftrightarrow> H \<subseteq> history s \<and> supply_ok s"

definition supply_stable :: "('a db_scheme \<Rightarrow> bool) \<Rightarrow> bool" where
  "supply_stable I \<longleftrightarrow> (\<forall>s fs u. I s \<longrightarrow> uuid_next s \<le> u \<longrightarrow> I (s\<lparr>faults := fs, uuid_next := u\<rparr>))"

lemma supply_stable_kept: "supply_stable (kept H)"
  by (auto simp: supply_stable_def kept_def supply_ok_def history_def)

lemma supply_fault_stable: "supply_stable I \<Longrightarrow> fault_stable I"
proof -
  assume I: "supply_stable I"
  have "s\<lparr>faults := fs\<rparr> = s\<lparr>faults := fs, uuid_next := uuid_next s\<rparr>" for s :: "'a db_scheme" and fs
    by simp
  with I show ?thesis unfolding supply_stable_def fault_stable_def by (metis order_refl)
qed

text \<open>\<open>advances\<close>: an operation never hands identifiers back.\<close>

definition advances :: "('a db_scheme, 'x) dbm \<Rightarrow> bool" where
  "advances m \<longleftrightarrow> (\<forall>s r s'. m s = (r, s') \<longrightarrow> uuid_next s \<le> uuid_next s')"

lemma advancesD: "advances m \<Longrightarrow> m s = (r, s') \<Longrightarrow> uuid_next s \<le> uuid_next s'"
  by (simp add: advances_def)

lemma advances_ret: "advances (ret x)"
  by (simp add: advances_def ret_def)

lemma advances_modify: "(\<And>s. uuid_next (f s) = uuid_next s) \<Longrightarrow> advances (modify f)"
  by (auto simp: advances_def modify_def)

lemma advances_thenE: "advances m \<Longrightarrow> advances n \<Longrightarrow> advances (thenE m n)"
  unfolding advances_def thenE_def bindE_def by (auto split: prod.splits sum.splits) (meson order_trans)

lemma advances_sql:
  assumes "advances f"
  shows "advances (sql f)"
proof -
  have "uuid_next s \<le> uuid_next s'" if run: "sql f s = (r, s')" for s r s'
    using run
  proof (cases rule: sql_runE)
    case (2 fs)
    then show ?thesis using advancesD [OF assms] by fastforce
  qed simp
  then show ?thesis by (simp add: advances_def)
qed

lemma advances_audit: "advances (record_audit ev)"
  unfolding record_audit_def by (rule advances_sql) (auto simp: advances_def dbm_defs new_uuid_def)

lemma advances_emit: "advances (emit ev org typ p)"
  unfolding emit_def append_outbox_def by (intro advances_thenE advances_audit advances_sql advances_modify) simp

lemma preserves_with_tx_supply:
  assumes I: "supply_stable I" and body: "preserves I body" and adv: "advances body"
  shows "preserves I (with_tx body)"
proof (rule preservesI)
  fix s r s' assume s: "I s" and run: "with_tx body s = (r, s')"
  have st: "I (t\<lparr>faults := fs, uuid_next := u\<rparr>)" if "I t" "uuid_next t \<le> u" for t fs u
    using I that by (simp add: supply_stable_def)
  have flt: "I (t\<lparr>faults := fs\<rparr>)" if "I t" for t fs
    using supply_fault_stable [OF I] that by (simp add: fault_stable_def)
  have ret: "\<exists>fs. x = (fst x, t\<lparr>faults := fs\<rparr>)" if "x = sql (ret ()) t" for x and t :: "'a db_scheme"
    using that by (cases "faults t") (auto simp: sql_def ret_def intro: exI [of _ "faults t"])
  obtain r1 s1 where 1: "sql (ret ()) s = (r1, s1)" by fastforce
  from ret [OF 1 [symmetric]] obtain fs where s1: "s1 = s\<lparr>faults := fs\<rparr>" by auto
  note I1 = flt [OF s, of fs, folded s1]
  show "I s'"
  proof (cases r1)
    case (Inl e)
    with run 1 I1 show ?thesis by (simp add: with_tx_def)
  next
    case (Inr u)
    obtain r2 s2 where 2: "body s1 = (r2, s2)" by fastforce
    note I2 = preservesD [OF body I1 2]
    have roll: "I (rollback s1 t)" if "uuid_next t = uuid_next s2" for t :: "'a db_scheme"
      using st [OF I1, of "uuid_next t" "faults t"] advancesD [OF adv 2] that by (simp add: rollback_def)
    show ?thesis
    proof (cases r2)
      case (Inl e)
      with run 1 Inr 2 roll [of s2] show ?thesis by (simp add: with_tx_def)
    next
      case r2: (Inr x)
      obtain r3 s3 where 3: "sql (ret ()) s2 = (r3, s3)" by fastforce
      from ret [OF 3 [symmetric]] obtain fs3 where s3: "s3 = s2\<lparr>faults := fs3\<rparr>" by auto
      have "I s3" "I (rollback s1 s3)" using flt [OF I2, of fs3] roll [of s3] by (simp_all add: s3)
      with run 1 Inr 2 r2 3 show ?thesis by (cases r3) (simp_all add: with_tx_def)
    qed
  qed
qed

lemma kept_same:
  assumes "history s' = history s" "uuids s' = uuids s" "uuid_next s' = uuid_next s"
  shows "kept H s' \<longleftrightarrow> kept H s"
  using assms by (simp add: kept_def supply_ok_def)

lemma kept_modify:
  assumes "\<And>s. audit_rows (f s) = audit_rows s" "\<And>s. audit_archive (f s) = audit_archive s" "\<And>s. uuids (f s) = uuids s"
    "\<And>s. uuid_next (f s) = uuid_next s"
  shows "preserves (kept H) (modify f)"
  by (rule preserves_modify) (simp add: kept_same [of "f _"] history_def assms)

lemma kept_sql: "preserves (kept H) f \<Longrightarrow> preserves (kept H) (sql f)"
  by (rule preserves_sql_fault [OF supply_fault_stable [OF supply_stable_kept]])

lemma kept_audit: "preserves (kept H) (record_audit ev)"
  unfolding record_audit_def
proof (rule kept_sql, rule preservesI)
  fix s r s' assume k: "kept H s" and run: "bindE new_uuid (\<lambda>i. modify (\<lambda>s. s\<lparr>audit_rows := audit_rows s @
      [ev\<lparr>ev_id := i, ev_created := clock s\<rparr>]\<rparr>)) s = (r, s')"
  let ?ev = "ev\<lparr>ev_id := uuids s (uuid_next s), ev_created := clock s\<rparr>"
  from run have s': "s' = s\<lparr>uuid_next := Suc (uuid_next s), audit_rows := audit_rows s @ [?ev]\<rparr>"
    by (simp add: dbm_defs new_uuid_def)
  have h: "history s' = insert ?ev (history s)" by (auto simp: s' history_def)
  have "ev_id a \<noteq> uuids s (uuid_next s)" if "a \<in> history s" for a
    using k that by (auto simp: kept_def supply_ok_def)
  then have "inj_on ev_id (history s')" using k unfolding h kept_def supply_ok_def by (force simp: inj_on_def)
  then show "kept H s'" using k unfolding kept_def supply_ok_def h by (auto simp: s' inj_eq)
qed

lemma kept_emit: "preserves (kept H) (emit ev org typ p)"
  unfolding emit_def append_outbox_def by (intro preserves_thenE kept_audit kept_sql kept_modify) simp_all

text \<open>The statements of the archive step move the rows: after the copy the rows are in both tables.\<close>

definition archived :: "audit_event set \<Rightarrow> string \<Rightarrow> 'a db_scheme \<Rightarrow> bool" where
  "archived H org s \<longleftrightarrow> kept H s \<and> (\<forall>a \<in> set (audit_rows s). ev_org a = org \<longrightarrow> a \<in> set (audit_archive s))"

lemma archive_rows_ok:
  assumes k: "kept H s" and run: "archive_rows org s = (r, s')"
  shows "kept H s'" and "r = Inr () \<Longrightarrow> archived H org s'"
proof -
  let ?new = "filter (\<lambda>a. ev_org a = org \<and> ev_id a \<notin> set (map ev_id (audit_archive s))) (audit_rows s)"
  have fault: "kept H (s\<lparr>faults := fs\<rparr>)" for fs using k by (simp add: kept_same [of "s\<lparr>faults := fs\<rparr>" s] history_def)
  have "kept H s' \<and> (r = Inr () \<longrightarrow> archived H org s')"
    using run [unfolded archive_rows_def]
  proof (cases rule: sql_runE)
    case (1 fs)
    then show ?thesis using fault by simp
  next
    case (2 fs)
    then have s': "s' = s\<lparr>faults := fs, audit_archive := audit_archive s @ ?new\<rparr>" by (simp add: modify_def)
    have "history s' = history s" by (auto simp: history_def s')
    then have kept: "kept H s'" using k kept_same [of s' s H] by (simp add: s')
    have "a \<in> set (audit_archive s')" if a: "a \<in> set (audit_rows s')" "ev_org a = org" for a
    proof (cases "ev_id a \<in> set (map ev_id (audit_archive s))")
      case True
      then obtain b where "b \<in> set (audit_archive s)" "ev_id b = ev_id a" by auto
      moreover have "inj_on ev_id (history s)" using k by (simp add: kept_def supply_ok_def)
      ultimately have "a = b" using a(1) by (auto simp: s' history_def dest: inj_onD)
      with \<open>b \<in> _\<close> show ?thesis by (simp add: s')
    next
      case False
      with a show ?thesis by (simp add: s')
    qed
    with kept show ?thesis by (simp add: archived_def)
  qed
  then show "kept H s'" and "r = Inr () \<Longrightarrow> archived H org s'" by auto
qed

lemma kept_drop:
  assumes J: "archived H org s"
    and run: "sql (modify (\<lambda>s. s\<lparr>audit_rows := filter (\<lambda>a. ev_org a \<noteq> org) (audit_rows s)\<rparr>)) s = (r, s')"
  shows "kept H s'"
  using run
proof (cases rule: sql_runE)
    case (1 fs)
    then have "history s' = history s" by (simp add: history_def)
    with J 1 show ?thesis using kept_same [of s' s H] by (simp add: archived_def)
next
    case (2 fs)
    then have s': "s' = s\<lparr>faults := fs, audit_rows := filter (\<lambda>a. ev_org a \<noteq> org) (audit_rows s)\<rparr>" by (simp add: modify_def)
    then have "history s' = history s" using J by (auto simp: history_def archived_def)
    with J show ?thesis using kept_same [of s' s H] by (simp add: archived_def s')
qed

lemma kept_archive: "preserves (kept H) (step_archive_audit del :: ('a deletion_db_scheme, unit) dbm)"
  unfolding step_archive_audit_def
proof (rule preserves_with_tx_supply [OF supply_stable_kept])
  let ?org = "dl_org del"
  let ?drop = "modify (\<lambda>s. s\<lparr>audit_rows := filter (\<lambda>a. ev_org a \<noteq> ?org) (audit_rows s)\<rparr>)"
  let ?purge = "sql (modify (\<lambda>s. s\<lparr>outbox_rows := filter (\<lambda>e. \<not> (ob_org e = ?org \<and> ob_published e \<noteq> None)) (outbox_rows s)\<rparr>))"
  have md: "preserves (kept H) (mark_done ?org x)" for x unfolding mark_done_def update_tenant_deletion_def
    by (intro kept_sql kept_modify) simp_all
  have tail: "preserves (kept H) (thenE ?purge (mark_done ?org ''archive_audit''))"
    by (intro preserves_thenE kept_sql kept_modify md) simp_all
  have "preserves (kept H) (thenE (archive_rows ?org) (thenE (sql ?drop) (thenE ?purge (mark_done ?org ''archive_audit''))))"
  proof (rule preservesI)
    fix s r s' assume k: "kept H s"
      and run: "thenE (archive_rows ?org) (thenE (sql ?drop) (thenE ?purge (mark_done ?org ''archive_audit''))) s = (r, s')"
    obtain r1 s1 where 1: "archive_rows ?org s = (r1, s1)" by fastforce
    obtain r2 s2 where 2: "sql ?drop s1 = (r2, s2)" by fastforce
    note a = archive_rows_ok [OF k 1]
    show "kept H s'"
    proof (cases r1)
      case (Inl e)
      with run 1 a(1) show ?thesis by (simp add: thenE_def bindE_def)
    next
      case (Inr u)
      then have "r1 = Inr ()" by simp
      from kept_drop [OF a(2) [OF this] 2] have k2: "kept H s2" .
      show ?thesis
      proof (cases r2)
        case (Inl e)
        with run 1 2 Inr k2 show ?thesis by (simp add: thenE_def bindE_def)
      next
        case r2: (Inr v)
        with run 1 2 Inr have "thenE ?purge (mark_done ?org ''archive_audit'') s2 = (r, s')" by (simp add: thenE_def bindE_def)
        from preservesD [OF tail k2 this] show ?thesis .
      qed
    qed
  qed
  then show "preserves (kept H) (thenE (sql (ret ())) (thenE (archive_rows ?org) (thenE (sql ?drop)
      (thenE ?purge (mark_done ?org ''archive_audit'')))))"
    by (rule preserves_thenE [OF kept_sql [OF preserves_ret]])
  show "advances (thenE (sql (ret ())) (thenE (archive_rows ?org) (thenE (sql ?drop) (thenE ?purge (mark_done ?org ''archive_audit'')))))"
    unfolding archive_rows_def mark_done_def update_tenant_deletion_def
    by (intro advances_thenE advances_sql advances_ret advances_modify; simp)
qed

lemma kept_delete_org: "preserves (kept H) (step_delete_org_row del :: ('a deletion_db_scheme, unit) dbm)"
proof -
  have casc: "preserves (kept H) (delete_organization_cascade i)" for i
    unfolding delete_organization_cascade_def delete_organization_def by (intro preserves_thenE kept_sql kept_modify) simp_all
  have adv: "advances (delete_organization_cascade i :: ('a deletion_db_scheme, unit) dbm)" for i
    unfolding delete_organization_cascade_def delete_organization_def
    by (intro advances_thenE advances_sql advances_modify) simp_all
  show ?thesis
    unfolding step_delete_org_row_def
    by (rule preserves_with_tx_supply [OF supply_stable_kept])
      (intro preserves_thenE kept_sql kept_modify kept_emit preserves_ret casc
         advances_thenE advances_sql advances_ret advances_modify advances_emit adv; simp)+
qed

lemma kept_external:
  assumes "external m"
  shows "preserves (kept H) m"
proof (rule preservesI)
  fix s r s' assume k: "kept H s" and run: "m s = (r, s')"
  note same = externalD [OF assms run]
  have "history s' = history s" by (simp add: history_def same)
  then show "kept H s'" using kept_same [of s' s H] k by (simp add: same)
qed

lemma kept_teardown:
  assumes "idp_external d" and "registry_keeps (kept H) d"
  shows "teardown_keeps (kept H) d org"
  unfolding teardown_keeps_def
proof (intro conjI allI impI)
  show "fault_stable (kept H)" by (rule supply_fault_stable [OF supply_stable_kept])
  show "registry_keeps (kept H) d" by fact
  show "preserves (kept H) (update_tenant_deletion org state step e)" for state step e
    unfolding update_tenant_deletion_def by (intro kept_sql kept_modify) simp_all
  show "preserves (kept H) (step_archive_audit del)" for del :: tenant_deletion by (rule kept_archive)
  show "preserves (kept H) (step_delete_org_row del)" for del :: tenant_deletion by (rule kept_delete_org)
qed (use assms(1) in \<open>simp_all add: idp_external_def kept_external\<close>)

text \<open>
  (C16) The audit history survives the teardown. Whatever runs of whatever deletions are made, in
  whatever order, failing at whatever statements, every audit row there was is afterwards still in
  the audit table or in the archive. (The registry of clusters, which a forced teardown calls, is
  assumed to keep the history too.)
\<close>

theorem audit_history_survives:
  assumes "idp_external d" and "\<And>H. registry_keeps (kept H) d" and "supply_ok s"
    and "(\<lambda>s s'. \<exists>org r. run_deletion d org s = (r, s'))\<^sup>*\<^sup>* s s'"
  shows "set (audit_rows s) \<union> set (audit_archive s) \<subseteq> set (audit_rows s') \<union> set (audit_archive s')"
proof -
  have "kept (history s) s'" using assms(4)
  proof (induction rule: rtranclp_induct)
    case base
    then show ?case using assms(3) by (simp add: kept_def)
  next
    case (step y z)
    from step.hyps(2) obtain org r where run: "run_deletion d org y = (r, z)" by blast
    have "preserves (kept (history s)) (run_deletion d org)"
      by (rule preserves_run_deletion [OF kept_teardown [OF assms(1,2)]])
    from preservesD [where I = "kept (history s)" and m = "run_deletion d org", OF this step.IH run] show ?case .
  qed
  then show ?thesis by (simp add: kept_def history_def)
qed

text \<open>An approved decommissioning with one audit row: its run archives the row.\<close>

definition demo_approved :: deletion_db where
  "demo_approved = demo_deletion_db\<lparr>uuid_next := 2,
     audit_rows := [(audit_ev ''org:k1'' ''ada'' ''tenant.decommission_requested'' ''organization'' ''org:k1'' JNull)\<lparr>ev_id := ''u''\<rparr>],
     organizations := [demo_org\<lparr>og_status := OrgStatusDeleting\<rparr>],
     tenant_deletions := [\<lparr>dl_org = ''org:k1'', dl_state = TenantDeletionStateDeleting, dl_step = [], dl_force = False,
       dl_reason = ''bye'', dl_requester = ''ada'', dl_approval = ''u'', dl_error = [], dl_snapshot = demo_snapshot\<rparr>]\<rparr>"

definition demo_torn_down :: deletion_db where
  "demo_torn_down = snd (run_deletion demo_deleter ''org:k1'' demo_approved)"

lemma demo_torn_down_run: "run_deletion demo_deleter ''org:k1'' demo_approved = (Inr (), demo_torn_down)"
proof -
  have "fst (run_deletion demo_deleter ''org:k1'' demo_approved) = Inr ()" by code_simp
  then show ?thesis by (simp add: demo_torn_down_def prod_eq_iff)
qed

lemma demo_deleter_external: "idp_external demo_deleter"
  by (simp add: idp_external_def external_def demo_deleter_def demo_idp_def ret_def)

lemma demo_registry_keeps: "registry_keeps I demo_deleter"
  by (simp add: registry_keeps_def demo_deleter_def)

lemma audit_history_survives_witness:
  "set (audit_rows demo_approved) \<union> set (audit_archive demo_approved)
     \<subseteq> set (audit_rows demo_torn_down) \<union> set (audit_archive demo_torn_down)"
proof (rule audit_history_survives [OF demo_deleter_external demo_registry_keeps])
  have "inj (\<lambda>n. replicate n (CHR ''u''))" by (rule injI) (metis length_replicate)
  moreover have "''u'' \<noteq> replicate n (CHR ''u'')" if "2 \<le> n" for n
  proof
    assume "''u'' = replicate n (CHR ''u'')"
    then have "length ''u'' = n" by (metis length_replicate)
    with that show False by simp
  qed
  ultimately show "supply_ok demo_approved"
    by (auto simp: supply_ok_def history_def demo_approved_def demo_deletion_db_def)
  show "(\<lambda>s s'. \<exists>org r. run_deletion demo_deleter org s = (r, s'))\<^sup>*\<^sup>* demo_approved demo_torn_down"
    using demo_torn_down_run by blast
qed

end
