(* ===== verification/DeletionCompletion.thy ===== *)
theory DeletionCompletion
  imports DeletionTeardown
begin

text \<open>
  The teardown completes: failed runs resume at the failed step, and after a run that succeeds no
  row of the tenant and no tuple of its snapshot is left; other tenants are not touched.
\<close>

lemmas deletion_state_defs = TenantDeletionStateAwaitingApproval_def TenantDeletionStateDeleting_def TenantDeletionStateFailed_def

section \<open>What a finished teardown leaves\<close>

definition gone :: "string \<Rightarrow> 'a deletion_db_scheme \<Rightarrow> bool" where
  "gone org s \<longleftrightarrow> (\<forall>g \<in> set (organizations s). og_id g \<noteq> org) \<and> (\<forall>r \<in> set (org_roles s). rl_org r \<noteq> org)
     \<and> (\<forall>t \<in> set (teams s). tm_org t \<noteq> org) \<and> (\<forall>m \<in> set (memberships s). mb_org m \<noteq> org)
     \<and> (\<forall>t \<in> set (org_things s). ot_org t \<noteq> org) \<and> (\<forall>a \<in> set (approvals s). ar_org a \<noteq> org)"

text \<open>The tuples are a function of the part of the state the database operations do not see.\<close>

definition clean :: "('a \<Rightarrow> fga_tuple set) \<Rightarrow> fga_tuple list \<Rightarrow> 'a deletion_db_scheme \<Rightarrow> bool" where
  "clean tup ts s \<longleftrightarrow> tup (deletion_db.more s) \<inter> set ts = {}"

definition late :: "string \<Rightarrow> bool" where
  "late step \<longleftrightarrow> step = ''fga_cleanup'' \<or> step = ''delete_keycloak_org''"

definition snapshot_is :: "fga_tuple list \<Rightarrow> tenant_deletion \<Rightarrow> bool" where
  "snapshot_is ts del \<longleftrightarrow> (\<exists>p. tenant_deleting_of (dl_snapshot del) = Inr p \<and> tuples_for_tenant_deletion p = Inr ts)"

text \<open>
  The invariant of the runs of an approved deletion: its organization is there, the recorded step is
  late only when the tuples are gone; without the row of the deletion everything is gone.
\<close>

definition row_ok :: "('a \<Rightarrow> fga_tuple set) \<Rightarrow> fga_tuple list \<Rightarrow> tenant_deletion \<Rightarrow> 'a deletion_db_scheme \<Rightarrow> bool" where
  "row_ok tup ts del s \<longleftrightarrow> snapshot_is ts del \<and> dl_state del \<noteq> TenantDeletionStateAwaitingApproval
     \<and> (\<exists>g \<in> set (organizations s). og_id g = dl_org del) \<and> dl_step del \<noteq> ''delete_org_row'' \<and> (late (dl_step del) \<longrightarrow> clean tup ts s)"

definition resumable :: "('a \<Rightarrow> fga_tuple set) \<Rightarrow> fga_tuple list \<Rightarrow> string \<Rightarrow> 'a deletion_db_scheme \<Rightarrow> bool" where
  "resumable tup ts org s \<longleftrightarrow>
     (\<forall>del \<in> set (tenant_deletions s). dl_org del = org \<longrightarrow> row_ok tup ts del s)
     \<and> ((\<forall>del \<in> set (tenant_deletions s). dl_org del \<noteq> org) \<longrightarrow> clean tup ts s \<and> gone org s)"

lemma log_stable_resumable: "log_stable (resumable tup ts org)"
  by (simp add: log_stable_def resumable_def row_ok_def clean_def gone_def)

text \<open>With \<open>c\<close>, the tuples are gone too.\<close>

definition held :: "('a \<Rightarrow> fga_tuple set) \<Rightarrow> fga_tuple list \<Rightarrow> string \<Rightarrow> bool \<Rightarrow> 'a deletion_db_scheme \<Rightarrow> bool" where
  "held tup ts org c s \<longleftrightarrow> resumable tup ts org s \<and> (c \<longrightarrow> clean tup ts s)"

lemma log_stable_held: "log_stable (held tup ts org c)"
  by (simp add: log_stable_def held_def resumable_def row_ok_def clean_def gone_def)

text \<open>Calls that leave the tables alone and add no tuple.\<close>

definition tuple_quiet :: "('a \<Rightarrow> fga_tuple set) \<Rightarrow> ('a deletion_db_scheme, 'x) dbm \<Rightarrow> bool" where
  "tuple_quiet tup m \<longleftrightarrow> external m \<and> (\<forall>s r s'. m s = (r, s') \<longrightarrow> tup (deletion_db.more s') \<subseteq> tup (deletion_db.more s))"

definition teardown_world :: "('a \<Rightarrow> fga_tuple set) \<Rightarrow> 'a deletion_db_scheme deleter \<Rightarrow> bool" where
  "teardown_world tup d \<longleftrightarrow> (\<forall>i. tuple_quiet tup (ip_delete_org (de_idp d) i))
     \<and> (\<forall>p. tuple_quiet tup (ip_delete_group (de_idp d) p)) \<and> (\<forall>ts. external (to_delete (de_tuples d) ts))
     \<and> store_laws (\<lambda>s. tup (deletion_db.more s)) (de_tuples d)"

lemma world_external: "teardown_world tup d \<Longrightarrow> idp_external d"
  by (auto simp: teardown_world_def tuple_quiet_def idp_external_def)

lemma world_delete:
  assumes "teardown_world tup d" and "to_delete (de_tuples d) us s = (r, s')"
  shows "tup (deletion_db.more s') \<subseteq> tup (deletion_db.more s)"
    and "r = Inr () \<Longrightarrow> tup (deletion_db.more s') \<inter> set us = {}"
proof -
  have "deleted (tup (deletion_db.more s)) us r (tup (deletion_db.more s'))"
    using assms by (auto simp: teardown_world_def dest: store_deleteD)
  then show "tup (deletion_db.more s') \<subseteq> tup (deletion_db.more s)"
    and "r = Inr () \<Longrightarrow> tup (deletion_db.more s') \<inter> set us = {}"
    by (auto simp: deleted_def split: sum.splits)
qed

lemma resumable_shrink:
  assumes "resumable tup ts org s" and "deletion_db.truncate s' = deletion_db.truncate s"
    and "tup (deletion_db.more s') \<subseteq> tup (deletion_db.more s)"
  shows "resumable tup ts org s' \<and> (clean tup ts s \<longrightarrow> clean tup ts s')"
proof -
  have "clean tup ts s \<Longrightarrow> clean tup ts s'" using assms(3) by (auto simp: clean_def)
  with assms(1,2) show ?thesis by (auto simp: resumable_def row_ok_def gone_def deletion_db.truncate_def)
qed

lemma quiet_held:
  assumes "tuple_quiet tup m"
  shows "preserves (held tup ts org c) m"
proof (rule preservesI)
  fix s r s' assume h: "held tup ts org c s" and run: "m s = (r, s')"
  from assms run have "deletion_db.truncate s' = deletion_db.truncate s" "tup (deletion_db.more s') \<subseteq> tup (deletion_db.more s)"
    unfolding tuple_quiet_def external_def by blast+
  from resumable_shrink [OF _ this] h show "held tup ts org c s'" unfolding held_def by blast
qed

lemma delete_held: "teardown_world tup d \<Longrightarrow> preserves (held tup ts org c) (to_delete (de_tuples d) us)"
proof (rule quiet_held)
  assume w: "teardown_world tup d"
  then have "external (to_delete (de_tuples d) us)" by (simp add: teardown_world_def)
  then show "tuple_quiet tup (to_delete (de_tuples d) us)" using world_delete(1) [OF w] unfolding tuple_quiet_def by blast
qed

section \<open>The steps\<close>

lemma resumable_updated:
  assumes I: "resumable tup ts org s" and step: "org' = org \<Longrightarrow> st \<noteq> TenantDeletionStateAwaitingApproval \<and> step \<noteq> ''delete_org_row'' \<and> (late step \<longrightarrow> clean tup ts s)"
  shows "resumable tup ts org (s\<lparr>faults := fs, tenant_deletions :=
     update_rows (\<lambda>d. dl_org d = org') (\<lambda>d. d\<lparr>dl_state := st, dl_step := step, dl_error := e\<rparr>) (tenant_deletions s)\<rparr>)"
    (is "resumable _ _ _ ?s")
proof -
  have clean: "clean tup ts ?s = clean tup ts s" and gone: "gone org ?s = gone org s" by (simp_all add: clean_def gone_def)
  have rows: "\<forall>del \<in> set (tenant_deletions s). dl_org del = org \<longrightarrow> row_ok tup ts del s"
    and none: "(\<forall>del \<in> set (tenant_deletions s). dl_org del \<noteq> org) \<longrightarrow> clean tup ts s \<and> gone org s"
    using I by (simp_all add: resumable_def)
  have "row_ok tup ts del ?s" if del: "del \<in> set (tenant_deletions ?s)" "dl_org del = org" for del
  proof -
    from del(1) obtain x where x: "x \<in> set (tenant_deletions s)"
      "del = (if dl_org x = org' then x\<lparr>dl_state := st, dl_step := step, dl_error := e\<rparr> else x)"
      by (auto simp: update_rows_def)
    with del(2) have "dl_org x = org" by (auto split: if_splits)
    with rows x(1) have "row_ok tup ts x s" by blast
    with x(2) step \<open>dl_org x = org\<close> show ?thesis by (auto simp: row_ok_def clean snapshot_is_def)
  qed
  moreover have "\<forall>x \<in> set (tenant_deletions s). dl_org x \<noteq> org" if "\<forall>del \<in> set (tenant_deletions ?s). dl_org del \<noteq> org"
    using that by (simp add: ball_update_rows split: if_splits) blast
  ultimately show ?thesis using none by (simp add: resumable_def clean gone)
qed

lemma update_resumable:
  assumes "resumable tup ts org s" and "org' = org \<Longrightarrow> st \<noteq> TenantDeletionStateAwaitingApproval \<and> step \<noteq> ''delete_org_row'' \<and> (late step \<longrightarrow> clean tup ts s)"
    and run: "update_tenant_deletion org' st step e s = (r, s')"
  shows "resumable tup ts org s' \<and> (clean tup ts s \<longrightarrow> clean tup ts s')"
  using run unfolding update_tenant_deletion_def
proof (cases rule: sql_runE)
  case (1 fs)
  then show ?thesis using assms(1) by (simp add: resumable_def row_ok_def clean_def gone_def)
next
  case (2 fs)
  then have s': "s' = s\<lparr>faults := fs, tenant_deletions :=
     update_rows (\<lambda>d. dl_org d = org') (\<lambda>d. d\<lparr>dl_state := st, dl_step := step, dl_error := e\<rparr>) (tenant_deletions s)\<rparr>"
    by (simp add: modify_def)
  show ?thesis using resumable_updated [OF assms(1,2)] unfolding s' by (simp add: clean_def)
qed

lemma update_held:
  assumes "org' = org \<Longrightarrow> st \<noteq> TenantDeletionStateAwaitingApproval \<and> step \<noteq> ''delete_org_row'' \<and> (late step \<longrightarrow> c)"
  shows "preserves (held tup ts org c) (update_tenant_deletion org' st step e)"
proof (rule preservesI)
  fix s r s' assume h: "held tup ts org c s" and run: "update_tenant_deletion org' st step e s = (r, s')"
  then have "resumable tup ts org s" by (simp add: held_def)
  moreover have "org' = org \<Longrightarrow> st \<noteq> TenantDeletionStateAwaitingApproval \<and> step \<noteq> ''delete_org_row'' \<and> (late step \<longrightarrow> clean tup ts s)"
    using assms h unfolding held_def by blast
  ultimately show "held tup ts org c s'" using update_resumable [OF _ _ run] h unfolding held_def by blast
qed

text \<open>Statements that keep the rows the invariant speaks of, or drop rows of things.\<close>

lemma held_same:
  assumes "organizations s' = organizations s" "org_roles s' = org_roles s" "teams s' = teams s"
    "memberships s' = memberships s" "approvals s' = approvals s" "tenant_deletions s' = tenant_deletions s"
    "set (org_things s') \<subseteq> set (org_things s)" "deletion_db.more s' = deletion_db.more s" "held tup ts org c s"
  shows "held tup ts org c s'"
proof -
  have "gone org s \<Longrightarrow> gone org s'" using assms(7) by (auto simp: gone_def assms(1-5))
  then show ?thesis using assms(9) by (auto simp: held_def resumable_def row_ok_def clean_def assms(1,6,8))
qed

lemma modify_held:
  assumes "\<And>s. organizations (f s) = organizations s" "\<And>s. org_roles (f s) = org_roles s" "\<And>s. teams (f s) = teams s"
    "\<And>s. memberships (f s) = memberships s" "\<And>s. approvals (f s) = approvals s" "\<And>s. tenant_deletions (f s) = tenant_deletions s"
    "\<And>s. set (org_things (f s)) \<subseteq> set (org_things s)" "\<And>s. deletion_db.more (f s) = deletion_db.more s"
  shows "preserves (held tup ts org c) (sql (modify f))"
proof (rule preserves_sql_body [OF log_stable_held])
  fix s r s' assume h: "held tup ts org c s" and run: "modify f s = (r, s')"
  then have s': "s' = f s" by (simp add: modify_def)
  show "held tup ts org c s'" unfolding s' by (rule held_same [OF assms h])
qed

lemma archive_held: "preserves (held tup ts org c) (step_archive_audit del)"
proof -
  have ret: "preserves (held tup ts org c) (sql (ret ()))"
    by (rule preserves_sql [OF log_stable_tx_stable [OF log_stable_held] preserves_ret])
  have md: "preserves (held tup ts org c) (mark_done (dl_org del) ''archive_audit'')"
    unfolding mark_done_def by (rule update_held) (simp add: late_def deletion_state_defs)
  show ?thesis
    unfolding step_archive_audit_def archive_rows_def
    by (intro preserves_with_tx log_stable_tx_stable log_stable_held preserves_thenE ret md; rule modify_held; simp)
qed

lemma cascade_run:
  assumes "delete_organization_cascade i s = (r, s')"
  obtains fs e where "r = Inl e" "s' = s\<lparr>faults := fs\<rparr>"
  | fs where "r = Inr ()" "s' = s\<lparr>faults := fs, organizations := filter (\<lambda>r. og_id r \<noteq> i) (organizations s),
      org_roles := filter (\<lambda>r. rl_org r \<noteq> i) (org_roles s), teams := filter (\<lambda>t. tm_org t \<noteq> i) (teams s),
      memberships := filter (\<lambda>m. mb_org m \<noteq> i) (memberships s),
      tenant_deletions := filter (\<lambda>d. dl_org d \<noteq> i) (tenant_deletions s),
      org_things := filter (\<lambda>t. ot_org t \<noteq> i) (org_things s),
      approvals := filter (\<lambda>a. ar_org a \<noteq> i) (approvals s)\<rparr>"
proof -
  obtain r1 s1 where 1: "delete_organization i s = (r1, s1)" by fastforce
  from 1 [unfolded delete_organization_def] show thesis
  proof (cases rule: sql_runE)
    case (1 fs)
    with \<open>delete_organization i s = _\<close> assms show thesis
      by (intro that(1)) (auto simp: delete_organization_cascade_def thenE_def bindE_def)
  next
    case (2 fs)
    with \<open>delete_organization i s = _\<close> assms show thesis
      by (intro that(2) [of fs]) (auto simp: delete_organization_cascade_def thenE_def bindE_def modify_def)
  qed
qed

lemma cascade_held:
  assumes "org' = org \<Longrightarrow> c"
  shows "preserves (held tup ts org c) (delete_organization_cascade org')"
proof (rule preservesI)
  fix s r s' assume h: "held tup ts org c s" and run: "delete_organization_cascade org' s = (r, s')"
  from run show "held tup ts org c s'"
  proof (cases rule: cascade_run)
    case (1 fs e)
    then show ?thesis using h log_stable_held log_stable_tx_stable tx_stableD by (metis same_tables_faults)
  next
    case (2 fs)
    have clean: "clean tup ts s' = clean tup ts s" by (simp add: 2 clean_def)
    have "gone org s'" if "gone org s \<or> org' = org" using that by (auto simp: 2 gone_def)
    moreover have "clean tup ts s" if "org' = org" using that assms h by (simp add: held_def)
    moreover have "row_ok tup ts del s'" if "row_ok tup ts del s" "dl_org del \<noteq> org'" for del
      using that unfolding row_ok_def clean by (auto simp: 2)
    ultimately show ?thesis using h unfolding held_def resumable_def clean by (auto simp: 2)
  qed
qed

lemma org_row_held:
  assumes "dl_org del = org \<Longrightarrow> c"
  shows "preserves (held tup ts org c) (step_delete_org_row del)"
  unfolding step_delete_org_row_def using assms
  by (intro preserves_with_tx log_stable_tx_stable log_stable_held preserves_thenE modify_held cascade_held preserves_emit
      preserves_sql_body [OF log_stable_held]) (auto simp: ret_def)

section \<open>A step, the steps, a run\<close>

lemma fga_held:
  assumes w: "teardown_world tup d" and org: "dl_org del = org" and sn: "snapshot_is ts del"
    and h: "held tup ts org c s" and run: "step_fga_cleanup d del s = (r, s')"
  shows "held tup ts org c s'" and "r = Inr () \<Longrightarrow> held tup ts org True s'"
proof -
  let ?del = "if ts \<noteq> [] then to_delete (de_tuples d) ts else ret ()"
  obtain r1 s1 where 1: "?del s = (r1, s1)" by fastforce
  from sn run have run: "thenE ?del (mark_done org ''fga_cleanup'') s = (r, s')"
    by (auto simp: snapshot_is_def step_fga_cleanup_def org lift_sum_def bindE_def ret_def)
  have "preserves (held tup ts org c) ?del" by (simp add: preserves_ret delete_held [OF w])
  from preservesD [OF this h 1] have h1: "held tup ts org c s1" .
  have "held tup ts org c s' \<and> (r = Inr () \<longrightarrow> held tup ts org True s')"
  proof (cases r1)
    case (Inl e)
    with run 1 h1 show ?thesis by (auto simp: thenE_def bindE_def)
  next
    case (Inr u)
    with 1 have "clean tup ts s1" using world_delete(2) [OF w, of ts s r1 s1]
      by (cases "ts = []") (auto simp: clean_def ret_def)
    with h1 have h2: "held tup ts org True s1" by (simp add: held_def)
    from Inr run 1 have m: "update_tenant_deletion org TenantDeletionStateDeleting ''fga_cleanup'' [] s1 = (r, s')"
      by (simp add: thenE_def bindE_def mark_done_def)
    have "preserves (held tup ts org True) (update_tenant_deletion org TenantDeletionStateDeleting ''fga_cleanup'' [])"
      by (rule update_held) (simp add: deletion_state_defs)
    from preservesD [OF this h2 m] show ?thesis by (simp add: held_def)
  qed
  then show "held tup ts org c s'" and "r = Inr () \<Longrightarrow> held tup ts org True s'" by auto
qed

lemma deletion_steps_cases:
  assumes "step \<in> set deletion_steps"
  obtains "step = ''revoke_clusters''" | "step = ''archive_audit''" | "step = ''fga_cleanup''"
    | "step = ''delete_keycloak_org''" | "step = ''delete_org_row''"
proof -
  from assms have "step = ''revoke_clusters'' \<or> step = ''archive_audit'' \<or> step = ''fga_cleanup''
      \<or> step = ''delete_keycloak_org'' \<or> step = ''delete_org_row''"
    by (simp only: deletion_steps_def list.set insert_iff empty_iff simp_thms)
  then show thesis by (elim disjE) (rule that, assumption)+
qed

lemma step_held:
  assumes w: "teardown_world tup d" and reg: "\<And>c. registry_keeps (held tup ts org c) d"
    and org: "dl_org del = org" and sn: "snapshot_is ts del" and step: "step \<in> set deletion_steps"
    and h: "held tup ts org c s" and c: "step = ''delete_keycloak_org'' \<or> step = ''delete_org_row'' \<longrightarrow> c"
    and run: "run_step d step del s = (r, s')"
  shows "held tup ts org c s'"
    and "r = Inr () \<Longrightarrow> step = ''fga_cleanup'' \<Longrightarrow> held tup ts org True s'"
    and "r = Inr () \<Longrightarrow> step = ''delete_org_row'' \<Longrightarrow> \<forall>x \<in> set (tenant_deletions s'). dl_org x \<noteq> org"
proof -
  note sql = preserves_sql_body [OF log_stable_held]
  have get: "preserves (held tup ts org c) (get_organization_by_id i)" for i unfolding get_organization_by_id_def
    by (rule sql) (auto split: option.splits)
  from step show "held tup ts org c s'"
  proof (cases rule: deletion_steps_cases)
    case 1
    have md: "preserves (held tup ts org c) (mark_done org ''revoke_clusters'')"
      unfolding mark_done_def by (rule update_held) (simp add: late_def deletion_state_defs)
    have "preserves (held tup ts org c) (step_revoke_clusters d del)"
    proof (cases "de_clusters d")
      case None
      then show ?thesis by (simp add: step_revoke_clusters_def preserves_thenE preserves_ret md org)
    next
      case (Some k)
      obtain lst revoke where k: "k = (lst, revoke)" by fastforce
      with Some reg have "preserves (held tup ts org c) (lst g)" "preserves (held tup ts org c) (revoke a i)" for g a i
        by (simp_all add: registry_keeps_def)
      then show ?thesis unfolding step_revoke_clusters_def Some k option.case prod.case org
        by (intro preserves_thenE md preserves_if preserves_bindE preserves_each_do preserves_ret)
           (auto intro: preserves_ret split: prod.splits)
    qed
    from preservesD [OF this h] run 1 show ?thesis by (simp add: run_step_def)
  next
    case 2
    with preservesD [OF archive_held h] run show ?thesis by (simp add: run_step_def)
  next
    case 3
    from run 3 have "step_fga_cleanup d del s = (r, s')" by (simp add: run_step_def)
    from fga_held(1) [OF w org sn h this] show ?thesis .
  next
    case 4
    then have c by (simp add: c)
    have md: "preserves (held tup ts org c) (mark_done org ''delete_keycloak_org'')"
      unfolding mark_done_def by (rule update_held) (simp add: \<open>c\<close> deletion_state_defs)
    have "preserves (held tup ts org c) (step_delete_keycloak_org d del)" unfolding step_delete_keycloak_org_def org
      using w by (intro md preserves_bindE preserves_thenE get quiet_held) (simp_all add: teardown_world_def)
    from preservesD [OF this h] run 4 show ?thesis by (simp add: run_step_def)
  next
    case 5
    have "preserves (held tup ts org c) (step_delete_org_row del)" by (rule org_row_held) (simp add: 5 c)
    from preservesD [OF this h] run 5 show ?thesis by (simp add: run_step_def)
  qed
  show "held tup ts org True s'" if "r = Inr ()" "step = ''fga_cleanup''"
  proof -
    from run that have "step_fga_cleanup d del s = (r, s')" by (simp add: run_step_def)
    from fga_held(2) [OF w org sn h this that(1)] show ?thesis .
  qed
  show "\<forall>x \<in> set (tenant_deletions s'). dl_org x \<noteq> org" if "r = Inr ()" "step = ''delete_org_row''"
  proof -
    from run that org have ok: "step_delete_org_row del s = (Inr (), s')" by (simp add: run_step_def)
    then obtain t u fs where cas: "delete_organization_cascade org t = (Inr (), u)" "s' = u\<lparr>faults := fs\<rparr>"
      unfolding step_delete_org_row_def org by (elim with_tx_okE thenE_okE) (rule that)
    from cas(1) show ?thesis by (cases rule: cascade_run) (auto simp: cas(2))
  qed
qed

lemma run_steps_held:
  assumes w: "teardown_world tup d" and reg: "\<And>c. registry_keeps (held tup ts org c) d"
    and "dl_org del = org" and "snapshot_is ts del" and "(\<exists>pre. deletion_steps = pre @ steps)" and "steps \<noteq> []"
    and "held tup ts org c s" and "''fga_cleanup'' \<notin> set steps \<Longrightarrow> c"
    and "dl_step del \<noteq> ''delete_org_row''" and "late (dl_step del) \<Longrightarrow> c"
    and "run_steps d del steps s = (r, s')"
  shows "resumable tup ts org s' \<and> (r = Inr () \<longrightarrow> (\<forall>x \<in> set (tenant_deletions s'). dl_org x \<noteq> org))"
  using assms(3-)
proof (induction steps arbitrary: del c s)
  case Nil
  then show ?case by simp
next
  case (Cons step steps)
  note h = Cons.prems(5)
  from Cons.prems(3) obtain pre where pre: "deletion_steps = pre @ step # steps" by blast
  then have step: "step \<in> set deletion_steps" by (metis in_set_conv_decomp)
  have suf: "\<exists>pre. deletion_steps = pre @ steps" by (rule exI [of _ "pre @ [step]"]) (simp add: pre)
  have c: "step = ''delete_keycloak_org'' \<or> step = ''delete_org_row'' \<longrightarrow> c"
    using Cons.prems(3,6) by (auto simp: deletion_steps_def append_eq_Cons_conv Cons_eq_append_conv)
  obtain r1 s1 where 1: "run_step d step del s = (r1, s1)" by fastforce
  note ok = step_held [OF w reg Cons.prems(1,2) step h c 1]
  show ?case
  proof (cases r1)
    case (Inl e)
    obtain r2 s2 where 2: "update_tenant_deletion org TenantDeletionStateFailed (dl_step del) (de_text d e) s1 = (r2, s2)" by fastforce
    have "preserves (held tup ts org c) (update_tenant_deletion org TenantDeletionStateFailed (dl_step del) (de_text d e))"
      by (rule update_held) (use Cons.prems(7,8) in \<open>simp add: deletion_state_defs\<close>)
    from preservesD [OF this ok(1) 2] have "resumable tup ts org s2" by (simp add: held_def)
    moreover have "r = Inl e \<and> s' = s2" using Cons.prems(9) 1 Inl 2 Cons.prems(1)
      by (cases r2) (auto simp: dbm_defs catchE_def)
    ultimately show ?thesis by simp
  next
    case (Inr u)
    then have rest: "run_steps d (del\<lparr>dl_step := step\<rparr>) steps s1 = (r, s')" and r1: "r1 = Inr ()"
      using Cons.prems(9) 1 by (auto simp: dbm_defs catchE_def)
    show ?thesis
    proof (cases "step = ''delete_org_row''")
      case True
      then have "steps = []" using Cons.prems(3) by (auto simp: deletion_steps_def Cons_eq_append_conv append_eq_Cons_conv)
      with rest ok(1) ok(3) [OF r1 True] show ?thesis by (auto simp: held_def dbm_defs)
    next
      case False
      then have "steps \<noteq> []" using Cons.prems(3) by (auto simp: deletion_steps_def Cons_eq_append_conv append_eq_Cons_conv)
      have h1: "held tup ts org (c \<or> step = ''fga_cleanup'') s1" using ok(1) ok(2) [OF r1] by (auto simp: held_def)
      show ?thesis
        by (rule Cons.IH [OF _ _ suf \<open>steps \<noteq> []\<close> h1 _ _ _ rest])
           (use Cons.prems c False in \<open>auto simp: late_def snapshot_is_def\<close>)
    qed
  qed
qed

lemma start_after_absent: "step \<notin> set xs \<Longrightarrow> start_after i xs step start = start"
  by (induction xs arbitrary: i) auto

lemma start_suffix:
  assumes "step \<noteq> ''delete_org_row''"
  defines "steps \<equiv> drop (start_after 0 deletion_steps step 0) deletion_steps"
  shows "\<exists>pre. deletion_steps = pre @ steps" "steps \<noteq> []" "''fga_cleanup'' \<notin> set steps \<Longrightarrow> late step"
proof -
  show "\<exists>pre. deletion_steps = pre @ steps" unfolding steps_def by (metis append_take_drop_id)
  show "steps \<noteq> []" "''fga_cleanup'' \<notin> set steps \<Longrightarrow> late step"
  proof (atomize (full), cases "step \<in> set deletion_steps")
    case True
    then show "steps \<noteq> [] \<and> (''fga_cleanup'' \<notin> set steps \<longrightarrow> late step)"
    proof (cases rule: deletion_steps_cases)
      case 1
      have "''fga_cleanup'' \<in> set (drop (start_after 0 deletion_steps ''revoke_clusters'' 0) deletion_steps)" by code_simp
      then show ?thesis unfolding steps_def 1 by force
    next
      case 2
      have "''fga_cleanup'' \<in> set (drop (start_after 0 deletion_steps ''archive_audit'' 0) deletion_steps)" by code_simp
      then show ?thesis unfolding steps_def 2 by force
    next
      case 3
      have "drop (start_after 0 deletion_steps ''fga_cleanup'' 0) deletion_steps \<noteq> [] \<and> late ''fga_cleanup''" by code_simp
      then show ?thesis unfolding steps_def 3 by simp
    next
      case 4
      have "drop (start_after 0 deletion_steps ''delete_keycloak_org'' 0) deletion_steps \<noteq> [] \<and> late ''delete_keycloak_org''" by code_simp
      then show ?thesis unfolding steps_def 4 by simp
    next
      case 5
      with assms(1) show ?thesis by simp
    qed
  next
    case False
    have "''fga_cleanup'' \<in> set (drop 0 deletion_steps)" by code_simp
    then show "steps \<noteq> [] \<and> (''fga_cleanup'' \<notin> set steps \<longrightarrow> late step)"
      unfolding steps_def start_after_absent [OF False] by force
  qed
qed

lemma run_resumable:
  assumes w: "teardown_world tup d" and reg: "\<And>c. registry_keeps (held tup ts org c) d"
    and h: "resumable tup ts org s" and run: "run_deletion d org s = (r, s')"
  shows "resumable tup ts org s' \<and> (r = Inr () \<longrightarrow> clean tup ts s' \<and> gone org s')"
proof -
  have left: "clean tup ts a \<and> gone org a" if "resumable tup ts org a" "\<forall>x \<in> set (tenant_deletions a). dl_org x \<noteq> org" for a
    using that by (simp add: resumable_def)
  obtain g a where 1: "get_tenant_deletion org s = (g, a)" by fastforce
  from 1 obtain fs where fs: "a = s\<lparr>faults := fs\<rparr>" unfolding get_tenant_deletion_def
    by (cases rule: sql_runE) (auto split: option.splits)
  have a: "resumable tup ts org a \<and> tenant_deletions a = tenant_deletions s" "clean tup ts a = clean tup ts s"
    using h by (simp_all add: fs resumable_def row_ok_def clean_def gone_def)
  show ?thesis
  proof (cases g)
    case (Inl e)
    show ?thesis
    proof (cases "e = DeletionNotFound")
      case True
      with 1 Inl have "select_row (\<lambda>d. dl_org d = org) (tenant_deletions s) = None"
        unfolding get_tenant_deletion_def by (auto elim!: sql_runE split: option.splits)
      with a(1) have "\<forall>x \<in> set (tenant_deletions a). dl_org x \<noteq> org" by (simp add: select_row_None_iff)
      with a(1) left [of a] 1 Inl True run show ?thesis by (auto simp: run_deletion_def dbm_defs catchE_def)
    next
      case False
      with a(1) 1 Inl run show ?thesis by (auto simp: run_deletion_def dbm_defs catchE_def)
    qed
  next
    case (Inr del)
    with 1 have del: "del \<in> set (tenant_deletions s)" "dl_org del = org" unfolding get_tenant_deletion_def
      by (auto elim!: sql_okE dest: select_row_SomeD split: option.splits)
    with h have ok: "row_ok tup ts del s" by (simp add: resumable_def)
    then have ok: "row_ok tup ts del a" by (simp add: row_ok_def clean_def fs)
    show ?thesis
    proof (cases "dl_state del = TenantDeletionStateAwaitingApproval")
      case True
      with a(1) 1 Inr run show ?thesis by (auto simp: run_deletion_def dbm_defs catchE_def)
    next
      case False
      let ?steps = "drop (start_after 0 deletion_steps (dl_step del) 0) deletion_steps"
      have steps: "run_steps d del ?steps a = (r, s')"
        using False 1 Inr run by (simp add: run_deletion_def dbm_defs catchE_def)
      from ok have row: "snapshot_is ts del" "dl_step del \<noteq> ''delete_org_row''" "late (dl_step del) \<Longrightarrow> clean tup ts a"
        by (auto simp: row_ok_def)
      note suf = start_suffix [OF row(2)]
      have "held tup ts org (late (dl_step del)) a" using a(1) row(3) by (simp add: held_def)
      from run_steps_held [OF w reg del(2) row(1) _ _ this _ row(2) _ steps] suf row(3)
      have "resumable tup ts org s' \<and> (r = Inr () \<longrightarrow> (\<forall>x \<in> set (tenant_deletions s'). dl_org x \<noteq> org))" by blast
      with left [of s'] show ?thesis by blast
    qed
  qed
qed

text \<open>A run for another organization.\<close>

lemma other_run_resumable:
  assumes w: "teardown_world tup d" and reg: "\<And>c. registry_keeps (held tup ts org c) d" and ne: "org' \<noteq> org"
  shows "preserves (resumable tup ts org) (run_deletion d org')"
proof -
  have "teardown_keeps (held tup ts org False) d org'"
    unfolding teardown_keeps_def
  proof (intro conjI allI impI)
    show "fault_stable (held tup ts org False)" by (rule tx_fault_stable [OF log_stable_tx_stable [OF log_stable_held]])
    show "registry_keeps (held tup ts org False) d" by (rule reg)
    show "preserves (held tup ts org False) (ip_delete_org (de_idp d) i)" "preserves (held tup ts org False) (ip_delete_group (de_idp d) q)" for i q
      using w by (simp_all add: teardown_world_def quiet_held)
    show "preserves (held tup ts org False) (to_delete (de_tuples d) us)" for us by (rule delete_held [OF w])
    show "preserves (held tup ts org False) (update_tenant_deletion org' state step e)" for state step e
      by (rule update_held) (use ne in blast)
  next
    fix del :: tenant_deletion assume del: "dl_org del = org'"
    show "preserves (held tup ts org False) (step_archive_audit del)" by (rule archive_held)
    show "preserves (held tup ts org False) (step_delete_org_row del)" by (rule org_row_held) (use del ne in blast)
  qed
  from preserves_run_deletion [OF this] show ?thesis by (simp add: held_def [abs_def])
qed

lemma runs_resumable:
  assumes w: "teardown_world tup d" and reg: "\<And>c. registry_keeps (held tup ts org c) d"
    and "resumable tup ts org s" and "(\<lambda>s s'. \<exists>org' r. run_deletion d org' s = (r, s'))\<^sup>*\<^sup>* s t"
  shows "resumable tup ts org t"
  using assms(4,3)
proof (induction rule: rtranclp_induct)
  case (step y z)
  from step.hyps(2) obtain org' r where run: "run_deletion d org' y = (r, z)" by blast
  from step.IH [OF step.prems] have y: "resumable tup ts org y" .
  show ?case
  proof (cases "org' = org")
    case True
    from run_resumable [OF w reg y run [unfolded True]] show ?thesis by blast
  next
    case False
    from preservesD [where I = "resumable tup ts org" and m = "run_deletion d org'", OF other_run_resumable [OF w reg False] y run] show ?thesis .
  qed
qed

section \<open>A run in which nothing fails\<close>

definition there :: "string \<Rightarrow> 'a deletion_db_scheme \<Rightarrow> bool" where
  "there org s \<longleftrightarrow> faults s = [] \<and> (\<exists>g \<in> set (organizations s). og_id g = org)"

definition smooth :: "string \<Rightarrow> ('a deletion_db_scheme, 'x) dbm \<Rightarrow> bool" where
  "smooth org m \<longleftrightarrow> (\<forall>s. there org s \<longrightarrow> (\<exists>x s'. m s = (Inr x, s') \<and> there org s'))"

lemma smoothD: "smooth org m \<Longrightarrow> there org s \<Longrightarrow> \<exists>x s'. m s = (Inr x, s') \<and> there org s'"
  by (simp add: smooth_def)

lemma smooth_ret: "smooth org (ret x)"
  by (simp add: smooth_def ret_def)

lemma smooth_bindE:
  assumes "smooth org m" and "\<And>x. smooth org (f x)"
  shows "smooth org (bindE m f)"
  unfolding smooth_def
proof (intro allI impI)
  fix s :: "'a deletion_db_scheme" assume "there org s"
  from smoothD [OF assms(1) this] obtain x t where 1: "m s = (Inr x, t)" and "there org t" by blast
  from smoothD [OF assms(2) this(2)] obtain y u where "f x t = (Inr y, u)" "there org u" by blast
  with 1 show "\<exists>x s'. bindE m f s = (Inr x, s') \<and> there org s'" by (simp add: bindE_def)
qed

lemma smooth_thenE: "smooth org m \<Longrightarrow> smooth org n \<Longrightarrow> smooth org (thenE m n)"
  unfolding thenE_def by (rule smooth_bindE)

lemma smooth_modify:
  assumes "\<And>s. faults (f s) = faults s" "\<And>s. organizations (f s) = organizations s"
  shows "smooth org (modify f)"
  by (simp add: smooth_def there_def modify_def assms)

lemma smooth_sql: "smooth org f \<Longrightarrow> smooth org (sql f)"
  by (simp add: smooth_def there_def sql_def)

lemma smooth_external:
  assumes "external m" and "succeeds m"
  shows "smooth org m"
  unfolding smooth_def
proof (intro allI impI)
  fix s :: "'a deletion_db_scheme" assume s: "there org s"
  from assms(2) obtain x t where 1: "m s = (Inr x, t)" unfolding succeeds_def by blast
  with assms(1) have "deletion_db.truncate t = deletion_db.truncate s" unfolding external_def by blast
  then have "faults t = faults s" "organizations t = organizations s" by (simp_all add: deletion_db.truncate_def)
  with s 1 show "\<exists>x s'. m s = (Inr x, s') \<and> there org s'" by (simp add: there_def)
qed

lemma smooth_with_tx: "smooth org m \<Longrightarrow> smooth org (with_tx m)"
  unfolding smooth_def
proof (intro allI impI)
  fix s :: "'a deletion_db_scheme"
  assume m: "\<forall>s. there org s \<longrightarrow> (\<exists>x s'. m s = (Inr x, s') \<and> there org s')" and s: "there org s"
  then obtain x t where 1: "m s = (Inr x, t)" "there org t" by blast
  moreover have "sql (ret ()) s = (Inr (), s)" "sql (ret ()) t = (Inr (), t)" using s 1(2) by (simp_all add: sql_def ret_def there_def)
  ultimately show "\<exists>x s'. with_tx m s = (Inr x, s') \<and> there org s'" by (simp add: with_tx_def)
qed

lemma smooth_each_do: "(\<And>x. smooth org (f x)) \<Longrightarrow> smooth org (each_do f xs)"
  by (induction xs) (simp_all add: smooth_ret smooth_thenE)

lemma smooth_emit: "smooth org (emit ev g typ p)"
  unfolding emit_def record_audit_def append_outbox_def
  by (intro smooth_thenE smooth_sql smooth_bindE smooth_modify) (auto simp: smooth_def there_def new_uuid_def)

lemma smooth_update: "smooth org (update_tenant_deletion g st step e)"
  unfolding update_tenant_deletion_def by (intro smooth_sql smooth_modify) simp_all

definition calm :: "string \<Rightarrow> 'a deletion_db_scheme deleter \<Rightarrow> bool" where
  "calm org d \<longleftrightarrow> (\<forall>i. succeeds (ip_delete_org (de_idp d) i)) \<and> (\<forall>p. succeeds (ip_delete_group (de_idp d) p))
     \<and> (\<forall>us. succeeds (to_delete (de_tuples d) us))
     \<and> (case de_clusters d of None \<Rightarrow> True | Some (lst, revoke) \<Rightarrow>
          smooth org (lst org) \<and> (\<forall>actor i. smooth org (revoke actor i)))"

lemma smooth_step:
  assumes w: "teardown_world tup d" and calm: "calm org d" and org: "dl_org del = org" and sn: "snapshot_is ts del"
    and step: "step \<in> set deletion_steps" "step \<noteq> ''delete_org_row''"
  shows "smooth org (run_step d step del)"
proof -
  have idp: "smooth org (ip_delete_org (de_idp d) i)" "smooth org (ip_delete_group (de_idp d) q)"
    "smooth org (to_delete (de_tuples d) us)" for i q us
    using w calm by (auto simp: teardown_world_def tuple_quiet_def calm_def intro!: smooth_external)
  have md: "smooth org (mark_done org x)" for x unfolding mark_done_def by (rule smooth_update)
  from step(1) show ?thesis
  proof (cases rule: deletion_steps_cases)
    case 1
    have "smooth org (step_revoke_clusters d del)"
    proof (cases "de_clusters d")
      case None
      then show ?thesis by (simp add: step_revoke_clusters_def smooth_thenE smooth_ret md org)
    next
      case (Some k)
      obtain lst revoke where k: "k = (lst, revoke)" by fastforce
      with Some calm have "smooth org (lst org)" "smooth org (revoke a i)" for a i by (simp_all add: calm_def)
      then show ?thesis unfolding step_revoke_clusters_def Some k option.case prod.case org
        by (intro smooth_thenE md) (auto intro!: smooth_bindE smooth_each_do smooth_ret split: prod.splits)
    qed
    then show ?thesis by (simp add: run_step_def 1)
  next
    case 2
    have "smooth org (step_archive_audit del)" unfolding step_archive_audit_def archive_rows_def org
      by (intro smooth_with_tx smooth_thenE smooth_sql smooth_ret smooth_modify md) simp_all
    then show ?thesis by (simp add: run_step_def 2)
  next
    case 3
    from sn have "step_fga_cleanup d del = thenE (if ts \<noteq> [] then to_delete (de_tuples d) ts else ret ()) (mark_done org ''fga_cleanup'')"
      by (auto simp: snapshot_is_def step_fga_cleanup_def org lift_sum_def bindE_def ret_def)
    moreover have "smooth org (if ts \<noteq> [] then to_delete (de_tuples d) ts else ret ())" by (simp add: idp smooth_ret)
    ultimately show ?thesis by (simp add: run_step_def 3 smooth_thenE md)
  next
    case 4
    have "smooth org (get_organization_by_id org)" unfolding smooth_def get_organization_by_id_def
      by (auto simp: sql_def there_def select_row_None_iff split: option.splits)
    then have "smooth org (step_delete_keycloak_org d del)" unfolding step_delete_keycloak_org_def org
      by (intro smooth_bindE smooth_thenE idp md)
    then show ?thesis by (simp add: run_step_def 4)
  next
    case 5
    with step(2) show ?thesis by simp
  qed
qed

text \<open>The last step removes the organization: it returns, and nothing more.\<close>

definition returns :: "string \<Rightarrow> ('a deletion_db_scheme, 'x) dbm \<Rightarrow> bool" where
  "returns org m \<longleftrightarrow> (\<forall>s. there org s \<longrightarrow> (\<exists>x s'. m s = (Inr x, s') \<and> faults s' = []))"

lemma returns_thenE:
  assumes "smooth org m" and "returns org n"
  shows "returns org (thenE m n)"
  unfolding returns_def
proof (intro allI impI)
  fix s :: "'a deletion_db_scheme" assume "there org s"
  from smoothD [OF assms(1) this] obtain x t where 1: "m s = (Inr x, t)" and "there org t" by blast
  with assms(2) obtain y u where "n t = (Inr y, u)" "faults u = []" unfolding returns_def by blast
  with 1 show "\<exists>x s'. thenE m n s = (Inr x, s') \<and> faults s' = []" by (simp add: thenE_def bindE_def)
qed

lemma returns_with_tx: "returns org m \<Longrightarrow> returns org (with_tx m)"
  unfolding returns_def
proof (intro allI impI)
  fix s :: "'a deletion_db_scheme"
  assume m: "\<forall>s. there org s \<longrightarrow> (\<exists>x s'. m s = (Inr x, s') \<and> faults s' = [])" and s: "there org s"
  then obtain x t where 1: "m s = (Inr x, t)" "faults t = []" by blast
  moreover have "sql (ret ()) s = (Inr (), s)" "sql (ret ()) t = (Inr (), t)" using s 1(2) by (simp_all add: sql_def ret_def there_def)
  ultimately show "\<exists>x s'. with_tx m s = (Inr x, s') \<and> faults s' = []" by (simp add: with_tx_def)
qed

lemma last_step_returns:
  assumes "there org s" and "dl_org del = org"
  shows "\<exists>s'. run_step d ''delete_org_row'' del s = (Inr (), s')"
proof -
  have "returns org (delete_organization_cascade org)"
    by (auto simp: returns_def delete_organization_cascade_def delete_organization_def thenE_def bindE_def sql_def modify_def there_def)
  then have "returns org (step_delete_org_row del)" unfolding step_delete_org_row_def assms(2)
    by (intro returns_with_tx returns_thenE smooth_sql smooth_ret smooth_modify smooth_emit) simp_all
  with assms(1) show ?thesis by (auto simp: returns_def run_step_def)
qed

lemma run_steps_returns:
  assumes w: "teardown_world tup d" and calm: "calm org d"
    and "dl_org del = org" and "snapshot_is ts del" and "\<exists>pre. deletion_steps = pre @ steps" and "there org s"
  shows "\<exists>s'. run_steps d del steps s = (Inr (), s')"
  using assms(3-)
proof (induction steps arbitrary: del s)
  case Nil
  then show ?case by (simp add: ret_def)
next
  case (Cons step steps)
  from Cons.prems(3) obtain pre where pre: "deletion_steps = pre @ step # steps" by blast
  then have step: "step \<in> set deletion_steps" by (metis in_set_conv_decomp)
  have suf: "\<exists>pre. deletion_steps = pre @ steps" by (rule exI [of _ "pre @ [step]"]) (simp add: pre)
  show ?case
  proof (cases "step = ''delete_org_row''")
    case True
    then have "steps = []" using pre by (auto simp: deletion_steps_def Cons_eq_append_conv append_eq_Cons_conv)
    with last_step_returns [OF Cons.prems(4,1), of d] show ?thesis
      by (auto simp: True thenE_def bindE_def catchE_def ret_def)
  next
    case False
    from smoothD [OF smooth_step [OF w calm Cons.prems(1,2) step False] Cons.prems(4)]
    obtain t where t: "run_step d step del s = (Inr (), t)" "there org t" by auto
    have "\<exists>s'. run_steps d (del\<lparr>dl_step := step\<rparr>) steps t = (Inr (), s')"
      using Cons.prems t(2) suf by (intro Cons.IH) (auto simp: snapshot_is_def)
    with t(1) show ?thesis by (auto simp: thenE_def bindE_def catchE_def)
  qed
qed

lemma run_returns:
  assumes w: "teardown_world tup d" and calm: "calm org d" and h: "resumable tup ts org s" and f: "faults s = []"
  shows "\<exists>s'. run_deletion d org s = (Inr (), s')"
proof (cases "select_row (\<lambda>x. dl_org x = org) (tenant_deletions s)")
  case None
  then show ?thesis using f by (simp add: run_deletion_def get_tenant_deletion_def sql_def catchE_def bindE_def ret_def)
next
  case (Some del)
  then have del: "del \<in> set (tenant_deletions s)" "dl_org del = org" by (auto dest: select_row_SomeD)
  with h have ok: "row_ok tup ts del s" by (simp add: resumable_def)
  then have row: "snapshot_is ts del" "dl_step del \<noteq> ''delete_org_row''" "dl_state del \<noteq> TenantDeletionStateAwaitingApproval"
    and "there org s" using f del(2) by (auto simp: row_ok_def there_def)
  from run_steps_returns [OF w calm del(2) row(1) start_suffix(1) [OF row(2)] this(4)]
  show ?thesis using Some f row(3) by (simp add: run_deletion_def get_tenant_deletion_def sql_def catchE_def bindE_def ret_def)
qed


text \<open>A tenant with one member whose first run fails in the middle; the tuples are a list beside the tables.\<close>

definition beside :: "('t, 'x) dbm \<Rightarrow> ('t deletion_db_scheme, 'x) dbm" where
  "beside m s = (case m (deletion_db.more s) of (r, t) \<Rightarrow> (r, deletion_db.more_update (\<lambda>_. t) s))"

definition demo_world :: "fga_tuple list deletion_db_scheme deleter" where
  "demo_world = \<lparr>de_idp = demo_idp,
     de_tuples = \<lparr>to_read = (\<lambda>ob rel. beside (to_read demo_store ob rel)), to_write = (\<lambda>ts. beside (to_write demo_store ts)),
       to_delete = (\<lambda>ts. beside (to_delete demo_store ts))\<rparr>,
     de_clusters = None, de_text = (\<lambda>_. ''failed'')\<rparr>"

definition demo_member :: membership_payload where
  "demo_member = \<lparr>mp_org = ''org:k1'', mp_team = ''t1'', mp_user = ''u1'', mp_role = ''r1''\<rparr>"

definition demo_tuple :: fga_tuple where "demo_tuple = member_tuple ''u1'' ''t1''"

definition demo_frozen :: "fga_tuple list deletion_db_scheme" where
  "demo_frozen = \<lparr>faults = [False, False, True], clock = 100, uuids = (\<lambda>n. replicate n (CHR ''u'')), uuid_next = 1,
     audit_rows = [], audit_archive = [], outbox_rows = [], outbox_seq = 1, approvals = [], approval_configs = [],
     organizations = [demo_org\<lparr>og_status := OrgStatusDeleting\<rparr>], org_roles = [], teams = [], memberships = [], tenant_users = [],
     tenant_deletions = [\<lparr>dl_org = ''org:k1'', dl_state = TenantDeletionStateDeleting, dl_step = [], dl_force = False,
       dl_reason = ''bye'', dl_requester = ''ada'', dl_approval = ''u'', dl_error = [],
       dl_snapshot = tenant_deleting_json ''acme'' \<lparr>td_org = ''org:k1'', td_teams = [], td_members = [demo_member], td_objects = []\<rparr>\<rparr>],
     org_things = [], \<dots> = [demo_tuple]\<rparr>"

definition demo_interrupted :: "fga_tuple list deletion_db_scheme" where
  "demo_interrupted = snd (run_deletion demo_world ''org:k1'' demo_frozen)"

lemma demo_world_ok: "teardown_world set demo_world"
proof -
  have q: "tuple_quiet set (ip_delete_org (de_idp demo_world) i)" "tuple_quiet set (ip_delete_group (de_idp demo_world) q)" for i q
    by (simp_all add: tuple_quiet_def external_def demo_world_def demo_idp_def ret_def)
  have e: "external (beside m)" for m :: "(fga_tuple list, unit) dbm"
    by (auto simp: external_def beside_def deletion_db.truncate_def split: prod.splits)
  have "store_laws (\<lambda>s. set (deletion_db.more s)) (de_tuples demo_world)"
    using demo_store_laws unfolding store_laws_def demo_world_def
    by (auto simp: beside_def split: prod.splits)
  with q e show ?thesis by (simp add: teardown_world_def demo_world_def)
qed

lemma demo_world_calm: "calm ''org:k1'' demo_world"
proof -
  have "succeeds (beside m)" if "succeeds m" for m :: "(fga_tuple list, unit) dbm"
    using that unfolding succeeds_def beside_def by (metis (no_types, lifting) case_prod_conv)
  with demo_store_live show ?thesis
    by (simp add: calm_def demo_world_def live_store_def succeeds_ret demo_idp_def)
qed

lemma demo_frozen_resumable: "resumable set [demo_tuple] ''org:k1'' demo_frozen"
proof -
  have "tenant_deleting_of (tenant_deleting_json ''acme'' \<lparr>td_org = ''org:k1'', td_teams = [], td_members = [demo_member], td_objects = []\<rparr>)
      = Inr \<lparr>td_org = ''org:k1'', td_teams = [], td_members = [demo_member], td_objects = []\<rparr>"
    "tuples_for_tenant_deletion \<lparr>td_org = ''org:k1'', td_teams = [], td_members = [demo_member], td_objects = []\<rparr> = Inr [demo_tuple]"
    by code_simp+
  then show ?thesis
    by (auto simp: resumable_def row_ok_def snapshot_is_def demo_frozen_def demo_org_def deletion_state_defs late_def)
qed

lemma demo_interrupted_run:
  "run_deletion demo_world ''org:k1'' demo_frozen = (Inl ErrDB, demo_interrupted)" "faults demo_interrupted = []"
proof -
  have "fst (run_deletion demo_world ''org:k1'' demo_frozen) = Inl ErrDB" by code_simp
  then show "run_deletion demo_world ''org:k1'' demo_frozen = (Inl ErrDB, demo_interrupted)"
    by (simp add: demo_interrupted_def prod_eq_iff)
  show "faults demo_interrupted = []" by code_simp
qed


end
