(* ===== verification/DeletionEffects.thy ===== *)
theory DeletionEffects
  imports DeletionCompletion
begin

text \<open>
  The tuples of a decommissioning: the payload of its events decodes to what was encoded; a denied
  request gives the retracted tuples back, except when the row of the deletion cannot be read.
\<close>

section \<open>The payload\<close>

lemma jas_string_list: "jlist jas_string (jstrs xs) = Inr xs"
proof -
  have "jmap jas_string (map JStr xs) = Inr xs" by (rule jmap_map) simp
  then show ?thesis by (simp add: jlist_def jstrs_def)
qed

lemma jlist_jlist_of: "(\<And>x. f (g x) = Inr x) \<Longrightarrow> jlist f (jlist_of g xs) = Inr xs"
  by (simp add: jlist_def jlist_of_def jmap_map)

lemma membership_roundtrip: "membership_of (membership_row_json m) = Inr m"
  by (simp add: membership_of_def membership_row_json_def membership_json_def jstring_def jfield_def)

lemma objects_roundtrip:
  "jas_map (jlist jas_string) (JObj (map (\<lambda>(typ, ids). (typ, jstrs ids)) xs)) = Inr xs"
  by (induction xs) (auto simp: jas_string_list)

lemma snapshot_roundtrip: "tenant_deleting_of (tenant_deleting_json slug p) = Inr p"
  by (simp add: tenant_deleting_of_def tenant_deleting_json_def jstring_def jfield_def jlist_jlist_of
      team_seed_roundtrip membership_roundtrip objects_roundtrip del: jas_map.simps)

section \<open>Denied requests\<close>

text \<open>What the statements of the transactions do to the outbox and to the deletions.\<close>

lemma set_org_status_ok: "set_org_status i st s = (Inr u, s') \<Longrightarrow>
    outbox_rows s' = outbox_rows s \<and> tenant_deletions s' = tenant_deletions s"
  unfolding set_org_status_def by (auto elim!: sql_okE modify_okE)

lemma record_audit_ok: "record_audit ev s = (Inr u, s') \<Longrightarrow>
    outbox_rows s' = outbox_rows s \<and> tenant_deletions s' = tenant_deletions s"
  unfolding record_audit_def by (auto elim!: sql_okE bindE_okE new_uuid_okE modify_okE)

lemma append_outbox_ok:
  assumes "append_outbox g typ p s = (Inr u, s')"
  shows "\<exists>e. outbox_rows s' = outbox_rows s @ [e] \<and> ob_type e = typ \<and> ob_payload e = p" "tenant_deletions s' = tenant_deletions s"
  using assms unfolding append_outbox_def by (auto elim!: sql_okE modify_okE)

lemma create_deletion_ok:
  assumes "create_tenant_deletion d s = (Inr u, s')"
  shows "select_row (\<lambda>x. dl_org x = dl_org d) (tenant_deletions s') = Some d" "outbox_rows s' = outbox_rows s"
proof -
  from assms have s': "tenant_deletions s' = tenant_deletions s @ [d]" "\<not> list_ex (\<lambda>x. dl_org x = dl_org d) (tenant_deletions s)"
    and "outbox_rows s' = outbox_rows s"
    unfolding create_tenant_deletion_def by (auto elim!: sql_okE split: if_splits)
  then show "outbox_rows s' = outbox_rows s" by simp
  have "\<forall>x \<in> set xs. dl_org x \<noteq> dl_org d \<Longrightarrow> select_row (\<lambda>x. dl_org x = dl_org d) (xs @ [d]) = Some d" for xs
    by (induction xs) (auto simp: select_row_def)
  with s' show "select_row (\<lambda>x. dl_org x = dl_org d) (tenant_deletions s') = Some d" by (simp add: list_ex_iff)
qed

text \<open>The row that a request creates, and the events that it and a denial append.\<close>

lemma freeze_ok:
  assumes "freeze_tx actor g force reason snap s = (Inr (), s')"
  shows "\<exists>e. outbox_rows s' = outbox_rows s @ [e] \<and> ob_type e = ''tenant.deleting'' \<and> ob_payload e = tenant_deleting_json (og_slug g) snap"
    and "\<exists>del. select_row (\<lambda>x. dl_org x = og_id g) (tenant_deletions s') = Some del \<and> dl_snapshot del = tenant_deleting_json (og_slug g) snap"
proof -
  let ?del = "\<lparr>dl_org = og_id g, dl_state = TenantDeletionStateAwaitingApproval, dl_step = [],
        dl_force = force, dl_reason = reason, dl_requester = actor, dl_approval = [], dl_error = [],
        dl_snapshot = tenant_deleting_json (og_slug g) snap\<rparr>"
  from assms obtain fs fs' s1 s2 s3 s4 u v w x where 1: "set_org_status (og_id g) OrgStatusDeleting (s\<lparr>faults := fs\<rparr>) = (Inr u, s1)"
    "\<exists>ev. record_audit ev s1 = (Inr v, s2)" "create_tenant_deletion ?del s2 = (Inr w, s3)"
    "append_outbox (og_id g) ''tenant.deleting'' (tenant_deleting_json (og_slug g) snap) s3 = (Inr x, s4)" "s' = s4\<lparr>faults := fs'\<rparr>"
    unfolding freeze_tx_def by (elim with_tx_okE thenE_okE) (rule that, assumption, rule exI, assumption+)
  note 2 = set_org_status_ok [OF 1(1)] append_outbox_ok [OF 1(4)] create_deletion_ok [OF 1(3)]
  from 1(2) have "outbox_rows s2 = outbox_rows s1" by (auto dest: record_audit_ok)
  with 2 1(5) show "\<exists>e. outbox_rows s' = outbox_rows s @ [e] \<and> ob_type e = ''tenant.deleting'' \<and> ob_payload e = tenant_deleting_json (og_slug g) snap"
    by auto
  from 2 1(5) show "\<exists>del. select_row (\<lambda>x. dl_org x = og_id g) (tenant_deletions s') = Some del \<and> dl_snapshot del = tenant_deleting_json (og_slug g) snap"
    by auto
qed

lemma restore_ok:
  assumes run: "restore_org org i action s = (Inr (), s')" and f: "faults s = []"
    and row: "select_row (\<lambda>x. dl_org x = org) (tenant_deletions s) = Some del" and p: "tenant_deleting_of (dl_snapshot del) = Inr p"
  shows "\<exists>e slug. outbox_rows s' = outbox_rows s @ [e] \<and> ob_type e = ''tenant.restored'' \<and> ob_payload e = tenant_deleting_json slug p"
proof -
  from f row have "(catchE (bindE (get_tenant_deletion org) (\<lambda>d. ret (Some (dl_snapshot d)))) (\<lambda>_. ret None)) s = (Inr (Some (dl_snapshot del)), s)"
    by (simp add: get_tenant_deletion_def sql_def catchE_def bindE_def ret_def)
  with run have "restore_tx org i action (Some (dl_snapshot del)) s = (Inr (), s')" by (simp add: restore_org_def bindE_def)
  then obtain fs fs' s1 s2 s3 s4 u v w x where 1: "set_org_status org OrgStatusActive (s\<lparr>faults := fs\<rparr>) = (Inr u, s1)"
    "\<exists>ev. record_audit ev s1 = (Inr v, s2)" "delete_tenant_deletion_row org s2 = (Inr w, s3)"
    "append_outbox org ''tenant.restored'' (tenant_deleting_json (slug_from_snapshot (dl_snapshot del)) p) s3 = (Inr x, s4)" "s' = s4\<lparr>faults := fs'\<rparr>"
    unfolding restore_tx_def option.case by (elim with_tx_okE thenE_okE bindE_okE lift_sum_okE)
      (rule that, assumption, rule exI, assumption+, simp add: p)
  from 1(2) have "outbox_rows s2 = outbox_rows s1" by (auto dest: record_audit_ok)
  moreover from 1(3) have "outbox_rows s3 = outbox_rows s2" unfolding delete_tenant_deletion_row_def by (auto elim!: sql_okE modify_okE)
  ultimately show ?thesis using set_org_status_ok [OF 1(1)] append_outbox_ok(1) [OF 1(4)] 1(5) by auto
qed

lemma deleting_handled:
  assumes "store_laws T st" and "ob_type e = ''tenant.deleting''" and "ob_payload e = tenant_deleting_json slug p"
    and "tuples_for_tenant_deletion p = Inr ts" and "tuple_writer_handle st e t = (Inr (), t')"
  shows "T t' = T t - set ts"
proof -
  from assms(2-5) have "(if ts = [] then ret () else to_delete st ts) t = (Inr (), t')"
    by (simp add: tuple_writer_handle_def with_deletion_def snapshot_roundtrip lift_sum_def bindE_def)
  with store_deleteD [OF assms(1), of ts t "Inr ()" t'] show ?thesis by (auto simp: deleted_def ret_def split: if_splits)
qed

lemma restored_handled:
  assumes "store_laws T st" and "ob_type e = ''tenant.restored''" and "ob_payload e = tenant_deleting_json slug p"
    and "tuples_for_tenant_deletion p = Inr ts" and "tuple_writer_handle st e t = (Inr (), t')"
  shows "T t' = T t \<union> set ts"
proof -
  from assms(2-5) have "(if ts = [] then ret () else to_write st ts) t = (Inr (), t')"
    by (simp add: tuple_writer_handle_def with_deletion_def snapshot_roundtrip lift_sum_def bindE_def)
  with store_writeD [OF assms(1), of ts t "Inr ()" t'] show ?thesis by (auto simp: wrote_def ret_def split: if_splits)
qed

text \<open>
  (C22) A denied request gives the tuples back. When a decommissioning is requested and then denied,
  and the tuple writer has handled the events of both, the relationship tuples are what they were
  before the request.
\<close>

theorem denied_request_restores_tuples:
  assumes "store_laws T st" and "freeze_tx actor g force reason snap s = (Inr (), s1)" and "faults s1 = []"
    and "deny_deletion (og_id g) i s1 = (Inr (), s2)"
    and "each_do (tuple_writer_handle st) (drop (length (outbox_rows s)) (outbox_rows s2)) t = (Inr (), t')"
    and "tuples_for_tenant_deletion snap = Inr ts" and "set ts \<subseteq> T t"
  shows "T t' = T t"
proof -
  from freeze_ok [OF assms(2)] obtain e del where e: "outbox_rows s1 = outbox_rows s @ [e]" "ob_type e = ''tenant.deleting''"
      "ob_payload e = tenant_deleting_json (og_slug g) snap"
    and del: "select_row (\<lambda>x. dl_org x = og_id g) (tenant_deletions s1) = Some del"
      "dl_snapshot del = tenant_deleting_json (og_slug g) snap" by blast
  from assms(4) have "restore_org (og_id g) i ''tenant.decommission_denied'' s1 = (Inr (), s2)" by (simp add: deny_deletion_def)
  from restore_ok [OF this assms(3) del(1)] del(2) obtain e2 slug where e2: "outbox_rows s2 = outbox_rows s1 @ [e2]"
      "ob_type e2 = ''tenant.restored''" "ob_payload e2 = tenant_deleting_json slug snap"
    by (auto simp: snapshot_roundtrip)
  from assms(5) e(1) e2(1) have "thenE (tuple_writer_handle st e) (thenE (tuple_writer_handle st e2) (ret ())) t = (Inr (), t')" by simp
  then obtain t1 where 1: "tuple_writer_handle st e t = (Inr (), t1)" and 2: "tuple_writer_handle st e2 t1 = (Inr (), t')"
    by (auto elim!: thenE_okE ret_okE)
  from deleting_handled [OF assms(1) e(2,3) assms(6) 1] restored_handled [OF assms(1) e2(2,3) assms(6) 2] assms(7)
  show ?thesis by auto
qed

definition demo_full :: tenant_deleting where
  "demo_full = \<lparr>td_org = ''org:k1'', td_teams = [], td_members = [demo_member], td_objects = []\<rparr>"

definition demo_freeze :: deletion_db where
  "demo_freeze = snd (freeze_tx ''ada'' (demo_org\<lparr>og_status := OrgStatusActive\<rparr>) False ''bye'' demo_full demo_deletion_db)"

definition demo_denied :: deletion_db where
  "demo_denied = snd (deny_deletion ''org:k1'' ''u'' demo_freeze)"

definition demo_rewritten :: "fga_tuple list" where
  "demo_rewritten = snd (each_do (tuple_writer_handle demo_store) (drop (length (outbox_rows demo_deletion_db)) (outbox_rows demo_denied)) [demo_tuple])"

lemma denied_request_restores_tuples_witness: "set demo_rewritten = {demo_tuple}"
proof -
  have "fst (freeze_tx ''ada'' (demo_org\<lparr>og_status := OrgStatusActive\<rparr>) False ''bye'' demo_full demo_deletion_db) = Inr ()" by code_simp
  then have 1: "freeze_tx ''ada'' (demo_org\<lparr>og_status := OrgStatusActive\<rparr>) False ''bye'' demo_full demo_deletion_db = (Inr (), demo_freeze)"
    by (simp add: demo_freeze_def prod_eq_iff)
  have "faults demo_freeze = [] \<and> fst (deny_deletion ''org:k1'' ''u'' demo_freeze) = Inr ()" by code_simp
  then have 2: "faults demo_freeze = []" "deny_deletion (og_id (demo_org\<lparr>og_status := OrgStatusActive\<rparr>)) ''u'' demo_freeze = (Inr (), demo_denied)"
    by (simp_all add: demo_denied_def prod_eq_iff demo_org_def)
  have "fst (each_do (tuple_writer_handle demo_store) (drop (length (outbox_rows demo_deletion_db)) (outbox_rows demo_denied)) [demo_tuple]) = Inr ()"
    by code_simp
  then have 3: "each_do (tuple_writer_handle demo_store) (drop (length (outbox_rows demo_deletion_db)) (outbox_rows demo_denied)) [demo_tuple]
      = (Inr (), demo_rewritten)" by (simp add: demo_rewritten_def prod_eq_iff)
  have 4: "tuples_for_tenant_deletion demo_full = Inr [demo_tuple]" by code_simp
  have "set demo_rewritten = set [demo_tuple]" by (rule denied_request_restores_tuples [OF demo_store_laws 1 2 3 4]) simp
  then show ?thesis by simp
qed

text \<open>
  A denial that cannot read the deletion loses the tuples. When the statement that reads the row
  of the deletion fails, the denial still succeeds: the organization is active again and the row is
  gone, but no \<open>tenant.restored\<close> event is published, so nothing gives the retracted tuples back.
\<close>

theorem unreadable_denial_loses_tuples:
  assumes "faults s = [True]"
  shows "\<exists>s'. deny_deletion org i s = (Inr (), s') \<and> outbox_rows s' = outbox_rows s
    \<and> tenant_deletions s' = filter (\<lambda>d. dl_org d \<noteq> org) (tenant_deletions s)
    \<and> organizations s' = update_rows (\<lambda>g. og_id g = org) (\<lambda>g. g\<lparr>og_status := OrgStatusActive\<rparr>) (organizations s)"
  using assms
  by (simp add: deny_deletion_def restore_org_def restore_tx_def get_tenant_deletion_def catchE_def bindE_def thenE_def ret_def
      sql_def with_tx_def set_org_status_def record_audit_def new_uuid_def modify_def delete_tenant_deletion_row_def)

lemma unreadable_denial_loses_tuples_witness:
  "\<exists>s'. deny_deletion ''org:k1'' ''u'' (demo_freeze\<lparr>faults := [True]\<rparr>) = (Inr (), s') \<and> outbox_rows s' = outbox_rows demo_freeze
    \<and> tenant_deletions s' = [] \<and> map og_status (organizations s') = [OrgStatusActive]"
proof -
  have rows: "filter (\<lambda>d. dl_org d \<noteq> ''org:k1'') (tenant_deletions demo_freeze) = []
      \<and> map og_status (update_rows (\<lambda>g. og_id g = ''org:k1'') (\<lambda>g. g\<lparr>og_status := OrgStatusActive\<rparr>) (organizations demo_freeze)) = [OrgStatusActive]"
    by code_simp
  from unreadable_denial_loses_tuples [of "demo_freeze\<lparr>faults := [True]\<rparr>" "''org:k1''" "''u''"] rows show ?thesis
    by auto
qed

end
