(* ===== verification/Leases.thy ===== *)
theory Leases
  imports Outbox
begin

text \<open>
  Leader election over the table \<open>leader_leases\<close> (internal/leaderlease: leaderlease.go, store.go): the
  three statements, the acquisition loop, the renewal loop's tick, and the processes of several
  replicas as a step relation.
\<close>

section \<open>Rows and configuration\<close>

record lease_row =
  lr_name :: string
  lr_holder :: string
  lr_acquired :: int
  lr_expires :: int

record lease_db = db +
  lease_rows :: "lease_row list"

record lease_config =
  lc_holder :: string
  lc_ttl :: int
  lc_renew :: int
  lc_retry :: int

text \<open>\<open>fallback\<close> is the host name with a random suffix.\<close>

definition with_defaults :: "string \<Rightarrow> lease_config \<Rightarrow> lease_config" where
  "with_defaults fallback c =
     (let ttl = if lc_ttl c \<le> 0 then 10 * second else lc_ttl c
      in \<lparr>lc_holder = (if lc_holder c = [] then fallback else lc_holder c), lc_ttl = ttl,
          lc_renew = (if lc_renew c \<le> 0 then ttl div 3 else lc_renew c),
          lc_retry = (if lc_retry c \<le> 0 then second else lc_retry c)\<rparr>)"

section \<open>The statements\<close>

definition lease_acquire :: "string \<Rightarrow> string \<Rightarrow> int \<Rightarrow> ('a lease_db_scheme, bool) dbm" where
  "lease_acquire name holder ttl = sql (\<lambda>s.
     let row = \<lparr>lr_name = name, lr_holder = holder, lr_acquired = clock s, lr_expires = clock s + ttl\<rparr>
     in case select_row (\<lambda>r. lr_name r = name) (lease_rows s) of
          None \<Rightarrow> (Inr True, s\<lparr>lease_rows := lease_rows s @ [row]\<rparr>)
        | Some r \<Rightarrow> (if lr_expires r < clock s \<or> lr_holder r = holder
            then (Inr True, s\<lparr>lease_rows := update_rows (\<lambda>r. lr_name r = name) (\<lambda>_. row) (lease_rows s)\<rparr>)
            else (Inr False, s)))"

definition lease_renew :: "string \<Rightarrow> string \<Rightarrow> int \<Rightarrow> ('a lease_db_scheme, bool) dbm" where
  "lease_renew name holder ttl = sql (\<lambda>s.
     let P = (\<lambda>r. lr_name r = name \<and> lr_holder r = holder \<and> clock s < lr_expires r)
     in (Inr (0 < rows_affected P (lease_rows s)),
         s\<lparr>lease_rows := update_rows P (\<lambda>r. r\<lparr>lr_expires := clock s + ttl\<rparr>) (lease_rows s)\<rparr>))"

definition lease_release :: "string \<Rightarrow> string \<Rightarrow> ('a lease_db_scheme, unit) dbm" where
  "lease_release name holder = sql (modify (\<lambda>s. s\<lparr>lease_rows :=
     filter (\<lambda>r. \<not> (lr_name r = name \<and> lr_holder r = holder)) (lease_rows s)\<rparr>))"

section \<open>The acquisition loop\<close>

definition sleep :: "int \<Rightarrow> ('a db_scheme, unit) dbm" where
  "sleep d = modify (\<lambda>s. s\<lparr>clock := clock s + d\<rparr>)"

text \<open>The context ends the loop after some number of attempts.\<close>

fun acquire_loop :: "lease_config \<Rightarrow> string \<Rightarrow> nat \<Rightarrow> ('a lease_db_scheme, unit) dbm" where
  "acquire_loop c name 0 = throw (ErrMsg ''context canceled'')"
| "acquire_loop c name (Suc n) = bindE (catchE (lease_acquire name (lc_holder c) (lc_ttl c)) (\<lambda>_. ret False)) (\<lambda>held.
     if held then ret () else thenE (sleep (lc_retry c)) (acquire_loop c name n))"

section \<open>A held lease\<close>

text \<open>\<open>le_granted\<close> is the time of the statement that last granted the lease; the code does not keep it.\<close>

record lease =
  le_last :: int
  le_err :: "err option"
  le_ended :: bool
  le_granted :: int

definition new_lease :: "int \<Rightarrow> int \<Rightarrow> lease" where
  "new_lease now granted = \<lparr>le_last = now, le_err = None, le_ended = False, le_granted = granted\<rparr>"

definition ErrLeaseLost :: err where "ErrLeaseLost = ErrMsg ''leaderlease: lease lost''"

definition forfeit :: "lease \<Rightarrow> lease" where
  "forfeit l = l\<lparr>le_err := (case le_err l of None \<Rightarrow> Some ErrLeaseLost | Some e \<Rightarrow> Some e), le_ended := True\<rparr>"

text \<open>The answer to a statement arrives later, or is lost although the statement took effect.\<close>

definition answered :: "int \<Rightarrow> bool \<Rightarrow> ('a db_scheme, 'x) dbm \<Rightarrow> ('a db_scheme, 'x) dbm" where
  "answered d lost m s = (case m s of (r, s') \<Rightarrow>
     (if lost then Inl ErrDB else r, s'\<lparr>clock := clock s' + d\<rparr>))"

text \<open>One tick of the renewal loop.\<close>

definition renew_tick ::
  "int \<Rightarrow> int \<Rightarrow> bool \<Rightarrow> string \<Rightarrow> string \<Rightarrow> lease \<Rightarrow> 'a lease_db_scheme \<Rightarrow> lease \<times> 'a lease_db_scheme" where
  "renew_tick ttl d lost name holder l s = (case answered d lost (lease_renew name holder ttl) s of (r, s') \<Rightarrow>
     (case r of
        Inl e \<Rightarrow> if clock s' - le_last l > ttl then forfeit l else l
      | Inr ok \<Rightarrow> if \<not> ok then forfeit l else l\<lparr>le_last := clock s', le_granted := clock s\<rparr>, s'))"

section \<open>Replicas\<close>

text \<open>
  What each replica holds, by name and holder. \<open>Run\<close> acquires, runs its function until the function
  returns (the lease's end cancels it) and releases; a release may fail. All replicas use one TTL.
  Between the steps time passes, and the database fails or recovers.
\<close>

type_synonym replicas = "string \<times> string \<Rightarrow> lease option"

inductive lease_step :: "int \<Rightarrow> 'a lease_db_scheme \<times> replicas \<Rightarrow> 'a lease_db_scheme \<times> replicas \<Rightarrow> bool" for ttl where
  passes: "0 \<le> d \<Longrightarrow> lease_step ttl (s, P) (s\<lparr>faults := fs, clock := clock s + d\<rparr>, P)"
| acquires: "P (n, h) = None \<Longrightarrow> 0 \<le> d \<Longrightarrow> answered d lost (lease_acquire n h ttl) s = (r, s') \<Longrightarrow>
    lease_step ttl (s, P) (s', if r = Inr True then P((n, h) \<mapsto> new_lease (clock s') (clock s)) else P)"
| ticks: "P (n, h) = Some l \<Longrightarrow> \<not> le_ended l \<Longrightarrow> 0 \<le> d \<Longrightarrow> renew_tick ttl d lost n h l s = (l', s') \<Longrightarrow>
    lease_step ttl (s, P) (s', P((n, h) \<mapsto> l'))"
| stops: "P (n, h) = Some l \<Longrightarrow> 0 \<le> d \<Longrightarrow> answered d lost (lease_release n h) s = (r, s') \<Longrightarrow>
    lease_step ttl (s, P) (s', P((n, h) := None))"

section \<open>Exclusion\<close>

definition lease_keys :: "'a lease_db_scheme \<Rightarrow> bool" where
  "lease_keys s \<longleftrightarrow> distinct (map lr_name (lease_rows s))"

definition owns :: "'a lease_db_scheme \<Rightarrow> string \<Rightarrow> string \<Rightarrow> int \<Rightarrow> bool" where
  "owns s n h t \<longleftrightarrow> (\<exists>r \<in> set (lease_rows s). lr_name r = n \<and> lr_holder r = h \<and> t \<le> lr_expires r)"

text \<open>A grant is good for its TTL: the row still says so, or the time is over.\<close>

definition good :: "int \<Rightarrow> 'a lease_db_scheme \<Rightarrow> string \<Rightarrow> string \<Rightarrow> lease \<Rightarrow> bool" where
  "good ttl s n h l \<longleftrightarrow> le_granted l \<le> clock s \<and> (owns s n h (le_granted l + ttl) \<or> le_granted l + ttl < clock s)"

definition leases_ok :: "int \<Rightarrow> 'a lease_db_scheme \<times> replicas \<Rightarrow> bool" where
  "leases_ok ttl w \<longleftrightarrow> lease_keys (fst w) \<and> (\<forall>n h l. snd w (n, h) = Some l \<longrightarrow> good ttl (fst w) n h l)"

lemma owns_unique: "lease_keys s \<Longrightarrow> owns s n h t \<Longrightarrow> owns s n h' t' \<Longrightarrow> h = h'"
  unfolding lease_keys_def owns_def by (auto dest: distinct_key_unique)

text \<open>What a statement may do to the grants of others: a grant lapses only after its time.\<close>

definition undisturbed :: "string \<Rightarrow> string \<Rightarrow> 'a lease_db_scheme \<Rightarrow> 'a lease_db_scheme \<Rightarrow> bool" where
  "undisturbed n h s s' \<longleftrightarrow> clock s' = clock s \<and> (lease_keys s \<longrightarrow> lease_keys s'
     \<and> (\<forall>n' h' t. (n', h') \<noteq> (n, h) \<longrightarrow> owns s n' h' t \<longrightarrow> owns s' n' h' t \<or> t < clock s))"

lemma undisturbed_same: "lease_rows s' = lease_rows s \<Longrightarrow> clock s' = clock s \<Longrightarrow> undisturbed n h s s'"
  by (simp add: undisturbed_def lease_keys_def owns_def)

lemma lease_acquire_run:
  assumes run: "lease_acquire n h ttl s = (r, s')" and "0 \<le> ttl"
  shows "undisturbed n h s s'" and "r = Inr True \<Longrightarrow> owns s' n h (clock s + ttl)"
proof -
  let ?row = "\<lparr>lr_name = n, lr_holder = h, lr_acquired = clock s, lr_expires = clock s + ttl\<rparr>"
  have "undisturbed n h s s' \<and> (r = Inr True \<longrightarrow> owns s' n h (clock s + ttl))"
    using run [unfolded lease_acquire_def]
  proof (cases rule: sql_runE)
    case (1 fs)
    then show ?thesis by (simp add: undisturbed_same)
  next
    case (2 fs)
    show ?thesis
    proof (cases "select_row (\<lambda>r. lr_name r = n) (lease_rows s)")
      case None
      with 2 have s': "s' = s\<lparr>faults := fs, lease_rows := lease_rows s @ [?row]\<rparr>" by (simp add: Let_def)
      from None have "\<forall>x \<in> set (lease_rows s). lr_name x \<noteq> n" by (simp add: select_row_None_iff)
      then show ?thesis by (auto simp: s' undisturbed_def lease_keys_def owns_def)
    next
      case (Some x)
      then have x: "x \<in> set (lease_rows s)" "lr_name x = n" by (auto dest: select_row_SomeD)
      show ?thesis
      proof (cases "lr_expires x < clock s \<or> lr_holder x = h")
        case True
        with 2 Some have s': "s' = s\<lparr>faults := fs, lease_rows := update_rows (\<lambda>r. lr_name r = n) (\<lambda>_. ?row) (lease_rows s)\<rparr>"
          by (simp add: Let_def)
        have keys: "map lr_name (lease_rows s') = map lr_name (lease_rows s)"
          using map_update_rows_same [where P = "\<lambda>r. lr_name r = n" and k = lr_name and f = "\<lambda>_. ?row"] by (simp add: s')
        have own: "owns s' n h (clock s + ttl)" using x by (auto simp: s' owns_def bex_update_rows)
        have "owns s' n' h' t \<or> t < clock s" if o: "(n', h') \<noteq> (n, h)" "owns s n' h' t" "lease_keys s" for n' h' t
        proof (cases "n' = n")
          case True
          from o(2) obtain y where y: "y \<in> set (lease_rows s)" "lr_name y = n'" "lr_holder y = h'" "t \<le> lr_expires y"
            by (auto simp: owns_def)
          with x o(3) True have "y = x" unfolding lease_keys_def by (auto dest: distinct_key_unique)
          with y True o(1) \<open>lr_expires x < clock s \<or> lr_holder x = h\<close> show ?thesis by auto
        next
          case False
          with o(2) show ?thesis by (auto simp: s' owns_def bex_update_rows)
        qed
        moreover have "clock s' = clock s" by (simp add: s')
        ultimately show ?thesis using keys own unfolding undisturbed_def lease_keys_def by simp
      next
        case False
        with 2 Some show ?thesis by (auto simp: Let_def intro!: undisturbed_same)
      qed
    qed
  qed
  then show "undisturbed n h s s'" and "r = Inr True \<Longrightarrow> owns s' n h (clock s + ttl)" by auto
qed

lemma lease_renew_run:
  assumes run: "lease_renew n h ttl s = (r, s')"
  shows "undisturbed n h s s'" and "r = Inr True \<Longrightarrow> owns s' n h (clock s + ttl)"
    and "owns s n h t \<Longrightarrow> t \<le> clock s + ttl \<Longrightarrow> owns s' n h t"
proof -
  let ?P = "\<lambda>r. lr_name r = n \<and> lr_holder r = h \<and> clock s < lr_expires r"
  have "undisturbed n h s s' \<and> (r = Inr True \<longrightarrow> owns s' n h (clock s + ttl)) \<and> (owns s n h t \<longrightarrow> t \<le> clock s + ttl \<longrightarrow> owns s' n h t)"
    using run [unfolded lease_renew_def]
  proof (cases rule: sql_runE)
    case (1 fs)
    then show ?thesis by (simp add: undisturbed_same owns_def)
  next
    case (2 fs)
    then have s': "s' = s\<lparr>faults := fs, lease_rows := update_rows ?P (\<lambda>r. r\<lparr>lr_expires := clock s + ttl\<rparr>) (lease_rows s)\<rparr>"
      and r: "r = Inr (0 < rows_affected ?P (lease_rows s))" by (auto simp: Let_def)
    have "map lr_name (lease_rows s') = map lr_name (lease_rows s)" by (simp add: s' map_update_rows_same)
    moreover have "owns s' n' h' t'" if "owns s n' h' t'" "(n', h') \<noteq> (n, h)" for n' h' t'
      using that by (auto simp: s' owns_def bex_update_rows)
    moreover have "owns s' n h (clock s + ttl)" if "r = Inr True"
    proof -
      from that r have "filter ?P (lease_rows s) \<noteq> []" by (simp add: rows_affected_def)
      then obtain x where "x \<in> set (lease_rows s)" "?P x" by (auto simp: filter_empty_conv)
      then show ?thesis by (auto simp: s' owns_def bex_update_rows)
    qed
    moreover have "owns s' n h t" if "owns s n h t" "t \<le> clock s + ttl"
      using that by (auto simp: s' owns_def bex_update_rows)
    ultimately show ?thesis by (auto simp: undisturbed_def lease_keys_def s')
  qed
  then show "undisturbed n h s s'" and "r = Inr True \<Longrightarrow> owns s' n h (clock s + ttl)"
    and "owns s n h t \<Longrightarrow> t \<le> clock s + ttl \<Longrightarrow> owns s' n h t" by auto
qed

lemma lease_release_run:
  assumes run: "lease_release n h s = (r, s')"
  shows "undisturbed n h s s'"
  using run [unfolded lease_release_def]
proof (cases rule: sql_runE)
  case (1 fs)
  then show ?thesis by (simp add: undisturbed_same)
next
  case (2 fs)
  then show ?thesis by (auto simp: modify_def undisturbed_def lease_keys_def owns_def distinct_map_filter)
qed

lemma answered_run:
  assumes "answered d lost m s = (r, s')"
  obtains r0 s0 where "m s = (r0, s0)" "s' = s0\<lparr>clock := clock s0 + d\<rparr>" "r = r0 \<or> r = Inl ErrDB"
  using assms by (auto simp: answered_def split: prod.splits if_splits)

lemma owns_clock [simp]: "owns (s\<lparr>clock := c\<rparr>) n h t = owns s n h t" and keys_clock [simp]: "lease_keys (s\<lparr>clock := c\<rparr>) = lease_keys s"
  by (simp_all add: owns_def lease_keys_def)

text \<open>A statement of another replica keeps a grant good.\<close>

lemma good_undisturbed:
  assumes "undisturbed n h s s0" "lease_keys s" "(n', h') \<noteq> (n, h)" "good ttl s n' h' l" "0 \<le> d" "s' = s0\<lparr>clock := clock s0 + d\<rparr>"
  shows "good ttl s' n' h' l"
  using assms unfolding good_def undisturbed_def by fastforce

lemma lease_step_ok:
  assumes step: "lease_step ttl w w'" and ok: "leases_ok ttl w" and ttl: "0 \<le> ttl"
  shows "leases_ok ttl w'"
  using step
proof (cases rule: lease_step.cases)
  case (passes d s P fs)
  have same: "owns (s\<lparr>faults := fs, clock := clock s + d\<rparr>) = owns s" "lease_keys (s\<lparr>faults := fs, clock := clock s + d\<rparr>) = lease_keys s"
    by (simp_all add: owns_def lease_keys_def fun_eq_iff)
  show ?thesis using ok passes(3) unfolding passes(1,2) leases_ok_def good_def fst_conv snd_conv same by fastforce
next
  case (acquires P n h d lost s r s')
  from acquires(5) obtain r0 s0 where run: "lease_acquire n h ttl s = (r0, s0)" and s': "s' = s0\<lparr>clock := clock s0 + d\<rparr>"
    and r: "r = r0 \<or> r = Inl ErrDB" by (rule answered_run)
  note a = lease_acquire_run [OF run ttl]
  have keys: "lease_keys s" using ok acquires(1) by (simp add: leases_ok_def)
  have "good ttl s' n' h' l" if l: "snd w' (n', h') = Some l" for n' h' l
  proof (cases "(n', h') = (n, h)")
    case True
    with l acquires have "r = Inr True" "l = new_lease (clock s') (clock s)" by (auto split: if_splits)
    with a r s' acquires(4) True show ?thesis by (auto simp: good_def new_lease_def undisturbed_def)
  next
    case False
    with l acquires ok have "good ttl s n' h' l" by (auto simp: leases_ok_def split: if_splits)
    from good_undisturbed [OF a(1) keys False this acquires(4) s'] show ?thesis .
  qed
  moreover have "lease_keys s'" using a(1) keys s' by (simp add: undisturbed_def)
  ultimately show ?thesis using acquires(2) by (simp add: leases_ok_def)
next
  case (ticks P n h l d lost s l' s')
  obtain r where ans: "answered d lost (lease_renew n h ttl) s = (r, s')"
    using ticks(6) by (auto simp: renew_tick_def split: prod.splits)
  then obtain r0 s0 where run: "lease_renew n h ttl s = (r0, s0)" and s': "s' = s0\<lparr>clock := clock s0 + d\<rparr>"
    and r: "r = r0 \<or> r = Inl ErrDB" by (rule answered_run)
  note a = lease_renew_run [OF run]
  have keys: "lease_keys s" and mine: "good ttl s n h l" using ok ticks(1,3) by (auto simp: leases_ok_def)
  have "good ttl s' n' h' k" if k: "snd w' (n', h') = Some k" for n' h' k
  proof (cases "(n', h') = (n, h)")
    case True
    have "good ttl s' n h l'"
    proof (cases "r = Inr True")
      case True
      with ticks(6) ans have "le_granted l' = clock s" by (auto simp: renew_tick_def)
      with True a r s' ticks(5) show ?thesis by (auto simp: good_def undisturbed_def)
    next
      case False
      with ticks(6) ans have "le_granted l' = le_granted l"
        by (auto simp: renew_tick_def forfeit_def split: sum.splits if_splits)
      moreover have "clock s0 = clock s" using a(1) by (simp add: undisturbed_def)
      ultimately show ?thesis using mine a(3) [of "le_granted l + ttl"] s' ticks(5) by (auto simp: good_def)
    qed
    with True k ticks(2) show ?thesis by auto
  next
    case False
    with k ticks ok have "good ttl s n' h' k" by (auto simp: leases_ok_def split: if_splits)
    from good_undisturbed [OF a(1) keys False this ticks(5) s'] show ?thesis .
  qed
  moreover have "lease_keys s'" using a(1) keys s' by (simp add: undisturbed_def)
  ultimately show ?thesis using ticks(2) by (simp add: leases_ok_def)
next
  case (stops P n h l d lost s r s')
  from stops(5) obtain r0 s0 where run: "lease_release n h s = (r0, s0)" and s': "s' = s0\<lparr>clock := clock s0 + d\<rparr>"
    by (rule answered_run)
  note a = lease_release_run [OF run]
  have keys: "lease_keys s" using ok stops(1) by (simp add: leases_ok_def)
  have "good ttl s' n' h' k" if k: "snd w' (n', h') = Some k" for n' h' k
  proof -
    from k stops(2) have ne: "(n', h') \<noteq> (n, h)" by auto
    with k stops ok have "good ttl s n' h' k" by (auto simp: leases_ok_def split: if_splits)
    from good_undisturbed [OF a keys ne this stops(4) s'] show ?thesis .
  qed
  moreover have "lease_keys s'" using a keys s' by (simp add: undisturbed_def)
  ultimately show ?thesis using stops(2) by (simp add: leases_ok_def)
qed

text \<open>
  (C25) One leader within the TTL. Whatever the replicas do, whichever statements fail and however
  late the answers arrive or get lost, two replicas never both hold a grant of the same lease that is
  no older than the TTL.
\<close>

theorem lease_exclusive:
  assumes "0 \<le> ttl" and "lease_keys s0" and "(lease_step ttl)\<^sup>*\<^sup>* (s0, \<lambda>_. None) (s, P)"
    and "P (n, h) = Some l" and "clock s \<le> le_granted l + ttl"
    and "P (n, h') = Some l'" and "clock s \<le> le_granted l' + ttl"
  shows "h = h'"
proof -
  have "leases_ok ttl w" if "(lease_step ttl)\<^sup>*\<^sup>* (s0, \<lambda>_. None) w" for w
    using that
  proof (induction rule: rtranclp_induct)
    case base
    then show ?case using assms(2) by (simp add: leases_ok_def)
  next
    case (step y z)
    from lease_step_ok [OF step.hyps(2) step.IH assms(1)] show ?case .
  qed
  from this [OF assms(3)] have "lease_keys s" "good ttl s n h l" "good ttl s n h' l'"
    using assms(4,6) by (auto simp: leases_ok_def)
  then show ?thesis using assms(5,7) owns_unique by (fastforce simp: good_def)
qed

section \<open>Failover\<close>

text \<open>The lease is free for the holder: there is no row, its own, or an expired one.\<close>

definition free_by :: "string \<Rightarrow> string \<Rightarrow> int \<Rightarrow> 'a lease_db_scheme \<Rightarrow> bool" where
  "free_by n h t s \<longleftrightarrow> (case select_row (\<lambda>r. lr_name r = n) (lease_rows s) of None \<Rightarrow> True
     | Some r \<Rightarrow> lr_holder r = h \<or> lr_expires r < t)"

lemma acquire_attempt:
  assumes run: "lease_acquire n h ttl s = (r, s')"
  shows "r = Inr True \<or> lease_rows s' = lease_rows s \<and> clock s' = clock s \<and> faults s' = tl (faults s) \<and> r \<noteq> Inr True"
    and "faults s = [] \<Longrightarrow> free_by n h (clock s) s \<Longrightarrow> r = Inr True"
  using run unfolding lease_acquire_def sql_def free_by_def
  by (auto simp: Let_def split: list.splits if_splits option.splits)

lemma acquire_loop_wins:
  assumes "0 < lc_retry c" and "free_by name (lc_holder c) (clock s + int k * lc_retry c) s" and "length (faults s) + k < n"
  shows "\<exists>s'. acquire_loop c name n s = (Inr (), s')"
  using assms(2,3)
proof (induction n arbitrary: s k)
  case (Suc n)
  let ?a = "lease_acquire name (lc_holder c) (lc_ttl c)"
  obtain r s1 where run: "?a s = (r, s1)" by fastforce
  show ?case
  proof (cases "r = Inr True")
    case True
    then show ?thesis using run by (simp add: bindE_def catchE_def ret_def)
  next
    case False
    with acquire_attempt [OF run] have s1: "lease_rows s1 = lease_rows s" "clock s1 = clock s" "faults s1 = tl (faults s)" by auto
    have more: "faults s \<noteq> [] \<or> k \<noteq> 0" using acquire_attempt(2) [OF run] False Suc.prems(1) by (cases "k = 0") auto
    let ?t = "s1\<lparr>clock := clock s1 + lc_retry c\<rparr>"
    define k' where "k' = (if faults s = [] then k - 1 else k)"
    have "free_by name (lc_holder c) (clock ?t + int k' * lc_retry c) ?t"
    proof -
      have "clock s + int k * lc_retry c \<le> clock ?t + int k' * lc_retry c"
        using more assms(1) s1(2) by (cases k) (auto simp: k'_def algebra_simps)
      with Suc.prems(1) s1(1) show ?thesis by (auto simp: free_by_def split: option.splits)
    qed
    moreover have "length (faults ?t) + k' < n" using Suc.prems(2) more s1(3) by (cases "faults s") (auto simp: k'_def)
    ultimately have "\<exists>s'. acquire_loop c name n ?t = (Inr (), s')" by (rule Suc.IH)
    moreover have "acquire_loop c name (Suc n) s = acquire_loop c name n ?t"
      using run False by (cases r) (auto simp: bindE_def thenE_def catchE_def ret_def sleep_def modify_def)
    ultimately show ?thesis by simp
  qed
qed simp

text \<open>
  (C26) Failover. When the holder of a lease dies, the acquisition loop of another replica gets the
  lease: as soon as its attempts outnumber the failing statements and the retry intervals until the
  row's expiry.
\<close>

theorem lease_failover:
  assumes "0 < lc_retry c" and "select_row (\<lambda>r. lr_name r = name) (lease_rows s) = Some row"
    and "lr_expires row < clock s + int k * lc_retry c" and "length (faults s) + k < n"
  shows "\<exists>s'. acquire_loop c name n s = (Inr (), s')"
  by (rule acquire_loop_wins [OF assms(1) _ assms(4)]) (use assms(2,3) in \<open>simp add: free_by_def\<close>)

section \<open>Two leaders\<close>

definition demo_lease_db :: lease_db where
  "demo_lease_db = \<lparr>faults = [], clock = 0, uuids = (\<lambda>n. replicate n (CHR ''u'')), uuid_next = 1,
     audit_rows = [], audit_archive = [], outbox_rows = [], outbox_seq = 1, lease_rows = []\<rparr>"

definition demo_config :: lease_config where
  "demo_config = with_defaults ''pod-1'' \<lparr>lc_holder = [], lc_ttl = 0, lc_renew = 0, lc_retry = 0\<rparr>"

text \<open>A replica acquires at time 0, its renewals fail at every interval, another acquires after the TTL.\<close>

definition pod_tick :: "string \<Rightarrow> lease_db \<times> replicas \<Rightarrow> lease_db \<times> replicas" where
  "pod_tick h w = (case renew_tick (lc_ttl demo_config) 0 False ''l'' h (the (snd w (''l'', h))) (fst w) of
     (l, s') \<Rightarrow> (s', (snd w)((''l'', h) \<mapsto> l)))"

definition pod_acquire :: "string \<Rightarrow> lease_db \<times> replicas \<Rightarrow> lease_db \<times> replicas" where
  "pod_acquire h w = (case answered 0 False (lease_acquire ''l'' h (lc_ttl demo_config)) (fst w) of (r, s') \<Rightarrow>
     (s', if r = Inr True then (snd w)((''l'', h) \<mapsto> new_lease (clock s') (clock (fst w))) else snd w))"

definition pod_wait :: "bool list \<Rightarrow> int \<Rightarrow> lease_db \<times> replicas \<Rightarrow> lease_db \<times> replicas" where
  "pod_wait fs d w = ((fst w)\<lparr>faults := fs, clock := clock (fst w) + d\<rparr>, snd w)"

definition missed :: "lease_db \<times> replicas \<Rightarrow> lease_db \<times> replicas" where
  "missed w = pod_tick ''pod-1'' (pod_wait [True] (lc_renew demo_config) w)"

definition split_brain :: "lease_db \<times> replicas" where
  "split_brain = pod_acquire ''pod-2'' (pod_wait [] second (missed (missed (missed (pod_acquire ''pod-1'' (demo_lease_db, \<lambda>_. None))))))"

lemma pod_steps:
  "0 \<le> d \<Longrightarrow> lease_step (lc_ttl demo_config) w (pod_wait fs d w)"
  "snd w (''l'', h) = None \<Longrightarrow> lease_step (lc_ttl demo_config) w (pod_acquire h w)"
  "snd w (''l'', h) = Some l \<Longrightarrow> \<not> le_ended l \<Longrightarrow> lease_step (lc_ttl demo_config) w (pod_tick h w)"
proof -
  show "0 \<le> d \<Longrightarrow> lease_step (lc_ttl demo_config) w (pod_wait fs d w)"
    unfolding pod_wait_def using passes [of d "lc_ttl demo_config" "fst w" "snd w"] by simp
  show "lease_step (lc_ttl demo_config) w (pod_acquire h w)" if "snd w (''l'', h) = None"
  proof -
    obtain r s' where run: "answered 0 False (lease_acquire ''l'' h (lc_ttl demo_config)) (fst w) = (r, s')" by fastforce
    from acquires [where P = "snd w", OF that _ run] show ?thesis by (simp add: pod_acquire_def run)
  qed
  show "lease_step (lc_ttl demo_config) w (pod_tick h w)" if "snd w (''l'', h) = Some l" "\<not> le_ended l"
  proof -
    obtain l' s' where run: "renew_tick (lc_ttl demo_config) 0 False ''l'' h l (fst w) = (l', s')" by fastforce
    from ticks [where P = "snd w", OF that _ run] that show ?thesis by (simp add: pod_tick_def run)
  qed
qed

lemma missed_steps:
  assumes "snd w (''l'', ''pod-1'') = Some l" "\<not> le_ended l"
  shows "(lease_step (lc_ttl demo_config))\<^sup>*\<^sup>* w (missed w)"
proof -
  have "0 \<le> lc_renew demo_config" by code_simp
  from pod_steps(1) [OF this] have "lease_step (lc_ttl demo_config) w (pod_wait [True] (lc_renew demo_config) w)" .
  moreover have "lease_step (lc_ttl demo_config) (pod_wait [True] (lc_renew demo_config) w) (missed w)"
    unfolding missed_def using assms by (intro pod_steps(3)) (simp_all add: pod_wait_def)
  ultimately show ?thesis by (meson r_into_rtranclp rtranclp_trans)
qed

lemma pod_states:
  "snd (pod_acquire ''pod-1'' (demo_lease_db, \<lambda>_. None)) (''l'', ''pod-1'') = Some (new_lease 0 0)"
  "snd (missed (pod_acquire ''pod-1'' (demo_lease_db, \<lambda>_. None))) (''l'', ''pod-1'') = Some (new_lease 0 0)"
  "snd (missed (missed (pod_acquire ''pod-1'' (demo_lease_db, \<lambda>_. None)))) (''l'', ''pod-1'') = Some (new_lease 0 0)"
  "snd split_brain (''l'', ''pod-1'') = Some (new_lease 0 0)"
  "snd (missed (missed (missed (pod_acquire ''pod-1'' (demo_lease_db, \<lambda>_. None))))) (''l'', ''pod-2'') = None"
  "map_option le_ended (snd split_brain (''l'', ''pod-2'')) = Some False"
  by code_simp+


text \<open>A second replica that tries at once is refused; its loop wins once the lease has expired.\<close>

lemma lease_exclusive_witness:
  "snd (pod_acquire ''pod-2'' (pod_acquire ''pod-1'' (demo_lease_db, \<lambda>_. None))) (''l'', ''pod-2'') = None"
proof (rule ccontr)
  let ?a = "pod_acquire ''pod-1'' (demo_lease_db, \<lambda>_. None)"
  let ?b = "pod_acquire ''pod-2'' ?a"
  assume "snd ?b (''l'', ''pod-2'') \<noteq> None"
  then obtain l' where l': "snd ?b (''l'', ''pod-2'') = Some l'" by blast
  have none: "snd ?a (''l'', ''pod-2'') = None" by code_simp
  have "lease_step (lc_ttl demo_config) (demo_lease_db, \<lambda>_. None) ?a" by (rule pod_steps(2)) simp
  moreover have "lease_step (lc_ttl demo_config) ?a ?b" by (rule pod_steps(2)) (rule none)
  ultimately have steps: "(lease_step (lc_ttl demo_config))\<^sup>*\<^sup>* (demo_lease_db, \<lambda>_. None) (fst ?b, snd ?b)" by simp
  have clock: "clock (fst ?a) = 0 \<and> clock (fst ?b) = 0 \<and> 0 \<le> lc_ttl demo_config" by code_simp
  have l: "snd ?b (''l'', ''pod-1'') = Some (new_lease 0 0)" by code_simp
  have "l' = new_lease (clock (fst ?b)) (clock (fst ?a))"
    using l' none by (simp add: pod_acquire_def split: prod.splits if_splits)
  then have g': "le_granted l' = 0" using clock by (simp add: new_lease_def)
  have "''pod-1'' = ''pod-2''"
    by (rule lease_exclusive [OF _ _ steps l _ l']) (use clock g' in \<open>simp_all add: lease_keys_def demo_lease_db_def new_lease_def\<close>)
  then show False by simp
qed

definition demo_rival :: lease_config where
  "demo_rival = with_defaults ''pod-2'' \<lparr>lc_holder = [], lc_ttl = 0, lc_renew = 0, lc_retry = 0\<rparr>"

definition demo_taken :: lease_db where
  "demo_taken = (fst (pod_acquire ''pod-1'' (demo_lease_db, \<lambda>_. None)))\<lparr>faults := [True]\<rparr>"

lemma lease_failover_witness: "\<exists>s'. acquire_loop demo_rival ''l'' 13 demo_taken = (Inr (), s')"
proof -
  have row: "lease_rows demo_taken = [\<lparr>lr_name = ''l'', lr_holder = ''pod-1'', lr_acquired = 0, lr_expires = 10 * second\<rparr>]
      \<and> clock demo_taken = 0 \<and> lc_retry demo_rival = second \<and> faults demo_taken = [True]" by code_simp
  show ?thesis
    by (rule lease_failover [where k = 11 and row = "\<lparr>lr_name = ''l'', lr_holder = ''pod-1'', lr_acquired = 0, lr_expires = 10 * second\<rparr>"])
       (use row in \<open>simp_all add: second_def select_row_def\<close>)
qed

end
