(* ===== verification/TenantZones.thy ===== *)
theory TenantZones
  imports Tenancy
begin

text \<open>
  The tenant zone factory (internal/tenantzonefactory: store.go, preflight.go, steps.go, runner.go,
  service.go, resume.go): the resumable step machine that vends an AWS account, provisions a cluster
  and wires the zone, and its reversal. AWS, the provisioner, the wiring and the cluster registry are
  parameters, as they are interfaces in the code.
\<close>

section \<open>Rows\<close>

datatype zone_state = ZoneRequested | ZonePendingApproval | ZoneProvisioning | ZoneWiring | ZoneActive | ZoneFailed
  | ZoneManualIntervention | ZoneDecommissionPending | ZoneCordoning | ZoneDraining | ZoneDecommissioning | ZoneClosed

definition zone_state_str :: "zone_state \<Rightarrow> string" where
  "zone_state_str st = (case st of
     ZoneRequested \<Rightarrow> ''requested'' | ZonePendingApproval \<Rightarrow> ''pending_approval'' | ZoneProvisioning \<Rightarrow> ''provisioning''
   | ZoneWiring \<Rightarrow> ''wiring'' | ZoneActive \<Rightarrow> ''active'' | ZoneFailed \<Rightarrow> ''failed''
   | ZoneManualIntervention \<Rightarrow> ''manual_intervention'' | ZoneDecommissionPending \<Rightarrow> ''decommission_pending_approval''
   | ZoneCordoning \<Rightarrow> ''cordoning'' | ZoneDraining \<Rightarrow> ''draining'' | ZoneDecommissioning \<Rightarrow> ''decommissioning''
   | ZoneClosed \<Rightarrow> ''closed'')"

datatype zone_step_status = StepPending | StepRunning | StepWaiting | StepSucceeded | StepFailed | StepSkipped

definition zone_step_status_str :: "zone_step_status \<Rightarrow> string" where
  "zone_step_status_str st = (case st of StepPending \<Rightarrow> ''pending'' | StepRunning \<Rightarrow> ''running'' | StepWaiting \<Rightarrow> ''waiting''
     | StepSucceeded \<Rightarrow> ''succeeded'' | StepFailed \<Rightarrow> ''failed'' | StepSkipped \<Rightarrow> ''skipped'')"

record tenant_zone =
  zn_id :: string
  zn_slug :: string
  zn_display :: string
  zn_owner :: string
  zn_org :: string
  zn_ou :: string
  zn_region :: string
  zn_tier :: string
  zn_state :: zone_state
  zn_mgmt :: string
  zn_aws :: string
  zn_cluster :: string
  zn_cloud :: string
  zn_kc :: string
  zn_git :: string
  zn_tags :: "(string \<times> string) list"
  zn_error :: string
  zn_by :: string
  zn_created :: int
  zn_updated :: int

record zone_step =
  zs_zone :: string
  zs_step :: string
  zs_status :: zone_step_status
  zs_ref :: string
  zs_detail :: json
  zs_attempts :: nat

datatype account_state = AccountPending | AccountActive | AccountInvalid | AccountRevoked

record cloud_account =
  ca_id :: string
  ca_org :: string
  ca_provider :: string
  ca_account :: string
  ca_role :: string
  ca_external :: string
  ca_issuer :: string
  ca_context :: string
  ca_state :: account_state
  ca_validated :: "int option"
  ca_error :: string
  ca_by :: string
  ca_created :: int

text \<open>A zone references its management account, a row of \<open>cloud_accounts\<close>.\<close>

record zone_db = tenancy_db +
  tenant_zones :: "tenant_zone list"
  zone_steps :: "zone_step list"
  cloud_accounts :: "cloud_account list"

section \<open>The store\<close>

definition create_zone_row :: "tenant_zone \<Rightarrow> ('a zone_db_scheme, tenant_zone) dbm" where
  "create_zone_row z = sql (\<lambda>s.
     let row = z\<lparr>zn_org := [], zn_aws := [], zn_cluster := [], zn_cloud := [], zn_kc := [], zn_git := [], zn_error := [],
               zn_created := clock s, zn_updated := clock s\<rparr>
     in if list_ex (\<lambda>x. zn_id x = zn_id z) (tenant_zones s) then (Inl (ErrUnique ''tenant_zones_pkey''), s)
        else if list_ex (\<lambda>x. zn_slug x = zn_slug z) (tenant_zones s) then (Inl SlugTaken, s)
        else if zn_mgmt z \<notin> ca_id ` set (cloud_accounts s) then (Inl fk_violation, s)
        else (Inr row, s\<lparr>tenant_zones := tenant_zones s @ [row]\<rparr>))"

definition get_zone_row :: "string \<Rightarrow> ('a zone_db_scheme, tenant_zone) dbm" where
  "get_zone_row i = sql (\<lambda>s. case select_row (\<lambda>z. zn_id z = i) (tenant_zones s) of
      None \<Rightarrow> (Inl ZoneNotFound, s) | Some z \<Rightarrow> (Inr z, s))"

definition list_zones :: "string \<Rightarrow> ('a zone_db_scheme, tenant_zone list) dbm" where
  "list_zones owner = sql (asks (\<lambda>s. sort_key zn_created (filter (\<lambda>z. zn_owner z = owner) (tenant_zones s))))"

definition resumable_state :: "zone_state \<Rightarrow> bool" where
  "resumable_state st \<longleftrightarrow> List.member [ZoneProvisioning, ZoneWiring, ZoneCordoning, ZoneDraining, ZoneDecommissioning] st"

definition list_resumable :: "('a zone_db_scheme, tenant_zone list) dbm" where
  "list_resumable = sql (asks (\<lambda>s. sort_key zn_updated (filter (\<lambda>z. resumable_state (zn_state z)) (tenant_zones s))))"

definition update_zone_row :: "tenant_zone \<Rightarrow> ('a zone_db_scheme, unit) dbm" where
  "update_zone_row z = sql (\<lambda>s. if \<not> list_ex (\<lambda>x. zn_id x = zn_id z) (tenant_zones s) then (Inl ZoneNotFound, s)
     else (Inr (), s\<lparr>tenant_zones := update_rows (\<lambda>x. zn_id x = zn_id z) (\<lambda>x. x\<lparr>zn_org := zn_org z, zn_state := zn_state z,
             zn_aws := zn_aws z, zn_cluster := zn_cluster z, zn_cloud := zn_cloud z, zn_kc := zn_kc z, zn_git := zn_git z,
             zn_error := zn_error z, zn_updated := clock s\<rparr>) (tenant_zones s)\<rparr>))"

text \<open>A step without a detail is stored with \<open>{}\<close>.\<close>

definition stored_step :: "zone_step \<Rightarrow> zone_step" where
  "stored_step st = st\<lparr>zs_detail := (if zs_detail st = JNull then JObj [] else zs_detail st)\<rparr>"

definition upsert_step_row :: "zone_step \<Rightarrow> ('a zone_db_scheme, unit) dbm" where
  "upsert_step_row st = sql (\<lambda>s. let P = (\<lambda>x. zs_zone x = zs_zone st \<and> zs_step x = zs_step st);
       row = stored_step st in
     if \<not> list_ex (\<lambda>z. zn_id z = zs_zone st) (tenant_zones s) then (Inl fk_violation, s)
     else if list_ex P (zone_steps s) then (Inr (), s\<lparr>zone_steps := update_rows P (\<lambda>_. row) (zone_steps s)\<rparr>)
     else (Inr (), s\<lparr>zone_steps := zone_steps s @ [row]\<rparr>))"

definition list_zone_steps :: "string \<Rightarrow> ('a zone_db_scheme, string \<Rightarrow> zone_step option) dbm" where
  "list_zone_steps i = sql (asks (\<lambda>s n. select_row (\<lambda>x. zs_zone x = i \<and> zs_step x = n) (zone_steps s)))"

section \<open>Pre-flight\<close>

record preflight_input =
  pi_slug :: string
  pi_region :: string
  pi_tier :: string
  pi_ou :: string
  pi_existing :: "string list"
  pi_count :: int
  pi_quota :: int
  pi_regions :: "string list"
  pi_tiers :: "string list"
  pi_required :: "string list"
  pi_tags :: "(string \<times> string) list"

text \<open>The reasons, before they are formatted.\<close>

datatype denial = BadSlug | SlugInUse | NoOU | QuotaExhausted | BadRegion | BadTier | MissingTag string

definition lower_letter :: "char \<Rightarrow> bool" where
  "lower_letter c \<longleftrightarrow> 97 \<le> (of_char c :: nat) \<and> (of_char c :: nat) \<le> 122"

definition zone_slug_ok :: "string \<Rightarrow> bool" where
  "zone_slug_ok s \<longleftrightarrow> 3 \<le> length s \<and> length s \<le> 32 \<and> lower_letter (hd s) \<and> lower_or_digit (last s)
     \<and> list_all (\<lambda>c. lower_or_digit c \<or> c = CHR ''-'') s"

text \<open>\<open>strings.EqualFold\<close> on ASCII.\<close>

definition fold_char :: "char \<Rightarrow> nat" where
  "fold_char c = (let n = of_char c in if 65 \<le> n \<and> n \<le> 90 then n + 32 else n)"

definition equal_fold :: "string \<Rightarrow> string \<Rightarrow> bool" where
  "equal_fold a b \<longleftrightarrow> map fold_char a = map fold_char b"

definition preflight :: "preflight_input \<Rightarrow> denial list" where
  "preflight p =
     (if zone_slug_ok (pi_slug p) then [] else [BadSlug])
   @ (if list_ex (\<lambda>x. equal_fold x (pi_slug p)) (pi_existing p) then [SlugInUse] else [])
   @ (if pi_ou p = [] then [NoOU] else [])
   @ (if 0 < pi_quota p \<and> pi_quota p \<le> pi_count p then [QuotaExhausted] else [])
   @ (if pi_regions p \<noteq> [] \<and> \<not> List.member (pi_regions p) (pi_region p) then [BadRegion] else [])
   @ (if pi_tiers p \<noteq> [] \<and> \<not> List.member (pi_tiers p) (pi_tier p) then [BadTier] else [])
   @ map MissingTag (filter (\<lambda>k. trim_space (case map_of (pi_tags p) k of None \<Rightarrow> [] | Some v \<Rightarrow> v) = []) (pi_required p))"

section \<open>The backends\<close>

record zone_config =
  zc_approval :: bool
  zc_quota :: int
  zc_regions :: "string list"
  zc_tiers :: "string list"
  zc_tags :: "string list"
  zc_issuer :: string
  zc_attempts :: int

record account_status =
  as_state :: string
  as_account :: string
  as_reason :: string

record wiring_result =
  wr_org :: string
  wr_kc :: string
  wr_cluster :: string
  wr_cloud :: string
  wr_git :: string

text \<open>\<open>ze_text\<close> and \<open>ze_reason\<close> are the formatted errors and reasons.\<close>

record 's zone_env =
  ze_count :: "string \<Rightarrow> ('s, int) dbm"
  ze_create_account :: "string \<Rightarrow> string \<Rightarrow> string \<Rightarrow> (string \<times> string) list \<Rightarrow> string \<Rightarrow> ('s, string) dbm"
  ze_move :: "string \<Rightarrow> string \<Rightarrow> ('s, unit) dbm"
  ze_describe :: "string \<Rightarrow> ('s, account_status) dbm"
  ze_close :: "string \<Rightarrow> ('s, string) dbm"
  ze_role :: "string \<Rightarrow> string \<Rightarrow> string \<Rightarrow> ('s, string) dbm"
  ze_apply :: "string \<Rightarrow> string \<Rightarrow> string \<Rightarrow> ('s, string) dbm"
  ze_ready :: "string \<Rightarrow> ('s, bool) dbm"
  ze_delete :: "string \<Rightarrow> ('s, unit) dbm"
  ze_deleted :: "string \<Rightarrow> ('s, bool) dbm"
  ze_wire :: "tenant_zone \<Rightarrow> string \<Rightarrow> ('s, wiring_result) dbm"
  ze_unwire :: "tenant_zone \<Rightarrow> ('s, unit) dbm"
  ze_manifests :: "(string \<Rightarrow> ('s, unit) dbm) option"
  ze_cordon :: "string \<Rightarrow> string \<Rightarrow> ('s, unit) dbm"
  ze_decommission :: "string \<Rightarrow> string \<Rightarrow> bool \<Rightarrow> ('s, string list) dbm"
  ze_mgmt :: "(string \<Rightarrow> string \<Rightarrow> ('s, string) dbm) option"
  ze_config :: zone_config
  ze_text :: "err \<Rightarrow> string"
  ze_reason :: "denial \<Rightarrow> string"

section \<open>The steps\<close>

text \<open>
  A step may change the zone and its own record, also when it fails. \<open>calls\<close> is a call whose error
  ends the step (the text that wraps the error is not kept), \<open>finished\<close> the result of a step:
  whether it is complete or waits.
\<close>

type_synonym 's step_run = "'s \<Rightarrow> (tenant_zone \<times> zone_step \<times> (err + bool)) \<times> 's"

definition calls :: "('s, 'x) dbm \<Rightarrow> tenant_zone \<Rightarrow> zone_step \<Rightarrow> ('x \<Rightarrow> 's step_run) \<Rightarrow> 's step_run" where
  "calls m z st k s = (case m s of (Inl e, s') \<Rightarrow> ((z, st, Inl e), s') | (Inr x, s') \<Rightarrow> k x s')"

definition finished :: "tenant_zone \<Rightarrow> zone_step \<Rightarrow> bool \<Rightarrow> 's step_run" where
  "finished z st whole s = ((z, st, Inr whole), s)"

definition fails :: "tenant_zone \<Rightarrow> zone_step \<Rightarrow> err \<Rightarrow> 's step_run" where
  "fails z st e s = ((z, st, Inl e), s)"

definition skipped :: "tenant_zone \<Rightarrow> zone_step \<Rightarrow> 's step_run" where
  "skipped z st = finished z (st\<lparr>zs_status := StepSkipped\<rparr>) True"

definition zone_preflight :: "'s zone_env \<Rightarrow> tenant_zone \<Rightarrow> int \<Rightarrow> denial list" where
  "zone_preflight env z n = preflight \<lparr>pi_slug = zn_slug z, pi_region = zn_region z, pi_tier = zn_tier z, pi_ou = zn_ou z,
     pi_existing = [], pi_count = n, pi_quota = zc_quota (ze_config env), pi_regions = zc_regions (ze_config env),
     pi_tiers = zc_tiers (ze_config env), pi_required = zc_tags (ze_config env), pi_tags = zn_tags z\<rparr>"

definition step_preflight :: "'s zone_env \<Rightarrow> tenant_zone \<Rightarrow> zone_step \<Rightarrow> 's step_run" where
  "step_preflight env z st = calls (ze_count env (zn_ou z)) z st (\<lambda>n.
     let reasons = zone_preflight env z n
     in if reasons \<noteq> [] then fails z (st\<lparr>zs_detail := JObj [(''reasons'', JArr (map (\<lambda>r. JStr (ze_reason env r)) reasons))]\<rparr>) PreflightDenied
        else finished z st True)"

text \<open>The detail of the vending step; what does not decode is the zero value.\<close>

definition vend_moved :: "json \<Rightarrow> bool" where
  "vend_moved j = (case jlookup ''moved'' j of Inr (JBool b) \<Rightarrow> b | _ \<Rightarrow> False)"

definition vend_detail :: "string \<Rightarrow> bool \<Rightarrow> json" where
  "vend_detail acct moved = JObj [(''awsAccountId'', JStr acct), (''moved'', JBool moved)]"

definition step_account_vend :: "'s zone_env \<Rightarrow> tenant_zone \<Rightarrow> zone_step \<Rightarrow> 's step_run" where
  "step_account_vend env z st =
     (if zs_ref st = [] then calls (ze_create_account env (zn_slug z) (zn_slug z @ ''@inari-zones.local'') (zn_ou z) (zn_tags z) (zn_id z)) z st
        (\<lambda>ref. finished z (st\<lparr>zs_ref := ref\<rparr>) False)
      else calls (ze_describe env (zs_ref st)) z st (\<lambda>a.
        if as_state a = ''SUCCEEDED'' then
          (let vended = (\<lambda>moved. finished (z\<lparr>zn_aws := as_account a\<rparr>) (st\<lparr>zs_detail := vend_detail (as_account a) moved\<rparr>) True)
           in if zn_ou z \<noteq> [] \<and> \<not> vend_moved (zs_detail st)
              then calls (ze_move env (as_account a) (zn_ou z)) z st (\<lambda>_. vended True)
              else vended (vend_moved (zs_detail st)))
        else if as_state a = ''FAILED'' then fails z (st\<lparr>zs_ref := []\<rparr>) (ErrExternal (as_reason a))
        else finished z st False))"

definition step_trust_bootstrap :: "'s zone_env \<Rightarrow> tenant_zone \<Rightarrow> zone_step \<Rightarrow> 's step_run" where
  "step_trust_bootstrap env z st =
     (if zn_aws z = [] then fails z st (ErrMsg ''trust bootstrap before account vend'')
      else calls (ze_role env (zn_aws z) (zc_issuer (ze_config env)) []) z st
        (\<lambda>arn. finished z (st\<lparr>zs_detail := JObj [(''roleArn'', JStr arn)]\<rparr>) True))"

definition step_eks_provision :: "'s zone_env \<Rightarrow> tenant_zone \<Rightarrow> zone_step \<Rightarrow> 's step_run" where
  "step_eks_provision env z st =
     (if zs_ref st = [] then calls (ze_apply env (zn_aws z) (zn_region z) (zn_tier z)) z st
        (\<lambda>ref. finished z (st\<lparr>zs_ref := ref\<rparr>) False)
      else calls (ze_ready env (zs_ref st)) z st (finished z st))"

definition wiring_json :: "wiring_result \<Rightarrow> json" where
  "wiring_json w = JObj [(''OrgID'', JStr (wr_org w)), (''KeycloakOrgID'', JStr (wr_kc w)), (''ClusterID'', JStr (wr_cluster w)),
     (''CloudAccountID'', JStr (wr_cloud w)), (''GitRepo'', JStr (wr_git w))]"

definition bootstrap_arn :: "(string \<Rightarrow> zone_step option) \<Rightarrow> string" where
  "bootstrap_arn steps = (case steps ''trust_bootstrap'' of None \<Rightarrow> []
     | Some tb \<Rightarrow> (case jstring ''roleArn'' (zs_detail tb) of Inl _ \<Rightarrow> [] | Inr arn \<Rightarrow> arn))"

definition step_inari_wiring ::
  "'s zone_env \<Rightarrow> (string \<Rightarrow> zone_step option) \<Rightarrow> tenant_zone \<Rightarrow> zone_step \<Rightarrow> 's step_run" where
  "step_inari_wiring env steps z st = calls (ze_wire env z (bootstrap_arn steps)) z st (\<lambda>w.
     finished (z\<lparr>zn_org := wr_org w, zn_kc := wr_kc w, zn_cluster := wr_cluster w, zn_cloud := wr_cloud w, zn_git := wr_git w\<rparr>)
       (st\<lparr>zs_detail := wiring_json w\<rparr>) True)"

definition step_cordon :: "'s zone_env \<Rightarrow> string \<Rightarrow> tenant_zone \<Rightarrow> zone_step \<Rightarrow> 's step_run" where
  "step_cordon env actor z st = (if zn_cluster z = [] then skipped z st
     else calls (ze_cordon env actor (zn_cluster z)) z st (\<lambda>_. finished z st True))"

definition step_drain :: "'s zone_env \<Rightarrow> string \<Rightarrow> tenant_zone \<Rightarrow> zone_step \<Rightarrow> 's step_run" where
  "step_drain env actor z st = (if zn_cluster z = [] then skipped z st
     else calls (ze_decommission env actor (zn_cluster z) False) z st (\<lambda>drained.
       finished z (st\<lparr>zs_detail := JObj [(''drainedInstanceIds'', if drained = [] then JNull else JArr (map JStr drained))]\<rparr>) True))"

definition step_manifests_delete :: "'s zone_env \<Rightarrow> tenant_zone \<Rightarrow> zone_step \<Rightarrow> 's step_run" where
  "step_manifests_delete env z st = (case ze_manifests env of None \<Rightarrow> skipped z st
     | Some del \<Rightarrow> calls (del (zn_slug z)) z st (\<lambda>_. finished z st True))"

definition step_eks_delete ::
  "'s zone_env \<Rightarrow> (string \<Rightarrow> zone_step option) \<Rightarrow> tenant_zone \<Rightarrow> zone_step \<Rightarrow> 's step_run" where
  "step_eks_delete env steps z st =
     (let prov = (case steps ''eks_provision'' of None \<Rightarrow> [] | Some p \<Rightarrow> zs_ref p)
      in if prov = [] then skipped z st
         else if zs_ref st = [] then calls (ze_delete env prov) z st (\<lambda>_. finished z (st\<lparr>zs_ref := prov\<rparr>) False)
         else calls (ze_deleted env (zs_ref st)) z st (finished z st))"

definition step_account_close :: "'s zone_env \<Rightarrow> tenant_zone \<Rightarrow> zone_step \<Rightarrow> 's step_run" where
  "step_account_close env z st = (if zn_aws z = [] then skipped z st
     else if zs_ref st \<noteq> [] then finished z st True
     else calls (ze_close env (zn_aws z)) z st (\<lambda>ref. finished z (st\<lparr>zs_ref := ref\<rparr>) True))"

definition step_identity_revoke :: "'s zone_env \<Rightarrow> tenant_zone \<Rightarrow> zone_step \<Rightarrow> 's step_run" where
  "step_identity_revoke env z st = calls (ze_unwire env z) z st (\<lambda>_. finished z st True)"

definition provision_order :: "string list" where
  "provision_order = [''preflight'', ''account_vend'', ''trust_bootstrap'', ''eks_provision'', ''inari_wiring'']"

definition decommission_order :: "string list" where
  "decommission_order = [''cordon'', ''drain'', ''platform_manifests_delete'', ''eks_delete'', ''account_close'',
     ''identity_revoke'', ''audit_archive'']"

text \<open>The tables of the step functions; a step missing in its table is a nil function.\<close>

definition zone_step_func ::
  "'s zone_env \<Rightarrow> string \<Rightarrow> (string \<Rightarrow> zone_step option) \<Rightarrow> string \<Rightarrow> tenant_zone \<Rightarrow> zone_step \<Rightarrow> 's step_run" where
  "zone_step_func env actor steps name z st =
     (if name = ''preflight'' then step_preflight env z st
      else if name = ''account_vend'' then step_account_vend env z st
      else if name = ''trust_bootstrap'' then step_trust_bootstrap env z st
      else if name = ''eks_provision'' then step_eks_provision env z st
      else if name = ''inari_wiring'' then step_inari_wiring env steps z st
      else if name = ''cordon'' then step_cordon env actor z st
      else if name = ''drain'' then step_drain env actor z st
      else if name = ''platform_manifests_delete'' then step_manifests_delete env z st
      else if name = ''eks_delete'' then step_eks_delete env steps z st
      else if name = ''account_close'' then step_account_close env z st
      else if name = ''identity_revoke'' then step_identity_revoke env z st
      else if name = ''audit_archive'' then finished z st True
      else fails z st Panic)"

section \<open>The runner\<close>

definition zone_payload :: "tenant_zone \<Rightarrow> string \<Rightarrow> zone_state \<Rightarrow> string \<Rightarrow> string \<Rightarrow> json" where
  "zone_payload z zone_org st step status = JObj ([(''orgId'', JStr (zn_owner z))]
     @ (if zone_org = [] then [] else [(''zoneOrgId'', JStr zone_org)])
     @ [(''zoneId'', JStr (zn_id z)), (''slug'', JStr (zn_slug z)), (''state'', JStr (zone_state_str st))]
     @ (if step = [] then [] else [(''step'', JStr step)])
     @ (if status = [] then [] else [(''stepStatus'', JStr status)]))"

definition step_zone_state :: "string \<Rightarrow> zone_state option" where
  "step_zone_state name = (if name = ''inari_wiring'' then Some ZoneWiring else if name = ''cordon'' then Some ZoneCordoning
     else if name = ''drain'' then Some ZoneDraining else None)"

text \<open>The zone's state after a settled step, and the transaction that stores both.\<close>

definition stepped_zone :: "'s zone_env \<Rightarrow> tenant_zone \<Rightarrow> zone_step \<Rightarrow> tenant_zone" where
  "stepped_zone env z st =
     (if zs_status st = StepFailed \<and> zc_attempts (ze_config env) < int (zs_attempts st) then z\<lparr>zn_state := ZoneManualIntervention\<rparr>
      else case step_zone_state (zs_step st) of
          Some nx \<Rightarrow> if zs_status st \<noteq> StepFailed then z\<lparr>zn_state := nx\<rparr> else z
        | None \<Rightarrow> z)"

definition update_step_tx :: "string \<Rightarrow> tenant_zone \<Rightarrow> zone_step \<Rightarrow> ('a zone_db_scheme, unit) dbm" where
  "update_step_tx actor z st = with_tx (thenE (upsert_step_row st) (thenE (update_zone_row z)
     (emit (audit_ev (zn_owner z) actor ''tenant_zone.step_updated'' ''tenant_zone'' (zn_id z)
        (JObj [(''step'', JStr (zs_step st)), (''status'', JStr (zone_step_status_str (zs_status st))),
           (''attempts'', JNum (real (zs_attempts st)))]))
      (zn_owner z) ''tenant_zone.step_updated''
      (zone_payload z [] (zn_state z) (zs_step st) (zone_step_status_str (zs_status st))))))"

definition new_step :: "string \<Rightarrow> string \<Rightarrow> zone_step" where
  "new_step i name = \<lparr>zs_zone = i, zs_step = name, zs_status = StepPending, zs_ref = [], zs_detail = JNull, zs_attempts = 0\<rparr>"

definition step_over :: "zone_step \<Rightarrow> bool" where
  "step_over st \<longleftrightarrow> zs_status st = StepSucceeded \<or> zs_status st = StepSkipped"

text \<open>The default branch marks a step succeeded, also one that has marked itself skipped.\<close>

definition settled_step :: "zone_step \<Rightarrow> err + bool \<Rightarrow> zone_step" where
  "settled_step st res = (case res of
     Inl e \<Rightarrow> st\<lparr>zs_attempts := Suc (zs_attempts st), zs_status := StepFailed\<rparr>
   | Inr whole \<Rightarrow> st\<lparr>zs_status := (if whole then StepSucceeded else StepWaiting)\<rparr>)"

fun zone_loop ::
  "'a zone_db_scheme zone_env \<Rightarrow> string \<Rightarrow> string list \<Rightarrow> (string \<Rightarrow> zone_step option) \<Rightarrow> tenant_zone \<Rightarrow>
   'a zone_db_scheme \<Rightarrow> (tenant_zone \<times> (err + bool)) \<times> 'a zone_db_scheme" where
  "zone_loop env actor [] steps z s = ((z, Inr True), s)"
| "zone_loop env actor (name # names) steps z s =
     (let st = (case steps name of None \<Rightarrow> new_step (zn_id z) name | Some st \<Rightarrow> st)
      in if step_over st then zone_loop env actor names steps z s
         else case zone_step_func env actor (steps(name \<mapsto> st\<lparr>zs_status := StepRunning\<rparr>)) name z (st\<lparr>zs_status := StepRunning\<rparr>) s of
           ((z1, st1, res), s1) \<Rightarrow>
             (let st2 = settled_step st1 res; z2 = stepped_zone env z1 st2
              in case update_step_tx actor z2 st2 s1 of
                   (Inl e, s2) \<Rightarrow> ((z2, Inl e), s2)
                 | (Inr _, s2) \<Rightarrow> (case res of
                     Inl e \<Rightarrow> ((z2, Inl e), s2)
                   | Inr whole \<Rightarrow> if whole then zone_loop env actor names (steps(name \<mapsto> st2)) z2 s2
                       else ((z2, Inr False), s2))))"

section \<open>The service\<close>

text \<open>The terminal state with its audit row and event.\<close>

definition settle_zone :: "tenant_zone \<Rightarrow> zone_state \<Rightarrow> string \<Rightarrow> string \<Rightarrow> string option \<Rightarrow> ('a zone_db_scheme, unit) dbm" where
  "settle_zone z st event actor cause = (let z' = z\<lparr>zn_state := st\<rparr> in
     with_tx (thenE (update_zone_row z')
       (emit (audit_ev (zn_owner z) actor event ''tenant_zone'' (zn_id z)
          (case cause of None \<Rightarrow> JNull | Some e \<Rightarrow> JObj [(''error'', JStr e)]))
        (zn_owner z) event (zone_payload z (zn_org z) st [] []))))"

definition set_zone_state :: "tenant_zone \<Rightarrow> zone_state \<Rightarrow> ('a zone_db_scheme, tenant_zone) dbm" where
  "set_zone_state z st = (let z' = z\<lparr>zn_state := st, zn_error := []\<rparr> in thenE (with_tx (update_zone_row z')) (ret z'))"

definition zone_finish ::
  "'a zone_db_scheme zone_env \<Rightarrow> string \<Rightarrow> string list \<Rightarrow> tenant_zone \<Rightarrow> err + bool \<Rightarrow> ('a zone_db_scheme, unit) dbm" where
  "zone_finish env actor order z res = (case res of
     Inl e \<Rightarrow> (let z' = z\<lparr>zn_error := ze_text env e\<rparr> in
       if e = PreflightDenied then settle_zone z' ZoneFailed ''tenant_zone.failed'' actor (Some (ze_text env e))
       else if zn_state z \<noteq> ZoneManualIntervention then settle_zone z' ZoneFailed ''tenant_zone.failed'' actor (Some (ze_text env e))
       else settle_zone z' ZoneManualIntervention ''tenant_zone.failed'' actor (Some (ze_text env e)))
   | Inr whole \<Rightarrow> if \<not> whole then ret ()
       else if order \<noteq> [] \<and> hd order = ''preflight'' then settle_zone z ZoneActive ''tenant_zone.active'' actor None
       else settle_zone z ZoneClosed ''tenant_zone.closed'' actor None)"

text \<open>Runs of one zone are serialized by a lock, but each works on the copy of the zone it was given.\<close>

definition zone_run ::
  "'a zone_db_scheme zone_env \<Rightarrow> tenant_zone \<Rightarrow> string \<Rightarrow> string list \<Rightarrow> ('a zone_db_scheme, unit) dbm" where
  "zone_run env z actor order = bindE (list_zone_steps (zn_id z)) (\<lambda>steps s.
     case zone_loop env actor order steps z s of ((z', res), s') \<Rightarrow> zone_finish env actor order z' res s')"

definition provisionable :: "zone_state \<Rightarrow> bool" where
  "provisionable st \<longleftrightarrow> List.member [ZoneRequested, ZonePendingApproval, ZoneProvisioning, ZoneManualIntervention] st"

definition start_provisioning :: "'a zone_db_scheme zone_env \<Rightarrow> string \<Rightarrow> string \<Rightarrow> ('a zone_db_scheme, unit) dbm" where
  "start_provisioning env i actor = bindE (get_zone_row i) (\<lambda>z.
     if \<not> provisionable (zn_state z) then throw ZoneInvalidState
     else bindE (set_zone_state z ZoneProvisioning) (\<lambda>z. zone_run env z actor provision_order))"

definition has_decommission_steps :: "string \<Rightarrow> ('a zone_db_scheme, bool) dbm" where
  "has_decommission_steps i = bindE (list_zone_steps i) (\<lambda>steps. ret (list_ex (\<lambda>name. case steps name of
     None \<Rightarrow> False | Some st \<Rightarrow> zs_status st \<noteq> StepPending) decommission_order))"

definition resume_zone :: "'a zone_db_scheme zone_env \<Rightarrow> string \<Rightarrow> string \<Rightarrow> ('a zone_db_scheme, unit) dbm" where
  "resume_zone env i actor = bindE (get_zone_row i) (\<lambda>z. bindE (has_decommission_steps i) (\<lambda>decommissioning.
     if zn_state z = ZoneProvisioning \<or> zn_state z = ZoneWiring then zone_run env z actor provision_order
     else if zn_state z = ZoneCordoning \<or> zn_state z = ZoneDraining \<or> zn_state z = ZoneDecommissioning
       then zone_run env z actor decommission_order
     else if zn_state z = ZoneManualIntervention \<or> zn_state z = ZoneFailed
       then (if decommissioning then zone_run env z actor decommission_order else zone_run env z actor provision_order)
     else throw ZoneInvalidState))"

definition start_decommission :: "'a zone_db_scheme zone_env \<Rightarrow> string \<Rightarrow> string \<Rightarrow> ('a zone_db_scheme, unit) dbm" where
  "start_decommission env i actor = bindE (get_zone_row i) (\<lambda>z.
     bindE (set_zone_state z ZoneCordoning) (\<lambda>z. zone_run env z actor decommission_order))"

text \<open>The gate is \<open>RequestLifecycleApproval\<close>: organization, action, requester and context to the id.\<close>

type_synonym 's zone_gate = "string \<Rightarrow> string \<Rightarrow> string \<Rightarrow> json \<Rightarrow> ('s, string) dbm"

record zone_request =
  zr_slug :: string
  zr_display :: string
  zr_ou :: string
  zr_region :: string
  zr_tier :: string
  zr_tags :: "(string \<times> string) list"
  zr_mgmt :: string
  zr_owner :: string

definition check_mgmt_account :: "'s zone_env \<Rightarrow> zone_request \<Rightarrow> ('s, unit) dbm" where
  "check_mgmt_account env r = (case ze_mgmt env of None \<Rightarrow> ret ()
     | Some lookup \<Rightarrow> bindE (lookup (zr_owner r) (zr_mgmt r)) (\<lambda>ctx.
         if ctx \<noteq> ''platform'' then throw (ErrMsg ''not a management account'') else ret ()))"

definition request_tx :: "string \<Rightarrow> zone_request \<Rightarrow> string \<Rightarrow> ('a zone_db_scheme, tenant_zone) dbm" where
  "request_tx actor r i = with_tx (bindE (create_zone_row \<lparr>zn_id = i, zn_slug = zr_slug r, zn_display = zr_display r,
       zn_owner = zr_owner r, zn_org = [], zn_ou = zr_ou r, zn_region = zr_region r, zn_tier = zr_tier r, zn_state = ZoneRequested,
       zn_mgmt = zr_mgmt r, zn_aws = [], zn_cluster = [], zn_cloud = [], zn_kc = [], zn_git = [], zn_tags = zr_tags r,
       zn_error = [], zn_by = actor, zn_created = 0, zn_updated = 0\<rparr>) (\<lambda>z.
     thenE (emit (audit_ev (zr_owner r) actor ''tenant_zone.requested'' ''tenant_zone'' (zn_id z)
          (JObj [(''slug'', JStr (zr_slug r)), (''ouId'', JStr (zr_ou r)), (''region'', JStr (zr_region r)), (''tier'', JStr (zr_tier r))]))
        (zr_owner r) ''tenant_zone.requested'' (zone_payload z [] (zn_state z) [] []))
       (ret z)))"

definition vend_context :: "tenant_zone \<Rightarrow> json" where
  "vend_context z = JObj [(''slug'', JStr (zn_slug z)), (''zoneId'', JStr (zn_id z))]"

text \<open>A failed request for approval parks the zone in failed, so that it can be resumed.\<close>

definition park_failed :: "'a zone_db_scheme zone_env \<Rightarrow> string \<Rightarrow> tenant_zone \<Rightarrow> err \<Rightarrow> ('a zone_db_scheme, 'x) dbm" where
  "park_failed env actor z e = thenE (catchE (settle_zone z ZoneFailed ''tenant_zone.failed'' actor (Some (ze_text env e))) (\<lambda>_. ret ())) (throw e)"

definition request_zone ::
  "'a zone_db_scheme zone_env \<Rightarrow> 'a zone_db_scheme zone_gate option \<Rightarrow> string \<Rightarrow> zone_request \<Rightarrow>
   ('a zone_db_scheme, tenant_zone \<times> string) dbm" where
  "request_zone env gt actor r =
     (if zr_mgmt r = [] \<or> zr_owner r = [] then throw (ErrMsg ''management cloud account and owner org are required'')
      else thenE (check_mgmt_account env r) (bindE new_uuid (\<lambda>u. bindE (request_tx actor r (''zone:'' @ u)) (\<lambda>z.
        if zc_approval (ze_config env) then
          (case gt of
             None \<Rightarrow> throw (ErrMsg ''approvals required but no gate configured'')
           | Some request \<Rightarrow>
               bindE (catchE (request (zr_owner r) ApprovalActionTenantZoneVend actor (vend_context z)) (park_failed env actor z)) (\<lambda>i.
               bindE (catchE (set_zone_state z ZonePendingApproval)
                  (park_failed env actor (z\<lparr>zn_state := ZonePendingApproval, zn_error := []\<rparr>))) (\<lambda>z. ret (z, i))))
        else thenE (start_provisioning env (zn_id z) actor) (ret (z, []))))))"

definition request_decommission ::
  "'a zone_db_scheme zone_env \<Rightarrow> 'a zone_db_scheme zone_gate option \<Rightarrow> string \<Rightarrow> string \<Rightarrow> ('a zone_db_scheme, string) dbm" where
  "request_decommission env gt actor i = bindE (get_zone_row i) (\<lambda>z.
     if zn_state z \<noteq> ZoneActive \<and> zn_state z \<noteq> ZoneFailed then throw ZoneInvalidState
     else (case (zc_approval (ze_config env), gt) of
         (True, Some request) \<Rightarrow>
           bindE (request (zn_owner z) ApprovalActionTenantZoneDecommission actor
              (JObj [(''priorState'', JStr (zone_state_str (zn_state z))), (''slug'', JStr (zn_slug z)), (''zoneId'', JStr (zn_id z))])) (\<lambda>a.
           bindE (set_zone_state z ZoneDecommissionPending) (\<lambda>z.
             thenE (with_tx (append_outbox (zn_owner z) ''tenant_zone.decommission_requested'' (zone_payload z [] ZoneDecommissionPending [] [])))
               (ret a)))
       | _ \<Rightarrow> thenE (start_decommission env i actor) (ret [])))"

definition get_zone :: "string \<Rightarrow> ('a zone_db_scheme, tenant_zone \<times> (string \<Rightarrow> zone_step option)) dbm" where
  "get_zone i = bindE (get_zone_row i) (\<lambda>z. bindE (list_zone_steps i) (\<lambda>steps. ret (z, steps)))"

text \<open>One pass of the reconcile loop: a failure is logged.\<close>

definition reconcile_zones :: "'a zone_db_scheme zone_env \<Rightarrow> ('a zone_db_scheme, unit) dbm" where
  "reconcile_zones env = bindE (catchE list_resumable (\<lambda>_. ret []))
     (each_do (\<lambda>z. catchE (resume_zone env (zn_id z) ''system:tenantzonefactory'') (\<lambda>_. ret ())))"

section \<open>The decision\<close>

definition prior_state :: "json \<Rightarrow> zone_state" where
  "prior_state j = (case jstring ''priorState'' j of Inl _ \<Rightarrow> ZoneActive
     | Inr p \<Rightarrow> if p = zone_state_str ZoneFailed then ZoneFailed else ZoneActive)"

definition zone_denied ::
  "'a zone_db_scheme zone_env \<Rightarrow> approval_request \<Rightarrow> string \<Rightarrow> string \<Rightarrow> string \<Rightarrow> ('a zone_db_scheme, unit) dbm" where
  "zone_denied env req zone i st = bindE (get_zone_row zone) (\<lambda>z.
     if ar_action req = ApprovalActionTenantZoneDecommission
     then settle_zone z (prior_state (ar_spec req)) ''tenant_zone.decommission_denied'' ''system:approvals''
       (Some (''decommission approval '' @ i @ '' '' @ st))
     else settle_zone z ZoneFailed ''tenant_zone.failed'' ''system:approvals'' (Some (''approval '' @ i @ '' '' @ st)))"

definition zone_resume_events :: "string list" where
  "zone_resume_events = [''approval.decided'']"

definition zone_resume_handle :: "'a zone_db_scheme zone_env \<Rightarrow> outbox_event \<Rightarrow> ('a zone_db_scheme, unit) dbm" where
  "zone_resume_handle env ev = bindE (lift_sum (jstring ''orgId'' (ob_payload ev))) (\<lambda>porg.
     bindE (lift_sum (jstring ''approvalId'' (ob_payload ev))) (\<lambda>i.
     bindE (lift_sum (jstring ''state'' (ob_payload ev))) (\<lambda>st.
     bindE (get_request porg i) (\<lambda>req.
       if ar_action req \<noteq> ApprovalActionTenantZoneVend \<and> ar_action req \<noteq> ApprovalActionTenantZoneDecommission then ret ()
       else (case (jstring ''zoneId'' (ar_spec req), jstring ''priorState'' (ar_spec req)) of
           (Inr zone, Inr _) \<Rightarrow> if zone = [] then throw (ErrMsg ''missing zone context'')
             else if st \<noteq> approval_state_str Approved then zone_denied env req zone i st
             else if ar_action req = ApprovalActionTenantZoneVend then start_provisioning env zone ''system:approvals''
             else start_decommission env zone ''system:approvals''
         | _ \<Rightarrow> throw (ErrMsg ''missing zone context''))))))"

definition zone_resume :: "'a zone_db_scheme zone_env \<Rightarrow> 'a zone_db_scheme named_handler" where
  "zone_resume env = \<lparr>h_name = ''tenant-zone-resume'', h_types = zone_resume_events, h_handle = zone_resume_handle env\<rparr>"

end
