(* ===== verification/CloudAccounts.thy ===== *)
theory CloudAccounts
  imports TenantZones AgentQueue
begin

text \<open>
  Cloud accounts (internal/cloudaccounts): cloudaccounts.go, sts.go and providerconfig.go. A tenant
  registers an account by its role, the platform validates the trust by a dry run, which is a
  parameter, and a Crossplane ProviderConfig is rendered for a workload cluster.
\<close>

section \<open>Input\<close>

record register_input =
  ri_provider :: string
  ri_account :: string
  ri_role :: string
  ri_external :: string
  ri_issuer :: string
  ri_context :: string

definition account_id_ok :: "string \<Rightarrow> bool" where
  "account_id_ok s \<longleftrightarrow> length s = 12 \<and> list_all is_digit s"

definition role_name_char :: "char \<Rightarrow> bool" where
  "role_name_char c \<longleftrightarrow> is_digit c \<or> (let n = (of_char c :: nat) in 65 \<le> n \<and> n \<le> 90 \<or> 97 \<le> n \<and> n \<le> 122)
     \<or> List.member ''+=,.@_/-'' c"

definition arn_prefix :: string where "arn_prefix = ''arn:aws:iam::''"

definition role_arn_ok :: "string \<Rightarrow> bool" where
  "role_arn_ok s \<longleftrightarrow> has_prefix s arn_prefix
     \<and> (let r = drop (length arn_prefix) s in account_id_ok (take 12 r) \<and> has_prefix (drop 12 r) '':role/''
          \<and> drop 18 r \<noteq> [] \<and> list_all role_name_char (drop 18 r))"

definition arn_account :: "string \<Rightarrow> string" where
  "arn_account s = take 12 (drop (length arn_prefix) s)"

definition validate_register_input :: "register_input \<Rightarrow> err + register_input" where
  "validate_register_input r0 = (let r = (if ri_provider r0 = [] then r0\<lparr>ri_provider := ''aws''\<rparr> else r0) in
     if ri_provider r \<noteq> ''aws'' then Inl AccountInput
     else if \<not> account_id_ok (ri_account r) then Inl AccountInput
     else if \<not> role_arn_ok (ri_role r) then Inl AccountInput
     else if arn_account (ri_role r) \<noteq> ri_account r then Inl AccountInput
     else if 1224 < length (ri_external r) then Inl AccountInput
     else if ri_issuer r \<noteq> [] \<and> \<not> has_prefix (ri_issuer r) ''https://'' then Inl AccountInput
     else (let r' = (if ri_context r = [] then r\<lparr>ri_context := ''tenant''\<rparr> else r) in
       if ri_context r' \<noteq> ''tenant'' \<and> ri_context r' \<noteq> ''platform'' then Inl AccountInput else Inr r'))"

section \<open>The store\<close>

definition account_state_str :: "account_state \<Rightarrow> string" where
  "account_state_str st = (case st of AccountPending \<Rightarrow> ''pending_validation'' | AccountActive \<Rightarrow> ''active''
     | AccountInvalid \<Rightarrow> ''invalid'' | AccountRevoked \<Rightarrow> ''revoked'')"

definition account_key :: "cloud_account \<Rightarrow> string \<times> string \<times> string" where
  "account_key a = (ca_org a, ca_provider a, ca_account a)"

text \<open>Any unique violation counts as a duplicate registration, also one of the primary key.\<close>

definition create_account_row :: "cloud_account \<Rightarrow> ('a zone_db_scheme, cloud_account) dbm" where
  "create_account_row a = sql (\<lambda>s. let row = a\<lparr>ca_validated := None, ca_error := [], ca_created := clock s\<rparr> in
     if list_ex (\<lambda>x. ca_id x = ca_id a \<or> account_key x = account_key a) (cloud_accounts s) then (Inl AccountRegistered, s)
     else if ca_org a \<notin> og_id ` set (organizations s) then (Inl fk_violation, s)
     else (Inr row, s\<lparr>cloud_accounts := cloud_accounts s @ [row]\<rparr>))"

definition get_account_row :: "string \<Rightarrow> ('a zone_db_scheme, cloud_account) dbm" where
  "get_account_row i = sql (\<lambda>s. case select_row (\<lambda>a. ca_id a = i) (cloud_accounts s) of
     None \<Rightarrow> (Inl AccountNotFound, s) | Some a \<Rightarrow> (Inr a, s))"

definition list_account_rows :: "string \<Rightarrow> ('a zone_db_scheme, cloud_account list) dbm" where
  "list_account_rows org = sql (asks (\<lambda>s. sort_key ca_created (filter (\<lambda>a. ca_org a = org) (cloud_accounts s))))"

definition set_validation_state :: "string \<Rightarrow> account_state \<Rightarrow> int option \<Rightarrow> string \<Rightarrow> ('a zone_db_scheme, unit) dbm" where
  "set_validation_state i st t e = sql (\<lambda>s. if rows_affected (\<lambda>a. ca_id a = i) (cloud_accounts s) = 0 then (Inl AccountNotFound, s)
     else (Inr (), s\<lparr>cloud_accounts := update_rows (\<lambda>a. ca_id a = i)
             (\<lambda>a. a\<lparr>ca_state := st, ca_validated := t, ca_error := e\<rparr>) (cloud_accounts s)\<rparr>))"

text \<open>A zone's management account cannot be deleted.\<close>

definition delete_account_row :: "string \<Rightarrow> ('a zone_db_scheme, unit) dbm" where
  "delete_account_row i = sql (\<lambda>s. if rows_affected (\<lambda>a. ca_id a = i) (cloud_accounts s) = 0 then (Inl AccountNotFound, s)
     else if list_ex (\<lambda>z. zn_mgmt z = i) (tenant_zones s) then (Inl fk_violation, s)
     else (Inr (), s\<lparr>cloud_accounts := filter (\<lambda>a. ca_id a \<noteq> i) (cloud_accounts s)\<rparr>))"

section \<open>The service\<close>

definition account_payload :: "string \<Rightarrow> string \<Rightarrow> string \<Rightarrow> string \<Rightarrow> json" where
  "account_payload org i acct st = JObj ([(''orgId'', JStr org), (''accountId'', JStr i)]
     @ (if acct = [] then [] else [(''awsAccountId'', JStr acct)]) @ (if st = [] then [] else [(''state'', JStr st)]))"

definition emit_account :: "string \<Rightarrow> string \<Rightarrow> string \<Rightarrow> string \<Rightarrow> string \<Rightarrow> string \<Rightarrow> ('a zone_db_scheme, unit) dbm" where
  "emit_account org actor event i acct st =
     emit (audit_ev org actor event ''cloud_account'' i JNull) org event (account_payload org i acct st)"

definition register_account :: "string \<Rightarrow> string \<Rightarrow> register_input \<Rightarrow> ('a zone_db_scheme, cloud_account) dbm" where
  "register_account actor org r0 = bindE (lift_sum (validate_register_input r0)) (\<lambda>r. bindE new_uuid (\<lambda>u.
     with_tx (bindE (create_account_row \<lparr>ca_id = ''cloudaccount:'' @ u, ca_org = org, ca_provider = ri_provider r,
         ca_account = ri_account r, ca_role = ri_role r, ca_external = ri_external r, ca_issuer = ri_issuer r,
         ca_context = ri_context r, ca_state = AccountPending, ca_validated = None, ca_error = [], ca_by = actor, ca_created = 0\<rparr>) (\<lambda>a.
       thenE (emit_account org actor ''cloud_account.registered'' (ca_id a) (ca_account a) (account_state_str (ca_state a)))
         (ret a)))))"

definition get_account :: "string \<Rightarrow> string \<Rightarrow> ('a zone_db_scheme, cloud_account) dbm" where
  "get_account org i = bindE (get_account_row i) (\<lambda>a. if ca_org a \<noteq> org then throw AccountNotFound else ret a)"

text \<open>
  The dry run takes the role, the external id and the issuer; \<open>disabled_validator\<close> is the one
  without a token source. A failed dry run keeps the time of the last successful one.
\<close>

type_synonym 's sts = "string \<Rightarrow> string \<Rightarrow> string \<Rightarrow> ('s, unit) dbm"

definition disabled_validator :: "'s sts" where
  "disabled_validator role ext issuer = throw ValidationUnavailable"

definition validate_account ::
  "'a zone_db_scheme sts \<Rightarrow> (err \<Rightarrow> string) \<Rightarrow> string \<Rightarrow> string \<Rightarrow> string \<Rightarrow> ('a zone_db_scheme, cloud_account) dbm" where
  "validate_account sts text actor org i = bindE (get_account org i) (\<lambda>a s.
     case sts (ca_role a) (ca_external a) (ca_issuer a) s of (res, s1) \<Rightarrow>
       if res = Inl ValidationUnavailable then (Inl ValidationUnavailable, s1)
       else (let a' = (case res of Inr _ \<Rightarrow> a\<lparr>ca_state := AccountActive, ca_validated := Some (clock s1), ca_error := []\<rparr>
                | Inl e \<Rightarrow> a\<lparr>ca_state := AccountInvalid, ca_error := text e\<rparr>)
         in thenE (with_tx (thenE (set_validation_state (ca_id a') (ca_state a') (ca_validated a') (ca_error a'))
              (emit_account org actor ''cloud_account.validated'' (ca_id a') (ca_account a') (account_state_str (ca_state a')))))
              (ret a') s1))"

definition deregister_account :: "string \<Rightarrow> string \<Rightarrow> string \<Rightarrow> ('a zone_db_scheme, unit) dbm" where
  "deregister_account actor org i = bindE (get_account org i) (\<lambda>a.
     with_tx (thenE (delete_account_row i) (emit_account org actor ''cloud_account.deregistered'' i (ca_account a) [])))"

section \<open>The ProviderConfig\<close>

definition label :: "(string \<times> string) list \<Rightarrow> string \<Rightarrow> string" where
  "label ls k = (case map_of ls k of None \<Rightarrow> [] | Some v \<Rightarrow> v)"

definition cluster_metadata :: "cluster \<Rightarrow> string \<times> string" where
  "cluster_metadata c = (if cl_distribution c = [] then label (cl_labels c) ''inari.dev/distribution'' else cl_distribution c,
     if cl_issuer c = [] then label (cl_labels c) ''inari.dev/oidc-issuer'' else cl_issuer c)"

definition assumed_role :: "cloud_account \<Rightarrow> json" where
  "assumed_role a = JObj ((''roleARN'', JStr (ca_role a)) # (if ca_external a = [] then [] else [(''externalID'', JStr (ca_external a))]))"

text \<open>The document that \<open>yaml.Marshal\<close> prints.\<close>

definition provider_document :: "cloud_account \<Rightarrow> string \<Rightarrow> (string \<times> json) list \<Rightarrow> json list \<Rightarrow> string \<Rightarrow> json" where
  "provider_document a source web chain issuer = JObj [(''apiVersion'', JStr ''aws.upbound.io/v1beta1''), (''kind'', JStr ''ProviderConfig''),
     (''metadata'', JObj ((''name'', JStr (''inari-'' @ ca_account a))
        # (if source = ''WebIdentity'' then [(''annotations'', JObj [(''inari.dev/oidc-issuer'', JStr issuer)])] else []))),
     (''spec'', JObj ((''credentials'', JObj ((''source'', JStr source) # web))
        # (if chain = [] then [] else [(''assumeRoleChain'', JArr chain)])))]"

definition render_provider_config :: "cloud_account option \<Rightarrow> cluster option \<Rightarrow> err + json" where
  "render_provider_config acct cl = (case (acct, cl) of
     (Some a, Some c) \<Rightarrow> (case cluster_metadata c of (distribution, issuer) \<Rightarrow>
       if ca_context a = ''platform'' then
         (if issuer = [] then Inl (ErrMsg ''no issuer'') else Inr (provider_document a ''WebIdentity'' [] [assumed_role a] issuer))
       else if distribution = ''eks'' then Inr (provider_document a ''IRSA'' [] [] issuer)
       else if issuer = [] then Inl (ErrMsg ''no issuer'')
       else Inr (provider_document a ''WebIdentity'' [(''webIdentity'', assumed_role a)] [] issuer))
   | _ \<Rightarrow> Inl (ErrMsg ''account and cluster are required''))"

section \<open>Well-formed accounts\<close>

definition account_ok :: "cloud_account \<Rightarrow> bool" where
  "account_ok a \<longleftrightarrow> ca_provider a = ''aws'' \<and> account_id_ok (ca_account a) \<and> role_arn_ok (ca_role a)
     \<and> arn_account (ca_role a) = ca_account a \<and> length (ca_external a) \<le> 1224
     \<and> (ca_issuer a \<noteq> [] \<longrightarrow> has_prefix (ca_issuer a) ''https://'')
     \<and> (ca_context a = ''tenant'' \<or> ca_context a = ''platform'')
     \<and> (ca_state a = AccountActive \<longrightarrow> ca_validated a \<noteq> None)"

definition accounts_typed :: "'a zone_db_scheme \<Rightarrow> bool" where
  "accounts_typed s \<longleftrightarrow> (\<forall>a \<in> set (cloud_accounts s). account_ok a)
     \<and> distinct (map ca_id (cloud_accounts s)) \<and> distinct (map account_key (cloud_accounts s))"

datatype account_call = Register string string register_input | Validate string string string | Deregister string string string

fun account_run :: "'a zone_db_scheme sts \<Rightarrow> (err \<Rightarrow> string) \<Rightarrow> account_call \<Rightarrow> ('a zone_db_scheme, unit) dbm" where
  "account_run sts text (Register actor org r) = thenE (register_account actor org r) (ret ())"
| "account_run sts text (Validate actor org i) = thenE (validate_account sts text actor org i) (ret ())"
| "account_run sts text (Deregister actor org i) = deregister_account actor org i"

text \<open>Each call runs under a script of the statements that fail.\<close>

fun account_runs :: "'a zone_db_scheme sts \<Rightarrow> (err \<Rightarrow> string) \<Rightarrow> (bool list \<times> account_call) list \<Rightarrow> 'a zone_db_scheme \<Rightarrow> 'a zone_db_scheme" where
  "account_runs sts text [] s = s"
| "account_runs sts text ((fs, c) # cs) s = account_runs sts text cs (snd (account_run sts text c (s\<lparr>faults := fs\<rparr>)))"

lemma validated_input:
  assumes "validate_register_input r0 = Inr r"
  shows "ri_provider r = ''aws'' \<and> account_id_ok (ri_account r) \<and> role_arn_ok (ri_role r) \<and> arn_account (ri_role r) = ri_account r
    \<and> length (ri_external r) \<le> 1224 \<and> (ri_issuer r \<noteq> [] \<longrightarrow> has_prefix (ri_issuer r) ''https://'')
    \<and> (ri_context r = ''tenant'' \<or> ri_context r = ''platform'')"
  using assms unfolding validate_register_input_def Let_def by (auto split: if_splits)

lemma log_stable_accounts: "log_stable accounts_typed"
  by (simp add: log_stable_def accounts_typed_def)

lemmas accounts_stable = log_stable_tx_stable [OF log_stable_accounts]

lemma keeps_create_account_row:
  assumes "account_ok (a\<lparr>ca_validated := None, ca_error := [], ca_created := t\<rparr>)"
  shows "preserves accounts_typed (create_account_row a)"
  unfolding create_account_row_def
proof (rule preserves_sql_body [OF log_stable_accounts])
  fix s r s' assume I: "accounts_typed s"
    and run: "(let row = a\<lparr>ca_validated := None, ca_error := [], ca_created := clock s\<rparr> in
     if list_ex (\<lambda>x. ca_id x = ca_id a \<or> account_key x = account_key a) (cloud_accounts s) then (Inl AccountRegistered, s)
     else if ca_org a \<notin> og_id ` set (organizations s) then (Inl fk_violation, s)
     else (Inr row, s\<lparr>cloud_accounts := cloud_accounts s @ [row]\<rparr>)) = (r, s')"
  have ok: "account_ok (a\<lparr>ca_validated := None, ca_error := [], ca_created := clock s\<rparr>)"
    using assms by (simp add: account_ok_def)
  show "accounts_typed s'"
  proof (cases "s' = s")
    case False
    with run have s': "s' = s\<lparr>cloud_accounts := cloud_accounts s @ [a\<lparr>ca_validated := None, ca_error := [], ca_created := clock s\<rparr>]\<rparr>"
      and new: "\<forall>x \<in> set (cloud_accounts s). ca_id x \<noteq> ca_id a \<and> account_key x \<noteq> account_key a"
      by (auto simp: Let_def list_ex_iff split: if_splits)
    from ok I new show ?thesis unfolding s' accounts_typed_def by (auto simp: account_key_def)
  qed (use I in simp)
qed

lemma keeps_set_validation:
  assumes "st = AccountActive \<longrightarrow> t \<noteq> None"
  shows "preserves accounts_typed (set_validation_state i st t e)"
  unfolding set_validation_state_def
proof (rule preserves_sql_body [OF log_stable_accounts])
  let ?f = "\<lambda>a. a\<lparr>ca_state := st, ca_validated := t, ca_error := e\<rparr>"
  fix s r s' assume I: "accounts_typed s" and run: "(if rows_affected (\<lambda>a. ca_id a = i) (cloud_accounts s) = 0 then (Inl AccountNotFound, s)
     else (Inr (), s\<lparr>cloud_accounts := update_rows (\<lambda>a. ca_id a = i) ?f (cloud_accounts s)\<rparr>)) = (r, s')"
  have keys: "map ca_id (update_rows (\<lambda>a. ca_id a = i) ?f rows) = map ca_id rows"
    "map account_key (update_rows (\<lambda>a. ca_id a = i) ?f rows) = map account_key rows" for rows
    by (simp_all add: map_update_rows_same account_key_def)
  from I assms have ok: "\<forall>a \<in> set (update_rows (\<lambda>a. ca_id a = i) ?f (cloud_accounts s)). account_ok a"
    by (auto simp: ball_update_rows accounts_typed_def account_ok_def)
  from run I keys ok show "accounts_typed s'" unfolding accounts_typed_def by (auto split: if_splits)
qed

lemma keeps_delete_account: "preserves accounts_typed (delete_account_row i)"
  unfolding delete_account_row_def
  by (rule preserves_sql_body [OF log_stable_accounts])
    (auto simp: accounts_typed_def distinct_map_filter split: if_splits)

lemma keeps_get_account: "preserves accounts_typed (get_account org i)"
  unfolding get_account_def get_account_row_def
  by (intro preserves_rules preserves_sql_body [OF log_stable_accounts]) (auto split: option.splits)

lemma keeps_emit_account: "preserves accounts_typed (emit_account org actor event i acct st)"
  unfolding emit_account_def by (rule preserves_emit [OF log_stable_accounts])

lemmas keeps_accounts = keeps_create_account_row keeps_set_validation keeps_delete_account keeps_get_account
  keeps_emit_account preserves_with_tx [OF accounts_stable] preserves_new_uuid [OF accounts_stable]

lemma keeps_register: "preserves accounts_typed (register_account actor org r0)"
proof (cases "validate_register_input r0")
  case (Inl e)
  then show ?thesis by (simp add: register_account_def bindE_def lift_sum_def preserves_def)
next
  case (Inr r)
  have eq: "register_account actor org r0 = bindE new_uuid (\<lambda>u.
     with_tx (bindE (create_account_row \<lparr>ca_id = ''cloudaccount:'' @ u, ca_org = org, ca_provider = ri_provider r,
         ca_account = ri_account r, ca_role = ri_role r, ca_external = ri_external r, ca_issuer = ri_issuer r,
         ca_context = ri_context r, ca_state = AccountPending, ca_validated = None, ca_error = [], ca_by = actor, ca_created = 0\<rparr>) (\<lambda>a.
       thenE (emit_account org actor ''cloud_account.registered'' (ca_id a) (ca_account a) (account_state_str (ca_state a)))
         (ret a))))"
    by (simp add: register_account_def Inr bindE_def lift_sum_def)
  show ?thesis unfolding eq by (intro preserves_bindE preserves_thenE preserves_ret keeps_accounts) (simp add: account_ok_def validated_input [OF Inr])
qed

lemma keeps_deregister: "preserves accounts_typed (deregister_account actor org i)"
  unfolding deregister_account_def by (intro preserves_bindE preserves_thenE keeps_accounts)

lemma get_account_okE:
  assumes "get_account org i s = (Inr a, s1)"
  obtains fs where "s1 = s\<lparr>faults := fs\<rparr>" "a \<in> set (cloud_accounts s)" "ca_id a = i" "ca_org a = org"
  using assms unfolding get_account_def get_account_row_def
  by (auto elim!: okE split: option.splits if_splits dest!: select_row_SomeD)

lemma keeps_validate:
  assumes sts: "\<And>r x u. preserves accounts_typed (sts r x u)"
  shows "preserves accounts_typed (validate_account sts text actor org i)"
proof (rule preservesI)
  fix s r s' assume I: "accounts_typed s" and run: "validate_account sts text actor org i s = (r, s')"
  obtain g s0 where g: "get_account org i s = (g, s0)" by fastforce
  have I0: "accounts_typed s0" by (rule preservesD [OF keeps_get_account I g])
  show "accounts_typed s'"
  proof (cases g)
    case (Inl e)
    with run g I0 show ?thesis by (simp add: validate_account_def bindE_def)
  next
    case (Inr a)
    obtain res s1 where res: "sts (ca_role a) (ca_external a) (ca_issuer a) s0 = (res, s1)" by fastforce
    have I1: "accounts_typed s1" by (rule preservesD [OF sts I0 res])
    have "account_ok a" using g I unfolding Inr by (auto elim!: get_account_okE simp: accounts_typed_def)
    then have k: "preserves accounts_typed (thenE (with_tx (thenE (set_validation_state k st t e)
        (emit_account org actor ev j x y))) (ret z))" if "st = AccountActive \<longrightarrow> t \<noteq> None" for k st t e ev j x y and z :: cloud_account
      using that by (intro preserves_thenE keeps_accounts preserves_ret) auto
    show ?thesis
    proof (cases res)
      case (Inl e)
      with run g Inr res I1 show ?thesis
        by (auto simp: validate_account_def bindE_def Let_def split: if_splits intro: preservesD [OF k])
    next
      case (Inr u)
      with run g \<open>g = Inr a\<close> res I1 show ?thesis
        by (auto simp: validate_account_def bindE_def Let_def split: if_splits intro: preservesD [OF k])
    qed
  qed
qed

text \<open>
  (C29) Cloud accounts stay well-formed. After any sequence of registrations, validations and
  deregistrations with any inputs and with any statements failing, every stored account has a
  12-digit number, a role in that same account, an https issuer if any and a known run context, an
  active one has a validation time, and an organization holds an account of a provider once.
\<close>

theorem accounts_stay_typed:
  assumes "accounts_typed s" and "\<And>r x u. preserves accounts_typed (sts r x u)"
  shows "accounts_typed (account_runs sts text cs s)"
  using assms(1)
proof (induction cs arbitrary: s)
  case (Cons c cs)
  obtain fs call where c: "c = (fs, call)" by (cases c)
  have "preserves accounts_typed (account_run sts text call)"
    by (cases call) (simp_all add: preserves_thenE preserves_ret keeps_register keeps_deregister keeps_validate assms(2))
  moreover have "accounts_typed (s\<lparr>faults := fs\<rparr>)"
    using Cons.prems tx_stableD [OF accounts_stable same_tables_faults] by blast
  ultimately have "accounts_typed (snd (account_run sts text call (s\<lparr>faults := fs\<rparr>)))" by (simp add: preserves_def)
  from Cons.IH [OF this] show ?case by (simp add: c)
qed simp

definition zone_demo_db :: zone_db where
  "zone_demo_db = \<lparr>faults = [], clock = 100, uuids = (\<lambda>n. replicate n (CHR ''u'')), uuid_next = 1,
     audit_rows = [], audit_archive = [], outbox_rows = [], outbox_seq = 1, approvals = [], approval_configs = [],
     organizations = [\<lparr>og_id = ''org:p'', og_slug = ''platform'', og_display = ''P'', og_kc = ''p'', og_status = ''active'', og_created = 1\<rparr>],
     org_roles = [], teams = [], memberships = [], tenant_users = [], tenant_zones = [], zone_steps = [], cloud_accounts = []\<rparr>"

definition demo_account_calls :: "(bool list \<times> account_call) list" where
  "demo_account_calls = [([], Register ''ada'' ''org:p'' \<lparr>ri_provider = [], ri_account = ''123456789012'',
        ri_role = ''arn:aws:iam::123456789012:role/inari'', ri_external = [], ri_issuer = [], ri_context = ''platform''\<rparr>),
     ([], Validate ''ada'' ''org:p'' ''cloudaccount:u''), ([True], Deregister ''ada'' ''org:p'' ''cloudaccount:u'')]"

lemma accounts_stay_typed_witness:
  "map ca_state (cloud_accounts (account_runs (\<lambda>_ _ _. ret ()) (\<lambda>_. []) demo_account_calls zone_demo_db)) = [AccountActive]
   \<and> accounts_typed (account_runs (\<lambda>_ _ _. ret ()) (\<lambda>_. []) demo_account_calls zone_demo_db)"
proof
  show "map ca_state (cloud_accounts (account_runs (\<lambda>_ _ _. ret ()) (\<lambda>_. []) demo_account_calls zone_demo_db)) = [AccountActive]"
    by code_simp
  show "accounts_typed (account_runs (\<lambda>_ _ _. ret ()) (\<lambda>_. []) demo_account_calls zone_demo_db)"
    by (rule accounts_stay_typed) (simp_all add: accounts_typed_def zone_demo_db_def preserves_ret)
qed

end
