(* ===== verification/ZoneBackends.thy ===== *)
theory ZoneBackends
  imports CloudAccounts TenancyService
begin

text \<open>
  The backends of the tenant zone factory: the in-memory organizations, trust bootstrap and
  provisioner the server uses unless the AWS mode is set (internal/tenantzonefactory/aws_fake.go,
  wired in cmd/inari-server/main.go), and the composition of the other modules that wires a zone
  (wiring.go, baseline.go), over the interfaces wiring.go names.
\<close>

section \<open>The in-memory backends\<close>

record fake_request =
  fr_id :: string
  fr_kind :: string
  fr_account :: string
  fr_polls :: int
  fr_succeed :: int
  fr_fail :: bool
  fr_closed :: bool
  fr_token :: string

record fake_mr =
  mr_ref :: string
  mr_polls :: int
  mr_ready :: int
  mr_deleted :: bool

text \<open>The memory of \<open>FakeOrganizations\<close>, \<open>FakeTrustBootstrap\<close> and \<open>FakeProvisioner\<close>, beside the database.\<close>

record fake_db = zone_db +
  fo_next :: nat
  fo_requests :: "fake_request list"
  fo_accounts :: "string \<Rightarrow> int"
  fo_after :: int
  fo_fail_create :: bool
  fo_fail_close :: bool
  fo_created :: "string list"
  fo_moves :: "string list"
  tb_roles :: "string \<Rightarrow> string option"
  tb_err :: "err option"
  fp_next :: nat
  fp_mrs :: "fake_mr list"
  fp_after :: int
  fp_fail :: bool

definition fresh_fakes :: "'a fake_db_scheme \<Rightarrow> 'a fake_db_scheme" where
  "fresh_fakes s = s\<lparr>fo_next := 0, fo_requests := [], fo_accounts := (\<lambda>_. 0), fo_after := 1, fo_fail_create := False,
     fo_fail_close := False, fo_created := [], fo_moves := [], tb_roles := (\<lambda>_. None), tb_err := None,
     fp_next := 0, fp_mrs := [], fp_after := 1, fp_fail := False\<rparr>"

text \<open>The requests are a map that the loop reads in any order: at most one of them matches (below).\<close>

definition request_in_flight :: "string \<Rightarrow> fake_request \<Rightarrow> bool" where
  "request_in_flight token r \<longleftrightarrow> fr_kind r = ''create'' \<and> \<not> fr_fail r \<and> fr_token r = token \<and> token \<noteq> []"

text \<open>The numbers have at least 12 digits, so that \<open>%012d\<close> pads nothing.\<close>

function show_int :: "int \<Rightarrow> string" where
  "show_int n = (if n < 10 then [digit_char (nat n)] else show_int (n div 10) @ [digit_char (nat (n mod 10))])"
  by pat_completeness auto
termination by (relation "measure nat") auto

declare show_int.simps [simp del]

definition account_number :: "nat \<Rightarrow> string" where
  "account_number n = show_int (100000000000 + int n)"

definition fake_create_account ::
  "string \<Rightarrow> string \<Rightarrow> string \<Rightarrow> (string \<times> string) list \<Rightarrow> string \<Rightarrow> ('a fake_db_scheme, string) dbm" where
  "fake_create_account name email ou tags token s = (case select_row (request_in_flight token) (fo_requests s) of
     Some r \<Rightarrow> (Inr (fr_id r), s)
   | None \<Rightarrow> (let n = Suc (fo_next s); i = account_number n; rid = ''car-'' @ show_nat n
       in (Inr rid, s\<lparr>fo_next := n, fo_requests := fo_requests s @ [\<lparr>fr_id = rid, fr_kind = ''create'', fr_account = i,
             fr_polls = 0, fr_succeed = fo_after s, fr_fail = fo_fail_create s, fr_closed = False, fr_token = token\<rparr>],
             fo_accounts := (fo_accounts s)(ou := fo_accounts s ou + 1), fo_created := fo_created s @ [i]\<rparr>)))"

definition fake_move_account :: "string \<Rightarrow> string \<Rightarrow> ('a fake_db_scheme, unit) dbm" where
  "fake_move_account acct ou = modify (\<lambda>s. s\<lparr>fo_moves := fo_moves s @ [acct @ ''->'' @ ou]\<rparr>)"

definition fake_describe :: "string \<Rightarrow> ('a fake_db_scheme, account_status) dbm" where
  "fake_describe rid s = (case select_row (\<lambda>r. fr_id r = rid) (fo_requests s) of
     None \<Rightarrow> (Inl (ErrMsg ''unknown request''), s)
   | Some r \<Rightarrow> (let r' = r\<lparr>fr_polls := fr_polls r + 1\<rparr>;
         put = (\<lambda>q. s\<lparr>fo_requests := update_rows (\<lambda>x. fr_id x = rid) (\<lambda>_. q) (fo_requests s)\<rparr>)
       in if fr_fail r' then (Inr \<lparr>as_state = ''FAILED'', as_account = [], as_reason = ''scripted failure''\<rparr>, put r')
          else if fr_succeed r' \<le> fr_polls r' then
            (Inr \<lparr>as_state = ''SUCCEEDED'', as_account = fr_account r', as_reason = []\<rparr>,
             put (if fr_kind r' = ''close'' then r'\<lparr>fr_closed := True\<rparr> else r'))
          else (Inr \<lparr>as_state = ''IN_PROGRESS'', as_account = [], as_reason = []\<rparr>, put r')))"

definition fake_close_account :: "string \<Rightarrow> ('a fake_db_scheme, string) dbm" where
  "fake_close_account acct s = (let n = Suc (fo_next s); rid = ''car-'' @ show_nat n
     in (Inr rid, s\<lparr>fo_next := n, fo_requests := fo_requests s @ [\<lparr>fr_id = rid, fr_kind = ''close'', fr_account = acct,
           fr_polls = 0, fr_succeed = fo_after s, fr_fail = fo_fail_close s, fr_closed = False, fr_token = []\<rparr>]\<rparr>))"

definition fake_count_accounts :: "string \<Rightarrow> ('a fake_db_scheme, int) dbm" where
  "fake_count_accounts ou = asks (\<lambda>s. fo_accounts s ou)"

definition fake_ensure_role :: "string \<Rightarrow> string \<Rightarrow> string \<Rightarrow> ('a fake_db_scheme, string) dbm" where
  "fake_ensure_role acct issuer role s = (case tb_err s of Some e \<Rightarrow> (Inl e, s)
     | None \<Rightarrow> (case tb_roles s acct of Some arn \<Rightarrow> (Inr arn, s)
         | None \<Rightarrow> (let arn = ''arn:aws:iam::'' @ acct @ '':role/'' @ (if role = [] then ''inari-onboarding'' else role)
             in (Inr arn, s\<lparr>tb_roles := (tb_roles s)(acct \<mapsto> arn)\<rparr>))))"

definition fake_apply_mr :: "string \<Rightarrow> string \<Rightarrow> string \<Rightarrow> ('a fake_db_scheme, string) dbm" where
  "fake_apply_mr acct region tier s = (if fp_fail s then (Inl (ErrMsg ''scripted MR apply failure''), s)
     else (let n = Suc (fp_next s); ref = ''eks-'' @ acct @ ''-'' @ region @ ''-'' @ show_nat n;
              mr = \<lparr>mr_ref = ref, mr_polls = 0, mr_ready = fp_after s, mr_deleted = False\<rparr>
       in (Inr ref, s\<lparr>fp_next := n, fp_mrs := filter (\<lambda>m. mr_ref m \<noteq> ref) (fp_mrs s) @ [mr]\<rparr>)))"

definition fake_mr_status :: "string \<Rightarrow> ('a fake_db_scheme, bool) dbm" where
  "fake_mr_status ref s = (case select_row (\<lambda>m. mr_ref m = ref) (fp_mrs s) of
     None \<Rightarrow> (Inl (ErrMsg ''unknown MR''), s)
   | Some m \<Rightarrow> (Inr (mr_ready m \<le> mr_polls m + 1),
       s\<lparr>fp_mrs := update_rows (\<lambda>x. mr_ref x = ref) (\<lambda>x. x\<lparr>mr_polls := mr_polls x + 1\<rparr>) (fp_mrs s)\<rparr>))"

definition fake_delete_mr :: "string \<Rightarrow> ('a fake_db_scheme, unit) dbm" where
  "fake_delete_mr ref s = (if list_ex (\<lambda>m. mr_ref m = ref) (fp_mrs s)
     then (Inr (), s\<lparr>fp_mrs := update_rows (\<lambda>x. mr_ref x = ref) (\<lambda>x. x\<lparr>mr_deleted := True\<rparr>) (fp_mrs s)\<rparr>)
     else (Inl (ErrMsg ''unknown MR''), s))"

definition fake_mr_deleted :: "string \<Rightarrow> ('a fake_db_scheme, bool) dbm" where
  "fake_mr_deleted ref = asks (\<lambda>s. case select_row (\<lambda>m. mr_ref m = ref) (fp_mrs s) of None \<Rightarrow> True | Some m \<Rightarrow> mr_deleted m)"

section \<open>The baseline bundle\<close>

record agent_params =
  ap_image :: string
  ap_gateway :: string
  ap_version :: string
  ap_float :: bool
  ap_store :: string
  ap_store_kind :: string
  ap_secret :: string
  ap_key :: string

type_synonym git_file = "string \<times> string"

definition text_lines :: "string list \<Rightarrow> string" where
  "text_lines ls = concat (map (\<lambda>l. l @ [CHR 0x0A]) ls)"

fun join_with :: "string \<Rightarrow> string list \<Rightarrow> string" where
  "join_with sep [] = []"
| "join_with sep [x] = x"
| "join_with sep (x # xs) = x @ sep @ join_with sep xs"

text \<open>The labels are a map: their list has distinct keys and any order.\<close>

definition encode_labels :: "(string \<times> string) list \<Rightarrow> string" where
  "encode_labels ls = join_with '','' (sort_names (\<lambda>x. x) (map (\<lambda>(k, v). k @ ''='' @ v) ls))"

definition oidc_secret_path :: "string \<Rightarrow> string" where
  "oidc_secret_path i = ''inari/clusters/'' @ trim_prefix i ''cluster:'' @ ''/oidc-client-secret''"

definition agent_application_lines :: "cluster \<Rightarrow> string \<Rightarrow> agent_params \<Rightarrow> string list" where
  "agent_application_lines c token p =
    (let pinned = ap_version p \<noteq> [] \<and> \<not> ap_float p;
         revision = (if pinned then ap_version p else [CHR 0x22, CHR ''*'', CHR 0x22]);
         tag = (if pinned then ap_version p else ''latest'');
         labels = encode_labels (cl_labels c)
     in [''apiVersion: argoproj.io/v1alpha1'', ''kind: Application'', ''metadata:'', ''  name: inari-agent'',
         ''  namespace: argocd'', ''spec:'', ''  project: default'', ''  source:'',
         ''    repoURL: ghcr.io/7k-inari/charts'', ''    chart: inari-agent'', ''    targetRevision: '' @ revision,
         ''    helm:'', ''      values: |'', ''        image:'', ''          repository: '' @ ap_image p,
         ''          tag: '' @ tag, ''        config:'', ''          tenantID: '' @ cl_org c,
         ''          controlPlane: '' @ ap_gateway p, ''          registrationToken: '' @ token]
      @ (if labels = [] then [] else [''          clusterLabels: '' @ labels])
      @ (if ap_store p = [] then [] else
         [''        oidcSecret:'', ''          create: true'', ''          name: '' @ ap_secret p, ''          key: '' @ ap_key p,
          ''          secretStore: '' @ ap_store p, ''          secretStoreKind: '' @ ap_store_kind p,
          ''          remotePath: '' @ oidc_secret_path (cl_id c)])
      @ [''  destination:'', ''    server: https://kubernetes.default.svc'', ''    namespace: inari-system'',
         ''  syncPolicy:'', ''    automated:'', ''      prune: true'', ''      selfHeal: true'', ''    syncOptions:'',
         ''      - CreateNamespace=true''])"

definition root_app_lines :: "string \<Rightarrow> string list" where
  "root_app_lines url =
    [''apiVersion: argoproj.io/v1alpha1'', ''kind: Application'', ''metadata:'', ''  name: inari-root'',
     ''  namespace: argocd'', ''spec:'', ''  project: default'', ''  source:'', ''    repoURL: '' @ url,
     ''    targetRevision: HEAD'', ''    path: baseline'', ''  destination:'',
     ''    server: https://kubernetes.default.svc'', ''    namespace: inari-system'', ''  syncPolicy:'',
     ''    automated:'', ''      prune: true'', ''      selfHeal: true'']"

definition secret_store_lines :: "string \<Rightarrow> string list" where
  "secret_store_lines region =
    [''apiVersion: external-secrets.io/v1beta1'', ''kind: SecretStore'', ''metadata:'', ''  name: inari-tenant'',
     ''  namespace: inari-system'', ''spec:'', ''  provider:'', ''    aws:'', ''      service: SecretsManager'',
     ''      region: '' @ region]"

text \<open>The policy note is fixed text: \<open>policy_note\<close> holds its lines but for the section sign of the plan reference.\<close>

definition policy_note :: "string list" where
  "policy_note = [''# Inari baseline policy packs'',
     ''# Distributed fleet-wide by the Policy Service (plan '' @ [CHR 0xC2, CHR 0xA7] @ ''5.11):'',
     ''#   - baseline-security'', ''#   - cost-guardrails'']"

definition with_eso_defaults :: "agent_params \<Rightarrow> agent_params" where
  "with_eso_defaults p = (if ap_store p = [] then p else p\<lparr>
     ap_secret := (if ap_secret p = [] then ''inari-agent-oidc-client'' else ap_secret p),
     ap_key := (if ap_key p = [] then ''client-secret'' else ap_key p),
     ap_store_kind := (if ap_store_kind p = [] then ''ClusterSecretStore'' else ap_store_kind p)\<rparr>)"

definition render_baseline :: "cluster \<Rightarrow> tenant_zone \<Rightarrow> string \<Rightarrow> agent_params \<Rightarrow> string \<Rightarrow> err + git_file list" where
  "render_baseline c z token p url =
    (if ap_image p = [] then Inl (ErrMsg ''agent image repo required'')
     else if ap_gateway p = [] then Inl (ErrMsg ''agent gateway address required'')
     else Inr [(''baseline/inari-agent/application.yaml'', text_lines (agent_application_lines c token (with_eso_defaults p))),
        (''baseline/argocd/root-app.yaml'', text_lines (root_app_lines url)),
        (''baseline/eso/secretstore.yaml'', text_lines (secret_store_lines (zn_region z))),
        (''baseline/policy-packs/README.md'', text_lines policy_note)])"

section \<open>Wiring a zone\<close>

text \<open>
  The interfaces of wiring.go: a creator's teams, a token's record and a commit's result are not read.
  An absent optional module is \<open>None\<close>.
\<close>

record 's git_provider =
  gp_ensure :: "string \<Rightarrow> ('s, string) dbm"
  gp_commit :: "string \<Rightarrow> string \<Rightarrow> git_file list \<Rightarrow> string \<Rightarrow> ('s, unit) dbm"
  gp_delete :: "string \<Rightarrow> string \<Rightarrow> string list \<Rightarrow> string \<Rightarrow> ('s, unit) dbm"

record 's platform_resources =
  pr_ensure :: "organization \<Rightarrow> ('s, unit) dbm"
  pr_render :: "organization \<Rightarrow> string \<Rightarrow> ('s, git_file list) dbm"
  pr_paths :: "string \<Rightarrow> ('s, string list) dbm"

record 's module_wiring =
  mw_create_tenant :: "string \<Rightarrow> string \<Rightarrow> string \<Rightarrow> ('s, organization) dbm"
  mw_get_tenant :: "string \<Rightarrow> ('s, organization) dbm"
  mw_delete_org :: "string \<Rightarrow> ('s, unit) dbm"
  mw_create_cluster :: "string \<Rightarrow> string \<Rightarrow> string \<Rightarrow> (string \<times> string) list \<Rightarrow> ('s, cluster) dbm"
  mw_list_clusters :: "string \<Rightarrow> ('s, cluster list) dbm"
  mw_issue_token :: "string \<Rightarrow> string \<Rightarrow> ('s, string) dbm"
  mw_register :: "string \<Rightarrow> string \<Rightarrow> register_input \<Rightarrow> ('s, cloud_account) dbm"
  mw_accounts :: "string \<Rightarrow> ('s, cloud_account list) dbm"
  mw_deregister :: "string \<Rightarrow> string \<Rightarrow> string \<Rightarrow> ('s, unit) dbm"
  mw_git :: "'s git_provider option"
  mw_git_cfg :: "(string \<Rightarrow> string \<Rightarrow> string \<Rightarrow> ('s, unit) dbm) option"
  mw_baseline :: "((string \<Rightarrow> string \<Rightarrow> ('s, unit) dbm) \<times> (string \<Rightarrow> ('s, unit) dbm)) option"
  mw_platform :: "'s platform_resources option"
  mw_gitops_repo :: string
  mw_agent :: agent_params

definition wiring_actor :: string where "wiring_actor = ''system:tenantzonefactory''"

definition wire_org :: "'s module_wiring \<Rightarrow> tenant_zone \<Rightarrow> ('s, organization) dbm" where
  "wire_org w z = catchE (mw_create_tenant w wiring_actor (zn_slug z) (zn_display z))
     (\<lambda>e. if e = SlugTaken then mw_get_tenant w (zn_slug z) else throw e)"

definition with_git :: "'s module_wiring \<Rightarrow> ('s git_provider \<Rightarrow> ('s, 'x) dbm) \<Rightarrow> ('s, 'x) dbm" where
  "with_git w k = (case mw_git w of None \<Rightarrow> throw Panic | Some g \<Rightarrow> k g)"

definition wire_platform :: "'s module_wiring \<Rightarrow> organization \<Rightarrow> ('s, unit) dbm" where
  "wire_platform w org = (case mw_platform w of None \<Rightarrow> ret ()
     | Some pr \<Rightarrow> thenE (pr_ensure pr org)
         (if mw_gitops_repo w = [] then ret ()
          else with_git w (\<lambda>g. bindE (gp_ensure g (mw_gitops_repo w)) (\<lambda>url. bindE (pr_render pr org url) (\<lambda>files.
            gp_commit g (mw_gitops_repo w) ''main'' files (''feat: tenant platform resources for '' @ og_slug org))))))"

definition wire_account :: "'s module_wiring \<Rightarrow> tenant_zone \<Rightarrow> string \<Rightarrow> string \<Rightarrow> ('s, cloud_account) dbm" where
  "wire_account w z org arn = catchE
     (mw_register w wiring_actor org \<lparr>ri_provider = [], ri_account = zn_aws z, ri_role = arn, ri_external = [],
        ri_issuer = [], ri_context = ''tenant''\<rparr>)
     (\<lambda>e. if e = AccountRegistered then bindE (mw_accounts w org) (\<lambda>accts.
            case find (\<lambda>a. ca_account a = zn_aws z) accts of
              None \<Rightarrow> throw (ErrMsg ''registered record not found'') | Some a \<Rightarrow> ret a)
        else throw e)"

definition wire_cluster :: "'s module_wiring \<Rightarrow> tenant_zone \<Rightarrow> string \<Rightarrow> ('s, cluster) dbm" where
  "wire_cluster w z org = catchE
     (mw_create_cluster w wiring_actor org (zn_slug z @ ''-eks'')
        [(''env'', ''zone''), (''region'', zn_region z), (''tier'', zn_tier z), (''zone'', zn_slug z)])
     (\<lambda>e. if e = ClusterNameTaken then bindE (mw_list_clusters w org) (\<lambda>cs.
            case find (\<lambda>c. cl_name c = zn_slug z @ ''-eks'') cs of
              None \<Rightarrow> throw (ErrMsg ''not found after name-taken'') | Some c \<Rightarrow> ret c)
        else throw e)"

definition wire_repo :: "'s module_wiring \<Rightarrow> tenant_zone \<Rightarrow> string \<Rightarrow> cluster \<Rightarrow> string \<Rightarrow> ('s, unit) dbm" where
  "wire_repo w z org c token = (let repo = zn_slug z @ ''-inari-state'' in
     with_git w (\<lambda>g. bindE (gp_ensure g repo) (\<lambda>url. bindE (lift_sum (render_baseline c z token (mw_agent w) url)) (\<lambda>files.
       thenE (gp_commit g repo ''main'' files ''feat: tenant-zone baseline (inari-agent, argocd, eso, policy packs)'')
        (thenE (case mw_git_cfg w of None \<Rightarrow> ret () | Some set_cfg \<Rightarrow> set_cfg wiring_actor org repo)
          (case mw_baseline w of None \<Rightarrow> ret ()
           | Some (ensure, bind_cluster) \<Rightarrow> thenE (ensure org repo) (bind_cluster (cl_id c))))))))"

definition wire_zone :: "'s module_wiring \<Rightarrow> tenant_zone \<Rightarrow> string \<Rightarrow> ('s, wiring_result) dbm" where
  "wire_zone w z arn = bindE (wire_org w z) (\<lambda>org. thenE (wire_platform w org)
     (bindE (wire_account w z (og_id org) arn) (\<lambda>acct. bindE (wire_cluster w z (og_id org)) (\<lambda>c.
        bindE (mw_issue_token w wiring_actor (cl_id c)) (\<lambda>token. thenE (wire_repo w z (og_id org) c token)
          (ret \<lparr>wr_org = og_id org, wr_kc = og_kc org, wr_cluster = cl_id c, wr_cloud = ca_id acct,
             wr_git = zn_slug z @ ''-inari-state''\<rparr>))))))"

definition delete_tenant_manifests :: "'s module_wiring \<Rightarrow> string \<Rightarrow> ('s, unit) dbm" where
  "delete_tenant_manifests w slug = (case (mw_git w, mw_platform w) of
     (Some g, Some pr) \<Rightarrow> if mw_gitops_repo w = [] then ret ()
       else bindE (pr_paths pr slug) (\<lambda>paths.
         gp_delete g (mw_gitops_repo w) ''main'' paths (''chore: remove tenant platform resources for '' @ slug))
   | _ \<Rightarrow> ret ())"

definition unwire_zone :: "'s module_wiring \<Rightarrow> tenant_zone \<Rightarrow> ('s, unit) dbm" where
  "unwire_zone w z = thenE
     (if zn_cloud z \<noteq> [] \<and> zn_org z \<noteq> [] then mw_deregister w wiring_actor (zn_org z) (zn_cloud z) else ret ())
     (if zn_kc z \<noteq> [] then mw_delete_org w (zn_kc z) else ret ())"

section \<open>The environment\<close>

text \<open>The tenants and the accounts of the wiring are those of the server.\<close>

definition server_wiring ::
  "'a zone_db_scheme tenancy_svc \<Rightarrow> 'a zone_db_scheme module_wiring \<Rightarrow> 'a zone_db_scheme module_wiring" where
  "server_wiring svc w = w\<lparr>
     mw_create_tenant := (\<lambda>actor slug disp. bindE (create_tenant svc actor slug disp) (\<lambda>(org, ts). ret org)),
     mw_get_tenant := get_organization_by_slug, mw_delete_org := ip_delete_org (tv_idp svc),
     mw_register := register_account, mw_accounts := list_account_rows, mw_deregister := deregister_account\<rparr>"

definition server_env ::
  "zone_config \<Rightarrow> 'a fake_db_scheme module_wiring \<Rightarrow> (string \<Rightarrow> string \<Rightarrow> ('a fake_db_scheme, unit) dbm) \<Rightarrow>
   (string \<Rightarrow> string \<Rightarrow> bool \<Rightarrow> ('a fake_db_scheme, string list) dbm) \<Rightarrow> (err \<Rightarrow> string) \<Rightarrow> (denial \<Rightarrow> string) \<Rightarrow>
   'a fake_db_scheme zone_env" where
  "server_env cfg w cordon drain text reason = \<lparr>ze_count = fake_count_accounts, ze_create_account = fake_create_account,
     ze_move = fake_move_account, ze_describe = fake_describe, ze_close = fake_close_account, ze_role = fake_ensure_role,
     ze_apply = fake_apply_mr, ze_ready = fake_mr_status, ze_delete = fake_delete_mr, ze_deleted = fake_mr_deleted,
     ze_wire = wire_zone w, ze_unwire = unwire_zone w, ze_manifests = Some (delete_tenant_manifests w),
     ze_cordon = cordon, ze_decommission = drain,
     ze_mgmt = Some (\<lambda>org i. bindE (get_account org i) (\<lambda>a. ret (ca_context a))),
     ze_config = cfg, ze_text = text, ze_reason = reason\<rparr>"

end
