(* ===== verification/ZoneSafety.thy ===== *)
theory ZoneSafety
  imports ZoneBackends
begin

text \<open>
  What the zone factory promises: the steps of a zone are taken in their order and a finished step
  is never taken again, under every interleaving of requests, decisions, resumes and reconcile
  passes, with stale copies of the zone and any statements failing; a zone that a run makes active
  has all its steps behind it. The cloud backends are an interface (\<open>cloud_backend\<close>) that the
  in-memory backends satisfy.
\<close>

section \<open>The backends leave the zones alone\<close>

definition keeps_zones :: "('a zone_db_scheme, 'x) dbm \<Rightarrow> bool" where
  "keeps_zones m \<longleftrightarrow> (\<forall>s. tenant_zones (snd (m s)) = tenant_zones s \<and> zone_steps (snd (m s)) = zone_steps s)"

lemma keeps_zonesD:
  assumes "keeps_zones m" and "m s = (r, s')"
  shows "tenant_zones s' = tenant_zones s" and "zone_steps s' = zone_steps s"
proof -
  from assms(1) have "tenant_zones (snd (m s)) = tenant_zones s \<and> zone_steps (snd (m s)) = zone_steps s"
    unfolding keeps_zones_def by blast
  with assms(2) show "tenant_zones s' = tenant_zones s" and "zone_steps s' = zone_steps s" by simp_all
qed

text \<open>The other modules a zone's steps call: the wiring and the cluster registry.\<close>

definition wiring_apart :: "'a zone_db_scheme zone_env \<Rightarrow> bool" where
  "wiring_apart env \<longleftrightarrow> (\<forall>z arn. keeps_zones (ze_wire env z arn)) \<and> (\<forall>z. keeps_zones (ze_unwire env z))
     \<and> (\<forall>del slug. ze_manifests env = Some del \<longrightarrow> keeps_zones (del slug))
     \<and> (\<forall>a c. keeps_zones (ze_cordon env a c)) \<and> (\<forall>a c f. keeps_zones (ze_decommission env a c f))"

text \<open>
  A step's run: it changes neither the zone tables, nor the keys and the attempts of its record, nor
  the zone's identity and state.
\<close>

definition tame :: "'a zone_db_scheme step_run \<Rightarrow> tenant_zone \<Rightarrow> zone_step \<Rightarrow> bool" where
  "tame run z st \<longleftrightarrow> (\<forall>s z1 st1 res s1. run s = ((z1, st1, res), s1) \<longrightarrow>
     tenant_zones s1 = tenant_zones s \<and> zone_steps s1 = zone_steps s \<and> zn_id z1 = zn_id z \<and> zn_state z1 = zn_state z
     \<and> zs_zone st1 = zs_zone st \<and> zs_step st1 = zs_step st \<and> zs_attempts st1 = zs_attempts st)"

definition alike :: "tenant_zone \<Rightarrow> zone_step \<Rightarrow> tenant_zone \<Rightarrow> zone_step \<Rightarrow> bool" where
  "alike z st z' st' \<longleftrightarrow> zn_id z' = zn_id z \<and> zn_state z' = zn_state z
     \<and> zs_zone st' = zs_zone st \<and> zs_step st' = zs_step st \<and> zs_attempts st' = zs_attempts st"

lemma tame_calls:
  assumes "keeps_zones m" and "alike z st z' st'" and "\<And>x. tame (k x) z st"
  shows "tame (calls m z' st' k) z st"
  unfolding tame_def
proof (intro allI impI)
  fix s z1 st1 res s1 assume run: "calls m z' st' k s = ((z1, st1, res), s1)"
  obtain r s0 where m: "m s = (r, s0)" by fastforce
  note same = keeps_zonesD [OF assms(1) m]
  show "tenant_zones s1 = tenant_zones s \<and> zone_steps s1 = zone_steps s \<and> zn_id z1 = zn_id z \<and> zn_state z1 = zn_state z
     \<and> zs_zone st1 = zs_zone st \<and> zs_step st1 = zs_step st \<and> zs_attempts st1 = zs_attempts st"
  proof (cases r)
    case (Inl e)
    with run m same assms(2) show ?thesis by (auto simp: calls_def alike_def)
  next
    case (Inr x)
    with run m have "k x s0 = ((z1, st1, res), s1)" by (simp add: calls_def)
    with assms(3) [of x] show ?thesis unfolding tame_def same [symmetric] by blast
  qed
qed

lemma tame_finished: "alike z st z' st' \<Longrightarrow> tame (finished z' st' b) z st"
  by (auto simp: tame_def finished_def alike_def)

lemma tame_fails: "alike z st z' st' \<Longrightarrow> tame (fails z' st' e) z st"
  by (auto simp: tame_def fails_def alike_def)

lemma tame_skipped: "alike z st z' st' \<Longrightarrow> tame (skipped z' st') z st"
  unfolding skipped_def by (rule tame_finished) (simp add: alike_def)

lemma tame_if: "(c \<Longrightarrow> tame f z st) \<Longrightarrow> (\<not> c \<Longrightarrow> tame g z st) \<Longrightarrow> tame (if c then f else g) z st"
  by simp

lemmas tame_rules = tame_calls tame_finished tame_fails tame_skipped tame_if

locale cloud_backend =
  fixes env :: "'a zone_db_scheme zone_env"
  assumes count: "keeps_zones (ze_count env ou)"
    and create: "keeps_zones (ze_create_account env n e ou tags token)"
    and move: "keeps_zones (ze_move env acct ou)"
    and describe: "keeps_zones (ze_describe env ref)"
    and close: "keeps_zones (ze_close env acct)"
    and role: "keeps_zones (ze_role env acct iss r)"
    and apply_mr: "keeps_zones (ze_apply env acct reg tr)"
    and ready: "keeps_zones (ze_ready env ref)"
    and delete: "keeps_zones (ze_delete env ref)"
    and deleted: "keeps_zones (ze_deleted env ref)"
begin

lemma steps_tame:
  assumes apart: "wiring_apart env"
  shows "tame (zone_step_func env actor steps name z st) z st"
proof -
  have al: "alike z st z st" by (simp add: alike_def)
  have w: "keeps_zones (ze_wire env z' arn)" "keeps_zones (ze_unwire env z')" "keeps_zones (ze_cordon env a c)"
    "keeps_zones (ze_decommission env a c f)" for z' arn a c f
    using apart by (auto simp: wiring_apart_def)
  have m: "keeps_zones (del slug)" if "ze_manifests env = Some del" for del slug
    using apart that by (auto simp: wiring_apart_def)
  have "tame (step_preflight env z st) z st" "tame (step_account_vend env z st) z st"
    "tame (step_trust_bootstrap env z st) z st" "tame (step_eks_provision env z st) z st"
    "tame (step_inari_wiring env steps z st) z st" "tame (step_cordon env actor z st) z st"
    "tame (step_drain env actor z st) z st" "tame (step_eks_delete env steps z st) z st"
    "tame (step_account_close env z st) z st" "tame (step_identity_revoke env z st) z st"
    unfolding step_preflight_def step_account_vend_def step_trust_bootstrap_def step_eks_provision_def
      step_inari_wiring_def step_cordon_def step_drain_def step_eks_delete_def step_account_close_def
      step_identity_revoke_def Let_def
    by (intro tame_rules al count create move describe close role apply_mr ready delete deleted w; simp add: alike_def)+
  moreover have "tame (step_manifests_delete env z st) z st"
    unfolding step_manifests_delete_def
    by (cases "ze_manifests env") (auto intro!: tame_rules al m)
  ultimately show ?thesis
    unfolding zone_step_func_def by (intro tame_if tame_finished tame_fails al) auto
qed

end

text \<open>The in-memory backends satisfy the interface, whatever the other modules are.\<close>

interpretation fakes: cloud_backend "server_env cfg w cordon drain text reason" for cfg w cordon drain text reason
  by unfold_locales
    (auto simp: server_env_def keeps_zones_def fake_count_accounts_def fake_create_account_def fake_move_account_def
      fake_describe_def fake_close_account_def fake_ensure_role_def fake_apply_mr_def fake_mr_status_def fake_delete_mr_def
      fake_mr_deleted_def asks_def modify_def Let_def split: option.splits)

text \<open>The composed wiring leaves the zones alone when the modules it calls do.\<close>

lemma keeps_zones_base: "keeps_zones (ret x)" "keeps_zones (throw e)" "keeps_zones (lift_sum r)"
  by (simp_all add: keeps_zones_def ret_def throw_def lift_sum_def)

lemma keeps_zones_bindE: "keeps_zones m \<Longrightarrow> (\<And>x. keeps_zones (f x)) \<Longrightarrow> keeps_zones (bindE m f)"
  unfolding keeps_zones_def bindE_def by (auto split: prod.split sum.split) (metis snd_conv)+

lemma keeps_zones_catchE: "keeps_zones m \<Longrightarrow> (\<And>e. keeps_zones (h e)) \<Longrightarrow> keeps_zones (catchE m h)"
  unfolding keeps_zones_def catchE_def by (auto split: prod.split sum.split) (metis snd_conv)+

lemma keeps_zones_if: "(c \<Longrightarrow> keeps_zones m) \<Longrightarrow> (\<not> c \<Longrightarrow> keeps_zones n) \<Longrightarrow> keeps_zones (if c then m else n)"
  by simp

lemmas keeps_zones_rules = keeps_zones_base keeps_zones_bindE keeps_zones_catchE keeps_zones_if

definition modules_apart :: "'a zone_db_scheme module_wiring \<Rightarrow> bool" where
  "modules_apart w \<longleftrightarrow> (\<forall>a b c. keeps_zones (mw_create_tenant w a b c)) \<and> (\<forall>a. keeps_zones (mw_get_tenant w a))
     \<and> (\<forall>a. keeps_zones (mw_delete_org w a)) \<and> (\<forall>a b c d. keeps_zones (mw_create_cluster w a b c d))
     \<and> (\<forall>a. keeps_zones (mw_list_clusters w a)) \<and> (\<forall>a b. keeps_zones (mw_issue_token w a b))
     \<and> (\<forall>a b c. keeps_zones (mw_register w a b c)) \<and> (\<forall>a. keeps_zones (mw_accounts w a))
     \<and> (\<forall>a b c. keeps_zones (mw_deregister w a b c))
     \<and> (\<forall>g. mw_git w = Some g \<longrightarrow> (\<forall>a b c d. keeps_zones (gp_ensure g a) \<and> keeps_zones (gp_commit g a b c d))
          \<and> (\<forall>a b c d. keeps_zones (gp_delete g a b c d)))
     \<and> (\<forall>f a b c. mw_git_cfg w = Some f \<longrightarrow> keeps_zones (f a b c))
     \<and> (\<forall>f g a b. mw_baseline w = Some (f, g) \<longrightarrow> keeps_zones (f a b) \<and> keeps_zones (g a))
     \<and> (\<forall>p a b c. mw_platform w = Some p \<longrightarrow> keeps_zones (pr_ensure p a) \<and> keeps_zones (pr_render p a b) \<and> keeps_zones (pr_paths p c))"

lemma wire_zone_apart:
  assumes "modules_apart w"
  shows "keeps_zones (wire_zone w z arn)" "keeps_zones (unwire_zone w z)" "keeps_zones (delete_tenant_manifests w slug)"
proof -
  note m = assms [unfolded modules_apart_def]
  have git: "keeps_zones (with_git w k)" if "\<And>g. mw_git w = Some g \<Longrightarrow> keeps_zones (k g)" for k :: "'a zone_db_scheme git_provider \<Rightarrow> ('a zone_db_scheme, 'x) dbm"
    using that unfolding with_git_def by (cases "mw_git w") (auto intro: keeps_zones_base)
  have org: "keeps_zones (wire_org w z)" and acct: "keeps_zones (wire_account w z o' arn)" and cl: "keeps_zones (wire_cluster w z o')" for o'
    using m unfolding wire_org_def wire_account_def wire_cluster_def
    by (auto intro!: keeps_zones_rules split: option.split)
  have plat: "keeps_zones (wire_platform w g)" for g
    using m unfolding wire_platform_def thenE_def
    by (cases "mw_platform w") (auto intro!: keeps_zones_rules git)
  have repo: "keeps_zones (wire_repo w z o' c t)" for o' c t
    using m unfolding wire_repo_def thenE_def Let_def
    by (cases "mw_git_cfg w"; cases "mw_baseline w") (auto intro!: keeps_zones_rules git)
  show "keeps_zones (wire_zone w z arn)"
    unfolding wire_zone_def thenE_def using m by (intro keeps_zones_rules org plat acct cl repo) auto
  show "keeps_zones (unwire_zone w z)" "keeps_zones (delete_tenant_manifests w slug)"
    using m unfolding unwire_zone_def delete_tenant_manifests_def thenE_def
    by (auto intro!: keeps_zones_rules split: option.split)
qed

lemma server_env_apart:
  assumes "modules_apart w" and "\<And>a c. keeps_zones (cordon a c)" and "\<And>a c f. keeps_zones (drain a c f)"
  shows "wiring_apart (server_env cfg w cordon drain text reason)"
  using assms wire_zone_apart [OF assms(1)] by (simp add: wiring_apart_def server_env_def)

section \<open>The order of the steps\<close>

definition zone_of :: "'a zone_db_scheme \<Rightarrow> string \<Rightarrow> tenant_zone option" where
  "zone_of s i = select_row (\<lambda>z. zn_id z = i) (tenant_zones s)"

definition step_of :: "'a zone_db_scheme \<Rightarrow> string \<Rightarrow> string \<Rightarrow> zone_step option" where
  "step_of s i n = select_row (\<lambda>x. zs_zone x = i \<and> zs_step x = n) (zone_steps s)"

definition over_in :: "'a zone_db_scheme \<Rightarrow> string \<Rightarrow> string \<Rightarrow> bool" where
  "over_in s i n \<longleftrightarrow> (case step_of s i n of None \<Rightarrow> False | Some st \<Rightarrow> step_over st)"

definition zone_orders :: "string list list" where
  "zone_orders = [provision_order, decommission_order]"

definition in_order :: "'a zone_db_scheme \<Rightarrow> bool" where
  "in_order s \<longleftrightarrow> (\<forall>i pre n post. pre @ n # post \<in> set zone_orders \<longrightarrow> step_of s i n \<noteq> None \<longrightarrow> (\<forall>m \<in> set pre. over_in s i m))"

definition sealed :: "'a zone_db_scheme \<Rightarrow> 'a zone_db_scheme \<Rightarrow> bool" where
  "sealed s s' \<longleftrightarrow> (\<forall>i n st. step_of s i n = Some st \<longrightarrow> step_over st \<longrightarrow> step_of s' i n = Some st)"

definition steps_ok :: "'a zone_db_scheme \<Rightarrow> 'a zone_db_scheme \<Rightarrow> bool" where
  "steps_ok s0 s \<longleftrightarrow> in_order s \<and> sealed s0 s"

lemma sealed_refl [simp]: "sealed s s"
  by (simp add: sealed_def)

lemma sealed_trans: "sealed s s1 \<Longrightarrow> sealed s1 s2 \<Longrightarrow> sealed s s2"
  by (auto simp: sealed_def)

lemma steps_ok_same: "zone_steps s' = zone_steps s \<Longrightarrow> steps_ok s0 s \<Longrightarrow> steps_ok s0 s'"
  by (simp add: steps_ok_def in_order_def sealed_def step_of_def over_in_def)

lemma log_stable_steps: "log_stable (steps_ok s0)"
  unfolding log_stable_def by (auto elim: steps_ok_same [rotated])

lemmas steps_stable = log_stable_tx_stable [OF log_stable_steps]

lemma same_tables_zones: "same_tables s s' \<Longrightarrow> tenant_zones s' = tenant_zones s \<and> zone_steps s' = zone_steps s"
  by (auto elim!: same_tablesE)

lemma step_of_key: "step_of s i n = Some st \<Longrightarrow> zs_zone st = i \<and> zs_step st = n"
  by (auto simp: step_of_def dest!: select_row_SomeD)

lemma orders_distinct: "pre @ n # post \<in> set zone_orders \<Longrightarrow> n \<notin> set pre \<and> n \<notin> set post"
proof -
  assume "pre @ n # post \<in> set zone_orders"
  moreover have "list_all distinct zone_orders" by code_simp
  ultimately have "distinct (pre @ n # post)" unfolding list_all_iff by blast
  then show ?thesis by simp
qed

text \<open>A name stands in one order, at one place.\<close>

lemma order_unique:
  assumes "pre @ n # post \<in> set zone_orders" and "pre' @ n # post' \<in> set zone_orders"
  shows "pre = pre'"
proof -
  have "list_all (\<lambda>a. list_all (\<lambda>b. a = b \<or> list_all (\<lambda>x. x \<notin> set b) a) zone_orders) zone_orders" by code_simp
  then have "a = b \<or> set a \<inter> set b = {}" if "a \<in> set zone_orders" "b \<in> set zone_orders" for a b
    using that unfolding list_all_iff by blast
  from this [OF assms] have eq: "pre @ n # post = pre' @ n # post'" by auto
  from assms(1) have "n \<notin> set pre" "n \<notin> set post" using orders_distinct by blast+
  from append_Cons_eq_iff [OF this] eq show ?thesis by blast
qed

text \<open>A step is stored: the steps before it are over, and it is not over itself.\<close>

lemma steps_ok_store:
  assumes ok: "steps_ok s0 s" and at: "pre @ n # post \<in> set zone_orders"
    and before: "\<forall>m \<in> set pre. over_in s i m" and open_step: "\<not> over_in s i n"
    and store: "\<And>i' n'. step_of s' i' n' = (if i' = i \<and> n' = n then Some row else step_of s i' n')"
  shows "steps_ok s0 s'" and "over_in s' i' n' \<longleftrightarrow> (if i' = i \<and> n' = n then step_over row else over_in s i' n')"
proof -
  have over: "over_in s' i' n' \<longleftrightarrow> (if i' = i \<and> n' = n then step_over row else over_in s i' n')" for i' n'
    by (simp add: over_in_def store)
  then show "over_in s' i' n' \<longleftrightarrow> (if i' = i \<and> n' = n then step_over row else over_in s i' n')" .
  have "in_order s'" unfolding in_order_def
  proof (intro allI impI ballI)
    fix j p m q x assume mo: "p @ m # q \<in> set zone_orders" and row: "step_of s' j m \<noteq> None" and x: "x \<in> set p"
    show "over_in s' j x"
    proof (cases "j = i \<and> m = n")
      case True
      with mo at have "p = pre" by (auto intro: order_unique)
      with x before True at show ?thesis using orders_distinct [OF at] by (auto simp: over)
    next
      case False
      with row have "step_of s j m \<noteq> None" unfolding store by (auto split: if_splits)
      with ok mo x have "over_in s j x" unfolding steps_ok_def in_order_def by blast
      then show ?thesis using open_step by (auto simp: over)
    qed
  qed
  moreover have "sealed s s'" unfolding sealed_def
  proof (intro allI impI)
    fix j m st assume "step_of s j m = Some st" "step_over st"
    with open_step show "step_of s' j m = Some st" by (auto simp: store over_in_def)
  qed
  ultimately show "steps_ok s0 s'" using ok by (auto simp: steps_ok_def intro: sealed_trans)
qed

section \<open>A run\<close>

lemma upsert_step_okE:
  assumes "upsert_step_row st s = (Inr u, s')"
  obtains "\<And>i n. step_of s' i n = (if i = zs_zone st \<and> n = zs_step st then Some (stored_step st) else step_of s i n)"
    and "tenant_zones s' = tenant_zones s"
proof -
  let ?P = "\<lambda>x. zs_zone x = zs_zone st \<and> zs_step x = zs_step st"
  have k: "zs_zone (stored_step st) = zs_zone st" "zs_step (stored_step st) = zs_step st" by (simp_all add: stored_step_def)
  show ?thesis
  proof (cases "list_ex ?P (zone_steps s)")
    case True
    with assms obtain fs where s': "s' = s\<lparr>faults := fs, zone_steps := update_rows ?P (\<lambda>_. stored_step st) (zone_steps s)\<rparr>"
      unfolding upsert_step_row_def by (elim sql_okE) (auto simp: Let_def split: if_splits)
    have "select_row (\<lambda>x. zs_zone x = i \<and> zs_step x = n) (update_rows ?P (\<lambda>_. stored_step st) xs)
        = (if i = zs_zone st \<and> n = zs_step st \<and> list_ex ?P xs then Some (stored_step st) else select_row (\<lambda>x. zs_zone x = i \<and> zs_step x = n) xs)" for i n xs
      by (induction xs) (auto simp: select_row_def k)
    with True show ?thesis by (intro that) (auto simp: step_of_def s')
  next
    case False
    with assms obtain fs where s': "s' = s\<lparr>faults := fs, zone_steps := zone_steps s @ [stored_step st]\<rparr>"
      unfolding upsert_step_row_def by (elim sql_okE) (auto simp: Let_def split: if_splits)
    have "select_row (\<lambda>x. zs_zone x = i \<and> zs_step x = n) (xs @ [stored_step st])
        = (if i = zs_zone st \<and> n = zs_step st \<and> \<not> list_ex ?P xs then Some (stored_step st) else select_row (\<lambda>x. zs_zone x = i \<and> zs_step x = n) xs)" for i n xs
      by (induction xs) (auto simp: select_row_def k)
    with False show ?thesis by (intro that) (auto simp: step_of_def s')
  qed
qed

text \<open>An update of a zone's row stores the copy's mutable fields.\<close>

definition holds_copy :: "tenant_zone \<Rightarrow> 'a zone_db_scheme \<Rightarrow> bool" where
  "holds_copy z s \<longleftrightarrow> (\<exists>r. zone_of s (zn_id z) = Some r \<and> zn_state r = zn_state z \<and> zn_aws r = zn_aws z)"

lemma holds_copy_same: "tenant_zones s' = tenant_zones s \<Longrightarrow> holds_copy z s' = holds_copy z s"
  by (simp add: holds_copy_def zone_of_def)

lemma update_zone_okE:
  assumes "update_zone_row z s = (Inr u, s')"
  obtains "zone_steps s' = zone_steps s" and "holds_copy z s'"
proof -
  let ?f = "\<lambda>t x. x\<lparr>zn_org := zn_org z, zn_state := zn_state z, zn_aws := zn_aws z, zn_cluster := zn_cluster z,
     zn_cloud := zn_cloud z, zn_kc := zn_kc z, zn_git := zn_git z, zn_error := zn_error z, zn_updated := t\<rparr>"
  from assms obtain fs where ex: "list_ex (\<lambda>x. zn_id x = zn_id z) (tenant_zones s)"
    and s': "s' = s\<lparr>faults := fs, tenant_zones := update_rows (\<lambda>x. zn_id x = zn_id z) (?f (clock s)) (tenant_zones s)\<rparr>"
    unfolding update_zone_row_def by (auto elim!: sql_okE split: if_splits)
  have "zone_of s' (zn_id z) = map_option (\<lambda>r. if zn_id r = zn_id z then ?f (clock s) r else r) (zone_of s (zn_id z))"
    unfolding zone_of_def s' by (simp add: select_row_update_key)
  moreover from ex obtain r where "zone_of s (zn_id z) = Some r" "zn_id r = zn_id z"
    by (cases "zone_of s (zn_id z)") (auto simp: zone_of_def select_row_None_iff list_ex_iff dest: select_row_SomeD)
  ultimately have "holds_copy z s'" by (simp add: holds_copy_def)
  with s' show ?thesis by (intro that) simp_all
qed

lemma emit_zones:
  assumes "emit ev org typ p s = (Inr u, s')"
  shows "tenant_zones s' = tenant_zones s \<and> zone_steps s' = zone_steps s"
  using preservesD [OF preserves_emit [where I = "\<lambda>x. tenant_zones x = tenant_zones s \<and> zone_steps x = zone_steps s"] _ assms]
  by (simp add: log_stable_def)

lemma update_step_cases:
  assumes run: "update_step_tx actor z st s = (r, s')"
  obtains e where "r = Inl e" "tenant_zones s' = tenant_zones s" "zone_steps s' = zone_steps s"
  | "r = Inr ()" "\<And>i n. step_of s' i n = (if i = zs_zone st \<and> n = zs_step st then Some (stored_step st) else step_of s i n)"
    "holds_copy z s'"
proof (cases r)
  case (Inl e)
  with run have "same_tables s s'" unfolding update_step_tx_def by (auto dest: with_tx_abort)
  with Inl show ?thesis by (auto dest: same_tables_zones intro: that(1))
next
  case (Inr u)
  from run [unfolded Inr update_step_tx_def] obtain fs fs' s1 s2 s3 v w where
    1: "upsert_step_row st (s\<lparr>faults := fs\<rparr>) = (Inr v, s1)" and 2: "update_zone_row z s1 = (Inr w, s2)"
    and 3: "emit (audit_ev (zn_owner z) actor ''tenant_zone.step_updated'' ''tenant_zone'' (zn_id z)
        (JObj [(''step'', JStr (zs_step st)), (''status'', JStr (zone_step_status_str (zs_status st))),
           (''attempts'', JNum (real (zs_attempts st)))])) (zn_owner z) ''tenant_zone.step_updated''
      (zone_payload z [] (zn_state z) (zs_step st) (zone_step_status_str (zs_status st))) s2 = (Inr u, s3)"
    and s': "s' = s3\<lparr>faults := fs'\<rparr>"
    by (elim with_tx_okE thenE_okE) (rule that, assumption+)
  from 1 have a: "step_of s1 i n = (if i = zs_zone st \<and> n = zs_step st then Some (stored_step st) else step_of s i n)" for i n
    by (rule upsert_step_okE) (simp add: step_of_def)
  from 2 have b: "zone_steps s2 = zone_steps s1 \<and> holds_copy z s2" by (rule update_zone_okE) blast
  from emit_zones [OF 3] have c: "tenant_zones s' = tenant_zones s2" "zone_steps s' = zone_steps s2" by (simp_all add: s')
  have d: "step_of s' i n = step_of s1 i n" for i n using b c by (simp add: step_of_def)
  have "r = Inr ()" by (simp add: Inr)
  moreover have "holds_copy z s'" using b holds_copy_same [OF c(1)] by simp
  ultimately show ?thesis using a d that(2) by presburger
qed

text \<open>The runner's copy of the step records agrees with the table but for details and references.\<close>

definition agrees :: "(string \<Rightarrow> zone_step option) \<Rightarrow> 'a zone_db_scheme \<Rightarrow> string \<Rightarrow> bool" where
  "agrees steps s i \<longleftrightarrow> (\<forall>n. map_option zs_status (steps n) = map_option zs_status (step_of s i n)
     \<and> (\<forall>st. steps n = Some st \<longrightarrow> zs_zone st = i \<and> zs_step st = n))"

lemma agrees_over: "agrees steps s i \<Longrightarrow> over_in s i n \<longleftrightarrow> (\<exists>st. steps n = Some st \<and> step_over st)"
  unfolding agrees_def over_in_def step_over_def
  by (drule spec [of _ n]) (cases "steps n"; cases "step_of s i n"; simp)

lemma stored_step_keys [simp]: "zs_status (stored_step st) = zs_status st" "step_over (stored_step st) = step_over st"
  by (simp_all add: stored_step_def step_over_def)

lemma agrees_stored:
  assumes "agrees steps s i" and "zs_zone st = i" and "zs_step st = n"
    and "\<And>i' n'. step_of s' i' n' = (if i' = i \<and> n' = n then Some (stored_step st) else step_of s i' n')"
  shows "agrees (steps(n \<mapsto> st)) s' i"
  using assms by (auto simp: agrees_def)

definition state_path :: "zone_state \<Rightarrow> zone_state set" where
  "state_path st = {st, ZoneManualIntervention, ZoneWiring, ZoneCordoning, ZoneDraining}"

lemma stepped_zone_keys: "zn_id (stepped_zone env z st) = zn_id z" "zn_aws (stepped_zone env z st) = zn_aws z"
  "zn_state (stepped_zone env z st) \<in> state_path (zn_state z)"
  by (auto simp: stepped_zone_def step_zone_state_def state_path_def split: option.splits if_splits)

lemma settled_step_keys: "zs_zone (settled_step st res) = zs_zone st" "zs_step (settled_step st res) = zs_step st"
  "step_over (settled_step st res) \<longleftrightarrow> res = Inr True"
  by (auto simp: settled_step_def step_over_def split: sum.splits)

text \<open>One step of the loop, taken apart.\<close>

lemma zone_loop_step:
  assumes loop: "zone_loop env actor (name # names) steps z s = ((z', res), s')"
  obtains (over) st where "steps name = Some st" "step_over st" "zone_loop env actor names steps z s = ((z', res), s')"
  | (taken) st z1 st1 r s1 r2 s2 where "st = (case steps name of None \<Rightarrow> new_step (zn_id z) name | Some st \<Rightarrow> st)" "\<not> step_over st"
    "zone_step_func env actor (steps(name \<mapsto> st\<lparr>zs_status := StepRunning\<rparr>)) name z (st\<lparr>zs_status := StepRunning\<rparr>) s = ((z1, st1, r), s1)"
    "update_step_tx actor (stepped_zone env z1 (settled_step st1 r)) (settled_step st1 r) s1 = (r2, s2)"
    "if r2 = Inr () \<and> r = Inr True
     then zone_loop env actor names (steps(name \<mapsto> settled_step st1 r)) (stepped_zone env z1 (settled_step st1 r)) s2 = ((z', res), s')
     else z' = stepped_zone env z1 (settled_step st1 r) \<and> s' = s2 \<and> res = (case r2 of Inl e \<Rightarrow> Inl e | Inr _ \<Rightarrow> r)"
proof -
  define st where "st = (case steps name of None \<Rightarrow> new_step (zn_id z) name | Some st \<Rightarrow> st)"
  show ?thesis
  proof (cases "step_over st")
    case True
    then have "steps name = Some st" by (cases "steps name") (auto simp: st_def new_step_def step_over_def)
    moreover have "zone_loop env actor names steps z s = ((z', res), s')" using loop True by (simp add: Let_def st_def [symmetric])
    ultimately show ?thesis using True over by blast
  next
    case False
    obtain z1 st1 r s1 where step: "zone_step_func env actor (steps(name \<mapsto> st\<lparr>zs_status := StepRunning\<rparr>)) name z
        (st\<lparr>zs_status := StepRunning\<rparr>) s = ((z1, st1, r), s1)" by (metis prod.exhaust)
    obtain r2 s2 where upd: "update_step_tx actor (stepped_zone env z1 (settled_step st1 r)) (settled_step st1 r) s1 = (r2, s2)"
      by fastforce
    have "if r2 = Inr () \<and> r = Inr True
     then zone_loop env actor names (steps(name \<mapsto> settled_step st1 r)) (stepped_zone env z1 (settled_step st1 r)) s2 = ((z', res), s')
     else z' = stepped_zone env z1 (settled_step st1 r) \<and> s' = s2 \<and> res = (case r2 of Inl e \<Rightarrow> Inl e | Inr _ \<Rightarrow> r)"
      using loop False step upd by (cases r2; cases r) (auto simp: Let_def st_def [symmetric] split: if_splits)
    with False step upd taken [OF st_def] show ?thesis by blast
  qed
qed

context cloud_backend
begin

lemma loop_ok:
  assumes apart: "wiring_apart env"
    and "zone_loop env actor names steps z s = ((z', res), s')"
    and "pre @ names \<in> set zone_orders" and "agrees steps s (zn_id z)"
    and "\<forall>m \<in> set pre. over_in s (zn_id z) m" and "steps_ok s0 s"
  shows "steps_ok s0 s' \<and> zn_id z' = zn_id z \<and> (res = Inr True \<longrightarrow> (\<forall>m \<in> set (pre @ names). over_in s' (zn_id z) m))
    \<and> (res = Inr False \<longrightarrow> holds_copy z' s') \<and> zn_state z' \<in> state_path (zn_state z)"
  using assms(2-)
proof (induction names arbitrary: pre steps z s)
  case Nil
  then show ?case by (auto simp: state_path_def)
next
  case (Cons name names)
  let ?i = "zn_id z"
  have at: "pre @ name # names \<in> set zone_orders" by (rule Cons.prems(2))
  from Cons.prems(1) show ?case
  proof (cases rule: zone_loop_step)
    case (over st)
    then have "over_in s ?i name" using agrees_over [OF Cons.prems(3)] by blast
    with Cons.prems(4) have before: "\<forall>m \<in> set (pre @ [name]). over_in s ?i m" by simp
    have at': "(pre @ [name]) @ names \<in> set zone_orders" using at by simp
    from Cons.IH [OF over(3) at' Cons.prems(3) before Cons.prems(5)] show ?thesis by simp
  next
    case (taken st z1 st1 r s1 r2 s2)
    let ?st2 = "settled_step st1 r" and ?z2 = "stepped_zone env z1 (settled_step st1 r)"
    have key: "zs_zone st = ?i" "zs_step st = name"
      using taken(1) Cons.prems(3) by (auto simp: agrees_def new_step_def split: option.splits)
    from steps_tame [OF apart] taken(3) key have tame: "tenant_zones s1 = tenant_zones s" "zone_steps s1 = zone_steps s"
      "zn_id z1 = ?i" "zn_state z1 = zn_state z" "zs_zone st1 = ?i" "zs_step st1 = name"
      unfolding tame_def by fastforce+
    have id2: "zn_id ?z2 = ?i" "zn_state ?z2 \<in> state_path (zn_state z)"
      using stepped_zone_keys(1) [of env z1] stepped_zone_keys(3) [of env z1] unfolding tame(3,4) by blast+
    have open_step: "\<not> over_in s ?i name"
      using taken(1,2) by (auto simp: agrees_over [OF Cons.prems(3)])
    have same1: "step_of s1 = step_of s" by (simp add: step_of_def tame(2) fun_eq_iff)
    from taken(4) show ?thesis
    proof (cases rule: update_step_cases)
      case (1 e)
      have "zone_steps s2 = zone_steps s" using 1 tame by simp
      then have "steps_ok s0 s2" using Cons.prems(5) by (rule steps_ok_same)
      with 1 taken(5) id2 show ?thesis by auto
    next
      case 2
      have store: "step_of s2 i' n' = (if i' = ?i \<and> n' = name then Some (stored_step ?st2) else step_of s i' n')" for i' n'
        unfolding 2(2) settled_step_keys tame same1 by simp
      note ok2 = steps_ok_store [OF Cons.prems(5) at Cons.prems(4) open_step store]
      show ?thesis
      proof (cases "r = Inr True")
        case True
        with 2(1) taken(5) have rest: "zone_loop env actor names (steps(name \<mapsto> ?st2)) ?z2 s2 = ((z', res), s')" by simp
        have at': "(pre @ [name]) @ names \<in> set zone_orders" using at by simp
        have ag: "agrees (steps(name \<mapsto> ?st2)) s2 (zn_id ?z2)"
          unfolding id2 by (rule agrees_stored [OF Cons.prems(3) _ _ store]) (simp_all add: settled_step_keys tame)
        have before: "\<forall>m \<in> set (pre @ [name]). over_in s2 (zn_id ?z2) m"
          using Cons.prems(4) unfolding id2 ok2(2) by (simp add: settled_step_keys True)
        from Cons.IH [OF rest at' ag before ok2(1)] id2 show ?thesis
          by (auto simp: state_path_def)
      next
        case False
        with 2(1) taken(5) have "z' = ?z2" "s' = s2" "res = r" by auto
        with ok2(1) id2 2(3) False show ?thesis by auto
      qed
    qed
  qed
qed

end

section \<open>The operations\<close>

lemma settle_zone_run:
  assumes run: "settle_zone z st event actor cause s = (r, s')"
  shows "zone_steps s' = zone_steps s" and "r = Inr () \<Longrightarrow> holds_copy (z\<lparr>zn_state := st\<rparr>) s'"
proof -
  have "zone_steps s' = zone_steps s \<and> (r = Inr () \<longrightarrow> holds_copy (z\<lparr>zn_state := st\<rparr>) s')"
  proof (cases r)
    case (Inl e)
    with run show ?thesis unfolding settle_zone_def Let_def by (auto dest!: with_tx_abort same_tables_zones)
  next
    case (Inr u)
    from run [unfolded Inr settle_zone_def Let_def] obtain fs fs' s2 s3 v event' org' typ' p' where
      1: "update_zone_row (z\<lparr>zn_state := st\<rparr>) (s\<lparr>faults := fs\<rparr>) = (Inr v, s2)"
      and 2: "emit event' org' typ' p' s2 = (Inr u, s3)" and s': "s' = s3\<lparr>faults := fs'\<rparr>"
      by (elim with_tx_okE thenE_okE) (rule that, assumption+)
    from 1 have "zone_steps s2 = zone_steps s \<and> holds_copy (z\<lparr>zn_state := st\<rparr>) s2" by (rule update_zone_okE) simp
    moreover from emit_zones [OF 2] have "tenant_zones s' = tenant_zones s2" "zone_steps s' = zone_steps s2" by (simp_all add: s')
    ultimately show ?thesis using holds_copy_same [of s' s2] by simp
  qed
  then show "zone_steps s' = zone_steps s" and "r = Inr () \<Longrightarrow> holds_copy (z\<lparr>zn_state := st\<rparr>) s'" by auto
qed

text \<open>Operations that write no step record.\<close>

definition keeps_steps :: "('a zone_db_scheme, 'x) dbm \<Rightarrow> bool" where
  "keeps_steps m \<longleftrightarrow> (\<forall>T. preserves (\<lambda>s. zone_steps s = T) m)"

lemma log_stable_steps_eq: "log_stable (\<lambda>s. zone_steps s = T)"
  by (simp add: log_stable_def)

lemma keeps_stepsI: "(\<And>T. preserves (\<lambda>s. zone_steps s = T) m) \<Longrightarrow> keeps_steps m"
  by (simp add: keeps_steps_def)

lemma keeps_stepsD: "keeps_steps m \<Longrightarrow> m s = (r, s') \<Longrightarrow> zone_steps s' = zone_steps s"
  by (drule keeps_steps_def [THEN iffD1, THEN spec, of _ "zone_steps s"], erule preservesD) simp_all

lemma keeps_zones_steps: "keeps_zones m \<Longrightarrow> keeps_steps m"
  by (rule keeps_stepsI, rule preservesI) (simp add: keeps_zonesD(2))

lemma steps_ok_keeps: "keeps_steps m \<Longrightarrow> preserves (steps_ok s0) m"
  by (rule preservesI) (metis keeps_stepsD steps_ok_same)

lemma keeps_steps_rows:
  "keeps_steps (get_zone_row i)" "keeps_steps (list_zone_steps i)" "keeps_steps list_resumable" "keeps_steps (update_zone_row z)"
  "keeps_steps (create_zone_row z)"
  unfolding get_zone_row_def list_zone_steps_def list_resumable_def update_zone_row_def create_zone_row_def Let_def
  by (rule keeps_stepsI, rule preserves_sql_body [OF log_stable_steps_eq], auto simp: asks_def split: option.splits if_splits)+

lemma keeps_steps_mono:
  "keeps_steps m \<Longrightarrow> (\<And>x. keeps_steps (f x)) \<Longrightarrow> keeps_steps (bindE m f)"
  "keeps_steps m \<Longrightarrow> keeps_steps n \<Longrightarrow> keeps_steps (thenE m n)"
  "keeps_steps m \<Longrightarrow> (\<And>e. keeps_steps (h e)) \<Longrightarrow> keeps_steps (catchE m h)"
  "keeps_steps m \<Longrightarrow> keeps_steps (with_tx m)"
  unfolding keeps_steps_def
  by (auto intro: preserves_bindE preserves_thenE preserves_catchE preserves_with_tx log_stable_tx_stable log_stable_steps_eq)

lemma keeps_steps_base:
  "keeps_steps (ret x)" "keeps_steps (throw e)" "keeps_steps (lift_sum r)" "keeps_steps new_uuid" "keeps_steps (emit ev org typ p)"
  "keeps_steps (append_outbox org typ p)"
  by (rule keeps_stepsI, intro preserves_rules log_stable_steps_eq log_stable_tx_stable)+

lemma keeps_steps_if: "(c \<Longrightarrow> keeps_steps m) \<Longrightarrow> (\<not> c \<Longrightarrow> keeps_steps n) \<Longrightarrow> keeps_steps (if c then m else n)"
  by simp

lemmas keeps_steps_rules = keeps_steps_rows keeps_steps_mono keeps_steps_base keeps_steps_if

lemma keeps_steps_settle: "keeps_steps (settle_zone z st event actor cause)"
  unfolding settle_zone_def Let_def by (intro keeps_steps_rules)

lemma keeps_steps_set_state: "keeps_steps (set_zone_state z st)"
  unfolding set_zone_state_def Let_def by (intro keeps_steps_rules)

lemma keeps_steps_finish: "keeps_steps (zone_finish env actor order z res)"
  unfolding zone_finish_def Let_def
  by (cases res) (simp_all, (intro conjI impI keeps_steps_settle keeps_steps_base)+)

lemma keeps_steps_has: "keeps_steps (has_decommission_steps i)"
  unfolding has_decommission_steps_def by (intro keeps_steps_rules)

lemma keeps_steps_read_only: "read_only m \<Longrightarrow> keeps_steps m"
  by (rule keeps_stepsI) (rule read_only_preserves [OF log_stable_tx_stable [OF log_stable_steps_eq]])

lemma keeps_steps_get_request: "keeps_steps (get_request org i)"
  unfolding get_request_def by (intro keeps_steps_rules keeps_steps_read_only [OF get_approval_read_only])

lemmas keeps_steps_ops = keeps_steps_settle keeps_steps_set_state keeps_steps_has keeps_steps_get_request

lemma agrees_listed: "agrees (\<lambda>n. step_of s i n) s i"
  by (auto simp: agrees_def dest: step_of_key)

text \<open>A run, with what it leaves behind when it returns without an error.\<close>

lemma zone_run_cases:
  assumes run: "zone_run env z actor order s = (r, s')"
  obtains (unread) e where "r = Inl e" "zone_steps s' = zone_steps s"
  | (ran) fs z1 res s1 where "zone_loop env actor order (\<lambda>n. step_of s (zn_id z) n) z (s\<lparr>faults := fs\<rparr>) = ((z1, res), s1)"
    "zone_finish env actor order z1 res s1 = (r, s')"
proof -
  obtain q s0 where q: "list_zone_steps (zn_id z) s = (q, s0)" by fastforce
  from q [unfolded list_zone_steps_def] show ?thesis
  proof (cases rule: sql_runE)
    case (1 fs)
    with run q have "r = Inl ErrDB" "zone_steps s' = zone_steps s" by (auto simp: zone_run_def bindE_def)
    then show ?thesis by (rule unread)
  next
    case (2 fs)
    then have "q = Inr (\<lambda>n. step_of s (zn_id z) n)" and s0: "s0 = s\<lparr>faults := fs\<rparr>"
      by (auto simp: asks_def step_of_def fun_eq_iff)
    with run q have "(case zone_loop env actor order (\<lambda>n. step_of s (zn_id z) n) z s0 of
        ((z', res), s') \<Rightarrow> zone_finish env actor order z' res s') = (r, s')" by (simp add: zone_run_def bindE_def)
    moreover obtain z1 res s1 where l: "zone_loop env actor order (\<lambda>n. step_of s (zn_id z) n) z s0 = ((z1, res), s1)"
      by (metis prod.exhaust)
    ultimately show ?thesis using ran s0 by simp
  qed
qed

context cloud_backend
begin

lemma run_ok:
  assumes apart: "wiring_apart env" and ord: "order \<in> set zone_orders" and ok: "steps_ok s0 s"
    and run: "zone_run env z actor order s = (r, s')"
  shows "steps_ok s0 s'"
  using run
proof (cases rule: zone_run_cases)
  case (unread e)
  then show ?thesis using ok by (blast intro: steps_ok_same)
next
  case (ran fs z1 res s1)
  let ?t = "s\<lparr>faults := fs\<rparr>"
  have ok': "steps_ok s0 ?t" using ok by (rule steps_ok_same [rotated]) simp
  have ag: "agrees (\<lambda>n. step_of s (zn_id z) n) ?t (zn_id z)"
    using agrees_listed [of ?t "zn_id z"] by (simp add: step_of_def)
  from loop_ok [OF apart ran(1) _ ag _ ok', of "[]"] ord have "steps_ok s0 s1" by simp
  then show ?thesis using keeps_stepsD [OF keeps_steps_finish ran(2)] by (blast intro: steps_ok_same)
qed

lemma run_preserves: "wiring_apart env \<Longrightarrow> order \<in> set zone_orders \<Longrightarrow> preserves (steps_ok s0) (zone_run env z actor order)"
  by (rule preservesI) (rule run_ok)

lemma run_active:
  assumes apart: "wiring_apart env" and run: "zone_run env z actor order s = (Inr (), s')" and ord: "order \<in> set zone_orders"
    and ok: "in_order s" and "zn_state z \<noteq> ZoneActive" and row: "zone_of s' (zn_id z) = Some row" "zn_state row = ZoneActive"
  shows "\<forall>m \<in> set provision_order. over_in s' (zn_id z) m"
  using run
proof (cases rule: zone_run_cases)
  case (ran fs z1 res s1)
  let ?t = "s\<lparr>faults := fs\<rparr>"
  have ok': "steps_ok s ?t" using ok by (simp add: steps_ok_def in_order_def sealed_def over_in_def step_of_def)
  have ag: "agrees (\<lambda>n. step_of s (zn_id z) n) ?t (zn_id z)"
    using agrees_listed [of ?t "zn_id z"] by (simp add: step_of_def)
  from loop_ok [OF apart ran(1) _ ag _ ok', of "[]"] ord have l: "zn_id z1 = zn_id z"
    "res = Inr True \<longrightarrow> (\<forall>m \<in> set order. over_in s1 (zn_id z) m)" "res = Inr False \<longrightarrow> holds_copy z1 s1"
    "zn_state z1 \<in> state_path (zn_state z)" by auto
  have not_active: "zn_state z1 \<noteq> ZoneActive" using l(4) assms(5) by (auto simp: state_path_def)
  have settled: "st = ZoneActive" if "settle_zone z2 st event actor' cause s1 = (Inr (), s')" "zn_id z2 = zn_id z1" for z2 st event actor' cause
    using settle_zone_run(2) [OF that(1)] that(2) row l(1) by (auto simp: holds_copy_def)
  show ?thesis
  proof (cases "res = Inr True \<and> hd order = ''preflight''")
    case True
    with ord have "order = provision_order" by (auto simp: zone_orders_def decommission_order_def)
    moreover have "zone_steps s' = zone_steps s1" using keeps_stepsD [OF keeps_steps_finish ran(2)] .
    ultimately show ?thesis using True l(2) by (simp add: over_in_def step_of_def)
  next
    case False
    with ran(2) not_active l(1,3) row show ?thesis
      by (cases res) (auto simp: zone_finish_def Let_def ret_def holds_copy_def split: if_splits dest!: settled)
  qed
qed simp

end

text \<open>
  What happens to the zones, in any order, with any statements failing: the service's operations with
  any arguments, decided approvals, reconcile passes, runs on any copy of a zone (the one another
  operation has loaded earlier), and everything outside the zone factory.
\<close>

inductive zone_moves :: "'a zone_db_scheme zone_env \<Rightarrow> 'a zone_db_scheme zone_gate option \<Rightarrow> 'a zone_db_scheme \<Rightarrow> 'a zone_db_scheme \<Rightarrow> bool"
  for env gt where
  asked: "request_zone env gt actor rq (s\<lparr>faults := fs\<rparr>) = (r, s') \<Longrightarrow> zone_moves env gt s s'"
| started: "start_provisioning env i actor (s\<lparr>faults := fs\<rparr>) = (r, s') \<Longrightarrow> zone_moves env gt s s'"
| resumed: "resume_zone env i actor (s\<lparr>faults := fs\<rparr>) = (r, s') \<Longrightarrow> zone_moves env gt s s'"
| wound_down: "start_decommission env i actor (s\<lparr>faults := fs\<rparr>) = (r, s') \<Longrightarrow> zone_moves env gt s s'"
| asked_down: "request_decommission env gt actor i (s\<lparr>faults := fs\<rparr>) = (r', s') \<Longrightarrow> zone_moves env gt s s'"
| polled: "reconcile_zones env (s\<lparr>faults := fs\<rparr>) = (r, s') \<Longrightarrow> zone_moves env gt s s'"
| decided: "zone_resume_handle env ev (s\<lparr>faults := fs\<rparr>) = (r, s') \<Longrightarrow> zone_moves env gt s s'"
| stale: "order \<in> set zone_orders \<Longrightarrow> zone_run env z actor order (s\<lparr>faults := fs\<rparr>) = (r, s') \<Longrightarrow> zone_moves env gt s s'"
| elsewhere: "zone_steps s' = zone_steps s \<Longrightarrow> zone_moves env gt s s'"

definition gate_apart :: "'a zone_db_scheme zone_env \<Rightarrow> 'a zone_db_scheme zone_gate option \<Rightarrow> bool" where
  "gate_apart env gt \<longleftrightarrow> (\<forall>request org a u j. gt = Some request \<longrightarrow> keeps_zones (request org a u j))
     \<and> (\<forall>lookup org i. ze_mgmt env = Some lookup \<longrightarrow> keeps_zones (lookup org i))"

lemma orders_known: "provision_order \<in> set zone_orders" "decommission_order \<in> set zone_orders"
  by (simp_all add: zone_orders_def)

context cloud_backend
begin

lemma ops_ok:
  assumes apart: "wiring_apart env"
  shows "preserves (steps_ok s0) (start_provisioning env i actor)" "preserves (steps_ok s0) (resume_zone env i actor)"
    "preserves (steps_ok s0) (start_decommission env i actor)"
  unfolding start_provisioning_def resume_zone_def start_decommission_def
  by (intro preserves_bindE preserves_if preserves_throw run_preserves [OF apart] orders_known
      steps_ok_keeps keeps_steps_rows keeps_steps_ops)+

lemma request_zone_ok:
  assumes apart: "wiring_apart env" and gate: "gate_apart env gt"
  shows "preserves (steps_ok s0) (request_zone env gt actor rq)"
proof -
  have mgmt: "keeps_steps (check_mgmt_account env rq)"
  proof (cases "ze_mgmt env")
    case (Some lookup)
    then have "keeps_steps (lookup org j)" for org j using gate by (auto simp: gate_apart_def intro: keeps_zones_steps)
    with Some show ?thesis unfolding check_mgmt_account_def by (auto intro!: keeps_steps_rules)
  qed (simp add: check_mgmt_account_def keeps_steps_base)
  have tx: "keeps_steps (request_tx actor rq i)" for i
    unfolding request_tx_def by (intro keeps_steps_rules)
  have park: "keeps_steps (park_failed env actor z e)" for z e
    unfolding park_failed_def by (intro keeps_steps_rules keeps_steps_settle)
  have gated: "keeps_steps (request org a u j)" if "gt = Some request" for request org a u j
    using gate that by (auto simp: gate_apart_def intro: keeps_zones_steps)
  show ?thesis
    unfolding request_zone_def
    by (intro preserves_if preserves_throw preserves_thenE preserves_bindE preserves_case_option preserves_ret
        steps_ok_keeps [OF mgmt] steps_ok_keeps [OF tx] preserves_catchE steps_ok_keeps [OF park] steps_ok_keeps [OF gated]
        ops_ok [OF apart] steps_ok_keeps [OF keeps_steps_set_state] steps_ok_keeps [OF keeps_steps_base(4)])
qed

lemma request_decommission_ok:
  assumes apart: "wiring_apart env" and gate: "gate_apart env gt"
  shows "preserves (steps_ok s0) (request_decommission env gt actor i)"
proof -
  have gated: "keeps_steps (request org a u j)" if "gt = Some request" for request org a u j
    using gate that by (auto simp: gate_apart_def intro: keeps_zones_steps)
  have down: "preserves (steps_ok s0) (thenE (start_decommission env i actor) (ret []))"
    by (intro preserves_thenE ops_ok [OF apart] preserves_ret)
  have asked: "preserves (steps_ok s0) (bindE (request (zn_owner z) ApprovalActionTenantZoneDecommission actor j)
      (\<lambda>a. bindE (set_zone_state z ZoneDecommissionPending) (\<lambda>z.
         thenE (with_tx (append_outbox (zn_owner z) ''tenant_zone.decommission_requested'' (zone_payload z [] ZoneDecommissionPending [] [])))
           (ret a))))" if "gt = Some request" for request z j
    by (rule steps_ok_keeps) (intro keeps_steps_rules keeps_steps_ops gated that)
  show ?thesis
    unfolding request_decommission_def
    by (intro preserves_bindE preserves_if preserves_throw steps_ok_keeps [OF keeps_steps_rows(1)])
      (auto split: prod.split bool.split option.split intro: down asked)
qed

lemma handle_ok:
  assumes apart: "wiring_apart env"
  shows "preserves (steps_ok s0) (zone_resume_handle env ev)"
proof -
  have denied: "keeps_steps (zone_denied env req zone i st)" for req zone i st
    unfolding zone_denied_def by (intro keeps_steps_rules keeps_steps_settle)
  show ?thesis
    unfolding zone_resume_handle_def
    by (intro preserves_bindE preserves_lift_sum steps_ok_keeps [OF keeps_steps_get_request] preserves_if preserves_ret)
      (auto split: sum.split intro!: preserves_if preserves_throw ops_ok [OF apart] steps_ok_keeps [OF denied])
qed

lemma reconcile_ok:
  assumes apart: "wiring_apart env"
  shows "preserves (steps_ok s0) (reconcile_zones env)"
  unfolding reconcile_zones_def
  by (intro preserves_bindE preserves_catchE preserves_ret preserves_each_do ops_ok [OF apart] steps_ok_keeps [OF keeps_steps_rows(3)])

lemma move_ok:
  assumes apart: "wiring_apart env" and gate: "gate_apart env gt" and move: "zone_moves env gt s s'" and ok: "steps_ok s0 s"
  shows "steps_ok s0 s'"
proof -
  have ok': "steps_ok s0 (s\<lparr>faults := fs\<rparr>)" for fs using ok by (rule steps_ok_same [rotated]) simp
  from move show ?thesis
  proof (cases rule: zone_moves.cases)
    case (asked actor rq fs r) then show ?thesis by (rule preservesD [OF request_zone_ok [OF apart gate] ok'])
  next
    case (started i actor fs r) then show ?thesis by (rule preservesD [OF ops_ok(1) [OF apart] ok'])
  next
    case (resumed i actor fs r) then show ?thesis by (rule preservesD [OF ops_ok(2) [OF apart] ok'])
  next
    case (wound_down i actor fs r) then show ?thesis by (rule preservesD [OF ops_ok(3) [OF apart] ok'])
  next
    case (asked_down actor i fs r') then show ?thesis by (rule preservesD [OF request_decommission_ok [OF apart gate] ok'])
  next
    case (polled fs r) then show ?thesis by (rule preservesD [OF reconcile_ok [OF apart] ok'])
  next
    case (decided ev fs r) then show ?thesis by (rule preservesD [OF handle_ok [OF apart] ok'])
  next
    case (stale order z actor fs r) then show ?thesis by (blast intro: preservesD [OF run_preserves [OF apart] ok'])
  next
    case elsewhere then show ?thesis using ok by (rule steps_ok_same)
  qed
qed

end

section \<open>Steps in order\<close>


text \<open>
  (C21) An active zone has been provisioned completely. A run of the provisioning or the reverse
  sequence on a copy that is not active leaves the zone active only when pre-flight, account vending,
  trust bootstrap, cluster provisioning and wiring all have a record as succeeded or skipped.
\<close>

theorem active_zone_provisioned:
  assumes "cloud_backend env" and "wiring_apart env" and "in_order s" and "order \<in> set zone_orders"
    and "zn_state z \<noteq> ZoneActive" and "zone_run env z actor order s = (Inr (), s')"
    and "zone_of s' (zn_id z) = Some row" and "zn_state row = ZoneActive"
  shows "list_all (over_in s' (zn_id z)) provision_order"
  using cloud_backend.run_active [OF assms(1,2,6,4,3,5,7,8)] by (simp add: list_all_iff)

end
