(* ===== verification/ZoneExample.thy ===== *)
theory ZoneExample
  imports ZoneSafety
begin

text \<open>
  A zone from its request to active on the in-memory backends, where the properties of the zone
  factory are applied.
\<close>

section \<open>An example\<close>

definition demo_fake_db :: fake_db where
  "demo_fake_db = \<lparr>faults = [], clock = 100, uuids = (\<lambda>n. replicate n (CHR ''u'')), uuid_next = 1,
     audit_rows = [], audit_archive = [], outbox_rows = [], outbox_seq = 1, approvals = [], approval_configs = [],
     organizations = organizations zone_demo_db, org_roles = [], teams = [], memberships = [], tenant_users = [],
     tenant_zones = [], zone_steps = [],
     cloud_accounts = cloud_accounts (account_runs (\<lambda>_ _ _. ret ()) (\<lambda>_. []) demo_account_calls zone_demo_db),
     fo_next = 0, fo_requests = [], fo_accounts = (\<lambda>_. 0), fo_after = 1, fo_fail_create = False, fo_fail_close = False,
     fo_created = [], fo_moves = [], tb_roles = (\<lambda>_. None), tb_err = None, fp_next = 0, fp_mrs = [], fp_after = 1, fp_fail = False\<rparr>"

definition zone_target_cluster :: cluster where
  "zone_target_cluster = \<lparr>cl_id = ''cluster:c'', cl_org = ''org:z'', cl_name = ''shop-eks'', cl_k8s = [], cl_distribution = [], cl_issuer = [],
     cl_labels = [(''zone'', ''shop''), (''env'', ''zone'')], cl_client = [], cl_state = PendingRegistration, cl_checksum = [],
     cl_connected = None, cl_last_seen = None, cl_created = 1, cl_agent_version = []\<rparr>"

definition demo_wiring :: "fake_db module_wiring" where
  "demo_wiring = \<lparr>
     mw_create_tenant = (\<lambda>a sl d. ret \<lparr>og_id = ''org:z'', og_slug = sl, og_display = d, og_kc = ''z'', og_status = ''active'', og_created = 1\<rparr>),
     mw_get_tenant = (\<lambda>_. throw OrgNotFound), mw_delete_org = (\<lambda>_. ret ()), mw_create_cluster = (\<lambda>a b c d. ret zone_target_cluster),
     mw_list_clusters = (\<lambda>_. ret []), mw_issue_token = (\<lambda>_ _. ret ''tok''), mw_register = (\<lambda>_ _ _. ret
       \<lparr>ca_id = ''ca'', ca_org = ''org:z'', ca_provider = ''aws'', ca_account = ''1'', ca_role = [], ca_external = [], ca_issuer = [],
        ca_context = ''tenant'', ca_state = AccountPending, ca_validated = None, ca_error = [], ca_by = [], ca_created = 1\<rparr>),
     mw_accounts = (\<lambda>_. ret []), mw_deregister = (\<lambda>_ _ _. ret ()),
     mw_git = Some \<lparr>gp_ensure = (\<lambda>r. ret (''https://git/'' @ r)), gp_commit = (\<lambda>_ _ _ _. ret ()), gp_delete = (\<lambda>_ _ _ _. ret ())\<rparr>,
     mw_git_cfg = None, mw_baseline = None, mw_platform = None, mw_gitops_repo = [],
     mw_agent = \<lparr>ap_image = ''img'', ap_gateway = ''gw'', ap_version = [], ap_float = False, ap_store = [], ap_store_kind = [],
       ap_secret = [], ap_key = []\<rparr>\<rparr>"

definition demo_zone_env :: "fake_db zone_env" where
  "demo_zone_env = server_env \<lparr>zc_approval = False, zc_quota = 5, zc_regions = [], zc_tiers = [], zc_tags = [], zc_issuer = [], zc_attempts = 2\<rparr>
     demo_wiring (\<lambda>_ _. ret ()) (\<lambda>_ _ _. ret []) (\<lambda>_. ''failed'') (\<lambda>_. ''denied'')"

lemma demo_env_ok: "cloud_backend demo_zone_env" "wiring_apart demo_zone_env" "gate_apart demo_zone_env None"
proof -
  show "cloud_backend demo_zone_env" unfolding demo_zone_env_def by (rule fakes.cloud_backend_axioms)
  show "wiring_apart demo_zone_env"
    unfolding demo_zone_env_def by (rule server_env_apart) (auto simp: modules_apart_def demo_wiring_def intro: keeps_zones_base)
  have "keeps_zones (get_account org i)" for org i :: string
    unfolding keeps_zones_def get_account_def get_account_row_def
    by (auto simp: bindE_def sql_def ret_def throw_def split: list.split option.split sum.split)
  then show "gate_apart demo_zone_env None"
    by (auto simp: gate_apart_def demo_zone_env_def server_env_def intro!: keeps_zones_rules)
qed

definition demo_zone_request :: zone_request where
  "demo_zone_request = \<lparr>zr_slug = ''shop'', zr_display = ''Shop'', zr_ou = ''ou'', zr_region = ''eu'', zr_tier = ''starter'', zr_tags = [],
     zr_mgmt = ''cloudaccount:u'', zr_owner = ''org:p''\<rparr>"

text \<open>The zone after the request and after a pass of the reconcile loop.\<close>

definition demo_zone1 :: fake_db where
  "demo_zone1 = snd (request_zone demo_zone_env None ''ada'' demo_zone_request demo_fake_db)"

definition demo_zone2 :: fake_db where
  "demo_zone2 = snd (reconcile_zones demo_zone_env demo_zone1)"

lemma moves_asked: "zone_moves env gt s (snd (request_zone env gt actor rq s))"
  by (rule zone_moves.asked [where fs = "faults s" and r = "fst (request_zone env gt actor rq s)"]) simp

lemma moves_polled: "zone_moves env gt s (snd (reconcile_zones env s))"
  by (rule zone_moves.polled [where fs = "faults s" and r = "fst (reconcile_zones env s)"]) simp

lemma demo_zone_moves: "zone_moves demo_zone_env None demo_fake_db demo_zone1" "zone_moves demo_zone_env None demo_zone1 demo_zone2"
  unfolding demo_zone1_def demo_zone2_def by (rule moves_asked moves_polled)+

lemma demo_in_order: "in_order demo_fake_db"
  by (simp add: in_order_def step_of_def demo_fake_db_def select_row_def)

definition demo_copy :: tenant_zone where
  "demo_copy = hd (tenant_zones demo_zone2)"

definition demo_run :: fake_db where
  "demo_run = snd (zone_run demo_zone_env demo_copy ''ada'' provision_order demo_zone2)"

text \<open>The same run on the copy that was read before the reconcile loop moved the zone.\<close>

definition demo_stale :: tenant_zone where
  "demo_stale = hd (tenant_zones demo_zone1)"

definition demo_lost :: fake_db where
  "demo_lost = snd (zone_run demo_zone_env demo_stale ''ada'' provision_order demo_zone2)"

text \<open>One evaluation serves all that is said of the example: each state is computed once.\<close>

definition run_report :: "tenant_zone \<Rightarrow> fake_db \<Rightarrow> string \<times> zone_state \<times> string \<times> (err + unit) \<times> (zone_state \<times> string) option" where
  "run_report z s = (case zone_run demo_zone_env z ''ada'' provision_order s of (r, t) \<Rightarrow>
     (zn_id z, zn_state z, zn_aws z, r, map_option (\<lambda>row. (zn_state row, zn_aws row)) (zone_of t ''zone:u'')))"

definition passed_report :: "fake_db \<Rightarrow> string list \<times> string list \<times> bool" where
  "passed_report s = (map zs_step (zone_steps s), map zn_aws (tenant_zones s), over_in s ''zone:u'' ''account_vend'')"

definition reports :: "tenant_zone \<Rightarrow> fake_db \<Rightarrow> _" where
  "reports z s = (passed_report s, run_report (hd (tenant_zones s)) s, run_report z s)"

definition reports_after :: "fake_db \<Rightarrow> _" where
  "reports_after s = reports (hd (tenant_zones s)) (snd (reconcile_zones demo_zone_env s))"

lemma demo_reports:
  "reports_after (snd (request_zone demo_zone_env None ''ada'' demo_zone_request demo_fake_db)) =
    (([''preflight'', ''account_vend'', ''trust_bootstrap'', ''eks_provision''], [''100000000001''], True),
     (''zone:u'', ZoneProvisioning, ''100000000001'', Inr (), Some (ZoneActive, ''100000000001'')),
     (''zone:u'', ZoneProvisioning, [], Inr (), Some (ZoneActive, [])))"
  by code_simp

lemma demo_facts:
  "map zs_step (zone_steps demo_zone2) = [''preflight'', ''account_vend'', ''trust_bootstrap'', ''eks_provision'']"
  "map zn_aws (tenant_zones demo_zone2) = [''100000000001'']" "over_in demo_zone2 ''zone:u'' ''account_vend''"
  "zn_id demo_copy = ''zone:u''" "zn_state demo_copy = ZoneProvisioning"
  "zone_run demo_zone_env demo_copy ''ada'' provision_order demo_zone2 = (Inr (), demo_run)"
  "map_option zn_state (zone_of demo_run ''zone:u'') = Some ZoneActive"
  "zn_id demo_stale = ''zone:u''" "zn_aws demo_stale = []"
  "zone_run demo_zone_env demo_stale ''ada'' provision_order demo_zone2 = (Inr (), demo_lost)"
  "map_option zn_aws (zone_of demo_lost ''zone:u'') = Some []"
  using demo_reports unfolding demo_zone1_def [symmetric] reports_after_def demo_zone2_def [symmetric] reports_def
    demo_stale_def [symmetric] demo_copy_def [symmetric] passed_report_def run_report_def
  by (auto simp: demo_run_def demo_lost_def split: prod.splits)


lemma demo_zone2_in_order: "in_order demo_zone2"
  using cloud_backend.move_ok [OF demo_env_ok] demo_zone_moves demo_in_order by (metis steps_ok_def sealed_refl)

lemma active_zone_provisioned_witness: "list_all (over_in demo_run ''zone:u'') provision_order"
proof -
  obtain row where "zone_of demo_run (zn_id demo_copy) = Some row" "zn_state row = ZoneActive"
    using demo_facts(4,7) by auto
  from active_zone_provisioned [OF demo_env_ok(1,2) demo_zone2_in_order orders_known(1) _ demo_facts(6) this] demo_facts(4,5)
  show ?thesis by simp
qed

end
