(* ===== verification/ZoneGaps.thy ===== *)
theory ZoneGaps
  imports ZoneExample
begin

text \<open>
  Where the zone factory does not do what it means to: a run on a copy of the zone loaded before
  the lock overwrites what the run before it stored, and a zone whose vending was rejected is
  vended when somebody resumes it.
\<close>

section \<open>Stale copies\<close>

definition keeps_aws :: "'s step_run \<Rightarrow> tenant_zone \<Rightarrow> bool" where
  "keeps_aws run z \<longleftrightarrow> (\<forall>s z1 st1 res s1. run s = ((z1, st1, res), s1) \<longrightarrow> zn_aws z1 = zn_aws z)"

lemma keeps_aws_calls: "zn_aws z' = zn_aws z \<Longrightarrow> (\<And>x. keeps_aws (k x) z) \<Longrightarrow> keeps_aws (calls m z' st k) z"
  unfolding keeps_aws_def calls_def by (auto split: prod.splits sum.splits)

lemma keeps_aws_base: "zn_aws z' = zn_aws z \<Longrightarrow> keeps_aws (finished z' st b) z" "zn_aws z' = zn_aws z \<Longrightarrow> keeps_aws (fails z' st e) z"
  "zn_aws z' = zn_aws z \<Longrightarrow> keeps_aws (skipped z' st) z"
  by (simp_all add: keeps_aws_def finished_def fails_def skipped_def)

lemma keeps_aws_if: "(c \<Longrightarrow> keeps_aws f z) \<Longrightarrow> (\<not> c \<Longrightarrow> keeps_aws g z) \<Longrightarrow> keeps_aws (if c then f else g) z"
  by simp

text \<open>Only the vending step writes the account number.\<close>

lemma step_keeps_aws:
  assumes "name \<noteq> ''account_vend''"
  shows "keeps_aws (zone_step_func env actor steps name z st) z"
proof -
  have "keeps_aws (step_preflight env z st) z" "keeps_aws (step_trust_bootstrap env z st) z" "keeps_aws (step_eks_provision env z st) z"
    "keeps_aws (step_inari_wiring env steps z st) z" "keeps_aws (step_cordon env actor z st) z" "keeps_aws (step_drain env actor z st) z"
    "keeps_aws (step_eks_delete env steps z st) z" "keeps_aws (step_account_close env z st) z" "keeps_aws (step_identity_revoke env z st) z"
    unfolding step_preflight_def step_trust_bootstrap_def step_eks_provision_def step_inari_wiring_def step_cordon_def
      step_drain_def step_eks_delete_def step_account_close_def step_identity_revoke_def Let_def
    by (intro keeps_aws_calls keeps_aws_base keeps_aws_if; simp)+
  moreover have "keeps_aws (step_manifests_delete env z st) z"
    unfolding step_manifests_delete_def by (cases "ze_manifests env") (simp_all add: keeps_aws_calls keeps_aws_base)
  ultimately show ?thesis
    unfolding zone_step_func_def using assms by (intro keeps_aws_if keeps_aws_base) auto
qed

lemma loop_keeps_aws:
  assumes "zone_loop env actor names steps z s = ((z', res), s')"
    and "''account_vend'' \<in> set names \<longrightarrow> (\<exists>st. steps ''account_vend'' = Some st \<and> step_over st)"
  shows "zn_aws z' = zn_aws z"
  using assms
proof (induction names arbitrary: steps z s)
  case (Cons name names)
  from Cons.prems(1) show ?case
  proof (cases rule: zone_loop_step)
    case (over st)
    with Cons.IH [OF over(3)] Cons.prems(2) show ?thesis by auto
  next
    case (taken st z1 st1 r s1 r2 s2)
    have n: "name \<noteq> ''account_vend''" using taken(1,2) Cons.prems(2) by auto
    have a: "zn_aws (stepped_zone env z1 (settled_step st1 r)) = zn_aws z"
      using step_keeps_aws [OF n, unfolded keeps_aws_def, rule_format, OF taken(3)] by (simp add: stepped_zone_keys)
    show ?thesis
    proof (cases "r2 = Inr () \<and> r = Inr True")
      case True
      with taken(5) have "zone_loop env actor names (steps(name \<mapsto> settled_step st1 r)) (stepped_zone env z1 (settled_step st1 r)) s2 = ((z', res), s')"
        by simp
      from Cons.IH [OF this] Cons.prems(2) n a show ?thesis by auto
    qed (use taken(5) a in auto)
  qed
qed simp

text \<open>A run that returns has stored its copy at last.\<close>

lemma finish_stores:
  assumes fin: "zone_finish env actor order z res s = (Inr (), s')" and wait: "res = Inr False \<longrightarrow> holds_copy z s"
  shows "\<exists>row. zone_of s' (zn_id z) = Some row \<and> zn_aws row = zn_aws z"
proof -
  have settled: "\<exists>row. zone_of s' (zn_id z) = Some row \<and> zn_aws row = zn_aws z"
    if "settle_zone z2 st event actor' cause s = (Inr (), s')" "zn_id z2 = zn_id z" "zn_aws z2 = zn_aws z" for z2 st event actor' cause
    using settle_zone_run(2) [OF that(1)] that(2,3) by (auto simp: holds_copy_def)
  show ?thesis
  proof (cases "res = Inr False")
    case True
    with fin wait show ?thesis by (auto simp: zone_finish_def ret_def holds_copy_def)
  next
    case False
    with fin show ?thesis
      by (cases res) (auto simp: zone_finish_def Let_def split: if_splits dest!: settled)
  qed
qed

text \<open>
  (C39) A stale copy loses the vended account. A run of the provisioning sequence on a copy that was
  loaded before the account was vended, as two concurrent resumes make it, skips the steps that are
  over and, when it returns, has erased the account number from the zone's row, so that a later
  decommission takes the zone to have no account to close.
\<close>

theorem stale_copy_erases_account:
  assumes "cloud_backend env" and "wiring_apart env" and "in_order s"
    and "over_in s (zn_id z) ''account_vend''" and "zn_aws z = []"
    and "zone_run env z actor provision_order s = (Inr (), s')"
  shows "\<exists>row. zone_of s' (zn_id z) = Some row \<and> zn_aws row = [] \<and> over_in s' (zn_id z) ''account_vend''"
  using assms(6)
proof (cases rule: zone_run_cases)
  case (ran fs z1 res s1)
  let ?t = "s\<lparr>faults := fs\<rparr>"
  have ok: "steps_ok s ?t" using assms(3) by (simp add: steps_ok_def in_order_def sealed_def over_in_def step_of_def)
  have ag: "agrees (\<lambda>n. step_of s (zn_id z) n) ?t (zn_id z)"
    using agrees_listed [of ?t "zn_id z"] by (simp add: step_of_def)
  from cloud_backend.loop_ok [OF assms(1,2) ran(1) _ ag _ ok, of "[]"] orders_known(1)
  have l: "zn_id z1 = zn_id z" "res = Inr False \<longrightarrow> holds_copy z1 s1" by auto
  have "zn_aws z1 = []"
    using loop_keeps_aws [OF ran(1)] assms(4,5) by (auto simp: over_in_def split: option.splits)
  moreover have "steps_ok s s'"
    using cloud_backend.run_ok [OF assms(1,2) orders_known(1) _ assms(6), of s] assms(3) by (simp add: steps_ok_def)
  then have "over_in s' (zn_id z) ''account_vend''"
    using assms(4) by (auto simp: steps_ok_def sealed_def over_in_def split: option.splits)
  ultimately show ?thesis using finish_stores [OF ran(2) l(2)] l(1) by auto
qed simp

lemma stale_copy_erases_account_witness:
  "map zn_aws (tenant_zones demo_zone2) = [''100000000001''] \<and> map_option zn_aws (zone_of demo_lost ''zone:u'') = Some []"
  using stale_copy_erases_account [OF demo_env_ok(1,2) demo_zone2_in_order _ demo_facts(9,10)] demo_facts(2,3,8) by auto

section \<open>Rejected zones\<close>

text \<open>The gate of the server, and the example with approvals required.\<close>

definition zone_approval_gate :: "'a approvals_db_scheme approvals_svc \<Rightarrow> 'a approvals_db_scheme zone_gate" where
  "zone_approval_gate svc org action user j = bindE (request_lifecycle_approval svc
     \<lparr>li_org = org, li_action = action, li_requester = user, li_context = j\<rparr>) (\<lambda>req. ret (ar_id req))"

definition gated_env :: "fake_db zone_env" where
  "gated_env = demo_zone_env\<lparr>ze_config := (ze_config demo_zone_env)\<lparr>zc_approval := True\<rparr>\<rparr>"

definition gated_svc :: "fake_db approvals_svc" where
  "gated_svc = \<lparr>svc_roles = None, svc_items = (\<lambda>_. throw ErrNoRows), svc_ttl = DefaultTTL,
     svc_platform = Some (\<lambda>u r ob. Inr True)\<rparr>"

definition demo_pending :: fake_db where
  "demo_pending = snd (request_zone gated_env (Some (zone_approval_gate gated_svc)) ''ada'' demo_zone_request demo_fake_db)"

definition demo_approval :: approval_request where
  "demo_approval = hd (approvals demo_pending)"

definition demo_rejected :: fake_db where
  "demo_rejected = (let s = snd (decide gated_svc ''org:p'' (ar_id demo_approval) ''bob'' False ''no'' demo_pending)
     in snd (zone_resume_handle gated_env (last (outbox_rows s)) s))"

definition zone_outcome :: "fake_db \<Rightarrow> approval_state list \<times> zone_state list \<times> string list" where
  "zone_outcome s = (map ar_state (approvals s), map zn_state (tenant_zones s), fo_created s)"

definition resume_outcome :: "string \<Rightarrow> fake_db \<Rightarrow> (err + unit) \<times> approval_state list \<times> zone_state list \<times> string list" where
  "resume_outcome actor s = (case resume_zone gated_env ''zone:u'' actor s of (r, t) \<Rightarrow> (r, zone_outcome t))"

definition rejected_report :: "fake_db \<Rightarrow> _" where
  "rejected_report s = (zone_outcome s, resume_outcome ''ada'' s)"

lemma demo_rejected_report:
  "rejected_report demo_rejected =
    (([Rejected], [ZoneFailed], []), (Inr (), [Rejected], [ZoneFailed], [''100000000001'']))"
  by code_simp


end
