(* ===== verification/ZoneWiring.thy ===== *)
theory ZoneWiring
  imports ZoneSafety
begin

text \<open>
  Wiring a zone creates its tenant in the name of \<open>system:tenantzonefactory\<close>. Keycloak refuses to
  make a user it does not know a member of an organization, and refuses a second organization with
  the same alias, with errors that are not the slug conflict the retry adopts: no attempt succeeds.
\<close>

section \<open>What creating a tenant leaves alone\<close>

definition more_is :: "'b \<Rightarrow> 'b tenancy_db_scheme \<Rightarrow> bool" where
  "more_is T s \<longleftrightarrow> tenancy_db.more s = T"

lemma log_stable_more: "log_stable (more_is T)"
  by (simp add: log_stable_def more_is_def)

lemmas more_stable = log_stable_tx_stable [OF log_stable_more]

lemma more_rows:
  "preserves (more_is T) (create_organization org)" "preserves (more_is T) (get_role_by_name g n)"
  "preserves (more_is T) (create_team_row t)"
  unfolding create_organization_def get_role_by_name_def create_team_row_def Let_def
  by (rule preserves_sql_body [OF log_stable_more], auto simp: more_is_def dbm_defs split: option.splits if_splits)+

lemma more_insert_role: "preserves (more_is T) (insert_role r)"
  by (rule preservesI) (auto simp: insert_role_def more_is_def dbm_defs Let_def split: if_splits)

lemma more_seed_roles: "preserves (more_is T) (seed_roles org bs)"
proof (induction bs)
  case (Cons b bs)
  have "preserves (more_is T) (\<lambda>s. if list_ex (\<lambda>x. rl_org x = org \<and> rl_name x = br_name b) (org_roles s) then (Inr (), s)
      else thenE (insert_role r) (ret ()) s)" for r
    using preserves_thenE [OF more_insert_role preserves_ret, of T r "()"] by (simp add: preserves_def)
  with Cons show ?case by (simp add: preserves_thenE preserves_sql [OF more_stable])
qed (simp add: preserves_ret)

lemma more_default_teams: "preserves (more_is T) (create_default_teams actor org dts (ts, seeds))"
proof (induction dts arbitrary: ts seeds)
  case (Cons d dts)
  then show ?case
    by (cases d) (simp, intro preserves_bindE preserves_thenE more_rows preserves_record_audit [OF log_stable_more])
qed (simp add: preserves_ret)

lemma more_tenant_tx: "preserves (more_is T) (tenant_tx actor org)"
  unfolding tenant_tx_def seed_builtin_roles_def
  by (intro preserves_with_tx [OF more_stable] preserves_bindE preserves_thenE more_rows more_seed_roles more_default_teams)
    (auto split: prod.split intro!: preserves_thenE preserves_emit [OF log_stable_more] preserves_ret)

section \<open>The identity provider\<close>

text \<open>
  \<open>taken\<close> reads the aliases from the provider's own memory. The first two laws are Keycloak's answers
  409 and 400 or 404, which the client reports as plain errors; the rest says that a call changes no
  organization in the database, forgets no alias (but for the deletion), and does not fail with the
  tenancy store's error for a taken slug.
\<close>

definition harmless :: "('b tenancy_db_scheme \<Rightarrow> string \<Rightarrow> bool) \<Rightarrow> ('b tenancy_db_scheme, 'x) dbm \<Rightarrow> bool" where
  "harmless taken m \<longleftrightarrow> (\<forall>s r s'. m s = (r, s') \<longrightarrow> r \<noteq> Inl SlugTaken
     \<and> (\<forall>x. taken s x \<longrightarrow> taken s' x))"

definition memory_only :: "('b tenancy_db_scheme \<Rightarrow> string \<Rightarrow> bool) \<Rightarrow> bool" where
  "memory_only taken \<longleftrightarrow> (\<forall>s s'. tenancy_db.more s' = tenancy_db.more s \<longrightarrow> taken s' = taken s)"

definition keycloak_like :: "'b tenancy_db_scheme tenancy_svc \<Rightarrow> ('b tenancy_db_scheme \<Rightarrow> string \<Rightarrow> bool) \<Rightarrow> string \<Rightarrow> bool" where
  "keycloak_like svc taken actor \<longleftrightarrow>
     memory_only taken \<and>
     (\<forall>slug d s r s'. ip_create_org (tv_idp svc) slug d s = (r, s') \<longrightarrow> organizations s' = organizations s
        \<and> (if taken s slug then \<exists>e. r = Inl e else \<forall>kc. r = Inr kc \<longrightarrow> taken s' slug))
   \<and> (\<forall>kc s. \<exists>e s'. ip_add_org_member (tv_idp svc) kc actor s = (Inl e, s'))
   \<and> (\<forall>kc s r s'. ip_delete_org (tv_idp svc) kc s = (r, s') \<longrightarrow> organizations s' = organizations s)
   \<and> (\<forall>slug d. harmless taken (ip_create_org (tv_idp svc) slug d))
   \<and> (\<forall>kc u. harmless taken (ip_add_org_member (tv_idp svc) kc u))
   \<and> (\<forall>p. harmless taken (ip_create_group (tv_idp svc) p))
   \<and> (\<forall>f g. tv_platform svc = Some f \<longrightarrow> harmless taken (f g))
   \<and> (\<forall>f a b. tv_kubectl svc = Some f \<longrightarrow> harmless taken (f a b))"

text \<open>The alias is taken, or the database has no organization with the slug: either way creating fails.\<close>

definition unadoptable :: "('b tenancy_db_scheme \<Rightarrow> string \<Rightarrow> bool) \<Rightarrow> string \<Rightarrow> 'b tenancy_db_scheme \<Rightarrow> bool" where
  "unadoptable taken slug s \<longleftrightarrow> taken s slug \<or> slug \<notin> og_slug ` set (organizations s)"

lemma taken_memory: "keycloak_like svc taken actor \<Longrightarrow> tenancy_db.more s' = tenancy_db.more s \<Longrightarrow> taken s' = taken s"
  unfolding keycloak_like_def memory_only_def by (elim conjE) (erule allE, erule allE, erule mp)

lemma unadoptable_same: "keycloak_like svc taken actor \<Longrightarrow> same_tables s s' \<Longrightarrow> unadoptable taken slug s \<Longrightarrow> unadoptable taken slug s'"
proof -
  assume like: "keycloak_like svc taken actor" and "same_tables s s'" and un: "unadoptable taken slug s"
  then obtain fs u where s': "s' = s\<lparr>faults := fs, uuid_next := u\<rparr>" by (elim same_tablesE)
  have "taken s' = taken s" by (rule taken_memory [OF like]) (simp add: s')
  with un s' show "unadoptable taken slug s'" by (simp add: unadoptable_def)
qed

lemma keycloak_refuses: "keycloak_like svc taken actor \<Longrightarrow> \<exists>e s'. ip_add_org_member (tv_idp svc) kc actor s = (Inl e, s')"
  by (simp add: keycloak_like_def)

lemma harmless_ret: "harmless taken (ret x)"
  by (simp add: harmless_def ret_def)

lemma harmless_thenE: "harmless taken m \<Longrightarrow> harmless taken n \<Longrightarrow> harmless taken (thenE m n)"
  unfolding harmless_def thenE_def bindE_def by (auto split: prod.splits sum.splits)

lemma harmless_each_do: "(\<And>x. harmless taken (f x)) \<Longrightarrow> harmless taken (each_do f xs)"
  by (induction xs) (auto intro: harmless_ret harmless_thenE)

definition joins :: "'a tenancy_db_scheme tenancy_svc \<Rightarrow> string \<Rightarrow> string \<Rightarrow> string \<Rightarrow> organization \<times> team list \<Rightarrow> ('a tenancy_db_scheme, organization \<times> team list) dbm" where
  "joins svc actor slug kc = (\<lambda>rt. thenE (each_do (\<lambda>t. ip_create_group (tv_idp svc) (tm_path t)) (snd rt))
          (thenE (case tv_platform svc of None \<Rightarrow> ret () | Some ensure \<Rightarrow> ensure (fst rt))
          (thenE (case tv_kubectl svc of None \<Rightarrow> ret () | Some ensure \<Rightarrow> ensure actor slug)
          (thenE (if actor \<noteq> [] then creator_membership svc actor kc (''org:'' @ kc) (snd rt) else ret ()) (ret rt)))))"

lemma create_tenant_alt: "create_tenant svc actor slug disp = bindE (ip_create_org (tv_idp svc) slug disp) (\<lambda>kc.
     bindE (catchE (tenant_tx actor \<lparr>og_id = ''org:'' @ kc, og_slug = slug, og_display = disp, og_kc = kc, og_status = [], og_created = 0\<rparr>)
        (compensate (ip_delete_org (tv_idp svc) kc))) (joins svc actor slug kc))"
  by (simp only: create_tenant_def joins_def Let_def case_prod_unfold organization.select_convs prod.collapse)

lemma member_refused:
  assumes like: "keycloak_like svc taken actor" and "actor \<noteq> []" and run: "joins svc actor slug kc rt s = (r, s')"
  shows "(\<exists>e. r = Inl e \<and> e \<noteq> SlugTaken) \<and> (\<forall>x. taken s x \<longrightarrow> taken s' x)"
proof -
  note law = like [unfolded keycloak_like_def]
  have hooks: "harmless taken (case tv_platform svc of None \<Rightarrow> ret () | Some ensure \<Rightarrow> ensure (fst rt))"
    "harmless taken (case tv_kubectl svc of None \<Rightarrow> ret () | Some ensure \<Rightarrow> ensure actor slug)"
    "harmless taken (each_do (\<lambda>t. ip_create_group (tv_idp svc) (tm_path t)) (snd rt))"
    using law by (auto split: option.split intro: harmless_ret harmless_each_do)
  have refuses: "harmless taken (thenE (ip_add_org_member (tv_idp svc) kc actor) m)
      \<and> (\<forall>t. \<exists>e t'. thenE (ip_add_org_member (tv_idp svc) kc actor) m t = (Inl e, t'))" for m :: "('a tenancy_db_scheme, unit) dbm"
  proof -
    have "thenE (ip_add_org_member (tv_idp svc) kc actor) m = ip_add_org_member (tv_idp svc) kc actor"
    proof
      fix t
      from keycloak_refuses [OF like] obtain e t' where "ip_add_org_member (tv_idp svc) kc actor t = (Inl e, t')" by blast
      then show "thenE (ip_add_org_member (tv_idp svc) kc actor) m t = ip_add_org_member (tv_idp svc) kc actor t"
        by (simp add: thenE_def bindE_def)
    qed
    with law show ?thesis by simp
  qed
  have joined: "harmless taken (creator_membership svc actor kc (''org:'' @ kc) (snd rt))"
    unfolding creator_membership_def by (rule refuses [THEN conjunct1])
  have member: "harmless taken (thenE (if actor \<noteq> [] then creator_membership svc actor kc (''org:'' @ kc) (snd rt) else ret ()) (ret rt))"
    unfolding if_P [OF assms(2)] by (intro harmless_thenE joined harmless_ret)
  have harm: "harmless taken (joins svc actor slug kc rt)"
    unfolding joins_def by (intro harmless_thenE hooks member)
  have "\<exists>e. r = Inl e"
  proof (cases r)
    case (Inr y)
    from run [unfolded Inr joins_def] assms(2) obtain u t t' where "creator_membership svc actor kc (''org:'' @ kc) (snd rt) t = (Inr u, t')"
      by (auto elim!: thenE_okE)
    moreover obtain e t'' where "creator_membership svc actor kc (''org:'' @ kc) (snd rt) t = (Inl e, t'')"
      using refuses unfolding creator_membership_def by blast
    ultimately show ?thesis by simp
  qed blast
  with harm run show ?thesis unfolding harmless_def by blast
qed

lemma create_tenant_refused:
  assumes like: "keycloak_like svc taken actor" and "actor \<noteq> []" and un: "unadoptable taken slug s"
    and run: "create_tenant svc actor slug disp s = (r, s')"
  shows "\<exists>e. r = Inl e \<and> unadoptable taken slug s' \<and> (e = SlugTaken \<longrightarrow> slug \<notin> og_slug ` set (organizations s'))"
proof -
  note law = like [unfolded keycloak_like_def]
  obtain c s1 where c: "ip_create_org (tv_idp svc) slug disp s = (c, s1)" by fastforce
  have c1: "organizations s1 = organizations s" "c \<noteq> Inl SlugTaken"
    "taken s slug \<Longrightarrow> (\<exists>e. c = Inl e) \<and> taken s1 slug"
    "\<forall>kc. c = Inr kc \<longrightarrow> taken s slug \<or> taken s1 slug"
    using law c unfolding harmless_def by (metis, metis, metis, metis)
  show ?thesis
  proof (cases c)
    case (Inl e)
    with run c have "r = Inl e" "s' = s1" by (simp_all add: create_tenant_def bindE_def)
    with un c1 Inl show ?thesis by (auto simp: unadoptable_def)
  next
    case (Inr kc)
    let ?org = "\<lparr>og_id = ''org:'' @ kc, og_slug = slug, og_display = disp, og_kc = kc, og_status = [], og_created = 0\<rparr>"
    from Inr c1(3,4) have tk: "taken s1 slug" and new: "slug \<notin> og_slug ` set (organizations s1)"
      using un c1(1) by (auto simp: unadoptable_def)
    obtain t s2 where t: "tenant_tx actor ?org s1 = (t, s2)" by fastforce
    have "tenancy_db.more s2 = tenancy_db.more s1"
      using preservesD [OF more_tenant_tx _ t, of "tenancy_db.more s1"] by (simp add: more_is_def)
    then have more2: "taken s2 = taken s1" by (rule taken_memory [OF like])
    show ?thesis
    proof (cases t)
      case (Inl e)
      with t have "organizations s2 = organizations s1"
        unfolding tenant_tx_def by (auto dest!: with_tx_abort elim!: same_tablesE)
      moreover obtain d s3 where d: "ip_delete_org (tv_idp svc) kc s2 = (d, s3)" by fastforce
      moreover from d law have "organizations s3 = organizations s2" by blast
      moreover have "r = Inl e" "s' = s3"
        using run c t d Inr Inl unfolding create_tenant_alt
        by (auto simp: bindE_def catchE_def compensate_def thenE_def throw_def ret_def split: sum.splits)
      ultimately show ?thesis using new by (auto simp: unadoptable_def)
    next
      case (Inr rt)
      with \<open>c = Inr kc\<close> run c t have "joins svc actor slug kc rt s2 = (r, s')"
        unfolding create_tenant_alt by (simp add: bindE_def catchE_def)
      from member_refused [OF like assms(2) this] tk more2 show ?thesis by (auto simp: unadoptable_def)
    qed
  qed
qed

section \<open>No attempt succeeds\<close>

lemma wire_zone_refused:
  assumes like: "keycloak_like svc taken wiring_actor" and un: "unadoptable taken (zn_slug z) s"
    and run: "wire_zone (server_wiring svc w) z arn s = (r, s')"
  shows "\<exists>e. r = Inl e \<and> unadoptable taken (zn_slug z) s'"
proof -
  obtain c s1 where c: "create_tenant svc wiring_actor (zn_slug z) (zn_display z) s = (c, s1)" by fastforce
  have "wiring_actor \<noteq> []" by (simp add: wiring_actor_def)
  from create_tenant_refused [OF like this un c] obtain e where e: "c = Inl e" "unadoptable taken (zn_slug z) s1"
    "e = SlugTaken \<longrightarrow> zn_slug z \<notin> og_slug ` set (organizations s1)" by blast
  obtain g s2 where g: "get_organization_by_slug (zn_slug z) s1 = (g, s2)" by fastforce
  have same: "same_tables s1 s2" and found: "\<And>x. g = Inr x \<Longrightarrow> x \<in> set (organizations s1) \<and> og_slug x = zn_slug z"
    using g unfolding get_organization_by_slug_def
    by (auto elim!: sql_runE split: option.splits dest!: select_row_SomeD)
  have missing: "\<exists>e'. g = Inl e'" if "e = SlugTaken"
    using e(3) that found by (cases g) (auto, metis imageI)
  have "unadoptable taken (zn_slug z) s2" by (rule unadoptable_same [OF like same e(2)])
  moreover have "r = (if e = SlugTaken then Inl (projl g) else Inl e) \<and> s' = (if e = SlugTaken then s2 else s1)"
    using run c e(1) g missing
    by (auto simp: wire_zone_def wire_org_def server_wiring_def bindE_def catchE_def throw_def split: if_splits)
  ultimately show ?thesis using e(2) by auto
qed

fun wiring_attempts :: "'a zone_db_scheme module_wiring \<Rightarrow> tenant_zone \<Rightarrow> string \<Rightarrow> bool list list \<Rightarrow> 'a zone_db_scheme \<Rightarrow> (err + wiring_result) list" where
  "wiring_attempts w z arn [] s = []"
| "wiring_attempts w z arn (fs # fss) s = (case wire_zone w z arn (s\<lparr>faults := fs\<rparr>) of (r, s') \<Rightarrow> r # wiring_attempts w z arn fss s')"

text \<open>
  (C32) No zone is ever wired. With an identity provider that refuses the member
  \<open>system:tenantzonefactory\<close>, as Keycloak refuses a user it does not know, and refuses an alias that
  exists, every attempt to wire a zone with a new slug fails, however often it is retried and whatever
  statements fail: the first one leaves the organization behind, the retries never adopt it.
\<close>

theorem zone_never_wired:
  assumes "keycloak_like svc taken wiring_actor" and "zn_slug z \<notin> og_slug ` set (organizations s)"
  shows "list_all isl (wiring_attempts (server_wiring svc w) z arn fss s)"
proof -
  have "unadoptable taken (zn_slug z) s" using assms(2) by (simp add: unadoptable_def)
  then show ?thesis
  proof (induction fss arbitrary: s)
    case (Cons fs fss)
    obtain r s' where run: "wire_zone (server_wiring svc w) z arn (s\<lparr>faults := fs\<rparr>) = (r, s')" by fastforce
    have "unadoptable taken (zn_slug z) (s\<lparr>faults := fs\<rparr>)"
      by (rule unadoptable_same [OF assms(1) same_tables_faults Cons.prems])
    from wire_zone_refused [OF assms(1) this run] Cons.IH show ?case by (auto simp: run)
  qed simp
qed

text \<open>An identity provider with the users \<open>ada\<close> and \<open>bob\<close>, which remembers its organizations.\<close>

record kc_db = zone_db +
  kc_orgs :: "string list"

definition kc_demo_idp :: "kc_db idp" where
  "kc_demo_idp = \<lparr>
     ip_create_org = (\<lambda>slug d s. if List.member (kc_orgs s) slug then (Inl (ErrExternal ''status 409''), s)
        else (Inr slug, s\<lparr>kc_orgs := slug # kc_orgs s\<rparr>)),
     ip_update_org = (\<lambda>_ _. ret ()), ip_delete_org = (\<lambda>kc s. (Inr (), s\<lparr>kc_orgs := removeAll kc (kc_orgs s)\<rparr>)),
     ip_create_group = (\<lambda>_. ret ()), ip_delete_group = (\<lambda>_. ret ()),
     ip_add_org_member = (\<lambda>kc u. if List.member [''ada'', ''bob''] u then ret () else throw (ErrExternal ''status 400'')),
     ip_remove_org_member = (\<lambda>_ _. ret ()), ip_add_group_member = (\<lambda>_ _. ret ()), ip_remove_group_member = (\<lambda>_ _. ret ()),
     ip_list_group_members = (\<lambda>_. ret []), ip_get_user = (\<lambda>_. throw UserNotFound), ip_get_user_by_email = (\<lambda>_. throw UserNotFound)\<rparr>"

definition kc_demo_tenancy :: "kc_db tenancy_svc" where
  "kc_demo_tenancy = \<lparr>tv_idp = kc_demo_idp, tv_platform = None, tv_kubectl = None, tv_brokers = (\<lambda>_. ret [])\<rparr>"

definition demo_kc_db :: kc_db where
  "demo_kc_db = \<lparr>faults = [], clock = 100, uuids = (\<lambda>n. replicate n (CHR ''u'')), uuid_next = 1,
     audit_rows = [], audit_archive = [], outbox_rows = [], outbox_seq = 1, approvals = [], approval_configs = [],
     organizations = [], org_roles = [], teams = [], memberships = [], tenant_users = [], tenant_zones = [], zone_steps = [],
     cloud_accounts = [], kc_orgs = []\<rparr>"

definition demo_modules :: "kc_db module_wiring" where
  "demo_modules = \<lparr>mw_create_tenant = (\<lambda>_ _ _. throw Panic), mw_get_tenant = (\<lambda>_. throw OrgNotFound), mw_delete_org = (\<lambda>_. ret ()),
     mw_create_cluster = (\<lambda>_ _ _ _. throw ClusterNameTaken), mw_list_clusters = (\<lambda>_. ret []), mw_issue_token = (\<lambda>_ _. ret ''tok''),
     mw_register = (\<lambda>_ _ _. throw AccountInput), mw_accounts = (\<lambda>_. ret []), mw_deregister = (\<lambda>_ _ _. ret ()), mw_git = None,
     mw_git_cfg = None, mw_baseline = None, mw_platform = None, mw_gitops_repo = [],
     mw_agent = \<lparr>ap_image = ''img'', ap_gateway = ''gw'', ap_version = [], ap_float = False, ap_store = [], ap_store_kind = [],
       ap_secret = [], ap_key = []\<rparr>\<rparr>"

definition demo_unwired :: tenant_zone where
  "demo_unwired = \<lparr>zn_id = ''zone:u'', zn_slug = ''shop'', zn_display = ''Shop'', zn_owner = ''org:p'', zn_org = [], zn_ou = ''ou'',
     zn_region = ''eu'', zn_tier = ''starter'', zn_state = ZoneWiring, zn_mgmt = ''ca'', zn_aws = ''100000000001'', zn_cluster = [],
     zn_cloud = [], zn_kc = [], zn_git = [], zn_tags = [], zn_error = [], zn_by = ''ada'', zn_created = 1, zn_updated = 1\<rparr>"

definition alias_taken :: "kc_db \<Rightarrow> string \<Rightarrow> bool" where
  "alias_taken s slug \<longleftrightarrow> slug \<in> set (kc_orgs s)"

lemma demo_keycloak_like: "keycloak_like kc_demo_tenancy alias_taken wiring_actor"
proof -
  have m: "kc_orgs s' = kc_orgs s" if "tenancy_db.more s' = tenancy_db.more s" for s s' :: kc_db
    using that by (cases s; cases s') simp
  show ?thesis
    by (auto simp: keycloak_like_def memory_only_def harmless_def alias_taken_def kc_demo_tenancy_def kc_demo_idp_def ret_def throw_def fun_eq_iff wiring_actor_def
        dest!: m split: if_splits)
qed

lemma zone_never_wired_witness:
  "list_all isl (wiring_attempts (server_wiring kc_demo_tenancy demo_modules) demo_unwired ''arn'' [[], [True], []] demo_kc_db)"
  by (rule zone_never_wired [OF demo_keycloak_like]) (simp add: demo_kc_db_def)

end
