(* ===== verification/ZoneBaseline.thy ===== *)
theory ZoneBaseline
  imports ZoneBackends "HOL-Library.Multiset"
begin

text \<open>
  The baseline bundle of a zone (internal/tenantzonefactory/baseline.go) does not depend on the order
  in which Go iterates over the cluster's labels: the rendered files are a function of the map.
\<close>

section \<open>The order of strings\<close>

lemma nats_less_irrefl [simp]: "\<not> nats_less a a"
  by (induction a) auto

lemma nats_less_trans: "nats_less a b \<Longrightarrow> nats_less b c \<Longrightarrow> nats_less a c"
proof (induction a b arbitrary: c rule: nats_less.induct)
  case (2 y ys)
  then show ?case by (cases c) auto
next
  case (3 x xs y ys)
  then show ?case by (cases c) auto
qed simp

lemma nats_less_linear: "nats_less a b \<or> a = b \<or> nats_less b a"
proof (induction a b rule: nats_less.induct)
  case (1 a)
  then show ?case by (cases a) auto
qed auto

lemma string_code_inj: "string_code a = string_code b \<longleftrightarrow> a = b"
  unfolding string_code_def by (rule inj_map_eq_map) (simp add: inj_def)

abbreviation string_less :: "string \<Rightarrow> string \<Rightarrow> bool" where
  "string_less a b \<equiv> nats_less (string_code a) (string_code b)"

lemma string_less_linear: "\<not> string_less a b \<Longrightarrow> \<not> string_less b a \<Longrightarrow> a = b"
  using nats_less_linear [of "string_code a" "string_code b"] by (simp add: string_code_inj)

lemma string_less_asym: "string_less a b \<Longrightarrow> \<not> string_less b a"
  using nats_less_trans by fastforce

text \<open>Two insertions commute, so that the sorted list is determined by the elements.\<close>

lemma insert_name_commute: "insert_name (\<lambda>x. x) a (insert_name (\<lambda>x. x) b ys) = insert_name (\<lambda>x. x) b (insert_name (\<lambda>x. x) a ys)"
proof (induction ys)
  case Nil
  show ?case using string_less_asym string_less_linear by auto
next
  case (Cons y ys)
  have below: "string_less p q" if "\<not> string_less y p" "string_less y q" for p q
    using that string_less_linear [of y p] nats_less_trans by blast
  show ?case
  proof (cases "string_less y a \<longleftrightarrow> string_less y b")
    case True
    with Cons string_less_asym string_less_linear [of a b] show ?thesis by (cases "string_less y a") auto
  next
    case False
    with below [of a b] below [of b a] show ?thesis by (cases "string_less y a") (simp_all add: string_less_asym)
  qed
qed

lemma sort_names_mset:
  assumes "mset xs = mset ys"
  shows "sort_names (\<lambda>x. x) xs = sort_names (\<lambda>x. x) ys"
proof -
  have "fold (insert_name (\<lambda>x. x)) (rev xs) [] = fold (insert_name (\<lambda>x. x)) (rev ys) []"
    by (rule fold_permuted_eq [where P = "\<lambda>_. True"]) (simp_all add: assms insert_name_commute)
  then show ?thesis by (simp add: sort_names_def foldr_conv_fold)
qed

section \<open>The bundle\<close>

text \<open>
  The baseline bundle is a function of the label map. Two clusters that differ only in the order
  in which their labels are listed get the same files, or the same refusal.
\<close>

theorem baseline_label_order:
  assumes "mset (cl_labels c) = mset ls"
  shows "render_baseline (c\<lparr>cl_labels := ls\<rparr>) z token p url = render_baseline c z token p url"
proof -
  have "mset (map (\<lambda>(k, v). k @ ''='' @ v) ls) = mset (map (\<lambda>(k, v). k @ ''='' @ v) (cl_labels c))"
    using arg_cong [OF assms, of "image_mset (\<lambda>(k, v). k @ ''='' @ v)"] by simp
  then have "encode_labels ls = encode_labels (cl_labels c)"
    unfolding encode_labels_def by (rule arg_cong [OF sort_names_mset])
  then have eq: "encode_labels (cl_labels (c\<lparr>cl_labels := ls\<rparr>)) = encode_labels (cl_labels c)"
    "cl_org (c\<lparr>cl_labels := ls\<rparr>) = cl_org c" "cl_id (c\<lparr>cl_labels := ls\<rparr>) = cl_id c" by simp_all
  show ?thesis unfolding render_baseline_def agent_application_lines_def eq ..
qed

definition demo_labelled :: cluster where
  "demo_labelled = \<lparr>cl_id = ''cluster:c'', cl_org = ''org:z'', cl_name = ''shop-eks'', cl_k8s = [], cl_distribution = [], cl_issuer = [],
     cl_labels = [(''zone'', ''shop''), (''env'', ''zone'')], cl_client = [], cl_state = PendingRegistration, cl_checksum = [],
     cl_connected = None, cl_last_seen = None, cl_created = 1, cl_agent_version = []\<rparr>"

definition demo_render :: "cluster \<Rightarrow> err + git_file list" where
  "demo_render c = render_baseline c \<lparr>zn_id = ''zone:u'', zn_slug = ''shop'', zn_display = ''Shop'', zn_owner = ''org:p'', zn_org = [],
     zn_ou = ''ou'', zn_region = ''eu'', zn_tier = ''starter'', zn_state = ZoneWiring, zn_mgmt = ''ca'', zn_aws = ''1'', zn_cluster = [],
     zn_cloud = [], zn_kc = [], zn_git = [], zn_tags = [], zn_error = [], zn_by = ''ada'', zn_created = 1, zn_updated = 1\<rparr> ''tok''
     \<lparr>ap_image = ''img'', ap_gateway = ''gw'', ap_version = ''1.2'', ap_float = False, ap_store = ''vault'', ap_store_kind = [],
      ap_secret = [], ap_key = []\<rparr> ''https://git/shop''"

lemma rendered: "ap_image p \<noteq> [] \<Longrightarrow> ap_gateway p \<noteq> [] \<Longrightarrow> \<not> isl (render_baseline c z token p url)"
  by (simp only: render_baseline_def if_False sum.disc not_False_eq_True)

lemma baseline_label_order_witness:
  "demo_render (demo_labelled\<lparr>cl_labels := [(''env'', ''zone''), (''zone'', ''shop'')]\<rparr>) = demo_render demo_labelled
   \<and> \<not> isl (demo_render demo_labelled)"
proof -
  have m: "mset (cl_labels demo_labelled) = mset [(''env'', ''zone''), (''zone'', ''shop'')]" by (simp add: demo_labelled_def)
  show ?thesis unfolding demo_render_def baseline_label_order [OF m] by (intro conjI refl rendered) simp_all
qed

end
