(* ===== verification/Caches.thy ===== *)
theory Caches
  imports Outbox
begin

text \<open>
  The key-value cache with expiry (internal/cache: cache.go, memory.go) behind the decision cache and
  the feature flags. The memory backend is a map with a bound on its entries; Redis (redis.go) is not
  under src/. The locale \<open>shared_cache\<close> is what the clients may rely on; it allows entries to be lost
  at any time, as both backends lose them.
\<close>

section \<open>The interface\<close>

record 's cache_ops =
  co_get :: "string \<Rightarrow> ('s, string option) dbm"
  co_set :: "string \<Rightarrow> string \<Rightarrow> int \<Rightarrow> ('s, unit) dbm"
  co_delete :: "string \<Rightarrow> ('s, unit) dbm"
  co_incr :: "string \<Rightarrow> ('s, int) dbm"

text \<open>\<open>strconv.FormatInt\<close>; \<open>strconv.ParseInt\<close> with base ten is \<open>atoi\<close>.\<close>

definition format_int :: "int \<Rightarrow> string" where
  "format_int n = (if n < 0 then CHR ''-'' # show_nat (nat (- n)) else show_nat (nat n))"

lemma format_int_nonneg: "0 \<le> n \<Longrightarrow> format_int n = show_nat (nat n)"
  by (simp add: format_int_def)

lemma format_int_no_colon: "CHR '':'' \<notin> set (format_int n)"
  using show_nat_no_colon by (simp add: format_int_def)

lemma digits_val_append: "digits_val acc (xs @ ys) = digits_val (digits_val acc xs) ys"
  by (induction acc xs rule: digits_val.induct) simp_all

lemma digits_val_show_nat: "digits_val 0 (show_nat n) = int n"
proof (induction n rule: show_nat.induct)
  case (1 n)
  have d: "digit_val (digit_char k) = int k" if "k < 10" for k
    using of_digit_char [OF that] by (simp add: digit_val_def) (metis of_char_of of_nat_of_char of_nat_numeral of_nat_add add_diff_cancel_left')
  show ?case
  proof (cases "n < 10")
    case True
    then show ?thesis by (simp add: show_nat_less d)
  next
    case False
    have "10 * int (n div 10) + int (n mod 10) = int n"
      by (metis mult_div_mod_eq of_nat_add of_nat_mult of_nat_numeral)
    with False show ?thesis using 1 by (simp add: show_nat_ge digits_val_append d)
  qed
qed

lemma atoi_show_nat: "atoi (show_nat n) = (if int n < 2 ^ 63 then Some (int n) else None)"
proof -
  obtain c cs where s: "show_nat n = c # cs" using show_nat_nonempty by (cases "show_nat n") auto
  have "is_digit c" using show_nat_digits [of n] s by simp
  then have "c \<noteq> CHR ''-''" "c \<noteq> CHR ''+''" by (auto simp: is_digit_def)
  then show ?thesis using show_nat_digits [of n] digits_val_show_nat [of n] by (simp add: atoi_def s)
qed

text \<open>
  What the clients of the cache share: keys carry the generation a counter gives, which is zero when the
  counter is absent, and a truth value is stored as a digit.
\<close>

definition gen_str :: "string option \<Rightarrow> string" where
  "gen_str v = (case v of None \<Rightarrow> ''0'' | Some g \<Rightarrow> if g = [] then ''0'' else g)"

definition bool_val :: "bool \<Rightarrow> string" where
  "bool_val b = (if b then ''1'' else ''0'')"

lemma split_first:
  assumes "xs @ c # ys = xs' @ c # ys'" and "c \<notin> set xs" and "c \<notin> set xs'"
  shows "xs = xs' \<and> ys = ys'"
  using assms
proof (induction xs arbitrary: xs')
  case Nil
  then show ?case by (cases xs') auto
next
  case (Cons x xs)
  then show ?case by (cases xs') auto
qed

lemma split_last:
  assumes "xs @ c # ys = xs' @ c # ys'" and "c \<notin> set ys" and "c \<notin> set ys'"
  shows "xs = xs' \<and> ys = ys'"
proof -
  from assms(1) have "rev ys @ c # rev xs = rev ys' @ c # rev xs'" by (metis append.assoc append_Cons append_Nil rev.simps(2) rev_append)
  from split_first [OF this] assms(2,3) show ?thesis by simp
qed

section \<open>The memory backend\<close>

record mem_entry =
  me_value :: string
  me_expires :: "int option"

text \<open>
  Go iterates a map in a random order: the supply \<open>mc_rand\<close> says which entry an eviction meets.
\<close>

record cache_db = db +
  mc_entries :: "(string \<times> mem_entry) list"
  mc_max :: int
  mc_rand :: "nat \<Rightarrow> nat"
  mc_draws :: nat

definition DefaultMemoryMaxEntries :: int where "DefaultMemoryMaxEntries = 10000"

definition memory_bound :: "int \<Rightarrow> int" where
  "memory_bound n = (if n \<le> 0 then DefaultMemoryMaxEntries else n)"

definition me_expired :: "int \<Rightarrow> mem_entry \<Rightarrow> bool" where
  "me_expired t e = (case me_expires e of None \<Rightarrow> False | Some x \<Rightarrow> x < t)"

definition sweep_entries :: "int \<Rightarrow> (string \<times> mem_entry) list \<Rightarrow> (string \<times> mem_entry) list" where
  "sweep_entries t es = filter (\<lambda>(k, e). \<not> me_expired t e) es"

definition delete_key :: "string \<Rightarrow> (string \<times> mem_entry) list \<Rightarrow> (string \<times> mem_entry) list" where
  "delete_key k es = filter (\<lambda>x. fst x \<noteq> k) es"

lemma delete_key_shorter: "es \<noteq> [] \<Longrightarrow> length (delete_key (fst (es ! (i mod length es))) es) < length es"
  unfolding delete_key_def by (rule length_filter_less [where x = "es ! (i mod length es)"]) simp_all

text \<open>A bound below one, for which the loop would spin, is excluded by \<open>NewMemory\<close>.\<close>

function evict :: "(nat \<Rightarrow> nat) \<Rightarrow> int \<Rightarrow> nat \<Rightarrow> (string \<times> mem_entry) list \<Rightarrow> (string \<times> mem_entry) list \<times> nat" where
  "evict rand m n es = (if int (length es) < m \<or> es = [] then (es, n)
     else evict rand m (Suc n) (delete_key (fst (es ! (rand n mod length es))) es))"
  by pat_completeness auto

termination
  by (relation "measure (\<lambda>(rand, m, n, es). length es)") (auto simp: delete_key_shorter)

declare evict.simps [simp del]

definition mem_get :: "string \<Rightarrow> ('a cache_db_scheme, string option) dbm" where
  "mem_get k = (\<lambda>s. case map_of (mc_entries s) k of
     None \<Rightarrow> (Inr None, s)
   | Some e \<Rightarrow> if me_expired (clock s) e then (Inr None, s\<lparr>mc_entries := delete_key k (mc_entries s)\<rparr>)
       else (Inr (Some (me_value e)), s))"

definition mem_set :: "string \<Rightarrow> string \<Rightarrow> int \<Rightarrow> ('a cache_db_scheme, unit) dbm" where
  "mem_set k v ttl = (\<lambda>s.
     let es = mc_entries s;
         full = k \<notin> fst ` set es \<and> mc_max s \<le> int (length es);
         (es', n) = (if full then evict (mc_rand s) (mc_max s) (mc_draws s) (sweep_entries (clock s) es) else (es, mc_draws s));
         e = \<lparr>me_value = v, me_expires = (if 0 < ttl then Some (clock s + ttl) else None)\<rparr>
     in (Inr (), s\<lparr>mc_entries := (k, e) # delete_key k es', mc_draws := n\<rparr>))"

definition mem_delete :: "string \<Rightarrow> ('a cache_db_scheme, unit) dbm" where
  "mem_delete k = modify (\<lambda>s. s\<lparr>mc_entries := delete_key k (mc_entries s)\<rparr>)"

definition mem_incr :: "string \<Rightarrow> ('a cache_db_scheme, int) dbm" where
  "mem_incr k = (\<lambda>s.
     let old = (case map_of (mc_entries s) k of
          None \<Rightarrow> Some 0 | Some e \<Rightarrow> if me_expired (clock s) e then Some 0 else atoi (me_value e))
     in case old of
          None \<Rightarrow> (Inl (ErrMsg ''cache: increment non-integer key''), s)
        | Some n \<Rightarrow> (let n' = wrap64 (n + 1) in (Inr n',
            s\<lparr>mc_entries := (k, \<lparr>me_value = format_int n', me_expires = None\<rparr>) # delete_key k (mc_entries s)\<rparr>)))"

definition memory_ops :: "'a cache_db_scheme cache_ops" where
  "memory_ops = \<lparr>co_get = mem_get, co_set = mem_set, co_delete = mem_delete, co_incr = mem_incr\<rparr>"

text \<open>\<open>Len\<close>: the live entries, after a sweep.\<close>

definition mem_len :: "('a cache_db_scheme, nat) dbm" where
  "mem_len = (\<lambda>s. let es = sweep_entries (clock s) (mc_entries s) in (Inr (length es), s\<lparr>mc_entries := es\<rparr>))"

text \<open>\<open>New\<close> chooses the backend; \<open>connect\<close> is the connection to Redis.\<close>

definition new_cache :: "string \<Rightarrow> err + 's cache_ops \<Rightarrow> 's cache_ops \<Rightarrow> err + 's cache_ops" where
  "new_cache backend connect memory =
     (if backend = [] \<or> backend = ''memory'' then Inr memory
      else if backend = ''redis'' then connect
      else Inl (ErrMsg ''cache: unknown backend''))"

section \<open>The contract\<close>

text \<open>
  \<open>live\<close> gives the unexpired entries with their expiry. A statement on the cache changes only the
  cache; a read tells what is live; a write stores its entry or not, and may lose others. An
  expired entry is not live.
\<close>

type_synonym 's live = "'s \<Rightarrow> string \<Rightarrow> (string \<times> int option) option"

definition cur_count :: "'s live \<Rightarrow> string \<Rightarrow> 's \<Rightarrow> int option" where
  "cur_count live k s = (case live s k of None \<Rightarrow> Some 0 | Some (v, _) \<Rightarrow> atoi v)"

definition stamped :: "int \<Rightarrow> int \<Rightarrow> int option" where
  "stamped now ttl = (if 0 < ttl then Some (now + ttl) else None)"

locale shared_cache =
  fixes ops :: "'s cache_ops" and live :: "'s live" and now :: "'s \<Rightarrow> int"
    and ok :: "'s \<Rightarrow> bool" and same :: "'s \<Rightarrow> 's \<Rightarrow> bool"
  assumes get: "ok s \<Longrightarrow> co_get ops k s = (r, s') \<Longrightarrow>
      ok s' \<and> same s s' \<and> live s' = live s \<and> (\<forall>v. r = Inr v \<longrightarrow> v = map_option fst (live s k))"
    and set: "ok s \<Longrightarrow> co_set ops k v ttl s = (w, s') \<Longrightarrow>
      ok s' \<and> same s s' \<and> (\<forall>k' x. live s' k' = Some x \<longrightarrow> live s k' = Some x \<or> k' = k \<and> x = (v, stamped (now s) ttl))"
    and incr: "ok s \<Longrightarrow> co_incr ops k s = (c, s') \<Longrightarrow>
      ok s' \<and> same s s' \<and> (\<forall>k' x. live s' k' = Some x \<longrightarrow> live s k' = Some x
        \<or> k' = k \<and> (\<exists>n. cur_count live k s = Some n \<and> x = (format_int (wrap64 (n + 1)), None)))
      \<and> (\<forall>n. c = Inr n \<longrightarrow> live s' k = Some (format_int n, None) \<and> (\<exists>m. cur_count live k s = Some m \<and> n = wrap64 (m + 1)))"
    and same: "same s s' \<Longrightarrow> now s' = now s"
    and fresh: "live s k = Some (v, Some x) \<Longrightarrow> now s \<le> x"

section \<open>The memory backend keeps the contract\<close>

definition mem_live :: "'a cache_db_scheme live" where
  "mem_live s k = (case map_of (mc_entries s) k of None \<Rightarrow> None
     | Some e \<Rightarrow> if me_expired (clock s) e then None else Some (me_value e, me_expires e))"

definition mem_ok :: "'a cache_db_scheme \<Rightarrow> bool" where
  "mem_ok s \<longleftrightarrow> distinct (map fst (mc_entries s))"

text \<open>Only the cache moved.\<close>

definition cache_moved :: "'a cache_db_scheme \<Rightarrow> 'a cache_db_scheme \<Rightarrow> bool" where
  "cache_moved s s' \<longleftrightarrow> s' = s\<lparr>mc_entries := mc_entries s', mc_draws := mc_draws s'\<rparr>"

lemma cache_movedI [intro, simp]: "cache_moved s (s\<lparr>mc_entries := es, mc_draws := n\<rparr>)"
  by (simp add: cache_moved_def)

lemma cache_moved_entries [intro, simp]: "cache_moved s (s\<lparr>mc_entries := es\<rparr>)"
  by (simp add: cache_moved_def)

lemma cache_moved_refl [intro, simp]: "cache_moved s s"
  by (simp add: cache_moved_def)

lemma cache_moved_clock: "cache_moved s s' \<Longrightarrow> clock s' = clock s"
  unfolding cache_moved_def by (drule arg_cong [where f = clock]) simp

lemma map_of_delete_key: "map_of (delete_key k es) k' = (if k' = k then None else map_of es k')"
  by (induction es) (auto simp: delete_key_def)

lemma distinct_delete_key: "distinct (map fst es) \<Longrightarrow> distinct (map fst (delete_key k es)) \<and> k \<notin> fst ` set (delete_key k es)"
  by (auto simp: delete_key_def distinct_map_filter)

lemma evict_subset: "set (fst (evict rand m n es)) \<subseteq> set es \<and> (distinct (map fst es) \<longrightarrow> distinct (map fst (fst (evict rand m n es))))"
proof (induction rand m n es rule: evict.induct)
  case (1 rand m n es)
  show ?case
  proof (cases "int (length es) < m \<or> es = []")
    case True
    then show ?thesis by (simp add: evict.simps)
  next
    case False
    let ?k = "fst (es ! (rand n mod length es))"
    have "set (delete_key ?k es) \<subseteq> set es" by (auto simp: delete_key_def)
    with 1 [OF False] distinct_delete_key [of es ?k] show ?thesis
      by (subst (1 2) evict.simps) (use False in auto)
  qed
qed

lemma map_of_subset: "set es' \<subseteq> set es \<Longrightarrow> distinct (map fst es) \<Longrightarrow> map_of es' k = Some e \<Longrightarrow> map_of es k = Some e"
  by (metis map_of_SomeD map_of_eq_Some_iff subsetD)

lemma live_subset:
  assumes "mem_ok s" and "set es \<subseteq> set (mc_entries s)" and "map_of es k = Some e" and "\<not> me_expired (clock s) e"
  shows "mem_live s k = Some (me_value e, me_expires e)"
  using map_of_subset [OF assms(2) _ assms(3)] assms(1,4) by (simp add: mem_live_def mem_ok_def)

lemma memory_get:
  assumes "mem_ok s" and "mem_get k s = (r, s')"
  shows "mem_ok s' \<and> cache_moved s s' \<and> mem_live s' = mem_live s \<and> (\<forall>v. r = Inr v \<longrightarrow> v = map_option fst (mem_live s k))"
proof (cases "map_of (mc_entries s) k")
  case None
  with assms show ?thesis by (auto simp: mem_get_def mem_live_def)
next
  case (Some e)
  show ?thesis
  proof (cases "me_expired (clock s) e")
    case True
    have "mem_live (s\<lparr>mc_entries := delete_key k (mc_entries s)\<rparr>) k' = mem_live s k'" for k'
      using Some True by (auto simp: mem_live_def map_of_delete_key split: option.split)
    then have "mem_live (s\<lparr>mc_entries := delete_key k (mc_entries s)\<rparr>) = mem_live s" by (rule ext)
    moreover have "mem_ok (s\<lparr>mc_entries := delete_key k (mc_entries s)\<rparr>)"
      using assms(1) distinct_delete_key by (auto simp: mem_ok_def)
    ultimately show ?thesis using assms(2) Some True by (auto simp: mem_get_def mem_live_def)
  next
    case False
    with assms Some show ?thesis by (auto simp: mem_get_def mem_live_def)
  qed
qed

lemma memory_set:
  assumes "mem_ok s" and "mem_set k v ttl s = (r, s')"
  shows "mem_ok s' \<and> cache_moved s s' \<and>
    (\<forall>k' x. mem_live s' k' = Some x \<longrightarrow> mem_live s k' = Some x \<or> k' = k \<and> x = (v, stamped (clock s) ttl))"
proof -
  obtain es n where s': "s' = s\<lparr>mc_entries := (k, \<lparr>me_value = v, me_expires = stamped (clock s) ttl\<rparr>) # delete_key k es, mc_draws := n\<rparr>"
    and sub: "set es \<subseteq> set (mc_entries s)" and dist: "distinct (map fst es)"
  proof -
    let ?sw = "sweep_entries (clock s) (mc_entries s)"
    have sw: "set ?sw \<subseteq> set (mc_entries s)" "distinct (map fst ?sw)"
      using assms(1) by (auto simp: sweep_entries_def mem_ok_def distinct_map_filter)
    from assms(2) consider
        "s' = s\<lparr>mc_entries := (k, \<lparr>me_value = v, me_expires = stamped (clock s) ttl\<rparr>) # delete_key k (fst (evict (mc_rand s) (mc_max s) (mc_draws s) ?sw)),
           mc_draws := snd (evict (mc_rand s) (mc_max s) (mc_draws s) ?sw)\<rparr>"
      | "s' = s\<lparr>mc_entries := (k, \<lparr>me_value = v, me_expires = stamped (clock s) ttl\<rparr>) # delete_key k (mc_entries s), mc_draws := mc_draws s\<rparr>"
      by (auto simp: mem_set_def stamped_def Let_def split: if_splits prod.splits)
    then show ?thesis
    proof cases
      case 1
      then show ?thesis using evict_subset [of "mc_rand s" "mc_max s" "mc_draws s" ?sw] sw by (intro that [OF 1]) auto
    next
      case 2
      then show ?thesis using assms(1) by (intro that [OF 2]) (auto simp: mem_ok_def)
    qed
  qed
  have "mem_ok s'" using distinct_delete_key [OF dist, of k] by (auto simp: s' mem_ok_def)
  moreover have others: "mem_live s k' = Some x" if "mem_live s' k' = Some x" "k' \<noteq> k" for k' x
  proof -
    from that obtain e where e: "map_of es k' = Some e" "\<not> me_expired (clock s) e" "x = (me_value e, me_expires e)"
      by (auto simp: s' mem_live_def map_of_delete_key split: option.splits if_splits)
    with live_subset [OF assms(1) sub] show ?thesis by simp
  qed
  moreover have own: "x = (v, stamped (clock s) ttl)" if "mem_live s' k = Some x" for x
    using that by (auto simp: s' mem_live_def split: if_splits)
  ultimately show ?thesis by (metis cache_movedI s')
qed

lemma memory_incr:
  assumes "mem_ok s" and "mem_incr k s = (r, s')"
  shows "mem_ok s' \<and> cache_moved s s' \<and> (\<forall>k' x. mem_live s' k' = Some x \<longrightarrow> mem_live s k' = Some x
      \<or> k' = k \<and> (\<exists>n. cur_count mem_live k s = Some n \<and> x = (format_int (wrap64 (n + 1)), None)))
    \<and> (\<forall>n. r = Inr n \<longrightarrow> mem_live s' k = Some (format_int n, None) \<and> (\<exists>m. cur_count mem_live k s = Some m \<and> n = wrap64 (m + 1)))"
proof -
  have old: "(case map_of (mc_entries s) k of
      None \<Rightarrow> Some 0 | Some e \<Rightarrow> if me_expired (clock s) e then Some 0 else atoi (me_value e)) = cur_count mem_live k s"
    by (simp add: cur_count_def mem_live_def split: option.split)
  show ?thesis
  proof (cases "cur_count mem_live k s")
    case None
    with assms show ?thesis unfolding mem_incr_def old by auto
  next
    case (Some n)
    with assms(2) have s': "s' = s\<lparr>mc_entries := (k, \<lparr>me_value = format_int (wrap64 (n + 1)), me_expires = None\<rparr>) # delete_key k (mc_entries s)\<rparr>"
      and r: "r = Inr (wrap64 (n + 1))" unfolding mem_incr_def old by (auto simp: Let_def)
    have "mem_ok s'" using assms(1) distinct_delete_key [of "mc_entries s" k] by (auto simp: s' mem_ok_def)
    then show ?thesis unfolding r Some
      by (auto simp: s' mem_live_def map_of_delete_key me_expired_def split: option.splits if_splits)
  qed
qed

lemma mem_live_fresh: "mem_live s k = Some (v, Some x) \<Longrightarrow> clock s \<le> x"
  by (auto simp: mem_live_def me_expired_def split: option.splits if_splits)

interpretation memory: shared_cache "memory_ops :: 'a cache_db_scheme cache_ops" mem_live clock mem_ok cache_moved
proof (unfold_locales, unfold memory_ops_def cache_ops.simps, goal_cases)
  case (1 s k r s') then show ?case by (rule memory_get)
next
  case (2 s k v ttl w s') then show ?case by (rule memory_set)
next
  case (3 s k c s') then show ?case by (rule memory_incr)
next
  case (4 s s') then show ?case by (rule cache_moved_clock)
next
  case (5 s k v x) then show ?case by (rule mem_live_fresh)
qed

end
