(* ===== verification/DecisionCache.thy ===== *)
theory DecisionCache
  imports Caches TupleSync
begin

text \<open>
  The cache of permission decisions (internal/authz/cachepep.go) in front of OpenFGA: the cached
  authorizer, the store that invalidates it after every write, and their concurrent use as a step
  relation in which every call to the cache, to OpenFGA and to the tuple store is a step of its own.
\<close>

section \<open>The authorizer and the store\<close>

type_synonym fga_query = "string \<times> string \<times> string"

definition pepGenerationKey :: string where
  "pepGenerationKey = ''inari:fga:pep:gen''"

fun pep_key :: "string \<Rightarrow> fga_query \<Rightarrow> string" where
  "pep_key g (user, relation, obj) = ''inari:fga:pep:'' @ g @ '':'' @ user @ ''|'' @ relation @ ''|'' @ obj"

text \<open>The phases of \<open>Check\<close>. A cache error is logged and the check goes on without the cache.\<close>

definition pep_key_phase :: "'s cache_ops \<Rightarrow> fga_query \<Rightarrow> ('s, string option) dbm" where
  "pep_key_phase ops q = catchE (bindE (co_get ops pepGenerationKey) (\<lambda>v. ret (Some (pep_key (gen_str v) q)))) (\<lambda>_. ret None)"

definition pep_lookup :: "'s cache_ops \<Rightarrow> string \<Rightarrow> ('s, bool option) dbm" where
  "pep_lookup ops key = catchE (bindE (co_get ops key) (\<lambda>v. ret (map_option (\<lambda>v. v = ''1'') v))) (\<lambda>_. ret None)"

definition pep_fill :: "'s cache_ops \<Rightarrow> int \<Rightarrow> string \<Rightarrow> bool \<Rightarrow> ('s, unit) dbm" where
  "pep_fill ops ttl key b = catchE (co_set ops key (bool_val b) ttl) (\<lambda>_. ret ())"

definition cached_check :: "'s cache_ops \<Rightarrow> int \<Rightarrow> (fga_query \<Rightarrow> ('s, bool) dbm) \<Rightarrow> fga_query \<Rightarrow> ('s, bool) dbm" where
  "cached_check ops ttl inner q = bindE (pep_key_phase ops q) (\<lambda>k. case k of
     None \<Rightarrow> inner q
   | Some key \<Rightarrow> bindE (pep_lookup ops key) (\<lambda>hit. case hit of
       Some b \<Rightarrow> ret b
     | None \<Rightarrow> bindE (inner q) (\<lambda>b. thenE (pep_fill ops ttl key b) (ret b))))"

definition bump_key :: "'s cache_ops \<Rightarrow> string \<Rightarrow> ('s, unit) dbm" where
  "bump_key ops key = catchE (bindE (co_incr ops key) (\<lambda>_. ret ())) (\<lambda>_. ret ())"

definition invalidating_store :: "'s cache_ops \<Rightarrow> 's tuple_ops \<Rightarrow> 's tuple_ops" where
  "invalidating_store ops st = st\<lparr>to_write := (\<lambda>ts. thenE (to_write st ts) (bump_key ops pepGenerationKey)),
     to_delete := (\<lambda>ts. thenE (to_delete st ts) (bump_key ops pepGenerationKey))\<rparr>"

section \<open>Concurrent checks and writes\<close>

text \<open>
  Where a process stands in a check: it holds the key, missed (without a key when the counter could
  not be read), or holds the decision OpenFGA gave it at a time; then it answers at a time.
\<close>

datatype phase =
    Idle
  | Keyed fga_query string
  | Missed fga_query "string option"
  | Fresh fga_query string bool int
  | Answered fga_query bool int

text \<open>
  \<open>d\<close> bounds the time between the decision and its storing; \<open>later\<close> lets time pass. The
  queries whose relation and object hold no bar are those whose keys tell them apart.
\<close>

fun plain_query :: "fga_query \<Rightarrow> bool" where
  "plain_query (user, relation, obj) \<longleftrightarrow> CHR ''|'' \<notin> set relation \<and> CHR ''|'' \<notin> set obj"

type_synonym 's pep_config = "'s \<times> (nat \<Rightarrow> phase)"

record 's pep_env =
  pe_ops :: "'s cache_ops"
  pe_ttl :: int
  pe_inner :: "fga_query \<Rightarrow> ('s, bool) dbm"
  pe_store :: "'s tuple_ops"
  pe_now :: "'s \<Rightarrow> int"
  pe_later :: "int \<Rightarrow> 's \<Rightarrow> 's"
  pe_delay :: int

inductive pep_step :: "'s pep_env \<Rightarrow> 's pep_config \<Rightarrow> 's pep_config \<Rightarrow> bool" for env where
  keys: "P p = Idle \<Longrightarrow> plain_query q \<Longrightarrow> pep_key_phase (pe_ops env) q s = (Inr k, s') \<Longrightarrow>
    pep_step env (s, P) (s', P(p := case k of None \<Rightarrow> Missed q None | Some key \<Rightarrow> Keyed q key))"
| looks: "P p = Keyed q key \<Longrightarrow> pep_lookup (pe_ops env) key s = (Inr h, s') \<Longrightarrow>
    pep_step env (s, P) (s', P(p := case h of None \<Rightarrow> Missed q (Some key) | Some b \<Rightarrow> Answered q b (pe_now env s')))"
| asks: "P p = Missed q k \<Longrightarrow> pe_inner env q s = (r, s') \<Longrightarrow>
    pep_step env (s, P) (s', P(p := case r of Inl _ \<Rightarrow> Idle
      | Inr b \<Rightarrow> (case k of None \<Rightarrow> Answered q b (pe_now env s) | Some key \<Rightarrow> Fresh q key b (pe_now env s))))"
| fills: "P p = Fresh q key b t \<Longrightarrow> pe_now env s \<le> t + pe_delay env \<Longrightarrow>
    pep_fill (pe_ops env) (pe_ttl env) key b s = (r, s') \<Longrightarrow> pep_step env (s, P) (s', P(p := Answered q b (pe_now env s)))"
| rests: "P p = Answered q b t \<Longrightarrow> pep_step env (s, P) (s, P(p := Idle))"
| writes: "w = to_write (pe_store env) ts \<or> w = to_delete (pe_store env) ts \<Longrightarrow> w s = (r, s') \<Longrightarrow> pep_step env (s, P) (s', P)"
| bumps: "bump_key (pe_ops env) pepGenerationKey s = (r, s') \<Longrightarrow> pep_step env (s, P) (s', P)"
| waits: "0 \<le> x \<Longrightarrow> pep_step env (s, P) (pe_later env x s, P)"

inductive_cases pep_stepE: "pep_step env (s, P) c"

abbreviation pep_run :: "'s pep_env \<Rightarrow> 's pep_config \<Rightarrow> 's pep_config \<Rightarrow> bool" where
  "pep_run env \<equiv> (pep_step env)\<^sup>*\<^sup>*"

text \<open>
  What is known of OpenFGA and the tuple store: \<open>truth\<close> is what the tuples decide, a check that
  answers tells it and changes nothing, and none of them touches the cache or the clock.
\<close>

definition openfga_like :: "'s pep_env \<Rightarrow> 's live \<Rightarrow> ('s \<Rightarrow> bool) \<Rightarrow> ('s \<Rightarrow> fga_query \<Rightarrow> bool) \<Rightarrow> bool" where
  "openfga_like env live ok truth \<longleftrightarrow>
     (\<forall>q s r s'. pe_inner env q s = (r, s') \<longrightarrow> truth s' = truth s \<and> (\<forall>b. r = Inr b \<longrightarrow> b = truth s q)
        \<and> live s' = live s \<and> pe_now env s' = pe_now env s \<and> (ok s \<longrightarrow> ok s'))
   \<and> (\<forall>ts w s r s'. w = to_write (pe_store env) ts \<or> w = to_delete (pe_store env) ts \<longrightarrow> w s = (r, s') \<longrightarrow>
        live s' = live s \<and> pe_now env s' = pe_now env s \<and> (ok s \<longrightarrow> ok s'))"

definition clock_like :: "'s pep_env \<Rightarrow> 's live \<Rightarrow> ('s \<Rightarrow> bool) \<Rightarrow> ('s \<Rightarrow> fga_query \<Rightarrow> bool) \<Rightarrow> bool" where
  "clock_like env live ok truth \<longleftrightarrow> (\<forall>x s. 0 \<le> x \<longrightarrow> truth (pe_later env x s) = truth s \<and> (ok s \<longrightarrow> ok (pe_later env x s))
     \<and> (\<forall>k y. live (pe_later env x s) k = Some y \<longrightarrow> live s k = Some y) \<and> pe_now env (pe_later env x s) = pe_now env s + x)"

section \<open>Keys\<close>

lemma pep_key_inj:
  assumes "pep_key g q = pep_key g' q'" and "CHR '':'' \<notin> set g" "CHR '':'' \<notin> set g'" and "plain_query q" "plain_query q'"
  shows "g = g' \<and> q = q'"
proof -
  obtain u r x u' r' x' where q: "q = (u, r, x)" "q' = (u', r', x')" by (metis prod_cases3)
  from assms(1) have "g @ CHR '':'' # (u @ ''|'' @ r @ ''|'' @ x) = g' @ CHR '':'' # (u' @ ''|'' @ r' @ ''|'' @ x')"
    by (simp add: q)
  from split_first [OF this assms(2,3)] have g: "g = g'" and "(u @ ''|'' @ r) @ CHR ''|'' # x = (u' @ ''|'' @ r') @ CHR ''|'' # x'"
    by simp_all
  from split_last [OF this(2)] assms(4,5) have "x = x'" and "u @ CHR ''|'' # r = u' @ CHR ''|'' # r'" by (simp_all add: q)
  with split_last [OF this(2)] assms(4,5) g show ?thesis by (simp add: q)
qed

lemma pep_key_not_counter: "pep_key g q \<noteq> pepGenerationKey"
  by (cases q) (auto simp: pepGenerationKey_def append_eq_Cons_conv Cons_eq_append_conv)

section \<open>Where an answer comes from\<close>

text \<open>A decision that was the truth at time \<open>t\<close>, at a moment of the run from \<open>c0\<close> to \<open>c\<close>.\<close>

definition seen ::
  "'s pep_env \<Rightarrow> ('s \<Rightarrow> fga_query \<Rightarrow> bool) \<Rightarrow> 's pep_config \<Rightarrow> 's pep_config \<Rightarrow> fga_query \<Rightarrow> bool \<Rightarrow> int \<Rightarrow> bool" where
  "seen env truth c0 c q b t \<longleftrightarrow> (\<exists>c1. pep_run env c0 c1 \<and> pep_run env c1 c \<and> truth (fst c1) q = b \<and> pe_now env (fst c1) = t)"

lemma seen_now: "pep_run env c0 c \<Longrightarrow> seen env truth c0 c q (truth (fst c) q) (pe_now env (fst c))"
  unfolding seen_def by blast

lemma seen_step: "seen env truth c0 c q b t \<Longrightarrow> pep_step env c c' \<Longrightarrow> seen env truth c0 c' q b t"
  unfolding seen_def by (blast intro: rtranclp.rtrancl_into_rtrancl)

text \<open>The keys of the generations \<open>G\<close>.\<close>

definition keyed :: "string set \<Rightarrow> fga_query \<Rightarrow> string \<Rightarrow> bool" where
  "keyed G q key \<longleftrightarrow> plain_query q \<and> (\<exists>g \<in> G. CHR '':'' \<notin> set g \<and> key = pep_key g q)"

lemma keyed_same: "keyed G q key \<Longrightarrow> keyed G' q' key \<Longrightarrow> q' = q"
  unfolding keyed_def using pep_key_inj by blast

lemma keyed_not_counter: "\<not> keyed G q pepGenerationKey"
  unfolding keyed_def using pep_key_not_counter by metis

lemma keyed_mono: "keyed G q key \<Longrightarrow> G \<subseteq> G' \<Longrightarrow> keyed G' q key"
  unfolding keyed_def by blast

lemma keyed_UNIV: "keyed G q key \<Longrightarrow> keyed UNIV q key"
  by (rule keyed_mono) simp_all

text \<open>What holds of a process in \<open>Q\<close>, and of every entry of the generations \<open>G\<close>.\<close>

definition phase_seen ::
  "'s pep_env \<Rightarrow> ('s \<Rightarrow> fga_query \<Rightarrow> bool) \<Rightarrow> string set \<Rightarrow> bool \<Rightarrow> 's pep_config \<Rightarrow> 's pep_config \<Rightarrow> phase \<Rightarrow> bool" where
  "phase_seen env truth G inQ c0 c ph = (case ph of
     Idle \<Rightarrow> True
   | Keyed q key \<Rightarrow> keyed UNIV q key \<and> (inQ \<longrightarrow> keyed G q key)
   | Missed q k \<Rightarrow> (\<forall>key. k = Some key \<longrightarrow> keyed UNIV q key \<and> (inQ \<longrightarrow> keyed G q key))
   | Fresh q key b t \<Rightarrow> keyed UNIV q key \<and> (inQ \<longrightarrow> keyed G q key) \<and> (keyed G q key \<longrightarrow> seen env truth c0 c q b t)
   | Answered q b t \<Rightarrow> inQ \<longrightarrow> (\<exists>t1. seen env truth c0 c q b t1 \<and> t \<le> t1 + pe_delay env + pe_ttl env))"

definition entry_seen ::
  "'s pep_env \<Rightarrow> ('s \<Rightarrow> fga_query \<Rightarrow> bool) \<Rightarrow> string set \<Rightarrow> 's pep_config \<Rightarrow> 's pep_config \<Rightarrow> string \<Rightarrow> string \<times> int option \<Rightarrow> bool" where
  "entry_seen env truth G c0 c key y \<longleftrightarrow> (\<forall>q. keyed G q key \<longrightarrow> (\<exists>t e. snd y = Some e \<and> e \<le> t + pe_delay env + pe_ttl env
     \<and> seen env truth c0 c q (fst y = ''1'') t))"

definition entries_seen ::
  "'s pep_env \<Rightarrow> 's live \<Rightarrow> ('s \<Rightarrow> fga_query \<Rightarrow> bool) \<Rightarrow> string set \<Rightarrow> 's pep_config \<Rightarrow> 's pep_config \<Rightarrow> bool" where
  "entries_seen env live truth G c0 c \<longleftrightarrow> (\<forall>key y. live (fst c) key = Some y \<longrightarrow> entry_seen env truth G c0 c key y)"

definition all_seen ::
  "'s pep_env \<Rightarrow> 's live \<Rightarrow> ('s \<Rightarrow> bool) \<Rightarrow> ('s \<Rightarrow> fga_query \<Rightarrow> bool) \<Rightarrow> string set \<Rightarrow> nat set \<Rightarrow> 's pep_config \<Rightarrow> 's pep_config \<Rightarrow> bool" where
  "all_seen env live ok truth G Q c0 c \<longleftrightarrow> ok (fst c) \<and> entries_seen env live truth G c0 c
     \<and> (\<forall>p. phase_seen env truth G (p \<in> Q) c0 c (snd c p))"

lemma phase_seen_step: "phase_seen env truth G inQ c0 c ph \<Longrightarrow> pep_step env c c' \<Longrightarrow> phase_seen env truth G inQ c0 c' ph"
  unfolding phase_seen_def by (cases ph) (auto intro: seen_step)

lemma entry_seen_step: "entry_seen env truth G c0 c key y \<Longrightarrow> pep_step env c c' \<Longrightarrow> entry_seen env truth G c0 c' key y"
  unfolding entry_seen_def using seen_step by metis

text \<open>Every entry of the new cache is an old one or one whose decision was seen.\<close>

lemma all_seen_step:
  assumes "all_seen env live ok truth G Q c0 c" and "pep_step env c c'" and "ok (fst c')"
    and "snd c' = snd c \<or> (\<exists>p ph. snd c' = (snd c)(p := ph) \<and> phase_seen env truth G (p \<in> Q) c0 c' ph)"
    and "\<And>key y. live (fst c') key = Some y \<Longrightarrow> live (fst c) key = Some y \<or> entry_seen env truth G c0 c' key y"
  shows "all_seen env live ok truth G Q c0 c'"
  unfolding all_seen_def
proof (intro conjI allI)
  show "ok (fst c')" by fact
  show "entries_seen env live truth G c0 c'"
    using assms(1,5) entry_seen_step [OF _ assms(2)] unfolding entries_seen_def all_seen_def by metis
  show "phase_seen env truth G (p \<in> Q) c0 c' (snd c' p)" for p
  proof -
    have old: "phase_seen env truth G (p \<in> Q) c0 c' (snd c p)"
      using assms(1) by (intro phase_seen_step [OF _ assms(2)]) (simp add: all_seen_def)
    from assms(4) show ?thesis
    proof
      assume "snd c' = snd c"
      with old show ?thesis by simp
    next
      assume "\<exists>p ph. snd c' = (snd c)(p := ph) \<and> phase_seen env truth G (p \<in> Q) c0 c' ph"
      with old show ?thesis by (auto simp del: split_paired_Ex)
    qed
  qed
qed

definition cur_gen :: "'s live \<Rightarrow> 's \<Rightarrow> string" where
  "cur_gen live s = gen_str (map_option fst (live s pepGenerationKey))"

section \<open>One step\<close>

lemma all_seen_upd:
  assumes "all_seen env live ok truth G Q c0 (s, P)" and "pep_step env (s, P) (s', P(p := ph))" and "ok s'"
    and "phase_seen env truth G (p \<in> Q) c0 (s', P(p := ph)) ph"
    and "\<And>key y. live s' key = Some y \<Longrightarrow> live s key = Some y \<or> entry_seen env truth G c0 (s', P(p := ph)) key y"
  shows "all_seen env live ok truth G Q c0 (s', P(p := ph))"
  by (rule all_seen_step [OF assms(1,2)]) (use assms(3-5) in auto)

lemma all_seen_keep:
  assumes "all_seen env live ok truth G Q c0 (s, P)" and "pep_step env (s, P) (s', P)" and "ok s'"
    and "\<And>key y. live s' key = Some y \<Longrightarrow> live s key = Some y \<or> entry_seen env truth G c0 (s', P) key y"
  shows "all_seen env live ok truth G Q c0 (s', P)"
  by (rule all_seen_step [OF assms(1,2)]) (use assms(3,4) in auto)

context shared_cache
begin

lemma key_phase:
  assumes "ok s" and "pep_key_phase ops q s = (Inr k, s')"
  shows "ok s' \<and> same s s' \<and> live s' = live s \<and> (k = None \<or> k = Some (pep_key (cur_gen live s) q))"
proof (cases "co_get ops pepGenerationKey s")
  case (Pair r s1)
  note g = get [OF assms(1) Pair]
  show ?thesis
  proof (cases r)
    case (Inl e)
    with assms(2) Pair g show ?thesis by (auto simp: pep_key_phase_def catchE_def bindE_def ret_def)
  next
    case (Inr v)
    with assms(2) Pair g show ?thesis by (auto simp: pep_key_phase_def catchE_def bindE_def ret_def cur_gen_def)
  qed
qed

lemma lookup_phase:
  assumes "ok s" and "pep_lookup ops key s = (Inr h, s')"
  shows "ok s' \<and> same s s' \<and> live s' = live s \<and> (\<forall>b. h = Some b \<longrightarrow> (\<exists>v x. live s key = Some (v, x) \<and> b = (v = ''1'')))"
proof (cases "co_get ops key s")
  case (Pair r s1)
  note g = get [OF assms(1) Pair]
  show ?thesis
  proof (cases r)
    case (Inl e)
    with assms(2) Pair g show ?thesis by (auto simp: pep_lookup_def catchE_def bindE_def ret_def)
  next
    case (Inr v)
    with assms(2) Pair g show ?thesis by (auto simp: pep_lookup_def catchE_def bindE_def ret_def)
  qed
qed

lemma fill_phase:
  assumes "ok s" and "pep_fill ops ttl key b s = (r, s')"
  shows "ok s' \<and> same s s' \<and> (\<forall>k' x. live s' k' = Some x \<longrightarrow> live s k' = Some x \<or> k' = key \<and> x = (bool_val b, stamped (now s) ttl))"
proof (cases "co_set ops key (bool_val b) ttl s")
  case (Pair w s1)
  from assms(2) Pair have "s' = s1" by (auto simp: pep_fill_def catchE_def ret_def split: sum.splits)
  with set [OF assms(1) Pair] show ?thesis by simp
qed

lemma bump_phase:
  assumes "ok s" and "bump_key ops key s = (r, s')"
  shows "ok s' \<and> same s s' \<and> (\<forall>k' x. live s' k' = Some x \<longrightarrow> live s k' = Some x
    \<or> k' = key \<and> (\<exists>n. cur_count live key s = Some n \<and> x = (format_int (wrap64 (n + 1)), None)))"
proof (cases "co_incr ops key s")
  case (Pair c s1)
  from assms(2) Pair have "s' = s1" by (auto simp: bump_key_def catchE_def bindE_def ret_def split: sum.splits)
  with incr [OF assms(1) Pair] show ?thesis by blast
qed

lemma step_seen:
  assumes env: "pe_ops env = ops" "pe_now env = now" "0 < pe_ttl env" "0 \<le> pe_delay env"
    and inner: "openfga_like env live ok truth" and clock: "clock_like env live ok truth"
    and truth: "\<And>s s'. same s s' \<Longrightarrow> truth s' = truth s"
    and gen: "cur_gen live (fst c) \<in> G" "CHR '':'' \<notin> set (cur_gen live (fst c))"
    and run: "pep_run env c0 c" and inv: "all_seen env live ok truth G Q c0 c" and st: "pep_step env c c'"
  shows "all_seen env live ok truth G Q c0 c'"
proof -
  obtain s P where c: "c = (s, P)" by fastforce
  have okc: "ok s" and phases: "phase_seen env truth G (p \<in> Q) c0 c (P p)" and entries: "entries_seen env live truth G c0 c" for p
    using inv by (auto simp: all_seen_def c)
  have phase: "phase_seen env truth G (p \<in> Q) c0 c' (P p)" for p
    by (rule phase_seen_step [OF phases st])
  note upd = all_seen_upd [OF inv [unfolded c]] and keep = all_seen_keep [OF inv [unfolded c]]
  show ?thesis using st unfolding c
  proof (cases rule: pep_step.cases)
    case (keys p q k s')
    note k = key_phase [OF okc keys(4) [unfolded env]]
    let ?ph = "case k of None \<Rightarrow> Missed q None | Some key \<Rightarrow> Keyed q key"
    have "phase_seen env truth G (p \<in> Q) c0 c' ?ph"
      using k gen keys(3) by (auto simp: c phase_seen_def keyed_def split: option.split)
    with k show ?thesis unfolding keys(1) by (intro upd [OF st [unfolded c keys(1)]]) simp_all
  next
    case (looks p q key h s')
    note k = lookup_phase [OF okc looks(3) [unfolded env]]
    let ?ph = "case h of None \<Rightarrow> Missed q (Some key) | Some b \<Rightarrow> Answered q b (pe_now env s')"
    have hit: "\<exists>t. seen env truth c0 c' q b t \<and> now s' \<le> t + pe_delay env + pe_ttl env" if "h = Some b" and "p \<in> Q" for b
    proof -
      from k that(1) obtain v x where l: "live s key = Some (v, x)" "b = (v = ''1'')" by blast
      from phases [of p] that(2) have "keyed G q key" by (simp add: looks(2) phase_seen_def)
      moreover have "entry_seen env truth G c0 c key (v, x)" using entries l(1) unfolding entries_seen_def c by simp
      ultimately obtain t e where te: "x = Some e" "e \<le> t + pe_delay env + pe_ttl env" "seen env truth c0 c q b t"
        unfolding entry_seen_def fst_conv snd_conv l(2) by blast
      from fresh [of s key v e] l(1) te(1) have "now s \<le> e" by simp
      moreover have "now s' = now s" using same k by blast
      ultimately show ?thesis using te(2) seen_step [OF te(3) st] by force
    qed
    have "phase_seen env truth G (p \<in> Q) c0 c' ?ph"
      using hit phases [of p] by (auto simp: looks(2) phase_seen_def env split: option.split)
    with k show ?thesis unfolding looks(1) by (intro upd [OF st [unfolded c looks(1)]]) simp_all
  next
    case (asks p q k r s')
    note i = inner [unfolded openfga_like_def, THEN conjunct1, rule_format, OF asks(3)]
    let ?ph = "case r of Inl _ \<Rightarrow> Idle
      | Inr b \<Rightarrow> (case k of None \<Rightarrow> Answered q b (pe_now env s) | Some key \<Rightarrow> Fresh q key b (pe_now env s))"
    have b: "seen env truth c0 c' q b (now s)" if "r = Inr b" for b
      using i that seen_step [OF seen_now [OF run, of truth q] st] by (simp add: c env)
    have "phase_seen env truth G (p \<in> Q) c0 c' ?ph"
    proof (cases r)
      case (Inr b')
      have "\<exists>t1. seen env truth c0 c' q b' t1 \<and> now s \<le> t1 + pe_delay env + pe_ttl env"
        using b [OF Inr] env(3,4) by (intro exI [of _ "now s"]) simp
      with b [OF Inr] phases [of p] show ?thesis unfolding Inr by (cases k) (simp_all add: asks(2) phase_seen_def env)
    qed (simp add: phase_seen_def)
    with i okc show ?thesis unfolding asks(1) by (intro upd [OF st [unfolded c asks(1)]]) simp_all
  next
    case (fills p q key b t r s')
    note f = fill_phase [OF okc fills(4) [unfolded env]]
    have ph: "keyed UNIV q key" "keyed G q key \<longrightarrow> seen env truth c0 c q b t" "p \<in> Q \<longrightarrow> keyed G q key"
      using phases [of p] by (auto simp: fills(2) phase_seen_def)
    have new: "entry_seen env truth G c0 c' key (bool_val b, stamped (now s) (pe_ttl env))"
      unfolding entry_seen_def
    proof (intro allI impI)
      fix q' assume q': "keyed G q' key"
      have "q' = q" by (rule keyed_same [OF ph(1) q'])
      with q' ph(2) have "seen env truth c0 c' q' b t" using seen_step [OF _ st] by blast
      then show "\<exists>t e. snd (bool_val b, stamped (now s) (pe_ttl env)) = Some e \<and> e \<le> t + pe_delay env + pe_ttl env
          \<and> seen env truth c0 c' q' (fst (bool_val b, stamped (now s) (pe_ttl env)) = ''1'') t"
        using fills(3) env by (cases b) (auto simp: stamped_def bool_val_def)
    qed
    have "phase_seen env truth G (p \<in> Q) c0 c' (Answered q b (pe_now env s))"
      unfolding phase_seen_def phase.case
    proof
      assume "p \<in> Q"
      with ph have "seen env truth c0 c' q b t" using seen_step [OF _ st] by blast
      moreover have "pe_now env s \<le> t + pe_delay env + pe_ttl env" using fills(3) env(3) by simp
      ultimately show "\<exists>t1. seen env truth c0 c' q b t1 \<and> pe_now env s \<le> t1 + pe_delay env + pe_ttl env" by blast
    qed
    with f new show ?thesis unfolding fills(1) by (intro upd [OF st [unfolded c fills(1)]]) metis+
  next
    case (rests p q b t)
    show ?thesis unfolding rests(1) by (intro upd [OF st [unfolded c rests(1)] okc]) (simp_all add: phase_seen_def)
  next
    case (writes w ts r s')
    note w = inner [unfolded openfga_like_def, THEN conjunct2, rule_format, OF writes(2,3)]
    with okc show ?thesis unfolding writes(1) by (intro keep [OF st [unfolded c writes(1)]]) simp_all
  next
    case (bumps r s')
    note b = bump_phase [OF okc bumps(2) [unfolded env]]
    have "entry_seen env truth G c0 c' pepGenerationKey y" for y
      using keyed_not_counter by (simp add: entry_seen_def)
    with b show ?thesis unfolding bumps(1) by (intro keep [OF st [unfolded c bumps(1)]]) metis+
  next
    case (waits x)
    from clock waits(2) have "(ok s \<longrightarrow> ok (pe_later env x s)) \<and> (\<forall>k y. live (pe_later env x s) k = Some y \<longrightarrow> live s k = Some y)"
      unfolding clock_like_def by blast
    with okc have l: "live (pe_later env x s) k = Some y \<Longrightarrow> live s k = Some y" and o: "ok (pe_later env x s)" for k y by blast+
    show ?thesis unfolding waits(1) by (rule keep [OF st [unfolded c waits(1)] o]) (rule disjI1, erule l)
  qed
qed

end

section \<open>Runs\<close>

text \<open>The key a process holds, and what a step can do to the cache and to the keys.\<close>

fun phase_key :: "phase \<Rightarrow> (fga_query \<times> string) option" where
  "phase_key (Keyed q key) = Some (q, key)"
| "phase_key (Missed q (Some key)) = Some (q, key)"
| "phase_key (Fresh q key b t) = Some (q, key)"
| "phase_key _ = None"

definition counted :: "'s live \<Rightarrow> 's \<Rightarrow> string \<times> int option \<Rightarrow> bool" where
  "counted live s y \<longleftrightarrow> (\<exists>n. cur_count live pepGenerationKey s = Some n \<and> y = (format_int (wrap64 (n + 1)), None))"

definition framed :: "'s live \<Rightarrow> ('s \<Rightarrow> bool) \<Rightarrow> 's pep_config \<Rightarrow> 's pep_config \<Rightarrow> bool" where
  "framed live ok c c' \<longleftrightarrow> ok (fst c')
     \<and> (\<forall>k y. live (fst c') k = Some y \<longrightarrow> live (fst c) k = Some y \<or> (\<exists>p q. phase_key (snd c p) = Some (q, k)) \<or> k = pepGenerationKey \<and> counted live (fst c) y)
     \<and> (\<forall>p q k. phase_key (snd c' p) = Some (q, k) \<longrightarrow> phase_key (snd c p) = Some (q, k)
          \<or> plain_query q \<and> k = pep_key (cur_gen live (fst c)) q)"

lemma framed_liveE:
  assumes "framed live ok c c'" and "live (fst c') k = Some y"
  obtains "live (fst c) k = Some y" | p q where "phase_key (snd c p) = Some (q, k)" | "k = pepGenerationKey" "counted live (fst c) y"
  using assms unfolding framed_def by blast

lemma framed_keyE:
  assumes "framed live ok c c'" and "phase_key (snd c' p) = Some (q, k)"
  obtains "phase_key (snd c p) = Some (q, k)" | "plain_query q" "k = pep_key (cur_gen live (fst c)) q"
  using assms unfolding framed_def by blast

lemma framedI:
  assumes "ok s'"
    and "\<And>k y. live s' k = Some y \<Longrightarrow> live s k = Some y \<or> (\<exists>p q. phase_key (P p) = Some (q, k)) \<or> k = pepGenerationKey \<and> counted live s y"
    and "\<And>q k. phase_key ph = Some (q, k) \<Longrightarrow> phase_key (P p) = Some (q, k) \<or> plain_query q \<and> k = pep_key (cur_gen live s) q"
  shows "framed live ok (s, P) (s', P(p := ph))"
  unfolding framed_def fst_conv snd_conv
proof (intro conjI allI impI)
  show "phase_key (P p') = Some (q, k) \<or> plain_query q \<and> k = pep_key (cur_gen live s) q"
    if "phase_key ((P(p := ph)) p') = Some (q, k)" for p' q k
    using that assms(3) by (cases "p' = p") simp_all
qed (fact assms(1), erule assms(2))

context shared_cache
begin

lemma step_framed:
  assumes env: "pe_ops env = ops" "pe_now env = now"
    and inner: "openfga_like env live ok truth" and clock: "clock_like env live ok truth"
    and oks: "ok s" and st: "pep_step env (s, P) c'"
  shows "framed live ok (s, P) c'"
  using st
proof (cases rule: pep_step.cases)
  case (keys p q k s')
  note k = key_phase [OF oks keys(4) [unfolded env]]
  show ?thesis unfolding keys(1) by (rule framedI) (use k keys(3) in \<open>auto split: option.splits\<close>)
next
  case (looks p q key h s')
  note k = lookup_phase [OF oks looks(3) [unfolded env]]
  show ?thesis unfolding looks(1) by (rule framedI) (use k looks(2) in \<open>auto split: option.splits\<close>)
next
  case (asks p q k r s')
  note i = inner [unfolded openfga_like_def, THEN conjunct1, rule_format, OF asks(3)]
  show ?thesis unfolding asks(1)
    by (rule framedI) (use i oks asks(2) in \<open>cases k; auto split: option.splits sum.splits\<close>)+
next
  case (fills p q key b t r s')
  note f = fill_phase [OF oks fills(4) [unfolded env]]
  have "phase_key (P p) = Some (q, key)" by (simp add: fills)
  with f show ?thesis unfolding fills(1) by (intro framedI) (metis, metis, simp)
next
  case (rests p q b t)
  show ?thesis unfolding rests(1) by (rule framedI) (use oks in simp_all)
next
  case (writes w ts r s')
  with inner [unfolded openfga_like_def, THEN conjunct2, rule_format, OF writes(2,3)] oks show ?thesis by (simp add: framed_def)
next
  case (bumps r s')
  with bump_phase [OF oks bumps(2) [unfolded env]] show ?thesis unfolding framed_def counted_def by (simp del: split_paired_All split_paired_Ex) metis
next
  case (waits x)
  from clock waits(2) have "(ok s \<longrightarrow> ok (pe_later env x s)) \<and> (\<forall>k y. live (pe_later env x s) k = Some y \<longrightarrow> live s k = Some y)"
    unfolding clock_like_def by blast
  with oks waits show ?thesis by (simp add: framed_def)
qed

end

text \<open>The start of a server: no check is running and no decision is cached.\<close>

definition pep_start :: "'s live \<Rightarrow> ('s \<Rightarrow> bool) \<Rightarrow> 's pep_config \<Rightarrow> bool" where
  "pep_start live ok c \<longleftrightarrow> ok (fst c) \<and> (\<forall>p. snd c p = Idle) \<and> CHR '':'' \<notin> set (cur_gen live (fst c))
     \<and> (\<forall>q key. keyed UNIV q key \<longrightarrow> live (fst c) key = None)"

lemma phase_seen_key: "phase_seen env truth G inQ c0 c ph \<Longrightarrow> phase_key ph = Some (q, k) \<Longrightarrow> keyed UNIV q k"
  by (cases ph; cases q) (auto simp: phase_seen_def split: option.splits elim: phase_key.elims)

lemma counted_gen: "counted live s y \<Longrightarrow> live s' pepGenerationKey = Some y \<Longrightarrow> CHR '':'' \<notin> set (cur_gen live s')"
  using format_int_no_colon by (auto simp: counted_def cur_gen_def gen_str_def)

lemma gen_clean_step:
  assumes "framed live ok c c'" and "CHR '':'' \<notin> set (cur_gen live (fst c))"
    and "\<And>p q k. phase_key (snd c p) = Some (q, k) \<Longrightarrow> keyed UNIV q k"
  shows "CHR '':'' \<notin> set (cur_gen live (fst c'))"
proof (cases "live (fst c') pepGenerationKey")
  case None
  then show ?thesis by (simp add: cur_gen_def gen_str_def)
next
  case (Some y)
  from assms(1) Some show ?thesis
  proof (cases rule: framed_liveE)
    case 1
    with Some assms(2) show ?thesis by (simp add: cur_gen_def)
  next
    case (2 p q)
    with assms(3) keyed_not_counter show ?thesis by blast
  next
    case 3
    from counted_gen [OF 3(2) Some] show ?thesis .
  qed
qed

text \<open>The generations up to the counter's value, and the runs on which the counter never goes back.\<close>

definition gens :: "nat \<Rightarrow> string set" where
  "gens m = show_nat ` {..m}"

definition below :: "'s live \<Rightarrow> nat \<Rightarrow> 's pep_config \<Rightarrow> bool" where
  "below live m c \<longleftrightarrow> (\<forall>q key y. keyed UNIV q key \<longrightarrow> live (fst c) key = Some y \<longrightarrow> keyed (gens m) q key)
     \<and> (\<forall>p q k. phase_key (snd c p) = Some (q, k) \<longrightarrow> keyed (gens m) q k)"

definition advances :: "'s live \<Rightarrow> 's \<Rightarrow> 's \<Rightarrow> bool" where
  "advances live s s' \<longleftrightarrow> (\<exists>m m'. cur_gen live s = show_nat m \<and> cur_gen live s' = show_nat m' \<and> m \<le> m')"

definition kept_step :: "'s pep_env \<Rightarrow> 's live \<Rightarrow> 's pep_config \<Rightarrow> 's pep_config \<Rightarrow> bool" where
  "kept_step env live c c' \<longleftrightarrow> pep_step env c c' \<and> advances live (fst c) (fst c')"

lemma gens_mono: "m \<le> m' \<Longrightarrow> gens m \<subseteq> gens m'"
  by (auto simp: gens_def)

lemma keyed_gens: "plain_query q \<Longrightarrow> keyed (gens m) q (pep_key (show_nat m) q)"
  using show_nat_no_colon by (auto simp: keyed_def gens_def)

lemma below_step:
  assumes "framed live ok c c'" and "below live m c" and "cur_gen live (fst c) = show_nat m" and "m \<le> m'"
  shows "below live m' c'"
  unfolding below_def
proof (intro conjI allI impI)
  note up = keyed_mono [OF _ gens_mono [OF assms(4)]]
  show "keyed (gens m') q key" if "keyed UNIV q key" "live (fst c') key = Some y" for q key y
  proof -
    from assms(1) that(2) show ?thesis
    proof (cases rule: framed_liveE)
      case 1
      with assms(2) that(1) have "keyed (gens m) q key" unfolding below_def by blast
      then show ?thesis by (rule up)
    next
      case (2 p q')
      with assms(2) have k: "keyed (gens m) q' key" unfolding below_def by blast
      moreover have "q' = q" by (rule keyed_same [OF that(1) k])
      ultimately show ?thesis by (metis up)
    next
      case 3
      with that(1) keyed_not_counter show ?thesis by blast
    qed
  qed
  show "keyed (gens m') q k" if "phase_key (snd c' p) = Some (q, k)" for p q k
  proof -
    from assms(1) that show ?thesis
    proof (cases rule: framed_keyE)
      case 1
      with assms(2) have "keyed (gens m) q k" unfolding below_def by blast
      then show ?thesis by (rule up)
    next
      case 2
      with keyed_gens [of q m] assms(3) have "keyed (gens m) q k" by simp
      then show ?thesis by (rule up)
    qed
  qed
qed

lemma kept_runs: "(kept_step env live)\<^sup>*\<^sup>* c c' \<Longrightarrow> pep_run env c c'"
  by (induction rule: rtranclp_induct) (auto simp: kept_step_def intro: rtranclp.rtrancl_into_rtrancl)

context shared_cache
begin

lemma start_seen:
  assumes "pep_start live ok c0"
  shows "all_seen env live ok truth UNIV UNIV c0 c0"
  using assms unfolding pep_start_def all_seen_def entries_seen_def entry_seen_def phase_seen_def
  by (auto simp del: split_paired_All)

lemma run_seen:
  assumes env: "pe_ops env = ops" "pe_now env = now" "0 < pe_ttl env" "0 \<le> pe_delay env"
    and inner: "openfga_like env live ok truth" and clock: "clock_like env live ok truth"
    and truth: "\<And>s s'. same s s' \<Longrightarrow> truth s' = truth s"
    and start: "pep_start live ok c0" and run: "pep_run env c0 c"
  shows "all_seen env live ok truth UNIV UNIV c0 c \<and> CHR '':'' \<notin> set (cur_gen live (fst c))"
  using run
proof (induction rule: rtranclp_induct)
  case base
  then show ?case using start_seen [OF start] start by (simp add: pep_start_def)
next
  case (step c c')
  then have inv: "all_seen env live ok truth UNIV UNIV c0 c" and clean: "CHR '':'' \<notin> set (cur_gen live (fst c))" by blast+
  have "all_seen env live ok truth UNIV UNIV c0 c'"
    by (rule step_seen [OF env inner clock truth UNIV_I clean step(1) inv step(2)])
  moreover have "framed live ok c c'"
    using step_framed [OF env(1,2) inner clock, of "fst c" "snd c" c'] inv step(2) by (simp add: all_seen_def)
  then have "CHR '':'' \<notin> set (cur_gen live (fst c'))"
  proof (rule gen_clean_step [OF _ clean])
    fix p q k assume "phase_key (snd c p) = Some (q, k)"
    moreover have "phase_seen env truth UNIV (p \<in> UNIV) c0 c (snd c p)" using inv unfolding all_seen_def by blast
    ultimately show "keyed UNIV q k" by (intro phase_seen_key)
  qed
  ultimately show ?case by blast
qed

lemma answer_recent:
  assumes env: "pe_ops env = ops" "pe_now env = now" "0 < pe_ttl env" "0 \<le> pe_delay env"
    and inner: "openfga_like env live ok truth" and clock: "clock_like env live ok truth"
    and truth: "\<And>s s'. same s s' \<Longrightarrow> truth s' = truth s"
    and start: "pep_start live ok c0" and run: "pep_run env c0 c" and answer: "snd c p = Answered q b t"
  shows "\<exists>c1. pep_run env c0 c1 \<and> pep_run env c1 c \<and> truth (fst c1) q = b \<and> t \<le> now (fst c1) + pe_delay env + pe_ttl env"
proof -
  have "phase_seen env truth UNIV (p \<in> UNIV) c0 c (snd c p)"
    using run_seen [OF env inner clock truth start run] unfolding all_seen_def by blast
  then show ?thesis unfolding answer phase_seen_def seen_def env(2) by auto
qed

text \<open>A bump on a run that keeps the counter starts a generation that nobody has used.\<close>

lemma kept_below:
  assumes env: "pe_ops env = ops" "pe_now env = now"
    and inner: "openfga_like env live ok truth" and clock: "clock_like env live ok truth"
    and start: "pep_start live ok c0" "cur_gen live (fst c0) = show_nat m0" and run: "(kept_step env live)\<^sup>*\<^sup>* c0 c"
  shows "\<exists>m. cur_gen live (fst c) = show_nat m \<and> below live m c \<and> ok (fst c)"
  using run
proof (induction rule: rtranclp_induct)
  case base
  have "below live m0 c0"
    unfolding below_def
  proof (intro conjI allI impI)
    show "keyed (gens m0) q key" if "keyed UNIV q key" "live (fst c0) key = Some y" for q key y
      using start(1) that unfolding pep_start_def by (metis option.distinct(1))
    show "keyed (gens m0) q k" if "phase_key (snd c0 p) = Some (q, k)" for p q k
      using start(1) that unfolding pep_start_def by simp
  qed
  then show ?case using start by (auto simp: pep_start_def)
next
  case (step c c')
  then obtain m where m: "cur_gen live (fst c) = show_nat m" "below live m c" "ok (fst c)" by blast
  from step(2) obtain m1 m' where m': "cur_gen live (fst c) = show_nat m1" "cur_gen live (fst c') = show_nat m'" "m1 \<le> m'"
    unfolding kept_step_def advances_def by blast
  have st: "pep_step env (fst c, snd c) c'" using step(2) by (simp add: kept_step_def)
  have fr: "framed live ok c c'" using step_framed [OF env inner clock m(3) st] by simp
  have "m \<le> m'" using m(1) m'(1,3) show_nat_inj by metis
  from below_step [OF fr m(2,1) this] m'(2) fr show ?case by (auto simp: framed_def)
qed

lemma bump_fresh:
  assumes "ok s" and "co_incr ops pepGenerationKey s = (Inr n, s')" and "cur_gen live s = show_nat m" and "advances live s s'"
  shows "cur_gen live s' = show_nat (Suc m)"
proof -
  note i = incr [OF assms(1,2)]
  then obtain k where k: "cur_count live pepGenerationKey s = Some k" "n = wrap64 (k + 1)"
    and new: "live s' pepGenerationKey = Some (format_int n, None)" by blast
  have km: "k = int m \<and> int m < 2 ^ 63"
  proof (cases "live s pepGenerationKey")
    case None
    with assms(3) have "show_nat m = ''0''" by (simp add: cur_gen_def gen_str_def)
    also have "''0'' = show_nat 0" by code_simp
    finally have "m = 0" by (rule show_nat_inj)
    with None k(1) show ?thesis by (simp add: cur_count_def)
  next
    case (Some y)
    then have "atoi (fst y) = Some k" using k(1) by (simp add: cur_count_def split: prod.splits)
    moreover from this have "fst y \<noteq> []" by (auto simp: atoi_def)
    with Some assms(3) have "fst y = show_nat m" by (simp add: cur_gen_def gen_str_def)
    ultimately show ?thesis by (simp add: atoi_show_nat split: if_splits)
  qed
  have "format_int n \<noteq> []" using show_nat_nonempty by (simp add: format_int_def)
  with new have gen: "cur_gen live s' = format_int n" by (simp add: cur_gen_def gen_str_def)
  from assms(4) obtain m' where m': "cur_gen live s' = show_nat m'" by (auto simp: advances_def)
  have "0 \<le> n"
  proof (rule ccontr)
    assume "\<not> 0 \<le> n"
    then have "CHR ''-'' \<in> set (show_nat m')" using gen m' by (simp add: format_int_def split: if_splits)
    with show_nat_digits [of m'] have "is_digit CHR ''-''" by blast
    then show False by (simp add: is_digit_def)
  qed
  have "int m + 1 < 2 ^ 63"
  proof (rule ccontr)
    assume "\<not> int m + 1 < 2 ^ 63"
    with km have "k + 1 = 2 ^ 63" by simp
    then have "n < 0" unfolding k(2) by (simp add: wrap64_def)
    with \<open>0 \<le> n\<close> show False by simp
  qed
  then have "n = int (Suc m)" unfolding k(2) using km by (simp add: wrap64_small)
  with gen show ?thesis by (simp add: format_int_nonneg nat_add_distrib)
qed

lemma bump_seen:
  assumes "below live m (s, P)" and "ok s" and "co_incr ops pepGenerationKey s = (Inr n, s')"
  shows "all_seen env live ok truth (show_nat ` {m<..}) {p. P p = Idle} (s', P) (s', P)"
proof -
  note i = incr [OF assms(2,3)]
  have apart: False if old: "keyed (gens m) q key" and new: "keyed (show_nat ` {m<..}) q' key" for q q' key
  proof -
    from old new obtain a b where "a \<le> m" "m < b" "plain_query q" "plain_query q'" "pep_key (show_nat a) q = pep_key (show_nat b) q'"
      by (auto simp: keyed_def gens_def)
    with pep_key_inj [of "show_nat a" q "show_nat b" q'] show_nat_no_colon show_nat_inj [of a b] show False by auto
  qed
  have keys: "keyed (gens m) q k" if "phase_key (P p) = Some (q, k)" for p q k
    using assms(1) that unfolding below_def snd_conv by blast
  have old: "keyed (gens m) q key" if "keyed UNIV q key" "live s key = Some y" for q key y
    using assms(1) that unfolding below_def fst_conv by blast
  have "entries_seen env live truth (show_nat ` {m<..}) (s', P) (s', P)"
    unfolding entries_seen_def entry_seen_def fst_conv
  proof (intro allI impI)
    fix key y q assume l: "live s' key = Some y" and k: "keyed (show_nat ` {m<..}) q key"
    from k have "key \<noteq> pepGenerationKey" using keyed_not_counter by blast
    with i l have "live s key = Some y" by blast
    from apart [OF old [OF keyed_UNIV [OF k] this] k]
    show "\<exists>t e. snd y = Some e \<and> e \<le> t + pe_delay env + pe_ttl env \<and> seen env truth (s', P) (s', P) q (fst y = ''1'') t" ..
  qed
  moreover have "phase_seen env truth (show_nat ` {m<..}) (p \<in> {p. P p = Idle}) (s', P) (s', P) (P p)" for p
  proof (cases "P p")
    case (Fresh q key b t)
    then have k: "keyed (gens m) q key" using keys [of p q key] by simp
    then have "\<not> keyed (show_nat ` {m<..}) q key" using apart by blast
    with k Fresh show ?thesis by (simp add: phase_seen_def keyed_UNIV)
  qed (use keys [of p] in \<open>auto simp: phase_seen_def intro: keyed_UNIV\<close>)
  ultimately show ?thesis using i by (simp add: all_seen_def)
qed

lemma answer_current:
  assumes env: "pe_ops env = ops" "pe_now env = now" "0 < pe_ttl env" "0 \<le> pe_delay env"
    and inner: "openfga_like env live ok truth" and clock: "clock_like env live ok truth"
    and truth: "\<And>s s'. same s s' \<Longrightarrow> truth s' = truth s"
    and start: "pep_start live ok c0" "cur_gen live (fst c0) = show_nat m0" and before: "(kept_step env live)\<^sup>*\<^sup>* c0 (s, P)"
    and bump: "co_incr ops pepGenerationKey s = (Inr n, s')" "advances live s s'"
    and after: "(kept_step env live)\<^sup>*\<^sup>* (s', P) c" and p: "P p = Idle" and answer: "snd c p = Answered q b t"
  shows "\<exists>c1. pep_run env (s', P) c1 \<and> pep_run env c1 c \<and> truth (fst c1) q = b"
proof -
  from kept_below [OF env(1,2) inner clock start before]
  obtain m where m: "cur_gen live s = show_nat m" "below live m (s, P)" "ok s" by auto
  let ?G = "show_nat ` {m<..}" and ?Q = "{p. P p = Idle}"
  have "all_seen env live ok truth ?G ?Q (s', P) c \<and> cur_gen live (fst c) \<in> ?G" using after
  proof (induction rule: rtranclp_induct)
    case base
    show ?case using bump_seen [OF m(2,3) bump(1)] bump_fresh [OF m(3) bump(1) m(1) bump(2)] by simp
  next
    case (step c c')
    then have inv: "all_seen env live ok truth ?G ?Q (s', P) c" and g: "cur_gen live (fst c) \<in> ?G" by blast+
    from g have clean: "CHR '':'' \<notin> set (cur_gen live (fst c))" using show_nat_no_colon by auto
    from step(2) have st: "pep_step env c c'" and adv: "advances live (fst c) (fst c')" by (simp_all add: kept_step_def)
    from g obtain x where x: "m < x" "cur_gen live (fst c) = show_nat x" by auto
    from adv obtain a a' where "cur_gen live (fst c) = show_nat a" "cur_gen live (fst c') = show_nat a'" "a \<le> a'"
      unfolding advances_def by blast
    moreover from this x have "a = x" using show_nat_inj [of a x] by simp
    ultimately have "cur_gen live (fst c') \<in> ?G" using x(1) by simp
    with step_seen [OF env inner clock truth g clean kept_runs [OF step(1)] inv st] show ?case by blast
  qed
  then have "phase_seen env truth ?G (p \<in> ?Q) (s', P) c (snd c p)" unfolding all_seen_def by blast
  with p show ?thesis unfolding answer phase_seen_def seen_def by auto
qed

end

section \<open>The properties, on the memory backend\<close>

text \<open>What the tuples decide does not depend on the cache.\<close>

definition cache_free :: "('a cache_db_scheme \<Rightarrow> fga_query \<Rightarrow> bool) \<Rightarrow> bool" where
  "cache_free truth \<longleftrightarrow> (\<forall>s es n. truth (s\<lparr>mc_entries := es, mc_draws := n\<rparr>) = truth s)"

lemma cache_freeD:
  assumes "cache_free truth" and "cache_moved s s'"
  shows "truth s' = truth s"
proof -
  from assms(2) have "truth s' = truth (s\<lparr>mc_entries := mc_entries s', mc_draws := mc_draws s'\<rparr>)"
    unfolding cache_moved_def by (rule arg_cong)
  with assms(1) show ?thesis by (simp add: cache_free_def)
qed

text \<open>A server whose cache is the memory backend.\<close>

definition memory_env :: "int \<Rightarrow> int \<Rightarrow> (fga_query \<Rightarrow> ('a cache_db_scheme, bool) dbm) \<Rightarrow> 'a cache_db_scheme tuple_ops \<Rightarrow> 'a cache_db_scheme pep_env" where
  "memory_env ttl delay inner st = \<lparr>pe_ops = memory_ops, pe_ttl = ttl, pe_inner = inner, pe_store = st, pe_now = clock,
     pe_later = (\<lambda>x s. s\<lparr>clock := clock s + x\<rparr>), pe_delay = delay\<rparr>"

lemma memory_env_simps [simp]:
  "pe_ops (memory_env ttl delay inner st) = memory_ops" "pe_now (memory_env ttl delay inner st) = clock"
  "pe_ttl (memory_env ttl delay inner st) = ttl" "pe_delay (memory_env ttl delay inner st) = delay"
  by (simp_all add: memory_env_def)

definition clock_free :: "('a cache_db_scheme \<Rightarrow> fga_query \<Rightarrow> bool) \<Rightarrow> bool" where
  "clock_free truth \<longleftrightarrow> (\<forall>s t. truth (s\<lparr>clock := t\<rparr>) = truth s)"

lemma memory_clock_like: "clock_free truth \<Longrightarrow> clock_like (memory_env ttl delay inner st) mem_live mem_ok truth"
  by (auto simp: clock_like_def clock_free_def memory_env_def mem_ok_def mem_live_def me_expired_def split: option.splits if_splits)

text \<open>
  (C28) A cached decision is a recent one. Whatever checks, writes, invalidations, evictions and cache
  errors interleave, an answer the cached authorizer gives was what the tuples decide at a moment
  that lies no further back than the TTL and the time a check takes to store its decision.
\<close>

theorem cached_answer_recent:
  assumes "0 < ttl" and "0 \<le> delay" and "cache_free truth" and "clock_free truth"
    and "openfga_like (memory_env ttl delay inner st) mem_live mem_ok truth" and "pep_start mem_live mem_ok c0"
    and "pep_run (memory_env ttl delay inner st) c0 c" and "snd c p = Answered q b t"
  shows "\<exists>c1. pep_run (memory_env ttl delay inner st) c0 c1 \<and> pep_run (memory_env ttl delay inner st) c1 c
    \<and> truth (fst c1) q = b \<and> t \<le> clock (fst c1) + delay + ttl"
  using memory.answer_recent [OF _ _ _ _ assms(5) memory_clock_like [OF assms(4)] cache_freeD [OF assms(3)] assms(6-8)] assms(1,2)
  by simp

text \<open>
  (C27) A completed invalidation is never overtaken. On a run on which the generation counter is
  neither evicted nor overflows, a check that starts after a write's invalidation has returned answers
  what the tuples decide at some moment after it: no check gets a decision from before the write.
\<close>

theorem no_answer_before_bump:
  assumes "0 < ttl" and "0 \<le> delay" and "cache_free truth" and "clock_free truth"
    and "openfga_like (memory_env ttl delay inner st) mem_live mem_ok truth"
    and "pep_start mem_live mem_ok c0" and "cur_gen mem_live (fst c0) = show_nat m0"
    and "(kept_step (memory_env ttl delay inner st) mem_live)\<^sup>*\<^sup>* c0 (s, P)"
    and "mem_incr pepGenerationKey s = (Inr n, s')" and "advances mem_live s s'"
    and "(kept_step (memory_env ttl delay inner st) mem_live)\<^sup>*\<^sup>* (s', P) c" and "P p = Idle" and "snd c p = Answered q b t"
  shows "\<exists>c1. pep_run (memory_env ttl delay inner st) (s', P) c1 \<and> pep_run (memory_env ttl delay inner st) c1 c
    \<and> truth (fst c1) q = b"
  using memory.answer_current [OF _ _ _ _ assms(5) memory_clock_like [OF assms(4)] cache_freeD [OF assms(3)] assms(6-8) _ assms(10-13)]
    assms(1,2,9) by (simp add: memory_ops_def)

end
