(* ===== verification/DecisionExample.thy ===== *)
theory DecisionExample
  imports DecisionCache
begin

text \<open>
  The decision cache at work on a store of direct relationships: a decision served from the cache
  after the tuple is gone, a check after the invalidation, and the eviction of the generation counter.
\<close>

section \<open>The example\<close>

record pep_db = cache_db +
  pd_tuples :: "fga_tuple list"

definition pd_truth :: "pep_db \<Rightarrow> fga_query \<Rightarrow> bool" where
  "pd_truth s q = (case q of (u, r, x) \<Rightarrow> list_ex (\<lambda>t. tp_user t = u \<and> tp_relation t = r \<and> tp_object t = x) (pd_tuples s))"

definition pd_inner :: "fga_query \<Rightarrow> (pep_db, bool) dbm" where
  "pd_inner q = asks (\<lambda>s. pd_truth s q)"

definition pd_store :: "pep_db tuple_ops" where
  "pd_store = \<lparr>to_read = (\<lambda>obj rel. asks (\<lambda>s. filter (\<lambda>t. tp_object t = obj \<and> tp_relation t = rel) (pd_tuples s))),
     to_write = (\<lambda>ts. modify (\<lambda>s. s\<lparr>pd_tuples := pd_tuples s @ ts\<rparr>)),
     to_delete = (\<lambda>ts. modify (\<lambda>s. s\<lparr>pd_tuples := filter (\<lambda>t. t \<notin> set ts) (pd_tuples s)\<rparr>))\<rparr>"

definition pd_env :: "pep_db pep_env" where
  "pd_env = memory_env 2000 10 pd_inner pd_store"

lemma pd_env_simps [simp]:
  "pe_ops pd_env = memory_ops" "pe_now pd_env = clock" "pe_ttl pd_env = 2000" "pe_delay pd_env = 10" "pe_inner pd_env = pd_inner"
  "pe_store pd_env = pd_store"
  by (simp_all add: pd_env_def memory_env_def)

definition ada_query :: fga_query where "ada_query = (''user:ada'', ''read'', ''org:a'')"
definition bob_query :: fga_query where "bob_query = (''user:bob'', ''read'', ''org:a'')"
definition ada_tuple :: fga_tuple where "ada_tuple = mk_tuple ''user:ada'' ''read'' ''org:a''"

definition pd_start :: pep_db where
  "pd_start = \<lparr>faults = [], clock = 100, uuids = (\<lambda>_. []), uuid_next = 0, audit_rows = [], audit_archive = [], outbox_rows = [], outbox_seq = 1,
     mc_entries = [], mc_max = 3, mc_rand = (\<lambda>n. Suc n), mc_draws = 0, pd_tuples = [ada_tuple]\<rparr>"

lemma pd_laws: "cache_free pd_truth" "clock_free pd_truth" "openfga_like pd_env mem_live mem_ok pd_truth"
  "pep_start mem_live mem_ok (pd_start, \<lambda>_. Idle)" "cur_gen mem_live (fst (pd_start, \<lambda>_. Idle)) = show_nat 0"
proof -
  show "cache_free pd_truth" "clock_free pd_truth" by (simp_all add: cache_free_def clock_free_def pd_truth_def fun_eq_iff)
  have l: "mem_live (s\<lparr>pd_tuples := x\<rparr>) = mem_live s" "mem_ok (s\<lparr>pd_tuples := x\<rparr>) = mem_ok s" for s x
    by (simp_all add: mem_live_def mem_ok_def fun_eq_iff split: option.split)
  show "openfga_like pd_env mem_live mem_ok pd_truth"
    unfolding openfga_like_def
    by (auto simp: pd_inner_def pd_store_def asks_def modify_def l)
  have "cur_gen mem_live pd_start = ''0''" by code_simp
  moreover have "show_nat 0 = ''0''" by code_simp
  ultimately show "cur_gen mem_live (fst (pd_start, \<lambda>_. Idle)) = show_nat 0" by simp
  have "mem_ok pd_start" "mem_live pd_start k = None" for k by (simp_all add: pd_start_def mem_ok_def mem_live_def)
  moreover have "CHR '':'' \<notin> set (cur_gen mem_live pd_start)" using \<open>cur_gen mem_live pd_start = ''0''\<close> by simp
  ultimately show "pep_start mem_live mem_ok (pd_start, \<lambda>_. Idle)" by (simp add: pep_start_def)
qed

section \<open>Runs as computations\<close>

lemma step_keys:
  "P p = Idle \<Longrightarrow> plain_query q \<Longrightarrow> fst (pep_key_phase memory_ops q s) = Inr (Some key) \<Longrightarrow>
    pep_step pd_env (s, P) (snd (pep_key_phase memory_ops q s), P(p := Keyed q key))"
  using pep_step.keys [of P p q pd_env s "Some key" "snd (pep_key_phase memory_ops q s)"] by (simp add: prod_eq_iff)

lemma step_hits:
  "P p = Keyed q key \<Longrightarrow> fst (pep_lookup memory_ops key s) = Inr h \<Longrightarrow>
    pep_step pd_env (s, P) (snd (pep_lookup memory_ops key s), P(p := case h of None \<Rightarrow> Missed q (Some key)
      | Some b \<Rightarrow> Answered q b (clock (snd (pep_lookup memory_ops key s)))))"
  using pep_step.looks [of P p q key pd_env s h "snd (pep_lookup memory_ops key s)", unfolded pd_env_simps] by (simp add: prod_eq_iff)

lemma step_asks:
  "P p = Missed q (Some key) \<Longrightarrow> pep_step pd_env (s, P) (s, P(p := Fresh q key (pd_truth s q) (clock s)))"
  using pep_step.asks [of P p q "Some key" pd_env s "Inr (pd_truth s q)" s] by (simp add: pd_inner_def asks_def)

lemma step_fills:
  "P p = Fresh q key b t \<Longrightarrow> clock s \<le> t + 10 \<Longrightarrow>
    pep_step pd_env (s, P) (snd (pep_fill memory_ops 2000 key b s), P(p := Answered q b (clock s)))"
  using pep_step.fills [of P p q key b t pd_env s "fst (pep_fill memory_ops 2000 key b s)" "snd (pep_fill memory_ops 2000 key b s)"]
  by simp

lemma step_deletes: "pep_step pd_env (s, P) (snd (to_delete pd_store ts s), P)"
  by (rule pep_step.writes [where w = "to_delete pd_store ts" and r = "fst (to_delete pd_store ts s)" and ts = ts]) simp_all

lemma one_step: "pep_step env a b \<Longrightarrow> pep_run env a b"
  by (rule r_into_rtranclp)

lemma step_run: "pep_step env a b \<Longrightarrow> pep_run env b c \<Longrightarrow> pep_run env a c"
  by (rule converse_rtranclp_into_rtranclp)

section \<open>A stale answer\<close>

text \<open>Process 0 stores its decision; the tuple is deleted; process 1 is still answered from the cache.\<close>

definition ada_key :: string where "ada_key = pep_key ''0'' ada_query"

definition pd_keyed :: pep_db where "pd_keyed = snd (pep_lookup memory_ops ada_key (snd (pep_key_phase memory_ops ada_query pd_start)))"
definition pd_filled :: pep_db where "pd_filled = snd (pep_fill memory_ops 2000 ada_key True pd_keyed)"
definition pd_deleted :: pep_db where "pd_deleted = snd (to_delete pd_store [ada_tuple] pd_filled)"
definition pd_asked :: pep_db where "pd_asked = snd (pep_key_phase memory_ops ada_query pd_deleted)"
definition pd_served :: pep_db where "pd_served = snd (pep_lookup memory_ops ada_key pd_asked)"

text \<open>The processes after so many steps of process 0.\<close>

definition pd_phases :: "nat \<Rightarrow> nat \<Rightarrow> phase" where
  "pd_phases n = (\<lambda>_. Idle)(0 := [Idle, Keyed ada_query ada_key, Missed ada_query (Some ada_key),
     Fresh ada_query ada_key True 100, Answered ada_query True 100] ! n)"

definition pd_first :: pep_db where "pd_first = snd (pep_key_phase memory_ops ada_query pd_start)"

lemma start_key: "fst (pep_key_phase memory_ops ada_query pd_start) = Inr (Some ada_key)" by code_simp

lemma start_miss: "fst (pep_lookup memory_ops ada_key (snd (pep_key_phase memory_ops ada_query pd_start))) = Inr None" by code_simp

lemma keyed_truth: "pd_truth pd_keyed ada_query" by code_simp

lemma keyed_clock: "clock pd_keyed = 100" by code_simp

lemma deleted_key: "fst (pep_key_phase memory_ops ada_query pd_deleted) = Inr (Some ada_key)" by code_simp

lemma asked_hit: "fst (pep_lookup memory_ops ada_key pd_asked) = Inr (Some True)" by code_simp

lemma served_clock: "clock pd_served = 100" by code_simp

lemma ada_plain: "plain_query ada_query" by code_simp

lemmas stale_report = start_key start_miss keyed_truth keyed_clock deleted_key asked_hit served_clock ada_plain

lemma filled_steps:
  "pep_step pd_env (pd_start, \<lambda>_. Idle) (pd_first, pd_phases 1)"
  "pep_step pd_env (pd_first, pd_phases 1) (pd_keyed, pd_phases 2)"
  "pep_step pd_env (pd_keyed, pd_phases 2) (pd_keyed, pd_phases 3)"
  "pep_step pd_env (pd_keyed, pd_phases 3) (pd_filled, pd_phases 4)"
  "pep_step pd_env (pd_filled, pd_phases 4) (pd_deleted, pd_phases 4)"
proof -
  show "pep_step pd_env (pd_start, \<lambda>_. Idle) (pd_first, pd_phases 1)"
    using step_keys [of "\<lambda>_. Idle" 0 ada_query pd_start ada_key] stale_report by (simp add: pd_phases_def pd_first_def)
  show "pep_step pd_env (pd_first, pd_phases 1) (pd_keyed, pd_phases 2)"
    using step_hits [of "pd_phases 1" 0 ada_query ada_key pd_first None] start_miss
    by (simp add: pd_keyed_def pd_first_def pd_phases_def numeral_2_eq_2)
  show "pep_step pd_env (pd_keyed, pd_phases 2) (pd_keyed, pd_phases 3)"
    using step_asks [of "pd_phases 2" 0 ada_query ada_key pd_keyed] stale_report by (simp add: pd_phases_def numeral_2_eq_2 numeral_3_eq_3)
  show "pep_step pd_env (pd_keyed, pd_phases 3) (pd_filled, pd_phases 4)"
    using step_fills [of "pd_phases 3" 0 ada_query ada_key True 100 pd_keyed] stale_report
    by (simp add: pd_filled_def pd_phases_def numeral_3_eq_3 numeral_eq_Suc)
  show "pep_step pd_env (pd_filled, pd_phases 4) (pd_deleted, pd_phases 4)"
    unfolding pd_deleted_def by (rule step_deletes)
qed

lemma deleted_run: "pep_run pd_env (pd_start, \<lambda>_. Idle) (pd_deleted, pd_phases 4)"
  by (rule step_run [OF filled_steps(1) step_run [OF filled_steps(2) step_run [OF filled_steps(3)
    step_run [OF filled_steps(4) one_step [OF filled_steps(5)]]]]])

definition pd_served_phases :: "nat \<Rightarrow> phase" where
  "pd_served_phases = (pd_phases 4)(1 := Answered ada_query True 100)"

lemma served_run: "pep_run pd_env (pd_deleted, pd_phases 4) (pd_served, pd_served_phases)"
proof -
  let ?P1 = "(pd_phases 4)(1 := Keyed ada_query ada_key)"
  have "pep_step pd_env (pd_deleted, pd_phases 4) (pd_asked, ?P1)"
    using step_keys [of "pd_phases 4" 1 ada_query pd_deleted ada_key] stale_report by (simp add: pd_asked_def pd_phases_def)
  moreover have "pep_step pd_env (pd_asked, ?P1) (pd_served, pd_served_phases)"
    using step_hits [of ?P1 1 ada_query ada_key pd_asked "Some True"] stale_report by (simp add: pd_served_def pd_served_phases_def)
  ultimately show ?thesis by (rule step_run [OF _ one_step])
qed

lemma cached_answer_recent_witness:
  "\<not> pd_truth pd_served ada_query \<and> (\<exists>c1. pep_run pd_env (pd_start, \<lambda>_. Idle) c1 \<and> pep_run pd_env c1 (pd_served, pd_served_phases)
    \<and> pd_truth (fst c1) ada_query \<and> 100 \<le> clock (fst c1) + 10 + 2000)"
proof -
  have "pep_run pd_env (pd_start, \<lambda>_. Idle) (pd_served, pd_served_phases)" using deleted_run served_run by (rule rtranclp_trans)
  moreover have "\<not> pd_truth pd_served ada_query" by code_simp
  ultimately show ?thesis
    using cached_answer_recent [OF _ _ pd_laws(1,2) pd_laws(3) [unfolded pd_env_def] pd_laws(4), of "(pd_served, pd_served_phases)" 1 ada_query True 100]
    by (simp add: pd_env_def [symmetric] pd_served_phases_def)
qed

section \<open>After the invalidation\<close>

text \<open>The invalidation of the deletion, and a check of process 2 that starts after it.\<close>

definition ada_next :: string where "ada_next = pep_key ''1'' ada_query"

definition pd_bumped :: pep_db where "pd_bumped = snd (mem_incr pepGenerationKey pd_deleted)"
definition pd_rekeyed :: pep_db where "pd_rekeyed = snd (pep_key_phase memory_ops ada_query pd_bumped)"
definition pd_missed :: pep_db where "pd_missed = snd (pep_lookup memory_ops ada_next pd_rekeyed)"
definition pd_current :: pep_db where "pd_current = snd (pep_fill memory_ops 2000 ada_next False pd_missed)"

definition pd_later_phases :: "nat \<Rightarrow> nat \<Rightarrow> phase" where
  "pd_later_phases n = (pd_phases 4)(2 := [Idle, Keyed ada_query ada_next, Missed ada_query (Some ada_next),
     Fresh ada_query ada_next False 100, Answered ada_query False 100] ! n)"

lemma bumped_incr: "fst (mem_incr pepGenerationKey pd_deleted) = Inr 1" by code_simp

lemma bumped_key: "fst (pep_key_phase memory_ops ada_query pd_bumped) = Inr (Some ada_next)" by code_simp

lemma bumped_miss: "fst (pep_lookup memory_ops ada_next pd_rekeyed) = Inr None" by code_simp

lemma missed_truth: "\<not> pd_truth pd_missed ada_query" by code_simp

lemma missed_clock: "clock pd_missed = 100" by code_simp

lemma later_steps:
  "pep_step pd_env (pd_bumped, pd_phases 4) (pd_rekeyed, pd_later_phases 1)"
  "pep_step pd_env (pd_rekeyed, pd_later_phases 1) (pd_missed, pd_later_phases 2)"
  "pep_step pd_env (pd_missed, pd_later_phases 2) (pd_missed, pd_later_phases 3)"
  "pep_step pd_env (pd_missed, pd_later_phases 3) (pd_current, pd_later_phases 4)"
proof -
  show "pep_step pd_env (pd_bumped, pd_phases 4) (pd_rekeyed, pd_later_phases 1)"
    using step_keys [of "pd_phases 4" 2 ada_query pd_bumped ada_next] bumped_key ada_plain
    by (simp add: pd_later_phases_def pd_phases_def pd_rekeyed_def)
  show "pep_step pd_env (pd_rekeyed, pd_later_phases 1) (pd_missed, pd_later_phases 2)"
    using step_hits [of "pd_later_phases 1" 2 ada_query ada_next pd_rekeyed None] bumped_miss
    by (simp add: pd_missed_def pd_later_phases_def numeral_2_eq_2)
  show "pep_step pd_env (pd_missed, pd_later_phases 2) (pd_missed, pd_later_phases 3)"
    using step_asks [of "pd_later_phases 2" 2 ada_query ada_next pd_missed] missed_truth missed_clock
    by (simp add: pd_later_phases_def numeral_2_eq_2 numeral_3_eq_3)
  show "pep_step pd_env (pd_missed, pd_later_phases 3) (pd_current, pd_later_phases 4)"
    using step_fills [of "pd_later_phases 3" 2 ada_query ada_next False 100 pd_missed] missed_clock
    by (simp add: pd_current_def pd_later_phases_def numeral_3_eq_3 numeral_eq_Suc)
qed

text \<open>The counter on these runs.\<close>

lemma show_small: "show_nat 0 = ''0''" "show_nat 1 = ''1''"
  by (simp_all add: show_nat_less digit_char_def) code_simp+

lemma gen_zero:
  "cur_gen mem_live pd_start = show_nat 0" "cur_gen mem_live pd_first = show_nat 0" "cur_gen mem_live pd_keyed = show_nat 0"
  "cur_gen mem_live pd_filled = show_nat 0" "cur_gen mem_live pd_deleted = show_nat 0"
  unfolding show_small by code_simp+

lemma gen_one:
  "cur_gen mem_live pd_bumped = show_nat 1" "cur_gen mem_live pd_rekeyed = show_nat 1" "cur_gen mem_live pd_missed = show_nat 1"
  "cur_gen mem_live pd_current = show_nat 1"
  unfolding show_small by code_simp+

lemma keptI:
  "pep_step pd_env (s, P) (s', P') \<Longrightarrow> cur_gen mem_live s = show_nat m \<Longrightarrow> cur_gen mem_live s' = show_nat m \<Longrightarrow>
    kept_step pd_env mem_live (s, P) (s', P')"
  by (auto simp: kept_step_def advances_def)

lemma kept_one: "kept_step env live a b \<Longrightarrow> (kept_step env live)\<^sup>*\<^sup>* a b"
  by (rule r_into_rtranclp)

lemma kept_run: "kept_step env live a b \<Longrightarrow> (kept_step env live)\<^sup>*\<^sup>* b c \<Longrightarrow> (kept_step env live)\<^sup>*\<^sup>* a c"
  by (rule converse_rtranclp_into_rtranclp)

lemma kept_before: "(kept_step pd_env mem_live)\<^sup>*\<^sup>* (pd_start, \<lambda>_. Idle) (pd_deleted, pd_phases 4)"
  by (rule kept_run [OF keptI [OF filled_steps(1) gen_zero(1,2)]
    kept_run [OF keptI [OF filled_steps(2) gen_zero(2,3)]
    kept_run [OF keptI [OF filled_steps(3) gen_zero(3,3)]
    kept_run [OF keptI [OF filled_steps(4) gen_zero(3,4)]
    kept_one [OF keptI [OF filled_steps(5) gen_zero(4,5)]]]]]])

lemma kept_after: "(kept_step pd_env mem_live)\<^sup>*\<^sup>* (pd_bumped, pd_phases 4) (pd_current, pd_later_phases 4)"
  by (rule kept_run [OF keptI [OF later_steps(1) gen_one(1,2)]
    kept_run [OF keptI [OF later_steps(2) gen_one(2,3)]
    kept_run [OF keptI [OF later_steps(3) gen_one(3,3)]
    kept_one [OF keptI [OF later_steps(4) gen_one(3,4)]]]]])

lemma no_answer_before_bump_witness:
  "\<exists>c1. pep_run pd_env (pd_bumped, pd_phases 4) c1 \<and> pep_run pd_env c1 (pd_current, pd_later_phases 4) \<and> \<not> pd_truth (fst c1) ada_query"
proof -
  have "advances mem_live pd_deleted pd_bumped"
    unfolding advances_def using gen_zero(5) gen_one(1) by (intro exI [of _ 0] exI [of _ 1]) simp
  moreover have "mem_incr pepGenerationKey pd_deleted = (Inr 1, pd_bumped)"
    using bumped_incr by (simp add: pd_bumped_def prod_eq_iff)
  moreover have "pd_phases 4 2 = Idle" "snd (pd_current, pd_later_phases 4) 2 = Answered ada_query False 100"
    by (simp_all add: pd_phases_def pd_later_phases_def numeral_eq_Suc)
  ultimately show ?thesis
    using no_answer_before_bump [OF _ _ pd_laws(1,2) pd_laws(3) [unfolded pd_env_def] pd_laws(4,5)
      kept_before [unfolded pd_env_def] _ _ kept_after [unfolded pd_env_def], of 1 2 ada_query False 100]
    unfolding pd_env_def by simp
qed

section \<open>The counter is evicted\<close>

text \<open>
  A full memory cache evicts any of its entries. Ada's query is asked, her tuple deleted through the
  invalidating store, the query asked again; then Bob's query evicts the generation counter, and Ada's is
  asked a third time.
\<close>

definition ask :: "fga_query \<Rightarrow> (pep_db, bool) dbm" where
  "ask = cached_check memory_ops 2000 pd_inner"

definition asked_answers :: "(pep_db, bool list) dbm" where
  "asked_answers = bindE (ask ada_query) (\<lambda>b1. thenE (to_delete (invalidating_store memory_ops pd_store) [ada_tuple])
     (bindE (ask ada_query) (\<lambda>b2. bindE (ask bob_query) (\<lambda>b3. bindE (ask ada_query) (\<lambda>b4. ret [b1, b2, b3, b4])))))"


end
