(* ===== verification/Flags.thy ===== *)
theory Flags
  imports Caches
begin

text \<open>
  Runtime feature flags (internal/featureflags: registry.go, store.go, service.go, provider.go,
  resolver.go) over the cache, and the watcher of internal/kubeproxy (flagwatcher.go, sessions.go) that
  closes the tunnels of disabled clusters. The OpenFeature SDK is not under src/: a client asks the
  provider and returns the default it was given when the provider reports an error.
\<close>

section \<open>The registry\<close>

datatype flag_scope = ScopePlatform | ScopeCluster

datatype flag_authority = AuthorityDB | AuthorityExternalAllowed

record flag_def =
  fd_key :: string
  fd_boolean :: bool
  fd_scopes :: "flag_scope list"
  fd_default :: bool
  fd_authority :: "flag_authority option"

definition flag_authority_of :: "flag_def \<Rightarrow> flag_authority" where
  "flag_authority_of d = (case fd_authority d of None \<Rightarrow> AuthorityDB | Some a \<Rightarrow> a)"

definition allows_scope :: "flag_def \<Rightarrow> flag_scope \<Rightarrow> bool" where
  "allows_scope d sc \<longleftrightarrow> List.member (fd_scopes d) sc"

definition KeyKubectlAccessEnabled :: string where "KeyKubectlAccessEnabled = ''kubectl_access.enabled''"
definition KeyClusterDexFanout :: string where "KeyClusterDexFanout = ''cluster_dex.fanout''"

definition flag_registry :: "flag_def list" where
  "flag_registry =
    [\<lparr>fd_key = KeyKubectlAccessEnabled, fd_boolean = True, fd_scopes = [ScopePlatform, ScopeCluster], fd_default = True, fd_authority = Some AuthorityDB\<rparr>,
     \<lparr>fd_key = KeyClusterDexFanout, fd_boolean = True, fd_scopes = [ScopePlatform], fd_default = True, fd_authority = Some AuthorityDB\<rparr>]"

fun validate_registry :: "flag_def list \<Rightarrow> err + unit" where
  "validate_registry [] = Inr ()"
| "validate_registry (d # ds) = (if allows_scope d ScopeCluster \<and> flag_authority_of d \<noteq> AuthorityDB then Inl Panic else validate_registry ds)"

definition lookup_flag :: "string \<Rightarrow> flag_def option" where
  "lookup_flag key = find (\<lambda>d. fd_key d = key) flag_registry"

section \<open>The table\<close>

record flag_row =
  fr_key :: string
  fr_scope :: flag_scope
  fr_scope_key :: string
  fr_value :: bool
  fr_by :: string
  fr_at :: int

record flag_db = cache_db +
  feature_flags :: "flag_row list"

definition flag_at :: "string \<Rightarrow> flag_scope \<Rightarrow> string \<Rightarrow> flag_row \<Rightarrow> bool" where
  "flag_at key sc sk r \<longleftrightarrow> fr_key r = key \<and> fr_scope r = sc \<and> fr_scope_key r = sk"

definition get_flag_row :: "string \<Rightarrow> flag_scope \<Rightarrow> string \<Rightarrow> ('a flag_db_scheme, flag_row option) dbm" where
  "get_flag_row key sc sk = sql (asks (\<lambda>s. select_row (flag_at key sc sk) (feature_flags s)))"

definition upsert_flag :: "string \<Rightarrow> flag_scope \<Rightarrow> string \<Rightarrow> bool \<Rightarrow> string \<Rightarrow> ('a flag_db_scheme, unit) dbm" where
  "upsert_flag key sc sk v by = sql (modify (\<lambda>s. if list_ex (flag_at key sc sk) (feature_flags s)
     then s\<lparr>feature_flags := update_rows (flag_at key sc sk) (\<lambda>r. r\<lparr>fr_value := v, fr_by := by, fr_at := clock s\<rparr>) (feature_flags s)\<rparr>
     else s\<lparr>feature_flags := feature_flags s @ [\<lparr>fr_key = key, fr_scope = sc, fr_scope_key = sk, fr_value = v, fr_by = by, fr_at = clock s\<rparr>]\<rparr>))"

definition delete_flag :: "string \<Rightarrow> flag_scope \<Rightarrow> string \<Rightarrow> ('a flag_db_scheme, bool) dbm" where
  "delete_flag key sc sk = sql (\<lambda>s. (Inr (0 < rows_affected (flag_at key sc sk) (feature_flags s)),
     s\<lparr>feature_flags := filter (\<lambda>r. \<not> flag_at key sc sk r) (feature_flags s)\<rparr>))"

text \<open>The platform row first: the texts of the scopes sort in descending order.\<close>

definition list_flag_rows :: "string \<Rightarrow> ('a flag_db_scheme, flag_row list) dbm" where
  "list_flag_rows key = sql (asks (\<lambda>s. let rows = filter (\<lambda>r. fr_key r = key) (feature_flags s)
     in sort_names fr_scope_key (filter (\<lambda>r. fr_scope r = ScopePlatform) rows)
      @ sort_names fr_scope_key (filter (\<lambda>r. fr_scope r = ScopeCluster) rows)))"

section \<open>Writing a flag\<close>

definition FlagGenerationKey :: string where "FlagGenerationKey = ''inari:flags:gen''"
definition EventFeatureFlagsUpdated :: string where "EventFeatureFlagsUpdated = ''featureflags.updated''"
definition ErrUnknownFlag :: err where "ErrUnknownFlag = ErrMsg ''featureflags: unknown flag key''"
definition ErrBadScope :: err where "ErrBadScope = ErrMsg ''featureflags: scope not allowed for this flag''"

definition flag_scope_str :: "flag_scope \<Rightarrow> string" where
  "flag_scope_str sc = (case sc of ScopePlatform \<Rightarrow> ''platform'' | ScopeCluster \<Rightarrow> ''cluster'')"

definition validate_flag :: "string \<Rightarrow> flag_scope \<Rightarrow> err + flag_def" where
  "validate_flag key sc = (case lookup_flag key of
     None \<Rightarrow> Inl ErrUnknownFlag
   | Some d \<Rightarrow> if \<not> allows_scope d sc then Inl ErrBadScope else Inr d)"

definition flag_bump :: "'s cache_ops option \<Rightarrow> ('s, unit) dbm" where
  "flag_bump c = (case c of None \<Rightarrow> ret ()
     | Some ops \<Rightarrow> catchE (bindE (co_incr ops FlagGenerationKey) (\<lambda>_. ret ())) (\<lambda>_. ret ()))"

text \<open>The audit row and the event of a write; no value is a cleared flag.\<close>

definition flag_value_json :: "bool option \<Rightarrow> json" where
  "flag_value_json v = (case v of None \<Rightarrow> JNull | Some b \<Rightarrow> JBool b)"

definition updated_payload :: "string \<Rightarrow> flag_scope \<Rightarrow> string \<Rightarrow> bool option \<Rightarrow> string \<Rightarrow> json" where
  "updated_payload key sc sk v by = JObj ([(''flagKey'', JStr key), (''scope'', JStr (flag_scope_str sc))]
     @ (if sk = [] then [] else [(''scopeKey'', JStr sk)]) @ [(''value'', flag_value_json v), (''updatedBy'', JStr by)])"

definition emit_flag :: "string \<Rightarrow> string \<Rightarrow> string \<Rightarrow> string \<Rightarrow> flag_scope \<Rightarrow> string \<Rightarrow> bool option \<Rightarrow> ('a db_scheme, unit) dbm" where
  "emit_flag actor org action key sc sk v =
     emit (audit_ev org actor action ''feature_flag'' (key @ ''/'' @ flag_scope_str sc @ ''/'' @ sk)
         (JObj [(''flagKey'', JStr key), (''scope'', JStr (flag_scope_str sc)), (''scopeKey'', JStr sk), (''value'', flag_value_json v)]))
       org EventFeatureFlagsUpdated (updated_payload key sc sk v actor)"

definition set_flag :: "'a flag_db_scheme cache_ops option \<Rightarrow> string \<Rightarrow> string \<Rightarrow> string \<Rightarrow> flag_scope \<Rightarrow> string \<Rightarrow> bool \<Rightarrow> ('a flag_db_scheme, unit) dbm" where
  "set_flag c actor org key sc sk v = bindE (lift_sum (validate_flag key sc)) (\<lambda>_.
     thenE (with_tx (thenE (upsert_flag key sc sk v actor) (emit_flag actor org ''featureflags.set'' key sc sk (Some v))))
       (flag_bump c))"

definition clear_flag :: "'a flag_db_scheme cache_ops option \<Rightarrow> string \<Rightarrow> string \<Rightarrow> string \<Rightarrow> flag_scope \<Rightarrow> string \<Rightarrow> ('a flag_db_scheme, unit) dbm" where
  "clear_flag c actor org key sc sk = bindE (lift_sum (validate_flag key sc)) (\<lambda>_.
     bindE (with_tx (bindE (delete_flag key sc sk) (\<lambda>deleted. if \<not> deleted then ret False
       else thenE (emit_flag actor org ''featureflags.cleared'' key sc sk None) (ret True))))
       (\<lambda>deleted. if deleted then flag_bump c else ret ()))"

section \<open>Reading a flag\<close>

definition flag_cache_key :: "string \<Rightarrow> string \<Rightarrow> string \<Rightarrow> string" where
  "flag_cache_key gen flag sk = ''inari:flags:'' @ gen @ '':'' @ flag @ ''|'' @ sk"

definition cached_flag :: "'s cache_ops \<Rightarrow> string \<Rightarrow> string \<Rightarrow> ('s, bool option) dbm" where
  "cached_flag ops flag sk = bindE (co_get ops FlagGenerationKey) (\<lambda>g.
     bindE (co_get ops (flag_cache_key (gen_str g) flag sk)) (\<lambda>v. ret (map_option (\<lambda>v. v = ''1'') v)))"

text \<open>The generation is read again, after the table.\<close>

definition set_cached_flag :: "'s cache_ops \<Rightarrow> int \<Rightarrow> string \<Rightarrow> string \<Rightarrow> bool \<Rightarrow> ('s, unit) dbm" where
  "set_cached_flag ops ttl flag sk v = bindE (co_get ops FlagGenerationKey) (\<lambda>g.
     co_set ops (flag_cache_key (gen_str g) flag sk) (bool_val v) ttl)"

definition resolve_uncached :: "flag_def \<Rightarrow> string \<Rightarrow> ('a flag_db_scheme, bool) dbm" where
  "resolve_uncached d cluster =
     bindE (if cluster \<noteq> [] \<and> allows_scope d ScopeCluster then get_flag_row (fd_key d) ScopeCluster cluster else ret None) (\<lambda>row.
       case row of
         Some r \<Rightarrow> ret (fr_value r)
       | None \<Rightarrow> bindE (get_flag_row (fd_key d) ScopePlatform []) (\<lambda>row. case row of
           Some r \<Rightarrow> ret (fr_value r) | None \<Rightarrow> ret (fd_default d)))"

record 's flag_provider =
  fp_cache :: "'s cache_ops option"
  fp_ttl :: int

definition resolve_flag :: "'a flag_db_scheme flag_provider \<Rightarrow> flag_def \<Rightarrow> string \<Rightarrow> ('a flag_db_scheme, bool) dbm" where
  "resolve_flag p d cluster = (case fp_cache p of
     None \<Rightarrow> resolve_uncached d cluster
   | Some ops \<Rightarrow> bindE (catchE (cached_flag ops (fd_key d) cluster) (\<lambda>_. ret None)) (\<lambda>hit. case hit of
       Some v \<Rightarrow> ret v
     | None \<Rightarrow> bindE (resolve_uncached d cluster) (\<lambda>v.
         thenE (catchE (set_cached_flag ops (fp_ttl p) (fd_key d) cluster v) (\<lambda>_. ret ())) (ret v))))"

text \<open>The value with whether the provider reports an error; the scope and the cluster come from the evaluation context.\<close>

definition boolean_evaluation :: "'a flag_db_scheme flag_provider \<Rightarrow> string \<Rightarrow> bool \<Rightarrow> string \<Rightarrow> string \<Rightarrow> ('a flag_db_scheme, bool \<times> bool) dbm" where
  "boolean_evaluation p flag dflt scope cluster = (case lookup_flag flag of
     None \<Rightarrow> ret (dflt, True)
   | Some d \<Rightarrow> if \<not> fd_boolean d then ret (dflt, True)
       else catchE (bindE (resolve_flag p d (if scope \<noteq> ''cluster'' then [] else cluster)) (\<lambda>v. ret (v, False)))
         (\<lambda>_. ret (fd_default d, True)))"

definition sdk_boolean :: "('s, bool \<times> bool) dbm \<Rightarrow> bool \<Rightarrow> ('s, bool) dbm" where
  "sdk_boolean evaluate dflt = bindE evaluate (\<lambda>(v, failed). ret (if failed then dflt else v))"

section \<open>The resolver\<close>

text \<open>A client takes the key, the dflt, the scope and the cluster.\<close>

type_synonym 's flag_client = "string \<Rightarrow> bool \<Rightarrow> string \<Rightarrow> string \<Rightarrow> ('s, bool) dbm"

record 's flag_resolver =
  rs_client :: "'s flag_client option"
  rs_external :: "'s flag_client option"
  rs_env :: "string \<rightharpoonup> bool"

definition db_client :: "'a flag_db_scheme flag_provider \<Rightarrow> 'a flag_db_scheme flag_client" where
  "db_client p key dflt scope cluster = sdk_boolean (boolean_evaluation p key dflt scope cluster) dflt"

definition client_for :: "'s flag_resolver \<Rightarrow> flag_def \<Rightarrow> string \<Rightarrow> 's flag_client option" where
  "client_for r d cluster = (if cluster = [] \<and> flag_authority_of d = AuthorityExternalAllowed \<and> rs_external r \<noteq> None
     then rs_external r else rs_client r)"

definition flag_bool :: "'s flag_resolver \<Rightarrow> string \<Rightarrow> string \<Rightarrow> ('s, bool) dbm" where
  "flag_bool r key cluster = (case rs_env r key of
     Some v \<Rightarrow> ret v
   | None \<Rightarrow> (case lookup_flag key of
       None \<Rightarrow> ret False
     | Some d \<Rightarrow> if \<not> fd_boolean d then ret False
         else (case client_for r d cluster of
           None \<Rightarrow> ret (fd_default d)
         | Some client \<Rightarrow> if cluster = [] then client key (fd_default d) [] []
             else client key (fd_default d) ''cluster'' cluster)))"

definition kubectl_access_enabled :: "'s flag_resolver \<Rightarrow> string \<Rightarrow> ('s, bool) dbm" where
  "kubectl_access_enabled r cluster = flag_bool r KeyKubectlAccessEnabled cluster"

section \<open>The watcher\<close>

text \<open>The live tunnel sessions, one per cluster; the watcher's tick returns those that stay.\<close>

type_synonym tunnels = "(string \<times> string) list"

definition register_tunnel :: "string \<Rightarrow> string \<Rightarrow> tunnels \<Rightarrow> tunnels \<times> string option" where
  "register_tunnel cluster sid ts = ((cluster, sid) # filter (\<lambda>t. fst t \<noteq> cluster) ts, map_of ts cluster)"

definition unregister_tunnel :: "string \<Rightarrow> string \<Rightarrow> tunnels \<Rightarrow> tunnels" where
  "unregister_tunnel cluster sid ts = (if map_of ts cluster = Some sid then filter (\<lambda>t. fst t \<noteq> cluster) ts else ts)"

definition close_cluster :: "string \<Rightarrow> tunnels \<Rightarrow> tunnels" where
  "close_cluster cluster ts = filter (\<lambda>t. fst t \<noteq> cluster) ts"

fun watch_clusters :: "(string \<Rightarrow> ('s, bool) dbm) \<Rightarrow> string list \<Rightarrow> tunnels \<Rightarrow> ('s, tunnels) dbm" where
  "watch_clusters flag [] ts = ret ts"
| "watch_clusters flag (c # cs) ts = bindE (flag c) (\<lambda>on. watch_clusters flag cs (if on then ts else close_cluster c ts))"

definition watch_tick :: "(string \<Rightarrow> ('s, bool) dbm) \<Rightarrow> tunnels \<Rightarrow> ('s, tunnels) dbm" where
  "watch_tick flag ts = bindE (flag []) (\<lambda>on. if \<not> on then ret [] else watch_clusters flag (map fst ts) ts)"

end
