(* ===== verification/FlagCaching.thy ===== *)
theory FlagCaching
  imports Flags
begin

text \<open>
  The flags read through the cache are the flags of the table: a service over the generation-stamped
  cache answers like a plain map from (key, scope, scope key) to values. Then what happens where
  reads and writes overlap and where the database is down.
\<close>

section \<open>The reference\<close>

type_synonym flag_map = "string \<times> flag_scope \<times> string \<rightharpoonup> bool"

definition flag_map_of :: "'a flag_db_scheme \<Rightarrow> flag_map" where
  "flag_map_of s = (\<lambda>(key, sc, sk). map_option fr_value (select_row (flag_at key sc sk) (feature_flags s)))"

definition flag_reference :: "flag_map \<Rightarrow> flag_def \<Rightarrow> string \<Rightarrow> bool" where
  "flag_reference f d cluster =
     (case (if cluster \<noteq> [] \<and> allows_scope d ScopeCluster then f (fd_key d, ScopeCluster, cluster) else None) of
        Some v \<Rightarrow> v
      | None \<Rightarrow> (case f (fd_key d, ScopePlatform, []) of Some v \<Rightarrow> v | None \<Rightarrow> fd_default d))"

definition resolver_reference :: "(string \<rightharpoonup> bool) \<Rightarrow> flag_map \<Rightarrow> string \<Rightarrow> string \<Rightarrow> bool" where
  "resolver_reference env f key cluster = (case env key of
     Some v \<Rightarrow> v
   | None \<Rightarrow> (case lookup_flag key of None \<Rightarrow> False | Some d \<Rightarrow> fd_boolean d \<and> flag_reference f d cluster))"

datatype flag_call =
    Ask string string
  | Put string string string flag_scope string bool
  | Clear string string string flag_scope string
  | Pause nat

fun reference_answers :: "(string \<rightharpoonup> bool) \<Rightarrow> flag_call list \<Rightarrow> flag_map \<Rightarrow> bool list" where
  "reference_answers env [] f = []"
| "reference_answers env (Ask key cluster # cs) f = resolver_reference env f key cluster # reference_answers env cs f"
| "reference_answers env (Put actor org key sc sk v # cs) f =
     reference_answers env cs (if isl (validate_flag key sc) then f else f((key, sc, sk) \<mapsto> v))"
| "reference_answers env (Clear actor org key sc sk # cs) f =
     reference_answers env cs (if isl (validate_flag key sc) then f else f((key, sc, sk) := None))"
| "reference_answers env (Pause n # cs) f = reference_answers env cs f"

fun flag_answers ::
  "'a flag_db_scheme flag_resolver \<Rightarrow> 'a flag_db_scheme cache_ops option \<Rightarrow> flag_call list \<Rightarrow> 'a flag_db_scheme \<Rightarrow> (err + bool) list" where
  "flag_answers r c [] s = []"
| "flag_answers r c (Ask key cluster # cs) s = (case flag_bool r key cluster s of (a, s') \<Rightarrow> a # flag_answers r c cs s')"
| "flag_answers r c (Put actor org key sc sk v # cs) s = flag_answers r c cs (snd (set_flag c actor org key sc sk v s))"
| "flag_answers r c (Clear actor org key sc sk # cs) s = flag_answers r c cs (snd (clear_flag c actor org key sc sk s))"
| "flag_answers r c (Pause n # cs) s = flag_answers r c cs (s\<lparr>clock := clock s + int n\<rparr>)"

section \<open>The memory backend with room\<close>

lemma mem_live_same: "mc_entries s' = mc_entries s \<Longrightarrow> clock s' = clock s \<Longrightarrow> mem_live s' = mem_live s"
  by (intro ext) (auto simp: mem_live_def split: option.split)

lemma delete_key_length: "length (delete_key k es) \<le> length es"
  by (simp add: delete_key_def)

text \<open>What no statement on the cache touches.\<close>

definition apart_same :: "'a flag_db_scheme \<Rightarrow> 'a flag_db_scheme \<Rightarrow> bool" where
  "apart_same s s' \<longleftrightarrow> faults s' = faults s \<and> clock s' = clock s \<and> mc_max s' = mc_max s \<and> feature_flags s' = feature_flags s"

lemma cache_moved_apart: 
  assumes "cache_moved s s'"
  shows "apart_same s s'"
proof -
  let ?t = "s\<lparr>mc_entries := mc_entries s', mc_draws := mc_draws s'\<rparr>"
  have eq: "s' = ?t" using assms by (simp add: cache_moved_def)
  have "faults s' = faults ?t" "clock s' = clock ?t" "mc_max s' = mc_max ?t" "feature_flags s' = feature_flags ?t"
    using eq by (auto intro: arg_cong)
  then show ?thesis by (simp add: apart_same_def)
qed

lemma get_room:
  assumes "mem_ok s" and "mem_get k s = (r, s')"
  shows "apart_same s s'" "mem_ok s'" "mem_live s' = mem_live s" "r = Inr (map_option fst (mem_live s k))"
    "length (mc_entries s') \<le> length (mc_entries s)"
proof -
  note g = memory_get [OF assms]
  from g show "apart_same s s'" "mem_ok s'" "mem_live s' = mem_live s" by (blast intro: cache_moved_apart)+
  show "length (mc_entries s') \<le> length (mc_entries s)"
    using assms(2) delete_key_length by (auto simp: mem_get_def split: option.splits if_splits)
  have "\<exists>v. r = Inr v" using assms(2) by (auto simp: mem_get_def split: option.splits if_splits)
  with g show "r = Inr (map_option fst (mem_live s k))" by auto
qed

lemma set_room:
  assumes "mem_ok s" and "mem_set k v ttl s = (r, s')" and "int (length (mc_entries s)) < mc_max s"
  shows "apart_same s s'" "mem_ok s'" "\<And>k'. k' \<noteq> k \<Longrightarrow> mem_live s' k' = mem_live s k'" "r = Inr ()"
    "\<And>y. mem_live s' k = Some y \<Longrightarrow> fst y = v" "length (mc_entries s') \<le> Suc (length (mc_entries s))"
proof -
  note g = memory_set [OF assms(1,2)]
  from g show "apart_same s s'" "mem_ok s'" by (blast intro: cache_moved_apart)+
  from assms(2,3) have s': "s' = s\<lparr>mc_entries := (k, \<lparr>me_value = v, me_expires = (if 0 < ttl then Some (clock s + ttl) else None)\<rparr>) # delete_key k (mc_entries s),
      mc_draws := mc_draws s\<rparr>" and r: "r = Inr ()"
    by (auto simp: mem_set_def Let_def)
  show "r = Inr ()" by (fact r)
  show "mem_live s' k' = mem_live s k'" if "k' \<noteq> k" for k'
    using that by (auto simp: s' mem_live_def map_of_delete_key split: option.splits)
  show "fst y = v" if "mem_live s' k = Some y" for y
    using that by (auto simp: s' mem_live_def split: if_splits)
  show "length (mc_entries s') \<le> Suc (length (mc_entries s))"
    using delete_key_length by (simp add: s')
qed

lemma incr_room:
  assumes "mem_ok s" and "mem_incr k s = (r, s')"
  shows "apart_same s s'" "mem_ok s'" "\<And>k'. k' \<noteq> k \<Longrightarrow> mem_live s' k' = mem_live s k'"
    "length (mc_entries s') \<le> Suc (length (mc_entries s))"
    "\<And>n. cur_count mem_live k s = Some n \<Longrightarrow> mem_live s' k = Some (format_int (wrap64 (n + 1)), None)"
proof -
  note g = memory_incr [OF assms]
  from g show "apart_same s s'" "mem_ok s'" by (blast intro: cache_moved_apart)+
  have s': "s' = s \<or> (\<exists>v. s' = s\<lparr>mc_entries := (k, v) # delete_key k (mc_entries s)\<rparr>)"
    using assms(2) by (auto simp: mem_incr_def Let_def split: option.splits if_splits)
  then show "mem_live s' k' = mem_live s k'" if "k' \<noteq> k" for k'
    using that by (auto simp: mem_live_def map_of_delete_key split: option.splits)
  from s' show "length (mc_entries s') \<le> Suc (length (mc_entries s))"
    using delete_key_length by auto
  show "mem_live s' k = Some (format_int (wrap64 (n + 1)), None)" if c: "cur_count mem_live k s = Some n" for n
  proof -
    have "(case map_of (mc_entries s) k of
        None \<Rightarrow> Some 0 | Some e \<Rightarrow> if me_expired (clock s) e then Some 0 else atoi (me_value e)) = cur_count mem_live k s"
      by (simp add: cur_count_def mem_live_def split: option.split)
    with c assms(2) have "s' = s\<lparr>mc_entries := (k, \<lparr>me_value = format_int (wrap64 (n + 1)), me_expires = None\<rparr>) # delete_key k (mc_entries s)\<rparr>"
      unfolding mem_incr_def by (auto simp: Let_def)
    then show ?thesis by (simp add: mem_live_def me_expired_def)
  qed
qed

section \<open>The cache agrees with the table\<close>

lemma flag_cache_key_inj:
  assumes "flag_cache_key (show_nat j) k c = flag_cache_key (show_nat j') k' c'" and "CHR ''|'' \<notin> set k" and "CHR ''|'' \<notin> set k'"
  shows "j = j' \<and> k = k' \<and> c = c'"
proof -
  from assms(1) have "show_nat j @ CHR '':'' # (k @ CHR ''|'' # c) = show_nat j' @ CHR '':'' # (k' @ CHR ''|'' # c')"
    by (simp add: flag_cache_key_def)
  from split_first [OF this show_nat_no_colon show_nat_no_colon] have "j = j'" and "k @ CHR ''|'' # c = k' @ CHR ''|'' # c'"
    using show_nat_inj by blast+
  with split_first [OF this(2) assms(2,3)] show ?thesis by blast
qed

lemma flag_cache_key_counter: "flag_cache_key g k c \<noteq> FlagGenerationKey"
  by (auto simp: flag_cache_key_def FlagGenerationKey_def append_eq_Cons_conv Cons_eq_append_conv)

lemma registry_keys: "d \<in> set flag_registry \<Longrightarrow> CHR ''|'' \<notin> set (fd_key d)"
  by (auto simp: flag_registry_def KeyKubectlAccessEnabled_def KeyClusterDexFanout_def)

lemma registry_unique: "d \<in> set flag_registry \<Longrightarrow> d' \<in> set flag_registry \<Longrightarrow> fd_key d = fd_key d' \<Longrightarrow> d = d'"
  by (auto simp: flag_registry_def KeyKubectlAccessEnabled_def KeyClusterDexFanout_def)

definition counter_at :: "nat \<Rightarrow> 'a flag_db_scheme \<Rightarrow> bool" where
  "counter_at m s \<longleftrightarrow> mem_live s FlagGenerationKey = (if m = 0 then None else Some (show_nat m, None))"

text \<open>Entries of the counter's generation hold the table's values; none is of a later generation.\<close>

definition coherent :: "nat \<Rightarrow> 'a flag_db_scheme \<Rightarrow> bool" where
  "coherent m s \<longleftrightarrow> (\<forall>d \<in> set flag_registry. \<forall>j cluster y. mem_live s (flag_cache_key (show_nat j) (fd_key d) cluster) = Some y \<longrightarrow>
     j \<le> m \<and> (j = m \<longrightarrow> (fst y = ''1'') = flag_reference (flag_map_of s) d cluster))"

lemma coherentD:
  "coherent m s \<Longrightarrow> d \<in> set flag_registry \<Longrightarrow> mem_live s (flag_cache_key (show_nat j) (fd_key d) cluster) = Some y \<Longrightarrow>
    j \<le> m \<and> (j = m \<longrightarrow> (fst y = ''1'') = flag_reference (flag_map_of s) d cluster)"
  unfolding coherent_def by blast

text \<open>\<open>n\<close> is the room that is left.\<close>

definition flag_inv :: "nat \<Rightarrow> nat \<Rightarrow> 'a flag_db_scheme \<Rightarrow> bool" where
  "flag_inv n m s \<longleftrightarrow> faults s = [] \<and> mem_ok s \<and> int (length (mc_entries s)) + int n \<le> mc_max s \<and> counter_at m s
     \<and> int m + int n < 2 ^ 63 \<and> coherent m s"

lemma flag_map_apart: "apart_same s s' \<Longrightarrow> flag_map_of s' = flag_map_of s"
  by (simp add: apart_same_def flag_map_of_def)

lemma gen_counter:
  assumes "counter_at m s"
  shows "gen_str (map_option fst (mem_live s FlagGenerationKey)) = show_nat m"
proof (cases "m = 0")
  case True
  have "show_nat 0 = ''0''" by code_simp
  with assms True show ?thesis by (simp add: counter_at_def gen_str_def)
next
  case False
  with assms show_nat_nonempty show ?thesis by (simp add: counter_at_def gen_str_def)
qed

lemma inv_get:
  assumes "flag_inv n m s" and "mem_get k s = (r, s')"
  shows "flag_inv n m s' \<and> flag_map_of s' = flag_map_of s \<and> mem_live s' = mem_live s \<and> r = Inr (map_option fst (mem_live s k)) \<and> apart_same s s'"
proof -
  from assms(1) have "mem_ok s" by (simp add: flag_inv_def)
  note g = get_room [OF this assms(2)]
  have "flag_inv n m s'"
    using assms(1) g flag_map_apart [OF g(1)] by (auto simp: flag_inv_def apart_same_def counter_at_def coherent_def)
  with g flag_map_apart show ?thesis by blast
qed

lemma inv_set:
  assumes inv: "flag_inv (Suc n) m s" and d: "d \<in> set flag_registry"
    and run: "mem_set (flag_cache_key (show_nat m) (fd_key d) cluster) (bool_val (flag_reference (flag_map_of s) d cluster)) ttl s = (r, s')"
  shows "r = Inr () \<and> flag_inv n m s' \<and> flag_map_of s' = flag_map_of s"
proof -
  let ?k = "flag_cache_key (show_nat m) (fd_key d) cluster"
  from inv have "mem_ok s" "int (length (mc_entries s)) < mc_max s" by (auto simp: flag_inv_def)
  note g = set_room [OF this(1) run this(2)]
  note same = flag_map_apart [OF g(1)]
  have "coherent m s'"
    unfolding coherent_def
  proof (intro ballI allI impI)
    fix d' j c y assume d': "d' \<in> set flag_registry" and l: "mem_live s' (flag_cache_key (show_nat j) (fd_key d') c) = Some y"
    show "j \<le> m \<and> (j = m \<longrightarrow> (fst y = ''1'') = flag_reference (flag_map_of s') d' c)"
    proof (cases "flag_cache_key (show_nat j) (fd_key d') c = ?k")
      case True
      from flag_cache_key_inj [OF True registry_keys [OF d'] registry_keys [OF d]]
      have e: "j = m" "c = cluster" "fd_key d' = fd_key d" by blast+
      have "d' = d" by (rule registry_unique [OF d' d e(3)])
      moreover have "fst y = bool_val (flag_reference (flag_map_of s) d cluster)" using g(5) l True by simp
      ultimately show ?thesis using e by (simp add: same bool_val_def)
    next
      case False
      with l have "mem_live s (flag_cache_key (show_nat j) (fd_key d') c) = Some y" using g(3) by simp
      moreover have "coherent m s" using inv by (simp add: flag_inv_def)
      ultimately show ?thesis unfolding same by (intro coherentD [OF _ d'])
    qed
  qed
  moreover have "counter_at m s'"
    using inv g(3) [OF flag_cache_key_counter [symmetric]] by (simp add: counter_at_def flag_inv_def)
  ultimately have "flag_inv n m s'" using inv g by (auto simp: flag_inv_def apart_same_def)
  with g same show ?thesis by blast
qed

lemma get_flag_row_ok: "faults s = [] \<Longrightarrow> get_flag_row key sc sk s = (Inr (select_row (flag_at key sc sk) (feature_flags s)), s)"
  by (simp add: get_flag_row_def asks_def)

lemma resolve_uncached_ok:
  assumes "faults s = []"
  shows "resolve_uncached d cluster s = (Inr (flag_reference (flag_map_of s) d cluster), s)"
  using assms
  by (auto simp: resolve_uncached_def flag_reference_def flag_map_of_def bindE_def ret_def get_flag_row_ok split: option.split)

definition cached_provider :: "int \<Rightarrow> 'a flag_db_scheme flag_provider" where
  "cached_provider ttl = \<lparr>fp_cache = Some memory_ops, fp_ttl = ttl\<rparr>"

lemma resolve_ok:
  assumes inv: "flag_inv (Suc n) m s" and d: "d \<in> set flag_registry"
  shows "\<exists>s'. resolve_flag (cached_provider ttl) d cluster s = (Inr (flag_reference (flag_map_of s) d cluster), s')
    \<and> flag_inv n m s' \<and> flag_map_of s' = flag_map_of s"
proof -
  let ?k = "flag_cache_key (show_nat m) (fd_key d) cluster" and ?v = "flag_reference (flag_map_of s) d cluster"
  have c: "counter_at m s" using inv by (simp add: flag_inv_def)
  obtain r1 s1 where g1: "mem_get FlagGenerationKey s = (r1, s1)" by fastforce
  note i1 = inv_get [OF inv g1]
  obtain r2 s2 where g2: "mem_get ?k s1 = (r2, s2)" by fastforce
  note i2 = inv_get [OF conjunct1 [OF i1] g2]
  have look: "cached_flag memory_ops (fd_key d) cluster s = (Inr (map_option (\<lambda>y. fst y = ''1'') (mem_live s ?k)), s2)"
    using i1 i2 g1 g2 gen_counter [OF c] by (simp add: cached_flag_def memory_ops_def bindE_def ret_def option.map_comp comp_def)
  have less: "flag_inv n m s2" using i2 by (auto simp: flag_inv_def)
  show ?thesis
  proof (cases "mem_live s ?k")
    case (Some y)
    have "coherent m s" using inv by (simp add: flag_inv_def)
    from coherentD [OF this d Some] have "(fst y = ''1'') = ?v" by blast
    with look Some less i1 i2 show ?thesis
      by (auto simp: resolve_flag_def cached_provider_def bindE_def catchE_def ret_def)
  next
    case None
    have map2: "flag_map_of s2 = flag_map_of s" using i1 i2 by simp
    have "faults s2 = []" using i2 by (simp add: flag_inv_def)
    note un = resolve_uncached_ok [OF this, of d cluster, unfolded map2]
    obtain r3 s3 where g3: "mem_get FlagGenerationKey s2 = (r3, s3)" by fastforce
    note i3 = inv_get [OF conjunct1 [OF i2] g3]
    obtain r4 s4 where g4: "mem_set ?k (bool_val ?v) ttl s3 = (r4, s4)" by fastforce
    have map3: "flag_map_of s3 = flag_map_of s" using i3 map2 by simp
    have "r4 = Inr () \<and> flag_inv n m s4 \<and> flag_map_of s4 = flag_map_of s"
      using inv_set [OF conjunct1 [OF i3] d, unfolded map3, OF g4] by simp
    moreover have "gen_str (map_option fst (mem_live s2 FlagGenerationKey)) = show_nat m"
      using i1 i2 gen_counter [OF c] by simp
    ultimately show ?thesis using look None un g3 g4 i3
      by (simp add: resolve_flag_def cached_provider_def set_cached_flag_def memory_ops_def bindE_def thenE_def catchE_def ret_def)
  qed
qed

section \<open>Writes\<close>

lemma select_row_map: "(\<And>r. P (g r) = P r) \<Longrightarrow> select_row P (map g rows) = map_option g (select_row P rows)"
  by (induction rows) (auto simp: select_row_def)

lemma select_row_one: "select_row P [r] = (if P r then Some r else None)"
  by (simp add: select_row_def)

lemma select_row_append: "select_row P (rows @ rows') = (case select_row P rows of None \<Rightarrow> select_row P rows' | Some r \<Rightarrow> Some r)"
  by (induction rows) (auto simp: select_row_def)

lemma select_row_filter: "(\<And>r. P r \<Longrightarrow> Q r) \<Longrightarrow> select_row P (filter Q rows) = select_row P rows"
  by (induction rows) (auto simp: select_row_def)

definition put_row :: "string \<Rightarrow> flag_scope \<Rightarrow> string \<Rightarrow> bool \<Rightarrow> string \<Rightarrow> int \<Rightarrow> flag_row list \<Rightarrow> flag_row list" where
  "put_row key sc sk v by t rows = (if list_ex (flag_at key sc sk) rows
     then update_rows (flag_at key sc sk) (\<lambda>r. r\<lparr>fr_value := v, fr_by := by, fr_at := t\<rparr>) rows
     else rows @ [\<lparr>fr_key = key, fr_scope = sc, fr_scope_key = sk, fr_value = v, fr_by = by, fr_at = t\<rparr>])"

lemma put_row_lookup:
  "map_option fr_value (select_row (flag_at k c x) (put_row key sc sk v by t rows)) =
     (if (k, c, x) = (key, sc, sk) then Some v else map_option fr_value (select_row (flag_at k c x) rows))"
proof (cases "list_ex (flag_at key sc sk) rows")
  case True
  let ?g = "\<lambda>r. if flag_at key sc sk r then r\<lparr>fr_value := v, fr_by := by, fr_at := t\<rparr> else r"
  have "select_row (flag_at k c x) (map ?g rows) = map_option ?g (select_row (flag_at k c x) rows)"
    by (rule select_row_map) (simp add: flag_at_def)
  then have eq: "select_row (flag_at k c x) (put_row key sc sk v by t rows) = map_option ?g (select_row (flag_at k c x) rows)"
    using True by (simp add: put_row_def update_rows_def)
  show ?thesis
  proof (cases "select_row (flag_at k c x) rows")
    case None
    with True have "(k, c, x) \<noteq> (key, sc, sk)" by (auto simp: select_row_None_iff list_ex_iff)
    with None eq show ?thesis by auto
  next
    case (Some r)
    from select_row_SomeD [OF Some] have "flag_at key sc sk r \<longleftrightarrow> (k, c, x) = (key, sc, sk)" by (auto simp: flag_at_def)
    with Some eq show ?thesis by auto
  qed
next
  case False
  then have "select_row (flag_at key sc sk) rows = None" by (auto simp: select_row_None_iff list_ex_iff)
  with False show ?thesis
    by (auto simp: put_row_def select_row_append select_row_one flag_at_def split: option.split)
qed

lemma emit_keeps_more:
  assumes "faults s = []"
  obtains s' where "emit ev org typ payload s = (Inr (), s')" "faults s' = []" "clock s' = clock s" "db.more s' = db.more s"
  using assms that by (simp add: emit_def record_audit_def append_outbox_def bindE_def thenE_def new_uuid_def modify_def)

lemma same_more:
  assumes "db.more s' = db.more (s :: 'a flag_db_scheme)"
  shows "mc_entries s' = mc_entries s" "mc_max s' = mc_max s" "feature_flags s' = feature_flags s"
  using assms by (cases s; cases s'; simp)+

text \<open>A write's transaction, on a healthy database: the table changes, the cache does not.\<close>

definition wrote_flags :: "flag_row list \<Rightarrow> 'a flag_db_scheme \<Rightarrow> 'a flag_db_scheme \<Rightarrow> bool" where
  "wrote_flags rows s s' \<longleftrightarrow> faults s' = [] \<and> clock s' = clock s \<and> mc_entries s' = mc_entries s \<and> mc_max s' = mc_max s \<and> feature_flags s' = rows"

lemma set_flag_tx:
  assumes "faults s = []"
  obtains s' where "with_tx (thenE (upsert_flag key sc sk v by) (emit_flag actor org action key sc sk w)) s = (Inr (), s')"
    "wrote_flags (put_row key sc sk v by (clock s) (feature_flags s)) s s'"
proof -
  let ?s1 = "s\<lparr>feature_flags := put_row key sc sk v by (clock s) (feature_flags s)\<rparr>"
  have up: "upsert_flag key sc sk v by s = (Inr (), ?s1)"
    using assms by (simp add: upsert_flag_def modify_def put_row_def)
  have "faults ?s1 = []" using assms by simp
  then obtain s2 where em: "emit_flag actor org action key sc sk w ?s1 = (Inr (), s2)" and e: "faults s2 = []" "clock s2 = clock ?s1" "db.more s2 = db.more ?s1"
    unfolding emit_flag_def by (rule emit_keeps_more)
  have body: "thenE (upsert_flag key sc sk v by) (emit_flag actor org action key sc sk w) s = (Inr (), s2)"
    using up em by (simp add: thenE_def bindE_def)
  from with_tx_healthy [of s "thenE (upsert_flag key sc sk v by) (emit_flag actor org action key sc sk w)" "Inr ()" s2] assms body e(1)
  have "with_tx (thenE (upsert_flag key sc sk v by) (emit_flag actor org action key sc sk w)) s = (Inr (), s2)" by simp
  moreover have "wrote_flags (put_row key sc sk v by (clock s) (feature_flags s)) s s2"
    using e same_more [OF e(3)] by (simp add: wrote_flags_def)
  ultimately show ?thesis by (rule that)
qed

lemma clear_flag_tx:
  assumes "faults s = []"
  obtains s' where "with_tx (bindE (delete_flag key sc sk) (\<lambda>deleted. if \<not> deleted then ret False
       else thenE (emit_flag actor org action key sc sk w) (ret True))) s = (Inr (list_ex (flag_at key sc sk) (feature_flags s)), s')"
    "wrote_flags (filter (\<lambda>r. \<not> flag_at key sc sk r) (feature_flags s)) s s'"
proof -
  let ?s1 = "s\<lparr>feature_flags := filter (\<lambda>r. \<not> flag_at key sc sk r) (feature_flags s)\<rparr>"
  let ?body = "bindE (delete_flag key sc sk) (\<lambda>deleted. if \<not> deleted then ret False else thenE (emit_flag actor org action key sc sk w) (ret True))"
  have some: "(0 < rows_affected (flag_at key sc sk) (feature_flags s)) = list_ex (flag_at key sc sk) (feature_flags s)"
    by (simp add: rows_affected_def filter_empty_conv list_ex_iff)
  have del: "delete_flag key sc sk s = (Inr (list_ex (flag_at key sc sk) (feature_flags s)), ?s1)"
    using assms by (simp add: delete_flag_def some)
  show ?thesis
  proof (cases "list_ex (flag_at key sc sk) (feature_flags s)")
    case False
    have "?body s = (Inr False, ?s1)" using del False by (simp add: bindE_def ret_def)
    with with_tx_healthy [of s ?body "Inr False" ?s1] assms have "with_tx ?body s = (Inr False, ?s1)" by simp
    with False show ?thesis using assms by (intro that [of ?s1]) (simp_all add: wrote_flags_def)
  next
    case True
    have "faults ?s1 = []" using assms by simp
    then obtain s2 where em: "emit_flag actor org action key sc sk w ?s1 = (Inr (), s2)" and e: "faults s2 = []" "clock s2 = clock ?s1" "db.more s2 = db.more ?s1"
      unfolding emit_flag_def by (rule emit_keeps_more)
    have "?body s = (Inr True, s2)" using del em True by (simp add: bindE_def thenE_def ret_def)
    with with_tx_healthy [of s ?body "Inr True" s2] assms e(1) have "with_tx ?body s = (Inr True, s2)" by simp
    with True show ?thesis using e same_more [OF e(3)] by (intro that [of s2]) (simp_all add: wrote_flags_def)
  qed
qed

lemma bump_ok:
  assumes "flag_inv (Suc n) m s" and "wrote_flags rows s s1"
  shows "\<exists>s'. flag_bump (Some memory_ops) s1 = (Inr (), s') \<and> flag_inv n (Suc m) s' \<and> flag_map_of s' = flag_map_of s1"
proof -
  obtain r s2 where run: "mem_incr FlagGenerationKey s1 = (r, s2)" by fastforce
  from assms have live1: "mem_live s1 = mem_live s" and ok1: "mem_ok s1" and cnt: "counter_at m s1" and f1: "faults s1 = []"
    and room: "int (length (mc_entries s1)) + int (Suc n) \<le> mc_max s1" and small: "int m + int (Suc n) < 2 ^ 63" and co: "coherent m s"
    by (auto simp: wrote_flags_def flag_inv_def mem_ok_def counter_at_def mem_live_same [of s1 s])
  note g = incr_room [OF ok1 run]
  have cur: "cur_count mem_live FlagGenerationKey s1 = Some (int m)"
    using cnt small by (simp add: counter_at_def cur_count_def atoi_show_nat)
  have "format_int (wrap64 (int m + 1)) = show_nat (Suc m)"
    using small by (simp add: wrap64_small format_int_nonneg nat_add_distrib)
  with g(5) [OF cur] have cnt2: "counter_at (Suc m) s2" by (simp add: counter_at_def)
  have "coherent (Suc m) s2"
    unfolding coherent_def
  proof (intro ballI allI impI)
    fix d j c y assume d: "d \<in> set flag_registry" and l: "mem_live s2 (flag_cache_key (show_nat j) (fd_key d) c) = Some y"
    then have "mem_live s (flag_cache_key (show_nat j) (fd_key d) c) = Some y"
      using g(3) [OF flag_cache_key_counter] live1 by simp
    from coherentD [OF co d this] have "j \<le> m" by blast
    then show "j \<le> Suc m \<and> (j = Suc m \<longrightarrow> (fst y = ''1'') = flag_reference (flag_map_of s2) d c)" by simp
  qed
  then have "flag_inv n (Suc m) s2" using g(1,2,4) cnt2 room small f1 by (simp add: flag_inv_def apart_same_def)
  moreover have "flag_bump (Some memory_ops) s1 = (Inr (), s2)"
    using run by (auto simp: flag_bump_def memory_ops_def catchE_def bindE_def ret_def split: sum.split)
  ultimately show ?thesis using flag_map_apart [OF g(1)] by blast
qed

lemma flag_inv_less: "flag_inv (Suc n) m s \<Longrightarrow> flag_inv n m s"
  by (auto simp: flag_inv_def)

lemma put_ok:
  assumes "flag_inv (Suc n) m s"
  shows "\<exists>m'. flag_inv n m' (snd (set_flag (Some memory_ops) actor org key sc sk v s))
    \<and> flag_map_of (snd (set_flag (Some memory_ops) actor org key sc sk v s)) =
        (if isl (validate_flag key sc) then flag_map_of s else (flag_map_of s)((key, sc, sk) \<mapsto> v))"
proof (cases "validate_flag key sc")
  case (Inl e)
  with flag_inv_less [OF assms] show ?thesis by (auto simp: set_flag_def bindE_def lift_sum_def)
next
  case (Inr d)
  have "faults s = []" using assms by (simp add: flag_inv_def)
  then obtain s1 where tx: "with_tx (thenE (upsert_flag key sc sk v actor) (emit_flag actor org ''featureflags.set'' key sc sk (Some v))) s = (Inr (), s1)"
    and w: "wrote_flags (put_row key sc sk v actor (clock s) (feature_flags s)) s s1" by (rule set_flag_tx)
  from bump_ok [OF assms w] obtain s2 where b: "flag_bump (Some memory_ops) s1 = (Inr (), s2)" "flag_inv n (Suc m) s2" "flag_map_of s2 = flag_map_of s1"
    by blast
  have "set_flag (Some memory_ops) actor org key sc sk v s = (Inr (), s2)"
    using Inr tx b(1) by (simp add: set_flag_def bindE_def thenE_def lift_sum_def)
  moreover have "flag_map_of s1 = (flag_map_of s)((key, sc, sk) \<mapsto> v)"
    using w by (auto simp: wrote_flags_def flag_map_of_def put_row_lookup fun_eq_iff)
  ultimately show ?thesis using b Inr by auto
qed

lemma clear_ok:
  assumes "flag_inv (Suc n) m s"
  shows "\<exists>m'. flag_inv n m' (snd (clear_flag (Some memory_ops) actor org key sc sk s))
    \<and> flag_map_of (snd (clear_flag (Some memory_ops) actor org key sc sk s)) =
        (if isl (validate_flag key sc) then flag_map_of s else (flag_map_of s)((key, sc, sk) := None))"
proof (cases "validate_flag key sc")
  case (Inl e)
  with flag_inv_less [OF assms] show ?thesis by (auto simp: clear_flag_def bindE_def lift_sum_def)
next
  case (Inr d)
  let ?rows = "filter (\<lambda>r. \<not> flag_at key sc sk r) (feature_flags s)"
  have "faults s = []" using assms by (simp add: flag_inv_def)
  then obtain s1 where tx: "with_tx (bindE (delete_flag key sc sk) (\<lambda>deleted. if \<not> deleted then ret False
       else thenE (emit_flag actor org ''featureflags.cleared'' key sc sk None) (ret True))) s = (Inr (list_ex (flag_at key sc sk) (feature_flags s)), s1)"
    and w: "wrote_flags ?rows s s1" by (rule clear_flag_tx)
  have gone: "flag_map_of s1 = (flag_map_of s)((key, sc, sk) := None)"
  proof (rule ext)
    fix x :: "string \<times> flag_scope \<times> string"
    obtain k c y where x: "x = (k, c, y)" by (metis prod_cases3)
    show "flag_map_of s1 x = ((flag_map_of s)((key, sc, sk) := None)) x"
    proof (cases "x = (key, sc, sk)")
      case True
      then have "select_row (flag_at k c y) ?rows = None" by (auto simp: x select_row_None_iff)
      with True w show ?thesis by (simp add: x wrote_flags_def flag_map_of_def)
    next
      case False
      then have "select_row (flag_at k c y) ?rows = select_row (flag_at k c y) (feature_flags s)"
        by (intro select_row_filter) (auto simp: x flag_at_def)
      with False w show ?thesis by (auto simp: x wrote_flags_def flag_map_of_def)
    qed
  qed
  show ?thesis
  proof (cases "list_ex (flag_at key sc sk) (feature_flags s)")
    case True
    from bump_ok [OF assms w] obtain s2 where b: "flag_bump (Some memory_ops) s1 = (Inr (), s2)" "flag_inv n (Suc m) s2" "flag_map_of s2 = flag_map_of s1"
      by blast
    have "clear_flag (Some memory_ops) actor org key sc sk s = (Inr (), s2)"
      using Inr tx b(1) True by (simp add: clear_flag_def bindE_def lift_sum_def)
    with b gone Inr show ?thesis by auto
  next
    case False
    have run: "clear_flag (Some memory_ops) actor org key sc sk s = (Inr (), s1)"
      using Inr tx False by (simp add: clear_flag_def bindE_def lift_sum_def ret_def)
    have rows: "feature_flags s1 = feature_flags s"
      using w False by (auto simp: wrote_flags_def list_ex_iff intro!: filter_True)
    then have same: "flag_map_of s1 = flag_map_of s" by (simp add: flag_map_of_def)
    have live: "mem_live s1 = mem_live s" using w by (auto simp: wrote_flags_def intro: mem_live_same)
    have "flag_inv n m s1"
      using flag_inv_less [OF assms] w same live by (simp add: flag_inv_def wrote_flags_def mem_ok_def counter_at_def coherent_def)
    with run gone same Inr show ?thesis by auto
  qed
qed

section \<open>The cached flags are the table's\<close>

definition server_resolver :: "int \<Rightarrow> 'a flag_db_scheme flag_client option \<Rightarrow> (string \<rightharpoonup> bool) \<Rightarrow> 'a flag_db_scheme flag_resolver" where
  "server_resolver ttl external env = \<lparr>rs_client = Some (db_client (cached_provider ttl)), rs_external = external, rs_env = env\<rparr>"

text \<open>Every registered flag is authoritative in the database: the external client is never asked.\<close>

lemma registry_db: "d \<in> set flag_registry \<Longrightarrow> fd_boolean d \<and> flag_authority_of d = AuthorityDB"
  by (auto simp: flag_registry_def flag_authority_of_def)

lemma lookup_registry: "lookup_flag key = Some d \<Longrightarrow> d \<in> set flag_registry \<and> fd_key d = key"
  by (auto simp: lookup_flag_def find_Some_iff)

lemma ask_ok:
  assumes "flag_inv (Suc n) m s"
  shows "\<exists>s'. flag_bool (server_resolver ttl external env) key cluster s = (Inr (resolver_reference env (flag_map_of s) key cluster), s')
    \<and> flag_inv n m s' \<and> flag_map_of s' = flag_map_of s"
proof (cases "env key")
  case (Some v)
  with flag_inv_less [OF assms] show ?thesis by (simp add: flag_bool_def server_resolver_def ret_def resolver_reference_def)
next
  case None
  show ?thesis
  proof (cases "lookup_flag key")
    case None
    with \<open>env key = None\<close> flag_inv_less [OF assms] show ?thesis
      by (simp add: flag_bool_def server_resolver_def ret_def resolver_reference_def)
  next
    case (Some d)
    from lookup_registry [OF Some] registry_db have d: "d \<in> set flag_registry" "fd_key d = key" "fd_boolean d" "flag_authority_of d = AuthorityDB"
      by blast+
    from resolve_ok [OF assms d(1)] obtain s' where run: "resolve_flag (cached_provider ttl) d cluster s = (Inr (flag_reference (flag_map_of s) d cluster), s')"
      and s': "flag_inv n m s'" "flag_map_of s' = flag_map_of s" by blast
    have "flag_bool (server_resolver ttl external env) key cluster s = (Inr (flag_reference (flag_map_of s) d cluster), s')"
      using Some d run \<open>env key = None\<close>
      by (auto simp: flag_bool_def client_for_def server_resolver_def db_client_def sdk_boolean_def boolean_evaluation_def bindE_def catchE_def ret_def)
    with s' Some d(3) \<open>env key = None\<close> show ?thesis by (simp add: resolver_reference_def)
  qed
qed

lemma pause_ok:
  assumes "flag_inv (Suc n) m s"
  shows "flag_inv n m (s\<lparr>clock := clock s + int d\<rparr>) \<and> flag_map_of (s\<lparr>clock := clock s + int d\<rparr>) = flag_map_of s"
proof -
  let ?t = "s\<lparr>clock := clock s + int d\<rparr>"
  have map: "flag_map_of ?t = flag_map_of s" by (simp add: flag_map_of_def)
  have live: "mem_live s k = Some y" if "mem_live ?t k = Some y" for k y
    using that by (auto simp: mem_live_def me_expired_def split: option.splits if_splits)
  have "coherent m ?t"
    unfolding coherent_def map using assms live by (blast intro: coherentD [unfolded coherent_def] dest: coherentD flag_inv_def [THEN iffD1])
  moreover have "counter_at m ?t"
    using assms by (auto simp: flag_inv_def counter_at_def mem_live_def me_expired_def split: option.splits if_splits)
  ultimately show ?thesis using assms map by (simp add: flag_inv_def mem_ok_def)
qed

lemma answers_ok:
  "flag_inv (length calls) m s \<Longrightarrow>
    flag_answers (server_resolver ttl external env) (Some memory_ops) calls s = map Inr (reference_answers env calls (flag_map_of s))"
proof (induction calls arbitrary: m s)
  case Nil
  show ?case by simp
next
  case (Cons c cs)
  from Cons.prems have inv: "flag_inv (Suc (length cs)) m s" by simp
  show ?case
  proof (cases c)
    case (Ask key cluster)
    from ask_ok [OF inv] obtain s' where "flag_bool (server_resolver ttl external env) key cluster s = (Inr (resolver_reference env (flag_map_of s) key cluster), s')"
      "flag_inv (length cs) m s'" "flag_map_of s' = flag_map_of s" by blast
    with Cons.IH [of m s'] show ?thesis by (simp add: Ask)
  next
    case (Put actor org key sc sk v)
    from put_ok [OF inv, of actor org key sc sk v] obtain m' where p: "flag_inv (length cs) m' (snd (set_flag (Some memory_ops) actor org key sc sk v s))"
      "flag_map_of (snd (set_flag (Some memory_ops) actor org key sc sk v s)) = (if isl (validate_flag key sc) then flag_map_of s else (flag_map_of s)((key, sc, sk) \<mapsto> v))"
      by blast
    show ?thesis by (simp only: Put flag_answers.simps reference_answers.simps Cons.IH [OF p(1)] p(2))
  next
    case (Clear actor org key sc sk)
    from clear_ok [OF inv, of actor org key sc sk] obtain m' where p: "flag_inv (length cs) m' (snd (clear_flag (Some memory_ops) actor org key sc sk s))"
      "flag_map_of (snd (clear_flag (Some memory_ops) actor org key sc sk s)) = (if isl (validate_flag key sc) then flag_map_of s else (flag_map_of s)((key, sc, sk) := None))"
      by blast
    show ?thesis by (simp only: Clear flag_answers.simps reference_answers.simps Cons.IH [OF p(1)] p(2))
  next
    case (Pause d)
    from pause_ok [OF inv, of d] Cons.IH [of m "s\<lparr>clock := clock s + int d\<rparr>"] show ?thesis by (simp add: Pause)
  qed
qed

text \<open>
  (C19) Cached flags are the table's flags. On a healthy database, with an empty memory cache that
  holds as many entries as there are calls, any sequence of reads, writes, clears and pauses answers as
  a plain map from (key, scope, scope key) to values with the precedence environment, cluster,
  platform, built-in default: no write is ever missed by a later read, for any TTL and whatever
  external provider is configured.
\<close>

theorem flags_equal_reference:
  assumes "faults s = []" and "mc_entries s = []" and "int (length calls) \<le> mc_max s" and "mc_max s < 2 ^ 63"
  shows "flag_answers (server_resolver ttl external env) (Some memory_ops) calls s = map Inr (reference_answers env calls (flag_map_of s))"
proof (rule answers_ok)
  show "flag_inv (length calls) 0 s"
    using assms by (simp add: flag_inv_def mem_ok_def counter_at_def coherent_def mem_live_def)
qed

end
