(* ===== verification/FlagGaps.thy ===== *)
theory FlagGaps
  imports FlagCaching
begin

text \<open>
  The watcher closes exactly the tunnels the flags disable; and where the flags fail to do what they
  mean to: a read that overlaps a write caches the old value in the new generation, and an outage of the
  database turns a thrown kill switch back on.
\<close>

section \<open>The watcher\<close>

definition kubectl_reference :: "(string \<rightharpoonup> bool) \<Rightarrow> flag_map \<Rightarrow> string \<Rightarrow> bool" where
  "kubectl_reference env f cluster = resolver_reference env f KeyKubectlAccessEnabled cluster"

lemma watch_clusters_ok:
  "flag_inv (length cs) m s \<Longrightarrow> \<exists>s'. watch_clusters (kubectl_access_enabled (server_resolver ttl external env)) cs ts s =
     (Inr (filter (\<lambda>t. fst t \<in> set cs \<longrightarrow> kubectl_reference env (flag_map_of s) (fst t)) ts), s')"
proof (induction cs arbitrary: m s ts)
  case Nil
  show ?case by (simp add: ret_def)
next
  case (Cons c cs)
  from Cons.prems have "flag_inv (Suc (length cs)) m s" by simp
  from ask_ok [OF this, of ttl external env KeyKubectlAccessEnabled c]
  obtain s1 where run: "kubectl_access_enabled (server_resolver ttl external env) c s = (Inr (kubectl_reference env (flag_map_of s) c), s1)"
    and s1: "flag_inv (length cs) m s1" "flag_map_of s1 = flag_map_of s"
    unfolding kubectl_access_enabled_def kubectl_reference_def by blast
  let ?ts = "if kubectl_reference env (flag_map_of s) c then ts else close_cluster c ts"
  from Cons.IH [OF s1(1), of ?ts] obtain s2 where rest: "watch_clusters (kubectl_access_enabled (server_resolver ttl external env)) cs ?ts s1 =
     (Inr (filter (\<lambda>t. fst t \<in> set cs \<longrightarrow> kubectl_reference env (flag_map_of s) (fst t)) ?ts), s2)"
    unfolding s1(2) by blast
  have "filter (\<lambda>t. fst t \<in> set cs \<longrightarrow> kubectl_reference env (flag_map_of s) (fst t)) ?ts =
    filter (\<lambda>t. fst t \<in> set (c # cs) \<longrightarrow> kubectl_reference env (flag_map_of s) (fst t)) ts"
    by (auto simp: close_cluster_def intro!: filter_cong)
  with run rest show ?case by (simp add: bindE_def)
qed


section \<open>An example\<close>

definition flags_start :: flag_db where
  "flags_start = \<lparr>faults = [], clock = 100, uuids = (\<lambda>_. []), uuid_next = 0, audit_rows = [], audit_archive = [], outbox_rows = [], outbox_seq = 1,
     mc_entries = [], mc_max = 9, mc_rand = (\<lambda>n. n), mc_draws = 0, feature_flags = []\<rparr>"

definition flags_off :: flag_db where
  "flags_off = flags_start\<lparr>feature_flags := [\<lparr>fr_key = KeyKubectlAccessEnabled, fr_scope = ScopeCluster, fr_scope_key = ''c1'', fr_value = False,
     fr_by = ''ops'', fr_at = 1\<rparr>]\<rparr>"

definition demo_tunnels :: tunnels where
  "demo_tunnels = [(''c1'', ''s1''), (''c2'', ''s2'')]"

lemma empty_cache_inv: "faults s = [] \<Longrightarrow> mc_entries s = [] \<Longrightarrow> int n \<le> mc_max s \<Longrightarrow> mc_max s < 2 ^ 63 \<Longrightarrow> flag_inv n 0 s"
  by (simp add: flag_inv_def mem_ok_def counter_at_def coherent_def mem_live_def)


definition demo_flag_calls :: "flag_call list" where
  "demo_flag_calls = [Ask KeyKubectlAccessEnabled ''c1'', Put ''ops'' [] KeyKubectlAccessEnabled ScopePlatform [] False, Ask KeyKubectlAccessEnabled ''c1'',
     Put ''ada'' ''org:a'' KeyKubectlAccessEnabled ScopeCluster ''c1'' True, Ask KeyKubectlAccessEnabled ''c1'', Ask KeyKubectlAccessEnabled [],
     Put ''ops'' [] KeyClusterDexFanout ScopeCluster ''c1'' False, Clear ''ada'' ''org:a'' KeyKubectlAccessEnabled ScopeCluster ''c1'',
     Ask KeyKubectlAccessEnabled ''c1'']"

lemma flags_equal_reference_witness:
  "flag_answers (server_resolver 10 None Map.empty) (Some memory_ops) demo_flag_calls flags_start = map Inr [True, False, True, False, False]"
proof -
  have "reference_answers Map.empty demo_flag_calls (flag_map_of flags_start) = [True, False, True, False, False]" by code_simp
  moreover have "length demo_flag_calls = 9" by (simp add: demo_flag_calls_def)
  ultimately show ?thesis
    using flags_equal_reference [of flags_start demo_flag_calls 10 None Map.empty] by (simp add: flags_start_def)
qed

section \<open>A missed kill switch\<close>

text \<open>A read of the platform's flag that a write overtakes between the read of the table and the cache.\<close>

definition kubectl_def :: flag_def where "kubectl_def = hd flag_registry"

definition overtaken_read :: "int \<Rightarrow> (flag_db, bool) dbm" where
  "overtaken_read ttl = bindE (resolve_uncached kubectl_def []) (\<lambda>v.
     thenE (set_flag (Some memory_ops) ''ops'' [] KeyKubectlAccessEnabled ScopePlatform [] False)
       (thenE (set_cached_flag memory_ops ttl KeyKubectlAccessEnabled [] v) (ret v)))"

definition after_read :: "int \<Rightarrow> flag_db" where
  "after_read t = (let s = snd (overtaken_read 1000 flags_start) in s\<lparr>clock := clock s + t\<rparr>)"

definition kubectl_now :: "int \<Rightarrow> err + bool" where
  "kubectl_now t = fst (kubectl_access_enabled (server_resolver 1000 None Map.empty) [] (after_read t))"


section \<open>An outage\<close>

text \<open>
  (C36) An outage turns a thrown kill switch back on. When access is disabled for the platform, the
  value is not cached and the statement that reads it fails, the resolver answers the built-in
  default, which is enabled.
\<close>

theorem outage_enables_access:
  assumes "flag_map_of s (KeyKubectlAccessEnabled, ScopePlatform, []) = Some False" and "mem_ok s"
    and "\<forall>g. mem_live s (flag_cache_key g KeyKubectlAccessEnabled []) = None" and "faults s = True # fs"
  shows "\<exists>s'. kubectl_access_enabled (server_resolver ttl external Map.empty) [] s = (Inr True, s')"
proof -
  have reg: "lookup_flag KeyKubectlAccessEnabled = Some kubectl_def" "fd_boolean kubectl_def" "fd_default kubectl_def" "fd_key kubectl_def = KeyKubectlAccessEnabled"
    "flag_authority_of kubectl_def = AuthorityDB"
    by (simp_all add: lookup_flag_def flag_registry_def kubectl_def_def flag_authority_of_def)
  obtain r1 s1 where g1: "mem_get FlagGenerationKey s = (r1, s1)" by fastforce
  note i1 = get_room [OF assms(2) g1]
  obtain r2 s2 where g2: "mem_get (flag_cache_key (gen_str (map_option fst (mem_live s FlagGenerationKey))) KeyKubectlAccessEnabled []) s1 = (r2, s2)" by fastforce
  note i2 = get_room [OF i1(2) g2]
  have look: "cached_flag memory_ops KeyKubectlAccessEnabled [] s = (Inr None, s2)"
    using g1 g2 i1 i2 assms(3) by (simp add: cached_flag_def memory_ops_def bindE_def ret_def)
  have "faults s2 = True # fs" using i1(1) i2(1) assms(4) by (simp add: apart_same_def)
  then have "\<exists>s3. resolve_uncached kubectl_def [] s2 = (Inl ErrDB, s3)"
    by (simp add: resolve_uncached_def get_flag_row_def sql_def bindE_def ret_def)
  then obtain s3 where "resolve_flag (cached_provider ttl) kubectl_def [] s = (Inl ErrDB, s3)"
    using look reg(4) by (auto simp: resolve_flag_def cached_provider_def bindE_def catchE_def)
  then show ?thesis using reg
    by (simp add: kubectl_access_enabled_def flag_bool_def client_for_def server_resolver_def db_client_def sdk_boolean_def
        boolean_evaluation_def bindE_def catchE_def ret_def)
qed

lemma outage_enables_access_witness:
  "\<exists>s'. kubectl_access_enabled (server_resolver 10 None Map.empty) []
     (flags_start\<lparr>faults := [True], feature_flags := [\<lparr>fr_key = KeyKubectlAccessEnabled, fr_scope = ScopePlatform, fr_scope_key = [], fr_value = False,
        fr_by = ''ops'', fr_at = 1\<rparr>]\<rparr>) = (Inr True, s')"
  by (rule outage_enables_access [where fs = "[]"])
    (simp_all add: flags_start_def flag_map_of_def select_row_def flag_at_def mem_ok_def mem_live_def)

end
