(* ===== verification/Spec2Isabelle.thy ===== *)
theory Spec2Isabelle
  imports ApprovalConfig AgentSession RolloutGaps Drift TenancyMirror DeletionEffects Leases ZoneGaps ZoneWiring ZoneBaseline DecisionExample FlagGaps
begin

text \<open>
  A model of the Inari control plane (inari-server), the Go service that keeps the tenants, their
  permissions and their Kubernetes clusters. All paths below are relative to \<open>src/\<close>.

  \<^bold>\<open>The program.\<close> One process serves HTTP routes for people and gRPC streams for the agents that run in
  the clusters; PostgreSQL holds the state. Every write of a service is one transaction that stores its
  rows together with an audit row and an outbox row (internal/audit). A relay publishes the outbox to
  JetStream in order, and consumers apply the events at least once: the tuple writer keeps the OpenFGA
  tuples that decide permissions (internal/authz), the resume handlers of rollouts, zones and tenant
  deletions wait for the decisions of the approval workflow (internal/approvals). Commands reach the
  agents through a durable queue (internal/agentgateway/queue.go) and leave it by the agent's answer.
  Loops that must run on one replica hold a lease (internal/leaderlease).

  \<^bold>\<open>The style.\<close> An operation is a value of type \<open>('s, 'a) dbm\<close> (theory Prelude): it takes the state to an
  error or a result and the new state. \<open>sql\<close> is one statement; the list \<open>faults\<close> of the state says which
  of the following statements, begins and commits fail, so every theorem about all states is also a
  theorem about every pattern of database failures. \<open>with_tx\<close> is \<open>WithTx\<close> of internal/db/db.go: it
  restores the state it began with when its body or its commit fails; the calls to services outside the
  database stay outside the transactions, as in the code. The tables
  are lists of records inside one extensible record that grows from theory to theory (\<open>db\<close>,
  \<open>approvals_db\<close>, \<open>agents_db\<close>, \<open>fleet_db\<close>, \<open>tenancy_db\<close>, \<open>deletion_db\<close>, \<open>lease_db\<close>, \<open>zone_db\<close>), as
  the Go services share one pool. Errors are the constructors of \<open>err\<close>; every early return of the source
  is a branch. Integers are \<open>int\<close> or \<open>nat\<close>, and where a Go \<open>int64\<close> overflows (the wait of a rollout gate) the
  wrap-around is written out. The interfaces of the Go code (Keycloak, OpenFGA, Git, AWS, the catalog,
  the permission resolver) are records of operations that the services take as arguments. Strings are
  lists of characters, compared bytewise; ORDER BY is modelled as byte order where it matters.

  \<^bold>\<open>Theories and sources.\<close>

  \<^item> Prelude: errors, the database monad (internal/db/db.go), JSON values, Go's string functions, the
    generic lemmas and the rules for what a program preserves.
  \<^item> Outbox: internal/audit/audit.go, internal/audit/nats.go, internal/eventbus/eventbus.go. The relay with
    its publish budget and the delivery of a message with its retries and the dead-letter
    subject; at least once delivery, order, and the retry budget.
  \<^item> Approvals and ApprovalConfig: internal/approvals. Gate, decision, cancellation, expiry, lifecycle
    requests; the configuration with its JSON document and \<open>time.ParseDuration\<close>. A settled request is
    final, a decision is all or nothing, the requester never decides.
  \<^item> AgentQueue: internal/agentgateway/queue.go and the dispatch of stream.go. A command survives until
    it is answered. The locale \<open>command_queue\<close> is the contract of the queue its clients use.
  \<^item> ClusterRegistry: internal/clusterregistry (clusterregistry.go, lifecycle.go). Registration tokens are
    used once; the life cycle follows its table.
  \<^item> Capabilities and AgentSession: internal/capabilities, internal/agentgateway (stream.go, mapping.go,
    session_registry.go, registration.go). The framed full sync stores exactly what was sent; one
    session per cluster is live.
  \<^item> Fleet, Rollouts, RolloutSafety, RolloutDelivery, RolloutConcurrency, RolloutRollback, RolloutGaps,
    Drift: internal/fleetmanager. The rollout machine follows its table under every interleaving with
    stale copies and failing statements, gates hold, stages end healthy, the concurrency is bounded,
    a rollback reaches every member; the sweep of drift tracks the divergence.
  \<^item> Permissions, TupleSync, TupleWriter: internal/authz. The catalog of permissions and the built-in
    roles, the reconcilers, the outbox consumer; reconciling makes the tuples exactly the desired ones.
  \<^item> Tenancy, TenancyService, TenancySafety, TenancyMirror: internal/tenancy (tenancy.go, roles.go,
    members.go, member_projection.go, seed.go, identity.go, platform.go). Every organization keeps an
    administrator team; drained through relay and tuple writer, the tuples mirror the roles.
  \<^item> TenantDeletion, DeletionSafety, DeletionTeardown, DeletionCompletion, DeletionEffects:
    internal/tenancy/deletion.go and deletion_resume.go. No teardown before the decision, the audit
    history survives, the teardown completes, a denied request restores the tuples.
  \<^item> Leases: internal/leaderlease. One row per lease, failover in time, and the window with two leaders.
  \<^item> TenantZones, ZoneBackends, ZoneSafety, ZoneExample, ZoneGaps, ZoneWiring, ZoneBaseline:
    internal/tenantzonefactory. The twelve resumable steps that vend an account and provision a
    zone, in order and never repeated; what a stale copy, a rejected request and the wiring break.
  \<^item> Caches, DecisionCache, DecisionExample: internal/cache (cache.go, memory.go) and
    internal/authz/cachepep.go. A cached decision is at most a TTL old under every interleaving, and none is
    from before a completed invalidation while the generation counter is kept; what its eviction does.
  \<^item> Flags, FlagCaching, FlagGaps: internal/featureflags (registry.go, store.go, service.go, provider.go,
    resolver.go) and internal/kubeproxy (flagwatcher.go, sessions.go). The cached flags equal a plain map; the
    watcher closes the tunnels the flags disable; what overlapping reads and outages do to a kill switch.
  \<^item> CloudAccounts: internal/cloudaccounts. Registered accounts keep their format.

  \<^bold>\<open>Interfaces.\<close> The locales \<open>command_queue\<close> (interpreted on the queue's operations), \<open>cluster_lister\<close> (on
  the registry's listing), \<open>rollout_invariant\<close> (interpreted for the path of a rollout and for a parked
  gate), \<open>cloud_backend\<close> (on the in-memory backends the server runs by default) and \<open>shared_cache\<close> (on the
  memory backend of the cache) hold the laws one
  component relies on and the lemmas of its clients.

  \<^bold>\<open>Loops and fuel.\<close> Loops over a list are structural recursion. \<open>advance\<close> of a rollout runs at most 64
  rounds, the bound \<open>maxAdvanceSteps\<close> of the code itself. \<open>read_pages\<close> runs on fuel, since the Go loop
  ends only with an empty continuation token; \<open>read_pages_returns\<close> shows that one more than the number of
  remaining tuples is enough. \<open>acquire_loop\<close> of the leases takes its number of attempts, and
  \<open>lease_failover\<close> gives the number after which a free lease is held. Tickers and consumers are sequences
  of ticks and deliveries.

  \<^bold>\<open>Parameters.\<close> OpenFGA is a client with the documented behaviour of Write and Read
  (\<open>fga_write_laws\<close>, \<open>fga_read_laws\<close>); JetStream is the outcome of a publish or of a handler; Keycloak is
  the record \<open>idp\<close>, and \<open>keycloak_like\<close> says what is known of its member call; the AWS dry run of an
  account, protobuf decoding and semantic versions are functions. Each hypothesis of this kind has an
  instance in a witness. The truth of a permission check is a function of the state (\<open>openfga_like\<close>).

  \<^bold>\<open>Not modelled.\<close> The HTTP surfaces (decoding of requests and mapping of errors to statuses over the
  modelled services), the clients of Keycloak, AWS, Git, OCI registries and secret stores, and the
  modules whose work is rendering text and calling them: add-ons, scaffolder, orchestrator, catalog,
  inventory, policy service, platform resources, RBAC materialization, cluster Dex, Git
  repositories and webhooks, the streams of the Kubernetes proxy, the extension host and the notifications; the
  Redis client; metrics, logging, configuration and start-up.
\<close>

end
